(* ===== verification/Go_Prelude.thy ===== *)
theory Go_Prelude
  imports Main "HOL-Library.Multiset" "HOL-Library.List_Lexorder" "HOL-Library.Char_ord"
    "HOL-Library.Word" "HOL-Library.AList"
begin

text \<open>
  Shared notions of the development: the collections of facts the component proofs use, Go's
  three-way comparison functions with the sorting they drive (\<open>cmp.Compare\<close>, \<open>cmp.Or\<close>,
  \<open>slices.SortFunc\<close>, \<open>slices.SortStableFunc\<close>), 32-bit counters, and generic facts on lists.
  Nothing here models a file of the repository; it models what the source uses of Go's
  standard library.
\<close>

named_theorems history_simps \<open>operations of a deployment history, unfolded\<close>
named_theorems gate_simps \<open>gate decisions, unfolded\<close>

type_synonym int32 = "32 word"

section \<open>Three-way comparison\<close>

text \<open>
  \<open>cmp.Compare\<close>, \<open>strings.Compare\<close> and \<open>time.Time.Compare\<close> return -1, 0 or 1; \<open>cmp.Or\<close>
  returns the first of its arguments that is not zero.
\<close>

definition ord_compare :: "'k::linorder \<Rightarrow> 'k \<Rightarrow> int" where
  "ord_compare a b = (if a < b then -1 else if a = b then 0 else 1)"

fun cmp_or :: "int list \<Rightarrow> int" where
  "cmp_or [] = 0"
| "cmp_or (x # xs) = (if x \<noteq> 0 then x else cmp_or xs)"

fun insert_cmp :: "('a \<Rightarrow> 'a \<Rightarrow> int) \<Rightarrow> 'a \<Rightarrow> 'a list \<Rightarrow> 'a list" where
  "insert_cmp c x [] = [x]"
| "insert_cmp c x (y # ys) = (if c x y \<le> 0 then x # y # ys else y # insert_cmp c x ys)"

text \<open>
  The stable sort by a comparison. \<open>slices.SortFunc\<close> promises a sorted permutation only; where
  the comparison separates all elements there is exactly one (\<open>sort_unique\<close> below), and where it
  does not, the development uses no more of the result than that it is a sorted permutation.
\<close>

fun sort_cmp :: "('a \<Rightarrow> 'a \<Rightarrow> int) \<Rightarrow> 'a list \<Rightarrow> 'a list" where
  "sort_cmp c [] = []"
| "sort_cmp c (x # xs) = insert_cmp c x (sort_cmp c xs)"

lemma mset_insert_cmp [simp]: "mset (insert_cmp c x xs) = add_mset x (mset xs)"
  by (induction xs) auto

lemma mset_sort_cmp [simp]: "mset (sort_cmp c xs) = mset xs"
  by (induction xs) auto

lemma set_sort_cmp [simp]: "set (sort_cmp c xs) = set xs"
  by (metis mset_sort_cmp set_mset_mset)

lemma length_sort_cmp [simp]: "length (sort_cmp c xs) = length xs"
  by (metis mset_sort_cmp size_mset)

lemma distinct_sort_cmp [simp]: "distinct (sort_cmp c xs) = distinct xs"
  by (metis mset_sort_cmp mset_eq_imp_distinct_iff)

lemma sort_cmp_eq_Nil [simp]: "sort_cmp c xs = [] \<longleftrightarrow> xs = []"
  by (metis length_0_conv length_sort_cmp)

lemma distinct_map_sort_cmp [simp]: "distinct (map f (sort_cmp c xs)) = distinct (map f xs)"
  by (metis mset_map mset_sort_cmp mset_eq_imp_distinct_iff)

locale three_way =
  fixes cmp :: "'a \<Rightarrow> 'a \<Rightarrow> int"
  assumes cmp_flip: "cmp b a = - cmp a b"
    and cmp_trans: "cmp a b \<le> 0 \<Longrightarrow> cmp b c \<le> 0 \<Longrightarrow> cmp a c \<le> 0"
begin

lemma cmp_refl [simp]: "cmp a a = 0"
  using cmp_flip [of a a] by simp

lemma cmp_total: "cmp a b \<le> 0 \<or> cmp b a \<le> 0"
  using cmp_flip [of a b] by linarith

lemma cmp_zero_sym: "cmp a b = 0 \<longleftrightarrow> cmp b a = 0"
  using cmp_flip [of a b] by auto

lemma not_cmp_le: "\<not> cmp a b \<le> 0 \<Longrightarrow> cmp b a < 0"
  using cmp_flip [of a b] by linarith

lemma cmp_less_trans: "cmp a b < 0 \<Longrightarrow> cmp b c \<le> 0 \<Longrightarrow> cmp a c < 0"
proof -
  assume ab: "cmp a b < 0" and bc: "cmp b c \<le> 0"
  show "cmp a c < 0"
  proof (rule ccontr)
    assume "\<not> cmp a c < 0"
    then have "cmp c a \<le> 0" using cmp_flip [of a c] by linarith
    then have "cmp b a \<le> 0" using bc cmp_trans by blast
    with ab cmp_flip [of a b] show False by linarith
  qed
qed

lemma cmp_le_less_trans: "cmp a b \<le> 0 \<Longrightarrow> cmp b c < 0 \<Longrightarrow> cmp a c < 0"
proof -
  assume ab: "cmp a b \<le> 0" and bc: "cmp b c < 0"
  show "cmp a c < 0"
  proof (rule ccontr)
    assume "\<not> cmp a c < 0"
    then have "cmp c a \<le> 0" using cmp_flip [of a c] by linarith
    then have "cmp c b \<le> 0" using ab cmp_trans by blast
    with bc cmp_flip [of b c] show False by linarith
  qed
qed

abbreviation le_cmp :: "'a \<Rightarrow> 'a \<Rightarrow> bool" where
  "le_cmp a b \<equiv> cmp a b \<le> 0"

lemma insert_sorted: "sorted_wrt le_cmp xs \<Longrightarrow> sorted_wrt le_cmp (insert_cmp cmp x xs)"
proof (induction xs)
  case Nil
  then show ?case by simp
next
  case (Cons y ys)
  show ?case
  proof (cases "cmp x y \<le> 0")
    case True
    then show ?thesis using Cons.prems by (auto intro: cmp_trans)
  next
    case False
    then have "cmp y x \<le> 0" using not_cmp_le by force
    moreover have "set (insert_cmp cmp x ys) = insert x (set ys)"
      by (metis mset_insert_cmp set_mset_add_mset_insert set_mset_mset)
    ultimately show ?thesis using False Cons by auto
  qed
qed

lemma sort_sorted: "sorted_wrt le_cmp (sort_cmp cmp xs)"
  by (induction xs) (auto intro: insert_sorted)

lemma sorted_unique:
  assumes "mset xs = mset ys" "sorted_wrt le_cmp xs" "sorted_wrt le_cmp ys"
    and "\<forall>a\<in>set xs. \<forall>b\<in>set xs. cmp a b = 0 \<longrightarrow> a = b"
  shows "xs = ys"
  using assms
proof (induction xs arbitrary: ys)
  case Nil
  then show ?case by simp
next
  case (Cons x xs)
  then obtain y zs where ys: "ys = y # zs" by (cases ys) auto
  have "x \<in> set ys" "y \<in> set (x # xs)"
    using Cons.prems(1) ys by (metis list.set_intros(1) set_mset_mset)+
  then have "cmp y x \<le> 0" "cmp x y \<le> 0"
    using Cons.prems(2,3) ys by auto
  then have "cmp x y = 0" using cmp_flip [of x y] by linarith
  then have "x = y" using Cons.prems(4) \<open>y \<in> set (x # xs)\<close> by auto
  then show ?case using Cons ys by auto
qed

lemma sort_unique:
  assumes "mset ys = mset xs" "sorted_wrt le_cmp ys"
    and "\<forall>a\<in>set xs. \<forall>b\<in>set xs. cmp a b = 0 \<longrightarrow> a = b"
  shows "ys = sort_cmp cmp xs"
  using sorted_unique [of ys "sort_cmp cmp xs"] assms sort_sorted
  by (metis mset_sort_cmp set_mset_mset)

text \<open>Sorting the same elements gives the same list, in whatever order they are listed.\<close>

lemma sort_permuted:
  assumes "mset xs = mset ys"
    and "\<forall>a\<in>set xs. \<forall>b\<in>set xs. cmp a b = 0 \<longrightarrow> a = b"
  shows "sort_cmp cmp xs = sort_cmp cmp ys"
  using assms by (intro sort_unique) (auto simp: sort_sorted dest: mset_eq_setD)

lemma sort_first_le: "sort_cmp cmp xs = y # ys \<Longrightarrow> x \<in> set xs \<Longrightarrow> cmp y x \<le> 0"
  using sort_sorted [of xs] by (metis cmp_refl order_refl set_ConsD set_sort_cmp sorted_wrt.simps(2))

lemma take_sorted_le:
  assumes "x \<in> set (take n (sort_cmp cmp xs))" "y \<in> set (drop n (sort_cmp cmp xs))"
  shows "cmp x y \<le> 0"
  using sort_sorted [of xs] assms
  by (metis append_take_drop_id sorted_wrt_append)

end

lemma ord_compare_le: "ord_compare a b \<le> 0 \<longleftrightarrow> a \<le> b"
  by (auto simp: ord_compare_def)

lemma ord_compare_less: "ord_compare a b < 0 \<longleftrightarrow> a < b"
  by (auto simp: ord_compare_def)

lemma ord_compare_0 [simp]: "ord_compare a b = 0 \<longleftrightarrow> a = b"
  by (auto simp: ord_compare_def)

lemma three_way_ord: "three_way (\<lambda>a b. ord_compare (f a) (f b))"
  by unfold_locales (auto simp: ord_compare_def split: if_splits)

lemma three_way_swap:
  assumes c: "three_way c"
  shows "three_way (\<lambda>a b. c b a)"
proof
  show "c a b = - c b a" for a b
    using c by (rule three_way.cmp_flip)
  show "c z x \<le> 0" if "c y x \<le> 0" "c z y \<le> 0" for x y z
    using c that(2,1) by (rule three_way.cmp_trans)
qed

lemma three_way_lex:
  assumes c: "three_way c" and d: "three_way d"
  shows "three_way (\<lambda>a b. if c a b \<noteq> 0 then c a b else d a b)"
proof
  fix a b
  show "(if c b a \<noteq> 0 then c b a else d b a) = - (if c a b \<noteq> 0 then c a b else d a b)"
    using three_way.cmp_flip [OF c, of a b] three_way.cmp_flip [OF d, of a b] by auto
next
  fix x y z
  assume xy: "(if c x y \<noteq> 0 then c x y else d x y) \<le> 0"
    and yz: "(if c y z \<noteq> 0 then c y z else d y z) \<le> 0"
  have cxy: "c x y \<le> 0" and cyz: "c y z \<le> 0" using xy yz by (auto split: if_splits)
  then have cxz: "c x z \<le> 0" using three_way.cmp_trans [OF c] by blast
  show "(if c x z \<noteq> 0 then c x z else d x z) \<le> 0"
  proof (cases "c x z = 0")
    case False
    then show ?thesis using cxz by simp
  next
    case True
    have "\<not> c x y < 0" using cyz True three_way.cmp_less_trans [OF c, of x y z] by auto
    moreover have "\<not> c y z < 0" using cxy True three_way.cmp_le_less_trans [OF c, of x y z] by auto
    ultimately have "c x y = 0" "c y z = 0" using cxy cyz by linarith+
    then show ?thesis using True xy yz three_way.cmp_trans [OF d] by (auto split: if_splits)
  qed
qed

section \<open>32-bit counters\<close>

lemma sint_inject32: "sint (a :: int32) = sint b \<longleftrightarrow> a = b"
  by (auto intro: signed_word_eqI)

lemma sint_of_nat32:
  assumes "n < 2 ^ 31"
  shows "sint (of_nat n :: int32) = int n"
proof -
  have "sint (of_nat n :: int32) = signed_take_bit 31 (int n)"
    by (simp add: signed_of_nat)
  also have "\<dots> = int n"
    using assms by (intro signed_take_bit_int_eq_self) auto
  finally show ?thesis .
qed

section \<open>Lists\<close>

lemma find_SomeD: "find P xs = Some x \<Longrightarrow> P x \<and> x \<in> set xs"
  by (induction xs) (auto split: if_splits)

lemma find_dom: "find P xs \<noteq> None \<longleftrightarrow> (\<exists>x\<in>set xs. P x)"
  by (induction xs) auto

lemma option_case_first: "(case x of None \<Rightarrow> r | Some failed \<Rightarrow> Some failed) = None \<longleftrightarrow> x = None \<and> r = None"
  by (cases x) auto

lemma length_filter_sum:
  "length (filter P xs) + length (filter (\<lambda>x. \<not> P x) xs) = length xs"
  by (induction xs) auto

lemma list_all2_filter_map:
  "list_all2 R xs ys \<Longrightarrow> length xs = length ys"
  by (rule list_all2_lengthD)

end
