(* ===== verification/Go_Strings.thy ===== *)
theory Go_Strings
  imports Go_Prelude
begin

text \<open>
  What the source uses of Go's \<open>strings\<close>, \<open>strconv\<close> and \<open>fmt\<close>. A Go string is a sequence of
  bytes, here a list of (8-bit) characters: comparison is bytewise and lengths count bytes.
\<close>

abbreviation str_compare :: "string \<Rightarrow> string \<Rightarrow> int" where
  "str_compare \<equiv> ord_compare"

text \<open>\<open>cmp.Or\<close> on strings: the first that is not empty.\<close>

fun str_or :: "string list \<Rightarrow> string" where
  "str_or [] = []"
| "str_or (s # ss) = (if s \<noteq> [] then s else str_or ss)"

fun str_join :: "string \<Rightarrow> string list \<Rightarrow> string" where
  "str_join sep [] = []"
| "str_join sep [x] = x"
| "str_join sep (x # y # ys) = x @ sep @ str_join sep (y # ys)"

definition has_prefix :: "string \<Rightarrow> string \<Rightarrow> bool" where
  "has_prefix p s = (take (length p) s = p)"

definition trim_prefix :: "string \<Rightarrow> string \<Rightarrow> string" where
  "trim_prefix p s = (if has_prefix p s then drop (length p) s else s)"

definition has_suffix :: "string \<Rightarrow> string \<Rightarrow> bool" where
  "has_suffix p s = has_prefix (rev p) (rev s)"

definition trim_suffix :: "string \<Rightarrow> string \<Rightarrow> string" where
  "trim_suffix p s = (if has_suffix p s then take (length s - length p) s else s)"

text \<open>\<open>strings.Contains\<close> and \<open>strings.Cut\<close>, whose separator is not empty where it is used.\<close>

fun str_contains :: "string \<Rightarrow> string \<Rightarrow> bool" where
  "str_contains p [] = (p = [])"
| "str_contains p (c # s) = (has_prefix p (c # s) \<or> str_contains p s)"

fun str_cut :: "string \<Rightarrow> string \<Rightarrow> (string \<times> string) option" where
  "str_cut sep [] = None"
| "str_cut sep (c # s) =
     (if has_prefix sep (c # s) then Some ([], drop (length sep) (c # s))
      else map_option (\<lambda>(before, after). (c # before, after)) (str_cut sep s))"

text \<open>\<open>strings.TrimSpace\<close> on ASCII: tab, line feed, vertical tab, form feed, carriage return, space.\<close>

definition ascii_space :: "char \<Rightarrow> bool" where
  "ascii_space c = (let n = (of_char c :: nat) in n = 32 \<or> 9 \<le> n \<and> n \<le> 13)"

definition trim_space :: "string \<Rightarrow> string" where
  "trim_space s = rev (dropWhile ascii_space (rev (dropWhile ascii_space s)))"

text \<open>\<open>strings.Trim(s, "/")\<close> and its kin: strips one character from both ends.\<close>

definition trim_char :: "char \<Rightarrow> string \<Rightarrow> string" where
  "trim_char c s = rev (dropWhile ((=) c) (rev (dropWhile ((=) c) s)))"

text \<open>\<open>strings.ToLower\<close> on ASCII, \<open>strings.Split\<close> by a character, and \<open>s[:strings.LastIndex(s, c)]\<close> with what follows.\<close>

definition lower_char :: "char \<Rightarrow> char" where
  "lower_char c = (let n = (of_char c :: nat) in if 65 \<le> n \<and> n \<le> 90 then char_of (n + 32) else c)"

definition to_lower :: "string \<Rightarrow> string" where
  "to_lower s = map lower_char s"

fun str_split :: "char \<Rightarrow> string \<Rightarrow> string list" where
  "str_split sep [] = [[]]"
| "str_split sep (c # s) =
     (if c = sep then [] # str_split sep s
      else (case str_split sep s of [] \<Rightarrow> [[c]] | w # ws \<Rightarrow> (c # w) # ws))"

definition cut_last :: "char \<Rightarrow> string \<Rightarrow> (string \<times> string) option" where
  "cut_last c s =
     (if c \<notin> set s then None
      else (let after = rev (takeWhile ((\<noteq>) c) (rev s)) in Some (take (length s - length after - 1) s, after)))"

text \<open>Reading a map, which yields the empty string for a key that is not there.\<close>

definition string_at :: "(string \<rightharpoonup> string) \<Rightarrow> string \<Rightarrow> string" where
  "string_at m k = (case m k of Some s \<Rightarrow> s | None \<Rightarrow> [])"

section \<open>Decimals\<close>

text \<open>The decimal digits of a number that is not negative, most significant first.\<close>

definition digit_char :: "int \<Rightarrow> char" where
  "digit_char n = char_of (48 + n)"

function digits :: "int \<Rightarrow> string" where
  "digits n = (if n < 10 then [digit_char n] else digits (n div 10) @ [digit_char (n mod 10)])"
  by pat_completeness auto
termination
  by (relation "measure nat") auto

declare digits.simps [simp del]

abbreviation nat_dec :: "nat \<Rightarrow> string" where
  "nat_dec n \<equiv> digits (int n)"

definition int_dec :: "int \<Rightarrow> string" where
  "int_dec i = (if i < 0 then CHR ''-'' # digits (- i) else digits i)"

text \<open>A decimal padded with zeros to \<open>w\<close> digits, as the formatting of times writes fields.\<close>

definition pad_dec :: "nat \<Rightarrow> int \<Rightarrow> string" where
  "pad_dec w n = (let s = digits n in replicate (w - length s) (CHR ''0'') @ s)"

definition dec_val :: "string \<Rightarrow> int" where
  "dec_val s = foldl (\<lambda>v c. 10 * v + (of_char c - 48)) 0 s"

lemma of_digit_char: "0 \<le> n \<Longrightarrow> n < 10 \<Longrightarrow> (of_char (digit_char n) :: int) = 48 + n"
  by (simp add: digit_char_def)

lemma dec_val_snoc: "dec_val (s @ [c]) = 10 * dec_val s + (of_char c - 48)"
  by (simp add: dec_val_def)

lemma dec_val_digits [simp]: "0 \<le> n \<Longrightarrow> dec_val (digits n) = n"
proof (induction n rule: digits.induct)
  case (1 n)
  show ?case
  proof (cases "n < 10")
    case True
    then show ?thesis using "1.prems" by (simp add: digits.simps [of n] dec_val_def of_digit_char)
  next
    case False
    then show ?thesis
      using 1 by (simp add: digits.simps [of n] dec_val_snoc of_digit_char)
  qed
qed

lemma dec_val_zeros: "dec_val (replicate k (CHR ''0'') @ s) = dec_val s"
proof -
  have "foldl (\<lambda>v c. 10 * v + (of_char c - 48)) 0 (replicate k (CHR ''0'')) = (0::int)"
    by (induction k) auto
  then show ?thesis by (simp add: dec_val_def)
qed

lemma dec_val_pad_dec [simp]: "0 \<le> n \<Longrightarrow> dec_val (pad_dec w n) = n"
  by (simp add: pad_dec_def Let_def dec_val_zeros)

lemma pad_dec_inject: "0 \<le> m \<Longrightarrow> 0 \<le> n \<Longrightarrow> pad_dec w m = pad_dec w n \<longleftrightarrow> m = n"
  by (metis dec_val_pad_dec)

lemma length_digits_le: "n < 10 ^ Suc k \<Longrightarrow> length (digits n) \<le> Suc k"
proof (induction k arbitrary: n)
  case 0
  then show ?case by (simp add: digits.simps)
next
  case (Suc k)
  then have "n div 10 < 10 ^ Suc k" by (simp add: div_less_iff_less_mult)
  then have "length (digits (n div 10)) \<le> Suc k" by (rule Suc.IH)
  then show ?case by (subst digits.simps) simp
qed

lemma length_pad_dec: "n < 10 ^ Suc k \<Longrightarrow> length (pad_dec (Suc k) n) = Suc k"
  using length_digits_le [of n k] by (simp add: pad_dec_def Let_def)

section \<open>Quoting\<close>

text \<open>
  The verb \<open>%q\<close> of \<open>fmt\<close>: a Go string literal. Bytes of printable UTF-8 sequences stay as they
  are; the names quoted in the source are Kubernetes names, which are ASCII.
\<close>

definition hex_digit :: "nat \<Rightarrow> char" where
  "hex_digit n = (if n < 10 then char_of (48 + n) else char_of (87 + n))"

definition quote_char :: "char \<Rightarrow> string" where
  "quote_char c = (let n = (of_char c :: nat); bs = char_of (92 :: nat) in
     if n = 34 \<or> n = 92 then [bs, c]
     else if n = 7 then [bs, CHR ''a''] else if n = 8 then [bs, CHR ''b'']
     else if n = 9 then [bs, CHR ''t''] else if n = 10 then [bs, CHR ''n'']
     else if n = 11 then [bs, CHR ''v''] else if n = 12 then [bs, CHR ''f'']
     else if n = 13 then [bs, CHR ''r'']
     else if n < 32 \<or> n = 127 then [bs, CHR ''x'', hex_digit (n div 16), hex_digit (n mod 16)]
     else [c])"

definition go_quote :: "string \<Rightarrow> string" where
  "go_quote s = [char_of (34 :: nat)] @ concat (map quote_char s) @ [char_of (34 :: nat)]"

section \<open>Facts\<close>

lemma has_prefix_append [simp]: "has_prefix p (p @ s)"
  by (simp add: has_prefix_def)

lemma has_prefix_iff: "has_prefix p s \<longleftrightarrow> (\<exists>r. s = p @ r)"
  by (metis append_take_drop_id has_prefix_append has_prefix_def)

lemma has_prefix_Nil [simp]: "has_prefix [] s"
  by (simp add: has_prefix_def)

lemma trim_prefix_append [simp]: "trim_prefix p (p @ s) = s"
  by (simp add: trim_prefix_def)

lemma str_join_Nil_iff: "str_join sep xs = [] \<longleftrightarrow> (\<forall>x\<in>set xs. x = []) \<and> (sep = [] \<or> length xs \<le> 1)"
  by (induction sep xs rule: str_join.induct) auto

lemma str_or_single [simp]: "str_or [s] = s"
  by simp

end
