(* ===== verification/Go_Time.thy ===== *)
theory Go_Time
  imports Go_Strings
begin

text \<open>
  Go's \<open>time\<close> package. A \<open>time.Time\<close> is the number of nanoseconds since the zero time, January 1
  of year 1 UTC, so that \<open>IsZero\<close> is being 0 and \<open>Truncate\<close>, which Go also computes from the zero
  time, is a rounding of the number. A \<open>time.Duration\<close> is a 64-bit number of nanoseconds;
  \<open>Sub\<close> saturates at its bounds and the subtraction of two durations wraps.
\<close>

type_synonym time = int
type_synonym duration = int

abbreviation second :: duration where
  "second \<equiv> 1000000000"

abbreviation minute :: duration where
  "minute \<equiv> 60000000000"

definition wrap64 :: "int \<Rightarrow> int" where
  "wrap64 x = (x + 2 ^ 63) mod 2 ^ 64 - 2 ^ 63"

definition time_sub :: "time \<Rightarrow> time \<Rightarrow> duration" where
  "time_sub t u = max (- (2 ^ 63)) (min (2 ^ 63 - 1) (t - u))"

definition truncate_second :: "time \<Rightarrow> time" where
  "truncate_second t = t - t mod second"

lemma wrap64_id: "- (2 ^ 63) \<le> x \<Longrightarrow> x < 2 ^ 63 \<Longrightarrow> wrap64 x = x"
  by (simp add: wrap64_def)

lemma time_sub_id: "- (2 ^ 63) \<le> t - u \<Longrightarrow> t - u < 2 ^ 63 \<Longrightarrow> time_sub t u = t - u"
  by (simp add: time_sub_def)

lemma time_sub_mono: "t \<le> t' \<Longrightarrow> time_sub t u \<le> time_sub t' u"
  by (auto simp: time_sub_def)

lemma time_sub_ge_iff: "0 \<le> d \<Longrightarrow> d < 2 ^ 63 \<Longrightarrow> d \<le> time_sub t u \<longleftrightarrow> d \<le> t - u"
  by (auto simp: time_sub_def)

lemma truncate_second_idem [simp]: "truncate_second (truncate_second t) = truncate_second t"
  by (simp add: truncate_second_def minus_mod_eq_mult_div)

lemma truncate_second_le: "truncate_second t \<le> t"
  by (simp add: truncate_second_def)

lemma truncate_second_gt: "t - second < truncate_second t"
  by (simp add: truncate_second_def)

lemma truncate_second_mono: "t \<le> u \<Longrightarrow> truncate_second t \<le> truncate_second u"
  by (simp add: truncate_second_def minus_mod_eq_mult_div zdiv_mono1)

lemma truncate_second_pos: "second \<le> t \<Longrightarrow> 0 < truncate_second t"
  using truncate_second_gt [of t] by linarith

section \<open>Formatting: RFC 3339\<close>

text \<open>
  The proleptic Gregorian date of a number of days since the zero time, as Go's \<open>time\<close> computes it:
  400-year, 100-year and 4-year cycles, then the year and the day of the year.
\<close>

definition civil_year :: "int \<Rightarrow> int \<times> int \<times> bool" where
  "civil_year d =
     (let n400 = d div 146097; d1 = d mod 146097;
          n100 = min 3 (d1 div 36524); d2 = d1 - 36524 * n100;
          n4 = d2 div 1461; d3 = d2 mod 1461;
          n1 = min 3 (d3 div 365)
      in (400 * n400 + 100 * n100 + 4 * n4 + n1 + 1, d3 - 365 * n1,
          n1 = 3 \<and> (n4 \<noteq> 24 \<or> n100 = 3)))"

fun month_day :: "int list \<Rightarrow> int \<Rightarrow> int \<Rightarrow> int \<times> int" where
  "month_day [] m d = (m, d)"
| "month_day (l # ls) m d = (if d < l then (m, d + 1) else month_day ls (m + 1) (d - l))"

definition month_lengths :: "bool \<Rightarrow> int list" where
  "month_lengths leap = [31, if leap then 29 else 28, 31, 30, 31, 30, 31, 31, 30, 31, 30, 31]"

definition civil :: "int \<Rightarrow> int \<times> int \<times> int" where
  "civil days = (case civil_year days of (y, yday, leap) \<Rightarrow>
     case month_day (month_lengths leap) 1 yday of (m, d) \<Rightarrow> (y, m, d))"

text \<open>A field of a formatted time; the year alone may be negative.\<close>

definition pad_int :: "nat \<Rightarrow> int \<Rightarrow> string" where
  "pad_int w i = (if i < 0 then CHR ''-'' # pad_dec w (- i) else pad_dec w i)"

text \<open>\<open>t.UTC().Format(time.RFC3339)\<close>.\<close>

definition rfc3339 :: "time \<Rightarrow> string" where
  "rfc3339 t =
     (let s = t div second; sod = s mod 86400
      in case civil (s div 86400) of (y, m, d) \<Rightarrow>
        pad_int 4 y @ ''-'' @ pad_int 2 m @ ''-'' @ pad_int 2 d @ ''T'' @
        pad_int 2 (sod div 3600) @ '':'' @ pad_int 2 (sod div 60 mod 60) @ '':'' @ pad_int 2 (sod mod 60) @ ''Z'')"

section \<open>Formatting: durations\<close>

text \<open>
  \<open>Duration.String\<close>: hours, minutes and seconds with the fraction without trailing zeros, or a
  smaller unit below a second.
\<close>

definition frac_string :: "nat \<Rightarrow> int \<Rightarrow> string" where
  "frac_string w f = (if f = 0 then [] else CHR ''.'' # rev (dropWhile ((=) (CHR ''0'')) (rev (pad_dec w f))))"

definition abs_duration :: "duration \<Rightarrow> string" where
  "abs_duration n =
     (if n = 0 then ''0s''
      else if n < 1000 then digits n @ ''ns''
      else if n < 1000000 then digits (n div 1000) @ frac_string 3 (n mod 1000) @ [char_of (194::nat), char_of (181::nat)] @ ''s''
      else if n < 1000000000 then digits (n div 1000000) @ frac_string 6 (n mod 1000000) @ ''ms''
      else (let s = n div 1000000000; m = s div 60; h = m div 60 in
        (if h > 0 then digits h @ ''h'' else []) @
        (if m > 0 then digits (m mod 60) @ ''m'' else []) @
        digits (s mod 60) @ frac_string 9 (n mod 1000000000) @ ''s''))"

definition duration_string :: "duration \<Rightarrow> string" where
  "duration_string d = (if d < 0 then CHR ''-'' # abs_duration (- d) else abs_duration d)"

section \<open>A timestamp determines its second\<close>

text \<open>The days before a year, and whether it is a leap year.\<close>

definition days_before :: "int \<Rightarrow> int" where
  "days_before y = 365 * (y - 1) + (y - 1) div 4 - (y - 1) div 100 + (y - 1) div 400"

definition leap_year :: "int \<Rightarrow> bool" where
  "leap_year y \<longleftrightarrow> y mod 4 = 0 \<and> (y mod 100 \<noteq> 0 \<or> y mod 400 = 0)"

lemma div_mod_between:
  fixes q r m :: int
  assumes "x = m * q + r" "0 \<le> r" "r < m"
  shows "x div m = q" "x mod m = r"
  using assms by (auto intro: int_div_pos_eq int_mod_pos_eq)

lemma mod_succ:
  fixes x m :: int
  assumes "0 < m"
  shows "(x + 1) mod m = (if x mod m = m - 1 then 0 else x mod m + 1)"
proof (cases "x mod m = m - 1")
  case True
  then have "x + 1 = m * (x div m + 1) + 0" using mult_div_mod_eq [of m x] by (simp add: distrib_left del: mult_div_mod_eq)
  then have "(x + 1) mod m = 0" using assms by (intro div_mod_between(2)) auto
  then show ?thesis using True by simp
next
  case False
  have "x + 1 = m * (x div m) + (x mod m + 1)" by simp
  then have "(x + 1) mod m = x mod m + 1"
    by (rule div_mod_between(2)) (use assms False pos_mod_bound [of m x] pos_mod_sign [of m x] in linarith)+
  then show ?thesis using False by simp
qed

lemma cycles:
  fixes a b c k :: int
  assumes "0 \<le> b" "b \<le> 3" "0 \<le> c" "c \<le> 24" "0 \<le> k" "k \<le> 3"
  shows "days_before (400 * a + 100 * b + 4 * c + k + 1) = 146097 * a + 36524 * b + 1461 * c + 365 * k"
    and "leap_year (400 * a + 100 * b + 4 * c + k + 1) \<longleftrightarrow> k = 3 \<and> (c \<noteq> 24 \<or> b = 3)"
proof -
  let ?y = "400 * a + 100 * b + 4 * c + k"
  have "?y div 4 = 100 * a + 25 * b + c \<and> ?y mod 4 = k"
    using div_mod_between [of ?y 4 "100 * a + 25 * b + c" k] assms by simp
  moreover have "?y div 100 = 4 * a + b \<and> ?y mod 100 = 4 * c + k"
    using div_mod_between [of ?y 100 "4 * a + b" "4 * c + k"] assms by simp
  moreover have "?y div 400 = a \<and> ?y mod 400 = 100 * b + 4 * c + k"
    using div_mod_between [of ?y 400 a "100 * b + 4 * c + k"] assms by simp
  ultimately have y: "?y div 4 = 100 * a + 25 * b + c" "?y mod 4 = k" "?y div 100 = 4 * a + b"
    "?y mod 100 = 4 * c + k" "?y div 400 = a" "?y mod 400 = 100 * b + 4 * c + k" by blast+
  then show "days_before (?y + 1) = 146097 * a + 36524 * b + 1461 * c + 365 * k"
    by (simp add: days_before_def)
  show "leap_year (?y + 1) \<longleftrightarrow> k = 3 \<and> (c \<noteq> 24 \<or> b = 3)"
    unfolding leap_year_def mod_succ [OF zero_less_numeral] y using assms by auto
qed

lemma quotient_bounds:
  fixes x m :: int
  assumes "0 < m" "0 \<le> x" "x \<le> m * n + r" "0 \<le> n"
  shows "0 \<le> min n (x div m)" "0 \<le> x - m * min n (x div m)" "x - m * min n (x div m) \<le> max (m - 1) r"
proof -
  have "m * (x div m) \<le> x" "x < m * (x div m) + m"
    using assms mult_div_mod_eq [of m x] pos_mod_bound [of m x] pos_mod_sign [of m x] by linarith+
  moreover have "0 \<le> x div m" using assms by (simp add: pos_imp_zdiv_nonneg_iff)
  moreover have "m * n \<le> x" if "n \<le> x div m"
    using mult_left_mono [OF that, of m] assms(1) \<open>m * (x div m) \<le> x\<close> by linarith
  ultimately show "0 \<le> min n (x div m)" "0 \<le> x - m * min n (x div m)" "x - m * min n (x div m) \<le> max (m - 1) r"
    using assms by (auto simp: min_def)
qed

lemma civil_year_spec:
  assumes "civil_year d = (y, n, leap)" "0 \<le> d"
  shows "d = days_before y + n" "leap = leap_year y" "0 \<le> n" "1 \<le> y" "n \<le> 365"
proof -
  define a d1 where a: "a = d div 146097" and d1: "d1 = d mod 146097"
  define b where b: "b = min 3 (d1 div 36524)"
  define d2 where d2: "d2 = d1 - 36524 * b"
  define c d3 where c: "c = d2 div 1461" and d3: "d3 = d2 mod 1461"
  define k where k: "k = min 3 (d3 div 365)"
  have y: "y = 400 * a + 100 * b + 4 * c + k + 1" "n = d3 - 365 * k" "leap = (k = 3 \<and> (c \<noteq> 24 \<or> b = 3))"
    using assms(1)
    unfolding civil_year_def Let_def a [symmetric] d1 [symmetric] b [symmetric] d2 [symmetric] c [symmetric] d3 [symmetric] k [symmetric]
    by simp_all
  have "0 \<le> d1" "d1 < 146097" "0 \<le> a" using assms(2) by (simp_all add: d1 a)
  then have b1: "0 \<le> b" "b \<le> 3" "0 \<le> d2" "d2 \<le> 36524"
    unfolding b d2 using quotient_bounds [of 36524 d1 3 36524] by simp_all
  then have c1: "0 \<le> c" "c \<le> 24" "0 \<le> d3" "d3 \<le> 1460"
    unfolding c d3 using zdiv_mono1 [of d2 36524 1461] by (simp_all add: pos_imp_zdiv_nonneg_iff)
  then have k1: "0 \<le> k" "k \<le> 3" "0 \<le> n" "n \<le> 365"
    unfolding y(2) k using quotient_bounds [of 365 d3 3 365] by simp_all
  have "d = 146097 * a + d1" "d1 = 36524 * b + d2" "d2 = 1461 * c + d3"
    by (simp_all add: a d1 d2 c d3)
  then show "d = days_before y + n" using cycles(1) [OF b1(1,2) c1(1,2) k1(1,2), of a] y by simp
  show "leap = leap_year y" using cycles(2) [OF b1(1,2) c1(1,2) k1(1,2), of a] y by simp
  show "0 \<le> n" "n \<le> 365" by (rule k1)+
  show "1 \<le> y" using y(1) b1 c1 k1 \<open>0 \<le> a\<close> by simp
qed

lemma month_day_bounds:
  "m \<le> fst (month_day ls m d) \<and> fst (month_day ls m d) \<le> m + int (length ls)"
  by (induction ls m d rule: month_day.induct) force+

lemma month_day_inj: "month_day ls m d = month_day ls m e \<Longrightarrow> d = e"
proof (induction ls arbitrary: m d e)
  case (Cons l ls)
  have *: "month_day ls (m + 1) x \<noteq> (m, y)" for x y
    using month_day_bounds [of "m + 1" ls x] by auto
  then have **: "(m, y) \<noteq> month_day ls (m + 1) x" for x y by metis
  show ?case
    using Cons.prems Cons.IH [of "m + 1" "d - l" "e - l"] * ** by (auto split: if_splits)
qed simp

lemma civil_inj:
  assumes "civil d = civil e" "0 \<le> d" "0 \<le> e"
  shows "d = e"
proof -
  obtain y n l where d: "civil_year d = (y, n, l)" by (metis prod_cases3)
  obtain z k r where e: "civil_year e = (z, k, r)" by (metis prod_cases3)
  have eq: "y = z" "month_day (month_lengths l) 1 n = month_day (month_lengths r) 1 k"
    using assms(1) by (simp_all add: civil_def d e split: prod.splits)
  moreover have "l = r" using civil_year_spec(2) [OF d assms(2)] civil_year_spec(2) [OF e assms(3)] eq(1) by simp
  ultimately have "n = k" using month_day_inj by blast
  then show ?thesis
    using civil_year_spec(1) [OF d assms(2)] civil_year_spec(1) [OF e assms(3)] eq(1) by simp
qed

lemma month_day_day:
  "0 \<le> d \<Longrightarrow> d < sum_list ls + 99 \<Longrightarrow> \<forall>l\<in>set ls. l < 100 \<Longrightarrow> 0 \<le> snd (month_day ls m d) \<and> snd (month_day ls m d) < 100"
  by (induction ls m d rule: month_day.induct) force+

lemma sum_month_lengths: "sum_list (month_lengths leap) = (if leap then 366 else 365)"
  by (simp add: month_lengths_def)

lemma civil_fields:
  assumes "civil d = (y, m, k)" "0 \<le> d"
  shows "1 \<le> y" "0 \<le> m" "m < 100" "0 \<le> k" "k < 100"
proof -
  obtain z n l where c: "civil_year d = (z, n, l)" by (metis prod_cases3)
  then have md: "month_day (month_lengths l) 1 n = (m, k)" "y = z"
    using assms(1) by (simp_all add: civil_def)
  have n: "0 \<le> n" "n < sum_list (month_lengths l) + 99"
    using civil_year_spec(3,5) [OF c assms(2)] by (simp_all add: sum_month_lengths)
  show "1 \<le> y" using civil_year_spec(4) [OF c assms(2)] md by simp
  show "0 \<le> m" "m < 100" using month_day_bounds [of 1 "month_lengths l" n] md by (simp_all add: month_lengths_def)
  show "0 \<le> k" "k < 100"
    using month_day_day [of n "month_lengths l" 1] n md by (auto simp: month_lengths_def)
qed

lemma length_pad2: "0 \<le> n \<Longrightarrow> n < 100 \<Longrightarrow> length (pad_int 2 n) = 2"
  using length_pad_dec [of n 1] by (simp add: pad_int_def numeral_2_eq_2)

lemma pad_int_inject: "0 \<le> m \<Longrightarrow> 0 \<le> n \<Longrightarrow> pad_int w m = pad_int w n \<longleftrightarrow> m = n"
  by (simp add: pad_int_def pad_dec_inject)

lemma fields_inject:
  assumes eq: "y @ ''-'' @ a @ ''-'' @ b @ ''T'' @ c @ '':'' @ d @ '':'' @ e @ ''Z''
      = y' @ ''-'' @ a' @ ''-'' @ b' @ ''T'' @ c' @ '':'' @ d' @ '':'' @ e' @ ''Z''"
    and len: "length a = 2" "length b = 2" "length c = 2" "length d = 2" "length e = 2"
      "length a' = 2" "length b' = 2" "length c' = 2" "length d' = 2" "length e' = 2"
  shows "y = y' \<and> a = a' \<and> b = b' \<and> c = c' \<and> d = d' \<and> e = e'"
proof -
  have "y = y'" and rest: "''-'' @ a @ ''-'' @ b @ ''T'' @ c @ '':'' @ d @ '':'' @ e @ ''Z''
      = ''-'' @ a' @ ''-'' @ b' @ ''T'' @ c' @ '':'' @ d' @ '':'' @ e' @ ''Z''"
    using eq len by (subst (asm) append_eq_append_conv; simp)+
  then show ?thesis using len by (simp add: append_eq_append_conv)
qed

abbreviation rfc3339_fields :: "int \<Rightarrow> int \<Rightarrow> int \<Rightarrow> int \<Rightarrow> int \<Rightarrow> int \<Rightarrow> string" where
  "rfc3339_fields y m d h mi s \<equiv> pad_int 4 y @ ''-'' @ pad_int 2 m @ ''-'' @ pad_int 2 d @ ''T'' @
     pad_int 2 h @ '':'' @ pad_int 2 mi @ '':'' @ pad_int 2 s @ ''Z''"

lemma rfc3339_fields_inject:
  assumes "rfc3339_fields y m d h mi s = rfc3339_fields y' m' d' h' mi' s'"
    and "1 \<le> y" "1 \<le> y'" "{m, d, h, mi, s, m', d', h', mi', s'} \<subseteq> {0..<100}"
  shows "y = y'" "m = m'" "d = d'" "h = h'" "mi = mi'" "s = s'"
proof -
  have "pad_int 4 y = pad_int 4 y' \<and> pad_int 2 m = pad_int 2 m' \<and> pad_int 2 d = pad_int 2 d' \<and>
      pad_int 2 h = pad_int 2 h' \<and> pad_int 2 mi = pad_int 2 mi' \<and> pad_int 2 s = pad_int 2 s'"
    by (rule fields_inject [OF assms(1)]) (use assms(4) in \<open>simp_all add: length_pad2\<close>)
  then show "y = y'" "m = m'" "d = d'" "h = h'" "mi = mi'" "s = s'"
    using assms(2-4) by (simp_all add: pad_int_inject)
qed

text \<open>A timestamp determines the second it was taken in.\<close>

lemma rfc3339_inject:
  assumes "0 \<le> t" "0 \<le> u" "rfc3339 t = rfc3339 u"
  shows "t div second = u div second"
proof -
  define s where "s = t div second"
  define r where "r = u div second"
  have pos: "0 \<le> s div 86400" "0 \<le> r div 86400"
    using assms(1,2) by (simp_all add: s_def r_def pos_imp_zdiv_nonneg_iff)
  obtain y m d where c: "civil (s div 86400) = (y, m, d)" by (metis prod_cases3)
  obtain z n e where c': "civil (r div 86400) = (z, n, e)" by (metis prod_cases3)
  define sod where "sod = s mod 86400"
  define sor where "sor = r mod 86400"
  have g: "{x div 3600, x div 60 mod 60, x mod 60} \<subseteq> {0..<100}" if "0 \<le> x" "x < 86400" for x :: int
  proof -
    have "x div 60 mod 60 < 60" "x mod 60 < 60" by (rule pos_mod_bound, simp)+
    then have "x div 60 mod 60 < 100" "x mod 60 < 100" by linarith+
    then show ?thesis using that zdiv_mono1 [of x 86399 3600] by (simp add: pos_imp_zdiv_nonneg_iff)
  qed
  have "0 \<le> sod" "sod < 86400" "0 \<le> sor" "sor < 86400" by (simp_all add: sod_def sor_def)
  note g1 = g [OF this(1,2)] and g2 = g [OF this(3,4)]
  have civil: "{m, d, n, e} \<subseteq> {0..<100}"
    using civil_fields [OF c pos(1)] civil_fields [OF c' pos(2)] by simp
  have eq: "rfc3339_fields y m d (sod div 3600) (sod div 60 mod 60) (sod mod 60)
      = rfc3339_fields z n e (sor div 3600) (sor div 60 mod 60) (sor mod 60)"
    using assms(3) by (simp only: rfc3339_def Let_def s_def [symmetric] r_def [symmetric] sod_def [symmetric] sor_def [symmetric] c c' prod.case)
  have sub: "{m, d, sod div 3600, sod div 60 mod 60, sod mod 60, n, e, sor div 3600, sor div 60 mod 60, sor mod 60} \<subseteq> {0..<100}"
    using civil g1 g2 by (simp only: insert_subset simp_thms empty_subsetI)
  note eqs = rfc3339_fields_inject [OF eq civil_fields(1) [OF c pos(1)] civil_fields(1) [OF c' pos(2)] sub]
  have "civil (s div 86400) = civil (r div 86400)" by (simp only: c c' eqs(1-3))
  then have "s div 86400 = r div 86400" by (rule civil_inj [OF _ pos])
  moreover have "sod = sor"
  proof -
    have split_sum: "x = 60 * (60 * (x div 3600) + x div 60 mod 60) + x mod 60" for x :: int
    proof -
      have "x div 3600 = x div 60 div 60" using zdiv_zmult2_eq [of 60 x 60] by simp
      then show ?thesis by (simp only: mult_div_mod_eq)
    qed
    have "sod = 60 * (60 * (sod div 3600) + sod div 60 mod 60) + sod mod 60" by (rule split_sum)
    also have "\<dots> = 60 * (60 * (sor div 3600) + sor div 60 mod 60) + sor mod 60" by (simp only: eqs(4-6))
    also have "\<dots> = sor" by (rule split_sum [symmetric])
    finally show ?thesis .
  qed
  ultimately have "s = r" unfolding sod_def sor_def by (metis mult_div_mod_eq)
  then show ?thesis by (simp add: s_def r_def)
qed

lemma rfc3339_whole_second:
  assumes "0 \<le> t" "0 \<le> u" "truncate_second t = t" "truncate_second u = u"
  shows "rfc3339 t = rfc3339 u \<longleftrightarrow> t = u"
proof
  assume "rfc3339 t = rfc3339 u"
  then have "t div second = u div second" by (rule rfc3339_inject [OF assms(1,2)])
  then show "t = u" using assms(3,4) by (metis truncate_second_def minus_mod_eq_mult_div)
qed simp

end
