(* ===== verification/Promotion_History.thy ===== *)
theory Promotion_History
  imports Go_Time
begin

text \<open>
  The deployment history of a stage (\<open>internal/promotion/history.go\<close>): the entries newest first,
  the pending promotion at its head, and the operations the Serving controller drives it with. The
  theory holds the well-formedness of a history and that every operation keeps it, the interface
  \<open>deployment_log\<close> through which the controller uses a history, and the step relation of the
  operations under a clock that never runs backwards.
\<close>

section \<open>Entries\<close>

datatype end_reason = EndNone | EndSuperseded | EndDegraded

record entry =
  e_Preparation :: string
  e_Digest :: string
  e_OCIRef :: string
  e_Registry :: string
  e_ProductRevision :: string
  e_Started :: time
  e_Healthy :: time
  e_Ended :: time
  e_EndReason :: end_reason
  e_PromotionRecord :: string
  e_DeploymentRecord :: string

type_synonym history = "entry list"

definition MaxEntries :: nat where
  "MaxEntries = 16"

definition Running :: "entry \<Rightarrow> bool" where
  "Running e = (e_Ended e = 0)"

definition Promoted :: "entry \<Rightarrow> bool" where
  "Promoted e = (e_PromotionRecord e \<noteq> [])"

section \<open>Reading a history\<close>

fun Deployed :: "history \<Rightarrow> entry option" where
  "Deployed [] = None"
| "Deployed (e # h) = (if Promoted e then Some e else Deployed h)"

fun Pending :: "history \<Rightarrow> entry option" where
  "Pending [] = None"
| "Pending (e # h) = (if Promoted e then None else Some e)"

fun PromotedBefore :: "string \<Rightarrow> history \<Rightarrow> entry option" where
  "PromotedBefore preparation [] = None"
| "PromotedBefore preparation (e # h) =
     (if e_Preparation e = preparation \<and> Promoted e then Some e else PromotedBefore preparation h)"

definition Unrecorded :: "history \<Rightarrow> entry list" where
  "Unrecorded h = filter (\<lambda>e. Promoted e \<and> e_Healthy e \<noteq> 0 \<and> e_DeploymentRecord e = []) h"

section \<open>Changing a history\<close>

definition seconds :: "time \<Rightarrow> time" where
  "seconds t = truncate_second t"

definition prepend :: "entry \<Rightarrow> history \<Rightarrow> history" where
  "prepend e h = take MaxEntries (e # h)"

definition Drop :: "history \<Rightarrow> history" where
  "Drop h = (case Pending h of None \<Rightarrow> h | Some _ \<Rightarrow> tl h)"

definition pending_entry :: "entry \<Rightarrow> time \<Rightarrow> entry" where
  "pending_entry candidate now =
     \<lparr>e_Preparation = e_Preparation candidate, e_Digest = e_Digest candidate, e_OCIRef = e_OCIRef candidate,
      e_Registry = e_Registry candidate, e_ProductRevision = e_ProductRevision candidate,
      e_Started = seconds now, e_Healthy = 0, e_Ended = 0, e_EndReason = EndNone,
      e_PromotionRecord = [], e_DeploymentRecord = []\<rparr>"

definition Open :: "entry \<Rightarrow> time \<Rightarrow> history \<Rightarrow> history" where
  "Open candidate now h = prepend (pending_entry candidate now) (Drop h)"

text \<open>
  \<open>Start\<close> finds the previously deployed entry through \<open>Deployed\<close> and writes through the pointer it
  returns: the entry changed is the first promoted one after the head.
\<close>

fun supersede :: "time \<Rightarrow> history \<Rightarrow> history" where
  "supersede started [] = []"
| "supersede started (e # h) =
     (if Promoted e
      then (if Running e then e\<lparr>e_Ended := started, e_EndReason := EndSuperseded\<rparr> else e) # h
      else e # supersede started h)"

definition Start :: "string \<Rightarrow> history \<Rightarrow> history" where
  "Start promotion_record h =
     (case Pending h of
        None \<Rightarrow> h
      | Some p \<Rightarrow> p\<lparr>e_PromotionRecord := promotion_record\<rparr> # supersede (e_Started p) (tl h))"

datatype Step = StepDeployed | StepOpen | StepRecord

definition Next :: "string \<Rightarrow> history \<Rightarrow> Step" where
  "Next candidate h =
     (case Deployed h of
        Some d \<Rightarrow> if e_Preparation d = candidate then StepDeployed
          else (case Pending h of Some p \<Rightarrow> if e_Preparation p = candidate then StepRecord else StepOpen
                | None \<Rightarrow> StepOpen)
      | None \<Rightarrow>
          (case Pending h of Some p \<Rightarrow> if e_Preparation p = candidate then StepRecord else StepOpen
           | None \<Rightarrow> StepOpen))"

datatype Health = HealthProgressing | HealthHealthy | HealthDegraded

record observation =
  o_Revision :: string
  o_Health :: Health

definition recovery_entry :: "entry \<Rightarrow> time \<Rightarrow> entry" where
  "recovery_entry deployed now =
     \<lparr>e_Preparation = e_Preparation deployed, e_Digest = e_Digest deployed, e_OCIRef = e_OCIRef deployed,
      e_Registry = e_Registry deployed, e_ProductRevision = e_ProductRevision deployed,
      e_Started = now, e_Healthy = now, e_Ended = 0, e_EndReason = EndNone,
      e_PromotionRecord = e_PromotionRecord deployed, e_DeploymentRecord = []\<rparr>"

text \<open>The index of the deployed entry, as \<open>slices.IndexFunc\<close> finds it.\<close>

fun deployed_index :: "history \<Rightarrow> nat option" where
  "deployed_index [] = None"
| "deployed_index (e # h) = (if Promoted e then Some 0 else map_option Suc (deployed_index h))"

definition Observe :: "observation \<Rightarrow> time \<Rightarrow> history \<Rightarrow> history \<times> bool" where
  "Observe observation now h =
     (case deployed_index h of
        None \<Rightarrow> (h, False)
      | Some i \<Rightarrow>
         if e_Digest (h ! i) \<noteq> o_Revision observation then (h, False)
         else
           let deployed = h ! i; now = seconds now in
           if o_Health observation = HealthHealthy \<and> Running deployed \<and> e_Healthy deployed = 0
           then (h[i := deployed\<lparr>e_Healthy := now\<rparr>], True)
           else if o_Health observation = HealthHealthy \<and> e_EndReason deployed = EndDegraded
           then (take MaxEntries (take i h @ [recovery_entry deployed now] @ drop i h), True)
           else if o_Health observation = HealthDegraded \<and> Running deployed
           then (h[i := deployed\<lparr>e_Ended := now, e_EndReason := EndDegraded\<rparr>], True)
           else (h, False))"

definition set_record :: "string \<Rightarrow> time \<Rightarrow> string \<Rightarrow> entry \<Rightarrow> entry" where
  "set_record digest healthy deployment_record e =
     (if e_Digest e = digest \<and> e_Healthy e = healthy then e\<lparr>e_DeploymentRecord := deployment_record\<rparr> else e)"

definition RecordDeployment :: "string \<Rightarrow> time \<Rightarrow> string \<Rightarrow> history \<Rightarrow> history" where
  "RecordDeployment digest healthy deployment_record h = map (set_record digest healthy deployment_record) h"

lemmas [history_simps] = Drop_def Open_def prepend_def Start_def Next_def MaxEntries_def

section \<open>Well-formed histories\<close>

text \<open>
  An entry is ended exactly when it has a reason to be, a pending one has neither run nor ended, and
  only a deployment that was healthy has a deployment record. Times are whole seconds.
\<close>

definition entry_wf :: "entry \<Rightarrow> bool" where
  "entry_wf e \<longleftrightarrow>
     0 < e_Started e \<and> seconds (e_Started e) = e_Started e \<and> seconds (e_Healthy e) = e_Healthy e
   \<and> seconds (e_Ended e) = e_Ended e
   \<and> (Running e \<longleftrightarrow> e_EndReason e = EndNone)
   \<and> (\<not> Promoted e \<longrightarrow> Running e \<and> e_Healthy e = 0)
   \<and> (e_DeploymentRecord e \<noteq> [] \<longrightarrow> e_Healthy e \<noteq> 0)"

text \<open>The entries older than the deployed one.\<close>

fun past :: "history \<Rightarrow> history" where
  "past [] = []"
| "past (e # h) = (if Promoted e then h else past h)"

text \<open>
  A history holds at most \<open>MaxEntries\<close> entries, at most the first is pending, and of the promoted
  ones only the deployed entry may still run.
\<close>

definition history_wf :: "history \<Rightarrow> bool" where
  "history_wf h \<longleftrightarrow>
     length h \<le> MaxEntries \<and> (\<forall>e\<in>set h. entry_wf e) \<and> (\<forall>e\<in>set (tl h). Promoted e)
   \<and> (\<forall>e\<in>set (past h). \<not> Running e)"

text \<open>The three shapes of a well-formed history.\<close>

lemma history_wf_Nil [simp]: "history_wf []"
  by (simp add: history_wf_def)

lemma history_wf_promoted:
  "Promoted e \<Longrightarrow> history_wf (e # h) \<longleftrightarrow>
     length h < MaxEntries \<and> entry_wf e \<and> (\<forall>x\<in>set h. entry_wf x \<and> Promoted x \<and> \<not> Running x)"
  by (auto simp: history_wf_def)

lemma history_wf_pending:
  "\<not> Promoted p \<Longrightarrow> history_wf (p # h) \<longleftrightarrow>
     length h < MaxEntries \<and> entry_wf p \<and> history_wf h \<and> (\<forall>x\<in>set h. Promoted x)"
  by (cases h) (auto simp: history_wf_def)

lemma history_wf_cases [consumes 1, case_names empty deployed pending_only pending_deployed]:
  assumes "history_wf h"
  obtains "h = []"
  | e hs where "h = e # hs" "Promoted e"
  | p where "h = [p]" "\<not> Promoted p"
  | p e hs where "h = p # e # hs" "\<not> Promoted p" "Promoted e" "history_wf (e # hs)"
proof (cases h)
  case Nil
  then show ?thesis using that(1) by simp
next
  case (Cons a hs)
  show ?thesis
  proof (cases "Promoted a")
    case True
    then show ?thesis using that(2) Cons by simp
  next
    case False
    show ?thesis
    proof (cases hs)
      case Nil
      then show ?thesis using that(3) Cons False by simp
    next
      case (Cons b bs)
      have "history_wf (b # bs)" "Promoted b"
        using assms \<open>h = a # hs\<close> False Cons by (simp_all add: history_wf_pending)
      then show ?thesis using that(4) \<open>h = a # hs\<close> Cons False by simp
    qed
  qed
qed

lemma Deployed_Some_iff: "Deployed h = Some e \<Longrightarrow> e \<in> set h \<and> Promoted e"
  by (induction h) (auto split: if_splits)

lemma deployed_index_Deployed:
  "deployed_index h = Some i \<Longrightarrow> i < length h \<and> Deployed h = Some (h ! i) \<and> Promoted (h ! i)"
  by (induction h arbitrary: i) (auto split: if_splits)

lemma deployed_index_None: "deployed_index h = None \<longleftrightarrow> Deployed h = None"
  by (induction h) auto

lemma entry_wf_pending_entry: "second \<le> now \<Longrightarrow> entry_wf (pending_entry c now)"
  by (simp add: entry_wf_def pending_entry_def Running_def Promoted_def seconds_def truncate_second_pos)
     (simp add: truncate_second_def)

lemma not_Promoted_pending_entry [simp]: "\<not> Promoted (pending_entry c now)"
  by (simp add: pending_entry_def Promoted_def)

lemma e_Preparation_pending_entry [simp]: "e_Preparation (pending_entry c now) = e_Preparation c"
  by (simp add: pending_entry_def)

section \<open>Every operation keeps a history well-formed\<close>

lemma history_wf_Drop: "history_wf h \<Longrightarrow> history_wf (Drop h)"
  by (cases h) (auto simp: Drop_def history_wf_pending)

lemma Drop_promoted: "history_wf h \<Longrightarrow> \<forall>e\<in>set (Drop h). Promoted e"
  by (cases h) (auto simp: Drop_def history_wf_def)

lemma Deployed_Drop [simp]: "Deployed (Drop h) = Deployed h"
  by (cases h) (auto simp: Drop_def)

lemma Pending_Drop: "history_wf h \<Longrightarrow> Pending (Drop h) = None"
  using Drop_promoted [of h] by (cases "Drop h") auto

lemma length_Drop: "length (Drop h) \<le> length h"
  by (cases h) (auto simp: Drop_def)

lemma past_take: "set (past (take n h)) \<subseteq> set (past h)"
  by (induction h arbitrary: n) (auto simp: take_Cons split: nat.splits dest: in_set_takeD)

lemma tl_take_subset: "set (tl (take n h)) \<subseteq> set (tl h)"
  by (cases h; cases n) (auto dest: in_set_takeD)

lemma history_wf_take:
  assumes wf: "history_wf h"
  shows "history_wf (take n h)"
  using wf set_take_subset [of n h] past_take [of n h] tl_take_subset [of n h]
  unfolding history_wf_def by (auto simp: subset_iff)

lemma history_wf_Open:
  assumes wf: "history_wf h" and now: "second \<le> now"
  shows "history_wf (Open c now h)"
proof -
  let ?p = "pending_entry c now" and ?d = "take (MaxEntries - 1) (Drop h)"
  have "history_wf ?d"
    using history_wf_Drop [OF wf] by (rule history_wf_take)
  moreover have "\<forall>e\<in>set ?d. Promoted e"
    using Drop_promoted [OF wf] by (auto dest: in_set_takeD)
  ultimately have "history_wf (?p # ?d)"
    using entry_wf_pending_entry [OF now] by (simp add: history_wf_pending MaxEntries_def)
  then show ?thesis by (simp add: Open_def prepend_def MaxEntries_def)
qed

lemma supersede_promoted: "\<forall>e\<in>set h. Promoted e \<Longrightarrow> \<forall>e\<in>set (supersede s h). Promoted e"
  by (cases h) (auto simp: Promoted_def)

lemma entry_wf_superseded:
  "entry_wf e \<Longrightarrow> Promoted e \<Longrightarrow> 0 < s \<Longrightarrow> seconds s = s \<Longrightarrow>
   entry_wf (e\<lparr>e_Ended := s, e_EndReason := EndSuperseded\<rparr>)"
  by (simp add: entry_wf_def Running_def Promoted_def)

lemma entry_wf_started: "entry_wf p \<Longrightarrow> r \<noteq> [] \<Longrightarrow> entry_wf (p\<lparr>e_PromotionRecord := r\<rparr>)"
  by (simp add: entry_wf_def Running_def Promoted_def)

lemma history_wf_Start:
  assumes wf: "history_wf h" and r: "r \<noteq> []"
  shows "history_wf (Start r h)"
  using wf
proof (cases rule: history_wf_cases)
  case (pending_only p)
  then have "entry_wf p" using wf by (simp add: history_wf_def)
  then have "entry_wf (p\<lparr>e_PromotionRecord := r\<rparr>)"
    using r by (simp add: entry_wf_started)
  then show ?thesis
    using pending_only r by (simp add: Start_def history_wf_def MaxEntries_def)
next
  case (pending_deployed p e hs)
  then have p: "entry_wf p" "length hs + 1 < MaxEntries" using wf by (simp_all add: history_wf_pending)
  then have "entry_wf (p\<lparr>e_PromotionRecord := r\<rparr>)" "0 < e_Started p" "seconds (e_Started p) = e_Started p"
    using r by (simp_all add: entry_wf_started) (simp_all add: entry_wf_def)
  moreover from pending_deployed
  have "entry_wf e" "\<forall>x\<in>set hs. entry_wf x \<and> Promoted x \<and> \<not> Running x"
    by (simp_all add: history_wf_promoted)
  moreover have "Promoted (p\<lparr>e_PromotionRecord := r\<rparr>)"
    using r by (simp add: Promoted_def)
  ultimately show ?thesis
    using pending_deployed p
    by (auto simp: Start_def history_wf_promoted intro!: entry_wf_superseded)
       (auto simp: Promoted_def Running_def)
next
  case (deployed e hs)
  then show ?thesis using wf by (simp add: Start_def)
qed (simp add: Start_def)

lemma set_record_simps [simp]:
  "Promoted (set_record d hl r e) = Promoted e" "Running (set_record d hl r e) = Running e"
  "e_Preparation (set_record d hl r e) = e_Preparation e" "e_Digest (set_record d hl r e) = e_Digest e"
  "e_Healthy (set_record d hl r e) = e_Healthy e" "e_Ended (set_record d hl r e) = e_Ended e"
  "e_EndReason (set_record d hl r e) = e_EndReason e"
  "e_ProductRevision (set_record d hl r e) = e_ProductRevision e"
  by (auto simp: set_record_def Promoted_def Running_def)

lemma entry_wf_set_record: "entry_wf e \<Longrightarrow> hl \<noteq> 0 \<Longrightarrow> entry_wf (set_record d hl r e)"
  by (auto simp: set_record_def entry_wf_def Promoted_def Running_def)

lemma past_map_set_record: "past (map (set_record d hl r) h) = map (set_record d hl r) (past h)"
  by (induction h) auto

lemma history_wf_RecordDeployment:
  "history_wf h \<Longrightarrow> healthy \<noteq> 0 \<Longrightarrow> history_wf (RecordDeployment d healthy r h)"
  by (auto simp: history_wf_def RecordDeployment_def past_map_set_record entry_wf_set_record map_tl [symmetric])

text \<open>
  What \<open>Observe\<close> does to a well-formed history: with a pending head the deployed entry is the
  second, without it the first.
\<close>

definition observed_entry :: "Health \<Rightarrow> time \<Rightarrow> entry \<Rightarrow> entry option" where
  "observed_entry health now e =
     (if health = HealthHealthy \<and> Running e \<and> e_Healthy e = 0 then Some (e\<lparr>e_Healthy := seconds now\<rparr>)
      else if health = HealthDegraded \<and> Running e
      then Some (e\<lparr>e_Ended := seconds now, e_EndReason := EndDegraded\<rparr>)
      else None)"

lemma Observe_promoted:
  assumes "Promoted e"
  shows "Observe ob now (e # h) =
    (if e_Digest e \<noteq> o_Revision ob then (e # h, False)
     else if o_Health ob = HealthHealthy \<and> (\<not> Running e \<or> e_Healthy e \<noteq> 0) \<and> e_EndReason e = EndDegraded
     then (take MaxEntries (recovery_entry e (seconds now) # e # h), True)
     else (case observed_entry (o_Health ob) now e of None \<Rightarrow> (e # h, False) | Some e' \<Rightarrow> (e' # h, True)))"
  using assms by (auto simp: Observe_def Let_def observed_entry_def)

lemma Observe_pending:
  assumes "\<not> Promoted p" "Promoted e"
  shows "Observe ob now (p # e # h) =
    (if e_Digest e \<noteq> o_Revision ob then (p # e # h, False)
     else if o_Health ob = HealthHealthy \<and> (\<not> Running e \<or> e_Healthy e \<noteq> 0) \<and> e_EndReason e = EndDegraded
     then (take MaxEntries (p # recovery_entry e (seconds now) # e # h), True)
     else (case observed_entry (o_Health ob) now e of None \<Rightarrow> (p # e # h, False) | Some e' \<Rightarrow> (p # e' # h, True)))"
  using assms by (auto simp: Observe_def Let_def observed_entry_def)

lemma observed_entry_simps:
  assumes "observed_entry health now e = Some e'"
  shows "Promoted e' = Promoted e" "e_Preparation e' = e_Preparation e" "e_Digest e' = e_Digest e"
    "e_ProductRevision e' = e_ProductRevision e" "e_PromotionRecord e' = e_PromotionRecord e"
    "e_DeploymentRecord e' = e_DeploymentRecord e" "e_Started e' = e_Started e"
  using assms by (auto simp: observed_entry_def Promoted_def split: if_splits)

lemma entry_wf_observed:
  "observed_entry health now e = Some e' \<Longrightarrow> entry_wf e \<Longrightarrow> Promoted e \<Longrightarrow> second \<le> now \<Longrightarrow> entry_wf e'"
  using truncate_second_pos [of now]
  by (auto simp: observed_entry_def entry_wf_def Promoted_def Running_def seconds_def split: if_splits)

lemma entry_wf_recovery:
  "Promoted e \<Longrightarrow> second \<le> now \<Longrightarrow>
   entry_wf (recovery_entry e (seconds now)) \<and> Promoted (recovery_entry e (seconds now))"
  using truncate_second_pos [of now]
  by (simp add: recovery_entry_def entry_wf_def Promoted_def Running_def seconds_def)
     (simp add: truncate_second_def)

lemma entry_wf_not_running: "entry_wf e \<Longrightarrow> e_EndReason e = EndDegraded \<Longrightarrow> \<not> Running e"
  by (simp add: entry_wf_def)

lemma history_wf_Observe_deployed:
  assumes wf: "history_wf (e # h)" and e: "Promoted e" and now: "second \<le> now"
  shows "history_wf (fst (Observe ob now (e # h)))"
proof -
  have *: "length h < MaxEntries" "entry_wf e" "\<forall>x\<in>set h. entry_wf x \<and> Promoted x \<and> \<not> Running x"
    using wf e by (simp_all add: history_wf_promoted)
  have recovered: "history_wf (take MaxEntries (recovery_entry e (seconds now) # e # h))"
    if "e_EndReason e = EndDegraded"
    using * e entry_wf_recovery [OF e now] entry_wf_not_running [OF _ that]
    by (auto simp: MaxEntries_def history_wf_promoted dest: in_set_takeD)
  have "history_wf (e' # h)" if "observed_entry (o_Health ob) now e = Some e'" for e'
    using * e that observed_entry_simps(1) [OF that] entry_wf_observed [OF that]  now
    by (simp add: history_wf_promoted)
  then show ?thesis
    using wf recovered by (auto simp: Observe_promoted [OF e] split: option.splits)
qed

lemma fst_Observe_pending:
  assumes "\<not> Promoted p" "Promoted e" "length h < MaxEntries - 1"
  shows "fst (Observe ob now (p # e # h)) = take MaxEntries (p # fst (Observe ob now (e # h)))"
  using assms by (auto simp: Observe_promoted Observe_pending MaxEntries_def split: option.splits)

lemma Promoted_recovery_entry [simp]: "Promoted (recovery_entry e t) = Promoted e"
  by (simp add: recovery_entry_def Promoted_def)

lemma Observe_all_promoted:
  "Promoted e \<Longrightarrow> \<forall>x\<in>set h. Promoted x \<Longrightarrow> \<forall>x\<in>set (fst (Observe ob now (e # h))). Promoted x"
  using set_take_subset [of MaxEntries "recovery_entry e (seconds now) # e # h"]
  by (auto simp: Observe_promoted observed_entry_simps(1) split: option.splits)

lemma history_wf_Observe:
  assumes wf: "history_wf h" and now: "second \<le> now"
  shows "history_wf (fst (Observe ob now h))"
  using wf
proof (cases rule: history_wf_cases)
  case (deployed e hs)
  then show ?thesis using wf now by (simp add: history_wf_Observe_deployed)
next
  case (pending_deployed p e hs)
  let ?o = "fst (Observe ob now (e # hs))"
  have "length (take (MaxEntries - 1) ?o) < MaxEntries" by (simp add: MaxEntries_def)
  moreover have "history_wf (take (MaxEntries - 1) ?o)"
    using pending_deployed now by (intro history_wf_take history_wf_Observe_deployed)
  moreover have "entry_wf p" "\<forall>x\<in>set hs. Promoted x" "length hs < MaxEntries - 1"
    using wf pending_deployed by (auto simp: history_wf_pending)
  ultimately show ?thesis
    using pending_deployed Observe_all_promoted [of e hs ob now]
    by (simp add: fst_Observe_pending MaxEntries_def history_wf_pending) (auto dest: in_set_takeD)
next
  case (pending_only p)
  then show ?thesis using wf by (simp add: Observe_def)
qed (simp add: Observe_def)

lemmas history_wf_intros =
  history_wf_Nil history_wf_Drop history_wf_Open history_wf_Start history_wf_Observe history_wf_RecordDeployment


section \<open>What promoting takes\<close>

lemma Next_deployed_iff: "Next c h = StepDeployed \<longleftrightarrow> (\<exists>d. Deployed h = Some d \<and> e_Preparation d = c)"
  by (auto simp: Next_def split: option.splits)

lemma Next_record_iff:
  "Next c h = StepRecord \<longleftrightarrow>
     (\<forall>d. Deployed h = Some d \<longrightarrow> e_Preparation d \<noteq> c) \<and> (\<exists>p. Pending h = Some p \<and> e_Preparation p = c)"
  by (auto simp: Next_def split: option.splits)

lemma Open_shape:
  assumes "history_wf h"
  obtains d where "Open c now h = pending_entry c now # d" "Deployed d = Deployed h" "\<forall>e\<in>set d. Promoted e"
proof
  let ?d = "take (MaxEntries - 1) (Drop h)"
  have all: "\<forall>e\<in>set (Drop h). Promoted e" using assms by (rule Drop_promoted)
  then show "\<forall>e\<in>set ?d. Promoted e" by (auto dest: in_set_takeD)
  show "Open c now h = pending_entry c now # ?d" by (simp add: Open_def prepend_def MaxEntries_def)
  have "Deployed ?d = Deployed (Drop h)" using all by (cases "Drop h") (auto simp: MaxEntries_def)
  then show "Deployed ?d = Deployed h" by simp
qed

lemma Deployed_Open: "history_wf h \<Longrightarrow> Deployed (Open c now h) = Deployed h"
  by (rule Open_shape [of h c now]) auto

lemma Next_Open: "history_wf h \<Longrightarrow> Next (e_Preparation c) h \<noteq> StepDeployed \<Longrightarrow>
    Next (e_Preparation c) (Open c now h) = StepRecord"
  by (rule Open_shape [of h c now]) (auto simp: Next_record_iff Next_deployed_iff)

lemma Next_Start: "Next c h = StepRecord \<Longrightarrow> r \<noteq> [] \<Longrightarrow> Next c (Start r h) = StepDeployed"
  by (cases h) (auto simp: Next_record_iff Next_deployed_iff Start_def Promoted_def split: if_splits)

lemma Next_Drop: "history_wf h \<Longrightarrow> Next c (Drop h) \<noteq> StepRecord"
  using Pending_Drop [of h] by (auto simp: Next_record_iff)

text \<open>
  The interface through which the Serving controller drives a deployment log: what is deployed, the
  step that promoting a candidate takes next, and the three changes of a promotion.
\<close>

locale deployment_log =
  fixes invar :: "'h \<Rightarrow> bool"
    and name_of :: "'e \<Rightarrow> string"
    and deployed :: "'h \<Rightarrow> 'e option"
    and next_step :: "string \<Rightarrow> 'h \<Rightarrow> Step"
    and drop_pending :: "'h \<Rightarrow> 'h"
    and open_pending :: "'e \<Rightarrow> time \<Rightarrow> 'h \<Rightarrow> 'h"
    and start_pending :: "string \<Rightarrow> 'h \<Rightarrow> 'h"
  assumes next_deployed: "next_step c h = StepDeployed \<longleftrightarrow> (\<exists>e. deployed h = Some e \<and> name_of e = c)"
    and deployed_drop: "deployed (drop_pending h) = deployed h"
    and deployed_open: "invar h \<Longrightarrow> deployed (open_pending e t h) = deployed h"
    and next_open: "invar h \<Longrightarrow> next_step (name_of e) h \<noteq> StepDeployed \<Longrightarrow>
          next_step (name_of e) (open_pending e t h) = StepRecord"
    and next_start: "next_step c h = StepRecord \<Longrightarrow> r \<noteq> [] \<Longrightarrow> next_step c (start_pending r h) = StepDeployed"
    and next_drop: "invar h \<Longrightarrow> next_step c (drop_pending h) \<noteq> StepRecord"
    and invar_drop: "invar h \<Longrightarrow> invar (drop_pending h)"
    and invar_open: "invar h \<Longrightarrow> second \<le> t \<Longrightarrow> invar (open_pending e t h)"
    and invar_start: "invar h \<Longrightarrow> r \<noteq> [] \<Longrightarrow> invar (start_pending r h)"
begin

text \<open>
  The two passes of a promotion: opening leaves what is deployed alone and makes recording the next
  step; starting deploys the candidate.
\<close>

lemma two_passes:
  assumes "invar h" "next_step (name_of e) h = StepOpen" "r \<noteq> []"
  shows "deployed (open_pending e t h) = deployed h"
    and "next_step (name_of e) (open_pending e t h) = StepRecord"
    and "\<exists>d. deployed (start_pending r (open_pending e t h)) = Some d \<and> name_of d = name_of e"
  using assms deployed_open next_open [of h e t] next_start [of "name_of e" "open_pending e t h" r] next_deployed
  by auto

text \<open>A candidate that is held gives up its promotion and leaves what is deployed alone.\<close>

lemma held:
  assumes "invar h"
  shows "deployed (drop_pending h) = deployed h" "next_step c (drop_pending h) \<noteq> StepRecord"
    "next_step c (drop_pending h) = StepDeployed \<longleftrightarrow> next_step c h = StepDeployed"
  using assms deployed_drop next_drop next_deployed by auto

end

interpretation promotion_log: deployment_log history_wf e_Preparation Deployed Next Drop Open Start
  by unfold_locales
     (auto simp: Next_deployed_iff Deployed_Open Next_Open Next_Start Next_Drop history_wf_intros)

section \<open>The log is append-only\<close>

text \<open>What identifies a promoted deployment, and the log of them.\<close>

definition identity :: "entry \<Rightarrow> string \<times> string \<times> string \<times> string \<times> string \<times> time \<times> string" where
  "identity e = (e_Preparation e, e_Digest e, e_OCIRef e, e_Registry e, e_ProductRevision e, e_Started e, e_PromotionRecord e)"

definition promoted_log :: "history \<Rightarrow> (string \<times> string \<times> string \<times> string \<times> string \<times> time \<times> string) list" where
  "promoted_log h = map identity (filter Promoted h)"

lemma promoted_log_simps [simp]:
  "promoted_log [] = []"
  "promoted_log (e # h) = (if Promoted e then [identity e] else []) @ promoted_log h"
  by (simp_all add: promoted_log_def)

lemma promoted_log_all: "\<forall>e\<in>set h. Promoted e \<Longrightarrow> promoted_log h = map identity h"
  by (induction h) auto

lemma promoted_log_Drop [simp]: "promoted_log (Drop h) = promoted_log h"
  by (cases h) (auto simp: Drop_def)

lemma promoted_log_Open: "history_wf h \<Longrightarrow> promoted_log (Open c now h) = take (MaxEntries - 1) (promoted_log h)"
  using Drop_promoted [of h] promoted_log_all [of "Drop h"] promoted_log_all [of "take (MaxEntries - 1) (Drop h)"]
  by (simp add: Open_def prepend_def MaxEntries_def take_map) (meson in_set_takeD)

lemma identity_superseded [simp]: "identity (e\<lparr>e_Ended := t, e_EndReason := r\<rparr>) = identity e"
  by (simp add: identity_def)

lemma identity_set_record [simp]: "identity (set_record d hl r e) = identity e"
  by (simp add: identity_def set_record_def)

lemma promoted_log_supersede [simp]: "promoted_log (supersede s h) = promoted_log h"
  by (induction h) (auto simp: Promoted_def)

lemma promoted_log_Start:
  "Pending h = Some p \<Longrightarrow> r \<noteq> [] \<Longrightarrow> promoted_log (Start r h) = identity (p\<lparr>e_PromotionRecord := r\<rparr>) # promoted_log h"
  by (cases h) (auto simp: Start_def Promoted_def split: if_splits)

lemma promoted_log_RecordDeployment [simp]: "promoted_log (RecordDeployment d hl r h) = promoted_log h"
  by (induction h) (auto simp: RecordDeployment_def)

lemma identity_observed: "observed_entry health now e = Some e' \<Longrightarrow> identity e' = identity e"
  by (auto simp: observed_entry_def identity_def split: if_splits)

definition extends_log :: "history \<Rightarrow> history \<Rightarrow> bool" where
  "extends_log h h' \<longleftrightarrow> (\<exists>new n. length new \<le> 1 \<and> MaxEntries - 1 \<le> n \<and> promoted_log h' = take n (new @ promoted_log h))"

lemma extends_logI:
  "promoted_log h' = take n (new @ promoted_log h) \<Longrightarrow> length new \<le> 1 \<Longrightarrow> MaxEntries - 1 \<le> n \<Longrightarrow> extends_log h h'"
  unfolding extends_log_def by blast

lemma extends_log_same: "promoted_log h' = promoted_log h \<Longrightarrow> extends_log h h'"
  by (rule extends_logI [where new = "[]" and n = "length (promoted_log h) + MaxEntries"]) auto

lemma extends_log_Open: "history_wf h \<Longrightarrow> extends_log h (Open c now h)"
  by (rule extends_logI [where new = "[]" and n = "MaxEntries - 1"]) (simp_all add: promoted_log_Open)

lemma extends_log_Start: "r \<noteq> [] \<Longrightarrow> extends_log h (Start r h)"
proof (cases "Pending h")
  case None
  then show ?thesis by (intro extends_log_same) (simp add: Start_def)
next
  case (Some p)
  assume "r \<noteq> []"
  then show ?thesis
    using promoted_log_Start [OF Some]
    by (intro extends_logI [where new = "[identity (p\<lparr>e_PromotionRecord := r\<rparr>)]" and n = "length (promoted_log h) + MaxEntries"])
       (auto simp: MaxEntries_def)
qed

lemma take_all_promoted_log:
  "\<forall>x\<in>set h. Promoted x \<Longrightarrow> promoted_log (take n h) = take n (map identity h)"
  by (subst promoted_log_all) (auto simp: take_map dest: in_set_takeD)

lemma extends_log_Observe:
  assumes wf: "history_wf h"
  shows "extends_log h (fst (Observe ob now h))"
  using wf
proof (cases rule: history_wf_cases)
  case empty
  then show ?thesis by (intro extends_log_same) (simp add: Observe_def)
next
  case (pending_only p)
  then show ?thesis by (intro extends_log_same) (simp add: Observe_def)
next
  case (deployed e hs)
  then have all: "\<forall>x\<in>set (recovery_entry e (seconds now) # e # hs). Promoted x" "promoted_log hs = map identity hs"
    using wf by (auto simp: history_wf_promoted promoted_log_all)
  have "extends_log h (take MaxEntries (recovery_entry e (seconds now) # e # hs))"
    using deployed take_all_promoted_log [OF all(1), of MaxEntries] all(2)
    by (intro extends_logI [where new = "[identity (recovery_entry e (seconds now))]" and n = MaxEntries]) auto
  then show ?thesis
    using deployed
    by (auto simp: Observe_promoted observed_entry_simps(1) identity_observed
        intro: extends_log_same split: option.splits)
next
  case (pending_deployed p e hs)
  then have all: "\<forall>x\<in>set (recovery_entry e (seconds now) # e # hs). Promoted x" "promoted_log hs = map identity hs"
    by (auto simp: history_wf_promoted promoted_log_all)
  have "take MaxEntries (p # xs) = p # take (MaxEntries - 1) xs" for xs
    by (simp add: MaxEntries_def)
  then have "extends_log h (take MaxEntries (p # recovery_entry e (seconds now) # e # hs))"
    using pending_deployed take_all_promoted_log [OF all(1), of "MaxEntries - 1"] all(2)
    by (intro extends_logI [where new = "[identity (recovery_entry e (seconds now))]" and n = "MaxEntries - 1"]) auto
  then show ?thesis
    using pending_deployed
    by (auto simp: Observe_pending observed_entry_simps(1) identity_observed
        intro: extends_log_same split: option.splits)
qed

section \<open>A stage's history over time\<close>

text \<open>
  The steps the Serving controller takes on a history, with the clock it reads: it opens a promotion
  when \<open>Next\<close> says so, drops one that is held, starts the pending one under the digest of its record,
  observes what the engine reports, and records deployments that were healthy.
\<close>

inductive history_step :: "time \<times> history \<Rightarrow> time \<times> history \<Rightarrow> bool" where
  open_step: "now \<le> t \<Longrightarrow> Next (e_Preparation c) h = StepOpen \<Longrightarrow> history_step (now, h) (t, Open c t h)"
| drop_step: "now \<le> t \<Longrightarrow> history_step (now, h) (t, Drop h)"
| start_step: "now \<le> t \<Longrightarrow> Next c h = StepRecord \<Longrightarrow> r \<noteq> [] \<Longrightarrow> history_step (now, h) (t, Start r h)"
| observe_step: "now \<le> t \<Longrightarrow> history_step (now, h) (t, fst (Observe ob t h))"
| record_step: "now \<le> t \<Longrightarrow> healthy \<noteq> 0 \<Longrightarrow> r \<noteq> [] \<Longrightarrow>
    history_step (now, h) (t, RecordDeployment digest healthy r h)"

inductive_cases history_step_cases: "history_step (now, h) (t, h')"

inductive history_reachable :: "time \<times> history \<Rightarrow> bool" where
  history_init: "second \<le> now \<Longrightarrow> history_reachable (now, [])"
| history_next: "history_reachable s \<Longrightarrow> history_step s s' \<Longrightarrow> history_reachable s'"

lemma history_step_clock: "history_step s s' \<Longrightarrow> fst s \<le> fst s'"
  by (induction rule: history_step.induct) auto

lemma history_step_wf: "history_step s s' \<Longrightarrow> second \<le> fst s \<Longrightarrow> history_wf (snd s) \<Longrightarrow> history_wf (snd s')"
  by (induction rule: history_step.induct) (auto intro: history_wf_intros simp: Unrecorded_def)

lemma history_step_extends: "history_step s s' \<Longrightarrow> history_wf (snd s) \<Longrightarrow> extends_log (snd s) (snd s')"
  by (induction rule: history_step.induct)
     (auto intro: extends_log_Open extends_log_Start extends_log_Observe extends_log_same)

lemma history_reachable_wf: "history_reachable s \<Longrightarrow> second \<le> fst s \<and> history_wf (snd s)"
  by (induction rule: history_reachable.induct) (auto dest: history_step_clock history_step_wf)

section \<open>Properties\<close>

text \<open>A concrete log: a Preparation deployed and healthy, and another one whose promotion is pending.\<close>

definition sample_candidate :: "string \<Rightarrow> entry" where
  "sample_candidate name = \<lparr>e_Preparation = name, e_Digest = name, e_OCIRef = [], e_Registry = [],
     e_ProductRevision = name, e_Started = 0, e_Healthy = 0, e_Ended = 0, e_EndReason = EndNone,
     e_PromotionRecord = [], e_DeploymentRecord = []\<rparr>"

definition sample_log :: history where
  "sample_log =
     (let opened = Open (sample_candidate ''a'') (100 * second) [];
          started = Start ''ra'' opened;
          pending = Open (sample_candidate ''b'') (200 * second) started
      in fst (Observe \<lparr>o_Revision = ''a'', o_Health = HealthHealthy\<rparr> (260 * second) pending))"

lemma e_Preparation_sample [simp]: "e_Preparation (sample_candidate name) = name"
  by (simp add: sample_candidate_def)

lemma sample_log_steps:
  "Next ''a'' [] = StepOpen"
  "Next ''a'' (Open (sample_candidate ''a'') (100 * second) []) = StepRecord"
  "Next ''b'' (Start ''ra'' (Open (sample_candidate ''a'') (100 * second) [])) = StepOpen"
  "Next ''b'' sample_log = StepRecord"
  by code_simp+

lemmas reach_open = history_next [OF _ open_step]
  and reach_start = history_next [OF _ start_step]
  and reach_observe = history_next [OF _ observe_step]

lemma sample_log_reachable: "history_reachable (260 * second, sample_log)"
proof -
  let ?a = "Open (sample_candidate ''a'') (100 * second) []"
  have init: "history_reachable (second, [])" by (rule history_init) simp
  have "history_reachable (100 * second, ?a)"
    by (rule reach_open [OF init]) (simp_all add: sample_log_steps)
  from reach_start [OF this _ sample_log_steps(2)]
  have started: "history_reachable (150 * second, Start ''ra'' ?a)" by simp
  have next_b: "Next (e_Preparation (sample_candidate ''b'')) (Start ''ra'' ?a) = StepOpen"
    unfolding e_Preparation_sample by (rule sample_log_steps)
  have "history_reachable (200 * second, Open (sample_candidate ''b'') (200 * second) (Start ''ra'' ?a))"
    by (rule reach_open [OF started _ next_b]) simp
  then show ?thesis
    unfolding sample_log_def Let_def by (rule reach_observe) simp
qed

lemma sample_log_wf: "history_wf sample_log"
  using history_reachable_wf [OF sample_log_reachable] by simp

text \<open>C23: Whatever the controller does to a stage's history, in whatever order and at whatever times of
  a clock that does not run backwards, the history stays well-formed: it holds at most 16 entries,
  only its first may be a promotion that is being recorded, only the deployed entry may still run, an
  entry has an end time exactly when it has a reason for its end, a pending entry has neither been
  healthy nor ended, only a deployment that was healthy has a deployment record, and all times are
  whole seconds.\<close>

theorem history_always_wf:
  assumes "history_reachable (now, h)"
  shows "length h \<le> 16 \<and> (\<forall>e\<in>set h. entry_wf e) \<and> (\<forall>e\<in>set (tl h). Promoted e) \<and> (\<forall>e\<in>set (past h). \<not> Running e)"
  using history_reachable_wf [OF assms] by (simp add: history_wf_def MaxEntries_def)

theorem history_always_wf_witness:
  "length sample_log \<le> 16 \<and> list_all entry_wf sample_log \<and> list_all Promoted (tl sample_log)"
  using history_always_wf [OF sample_log_reachable] by (simp add: list_all_iff)

text \<open>C24: The log of promoted deployments is append-only: one step adds at most one deployment in front
  and drops only the oldest ones beyond the capacity; the Preparation, digest, artifact, Registry,
  revision, start and promotion record of a promoted deployment never change while it is kept.\<close>

theorem history_append_only:
  assumes "history_reachable s" "history_step s s'"
  shows "\<exists>new n. length new \<le> 1 \<and> 15 \<le> n \<and> promoted_log (snd s') = take n (new @ promoted_log (snd s))"
  using history_step_extends [OF assms(2)] history_reachable_wf [OF assms(1)]
  by (simp add: extends_log_def MaxEntries_def)

theorem history_append_only_witness:
  "\<exists>new n. length new \<le> 1 \<and> 15 \<le> n
     \<and> promoted_log (Start ''rb'' sample_log) = take n (new @ promoted_log sample_log)"
proof -
  have "history_step (260 * second, sample_log) (300 * second, Start ''rb'' sample_log)"
    by (rule start_step [OF _ sample_log_steps(4)]) simp_all
  from history_append_only [OF sample_log_reachable this] show ?thesis by simp
qed

text \<open>A promotion takes two passes. While the candidate's promotion is being recorded, what the stage
  has deployed is unchanged and the next pass records; once its record is pushed the candidate is
  what is deployed, and the entry it replaces no longer runs.\<close>

theorem promotion_two_passes:
  assumes "history_wf h" "second \<le> now" "Next (e_Preparation c) h = StepOpen" "r \<noteq> []"
  defines "opened \<equiv> Open c now h"
  shows "Deployed opened = Deployed h \<and> Next (e_Preparation c) opened = StepRecord
    \<and> Next (e_Preparation c) (Start r opened) = StepDeployed
    \<and> (\<exists>d. Deployed (Start r opened) = Some d \<and> e_Preparation d = e_Preparation c \<and> Running d)
    \<and> (\<forall>e\<in>set (past (Start r opened)). \<not> Running e)"
proof -
  have two: "Deployed opened = Deployed h" "Next (e_Preparation c) opened = StepRecord"
    "\<exists>d. Deployed (Start r opened) = Some d \<and> e_Preparation d = e_Preparation c"
    using promotion_log.two_passes [OF assms(1,3,4)] by (simp_all add: opened_def)
  have wf: "history_wf (Start r opened)"
    using assms by (auto intro!: history_wf_intros simp: opened_def)
  obtain hs where "opened = pending_entry c now # hs"
    using Open_shape [OF assms(1), of c now] unfolding opened_def by metis
  then obtain p where "opened = p # hs" "\<not> Promoted p" "Running p"
    by (simp add: pending_entry_def Running_def Promoted_def)
  then have "Deployed (Start r opened) = Some (p\<lparr>e_PromotionRecord := r\<rparr>)" "Running (p\<lparr>e_PromotionRecord := r\<rparr>)"
    using assms(4) by (simp_all add: Start_def Promoted_def Running_def)
  then show ?thesis
    using two wf promotion_log.next_start [OF two(2) assms(4)] by (auto simp: history_wf_def)
qed

theorem promotion_two_passes_witness:
  "Deployed (Open (sample_candidate ''b'') second []) = None
   \<and> Next ''b'' (Start ''r'' (Open (sample_candidate ''b'') second [])) = StepDeployed"
  using promotion_two_passes [of "[]" second "sample_candidate ''b''" "''r''"]
  by (simp add: Next_def)

text \<open>Holding a candidate gives up its pending promotion and nothing else: what is deployed stays
  deployed, no promotion is recorded next, and the candidate counts as deployed only if it already
  did.\<close>

theorem hold_keeps_deployed:
  assumes "history_wf h"
  shows "Deployed (Drop h) = Deployed h \<and> promoted_log (Drop h) = promoted_log h \<and> Pending (Drop h) = None
    \<and> Next c (Drop h) \<noteq> StepRecord \<and> (Next c (Drop h) = StepDeployed \<longleftrightarrow> Next c h = StepDeployed)"
  using promotion_log.held [OF assms] Pending_Drop [OF assms] by simp

theorem hold_keeps_deployed_witness: "Deployed (Drop sample_log) = Deployed sample_log"
  using hold_keeps_deployed [OF sample_log_wf] by blast

end
