(* ===== verification/Promotion_Gate.thy ===== *)
theory Promotion_Gate
  imports Promotion_History
begin

text \<open>
  The upstream gate (\<open>internal/promotion/gate.go\<close>): whether a stage may deploy a Preparation, from
  the histories of the upstream stages it names. The theory proves what lets a Preparation pass, that
  the decision reports the most severe of its stages, when it is worth asking again, and that a gate
  that passes keeps passing as time goes by.
\<close>

section \<open>Requests and results\<close>

datatype gate_outcome = OutcomeInvalidPipeline | OutcomeNotDeployedUpstream | OutcomeSoaking | OutcomeSatisfied

fun severity :: "gate_outcome \<Rightarrow> int" where
  "severity OutcomeSatisfied = 0"
| "severity OutcomeSoaking = 1"
| "severity OutcomeNotDeployedUpstream = 2"
| "severity OutcomeInvalidPipeline = 3"

record stage =
  s_Order :: string
  s_SoakSeconds :: int32

definition Soak :: "stage \<Rightarrow> duration" where
  "Soak s = sint (s_SoakSeconds s) * second"

record upstream =
  u_Product :: string
  u_History :: history

record gate_request =
  r_Preparation :: string
  r_Product :: string
  r_Revision :: string
  r_Stages :: "stage list"
  r_Self :: history
  r_Upstreams :: "string \<rightharpoonup> upstream"
  r_Now :: time

record qualified_entry =
  q_Stage :: stage
  q_Entry :: entry

record gate_result =
  g_Outcome :: gate_outcome
  g_Message :: string
  g_RequeueAfter :: duration
  g_Qualified :: "qualified_entry list"
  g_Promotion :: string

definition Satisfied :: "gate_result \<Rightarrow> bool" where
  "Satisfied r = (g_Outcome r = OutcomeSatisfied)"

record stage_verdict =
  v_outcome :: gate_outcome
  v_message :: string
  v_remaining :: duration
  v_qualified :: entry

text \<open>The zero values of Go's structs, which the fields a literal leaves out hold.\<close>

definition zero_entry :: entry where
  "zero_entry = \<lparr>e_Preparation = [], e_Digest = [], e_OCIRef = [], e_Registry = [], e_ProductRevision = [],
     e_Started = 0, e_Healthy = 0, e_Ended = 0, e_EndReason = EndNone, e_PromotionRecord = [], e_DeploymentRecord = []\<rparr>"

definition outcome_verdict :: "gate_outcome \<Rightarrow> string \<Rightarrow> stage_verdict" where
  "outcome_verdict outcome message =
     \<lparr>v_outcome = outcome, v_message = message, v_remaining = 0, v_qualified = zero_entry\<rparr>"

definition zero_result :: gate_result where
  "zero_result = \<lparr>g_Outcome = OutcomeSatisfied, g_Message = [], g_RequeueAfter = 0, g_Qualified = [], g_Promotion = []\<rparr>"

section \<open>One stage\<close>

definition short :: "string \<Rightarrow> string" where
  "short digest = take 12 (trim_prefix ''sha256:'' digest)"

definition satisfied_verdict :: "entry \<Rightarrow> stage_verdict" where
  "satisfied_verdict e = (outcome_verdict OutcomeSatisfied [])\<lparr>v_qualified := e\<rparr>"

definition recording_verdict :: "stage \<Rightarrow> entry \<Rightarrow> stage_verdict" where
  "recording_verdict stage e = outcome_verdict OutcomeSoaking
     (''Order '' @ s_Order stage @ '' is recording its deployment of '' @ e_Preparation e)"

definition soaking_verdict :: "stage \<Rightarrow> entry \<Rightarrow> duration \<Rightarrow> stage_verdict" where
  "soaking_verdict stage e healthyFor = (outcome_verdict OutcomeSoaking
     (''Order '' @ s_Order stage @ '' runs '' @ e_Preparation e @ '' healthily; its soak of '' @
      duration_string (Soak stage) @ '' ends at '' @ rfc3339 (e_Healthy e + Soak stage)))
     \<lparr>v_remaining := wrap64 (Soak stage - healthyFor)\<rparr>"

text \<open>
  The loop over the upstream history: it returns as soon as an entry qualifies (\<open>Inl\<close>), and remembers
  the first entry that soaks or is being recorded (\<open>Inr\<close>).
\<close>

definition healthy_for :: "time \<Rightarrow> entry \<Rightarrow> duration" where
  "healthy_for now e = time_sub (if Running e then now else e_Ended e) (e_Healthy e)"

fun stage_loop :: "gate_request \<Rightarrow> stage \<Rightarrow> stage_verdict option \<Rightarrow> history \<Rightarrow> stage_verdict + stage_verdict option" where
  "stage_loop req stage soaking [] = Inr soaking"
| "stage_loop req stage soaking (e # es) =
     (if e_ProductRevision e \<noteq> r_Revision req \<or> \<not> Promoted e \<or> e_Healthy e = 0 \<or> e_EndReason e = EndDegraded
      then stage_loop req stage soaking es
      else let healthyFor = healthy_for (r_Now req) e in
        if healthyFor \<ge> Soak stage \<and> e_DeploymentRecord e \<noteq> [] then Inl (satisfied_verdict e)
        else if healthyFor \<ge> Soak stage \<and> soaking = None
        then stage_loop req stage (Some (recording_verdict stage e)) es
        else if Running e \<and> soaking = None
        then stage_loop req stage (Some (soaking_verdict stage e healthyFor)) es
        else stage_loop req stage soaking es)"

definition not_deployed_verdict :: "gate_request \<Rightarrow> stage \<Rightarrow> history \<Rightarrow> stage_verdict" where
  "not_deployed_verdict req stage h = outcome_verdict OutcomeNotDeployedUpstream
     (''Order '' @ s_Order stage @ '' has not deployed revision '' @ short (r_Revision req) @ '' healthily'' @
      (case Deployed h of
         Some d \<Rightarrow> if e_ProductRevision d \<noteq> r_Revision req
           then ''; it runs '' @ e_Preparation d @ '' of revision '' @ short (e_ProductRevision d) else []
       | None \<Rightarrow> []))"

definition evaluateStage :: "gate_request \<Rightarrow> stage \<Rightarrow> stage_verdict" where
  "evaluateStage req stage =
     (case r_Upstreams req (s_Order stage) of
        None \<Rightarrow> outcome_verdict OutcomeNotDeployedUpstream (''Order '' @ s_Order stage @ '' does not exist'')
      | Some upstream \<Rightarrow>
          if u_Product upstream \<noteq> r_Product req
          then outcome_verdict OutcomeInvalidPipeline
            (''Order '' @ s_Order stage @ '' is a variant of Product '' @ u_Product upstream @ '', not '' @ r_Product req)
          else (case stage_loop req stage None (u_History upstream) of
            Inl v \<Rightarrow> v
          | Inr (Some soaking) \<Rightarrow> soaking
          | Inr None \<Rightarrow> not_deployed_verdict req stage (u_History upstream)))"

section \<open>The gate\<close>

text \<open>One turn of the loop over the stages: the result so far, and the messages of its outcome.\<close>

definition gate_turn :: "gate_request \<Rightarrow> gate_result \<times> string list \<Rightarrow> stage \<Rightarrow> gate_result \<times> string list" where
  "gate_turn req acc stage =
     (case acc of (result, messages) \<Rightarrow>
      let v = evaluateStage req stage;
          (outcome, messages) =
            (if severity (v_outcome v) > severity (g_Outcome result) then (v_outcome v, [v_message v])
             else if v_outcome v = g_Outcome result \<and> v_outcome v \<noteq> OutcomeSatisfied
             then (g_Outcome result, messages @ [v_message v])
             else (g_Outcome result, messages));
          qualifying = (if v_outcome v = OutcomeSatisfied
             then g_Qualified result @ [\<lparr>q_Stage = stage, q_Entry = v_qualified v\<rparr>] else g_Qualified result);
          requeue = (if v_remaining v > 0 \<and> (g_RequeueAfter result = 0 \<or> v_remaining v < g_RequeueAfter result)
             then v_remaining v else g_RequeueAfter result)
      in (result\<lparr>g_Outcome := outcome, g_Qualified := qualifying, g_RequeueAfter := requeue\<rparr>, messages))"

definition gate_finish :: "stage list \<Rightarrow> gate_result \<times> string list \<Rightarrow> gate_result" where
  "gate_finish stages acc =
     (case acc of (result, messages) \<Rightarrow>
      if \<not> Satisfied result then result\<lparr>g_Qualified := [], g_Message := str_join ''; '' messages\<rparr>
      else result\<lparr>g_Message := ''deployed upstream by '' @ str_join '', '' (map s_Order stages)\<rparr>)"

definition gate_Evaluate :: "gate_request \<Rightarrow> gate_result" where
  "gate_Evaluate req =
     (if r_Stages req = [] then zero_result\<lparr>g_Message := ''no upstream stages''\<rparr>
      else case PromotedBefore (r_Preparation req) (r_Self req) of
        Some earlier \<Rightarrow> zero_result\<lparr>g_Message := ''promoted here at '' @ rfc3339 (e_Started earlier),
                                  g_Promotion := e_PromotionRecord earlier\<rparr>
      | None \<Rightarrow> gate_finish (r_Stages req) (foldl (gate_turn req) (zero_result, []) (r_Stages req)))"

section \<open>What qualifies a revision\<close>

text \<open>
  The contract of a stage: some promoted deployment of the revision by the upstream Order, an Order
  of the same Product, was healthy without degrading for the soak time, and has a deployment record.
\<close>

definition qualifies :: "gate_request \<Rightarrow> stage \<Rightarrow> entry \<Rightarrow> bool" where
  "qualifies req stage e \<longleftrightarrow>
     e_ProductRevision e = r_Revision req \<and> Promoted e \<and> e_Healthy e \<noteq> 0 \<and> e_EndReason e \<noteq> EndDegraded
   \<and> Soak stage \<le> healthy_for (r_Now req) e \<and> e_DeploymentRecord e \<noteq> []"

definition stage_qualified :: "gate_request \<Rightarrow> stage \<Rightarrow> bool" where
  "stage_qualified req stage \<longleftrightarrow>
     (\<exists>u. r_Upstreams req (s_Order stage) = Some u \<and> u_Product u = r_Product req
        \<and> (\<exists>e\<in>set (u_History u). qualifies req stage e))"

lemmas [gate_simps] = outcome_verdict_def satisfied_verdict_def recording_verdict_def soaking_verdict_def
  not_deployed_verdict_def zero_result_def Satisfied_def

lemma verdict_outcomes [simp]:
  "v_outcome (outcome_verdict o1 m) = o1" "v_remaining (outcome_verdict o1 m) = 0"
  "v_outcome (satisfied_verdict e) = OutcomeSatisfied" "v_qualified (satisfied_verdict e) = e"
  "v_remaining (satisfied_verdict e) = 0"
  "v_outcome (recording_verdict s e) = OutcomeSoaking" "v_remaining (recording_verdict s e) = 0"
  "v_outcome (soaking_verdict s e d) = OutcomeSoaking" "v_remaining (soaking_verdict s e d) = wrap64 (Soak s - d)"
  "v_outcome (not_deployed_verdict r s h) = OutcomeNotDeployedUpstream" "v_remaining (not_deployed_verdict r s h) = 0"
  by (simp_all add: gate_simps)

text \<open>The loop returns at the first entry that qualifies, and otherwise at most a soaking verdict.\<close>

definition next_soaking :: "gate_request \<Rightarrow> stage \<Rightarrow> stage_verdict option \<Rightarrow> entry \<Rightarrow> stage_verdict option" where
  "next_soaking req stage soaking e =
     (if e_ProductRevision e \<noteq> r_Revision req \<or> \<not> Promoted e \<or> e_Healthy e = 0 \<or> e_EndReason e = EndDegraded
        \<or> soaking \<noteq> None then soaking
      else if healthy_for (r_Now req) e \<ge> Soak stage then Some (recording_verdict stage e)
      else if Running e then Some (soaking_verdict stage e (healthy_for (r_Now req) e))
      else None)"

lemma stage_loop_Cons:
  "stage_loop req stage soaking (e # h) =
     (if qualifies req stage e then Inl (satisfied_verdict e)
      else stage_loop req stage (next_soaking req stage soaking e) h)"
  by (cases soaking) (auto simp: qualifies_def next_soaking_def Let_def)

lemma next_soaking_outcome:
  "next_soaking req stage soaking e = Some v \<Longrightarrow> soaking = Some v \<or> v_outcome v = OutcomeSoaking"
  by (auto simp: next_soaking_def split: if_splits)

lemma stage_loop_find:
  "case find (qualifies req stage) h of
     Some e \<Rightarrow> stage_loop req stage soaking h = Inl (satisfied_verdict e)
   | None \<Rightarrow> (\<exists>s. stage_loop req stage soaking h = Inr s
        \<and> (\<forall>v. s = Some v \<longrightarrow> soaking = Some v \<or> v_outcome v = OutcomeSoaking))"
proof (induction h arbitrary: soaking)
  case Nil
  then show ?case by simp
next
  case (Cons e h)
  show ?case
    using Cons.IH [of "next_soaking req stage soaking e"] next_soaking_outcome [of req stage soaking e]
    by (auto simp: stage_loop_Cons simp del: stage_loop.simps split: option.splits)
qed

lemma stage_loop_satisfied:
  "stage_loop req stage None h = Inl v \<longleftrightarrow> (\<exists>e. find (qualifies req stage) h = Some e \<and> v = satisfied_verdict e)"
  using stage_loop_find [where req = req and stage = stage and h = h and soaking = None]
  by (auto split: option.splits)

lemma stage_loop_satisfied_outcome: "stage_loop req stage None h = Inl v \<Longrightarrow> v_outcome v = OutcomeSatisfied"
  by (auto simp: stage_loop_satisfied outcome_verdict_def satisfied_verdict_def)

lemma stage_loop_soaking:
  "stage_loop req stage None h = Inr (Some v) \<Longrightarrow> v_outcome v = OutcomeSoaking"
  using stage_loop_find [where req = req and stage = stage and h = h and soaking = None]
  by (auto split: option.splits)

lemma find_qualifies: "(\<exists>e. find P xs = Some e) \<longleftrightarrow> (\<exists>e\<in>set xs. P e)"
  using find_None_iff [of P xs] by (cases "find P xs") (auto simp: find_Some_iff)

lemma evaluateStage_satisfied:
  "v_outcome (evaluateStage req stage) = OutcomeSatisfied \<longleftrightarrow> stage_qualified req stage"
proof (cases "r_Upstreams req (s_Order stage)")
  case None
  then show ?thesis by (simp add: evaluateStage_def stage_qualified_def)
next
  case (Some u)
  have "stage_loop req stage None (u_History u) = Inl v \<Longrightarrow> v_outcome v = OutcomeSatisfied" for v
    by (auto simp: stage_loop_satisfied)
  moreover have "stage_loop req stage None (u_History u) = Inr (Some v) \<Longrightarrow> v_outcome v \<noteq> OutcomeSatisfied" for v
    using stage_loop_soaking by fastforce
  moreover have "(\<exists>v. stage_loop req stage None (u_History u) = Inl v) \<longleftrightarrow> (\<exists>e\<in>set (u_History u). qualifies req stage e)"
    by (simp add: stage_loop_satisfied find_qualifies)
  ultimately show ?thesis
    using Some by (auto simp: evaluateStage_def stage_qualified_def split: sum.splits option.splits)
qed

lemma evaluateStage_qualified:
  assumes "v_outcome (evaluateStage req stage) = OutcomeSatisfied"
  shows "\<exists>u. r_Upstreams req (s_Order stage) = Some u \<and> u_Product u = r_Product req
    \<and> v_qualified (evaluateStage req stage) \<in> set (u_History u)
    \<and> qualifies req stage (v_qualified (evaluateStage req stage))"
proof -
  have "stage_qualified req stage" using assms by (simp add: evaluateStage_satisfied)
  then obtain u where u: "r_Upstreams req (s_Order stage) = Some u" "u_Product u = r_Product req"
    "\<exists>e\<in>set (u_History u). qualifies req stage e"
    by (auto simp: stage_qualified_def)
  then obtain e where e: "find (qualifies req stage) (u_History u) = Some e"
    by (auto simp flip: find_qualifies)
  then have "stage_loop req stage None (u_History u) = Inl (satisfied_verdict e)"
    by (simp add: stage_loop_satisfied)
  then have "evaluateStage req stage = satisfied_verdict e"
    using u by (simp add: evaluateStage_def)
  then show ?thesis using u e by (auto simp: find_Some_iff)
qed


section \<open>The gate reports the most severe stage\<close>

text \<open>
  What the loop has computed after some stages: the greatest severity, the messages of the stages
  that have it, the qualifying deployments, and the shortest soak that is under way.
\<close>

fun worst :: "stage_verdict list \<Rightarrow> int" where
  "worst [] = 0"
| "worst (v # vs) = max (severity (v_outcome v)) (worst vs)"

definition soaks :: "stage_verdict list \<Rightarrow> duration set" where
  "soaks vs = {v_remaining v |v. v \<in> set vs \<and> 0 < v_remaining v}"

definition worst_messages :: "gate_outcome \<Rightarrow> stage_verdict list \<Rightarrow> string list" where
  "worst_messages outcome vs = map v_message (filter (\<lambda>v. v_outcome v = outcome \<and> v_outcome v \<noteq> OutcomeSatisfied) vs)"

definition gate_state :: "gate_request \<Rightarrow> stage list \<Rightarrow> gate_result \<times> string list \<Rightarrow> bool" where
  "gate_state req done acc \<longleftrightarrow>
     (let vs = map (evaluateStage req) done; result = fst acc in
        severity (g_Outcome result) = worst vs
      \<and> snd acc = worst_messages (g_Outcome result) vs
      \<and> g_Qualified result = map (\<lambda>s. \<lparr>q_Stage = s, q_Entry = v_qualified (evaluateStage req s)\<rparr>)
          (filter (\<lambda>s. v_outcome (evaluateStage req s) = OutcomeSatisfied) done)
      \<and> g_RequeueAfter result = (if soaks vs = {} then 0 else Min (soaks vs))
      \<and> g_Promotion result = [])"

lemma severity_inject [simp]: "severity a = severity b \<longleftrightarrow> a = b"
  by (cases a; cases b) auto

lemma severity_nonneg [simp]: "0 \<le> severity a"
  by (cases a) auto

lemma severity_0 [simp]: "severity a = 0 \<longleftrightarrow> a = OutcomeSatisfied"
  by (cases a) auto

lemma worst_snoc: "worst (vs @ [v]) = max (worst vs) (severity (v_outcome v))"
  by (induction vs) auto

lemma worst_ge: "v \<in> set vs \<Longrightarrow> severity (v_outcome v) \<le> worst vs"
  by (induction vs) auto

lemma worst_nonneg [simp]: "0 \<le> worst vs"
  by (induction vs) auto

lemma worst_0: "worst vs = 0 \<longleftrightarrow> (\<forall>v\<in>set vs. v_outcome v = OutcomeSatisfied)"
proof (induction vs)
  case (Cons v vs)
  have "worst (v # vs) = 0 \<longleftrightarrow> severity (v_outcome v) = 0 \<and> worst vs = 0"
    using severity_nonneg [of "v_outcome v"] worst_nonneg [of vs]
    unfolding worst.simps max_def by presburger
  then show ?case using Cons by simp
qed simp

lemma soaks_snoc: "soaks (vs @ [v]) = (if 0 < v_remaining v then insert (v_remaining v) (soaks vs) else soaks vs)"
  by (auto simp: soaks_def)

lemma finite_soaks [simp]: "finite (soaks vs)"
proof -
  have "soaks vs \<subseteq> v_remaining ` set vs" by (auto simp: soaks_def)
  then show ?thesis by (rule finite_subset) simp
qed

lemma soaks_pos: "d \<in> soaks vs \<Longrightarrow> 0 < d"
  by (auto simp: soaks_def)

lemma requeue_snoc:
  assumes q: "q = (if soaks vs = {} then 0 else Min (soaks vs))"
  shows "(if v_remaining v > 0 \<and> (q = 0 \<or> v_remaining v < q) then v_remaining v else q) =
    (if soaks (vs @ [v]) = {} then 0 else Min (soaks (vs @ [v])))"
proof (cases "soaks vs = {}")
  case True
  then show ?thesis using q by (simp add: soaks_snoc)
next
  case False
  then obtain m where m: "Min (soaks vs) = m" "0 < m" "q = m" using soaks_pos q by simp
  have "Min (insert (v_remaining v) (soaks vs)) = min (v_remaining v) m"
    using False m(1) by simp
  then show ?thesis
    using False m by (simp only: soaks_snoc) (simp add: min_def)
qed

lemma gate_turn_parts:
  fixes req stage
  defines "v \<equiv> evaluateStage req stage"
  shows "g_Outcome (fst (gate_turn req (res, ms) stage)) =
      (if severity (v_outcome v) > severity (g_Outcome res) then v_outcome v else g_Outcome res)"
    and "snd (gate_turn req (res, ms) stage) =
      (if severity (v_outcome v) > severity (g_Outcome res) then [v_message v]
       else if v_outcome v = g_Outcome res \<and> v_outcome v \<noteq> OutcomeSatisfied then ms @ [v_message v] else ms)"
    and "g_Qualified (fst (gate_turn req (res, ms) stage)) =
      (if v_outcome v = OutcomeSatisfied then g_Qualified res @ [\<lparr>q_Stage = stage, q_Entry = v_qualified v\<rparr>]
       else g_Qualified res)"
    and "g_RequeueAfter (fst (gate_turn req (res, ms) stage)) =
      (if v_remaining v > 0 \<and> (g_RequeueAfter res = 0 \<or> v_remaining v < g_RequeueAfter res)
       then v_remaining v else g_RequeueAfter res)"
    and "g_Promotion (fst (gate_turn req (res, ms) stage)) = g_Promotion res"
  unfolding v_def by (simp_all add: gate_turn_def Let_def)

lemma worst_messages_snoc:
  assumes "severity outcome = worst vs"
  shows "(if severity (v_outcome v) > severity outcome then [v_message v]
      else if v_outcome v = outcome \<and> v_outcome v \<noteq> OutcomeSatisfied then worst_messages outcome vs @ [v_message v]
      else worst_messages outcome vs)
    = worst_messages (if severity (v_outcome v) > severity outcome then v_outcome v else outcome) (vs @ [v])"
proof (cases "severity (v_outcome v) > severity outcome")
  case True
  then have "v_outcome w \<noteq> v_outcome v" if "w \<in> set vs" for w
    using worst_ge [OF that] assms by auto
  moreover have "v_outcome v \<noteq> OutcomeSatisfied" using True severity_nonneg [of outcome]
    by (metis leD severity.simps(1))
  ultimately show ?thesis using True by (auto simp: worst_messages_def filter_empty_conv)
next
  case False
  then show ?thesis by (auto simp: worst_messages_def)
qed

lemma gate_state_turn:
  assumes "gate_state req done acc"
  shows "gate_state req (done @ [stage]) (gate_turn req acc stage)"
proof -
  obtain res ms where acc: "acc = (res, ms)" by (cases acc)
  let ?v = "evaluateStage req stage" and ?vs = "map (evaluateStage req) done"
  have worst: "severity (g_Outcome res) = worst ?vs" and ms: "ms = worst_messages (g_Outcome res) ?vs"
    and q: "g_RequeueAfter res = (if soaks ?vs = {} then 0 else Min (soaks ?vs))"
    using assms acc by (simp_all add: gate_state_def Let_def)
  have "severity (g_Outcome (fst (gate_turn req acc stage))) = worst (?vs @ [?v])"
    unfolding acc gate_turn_parts worst_snoc using worst by auto
  moreover have "snd (gate_turn req acc stage) = worst_messages (g_Outcome (fst (gate_turn req acc stage))) (?vs @ [?v])"
    using worst_messages_snoc [OF worst, of ?v] by (simp add: acc gate_turn_parts ms)
  moreover have "g_RequeueAfter (fst (gate_turn req acc stage)) =
      (if soaks (?vs @ [?v]) = {} then 0 else Min (soaks (?vs @ [?v])))"
    using requeue_snoc [OF q, of ?v] by (simp add: acc gate_turn_parts)
  moreover have "g_Promotion (fst (gate_turn req acc stage)) = []"
    using assms by (simp add: acc gate_turn_parts gate_state_def Let_def)
  moreover have "g_Qualified (fst (gate_turn req acc stage)) = map (\<lambda>s. \<lparr>q_Stage = s, q_Entry = v_qualified (evaluateStage req s)\<rparr>)
      (filter (\<lambda>s. v_outcome (evaluateStage req s) = OutcomeSatisfied) (done @ [stage]))"
    using assms by (simp add: acc gate_turn_parts gate_state_def Let_def)
  ultimately show ?thesis
    by (simp only: gate_state_def Let_def map_append list.map)
qed

lemma gate_state_fold:
  "gate_state req done acc \<Longrightarrow> gate_state req (done @ stages) (foldl (gate_turn req) acc stages)"
proof (induction stages arbitrary: acc "done")
  case Nil
  then show ?case by simp
next
  case (Cons s stages)
  from Cons.IH [OF gate_state_turn [OF Cons.prems, of s]] show ?case by simp
qed

lemma gate_state_init: "gate_state req [] (zero_result, [])"
  by (simp add: gate_state_def zero_result_def soaks_def worst_messages_def)

lemmas gate_state_all = gate_state_fold [OF gate_state_init, simplified]

lemma gate_Evaluate_loop:
  assumes "r_Stages req \<noteq> []" "PromotedBefore (r_Preparation req) (r_Self req) = None"
  obtains result messages where "gate_Evaluate req = gate_finish (r_Stages req) (result, messages)"
    "gate_state req (r_Stages req) (result, messages)"
  using assms gate_state_all [of req "r_Stages req"]
  by (cases "foldl (gate_turn req) (zero_result, []) (r_Stages req)") (auto simp: gate_Evaluate_def)

lemma Satisfied_finish [simp]: "Satisfied (gate_finish stages (result, messages)) = Satisfied result"
  by (simp add: gate_finish_def Satisfied_def)

lemma gate_outcome_loop:
  assumes "r_Stages req \<noteq> []" "PromotedBefore (r_Preparation req) (r_Self req) = None"
  shows "Satisfied (gate_Evaluate req) \<longleftrightarrow> (\<forall>s\<in>set (r_Stages req). stage_qualified req s)"
proof (rule gate_Evaluate_loop [OF assms])
  fix result messages
  assume *: "gate_Evaluate req = gate_finish (r_Stages req) (result, messages)"
    "gate_state req (r_Stages req) (result, messages)"
  then have "severity (g_Outcome result) = worst (map (evaluateStage req) (r_Stages req))"
    by (simp add: gate_state_def Let_def)
  then have "Satisfied result \<longleftrightarrow> worst (map (evaluateStage req) (r_Stages req)) = 0"
    by (metis Satisfied_def severity_0)
  then show ?thesis using * by (simp add: worst_0 evaluateStage_satisfied)
qed

lemma gate_outcome_early:
  assumes "r_Stages req = [] \<or> PromotedBefore (r_Preparation req) (r_Self req) \<noteq> None"
  shows "Satisfied (gate_Evaluate req)"
  using assms by (auto simp: gate_Evaluate_def Satisfied_def zero_result_def)


section \<open>The gate over time\<close>

lemma healthy_for_mono: "now \<le> t \<Longrightarrow> healthy_for now e \<le> healthy_for t e"
  by (simp add: healthy_for_def time_sub_mono)

lemma qualifies_later: "qualifies req stage e \<Longrightarrow> r_Now req \<le> t \<Longrightarrow> qualifies (req\<lparr>r_Now := t\<rparr>) stage e"
  using healthy_for_mono [of "r_Now req" t e] by (auto simp: qualifies_def)

lemma stage_qualified_later:
  "stage_qualified req stage \<Longrightarrow> r_Now req \<le> t \<Longrightarrow> stage_qualified (req\<lparr>r_Now := t\<rparr>) stage"
  using qualifies_later by (fastforce simp: stage_qualified_def)

text \<open>Once the loop holds a soaking verdict, it ends with it unless an entry qualifies.\<close>

lemma stage_loop_holds:
  "stage_loop req stage (Some v) h = Inr (Some v) \<or> (\<exists>e. stage_loop req stage (Some v) h = Inl (satisfied_verdict e))"
proof (induction h)
  case (Cons e h)
  have "next_soaking req stage (Some v) e = Some v" by (auto simp: next_soaking_def)
  then show ?case using Cons by (auto simp: stage_loop_Cons simp del: stage_loop.simps(2))
qed simp

lemma next_soaking_later:
  assumes "next_soaking req stage None e = None" "\<not> qualifies req stage e"
  shows "next_soaking (req\<lparr>r_Now := t\<rparr>) stage None e = None \<and> \<not> qualifies (req\<lparr>r_Now := t\<rparr>) stage e"
  using assms by (auto simp: next_soaking_def qualifies_def healthy_for_def split: if_splits)

lemma Soak_bounds: "- (2 ^ 31 * second) \<le> Soak stage" "Soak stage < 2 ^ 31 * second"
  using sint_ge [of "s_SoakSeconds stage"] sint_lt [of "s_SoakSeconds stage"] by (simp_all add: Soak_def)

text \<open>When the soak of the entry the loop remembers is over, the loop no longer waits for it.\<close>

lemma soaking_entry_later:
  assumes v: "next_soaking req stage None e = Some v" "0 < v_remaining v" "\<not> qualifies req stage e"
    and t: "r_Now req + v_remaining v \<le> t" and healthy: "e_Healthy e \<le> r_Now req"
    and recent: "r_Now req - e_Healthy e < 2 ^ 62"
  shows "qualifies (req\<lparr>r_Now := t\<rparr>) stage e
    \<or> next_soaking (req\<lparr>r_Now := t\<rparr>) stage None e = Some (recording_verdict stage e)"
proof -
  let ?d = "r_Now req - e_Healthy e"
  have run: "Running e" "healthy_for (r_Now req) e < Soak stage"
    "v = soaking_verdict stage e (healthy_for (r_Now req) e)"
    using v by (auto simp: next_soaking_def split: if_splits)
  have d: "healthy_for (r_Now req) e = ?d"
    using run healthy recent by (simp add: healthy_for_def time_sub_id)
  then have "v_remaining v = Soak stage - ?d"
    using run Soak_bounds [of stage] healthy recent by (simp add: wrap64_id)
  then have "Soak stage \<le> t - e_Healthy e" using t by linarith
  then have "Soak stage \<le> healthy_for t e"
    using run Soak_bounds [of stage] healthy t v(2)
    by (simp add: healthy_for_def time_sub_def)
  then show ?thesis
    using v run by (auto simp: next_soaking_def qualifies_def split: if_splits)
qed

lemma soak_over:
  assumes loop: "stage_loop req stage None h = Inr (Some v)" and pos: "0 < v_remaining v"
    and t: "r_Now req + v_remaining v \<le> t"
    and times: "\<forall>e\<in>set h. e_Healthy e \<le> r_Now req \<and> (Running e \<and> Promoted e \<and> e_Healthy e \<noteq> 0 \<longrightarrow> r_Now req - e_Healthy e < 2 ^ 62)"
  shows "\<exists>e. stage_loop (req\<lparr>r_Now := t\<rparr>) stage None h = Inl (satisfied_verdict e)
           \<or> stage_loop (req\<lparr>r_Now := t\<rparr>) stage None h = Inr (Some (recording_verdict stage e))"
  using loop times
proof (induction h)
  case Nil
  then show ?case by simp
next
  case (Cons e h)
  let ?req = "req\<lparr>r_Now := t\<rparr>"
  have nq: "\<not> qualifies req stage e"
    using Cons.prems(1) by (auto simp: stage_loop_Cons simp del: stage_loop.simps(2) split: if_splits)
  show ?case
  proof (cases "next_soaking req stage None e")
    case None
    then show ?thesis
      using Cons nq next_soaking_later [OF None nq, of t] by (simp add: stage_loop_Cons del: stage_loop.simps(2))
  next
    case (Some w)
    then have "v = w"
      using Cons.prems(1) nq stage_loop_holds [of req stage w h]
      by (auto simp: stage_loop_Cons simp del: stage_loop.simps(2))
    moreover have "Running e \<and> Promoted e \<and> e_Healthy e \<noteq> 0"
      using Some pos \<open>v = w\<close> by (auto simp: next_soaking_def split: if_splits)
    ultimately have "qualifies ?req stage e \<or> next_soaking ?req stage None e = Some (recording_verdict stage e)"
      using Some pos nq t Cons.prems(2) by (intro soaking_entry_later) auto
    then show ?thesis
      using stage_loop_holds [of ?req stage "recording_verdict stage e" h]
      by (auto simp: stage_loop_Cons simp del: stage_loop.simps(2))
  qed
qed

lemma worst_Max: "worst vs = Max (insert 0 ((severity \<circ> v_outcome) ` set vs))"
proof (induction vs)
  case (Cons v vs)
  have "Max (insert 0 (insert a X)) = max a (Max (insert 0 X))" if "finite X" for a :: int and X
    using that by (subst insert_commute) simp
  then show ?case using Cons by simp
qed simp

text \<open>A superseded entry whose end lies before its first healthy time never qualifies a soak.\<close>

lemma ended_before_healthy:
  assumes "\<not> Running e" "e_Ended e < e_Healthy e" "0 \<le> Soak stage"
  shows "\<not> qualifies req stage e"
proof -
  have "time_sub (e_Ended e) (e_Healthy e) < 0" using assms(2) by (simp add: time_sub_def)
  then show ?thesis using assms by (simp add: qualifies_def healthy_for_def)
qed

section \<open>Properties\<close>

definition sample_upstream :: upstream where
  "sample_upstream = \<lparr>u_Product = ''p'', u_History = RecordDeployment ''a'' (260 * second) ''rd'' sample_log\<rparr>"

definition sample_request :: "int32 \<Rightarrow> time \<Rightarrow> gate_request" where
  "sample_request soak now = \<lparr>r_Preparation = ''x'', r_Product = ''p'', r_Revision = ''a'',
     r_Stages = [\<lparr>s_Order = ''staging'', s_SoakSeconds = soak\<rparr>], r_Self = [],
     r_Upstreams = [''staging'' \<mapsto> sample_upstream], r_Now = now\<rparr>"

lemma sample_loops:
  "stage_loop (sample_request 100 (400 * second)) \<lparr>s_Order = ''staging'', s_SoakSeconds = 100\<rparr> None (u_History sample_upstream)
     = Inl (satisfied_verdict (u_History sample_upstream ! 1))"
  "qualifies (sample_request 100 (400 * second)) \<lparr>s_Order = ''staging'', s_SoakSeconds = 100\<rparr> (u_History sample_upstream ! 1)"
  "u_History sample_upstream ! 1 \<in> set (u_History sample_upstream)"
  "Satisfied (gate_Evaluate (sample_request 100 (400 * second)))"
  by code_simp+

lemma sample_request_simps [simp]:
  "r_Stages (sample_request soak now) = [\<lparr>s_Order = ''staging'', s_SoakSeconds = soak\<rparr>]"
  "r_Self (sample_request soak now) = []" "r_Now (sample_request soak now) = now"
  "(sample_request soak now)\<lparr>r_Now := t\<rparr> = sample_request soak t"
  "r_Upstreams (sample_request soak now) ''staging'' = Some sample_upstream"
  "u_Product sample_upstream = r_Product (sample_request soak now)"
  by (simp_all add: sample_request_def sample_upstream_def)

text \<open>C25: The gate lets a Preparation through exactly when it names no upstream stages, the stage promoted
  the Preparation before, or every upstream stage has a promoted deployment of the Preparation's
  revision, by an Order of the same Product, that was healthy without degrading for the whole soak
  time of the stage and whose deployment is recorded.\<close>

theorem gate_satisfied_iff:
  "Satisfied (gate_Evaluate req) \<longleftrightarrow>
     r_Stages req = [] \<or> PromotedBefore (r_Preparation req) (r_Self req) \<noteq> None
   \<or> (\<forall>s\<in>set (r_Stages req). \<exists>u e. r_Upstreams req (s_Order s) = Some u \<and> u_Product u = r_Product req
        \<and> e \<in> set (u_History u) \<and> e_ProductRevision e = r_Revision req \<and> Promoted e
        \<and> e_Healthy e \<noteq> 0 \<and> e_EndReason e \<noteq> EndDegraded
        \<and> Soak s \<le> healthy_for (r_Now req) e \<and> e_DeploymentRecord e \<noteq> [])"
proof (cases "r_Stages req = [] \<or> PromotedBefore (r_Preparation req) (r_Self req) \<noteq> None")
  case True
  then show ?thesis using gate_outcome_early by blast
next
  case False
  have "(\<exists>u e. r_Upstreams req (s_Order s) = Some u \<and> u_Product u = r_Product req
        \<and> e \<in> set (u_History u) \<and> qualifies req s e) \<longleftrightarrow> stage_qualified req s" for s
    unfolding stage_qualified_def by blast
  then show ?thesis using False gate_outcome_loop [of req] by (simp add: qualifies_def)
qed

theorem gate_satisfied_iff_witness:
  "Satisfied (gate_Evaluate (sample_request 100 (400 * second)))"
proof -
  let ?e = "u_History sample_upstream ! 1"
  have "?e \<in> set (u_History sample_upstream)" "qualifies (sample_request 100 (400 * second))
      \<lparr>s_Order = ''staging'', s_SoakSeconds = 100\<rparr> ?e"
    by (rule sample_loops)+
  then show ?thesis
    unfolding gate_satisfied_iff sample_request_simps qualifies_def
    by (intro disjI2 ballI) (auto simp: sample_request_simps simp del: nth_Cons_numeral)
qed

text \<open>A gate that passes on its upstream stages names its evidence: one deployment for each stage, in
  the order of the stages, each taken from that stage's own history and each qualifying the
  revision. A gate that does not pass names no evidence.\<close>

lemma gate_evidence:
  assumes "r_Stages req \<noteq> []" "PromotedBefore (r_Preparation req) (r_Self req) = None"
  shows "(Satisfied (gate_Evaluate req) \<longrightarrow>
      map q_Stage (g_Qualified (gate_Evaluate req)) = r_Stages req
    \<and> (\<forall>q\<in>set (g_Qualified (gate_Evaluate req)). qualifies req (q_Stage q) (q_Entry q)
        \<and> (\<exists>u. r_Upstreams req (s_Order (q_Stage q)) = Some u \<and> u_Product u = r_Product req \<and> q_Entry q \<in> set (u_History u))))
    \<and> (\<not> Satisfied (gate_Evaluate req) \<longrightarrow> g_Qualified (gate_Evaluate req) = [])"
proof (rule gate_Evaluate_loop [OF assms])
  fix result messages
  assume *: "gate_Evaluate req = gate_finish (r_Stages req) (result, messages)"
    and state: "gate_state req (r_Stages req) (result, messages)"
  show ?thesis
  proof (cases "Satisfied result")
    case True
    then have sat: "v_outcome (evaluateStage req s) = OutcomeSatisfied" if "s \<in> set (r_Stages req)" for s
      using that * gate_outcome_loop [OF assms] by (simp add: evaluateStage_satisfied)
    then have q: "g_Qualified (gate_Evaluate req) =
        map (\<lambda>s. \<lparr>q_Stage = s, q_Entry = v_qualified (evaluateStage req s)\<rparr>) (r_Stages req)"
      using True state * by (simp add: gate_finish_def gate_state_def Let_def filter_id_conv)
    then show ?thesis
      using evaluateStage_qualified [OF sat] True * by (auto simp: comp_def)
  qed (simp add: * gate_finish_def Satisfied_def)
qed

lemma gate_evidence_sample:
  "map q_Stage (g_Qualified (gate_Evaluate (sample_request 100 (400 * second)))) = r_Stages (sample_request 100 (400 * second))"
  using gate_evidence [of "sample_request 100 (400 * second)"] sample_loops(4) by simp

text \<open>The gate reports its stages: its outcome is the most severe of theirs; when it does not pass, its
  message joins the messages of exactly the stages that have that outcome, in their order; and it
  asks to be evaluated again when the first of the soaks under way completes, and not at all when
  none is.\<close>

theorem gate_reports_worst:
  assumes "r_Stages req \<noteq> []" "PromotedBefore (r_Preparation req) (r_Self req) = None"
  defines "vs \<equiv> map (evaluateStage req) (r_Stages req)" and "result \<equiv> gate_Evaluate req"
  shows "severity (g_Outcome result) = Max (insert 0 ((severity \<circ> v_outcome) ` set vs))
    \<and> (\<not> Satisfied result \<longrightarrow>
      g_Message result = str_join ''; '' (map v_message (filter (\<lambda>v. v_outcome v = g_Outcome result) vs)))
    \<and> g_RequeueAfter result = (if soaks vs = {} then 0 else Min (soaks vs))"
proof (intro conjI impI)
  obtain res messages where *: "result = gate_finish (r_Stages req) (res, messages)"
    "gate_state req (r_Stages req) (res, messages)"
    using gate_Evaluate_loop [OF assms(1,2)] by (metis result_def)
  have same: "g_Outcome result = g_Outcome res" "g_RequeueAfter result = g_RequeueAfter res"
    using * by (simp_all add: gate_finish_def)
  show "severity (g_Outcome result) = Max (insert 0 ((severity \<circ> v_outcome) ` set vs))"
    unfolding worst_Max [symmetric] using *(2) same by (simp add: gate_state_def Let_def vs_def)
  show "g_RequeueAfter result = (if soaks vs = {} then 0 else Min (soaks vs))"
    using *(2) same by (simp add: gate_state_def Let_def vs_def)
  assume ns: "\<not> Satisfied result"
  then have "g_Message result = str_join ''; '' (worst_messages (g_Outcome res) vs)"
    using * by (simp add: gate_finish_def Satisfied_def gate_state_def Let_def vs_def split: if_splits)
  moreover have "worst_messages (g_Outcome res) vs = map v_message (filter (\<lambda>v. v_outcome v = g_Outcome result) vs)"
    unfolding worst_messages_def using same ns
    by (intro arg_cong [where f = "map v_message"] filter_cong) (auto simp: Satisfied_def)
  ultimately show "g_Message result = str_join ''; '' (map v_message (filter (\<lambda>v. v_outcome v = g_Outcome result) vs))"
    by simp
qed

theorem gate_reports_worst_witness:
  "g_RequeueAfter (gate_Evaluate (sample_request 200 (400 * second))) =
     Min (soaks [evaluateStage (sample_request 200 (400 * second)) \<lparr>s_Order = ''staging'', s_SoakSeconds = 200\<rparr>])
   \<or> soaks [evaluateStage (sample_request 200 (400 * second)) \<lparr>s_Order = ''staging'', s_SoakSeconds = 200\<rparr>] = {}"
  using gate_reports_worst [of "sample_request 200 (400 * second)"] by simp

text \<open>A gate that lets a Preparation through keeps letting it through as time passes, with nothing else
  changed.\<close>

theorem gate_stays_satisfied:
  assumes "Satisfied (gate_Evaluate req)" "r_Now req \<le> t"
  shows "Satisfied (gate_Evaluate (req\<lparr>r_Now := t\<rparr>))"
proof (cases "r_Stages req = [] \<or> PromotedBefore (r_Preparation req) (r_Self req) \<noteq> None")
  case True
  then show ?thesis using gate_outcome_early [of "req\<lparr>r_Now := t\<rparr>"] by simp
next
  case False
  then show ?thesis
    using assms gate_outcome_loop [of req] gate_outcome_loop [of "req\<lparr>r_Now := t\<rparr>"] stage_qualified_later
    by simp
qed

theorem gate_stays_satisfied_witness:
  "Satisfied (gate_Evaluate (sample_request 100 (500 * second)))"
  using gate_stays_satisfied [OF sample_loops(4), of "500 * second"] by simp

text \<open>C26: A soak ends: when a stage reports a soak under way with time remaining, then once that time has
  passed, with the upstream history unchanged, the stage qualifies or waits only for the record of a
  deployment; it never starts the wait over. The times of the history lie in the past, a running
  deployment's less than 146 years.\<close>

theorem soak_completes:
  assumes "v_outcome (evaluateStage req stage) = OutcomeSoaking" "0 < v_remaining (evaluateStage req stage)"
    and "r_Now req + v_remaining (evaluateStage req stage) \<le> t"
    and "r_Upstreams req (s_Order stage) = Some u"
    and "\<forall>e\<in>set (u_History u). e_Healthy e \<le> r_Now req
        \<and> (Running e \<and> Promoted e \<and> e_Healthy e \<noteq> 0 \<longrightarrow> r_Now req - e_Healthy e < 2 ^ 62)"
  shows "\<exists>e. evaluateStage (req\<lparr>r_Now := t\<rparr>) stage = satisfied_verdict e
           \<or> evaluateStage (req\<lparr>r_Now := t\<rparr>) stage = recording_verdict stage e"
proof -
  let ?v = "evaluateStage req stage"
  have loop: "stage_loop req stage None (u_History u) = Inr (Some ?v)" "u_Product u = r_Product req"
    using assms(1,2,4) stage_loop_satisfied_outcome [of req stage "u_History u"]
    by (fastforce simp: evaluateStage_def split: if_splits sum.splits option.splits)+
  obtain e where "stage_loop (req\<lparr>r_Now := t\<rparr>) stage None (u_History u) = Inl (satisfied_verdict e)
      \<or> stage_loop (req\<lparr>r_Now := t\<rparr>) stage None (u_History u) = Inr (Some (recording_verdict stage e))"
    using soak_over [OF loop(1) assms(2,3,5)] by blast
  then show ?thesis
    using assms(4) loop(2) by (auto simp: evaluateStage_def)
qed

text \<open>The stage that soaks for 200 seconds: the deployment was healthy at 260s, the gate is asked at 400s.\<close>

lemma sample_soak:
  "v_outcome (evaluateStage (sample_request 200 (400 * second)) \<lparr>s_Order = ''staging'', s_SoakSeconds = 200\<rparr>) = OutcomeSoaking"
  "v_remaining (evaluateStage (sample_request 200 (400 * second)) \<lparr>s_Order = ''staging'', s_SoakSeconds = 200\<rparr>) = 60 * second"
  "\<forall>e\<in>set (u_History sample_upstream). e_Healthy e \<le> 400 * second \<and> (Running e \<and> Promoted e \<and> e_Healthy e \<noteq> 0
     \<longrightarrow> 400 * second - e_Healthy e < 2 ^ 62)"
  by code_simp+

theorem soak_completes_witness:
  "\<exists>e. evaluateStage (sample_request 200 (460 * second)) \<lparr>s_Order = ''staging'', s_SoakSeconds = 200\<rparr> = satisfied_verdict e
     \<or> evaluateStage (sample_request 200 (460 * second)) \<lparr>s_Order = ''staging'', s_SoakSeconds = 200\<rparr>
       = recording_verdict \<lparr>s_Order = ''staging'', s_SoakSeconds = 200\<rparr> e"
  using soak_completes [of "sample_request 200 (400 * second)" "\<lparr>s_Order = ''staging'', s_SoakSeconds = 200\<rparr>"
      "460 * second" sample_upstream] sample_soak by simp

text \<open>Starting a promotion ends the replaced deployment at the moment the promotion was opened, which
  is before the deployment stopped running: a history the controller reaches holds a deployment that
  first became healthy (at 260s) after the time it is said to have ended (at 200s). No upstream gate
  ever counts that deployment, even for a stage without a soak time and however long it ran.\<close>

theorem superseded_before_healthy:
  "history_reachable (300 * second, Start ''rb'' sample_log)
   \<and> (let e = Start ''rb'' sample_log ! 1 in
        Promoted e \<and> e_EndReason e = EndSuperseded \<and> e_Ended e = 200 * second \<and> e_Healthy e = 260 * second)
   \<and> \<not> qualifies req \<lparr>s_Order = order, s_SoakSeconds = 0\<rparr> (Start ''rb'' sample_log ! 1)"
proof (intro conjI)
  show "history_reachable (300 * second, Start ''rb'' sample_log)"
    using reach_start [OF sample_log_reachable _ sample_log_steps(4)] by simp
  show e: "let e = Start ''rb'' sample_log ! 1 in
      Promoted e \<and> e_EndReason e = EndSuperseded \<and> e_Ended e = 200 * second \<and> e_Healthy e = 260 * second"
    by code_simp
  then show "\<not> qualifies req \<lparr>s_Order = order, s_SoakSeconds = 0\<rparr> (Start ''rb'' sample_log ! 1)"
    by (intro ended_before_healthy) (simp_all add: Let_def Running_def Soak_def)
qed

end
