(* ===== verification/Promotion_Pipeline.thy ===== *)
theory Promotion_Pipeline
  imports Promotion_Gate
begin

text \<open>
  What a pipeline of Orders must satisfy (\<open>internal/promotion/pipeline.go\<close>), what an Environment
  requires of the stages before it (\<open>environment.go\<close>), and which release Automatic promotion
  converges to (\<open>release.go\<close>). The search for a cycle is the depth-first search of the source, with
  the set of visited Orders and the path it keeps; its result is compared with reachability.
\<close>

section \<open>Pipelines\<close>

record pipeline_order =
  p_Product :: string
  p_Upstreams :: "string list"

text \<open>A Go map has finitely many keys: a pipeline is the list of its entries, read with \<open>map_of\<close>.\<close>

type_synonym pipeline = "(string \<times> pipeline_order) list"

definition upstreams_of :: "pipeline \<Rightarrow> string \<Rightarrow> string list" where
  "upstreams_of p name = (case map_of p name of Some o1 \<Rightarrow> p_Upstreams o1 | None \<Rightarrow> [])"

definition upstream_names :: "pipeline \<Rightarrow> string set" where
  "upstream_names p = (\<Union>(_, o1) \<in> set p. set (p_Upstreams o1))"

lemma finite_upstream_names [simp]: "finite (upstream_names p)"
  by (auto simp: upstream_names_def)

lemma upstreams_of_names: "set (upstreams_of p name) \<subseteq> upstream_names p"
proof (cases "map_of p name")
  case (Some o1)
  then have "(name, o1) \<in> set p" by (rule map_of_SomeD)
  then show ?thesis using Some by (auto simp: upstreams_of_def upstream_names_def)
qed (simp add: upstreams_of_def)

text \<open>The Orders the search can still visit, which decrease as it descends.\<close>

definition unvisited :: "pipeline \<Rightarrow> string list \<Rightarrow> string list \<Rightarrow> nat" where
  "unvisited p us visited = card ((set us \<union> upstream_names p) - set visited)"

lemma unvisited_mono: "set visited \<subseteq> set vs \<Longrightarrow> unvisited p us vs \<le> unvisited p (u # us) visited"
  unfolding unvisited_def by (intro card_mono) auto

lemma unvisited_less: "u \<notin> set visited \<Longrightarrow> unvisited p (upstreams_of p u) (u # visited) < unvisited p (u # us) visited"
  unfolding unvisited_def using upstreams_of_names [of p u] by (intro psubset_card_mono) auto

text \<open>
  The closure \<open>walk\<close>: it visits the upstream Orders that are left of one Order, with the visited set
  and the path as it finds them, and returns them as it leaves them.
\<close>

function (sequential) walk :: "pipeline \<Rightarrow> string \<Rightarrow> string list \<Rightarrow> string list \<Rightarrow> string list \<Rightarrow> bool \<times> string list \<times> string list" where
  "walk p order [] visited path = (False, visited, path)"
| "walk p order (u # us) visited path =
     (if u = order then (True, visited, path @ [u])
      else if u \<in> set visited then walk p order us visited path
      else (case walk p order (upstreams_of p u) (u # visited) (path @ [u]) of
              (found, visited', path') \<Rightarrow>
                if found then (True, visited', path')
                else walk p order us visited' (butlast path')))"
  by pat_completeness auto

lemma walk_visited_dom:
  "walk_dom (p, order, us, visited, path) \<Longrightarrow> set visited \<subseteq> set (fst (snd (walk p order us visited path)))"
proof (induction rule: walk.pinduct)
  case (1 p order visited path)
  then show ?case by (simp add: walk.psimps)
next
  case (2 p order u us visited path)
  obtain f v q where w: "walk p order (upstreams_of p u) (u # visited) (path @ [u]) = (f, v, q)"
    by (metis prod_cases3)
  consider "u = order" | "u \<noteq> order" "u \<in> set visited" | "u \<noteq> order" "u \<notin> set visited" by blast
  then show ?case
  proof cases
    case 3
    have "set visited \<subseteq> set v" using 2(3) 3 w by auto
    then show ?thesis using 2(1) 2(4) [OF 3 w [symmetric] refl] 3 w by (cases f) (auto simp: walk.psimps)
  qed (use 2 in \<open>auto simp: walk.psimps\<close>)
qed

termination walk
proof (relation "measures [\<lambda>(p, order, us, visited, path). unvisited p us visited,
    \<lambda>(p, order, us, visited, path). length us]", goal_cases)
  case (2 p order u us visited path)
  then show ?case using unvisited_mono [of visited visited p us u] by auto
next
  case (3 p order u us visited path)
  then show ?case using unvisited_less by auto
next
  case (4 p order u us visited path r found visited' path')
  then have "set visited \<subseteq> set visited'"
    using walk_visited_dom [of p order "upstreams_of p u" "u # visited" "path @ [u]"]
    by (metis fst_conv insert_subset list.simps(15) snd_conv)
  then show ?case using unvisited_mono [of visited visited' p us u] by auto
qed simp

definition cycle :: "pipeline \<Rightarrow> string \<Rightarrow> string list option" where
  "cycle p order =
     (case walk p order (upstreams_of p order) [] [order] of
        (found, visited, path) \<Rightarrow> if found then Some path else None)"

text \<open>The first upstream Order that exists and is a variant of another Product.\<close>

fun foreign_upstream :: "pipeline \<Rightarrow> string \<Rightarrow> string list \<Rightarrow> string option" where
  "foreign_upstream p product [] = None"
| "foreign_upstream p product (name # names) =
     (case map_of p name of
        Some upstream \<Rightarrow> if p_Product upstream \<noteq> product
          then Some (''upstream Order '' @ name @ '' is a variant of Product '' @ p_Product upstream @ '', not '' @ product)
          else foreign_upstream p product names
      | None \<Rightarrow> foreign_upstream p product names)"

definition Problem :: "pipeline \<Rightarrow> string \<Rightarrow> string" where
  "Problem p order =
     (case map_of p order of
        None \<Rightarrow> []
      | Some self \<Rightarrow>
         (case foreign_upstream p (p_Product self) (p_Upstreams self) of
            Some problem \<Rightarrow> problem
          | None \<Rightarrow>
             (case cycle p order of
                Some path \<Rightarrow> ''the upstream stages form a cycle: '' @ str_join '' runs after '' path
              | None \<Rightarrow> [])))"

section \<open>The search finds a cycle exactly when there is one\<close>

definition runs_after :: "pipeline \<Rightarrow> (string \<times> string) set" where
  "runs_after p = {(a, b). b \<in> set (upstreams_of p a)}"

text \<open>What the search leaves behind when it finds no way back: a set that it closed.\<close>

lemma walk_not_found:
  "walk p order us visited path = (False, visited', path') \<Longrightarrow>
     path' = path \<and> set visited \<subseteq> set visited' \<and> set us \<subseteq> set visited' \<and> order \<notin> set us
   \<and> (\<forall>v\<in>set visited' - set visited. set (upstreams_of p v) \<subseteq> set visited' \<and> order \<notin> set (upstreams_of p v))"
proof (induction p order us visited path arbitrary: visited' path' rule: walk.induct)
  case (1 p order visited path)
  then show ?case by simp
next
  case (2 p order u us visited path)
  show ?case
  proof (cases "u \<in> set visited")
    case True
    then show ?thesis using 2 by (auto split: if_splits)
  next
    case False
    obtain f v q where w: "walk p order (upstreams_of p u) (u # visited) (path @ [u]) = (f, v, q)"
      by (metis prod_cases3)
    have "u \<noteq> order" "\<not> f" and rest: "walk p order us v (butlast q) = (False, visited', path')"
      using 2(4) w False by (auto split: if_splits)
    have first: "q = path @ [u]" "set (u # visited) \<subseteq> set v" "set (upstreams_of p u) \<subseteq> set v" "order \<notin> set (upstreams_of p u)"
      "\<forall>x\<in>set v - set (u # visited). set (upstreams_of p x) \<subseteq> set v \<and> order \<notin> set (upstreams_of p x)"
      using 2(2) [OF \<open>u \<noteq> order\<close> False, of v q] w \<open>\<not> f\<close> by auto
    have second: "path' = butlast q" "set v \<subseteq> set visited'" "set us \<subseteq> set visited'" "order \<notin> set us"
      "\<forall>x\<in>set visited' - set v. set (upstreams_of p x) \<subseteq> set visited' \<and> order \<notin> set (upstreams_of p x)"
      using 2(3) [OF \<open>u \<noteq> order\<close> False w [symmetric] refl \<open>\<not> f\<close> rest] by auto
    have "set (upstreams_of p x) \<subseteq> set visited' \<and> order \<notin> set (upstreams_of p x)"
      if "x \<in> set visited' - set visited" for x
      using that first second by (cases "x \<in> set v"; cases "x = u") auto
    then show ?thesis using first second \<open>u \<noteq> order\<close> by auto
  qed
qed

text \<open>What it returns when it finds one: the path it was on, continued back to the Order.\<close>

fun chain :: "pipeline \<Rightarrow> string list \<Rightarrow> bool" where
  "chain p (a # b # xs) \<longleftrightarrow> (a, b) \<in> runs_after p \<and> chain p (b # xs)"
| "chain p xs \<longleftrightarrow> True"

lemma chain_snoc: "chain p (xs @ [a, b]) \<longleftrightarrow> chain p (xs @ [a]) \<and> (a, b) \<in> runs_after p"
  by (induction p xs rule: chain.induct) auto

lemma walk_found:
  "walk p order us visited (q @ [n]) = (True, visited', path') \<Longrightarrow> set us \<subseteq> set (upstreams_of p n) \<Longrightarrow>
   chain p (q @ [n]) \<Longrightarrow> \<exists>ws. path' = q @ [n] @ ws @ [order] \<and> chain p path'"
proof (induction p order us visited "q @ [n]" arbitrary: q n visited' path' rule: walk.induct)
  case (1 p order visited)
  then show ?case by simp
next
  case (2 p order u us visited)
  have step: "(n, u) \<in> runs_after p" using 2 by (simp add: runs_after_def)
  consider (found) "u = order" | (seen) "u \<noteq> order" "u \<in> set visited" | (fresh) "u \<noteq> order" "u \<notin> set visited"
    by blast
  then show ?case
  proof cases
    case found
    then show ?thesis using 2 step chain_snoc [of p q n u] by auto
  next
    case seen
    then show ?thesis using 2 by simp
  next
    case fresh
    obtain f v r where w: "walk p order (upstreams_of p u) (u # visited) ((q @ [n]) @ [u]) = (f, v, r)"
      by (metis prod_cases3)
    have c: "chain p ((q @ [n]) @ [u])" using 2 step chain_snoc [of p q n u] by simp
    show ?thesis
    proof (cases f)
      case True
      then have "path' = r" using fresh w 2(4) by simp
      moreover obtain ws where "r = (q @ [n]) @ [u] @ ws @ [order]" "chain p r"
        using 2(2) [OF fresh refl, of v r] w True c by auto
      ultimately show ?thesis by (intro exI [of _ "u # ws"]) simp
    next
      case False
      then have "r = (q @ [n]) @ [u]"
        using walk_not_found [of p order "upstreams_of p u" "u # visited" "(q @ [n]) @ [u]" v r] w by simp
      then have "walk p order us v (q @ [n]) = (True, visited', path')"
        using fresh w False 2(4) \<open>r = (q @ [n]) @ [u]\<close> by (simp add: butlast_append)
      then show ?thesis
        using 2(3) [OF fresh w [symmetric] refl False, of q n] 2(5,6) \<open>r = (q @ [n]) @ [u]\<close> by (simp add: butlast_append)
    qed
  qed
qed

lemma cycle_Some:
  assumes "cycle p order = Some path"
  shows "\<exists>ws. path = order # ws @ [order] \<and> chain p path"
proof -
  obtain v where "walk p order (upstreams_of p order) [] ([] @ [order]) = (True, v, path)"
    using assms by (auto simp: cycle_def split: prod.splits if_splits)
  from walk_found [OF this] show ?thesis by simp
qed

lemma chain_trancl: "chain p (a # xs @ [b]) \<Longrightarrow> (a, b) \<in> (runs_after p)\<^sup>+"
  by (induction xs arbitrary: a) (auto intro: trancl_into_trancl2)

lemma cycle_None:
  assumes "cycle p order = None"
  shows "(order, order) \<notin> (runs_after p)\<^sup>+"
proof
  assume "(order, order) \<in> (runs_after p)\<^sup>+"
  obtain f v q where "walk p order (upstreams_of p order) [] [order] = (f, v, q)"
    by (metis prod_cases3)
  then have w: "walk p order (upstreams_of p order) [] [order] = (False, v, q)"
    using assms by (auto simp: cycle_def split: if_splits)
  have closed: "b \<in> set v \<and> b \<noteq> order" if "(order, b) \<in> (runs_after p)\<^sup>+" for b
    using that walk_not_found [OF w] by (induction rule: trancl_induct) (auto simp: runs_after_def)
  then show False using \<open>(order, order) \<in> (runs_after p)\<^sup>+\<close> by blast
qed

lemma foreign_upstream_None:
  "foreign_upstream p product names = None \<longleftrightarrow>
     (\<forall>name\<in>set names. \<forall>u. map_of p name = Some u \<longrightarrow> p_Product u = product)"
  by (induction p product names rule: foreign_upstream.induct) (auto split: option.splits)

lemma foreign_upstream_message: "foreign_upstream p product names = Some m \<Longrightarrow> m \<noteq> []"
  by (induction p product names rule: foreign_upstream.induct) (auto split: option.splits if_splits)

section \<open>Releases\<close>

record release =
  l_Name :: string
  l_Created :: time
  l_Ready :: bool

definition NewestFirst :: "release \<Rightarrow> release \<Rightarrow> int" where
  "NewestFirst a b = cmp_or [ord_compare (l_Created b) (l_Created a), str_compare (l_Name b) (l_Name a)]"

fun newest_loop :: "release option \<Rightarrow> release list \<Rightarrow> release option" where
  "newest_loop newest [] = newest"
| "newest_loop newest (r # rs) =
     newest_loop (if l_Ready r \<and> (case newest of None \<Rightarrow> True | Some n \<Rightarrow> NewestFirst r n < 0) then Some r else newest) rs"

definition NewestReady :: "release list \<Rightarrow> (string \<times> bool)" where
  "NewestReady releases =
     (case newest_loop None releases of None \<Rightarrow> ([], False) | Some newest \<Rightarrow> (l_Name newest, True))"

lemma NewestFirst_lex:
  "NewestFirst = (\<lambda>a b. if ord_compare (l_Created b) (l_Created a) \<noteq> 0 then ord_compare (l_Created b) (l_Created a)
     else ord_compare (l_Name b) (l_Name a))"
  by (auto simp: NewestFirst_def fun_eq_iff)

interpretation newest_first: three_way NewestFirst
  unfolding NewestFirst_lex by (intro three_way_lex three_way_swap [OF three_way_ord])

lemma newest_loop_best:
  assumes "newest_loop newest rs = Some r"
  shows "(newest = Some r \<or> r \<in> set rs \<and> l_Ready r)
    \<and> (\<forall>n. newest = Some n \<longrightarrow> NewestFirst r n \<le> 0) \<and> (\<forall>x\<in>set rs. l_Ready x \<longrightarrow> NewestFirst r x \<le> 0)"
  using assms
proof (induction newest rs rule: newest_loop.induct)
  case (2 newest x rs)
  define new where "new = (if l_Ready x \<and> (case newest of None \<Rightarrow> True | Some n \<Rightarrow> NewestFirst x n < 0) then Some x else newest)"
  have r: "newest_loop new rs = Some r" using 2(2) by (simp add: new_def)
  then have ih: "new = Some r \<or> r \<in> set rs \<and> l_Ready r" "\<forall>n. new = Some n \<longrightarrow> NewestFirst r n \<le> 0"
    "\<forall>x\<in>set rs. l_Ready x \<longrightarrow> NewestFirst r x \<le> 0"
    using 2(1) by (simp_all add: new_def)
  have new: "new = newest \<or> new = Some x \<and> l_Ready x" by (simp add: new_def)
  have old: "\<exists>m. new = Some m \<and> NewestFirst m n \<le> 0" if "newest = Some n" for n
    using that by (simp add: new_def)
  have cur: "\<exists>m. new = Some m \<and> NewestFirst m x \<le> 0" if "l_Ready x"
    using that newest_first.not_cmp_le [of _ x] by (fastforce simp: new_def split: option.splits)
  have trans: "NewestFirst r n \<le> 0" if "new = Some m" "NewestFirst m n \<le> 0" for m n
    using ih(2) that newest_first.cmp_trans [of r m n] by blast
  show ?case
    using ih new old cur trans by auto
qed auto

lemma newest_loop_None: "newest_loop newest rs = None \<longleftrightarrow> newest = None \<and> (\<forall>r\<in>set rs. \<not> l_Ready r)"
  by (induction newest rs rule: newest_loop.induct) (auto split: option.splits)

section \<open>What an Environment requires\<close>

record requirement =
  m_Environment :: string
  m_MinSoakSeconds :: int32

text \<open>A Go map returns the zero value for a key it does not hold.\<close>

definition environment_of :: "(string \<rightharpoonup> string) \<Rightarrow> string \<Rightarrow> string" where
  "environment_of environments order = (case environments order of Some e \<Rightarrow> e | None \<Rightarrow> [])"

definition meets :: "(string \<rightharpoonup> string) \<Rightarrow> requirement \<Rightarrow> stage \<Rightarrow> bool" where
  "meets environments r s \<longleftrightarrow>
     environment_of environments (s_Order s) = m_Environment r \<and> sint (s_SoakSeconds s) \<ge> sint (m_MinSoakSeconds r)"

definition missing_message :: "requirement \<Rightarrow> string" where
  "missing_message r = ''an Order of Environment '' @ m_Environment r @ '' with a soak of at least '' @
     int_dec (sint (m_MinSoakSeconds r)) @ ''s''"

definition Required :: "stage list \<Rightarrow> (string \<rightharpoonup> string) \<Rightarrow> requirement list \<Rightarrow> string" where
  "Required stages environments requirements =
     (let missing = map missing_message (filter (\<lambda>r. \<not> list_ex (meets environments r) stages) requirements)
      in if missing = [] then [] else ''the Environment requires running after '' @ str_join '' and after '' missing)"

section \<open>Properties\<close>

text \<open>C27: The search for a cycle decides reachability: it finds a path exactly when following upstream
  stages leads from the Order back to itself, and the path it returns is such a way, each Order of it
  running after the next, from the Order back to the Order.\<close>

theorem cycle_iff_reachable:
  "(cycle p order \<noteq> None \<longleftrightarrow> (order, order) \<in> (runs_after p)\<^sup>+)
   \<and> (\<forall>path. cycle p order = Some path \<longrightarrow> (\<exists>ws. path = order # ws @ [order]) \<and> chain p path)"
proof (intro conjI allI impI)
  show "cycle p order \<noteq> None \<longleftrightarrow> (order, order) \<in> (runs_after p)\<^sup>+"
    using cycle_None [of p order] cycle_Some [of p order] chain_trancl [of p order _ order] by (cases "cycle p order") auto
qed (use cycle_Some in blast)+

theorem cycle_iff_reachable_witness:
  "chain [(''a'', \<lparr>p_Product = [], p_Upstreams = [''b'']\<rparr>), (''b'', \<lparr>p_Product = [], p_Upstreams = [''a'']\<rparr>)] [''a'', ''b'', ''a'']"
proof -
  have "cycle [(''a'', \<lparr>p_Product = [], p_Upstreams = [''b'']\<rparr>), (''b'', \<lparr>p_Product = [], p_Upstreams = [''a'']\<rparr>)] ''a''
    = Some [''a'', ''b'', ''a'']" by (simp add: cycle_def upstreams_of_def)
  then show ?thesis using cycle_iff_reachable by blast
qed

text \<open>An Order's pipeline has no problem exactly when the Order does not exist, or every upstream Order
  that exists is a variant of the same Product and the upstream stages do not lead back to it.\<close>

theorem Problem_iff:
  "Problem p order = [] \<longleftrightarrow>
     (\<forall>self. map_of p order = Some self \<longrightarrow>
        (\<forall>name u. name \<in> set (p_Upstreams self) \<and> map_of p name = Some u \<longrightarrow> p_Product u = p_Product self)
      \<and> (order, order) \<notin> (runs_after p)\<^sup>+)"
proof (cases "map_of p order")
  case (Some self)
  have "cycle p order = None \<longleftrightarrow> (order, order) \<notin> (runs_after p)\<^sup>+"
    using cycle_None [of p order] cycle_Some [of p order] chain_trancl [of p order _ order] by (cases "cycle p order") auto
  then show ?thesis
    using Some foreign_upstream_None [of p "p_Product self" "p_Upstreams self"]
      foreign_upstream_message [of p "p_Product self" "p_Upstreams self"]
    by (cases "foreign_upstream p (p_Product self) (p_Upstreams self)") (auto simp: Problem_def split: option.splits)
qed (simp add: Problem_def)

theorem Problem_iff_witness:
  "Problem [(''a'', \<lparr>p_Product = [], p_Upstreams = [''b'']\<rparr>)] ''c'' = []"
  by (subst Problem_iff) simp

text \<open>Automatic promotion converges to the newest Ready release, whatever order the releases are listed
  in: the result names the first of the Ready ones in the order newest first.\<close>

theorem NewestReady_sorted:
  "NewestReady releases =
     (case sort_cmp NewestFirst (filter l_Ready releases) of [] \<Rightarrow> ([], False) | r # _ \<Rightarrow> (l_Name r, True))"
proof (cases "newest_loop None releases")
  case None
  then have "filter l_Ready releases = []" by (auto simp: newest_loop_None filter_empty_conv)
  then show ?thesis using None by (simp add: NewestReady_def)
next
  case (Some r)
  then have r: "r \<in> set releases" "l_Ready r" "\<forall>x\<in>set releases. l_Ready x \<longrightarrow> NewestFirst r x \<le> 0"
    using newest_loop_best [OF Some] by auto
  then obtain y ys where y: "sort_cmp NewestFirst (filter l_Ready releases) = y # ys"
    using sort_cmp_eq_Nil [of NewestFirst "filter l_Ready releases"]
    by (cases "sort_cmp NewestFirst (filter l_Ready releases)") (auto simp: filter_empty_conv)
  have "y \<in> set (filter l_Ready releases)"
    using set_sort_cmp [of NewestFirst "filter l_Ready releases"] y by auto
  moreover have "NewestFirst y r \<le> 0"
    using newest_first.sort_first_le [OF y] r by simp
  ultimately have "NewestFirst y r = 0"
    using r(3) newest_first.cmp_flip [of y r] by auto
  then have "l_Name y = l_Name r"
    by (simp add: NewestFirst_def split: if_splits)
  then show ?thesis using Some y by (simp add: NewestReady_def)
qed

text \<open>What an Environment requires is met exactly when, for every requirement, one of the stages the
  Preparation names deploys to the required Environment and soaks at least as long; the message names
  the requirements that are not met, in order.\<close>

lemma Required_iff:
  "(Required stages environments requirements = [] \<longleftrightarrow>
     (\<forall>r\<in>set requirements. \<exists>s\<in>set stages.
        environment_of environments (s_Order s) = m_Environment r \<and> sint (m_MinSoakSeconds r) \<le> sint (s_SoakSeconds s)))"
  by (auto simp: Required_def Let_def list_ex_iff meets_def filter_empty_conv)

lemma Required_iff_sample:
  "Required [\<lparr>s_Order = ''a'', s_SoakSeconds = 5\<rparr>] [''a'' \<mapsto> ''e''] [\<lparr>m_Environment = ''e'', m_MinSoakSeconds = 4\<rparr>] = []"
  by (subst Required_iff) (simp add: environment_of_def)

end
