(* ===== verification/Vulnerability.thy ===== *)
theory Vulnerability
  imports Go_Strings Go_Time
begin

text \<open>
  Vulnerability checks (\<open>internal/vulnerability\<close>): the severities and counts of findings, which
  findings block, the verdict of a check over the images of a release, and how two releases differ.
  The findings of an image come from a reader of signed reports, which is an argument of the
  definitions that read; the images of a release are assessed with each report read once.
\<close>

section \<open>Severities\<close>

datatype vuln_severity = Sev_Critical | Sev_High | Sev_Medium | Sev_Low | Sev_Unknown

fun severity_name :: "vuln_severity \<Rightarrow> string" where
  "severity_name Sev_Critical = ''Critical''"
| "severity_name Sev_High = ''High''"
| "severity_name Sev_Medium = ''Medium''"
| "severity_name Sev_Low = ''Low''"
| "severity_name Sev_Unknown = ''Unknown''"

text \<open>\<open>strings.ToUpper\<close> on the ASCII names a scanner writes.\<close>

definition ascii_upper :: "string \<Rightarrow> string" where
  "ascii_upper s = map (\<lambda>c. let n = (of_char c :: nat) in if 97 \<le> n \<and> n \<le> 122 then char_of (n - 32) else c) s"

definition parse_severity :: "string \<Rightarrow> vuln_severity" where
  "parse_severity s =
     (let u = ascii_upper s in
      if u = ''CRITICAL'' then Sev_Critical else if u = ''HIGH'' then Sev_High
      else if u = ''MEDIUM'' then Sev_Medium else if u = ''LOW'' then Sev_Low else Sev_Unknown)"

fun rank :: "vuln_severity \<Rightarrow> int" where
  "rank Sev_Critical = 4"
| "rank Sev_High = 3"
| "rank Sev_Medium = 2"
| "rank Sev_Low = 1"
| "rank Sev_Unknown = 0"

record summary =
  n_Critical :: int32
  n_High :: int32
  n_Medium :: int32
  n_Low :: int32
  n_Unknown :: int32
  n_Fixable :: int32

record check =
  k_MaxSeverity :: vuln_severity
  k_IgnoreUnfixed :: bool
  k_MaxAge :: duration

definition MaxAge :: "duration \<Rightarrow> duration \<Rightarrow> duration" where
  "MaxAge maxAge scanInterval = (if maxAge > 0 then maxAge else wrap64 (2 * scanInterval))"

record finding =
  f_ID :: string
  f_Severity :: vuln_severity
  f_Package :: string
  f_Installed :: string
  f_Fixed :: string
  f_Title :: string
  f_Target :: string

section \<open>Counting\<close>

definition zero_summary :: summary where
  "zero_summary = \<lparr>n_Critical = 0, n_High = 0, n_Medium = 0, n_Low = 0, n_Unknown = 0, n_Fixable = 0\<rparr>"

definition count_finding :: "summary \<Rightarrow> finding \<Rightarrow> summary" where
  "count_finding s f =
     (let s = (case f_Severity f of
          Sev_Critical \<Rightarrow> s\<lparr>n_Critical := n_Critical s + 1\<rparr>
        | Sev_High \<Rightarrow> s\<lparr>n_High := n_High s + 1\<rparr>
        | Sev_Medium \<Rightarrow> s\<lparr>n_Medium := n_Medium s + 1\<rparr>
        | Sev_Low \<Rightarrow> s\<lparr>n_Low := n_Low s + 1\<rparr>
        | Sev_Unknown \<Rightarrow> s\<lparr>n_Unknown := n_Unknown s + 1\<rparr>)
      in if f_Fixed f \<noteq> [] then s\<lparr>n_Fixable := n_Fixable s + 1\<rparr> else s)"

definition Summarize :: "finding list \<Rightarrow> summary" where
  "Summarize findings = foldl count_finding zero_summary findings"

definition Add :: "summary \<Rightarrow> summary \<Rightarrow> summary" where
  "Add a b = \<lparr>n_Critical = n_Critical a + n_Critical b, n_High = n_High a + n_High b,
     n_Medium = n_Medium a + n_Medium b, n_Low = n_Low a + n_Low b,
     n_Unknown = n_Unknown a + n_Unknown b, n_Fixable = n_Fixable a + n_Fixable b\<rparr>"

definition AtLeast :: "summary \<Rightarrow> vuln_severity \<Rightarrow> int32" where
  "AtLeast summary lowest =
     foldl (\<lambda>n (severity, c). if rank severity \<ge> rank lowest then n + c else n) 0
       [(Sev_Critical, n_Critical summary), (Sev_High, n_High summary),
        (Sev_Medium, n_Medium summary), (Sev_Low, n_Low summary)]"

definition Increased :: "summary \<Rightarrow> summary \<Rightarrow> vuln_severity \<Rightarrow> int32 \<times> int32 \<times> bool" where
  "Increased previous current lowest =
     (AtLeast previous lowest, AtLeast current lowest, sint (AtLeast current lowest) > sint (AtLeast previous lowest))"

definition blocks :: "check \<Rightarrow> finding \<Rightarrow> bool" where
  "blocks check f =
     (if rank (f_Severity f) < rank (k_MaxSeverity check) \<or> f_Severity f = Sev_Unknown then False
      else if k_IgnoreUnfixed check \<and> f_Fixed f = [] then False else True)"

definition Blocking :: "finding list \<Rightarrow> check \<Rightarrow> finding list" where
  "Blocking findings check = filter (blocks check) findings"

section \<open>Assessing the images of a release\<close>

record scan =
  sc_Repository :: string
  sc_Digest :: string
  sc_Report :: string
  sc_ScannedAt :: time
  sc_Summary :: summary

record image =
  i_Name :: string
  i_Digest :: string
  i_Vendored :: bool
  i_Scan :: "scan option"

text \<open>An error that is \<open>ErrUnreadable\<close> leaves the image without a scan; any other fails the evaluation.\<close>

datatype read_error = Unreadable string | ReadFailed string

fun error_message :: "read_error \<Rightarrow> string" where
  "error_message (Unreadable m) = m"
| "error_message (ReadFailed m) = m"

record assessment = image +
  a_Findings :: "finding list"
  a_Err :: "read_error option"

text \<open>The scans to read: the first of each report among the vendored images that are scanned.\<close>

fun report_scans :: "string list \<Rightarrow> image list \<Rightarrow> scan list" where
  "report_scans seen [] = []"
| "report_scans seen (img # images) =
     (case i_Scan img of
        None \<Rightarrow> report_scans seen images
      | Some s \<Rightarrow>
          if \<not> i_Vendored img \<or> sc_Report s \<in> set seen then report_scans seen images
          else s # report_scans (sc_Report s # seen) images)"

definition read_results :: "(scan \<Rightarrow> read_error + finding list) \<Rightarrow> image list \<Rightarrow> string \<Rightarrow> (read_error + finding list) option" where
  "read_results read images = map_of (map (\<lambda>s. (sc_Report s, read s)) (report_scans [] images))"

definition assess :: "(string \<Rightarrow> (read_error + finding list) option) \<Rightarrow> image \<Rightarrow> assessment" where
  "assess results img =
     (let plain = image.extend img \<lparr>a_Findings = [], a_Err = None\<rparr> in
      case i_Scan img of
        None \<Rightarrow> plain
      | Some s \<Rightarrow>
          if \<not> i_Vendored img then plain
          else (case results (sc_Report s) of
                  None \<Rightarrow> plain
                | Some (Inl err) \<Rightarrow> plain\<lparr>a_Err := Some err\<rparr>
                | Some (Inr findings) \<Rightarrow> plain\<lparr>a_Findings := findings\<rparr>))"

text \<open>The reports are read concurrently, each once; a read sees nothing of the others.\<close>

definition Read :: "image list \<Rightarrow> (scan \<Rightarrow> read_error + finding list) \<Rightarrow> assessment list" where
  "Read images read = map (assess (read_results read images)) images"

section \<open>The verdict of a check\<close>

datatype outcome = OutcomeScanMissing | OutcomeScanStale | OutcomeVulnerabilitiesFound | OutcomePassed

record verdict =
  d_Outcome :: outcome
  d_Message :: string
  d_Blocking :: "finding list"
  d_Recheck :: duration

definition maxListed :: nat where
  "maxListed = 5"

definition listed :: "string list \<Rightarrow> string" where
  "listed items =
     (if length items \<le> maxListed then str_join ''; '' items
      else str_join ''; '' (take maxListed items) @ ''; and '' @ nat_dec (length items - maxListed) @ '' more'')"

record check_state =
  h_missing :: "string list"
  h_stale :: "string list"
  h_blocking :: "finding list"
  h_recheck :: duration

definition scan_left :: "check \<Rightarrow> time \<Rightarrow> scan \<Rightarrow> duration" where
  "scan_left check now s = time_sub (sc_ScannedAt s + k_MaxAge check) now"

definition check_image :: "check \<Rightarrow> time \<Rightarrow> check_state \<Rightarrow> assessment \<Rightarrow> string + check_state" where
  "check_image check now st a =
     (if \<not> i_Vendored a \<or> i_Digest a = []
      then Inr (st\<lparr>h_missing := h_missing st @ [i_Name a @ '' is not vendored'']\<rparr>)
      else case i_Scan a of
        None \<Rightarrow> Inr (st\<lparr>h_missing := h_missing st @ [i_Name a @ '' has not been scanned'']\<rparr>)
      | Some s \<Rightarrow>
         let left = scan_left check now s in
         if left \<le> 0
         then Inr (st\<lparr>h_stale := h_stale st @ [i_Name a @ '' was last scanned '' @ rfc3339 (sc_ScannedAt s)]\<rparr>)
         else let st = (if h_recheck st = 0 \<or> left < h_recheck st then st\<lparr>h_recheck := left\<rparr> else st) in
           (case a_Err a of
              Some (Unreadable m) \<Rightarrow> Inr (st\<lparr>h_missing := h_missing st @ [i_Name a @ '': '' @ m]\<rparr>)
            | Some (ReadFailed m) \<Rightarrow> Inl (''reading the report of '' @ i_Name a @ '': '' @ m)
            | None \<Rightarrow> Inr (st\<lparr>h_blocking := h_blocking st @ Blocking (a_Findings a) check\<rparr>)))"

fun check_images :: "check \<Rightarrow> time \<Rightarrow> check_state \<Rightarrow> assessment list \<Rightarrow> string + check_state" where
  "check_images check now st [] = Inr st"
| "check_images check now st (a # as) =
     (case check_image check now st a of Inl err \<Rightarrow> Inl err | Inr st \<Rightarrow> check_images check now st as)"

definition finding_id :: "finding \<Rightarrow> string" where
  "finding_id f = f_ID f @ '' ('' @ severity_name (f_Severity f) @ '', '' @ f_Package f @ '')''"

definition vuln_Evaluate :: "assessment list \<Rightarrow> check \<Rightarrow> time \<Rightarrow> string + verdict" where
  "vuln_Evaluate assessments check now =
     (case check_images check now \<lparr>h_missing = [], h_stale = [], h_blocking = [], h_recheck = 0\<rparr> assessments of
        Inl err \<Rightarrow> Inl err
      | Inr st \<Rightarrow> Inr
         (if h_missing st \<noteq> []
          then \<lparr>d_Outcome = OutcomeScanMissing, d_Message = ''no verified scan: '' @ listed (h_missing st),
                d_Blocking = [], d_Recheck = 0\<rparr>
          else if h_stale st \<noteq> []
          then \<lparr>d_Outcome = OutcomeScanStale,
                d_Message = ''scans older than '' @ duration_string (k_MaxAge check) @ '': '' @ listed (h_stale st),
                d_Blocking = [], d_Recheck = 0\<rparr>
          else if h_blocking st \<noteq> []
          then \<lparr>d_Outcome = OutcomeVulnerabilitiesFound,
                d_Message = nat_dec (length (h_blocking st)) @ '' vulnerabilities at or above '' @
                  severity_name (k_MaxSeverity check) @ '': '' @ listed (map finding_id (h_blocking st)),
                d_Blocking = h_blocking st, d_Recheck = 0\<rparr>
          else \<lparr>d_Outcome = OutcomePassed,
                d_Message = ''No image has vulnerabilities at or above '' @ severity_name (k_MaxSeverity check),
                d_Blocking = [], d_Recheck = h_recheck st\<rparr>))"

definition Total :: "image list \<Rightarrow> summary \<times> bool" where
  "Total images =
     foldl (\<lambda>(total, scanned) img. case i_Scan img of
        Some s \<Rightarrow> if i_Vendored img then (Add total (sc_Summary s), True) else (total, scanned)
      | None \<Rightarrow> (total, scanned)) (zero_summary, False) images"

section \<open>Comparing two releases\<close>

type_synonym finding_key = "string \<times> string"

definition keyOf :: "finding \<Rightarrow> finding_key" where
  "keyOf f = (f_ID f, f_Package f)"

fun missing_loop :: "finding_key list \<Rightarrow> finding list \<Rightarrow> finding list" where
  "missing_loop present [] = []"
| "missing_loop present (f # fs) =
     (if keyOf f \<in> set present then missing_loop present fs else f # missing_loop (keyOf f # present) fs)"

definition compareFindings :: "finding \<Rightarrow> finding \<Rightarrow> int" where
  "compareFindings a b =
     cmp_or [ord_compare (rank (f_Severity b)) (rank (f_Severity a)), ord_compare (f_ID a) (f_ID b),
             ord_compare (f_Package a) (f_Package b)]"

definition missing :: "finding list \<Rightarrow> finding list \<Rightarrow> finding list" where
  "missing from other = sort_cmp compareFindings (missing_loop (map keyOf other) from)"

definition Diff :: "finding list \<Rightarrow> finding list \<Rightarrow> finding list \<times> finding list" where
  "Diff current previous = (missing current previous, missing previous current)"

record image_finding = finding +
  if_Image :: string

record comparison =
  cp_Added :: "image_finding list"
  cp_Removed :: "image_finding list"
  cp_CurrentMissing :: "string list"
  cp_BaselineMissing :: "string list"

fun note_images :: "string \<Rightarrow> (finding_key \<times> string) list \<Rightarrow> finding list \<Rightarrow> (finding_key \<times> string) list" where
  "note_images name images [] = images"
| "note_images name images (f # fs) =
     note_images name (case map_of images (keyOf f) of None \<Rightarrow> images @ [(keyOf f, name)] | Some _ \<Rightarrow> images) fs"

fun collect :: "finding list \<Rightarrow> (finding_key \<times> string) list \<Rightarrow> string list \<Rightarrow> assessment list \<Rightarrow>
    finding list \<times> (finding_key \<times> string) list \<times> string list" where
  "collect findings images unread [] = (findings, images, unread)"
| "collect findings images unread (a # as) =
     (if \<not> i_Vendored a \<or> i_Scan a = None \<or> a_Err a \<noteq> None
      then collect findings images (unread @ [i_Name a]) as
      else collect (findings @ a_Findings a) (note_images (i_Name a) images (a_Findings a)) unread as)"

definition with_image :: "(finding_key \<times> string) list \<Rightarrow> finding \<Rightarrow> image_finding" where
  "with_image images f =
     finding.extend f \<lparr>if_Image = (case map_of images (keyOf f) of Some name \<Rightarrow> name | None \<Rightarrow> [])\<rparr>"

definition Compare :: "assessment list \<Rightarrow> assessment list \<Rightarrow> comparison" where
  "Compare current baseline =
     (case (collect [] [] [] current, collect [] [] [] baseline) of
        ((currentFindings, currentImages, currentMissing), (baselineFindings, baselineImages, baselineMissing)) \<Rightarrow>
      (case Diff currentFindings baselineFindings of (added, removed) \<Rightarrow>
        \<lparr>cp_Added = map (with_image currentImages) added, cp_Removed = map (with_image baselineImages) removed,
         cp_CurrentMissing = currentMissing, cp_BaselineMissing = baselineMissing\<rparr>))"

section \<open>Counts and blocking findings agree\<close>

definition count_sev :: "vuln_severity \<Rightarrow> finding list \<Rightarrow> nat" where
  "count_sev v fs = length (filter (\<lambda>f. f_Severity f = v) fs)"

lemma count_finding_fields:
  "n_Critical (count_finding s f) = n_Critical s + (if f_Severity f = Sev_Critical then 1 else 0)"
  "n_High (count_finding s f) = n_High s + (if f_Severity f = Sev_High then 1 else 0)"
  "n_Medium (count_finding s f) = n_Medium s + (if f_Severity f = Sev_Medium then 1 else 0)"
  "n_Low (count_finding s f) = n_Low s + (if f_Severity f = Sev_Low then 1 else 0)"
  "n_Unknown (count_finding s f) = n_Unknown s + (if f_Severity f = Sev_Unknown then 1 else 0)"
  "n_Fixable (count_finding s f) = n_Fixable s + (if f_Fixed f \<noteq> [] then 1 else 0)"
  by (cases "f_Severity f"; simp add: count_finding_def Let_def)+

lemma foldl_count:
  "n_Critical (foldl count_finding s fs) = n_Critical s + of_nat (count_sev Sev_Critical fs)"
  "n_High (foldl count_finding s fs) = n_High s + of_nat (count_sev Sev_High fs)"
  "n_Medium (foldl count_finding s fs) = n_Medium s + of_nat (count_sev Sev_Medium fs)"
  "n_Low (foldl count_finding s fs) = n_Low s + of_nat (count_sev Sev_Low fs)"
  by (induction fs arbitrary: s) (auto simp: count_finding_fields count_sev_def)

lemma AtLeast_Summarize:
  "AtLeast (Summarize fs) lowest = of_nat (length (filter (\<lambda>f. rank (f_Severity f) \<ge> rank lowest \<and> f_Severity f \<noteq> Sev_Unknown) fs))"
proof (induction fs)
  case Nil
  then show ?case by (cases lowest) (simp_all add: AtLeast_def Summarize_def zero_summary_def)
next
  case (Cons f fs)
  have "AtLeast (Summarize (f # fs)) lowest =
      AtLeast (Summarize fs) lowest + (if rank (f_Severity f) \<ge> rank lowest \<and> f_Severity f \<noteq> Sev_Unknown then 1 else 0)"
    by (cases lowest; cases "f_Severity f")
       (simp_all add: AtLeast_def Summarize_def foldl_count zero_summary_def count_finding_fields)
  then show ?case using Cons by simp
qed

section \<open>What a check passes\<close>

definition image_passes :: "check \<Rightarrow> time \<Rightarrow> assessment \<Rightarrow> bool" where
  "image_passes check now a \<longleftrightarrow>
     i_Vendored a \<and> i_Digest a \<noteq> [] \<and> a_Err a = None \<and> Blocking (a_Findings a) check = []
   \<and> (\<exists>s. i_Scan a = Some s \<and> 0 < scan_left check now s)"

definition no_problem :: "check_state \<Rightarrow> bool" where
  "no_problem st \<longleftrightarrow> h_missing st = [] \<and> h_stale st = [] \<and> h_blocking st = []"

lemma no_problem_simps [simp]:
  "\<not> no_problem (st\<lparr>h_missing := xs @ [x]\<rparr>)" "\<not> no_problem (st\<lparr>h_stale := xs @ [x]\<rparr>)"
  "no_problem (st\<lparr>h_recheck := r\<rparr>) = no_problem st"
  "no_problem (st\<lparr>h_blocking := h_blocking st @ fs\<rparr>) \<longleftrightarrow> no_problem st \<and> fs = []"
  by (auto simp: no_problem_def)

lemma check_image_passes:
  assumes "image_passes check now a" "i_Scan a = Some s"
  shows "check_image check now st a = Inr
    (st\<lparr>h_recheck := if h_recheck st = 0 \<or> scan_left check now s < h_recheck st then scan_left check now s else h_recheck st\<rparr>)"
  using assms by (simp add: image_passes_def check_image_def Let_def)

lemma check_image_no_problem:
  assumes "check_image check now st a = Inr st'"
  shows "no_problem st' \<longleftrightarrow> no_problem st \<and> image_passes check now a"
proof (cases "image_passes check now a")
  case True
  then obtain s where "i_Scan a = Some s" by (auto simp: image_passes_def)
  then show ?thesis using assms True by (auto simp: check_image_passes [OF True])
next
  case False
  then have "\<not> no_problem st'"
    using assms by (auto simp: check_image_def image_passes_def Let_def no_problem_def
        split: if_splits option.splits read_error.splits)
  then show ?thesis using False by simp
qed

lemma image_passes_at:
  assumes "image_passes check now a" "\<And>s. i_Scan a = Some s \<Longrightarrow> 0 < scan_left check t s"
  shows "image_passes check t a"
  using assms unfolding image_passes_def by blast

lemma check_image_error: "check_image check now st a = Inl err \<Longrightarrow> \<not> image_passes check now a"
  using check_image_passes by (force simp: image_passes_def)

lemma check_images_passes:
  "(\<exists>st'. check_images check now st as = Inr st' \<and> no_problem st') \<longleftrightarrow>
     no_problem st \<and> (\<forall>a\<in>set as. image_passes check now a)"
proof (induction as arbitrary: st)
  case (Cons a as)
  show ?case
  proof (cases "check_image check now st a")
    case (Inl err)
    then show ?thesis using check_image_error [OF Inl] by simp
  next
    case (Inr st1)
    then show ?thesis using Cons check_image_no_problem [OF Inr] by auto
  qed
qed simp

definition passes :: "check \<Rightarrow> time \<Rightarrow> assessment list \<Rightarrow> bool" where
  "passes check now as \<longleftrightarrow> (\<exists>v. vuln_Evaluate as check now = Inr v \<and> d_Outcome v = OutcomePassed)"

abbreviation empty_state :: check_state where
  "empty_state \<equiv> \<lparr>h_missing = [], h_stale = [], h_blocking = [], h_recheck = 0\<rparr>"

lemma vuln_Evaluate_passed:
  "vuln_Evaluate as check now = Inr v \<and> d_Outcome v = OutcomePassed \<longleftrightarrow>
     (\<exists>st. check_images check now empty_state as = Inr st \<and> no_problem st
       \<and> v = \<lparr>d_Outcome = OutcomePassed,
           d_Message = ''No image has vulnerabilities at or above '' @ severity_name (k_MaxSeverity check),
           d_Blocking = [], d_Recheck = h_recheck st\<rparr>)"
  by (auto simp: vuln_Evaluate_def no_problem_def split: sum.splits if_splits)

lemma passes_iff: "passes check now as \<longleftrightarrow> (\<forall>a\<in>set as. image_passes check now a)"
  using check_images_passes [of check now empty_state as]
  by (auto simp: passes_def vuln_Evaluate_passed no_problem_def)

section \<open>When a verdict expires\<close>

definition lefts :: "check \<Rightarrow> time \<Rightarrow> assessment list \<Rightarrow> duration set" where
  "lefts check now as = {scan_left check now s |s. \<exists>a\<in>set as. i_Scan a = Some s}"

lemma check_images_recheck:
  assumes "check_images check now st as = Inr st'" "\<forall>a\<in>set as. image_passes check now a" "0 \<le> h_recheck st"
  shows "(h_recheck st' = h_recheck st \<or> h_recheck st' \<in> lefts check now as)
    \<and> (\<forall>l\<in>lefts check now as. h_recheck st' \<le> l) \<and> (0 < h_recheck st \<longrightarrow> 0 < h_recheck st' \<and> h_recheck st' \<le> h_recheck st)
    \<and> (as \<noteq> [] \<longrightarrow> 0 < h_recheck st')"
  using assms
proof (induction as arbitrary: st)
  case Nil
  then show ?case by (simp add: lefts_def)
next
  case (Cons a as)
  then obtain s where s: "i_Scan a = Some s" "0 < scan_left check now s"
    by (auto simp: image_passes_def)
  define r where "r = (if h_recheck st = 0 \<or> scan_left check now s < h_recheck st then scan_left check now s else h_recheck st)"
  have r: "0 < r" "r \<le> scan_left check now s" "r = h_recheck st \<or> r = scan_left check now s"
    "0 < h_recheck st \<longrightarrow> r \<le> h_recheck st"
    using s Cons.prems(3) by (auto simp: r_def)
  have rest: "check_images check now (st\<lparr>h_recheck := r\<rparr>) as = Inr st'"
    using Cons.prems check_image_passes [OF _ s(1), of check now st] by (simp add: r_def)
  have lefts: "lefts check now (a # as) = insert (scan_left check now s) (lefts check now as)"
    using s by (auto simp: lefts_def)
  from Cons.IH [OF rest] Cons.prems(2) r show ?case unfolding lefts by auto
qed

lemma scan_left_later:
  assumes "now \<le> t" "scan_left check now s < 2 ^ 63 - 1"
  shows "0 < scan_left check t s \<longleftrightarrow> t < now + scan_left check now s"
  using assms by (auto simp: scan_left_def time_sub_def split: if_splits)

lemma scan_left_before:
  assumes "now \<le> t" "t < now + scan_left check now s"
  shows "0 < scan_left check t s"
  using assms by (auto simp: scan_left_def time_sub_def split: if_splits)

lemma passed_recheck:
  assumes "vuln_Evaluate as check now = Inr v" "d_Outcome v = OutcomePassed" "as \<noteq> []"
  shows "0 < d_Recheck v" "d_Recheck v \<in> lefts check now as" "\<forall>l\<in>lefts check now as. d_Recheck v \<le> l"
proof -
  obtain st where st: "check_images check now empty_state as = Inr st" "no_problem st" "d_Recheck v = h_recheck st"
    using assms(1,2) vuln_Evaluate_passed [of as check now v] by auto
  then have "\<forall>a\<in>set as. image_passes check now a"
    using check_images_passes [of check now empty_state as] by blast
  from check_images_recheck [OF st(1) this] assms(3) st(3)
  show "0 < d_Recheck v" "d_Recheck v \<in> lefts check now as" "\<forall>l\<in>lefts check now as. d_Recheck v \<le> l" by auto
qed

section \<open>Comparing releases\<close>

lemma compareFindings_lex:
  "compareFindings = (\<lambda>a b.
     if ord_compare (rank (f_Severity b)) (rank (f_Severity a)) \<noteq> 0 then ord_compare (rank (f_Severity b)) (rank (f_Severity a))
     else if ord_compare (f_ID a) (f_ID b) \<noteq> 0 then ord_compare (f_ID a) (f_ID b)
     else ord_compare (f_Package a) (f_Package b))"
  by (auto simp: compareFindings_def fun_eq_iff)

interpretation findings_order: three_way compareFindings
  unfolding compareFindings_lex by (intro three_way_lex three_way_ord three_way_swap [OF three_way_ord])

lemma missing_loop_keys:
  "keyOf ` set (missing_loop present fs) = keyOf ` set fs - set present
   \<and> distinct (map keyOf (missing_loop present fs)) \<and> set (missing_loop present fs) \<subseteq> set fs"
proof (induction present fs rule: missing_loop.induct)
  case (2 present f fs)
  then show ?case by (auto simp: distinct_map)
qed simp

lemma note_images_keys: "dom (map_of (note_images name images fs)) = dom (map_of images) \<union> keyOf ` set fs"
  by (induction name images fs rule: note_images.induct) (auto split: option.splits)

section \<open>Reading each report once\<close>

lemma report_scans_distinct:
  "distinct (map sc_Report (report_scans seen images)) \<and> sc_Report ` set (report_scans seen images) \<inter> set seen = {}"
  by (induction seen images rule: report_scans.induct) (auto split: option.splits)

lemma report_scans_covers:
  "i \<in> set images \<Longrightarrow> i_Vendored i \<Longrightarrow> i_Scan i = Some s \<Longrightarrow>
     sc_Report s \<in> set seen \<union> sc_Report ` set (report_scans seen images)"
  by (induction seen images rule: report_scans.induct) (auto split: option.splits)

lemma read_results_Some:
  assumes "i \<in> set images" "i_Vendored i" "i_Scan i = Some s"
    and same: "\<And>s s'. sc_Report s = sc_Report s' \<Longrightarrow> read s = read s'"
  shows "read_results read images (sc_Report s) = Some (read s)"
proof -
  obtain s' where s': "s' \<in> set (report_scans [] images)" "sc_Report s' = sc_Report s"
    using report_scans_covers [OF assms(1-3), of "[]"] by auto
  have "distinct (map fst (map (\<lambda>s. (sc_Report s, read s)) (report_scans [] images)))"
    using report_scans_distinct [of "[]" images] by (simp add: comp_def)
  then have "map_of (map (\<lambda>s. (sc_Report s, read s)) (report_scans [] images)) (sc_Report s') = Some (read s')"
    using s'(1) by (intro map_of_is_SomeI) auto
  then show ?thesis using s'(2) same [of s' s] by (simp add: read_results_def)
qed

lemma assess_read:
  assumes "i_Vendored img" "i_Scan img = Some s" "results (sc_Report s) = Some r"
  shows "image.truncate (assess results img) = img
    \<and> (case r of Inr findings \<Rightarrow> a_Findings (assess results img) = findings \<and> a_Err (assess results img) = None
       | Inl err \<Rightarrow> a_Err (assess results img) = Some err)"
  using assms by (cases img; cases r) (simp_all add: assess_def Let_def image.defs)

section \<open>Properties\<close>

definition sample_finding :: "vuln_severity \<Rightarrow> string \<Rightarrow> finding" where
  "sample_finding v fixed = \<lparr>f_ID = ''CVE-1'', f_Severity = v, f_Package = ''p'', f_Installed = ''1'', f_Fixed = fixed,
     f_Title = [], f_Target = []\<rparr>"

definition sample_check :: check where
  "sample_check = \<lparr>k_MaxSeverity = Sev_High, k_IgnoreUnfixed = False, k_MaxAge = 100 * second\<rparr>"

definition sample_scan :: scan where
  "sample_scan = \<lparr>sc_Repository = ''r'', sc_Digest = ''d'', sc_Report = ''e'', sc_ScannedAt = 1000 * second, sc_Summary = zero_summary\<rparr>"

definition sample_assessment :: assessment where
  "sample_assessment = \<lparr>i_Name = ''i'', i_Digest = ''d'', i_Vendored = True, i_Scan = Some sample_scan,
     a_Findings = [sample_finding Sev_Low []], a_Err = None\<rparr>"

text \<open>C35: A release passes a vulnerability check exactly when every image is vendored at a digest, has a
  scan younger than the check allows whose report could be read, and no finding of it blocks: none at
  or above the severity of the check, or, when the check ignores unfixed findings, none that a version
  fixes.\<close>

theorem check_passes_iff:
  "(\<exists>v. vuln_Evaluate as check now = Inr v \<and> d_Outcome v = OutcomePassed) \<longleftrightarrow>
     (\<forall>a\<in>set as. i_Vendored a \<and> i_Digest a \<noteq> [] \<and> a_Err a = None
        \<and> (\<exists>s. i_Scan a = Some s \<and> now < sc_ScannedAt s + k_MaxAge check)
        \<and> (\<forall>f\<in>set (a_Findings a). rank (f_Severity f) < rank (k_MaxSeverity check) \<or> f_Severity f = Sev_Unknown
             \<or> k_IgnoreUnfixed check \<and> f_Fixed f = []))"
proof -
  have "Blocking fs check = [] \<longleftrightarrow> (\<forall>f\<in>set fs. rank (f_Severity f) < rank (k_MaxSeverity check) \<or> f_Severity f = Sev_Unknown
      \<or> k_IgnoreUnfixed check \<and> f_Fixed f = [])" for fs
    by (auto simp: Blocking_def filter_empty_conv blocks_def)
  moreover have "0 < scan_left check now s \<longleftrightarrow> now < sc_ScannedAt s + k_MaxAge check" for s
    by (auto simp: scan_left_def time_sub_def)
  ultimately show ?thesis
    using passes_iff [of check now as] by (auto simp: passes_def image_passes_def)
qed

lemma sample_passes: "vuln_Evaluate [sample_assessment] sample_check (1050 * second) =
    Inr \<lparr>d_Outcome = OutcomePassed, d_Message = ''No image has vulnerabilities at or above High'', d_Blocking = [],
      d_Recheck = 50 * second\<rparr>"
  by code_simp

theorem check_passes_iff_witness:
  "i_Digest sample_assessment \<noteq> [] \<and> a_Err sample_assessment = None"
  using iffD1 [OF check_passes_iff [of "[sample_assessment]" sample_check "1050 * second"]] sample_passes by simp

text \<open>C36: A verdict that passes says how long it holds: at every later moment, with the same scans, the
  release passes exactly until the recheck delay of the verdict is over. (The delay is below the
  longest duration Go can hold.)\<close>

theorem check_recheck_exact:
  assumes "vuln_Evaluate as check now = Inr v" "d_Outcome v = OutcomePassed" "as \<noteq> []"
    and "d_Recheck v < 2 ^ 63 - 1" "now \<le> t"
  shows "passes check t as \<longleftrightarrow> t < now + d_Recheck v"
proof
  note recheck = passed_recheck [OF assms(1-3)]
  have now: "\<forall>a\<in>set as. image_passes check now a"
    using assms(1,2) passes_iff [of check now as] by (auto simp: passes_def)
  {
    assume "passes check t as"
    then have "\<forall>a\<in>set as. image_passes check t a" by (simp add: passes_iff)
    moreover obtain a s where "a \<in> set as" "i_Scan a = Some s" "d_Recheck v = scan_left check now s"
      using recheck(2) by (auto simp: lefts_def)
    ultimately show "t < now + d_Recheck v"
      using scan_left_later [OF assms(5), of check s] assms(4) by (auto simp: image_passes_def)
  next
    assume "t < now + d_Recheck v"
    then have "0 < scan_left check t s" if "a \<in> set as" "i_Scan a = Some s" for a s
      using that recheck(3) scan_left_before [OF assms(5), of check s] by (force simp: lefts_def)
    then have "\<forall>a\<in>set as. image_passes check t a"
      using now image_passes_at [of check now _ t] by blast
    then show "passes check t as" by (simp add: passes_iff)
  }
qed

theorem check_recheck_exact_witness:
  "passes sample_check (1099 * second) [sample_assessment] \<and> \<not> passes sample_check (1100 * second) [sample_assessment]"
  using check_recheck_exact [OF sample_passes, of "1099 * second"] check_recheck_exact [OF sample_passes, of "1100 * second"]
  by simp

text \<open>The count Kokumi stores agrees with the findings a check blocks on: the stored summary of up to
  2^31 - 1 findings counts at or above a severity exactly the findings a check of that severity that
  does not ignore unfixed ones blocks.\<close>

theorem summary_counts_blocking:
  assumes "length findings < 2 ^ 31" "\<not> k_IgnoreUnfixed check"
  shows "sint (AtLeast (Summarize findings) (k_MaxSeverity check)) = int (length (Blocking findings check))"
proof -
  have "filter (\<lambda>f. rank (f_Severity f) \<ge> rank (k_MaxSeverity check) \<and> f_Severity f \<noteq> Sev_Unknown) findings =
      Blocking findings check"
    using assms(2) unfolding Blocking_def by (intro filter_cong) (auto simp: blocks_def)
  moreover have "length (Blocking findings check) < 2 ^ 31"
    using assms(1) by (simp add: Blocking_def le_less_trans [OF length_filter_le])
  ultimately show ?thesis by (simp only: AtLeast_Summarize sint_of_nat32)
qed

theorem summary_counts_blocking_witness:
  "sint (AtLeast (Summarize [sample_finding Sev_High []]) Sev_High) = int (length (Blocking [sample_finding Sev_High []] sample_check))"
  using summary_counts_blocking [of "[sample_finding Sev_High []]" sample_check] by (simp add: sample_check_def)

text \<open>Comparing two releases names exactly the differences: the added findings are findings of the
  current release, one for each vulnerability of a package that the previous release lacks, ordered
  from the most severe; and comparing the other way round swaps the two lists.\<close>

theorem diff_exact:
  assumes "Diff current previous = (added, removed)"
  shows "keyOf ` set added = keyOf ` set current - keyOf ` set previous \<and> set added \<subseteq> set current
    \<and> distinct (map keyOf added) \<and> sorted_wrt (\<lambda>a b. compareFindings a b \<le> 0) added
    \<and> Diff previous current = (removed, added)"
proof -
  have "added = sort_cmp compareFindings (missing_loop (map keyOf previous) current)" "removed = missing previous current"
    using assms by (auto simp: Diff_def missing_def)
  then show ?thesis
    using missing_loop_keys [of "map keyOf previous" current] findings_order.sort_sorted
    by (auto simp: Diff_def missing_def)
qed

theorem diff_exact_witness:
  "keyOf ` set [sample_finding Sev_High []] = {(''CVE-1'', ''p'')} - {}
   \<and> Diff [] [sample_finding Sev_High []] = ([], [sample_finding Sev_High []])"
proof -
  have "Diff [sample_finding Sev_High []] [] = ([sample_finding Sev_High []], [])" by code_simp
  from diff_exact [OF this] show ?thesis by (simp add: keyOf_def sample_finding_def)
qed

text \<open>The images of a release are assessed with the findings of their own reports although each
  report is read only once: when what a read returns depends on the report alone, every vendored and
  scanned image gets the result of reading its own scan.\<close>

theorem read_own_report:
  assumes "\<And>s s'. sc_Report s = sc_Report s' \<Longrightarrow> read s = read s'"
    and "i < length images" "i_Vendored (images ! i)" "i_Scan (images ! i) = Some s"
  shows "image.truncate (Read images read ! i) = images ! i
    \<and> (case read s of Inr findings \<Rightarrow> a_Findings (Read images read ! i) = findings \<and> a_Err (Read images read ! i) = None
       | Inl err \<Rightarrow> a_Err (Read images read ! i) = Some err)
    \<and> distinct (map sc_Report (report_scans [] images))"
proof -
  have "read_results read images (sc_Report s) = Some (read s)"
    using nth_mem [OF assms(2)] assms(3,4) by (rule read_results_Some) (rule assms(1))
  from assess_read [where results = "read_results read images", OF assms(3,4) this] show ?thesis
    using assms(2) report_scans_distinct [of "[]" images] by (cases "read s") (simp_all add: Read_def)
qed

theorem read_own_report_witness:
  "a_Findings (Read [\<lparr>i_Name = ''i'', i_Digest = ''d'', i_Vendored = True, i_Scan = Some sample_scan\<rparr>]
     (\<lambda>_. Inr [sample_finding Sev_Low []]) ! 0) = [sample_finding Sev_Low []]"
  using read_own_report [of "\<lambda>_. Inr [sample_finding Sev_Low []]" 0
      "[\<lparr>i_Name = ''i'', i_Digest = ''d'', i_Vendored = True, i_Scan = Some sample_scan\<rparr>]" sample_scan] by simp

end
