(* ===== verification/Scan_Schedule.thy ===== *)
theory Scan_Schedule
  imports Promotion_Pipeline Vulnerability
begin

text \<open>
  Which vendored images are scanned and when (\<open>internal/scan/schedule.go\<close>), and how the state of a
  Product's scans is judged. The order in which Go visits a map is not specified: a map of images or
  records is the list of its entries, in any order.
\<close>

section \<open>References and records\<close>

text \<open>The fields of a parsed reference (\<open>internal/oci/reference.go\<close>); parsing it is the registry library's.\<close>

record oci_reference =
  ref_Registry :: string
  ref_Repository :: string
  ref_Tag :: string
  ref_Digest :: string

definition RepositoryReference :: "oci_reference \<Rightarrow> string" where
  "RepositoryReference r = ref_Registry r @ ''/'' @ ref_Repository r"

definition OCIRepositoryReference :: "oci_reference \<Rightarrow> string" where
  "OCIRepositoryReference r = ''oci://'' @ RepositoryReference r"

datatype sbom_origin = OriginGenerated | OriginImage | OriginSigned

record sbom_ref =
  sb_Digest :: string
  sb_Origin :: sbom_origin

record scan_record =
  rc_Digest :: string
  rc_Repository :: string
  rc_Platform :: string
  rc_ScannedAt :: time
  rc_SBOM :: sbom_ref
  rc_Report :: string
  rc_Summary :: summary

record failure =
  fl_Digest :: string
  fl_Err :: string

definition failure_String :: "failure \<Rightarrow> string" where
  "failure_String f = fl_Digest f @ '': '' @ fl_Err f"

section \<open>Images in use\<close>

definition RecentReleases :: nat where
  "RecentReleases = 3"

record scan_release = release +
  l_Images :: "oci_reference list"

definition kept_names :: "scan_release list \<Rightarrow> string list \<Rightarrow> string set" where
  "kept_names releases named =
     set (map l_Name (take RecentReleases
       (sort_cmp (\<lambda>a b. NewestFirst (release.truncate a) (release.truncate b)) (filter l_Ready releases))))
     \<union> set named"

definition InUse :: "scan_release list \<Rightarrow> string list \<Rightarrow> (string \<rightharpoonup> oci_reference)" where
  "InUse releases named =
     foldl (\<lambda>images img. images(ref_Digest img \<mapsto> img)) Map.empty
       (concat (map l_Images (filter (\<lambda>r. l_Name r \<in> kept_names releases named) releases)))"

section \<open>When to scan\<close>

type_synonym records = "(string \<times> scan_record) list"

definition is_due :: "records \<Rightarrow> duration \<Rightarrow> time \<Rightarrow> string \<Rightarrow> bool" where
  "is_due records interval now digest =
     (case map_of records digest of None \<Rightarrow> True | Some r \<Rightarrow> \<not> (rc_ScannedAt r + interval > now))"

definition Due :: "(string \<times> oci_reference) list \<Rightarrow> records \<Rightarrow> duration \<Rightarrow> time \<Rightarrow> string list" where
  "Due inUse records interval now =
     sort_cmp ord_compare (filter (is_due records interval now) (map fst inUse))"

definition Next_scan :: "records \<Rightarrow> duration \<Rightarrow> time \<Rightarrow> duration" where
  "Next_scan records interval now =
     max (foldl (\<lambda>next (digest, r). min next (time_sub (rc_ScannedAt r + interval) now)) interval records) minute"

definition Latest :: "records \<Rightarrow> nat \<Rightarrow> scan_record list" where
  "Latest records limit =
     (let latest = map snd records;
          latest = (if length latest > limit
            then take limit (sort_cmp (\<lambda>a b. ord_compare (rc_ScannedAt b) (rc_ScannedAt a)) latest) else latest)
      in sort_cmp (\<lambda>a b. str_compare (rc_Digest a) (rc_Digest b)) latest)"

section \<open>The health of a Product's scans\<close>

datatype scan_reason = Scan_Failed | Database_Stale | Scan_Stale | Scan_Current

record scan_health =
  sh_Reason :: scan_reason
  sh_Message :: string

definition health_OK :: "scan_health \<Rightarrow> bool" where
  "health_OK h = (sh_Reason h = Scan_Current)"

record scan_status =
  ss_Records :: "scan_record list"
  ss_InUse :: nat
  ss_Failures :: "failure list"
  ss_Database :: string
  ss_DatabaseBuilt :: time

definition maxListedFailures :: nat where
  "maxListedFailures = 3"

definition status_Health :: "scan_status \<Rightarrow> duration \<Rightarrow> duration \<Rightarrow> time \<Rightarrow> scan_health" where
  "status_Health s maxDatabaseAge staleAfter now =
     (if ss_Failures s \<noteq> []
      then \<lparr>sh_Reason = Scan_Failed, sh_Message = ''Could not scan '' @ nat_dec (length (ss_Failures s)) @ '' of '' @
             nat_dec (ss_InUse s) @ '' images: '' @
             str_join ''; '' (map failure_String (take maxListedFailures (ss_Failures s)))\<rparr>
      else if ss_DatabaseBuilt s \<noteq> 0 \<and> ss_Records s \<noteq> [] \<and> time_sub now (ss_DatabaseBuilt s) > maxDatabaseAge
      then \<lparr>sh_Reason = Database_Stale, sh_Message = ''The vulnerability database '' @ ss_Database s @ '' was built '' @
             rfc3339 (ss_DatabaseBuilt s) @ '', more than '' @ duration_string maxDatabaseAge @
             '' ago: update the mirror the Kitchen's scanning names''\<rparr>
      else (case find (\<lambda>r. time_sub now (rc_ScannedAt r) > staleAfter) (ss_Records s) of
        Some r \<Rightarrow> \<lparr>sh_Reason = Scan_Stale, sh_Message = ''Image '' @ rc_Digest r @ '' was last scanned '' @ rfc3339 (rc_ScannedAt r)\<rparr>
      | None \<Rightarrow> \<lparr>sh_Reason = Scan_Current, sh_Message =
           (if ss_InUse s = 0 then ''No vendored images in use''
            else ''Scanned the vendored images in use: '' @ nat_dec (length (ss_Records s))) @
           (if ss_InUse s > length (ss_Records s)
            then ''; '' @ nat_dec (ss_InUse s - length (ss_Records s)) @ '' more are in use than the status lists'' else [])\<rparr>))"

section \<open>Lemmas\<close>

interpretation string_order: three_way "ord_compare :: string \<Rightarrow> string \<Rightarrow> int"
  using three_way_ord [of "\<lambda>x :: string. x"] by simp

interpretation most_recent: three_way "\<lambda>a b. ord_compare (rc_ScannedAt b) (rc_ScannedAt a)"
  by (intro three_way_swap [OF three_way_ord])

interpretation digest_order: three_way "\<lambda>a b. str_compare (rc_Digest a) (rc_Digest b)"
  by (rule three_way_ord)

lemma foldl_map_upd:
  "foldl (\<lambda>m x. m(k x \<mapsto> x)) m xs d = (case find (\<lambda>x. k x = d) (rev xs) of Some x \<Rightarrow> Some x | None \<Rightarrow> m d)"
  by (induction xs arbitrary: m rule: rev_induct) (auto split: option.splits)

lemma InUse_dom:
  "d \<in> dom (InUse releases named) \<longleftrightarrow>
     (\<exists>r\<in>set releases. l_Name r \<in> kept_names releases named \<and> (\<exists>img\<in>set (l_Images r). ref_Digest img = d))"
  using find_None_iff [of "\<lambda>img. ref_Digest img = d"
      "rev (concat (map l_Images (filter (\<lambda>r. l_Name r \<in> kept_names releases named) releases)))"]
  by (auto simp: InUse_def foldl_map_upd domIff split: option.splits)

lemma foldl_min_le:
  fixes start :: int
  shows "foldl (\<lambda>n (k, r). min n (f r)) start xs \<le> start"
    and "(k, r) \<in> set xs \<Longrightarrow> foldl (\<lambda>n (k, r). min n (f r)) start xs \<le> f r"
proof (induction xs arbitrary: start)
  case (Cons x xs)
  { case 1 show ?case using Cons(1) [of "min start (f (snd x))"] by (cases x) auto }
  { case 2 then show ?case using Cons(1) [of "min start (f (snd x))"] Cons(2) [of "min start (f (snd x))"] by (cases x) auto }
qed auto

section \<open>Properties\<close>

definition sample_record :: "string \<Rightarrow> time \<Rightarrow> scan_record" where
  "sample_record digest t = \<lparr>rc_Digest = digest, rc_Repository = ''r'', rc_Platform = [], rc_ScannedAt = t,
     rc_SBOM = \<lparr>sb_Digest = ''s'', sb_Origin = OriginGenerated\<rparr>, rc_Report = ''p'', rc_Summary = zero_summary\<rparr>"

definition sample_image :: "string \<Rightarrow> oci_reference" where
  "sample_image digest = \<lparr>ref_Registry = ''r'', ref_Repository = ''p'', ref_Tag = [], ref_Digest = digest\<rparr>"

text \<open>The digests due for a scan are exactly those of the images in use that have no record or whose
  record is at least an interval old, each once and in ascending order.\<close>

theorem Due_exact:
  assumes "distinct (map fst inUse)"
  shows "set (Due inUse records interval now) =
      {d \<in> dom (map_of inUse). \<forall>r. map_of records d = Some r \<longrightarrow> rc_ScannedAt r + interval \<le> now}
    \<and> distinct (Due inUse records interval now)
    \<and> sorted_wrt (\<lambda>a b. ord_compare a b \<le> 0) (Due inUse records interval now)"
  using assms string_order.sort_sorted
  by (auto simp: Due_def is_due_def dom_map_of_conv_image_fst split: option.splits)

theorem Due_exact_witness:
  "set (Due [(''a'', sample_image ''a''), (''b'', sample_image ''b'')] [(''a'', sample_record ''a'' (100 * second))] (60 * second) (120 * second))
   = {''b''}"
  using Due_exact [of "[(''a'', sample_image ''a''), (''b'', sample_image ''b'')]" "[(''a'', sample_record ''a'' (100 * second))]"
      "60 * second" "120 * second"] by (auto simp: sample_record_def)

text \<open>The next run is neither too early nor too late: until the delay is over no image that has a record
  becomes due, unless the delay is the minimum of one minute, and the delay is never longer than the
  interval or a minute.\<close>

theorem Next_scan_not_due:
  assumes "minute < Next_scan records interval now" "map_of records digest = Some r" "now \<le> t"
    and "t < now + Next_scan records interval now"
  shows "\<not> is_due records interval t digest \<and> Next_scan records interval now \<le> max interval minute"
proof -
  let ?next = "foldl (\<lambda>next (digest, r). min next (time_sub (rc_ScannedAt r + interval) now)) interval records"
  have "?next \<le> time_sub (rc_ScannedAt r + interval) now"
    using map_of_SomeD [OF assms(2)] by (rule foldl_min_le(2))
  moreover have "Next_scan records interval now = ?next"
    using assms(1) by (simp add: Next_scan_def)
  ultimately have "t - now < time_sub (rc_ScannedAt r + interval) now" using assms(4) by simp
  then have "t < rc_ScannedAt r + interval" using assms(3) by (simp add: time_sub_def split: if_splits)
  moreover have "?next \<le> interval" by (rule foldl_min_le(1))
  ultimately show ?thesis using assms(2) by (auto simp: is_due_def Next_scan_def)
qed

theorem Next_scan_not_due_witness:
  "\<not> is_due [(''a'', sample_record ''a'' (100 * second))] (600 * second) (699 * second) ''a''"
proof -
  have "Next_scan [(''a'', sample_record ''a'' (100 * second))] (600 * second) (110 * second) = 590 * second" by code_simp
  then show ?thesis
    using Next_scan_not_due [of "[(''a'', sample_record ''a'' (100 * second))]" "600 * second" "110 * second" "''a''" _ "699 * second"]
    by simp
qed

text \<open>The images in use are exactly the images of the releases that are kept: those named and the three
  newest Ready ones, in the order Automatic promotion picks the newest by.\<close>

theorem InUse_exact:
  "dom (InUse releases named) =
     {ref_Digest img |img r. r \<in> set releases \<and> img \<in> set (l_Images r)
        \<and> (l_Name r \<in> set named
           \<or> (\<exists>k. k \<in> set (take 3 (sort_cmp (\<lambda>a b. NewestFirst (release.truncate a) (release.truncate b)) (filter l_Ready releases)))
                 \<and> l_Name k = l_Name r))}"
  by (auto simp: InUse_dom kept_names_def RecentReleases_def image_iff set_eq_iff) (metis (no_types))+

text \<open>When there are more records than the status holds, the ones kept are the most recently scanned: at
  most the limit, sorted by digest, all of them records there are, and none left out is scanned later
  than one that is kept.\<close>

theorem Latest_most_recent:
  assumes "distinct (map snd records)"
  shows "length (Latest records limit) = min limit (length records) \<and> set (Latest records limit) \<subseteq> set (map snd records)
    \<and> sorted_wrt (\<lambda>a b. str_compare (rc_Digest a) (rc_Digest b) \<le> 0) (Latest records limit)
    \<and> (\<forall>out\<in>set (map snd records) - set (Latest records limit). \<forall>kept\<in>set (Latest records limit).
         rc_ScannedAt out \<le> rc_ScannedAt kept)"
proof (cases "length records > limit")
  case True
  define by_time where "by_time = sort_cmp (\<lambda>a b. ord_compare (rc_ScannedAt b) (rc_ScannedAt a)) (map snd records)"
  have "rc_ScannedAt y \<le> rc_ScannedAt x" if "x \<in> set (take limit by_time)" "y \<in> set (drop limit by_time)" for x y
  proof -
    have "sorted_wrt (\<lambda>a b. ord_compare (rc_ScannedAt b) (rc_ScannedAt a) \<le> 0) (take limit by_time @ drop limit by_time)"
      using most_recent.sort_sorted unfolding by_time_def append_take_drop_id .
    then have "ord_compare (rc_ScannedAt y) (rc_ScannedAt x) \<le> 0" using that unfolding sorted_wrt_append by blast
    then show ?thesis by (simp add: ord_compare_le)
  qed
  moreover have "set (map snd records) = set (take limit by_time) \<union> set (drop limit by_time)"
    unfolding set_append [symmetric] append_take_drop_id by (simp add: by_time_def)
  moreover have "Latest records limit = sort_cmp (\<lambda>a b. str_compare (rc_Digest a) (rc_Digest b)) (take limit by_time)"
    using True by (simp add: Latest_def by_time_def)
  ultimately show ?thesis
    using True digest_order.sort_sorted by (auto simp: by_time_def)
next
  case False
  then have "Latest records limit = sort_cmp (\<lambda>a b. str_compare (rc_Digest a) (rc_Digest b)) (map snd records)"
    by (simp add: Latest_def)
  then show ?thesis using False digest_order.sort_sorted by auto
qed

theorem Latest_most_recent_witness:
  "length (Latest [(''a'', sample_record ''a'' 1), (''b'', sample_record ''b'' 2)] 1) = 1"
  using Latest_most_recent [of "[(''a'', sample_record ''a'' 1), (''b'', sample_record ''b'' 2)]" 1]
  by (simp add: sample_record_def)

text \<open>A Product's scans are healthy exactly when nothing failed to scan, the database, if it is known and
  anything is recorded, is no older than allowed, and no recorded scan is older than allowed.\<close>

theorem health_OK_iff:
  "health_OK (status_Health s maxDatabaseAge staleAfter now) \<longleftrightarrow>
     ss_Failures s = []
   \<and> (ss_DatabaseBuilt s = 0 \<or> ss_Records s = [] \<or> time_sub now (ss_DatabaseBuilt s) \<le> maxDatabaseAge)
   \<and> (\<forall>r\<in>set (ss_Records s). time_sub now (rc_ScannedAt r) \<le> staleAfter)"
  using find_None_iff [of "\<lambda>r. time_sub now (rc_ScannedAt r) > staleAfter" "ss_Records s"]
  by (auto simp: health_OK_def status_Health_def not_less split: option.splits)

theorem health_OK_iff_witness:
  "health_OK (status_Health \<lparr>ss_Records = [], ss_InUse = 0, ss_Failures = [], ss_Database = [], ss_DatabaseBuilt = 0\<rparr> 1 1 1)"
  by (subst health_OK_iff) simp

end
