(* ===== verification/Go_Json.thy ===== *)
theory Go_Json
  imports Go_Strings
begin

text \<open>
  JSON values and the encoding of \<open>encoding/json\<close>: a struct is the object of its fields in their
  order, a map the object of its entries sorted by key. Numbers keep their literal. Strings are
  taken to be valid UTF-8 without the two line separators U+2028 and U+2029, which
  the encoder escapes as well. \<open>json.Marshal\<close> escapes the characters that are special in HTML too, an
  encoder with \<open>SetEscapeHTML(false)\<close> does not: the flag of the functions below. The encoding is proved injective: encoded bytes determine the value.
\<close>

datatype json =
    JNull
  | JBool bool
  | JNum string
  | JStr string
  | JArr "json list"
  | JObj "(string \<times> json) list"

section \<open>Encoding\<close>

definition unicode_escape :: "char \<Rightarrow> string" where
  "unicode_escape c = [CHR 0x5C] @ ''u00'' @ [hex_digit (of_char c div 16), hex_digit (of_char c mod 16)]"

definition json_char :: "bool \<Rightarrow> char \<Rightarrow> string" where
  "json_char html c =
     (let n = of_char c :: nat in
      if n = 34 then [CHR 0x5C, CHR 0x22] else if n = 92 then [CHR 0x5C, CHR 0x5C]
      else if n = 8 then [CHR 0x5C, CHR ''b''] else if n = 12 then [CHR 0x5C, CHR ''f'']
      else if n = 10 then [CHR 0x5C, CHR ''n''] else if n = 13 then [CHR 0x5C, CHR ''r'']
      else if n = 9 then [CHR 0x5C, CHR ''t'']
      else if n < 32 \<or> html \<and> (c = CHR ''<'' \<or> c = CHR ''>'' \<or> c = CHR ''&'') then unicode_escape c
      else [c])"

definition json_string :: "bool \<Rightarrow> string \<Rightarrow> string" where
  "json_string html s = [CHR 0x22] @ concat (map (json_char html) s) @ [CHR 0x22]"

fun json_encode :: "bool \<Rightarrow> json \<Rightarrow> string" and json_elements :: "bool \<Rightarrow> json list \<Rightarrow> string"
  and json_fields :: "bool \<Rightarrow> (string \<times> json) list \<Rightarrow> string" where
  "json_encode html JNull = ''null''"
| "json_encode html (JBool b) = (if b then ''true'' else ''false'')"
| "json_encode html (JNum n) = n"
| "json_encode html (JStr s) = json_string html s"
| "json_encode html (JArr xs) = ''['' @ json_elements html xs @ '']''"
| "json_encode html (JObj fs) = ''{'' @ json_fields html fs @ ''}''"
| "json_elements html [] = []"
| "json_elements html [x] = json_encode html x"
| "json_elements html (x # y # ys) = json_encode html x @ '','' @ json_elements html (y # ys)"
| "json_fields html [] = []"
| "json_fields html [(k, v)] = json_string html k @ '':'' @ json_encode html v"
| "json_fields html ((k, v) # f # fs) = json_string html k @ '':'' @ json_encode html v @ '','' @ json_fields html (f # fs)"

text \<open>Fields tagged \<open>omitempty\<close>, and integer fields.\<close>

definition omit_if :: "bool \<Rightarrow> string \<Rightarrow> json \<Rightarrow> (string \<times> json) list" where
  "omit_if absent key v = (if absent then [] else [(key, v)])"

definition omit_string :: "string \<Rightarrow> string \<Rightarrow> (string \<times> json) list" where
  "omit_string key s = omit_if (s = []) key (JStr s)"

definition opt_field :: "string \<Rightarrow> ('a \<Rightarrow> json) \<Rightarrow> 'a option \<Rightarrow> (string \<times> json) list" where
  "opt_field key f v = (case v of None \<Rightarrow> [] | Some x \<Rightarrow> [(key, f x)])"

definition json_int :: "int \<Rightarrow> json" where
  "json_int i = JNum (int_dec i)"

section \<open>Encoded bytes determine the value\<close>

text \<open>An escaped character read back: what the encoding of a character is a prefix code by.\<close>

definition hex_val :: "char \<Rightarrow> nat" where
  "hex_val c = (let n = of_char c :: nat in if n < 58 then n - 48 else n - 87)"

lemma hex_val_digit: "n < 16 \<Longrightarrow> hex_val (hex_digit n) = n"
  by (simp add: hex_val_def hex_digit_def Let_def)

fun unescape :: "string \<Rightarrow> char \<times> string" where
  "unescape (c # r) =
     (if c \<noteq> CHR 0x5C then (c, r)
      else (case r of
        [] \<Rightarrow> (c, r)
      | d # r \<Rightarrow>
          if d = CHR ''u'' then (char_of (16 * hex_val (r ! 2) + hex_val (r ! 3)), drop 4 r)
          else (if d = CHR ''b'' then char_of (8 :: nat) else if d = CHR ''f'' then char_of (12 :: nat)
                else if d = CHR ''n'' then char_of (10 :: nat) else if d = CHR ''r'' then char_of (13 :: nat)
                else if d = CHR ''t'' then char_of (9 :: nat) else d, r)))"
| "unescape [] = (CHR 0x00, [])"

lemma char_eqI: "(of_char c :: nat) = n \<Longrightarrow> char_of n = c"
  by (metis char_of_char)

lemma unescape_unicode: "unescape (unicode_escape c @ r) = (c, r)"
proof -
  have "(of_char c :: nat) < 16 * 16" by simp
  then have "of_char c div 16 < (16 :: nat)" by (rule less_mult_imp_div_less)
  moreover have "of_char c mod 16 < (16 :: nat)" by simp
  ultimately have "hex_val (hex_digit (of_char c div 16)) = of_char c div 16" "hex_val (hex_digit (of_char c mod 16)) = of_char c mod 16"
    by (simp_all only: hex_val_digit)
  then have "char_of (16 * hex_val (hex_digit (of_char c div 16)) + hex_val (hex_digit (of_char c mod 16))) = c"
    by (intro char_eqI) (simp only: mult_div_mod_eq)
  then show ?thesis by (simp add: unicode_escape_def)
qed

lemma char_of_special: "char_of (34 :: nat) = CHR 0x22" "char_of (92 :: nat) = CHR 0x5C"
  by code_simp+

lemma quote_charI: "of_char c = (34 :: nat) \<Longrightarrow> c = CHR 0x22"
  using char_eqI [of c 34] by (simp only: char_of_special)

lemma backslash_charI: "of_char c = (92 :: nat) \<Longrightarrow> c = CHR 0x5C"
  using char_eqI [of c 92] by (simp only: char_of_special)

lemma unescape_json_char: "unescape (json_char html c @ r) = (c, r)"
proof -
  consider "c = CHR 0x22" | "c = CHR 0x5C" | "of_char c \<noteq> (34 :: nat)" "of_char c \<noteq> (92 :: nat)" "c \<noteq> CHR 0x5C"
    using quote_charI backslash_charI by blast
  then show ?thesis
    by cases (auto simp: json_char_def Let_def unescape_unicode char_eqI)
qed

lemma json_char_start: "json_char html c = d # r \<Longrightarrow> d \<noteq> CHR 0x22"
  by (auto simp: json_char_def Let_def unicode_escape_def split: if_splits)

lemma json_char_nonempty [simp]: "json_char html c \<noteq> []"
  by (auto simp: json_char_def Let_def unicode_escape_def)

lemma json_char_inj: "json_char html c @ r = json_char html d @ q \<Longrightarrow> c = d \<and> r = q"
  by (metis unescape_json_char prod.inject)

lemma json_string_inj:
  "concat (map (json_char html) s) @ CHR 0x22 # r = concat (map (json_char html) t) @ CHR 0x22 # q \<Longrightarrow> s = t \<and> r = q"
proof (induction s arbitrary: t)
  case Nil
  then show ?case
    by (cases t; cases "json_char html (hd t)") (auto dest: json_char_start)
next
  case (Cons c s)
  show ?case
  proof (cases t)
    case Nil
    then show ?thesis using Cons.prems by (cases "json_char html c") (auto dest: json_char_start)
  next
    case (Cons d u)
    then have "json_char html c @ concat (map (json_char html) s) @ CHR 0x22 # r = json_char html d @ concat (map (json_char html) u) @ CHR 0x22 # q"
      using Cons.prems by simp
    then show ?thesis using Cons json_char_inj Cons.IH by blast
  qed
qed

lemma json_string_append_inj: "json_string html s @ r = json_string html t @ q \<Longrightarrow> s = t \<and> r = q"
  using json_string_inj [of html s r t q] by (simp add: json_string_def)

text \<open>Values whose numbers are number literals, and what may follow a value.\<close>

definition num_char :: "char \<Rightarrow> bool" where
  "num_char c \<longleftrightarrow> c \<in> set ''0123456789+-.eE''"

fun wf_json :: "json \<Rightarrow> bool" where
  "wf_json (JNum n) = (n \<noteq> [] \<and> list_all num_char n)"
| "wf_json (JArr xs) = list_all wf_json xs"
| "wf_json (JObj fs) = list_all (\<lambda>(k, v). wf_json v) fs"
| "wf_json v = True"

definition follow :: "string \<Rightarrow> bool" where
  "follow r \<longleftrightarrow> r = [] \<or> hd r \<in> set '',]}''"

lemma follow_simps [simp]: "follow []" "follow (CHR '','' # r)" "follow (CHR '']'' # r)" "follow (CHR ''}'' # r)"
  by (simp_all add: follow_def)

lemma follow_not_num: "follow (c # r) \<Longrightarrow> \<not> num_char c"
  by (auto simp: follow_def num_char_def)

lemma takeWhile_num: "list_all num_char n \<Longrightarrow> follow r \<Longrightarrow> takeWhile num_char (n @ r) = n"
  using follow_not_num by (induction n) (cases r; auto)+

lemma num_inj:
  assumes "list_all num_char n" "list_all num_char m" "follow r" "follow q" "n @ r = m @ q"
  shows "n = m \<and> r = q"
  using assms(5) takeWhile_num [OF assms(1,3)] takeWhile_num [OF assms(2,4)] by simp

fun shape :: "json \<Rightarrow> nat" where
  "shape JNull = 0"
| "shape (JBool b) = 1"
| "shape (JNum n) = 2"
| "shape (JStr s) = 3"
| "shape (JArr xs) = 4"
| "shape (JObj fs) = 5"

lemma json_start:
  "wf_json v \<Longrightarrow> \<exists>c r. json_encode html v = c # r
     \<and> (shape v = 0 \<and> c = CHR ''n'' \<or> shape v = 1 \<and> c \<in> {CHR ''t'', CHR ''f''} \<or> shape v = 2 \<and> num_char c
        \<or> shape v = 3 \<and> c = CHR 0x22 \<or> shape v = 4 \<and> c = CHR ''['' \<or> shape v = 5 \<and> c = CHR ''{'')"
  by (cases v) (auto simp: json_string_def neq_Nil_conv)

lemma same_shape:
  assumes "wf_json v" "wf_json w" "json_encode html v @ r = json_encode html w @ q"
  shows "shape v = shape w"
  using json_start [OF assms(1), of html] json_start [OF assms(2), of html] assms(3) by (auto simp: num_char_def)

lemma not_bracket: "wf_json v \<Longrightarrow> json_encode html v @ r \<noteq> CHR '']'' # q"
  using json_start [of v html] by (auto simp: num_char_def)

lemma json_elements_Cons: "json_elements html (x # xs) @ r = json_encode html x @ (if xs = [] then r else CHR '','' # json_elements html xs @ r)"
  by (cases xs) auto

lemma not_bracket_elements: "wf_json y \<Longrightarrow> json_elements html (y # zs) @ s \<noteq> CHR '']'' # q"
  by (simp add: json_elements_Cons not_bracket)

lemma json_fields_Cons:
  "json_fields html ((k, v) # fs) @ r = json_string html k @ CHR '':'' # json_encode html v @ (if fs = [] then r else CHR '','' # json_fields html fs @ r)"
  by (cases fs) auto

lemma not_brace: "json_fields html ((k, v) # fs) @ r \<noteq> CHR ''}'' # q"
  by (simp add: json_fields_Cons json_string_def)

definition decodable :: "bool \<Rightarrow> json \<Rightarrow> bool" where
  "decodable html v \<longleftrightarrow> (\<forall>w r q. wf_json v \<longrightarrow> wf_json w \<longrightarrow> follow r \<longrightarrow> follow q \<longrightarrow>
     json_encode html v @ r = json_encode html w @ q \<longrightarrow> v = w \<and> r = q)"

lemma decodableD:
  "decodable html v \<Longrightarrow> wf_json v \<Longrightarrow> wf_json w \<Longrightarrow> follow r \<Longrightarrow> follow q \<Longrightarrow> json_encode html v @ r = json_encode html w @ q \<Longrightarrow>
   v = w \<and> r = q"
  by (simp add: decodable_def)

lemma json_elements_inj:
  "list_all (decodable html) xs \<Longrightarrow> list_all wf_json xs \<Longrightarrow> list_all wf_json ys \<Longrightarrow>
   json_elements html xs @ CHR '']'' # r = json_elements html ys @ CHR '']'' # q \<Longrightarrow> xs = ys \<and> r = q"
proof (induction xs arbitrary: ys)
  case Nil
  then show ?case
    using not_bracket_elements [of "hd ys" html "tl ys" "CHR '']'' # q" r] by (cases ys) (simp_all add: eq_commute)
next
  case (Cons x xs)
  then obtain y zs where ys: "ys = y # zs"
    using not_bracket_elements [of x html xs "CHR '']'' # r" q] by (cases ys) auto
  let ?R = "if xs = [] then CHR '']'' # r else CHR '','' # json_elements html xs @ CHR '']'' # r"
  let ?Q = "if zs = [] then CHR '']'' # q else CHR '','' # json_elements html zs @ CHR '']'' # q"
  have eq: "json_encode html x @ ?R = json_encode html y @ ?Q"
    using Cons.prems(4) ys by (simp only: json_elements_Cons)
  have x: "x = y \<and> ?R = ?Q"
    by (rule decodableD [OF _ _ _ _ _ eq]) (use Cons.prems ys in auto)
  then show ?case
  proof (cases "xs = [] \<or> zs = []")
    case False
    then have "json_elements html xs @ CHR '']'' # r = json_elements html zs @ CHR '']'' # q" using x by simp
    then show ?thesis using Cons.IH [of zs] Cons.prems(1-3) ys x by simp
  qed (use x ys in \<open>auto split: if_splits\<close>)
qed

lemma json_fields_inj:
  "list_all (\<lambda>(k, v). decodable html v) fs \<Longrightarrow> list_all (\<lambda>(k, v). wf_json v) fs \<Longrightarrow> list_all (\<lambda>(k, v). wf_json v) gs \<Longrightarrow>
   json_fields html fs @ CHR ''}'' # r = json_fields html gs @ CHR ''}'' # q \<Longrightarrow> fs = gs \<and> r = q"
proof (induction fs arbitrary: gs)
  case Nil
  then show ?case
    using not_brace [of html "fst (hd gs)" "snd (hd gs)" "tl gs" "CHR ''}'' # q" r] by (cases gs) (simp_all add: eq_commute)
next
  case (Cons f fs)
  obtain k v where f: "f = (k, v)" by fastforce
  then obtain l u hs where gs: "gs = (l, u) # hs"
    using Cons.prems(4) not_brace [of html k v fs "CHR ''}'' # r" q] by (cases gs) auto
  let ?R = "if fs = [] then CHR ''}'' # r else CHR '','' # json_fields html fs @ CHR ''}'' # r"
  let ?Q = "if hs = [] then CHR ''}'' # q else CHR '','' # json_fields html hs @ CHR ''}'' # q"
  have "json_string html k @ CHR '':'' # json_encode html v @ ?R = json_string html l @ CHR '':'' # json_encode html u @ ?Q"
    using Cons.prems(4) f gs by (simp only: json_fields_Cons)
  from json_string_append_inj [OF this] have k: "k = l" and eq: "json_encode html v @ ?R = json_encode html u @ ?Q" by simp_all
  have x: "v = u \<and> ?R = ?Q"
    by (rule decodableD [OF _ _ _ _ _ eq]) (use Cons.prems f gs in auto)
  then show ?case
  proof (cases "fs = [] \<or> hs = []")
    case False
    then have "json_fields html fs @ CHR ''}'' # r = json_fields html hs @ CHR ''}'' # q" using x by simp
    then show ?thesis using Cons.IH [of hs] Cons.prems(1-3) f gs x k by simp
  qed (use x k f gs in \<open>auto split: if_splits\<close>)
qed

lemma decodable_all: "decodable html v"
proof (induction v)
  case (JArr xs)
  then have xs: "list_all (decodable html) xs" by (simp add: list_all_iff)
  show ?case unfolding decodable_def
  proof (intro allI impI)
    fix w r q assume a: "wf_json (JArr xs)" "wf_json w" "json_encode html (JArr xs) @ r = json_encode html w @ q"
    then obtain ys where w: "w = JArr ys" using same_shape [OF a] by (cases w) auto
    then show "JArr xs = w \<and> r = q" using json_elements_inj [OF xs, of ys r q] a by simp
  qed
next
  case (JObj fs)
  then have fs: "list_all (\<lambda>(k, v). decodable html v) fs" by (force simp: list_all_iff)
  show ?case unfolding decodable_def
  proof (intro allI impI)
    fix w r q assume a: "wf_json (JObj fs)" "wf_json w" "json_encode html (JObj fs) @ r = json_encode html w @ q"
    then obtain gs where w: "w = JObj gs" using same_shape [OF a] by (cases w) auto
    then show "JObj fs = w \<and> r = q" using json_fields_inj [OF fs, of gs r q] a by simp
  qed
next
  case (JNum n)
  show ?case unfolding decodable_def
  proof (intro allI impI)
    fix w r q assume a: "wf_json (JNum n)" "wf_json w" "json_encode html (JNum n) @ r = json_encode html w @ q" "follow r" "follow q"
    then obtain m where w: "w = JNum m" using same_shape [OF a(1-3)] by (cases w) auto
    then show "JNum n = w \<and> r = q" using num_inj [of n m r q] a by simp
  qed
next
  case (JStr s)
  show ?case unfolding decodable_def
  proof (intro allI impI)
    fix w r q assume a: "wf_json (JStr s)" "wf_json w" "json_encode html (JStr s) @ r = json_encode html w @ q"
    then obtain t where w: "w = JStr t" using same_shape [OF a] by (cases w) auto
    then show "JStr s = w \<and> r = q" using json_string_append_inj [of html s r t q] a by simp
  qed
next
  case (JBool b)
  show ?case unfolding decodable_def
  proof (intro allI impI)
    fix w r q assume a: "wf_json (JBool b)" "wf_json w" "json_encode html (JBool b) @ r = json_encode html w @ q"
    then obtain c where w: "w = JBool c" using same_shape [OF a] by (cases w) auto
    then show "JBool b = w \<and> r = q" using a by (auto split: if_splits)
  qed
next
  case JNull
  show ?case unfolding decodable_def
  proof (intro allI impI)
    fix w r q assume a: "wf_json JNull" "wf_json w" "json_encode html JNull @ r = json_encode html w @ q"
    then have "w = JNull" using same_shape [OF a] by (cases w) auto
    then show "JNull = w \<and> r = q" using a by simp
  qed
qed

text \<open>The encoding is injective: signed bytes mean one value.\<close>

lemma json_encode_inj: "wf_json v \<Longrightarrow> wf_json w \<Longrightarrow> json_encode html v = json_encode html w \<Longrightarrow> v = w"
  using decodableD [OF decodable_all, of v w "[]" "[]"] by simp

lemma num_char_digits: "list_all (\<lambda>n. num_char (digit_char n)) [0..9]"
  by code_simp

lemma num_char_digit: "0 \<le> n \<Longrightarrow> n < 10 \<Longrightarrow> num_char (digit_char n)"
  using num_char_digits by (simp add: list_all_iff del: upto.simps)

lemma digits_num_char: "0 \<le> n \<Longrightarrow> list_all num_char (digits n) \<and> digits n \<noteq> []"
proof (induction n rule: digits.induct)
  case (1 n)
  then show ?case using num_char_digit by (subst (1 2) digits.simps) auto
qed

lemma wf_json_int [simp]: "wf_json (json_int i)"
  using digits_num_char [of i] digits_num_char [of "- i"] by (auto simp: json_int_def int_dec_def num_char_def)

lemma hd_digits: "0 \<le> n \<Longrightarrow> (of_char (hd (digits n)) :: int) \<ge> 48"
proof (induction n rule: digits.induct)
  case (1 n)
  then show ?case
    using digits_num_char [of "n div 10"] by (subst digits.simps) (auto simp: of_digit_char)
qed

lemma int_dec_inject [simp]: "int_dec i = int_dec j \<longleftrightarrow> i = j"
proof
  assume eq: "int_dec i = int_dec j"
  have minus: "digits n \<noteq> CHR ''-'' # s" if "0 \<le> n" for n s
    using hd_digits [OF that] by auto
  show "i = j"
  proof (cases "(i < 0) = (j < 0)")
    case True
    then have "digits \<bar>i\<bar> = digits \<bar>j\<bar>" using eq by (auto simp: int_dec_def split: if_splits)
    then have "\<bar>i\<bar> = \<bar>j\<bar>" using dec_val_digits by (metis abs_ge_zero)
    then show ?thesis using True by linarith
  next
    case False
    then show ?thesis using eq minus by (auto simp: int_dec_def eq_commute split: if_splits)
  qed
qed simp

lemma json_int_inject [simp]: "json_int i = json_int j \<longleftrightarrow> i = j"
  by (simp add: json_int_def)

end
