(* ===== verification/Api_Meta.thy ===== *)
theory Api_Meta
  imports Go_Json Go_Time
begin

text \<open>
  What the API types share: the parts of the Kubernetes object metadata and status conditions that
  the source reads, and the condition types and reasons Kokumi reports
  (\<open>api/v1alpha1/condition.go\<close>). A pointer that may be nil is an option, a 32-bit count a word, a
  string-valued enumeration a datatype whose \<open>Unset\<close> constructor is the empty string, and a Go map
  the list of its entries.
\<close>

type_synonym int64 = "64 word"

section \<open>Kubernetes metadata\<close>

text \<open>An owner reference: the object it names, and whether that is the controller.\<close>

record owner_reference =
  ow_Kind :: string
  ow_Name :: string
  ow_UID :: string
  ow_Controller :: bool

record object_meta =
  om_Name :: string
  om_Namespace :: string
  om_UID :: string
  om_Generation :: int64
  om_CreationTimestamp :: time
  om_DeletionTimestamp :: "time option"
  om_Labels :: "(string \<times> string) list"
  om_Annotations :: "(string \<times> string) list"
  om_Finalizers :: "string list"
  om_OwnerReferences :: "owner_reference list"
  om_ResourceVersion :: string

type_synonym local_object_reference = string

text \<open>A Secret, its data and labels as maps.\<close>

record secret =
  sc_Name :: string
  sc_Namespace :: string
  sc_UID :: string
  sc_ResourceVersion :: string
  sc_Labels :: "string \<rightharpoonup> string"
  sc_Type :: string
  sc_Data :: "string \<rightharpoonup> string"

datatype selector_operator = SelectorIn | SelectorNotIn | SelectorExists | SelectorDoesNotExist

record selector_requirement =
  sr_Key :: string
  sr_Operator :: selector_operator
  sr_Values :: "string list"

record label_selector =
  ls_MatchLabels :: "(string \<times> string) list"
  ls_MatchExpressions :: "selector_requirement list"

datatype condition_status = ConditionTrue | ConditionFalse | ConditionUnknown

record condition =
  c_Type :: string
  c_Status :: condition_status
  c_ObservedGeneration :: int64
  c_LastTransitionTime :: time
  c_Reason :: string
  c_Message :: string

section \<open>Registry access\<close>

datatype RegistryOperation =
    RegistryOperationUnset
  | RegistryOperationPull
  | RegistryOperationPush

datatype RegistryClient =
    RegistryClientUnset
  | RegistryClientKokumi
  | RegistryClientArgoCD
  | RegistryClientKubelet

record RegistryAccess =
  RegistryAccess_URL :: string
  RegistryAccess_Operation :: RegistryOperation
  RegistryAccess_Client :: RegistryClient
  RegistryAccess_Registry :: string

section \<open>Condition types and reasons\<close>

definition ConditionTypeReady :: string where
  "ConditionTypeReady = ''Ready''"

definition ConditionTypeApproved :: string where
  "ConditionTypeApproved = ''Approved''"

definition ConditionTypeApprovalsSealed :: string where
  "ConditionTypeApprovalsSealed = ''ApprovalsSealed''"

definition ConditionTypeProvenanceAttached :: string where
  "ConditionTypeProvenanceAttached = ''ProvenanceAttached''"

definition ConditionTypeSigned :: string where
  "ConditionTypeSigned = ''Signed''"

definition ConditionTypeVerified :: string where
  "ConditionTypeVerified = ''Verified''"

definition ConditionTypeSourceVerified :: string where
  "ConditionTypeSourceVerified = ''SourceVerified''"

definition ConditionTypeSigningKeyReady :: string where
  "ConditionTypeSigningKeyReady = ''SigningKeyReady''"

definition ConditionTypeCounted :: string where
  "ConditionTypeCounted = ''Counted''"

definition ConditionTypeScanned :: string where
  "ConditionTypeScanned = ''Scanned''"

definition ConditionTypeChecksPassed :: string where
  "ConditionTypeChecksPassed = ''ChecksPassed''"

definition ConditionTypeUpstreamDeployed :: string where
  "ConditionTypeUpstreamDeployed = ''UpstreamDeployed''"

definition ReasonReady :: string where
  "ReasonReady = ''Ready''"

definition ReasonFailed :: string where
  "ReasonFailed = ''Failed''"

definition ReasonProcessing :: string where
  "ReasonProcessing = ''Processing''"

definition ReasonProcessingFailed :: string where
  "ReasonProcessingFailed = ''ProcessingFailed''"

definition ReasonPatchFailed :: string where
  "ReasonPatchFailed = ''PatchFailed''"

definition ReasonResolved :: string where
  "ReasonResolved = ''Resolved''"

definition ReasonVendored :: string where
  "ReasonVendored = ''Vendored''"

definition ReasonPending :: string where
  "ReasonPending = ''Pending''"

definition ReasonDeploying :: string where
  "ReasonDeploying = ''Deploying''"

definition ReasonDeployed :: string where
  "ReasonDeployed = ''Deployed''"

definition ReasonDeploymentFailed :: string where
  "ReasonDeploymentFailed = ''DeploymentFailed''"

definition ReasonProductNotFound :: string where
  "ReasonProductNotFound = ''ProductNotFound''"

definition ReasonProductNotReady :: string where
  "ReasonProductNotReady = ''ProductNotReady''"

definition ReasonProductDeleting :: string where
  "ReasonProductDeleting = ''ProductDeleting''"

definition ReasonInUse :: string where
  "ReasonInUse = ''InUse''"

definition ReasonImageNotResolved :: string where
  "ReasonImageNotResolved = ''ImageNotResolved''"

definition ReasonApproved :: string where
  "ReasonApproved = ''Approved''"

definition ReasonApprovalNotRequired :: string where
  "ReasonApprovalNotRequired = ''ApprovalNotRequired''"

definition ReasonAwaitingApprovals :: string where
  "ReasonAwaitingApprovals = ''AwaitingApprovals''"

definition ReasonChangesRequested :: string where
  "ReasonChangesRequested = ''ChangesRequested''"

definition ReasonSealingApprovals :: string where
  "ReasonSealingApprovals = ''SealingApprovals''"

definition ReasonSealed :: string where
  "ReasonSealed = ''Sealed''"

definition ReasonArchiving :: string where
  "ReasonArchiving = ''Archiving''"

definition ReasonArchiveFailed :: string where
  "ReasonArchiveFailed = ''ArchiveFailed''"

definition ReasonProvenanceAttached :: string where
  "ReasonProvenanceAttached = ''ProvenanceAttached''"

definition ReasonProvenanceAttachFailed :: string where
  "ReasonProvenanceAttachFailed = ''ProvenanceAttachFailed''"

definition ReasonAwaitingProvenance :: string where
  "ReasonAwaitingProvenance = ''AwaitingProvenance''"

definition ReasonCounted :: string where
  "ReasonCounted = ''Counted''"

definition ReasonSuperseded :: string where
  "ReasonSuperseded = ''Superseded''"

definition ReasonNotEligible :: string where
  "ReasonNotEligible = ''NotEligible''"

definition ReasonDigestMismatch :: string where
  "ReasonDigestMismatch = ''DigestMismatch''"

definition ReasonPreparationNotFound :: string where
  "ReasonPreparationNotFound = ''PreparationNotFound''"

definition ReasonSubmittedAfterSeal :: string where
  "ReasonSubmittedAfterSeal = ''SubmittedAfterSeal''"

definition ReasonSigned :: string where
  "ReasonSigned = ''Signed''"

definition ReasonSignFailed :: string where
  "ReasonSignFailed = ''SignFailed''"

definition ReasonSigningKeyNotReady :: string where
  "ReasonSigningKeyNotReady = ''SigningKeyNotReady''"

definition ReasonAwaitingSignature :: string where
  "ReasonAwaitingSignature = ''AwaitingSignature''"

definition ReasonSignaturesVerified :: string where
  "ReasonSignaturesVerified = ''SignaturesVerified''"

definition ReasonSignatureMissing :: string where
  "ReasonSignatureMissing = ''SignatureMissing''"

definition ReasonSignatureInvalid :: string where
  "ReasonSignatureInvalid = ''SignatureInvalid''"

definition ReasonKeyReady :: string where
  "ReasonKeyReady = ''KeyReady''"

definition ReasonKeyInvalid :: string where
  "ReasonKeyInvalid = ''KeyInvalid''"

definition ReasonKeyMissing :: string where
  "ReasonKeyMissing = ''KeyMissing''"

definition ReasonTrustedKeyInvalid :: string where
  "ReasonTrustedKeyInvalid = ''TrustedKeyInvalid''"

definition ReasonSucceeded :: string where
  "ReasonSucceeded = ''Succeeded''"

definition ReasonVerificationError :: string where
  "ReasonVerificationError = ''VerificationError''"

definition ReasonVerificationRequired :: string where
  "ReasonVerificationRequired = ''VerificationRequired''"

definition ReasonScanned :: string where
  "ReasonScanned = ''Scanned''"

definition ReasonScanFailed :: string where
  "ReasonScanFailed = ''ScanFailed''"

definition ReasonStale :: string where
  "ReasonStale = ''Stale''"

definition ReasonDatabaseStale :: string where
  "ReasonDatabaseStale = ''DatabaseStale''"

definition ReasonScannerUnavailable :: string where
  "ReasonScannerUnavailable = ''ScannerUnavailable''"

definition ReasonPassed :: string where
  "ReasonPassed = ''Passed''"

definition ReasonVulnerabilitiesFound :: string where
  "ReasonVulnerabilitiesFound = ''VulnerabilitiesFound''"

definition ReasonScanMissing :: string where
  "ReasonScanMissing = ''ScanMissing''"

definition ReasonScanStale :: string where
  "ReasonScanStale = ''ScanStale''"

definition ReasonVulnerabilitiesIncreased :: string where
  "ReasonVulnerabilitiesIncreased = ''VulnerabilitiesIncreased''"

definition ReasonSatisfied :: string where
  "ReasonSatisfied = ''Satisfied''"

definition ReasonNotDeployedUpstream :: string where
  "ReasonNotDeployedUpstream = ''NotDeployedUpstream''"

definition ReasonSoaking :: string where
  "ReasonSoaking = ''Soaking''"

definition ReasonInvalidPipeline :: string where
  "ReasonInvalidPipeline = ''InvalidPipeline''"

definition ReasonPipelineRequired :: string where
  "ReasonPipelineRequired = ''PipelineRequired''"

definition ReasonEnvironmentNotFound :: string where
  "ReasonEnvironmentNotFound = ''EnvironmentNotFound''"

definition ReasonArgoCDNotInstalled :: string where
  "ReasonArgoCDNotInstalled = ''ArgoCDNotInstalled''"

definition ReasonHealthy :: string where
  "ReasonHealthy = ''Healthy''"

definition ReasonProgressing :: string where
  "ReasonProgressing = ''Progressing''"

definition ReasonDegraded :: string where
  "ReasonDegraded = ''Degraded''"

definition ReasonOptInRequired :: string where
  "ReasonOptInRequired = ''OptInRequired''"

definition ReasonRegistryUnreachable :: string where
  "ReasonRegistryUnreachable = ''RegistryUnreachable''"

definition ReasonRejected :: string where
  "ReasonRejected = ''Rejected''"

definition ReasonClusterNotReady :: string where
  "ReasonClusterNotReady = ''ClusterNotReady''"

definition ReasonRegistryConnected :: string where
  "ReasonRegistryConnected = ''Connected''"

definition ReasonSecretNotFound :: string where
  "ReasonSecretNotFound = ''SecretNotFound''"

definition ReasonSecretInvalid :: string where
  "ReasonSecretInvalid = ''SecretInvalid''"

definition ReasonCertificateInvalid :: string where
  "ReasonCertificateInvalid = ''CertificateInvalid''"

definition ReasonUnauthorized :: string where
  "ReasonUnauthorized = ''Unauthorized''"

definition ReasonUnreachable :: string where
  "ReasonUnreachable = ''Unreachable''"

definition ReasonCredentialsRequired :: string where
  "ReasonCredentialsRequired = ''CredentialsRequired''"

definition ReasonRegistryNotFound :: string where
  "ReasonRegistryNotFound = ''RegistryNotFound''"

definition ReasonRegistryNotCovered :: string where
  "ReasonRegistryNotCovered = ''NotCovered''"

definition ReasonRepositoryListed :: string where
  "ReasonRepositoryListed = ''Listed''"

definition ReasonNoClusters :: string where
  "ReasonNoClusters = ''NoClusters''"

definition ReasonProjectNotFound :: string where
  "ReasonProjectNotFound = ''ProjectNotFound''"

definition ReasonProjectNotPermitted :: string where
  "ReasonProjectNotPermitted = ''ProjectNotPermitted''"

definition ReasonInvalidSelector :: string where
  "ReasonInvalidSelector = ''InvalidSelector''"

definition ReasonClusterConflict :: string where
  "ReasonClusterConflict = ''ClusterConflict''"

definition ReasonRegistrationFailed :: string where
  "ReasonRegistrationFailed = ''RegistrationFailed''"

lemmas condition_types =
  ConditionTypeReady_def
  ConditionTypeApproved_def
  ConditionTypeApprovalsSealed_def
  ConditionTypeProvenanceAttached_def
  ConditionTypeSigned_def
  ConditionTypeVerified_def
  ConditionTypeSourceVerified_def
  ConditionTypeSigningKeyReady_def
  ConditionTypeCounted_def
  ConditionTypeScanned_def
  ConditionTypeChecksPassed_def
  ConditionTypeUpstreamDeployed_def

lemmas reasons =
  ReasonReady_def
  ReasonFailed_def
  ReasonProcessing_def
  ReasonProcessingFailed_def
  ReasonPatchFailed_def
  ReasonResolved_def
  ReasonVendored_def
  ReasonPending_def
  ReasonDeploying_def
  ReasonDeployed_def
  ReasonDeploymentFailed_def
  ReasonProductNotFound_def
  ReasonProductNotReady_def
  ReasonProductDeleting_def
  ReasonInUse_def
  ReasonImageNotResolved_def
  ReasonApproved_def
  ReasonApprovalNotRequired_def
  ReasonAwaitingApprovals_def
  ReasonChangesRequested_def
  ReasonSealingApprovals_def
  ReasonSealed_def
  ReasonArchiving_def
  ReasonArchiveFailed_def
  ReasonProvenanceAttached_def
  ReasonProvenanceAttachFailed_def
  ReasonAwaitingProvenance_def
  ReasonCounted_def
  ReasonSuperseded_def
  ReasonNotEligible_def
  ReasonDigestMismatch_def
  ReasonPreparationNotFound_def
  ReasonSubmittedAfterSeal_def
  ReasonSigned_def
  ReasonSignFailed_def
  ReasonSigningKeyNotReady_def
  ReasonAwaitingSignature_def
  ReasonSignaturesVerified_def
  ReasonSignatureMissing_def
  ReasonSignatureInvalid_def
  ReasonKeyReady_def
  ReasonKeyInvalid_def
  ReasonKeyMissing_def
  ReasonTrustedKeyInvalid_def
  ReasonSucceeded_def
  ReasonVerificationError_def
  ReasonVerificationRequired_def
  ReasonScanned_def
  ReasonScanFailed_def
  ReasonStale_def
  ReasonDatabaseStale_def
  ReasonScannerUnavailable_def
  ReasonPassed_def
  ReasonVulnerabilitiesFound_def
  ReasonScanMissing_def
  ReasonScanStale_def
  ReasonVulnerabilitiesIncreased_def
  ReasonSatisfied_def
  ReasonNotDeployedUpstream_def
  ReasonSoaking_def
  ReasonInvalidPipeline_def
  ReasonPipelineRequired_def
  ReasonEnvironmentNotFound_def
  ReasonArgoCDNotInstalled_def
  ReasonHealthy_def
  ReasonProgressing_def
  ReasonDegraded_def
  ReasonOptInRequired_def
  ReasonRegistryUnreachable_def
  ReasonRejected_def
  ReasonClusterNotReady_def
  ReasonRegistryConnected_def
  ReasonSecretNotFound_def
  ReasonSecretInvalid_def
  ReasonCertificateInvalid_def
  ReasonUnauthorized_def
  ReasonUnreachable_def
  ReasonCredentialsRequired_def
  ReasonRegistryNotFound_def
  ReasonRegistryNotCovered_def
  ReasonRepositoryListed_def
  ReasonNoClusters_def
  ReasonProjectNotFound_def
  ReasonProjectNotPermitted_def
  ReasonInvalidSelector_def
  ReasonClusterConflict_def
  ReasonRegistrationFailed_def

end
