(* ===== verification/Api_Order.thy ===== *)
theory Api_Order
  imports Api_Meta
begin

text \<open>
  Orders (\<open>api/v1alpha1/order_types.go\<close>): what a user asks for, how it is promoted, and the gates it is promoted under.
\<close>

datatype VerificationProvider =
    VerificationProviderUnset
  | VerificationProviderCosign

record OIDCIdentityMatch =
  OIDCIdentityMatch_Issuer :: string
  OIDCIdentityMatch_Subject :: string

record OCISourceVerification =
  OCISourceVerification_Provider :: VerificationProvider
  OCISourceVerification_SecretRef :: "local_object_reference option"
  OCISourceVerification_MatchOIDCIdentity :: "OIDCIdentityMatch list"
  OCISourceVerification_TrustedRootSecretRef :: "local_object_reference option"

record OCISource =
  OCISource_URL :: string
  OCISource_Version :: string
  OCISource_Verify :: "OCISourceVerification option"

record HelmRender =
  HelmRender_ReleaseName :: string
  HelmRender_IncludeCRDs :: bool
  HelmRender_Values :: "json option"

datatype FileLayout =
    FileLayoutUnset
  | FileLayoutSingle
  | FileLayoutMulti

record ManifestRender =
  ManifestRender_Layout :: FileLayout

record Render =
  Render_Helm :: "HelmRender option"
  Render_Manifest :: "ManifestRender option"

record OCIDestination =
  OCIDestination_URL :: string

record PatchTarget =
  PatchTarget_Kind :: string
  PatchTarget_Name :: string
  PatchTarget_Namespace :: string

record Patch =
  Patch_Target :: PatchTarget
  Patch_Set :: "(string \<times> string) list"

record ProductRef =
  ProductRef_Name :: string

datatype PromotionMode =
    PromotionModeUnset
  | PromotionModeAutomatic
  | PromotionModeManual

record ApprovalPolicy =
  ApprovalPolicy_RequiredApprovals :: int32
  ApprovalPolicy_AllowedGroups :: "string list"

record UpstreamStage =
  UpstreamStage_Order :: string
  UpstreamStage_SoakSeconds :: int32

datatype Severity =
    SeverityUnset
  | SeverityCritical
  | SeverityHigh
  | SeverityMedium
  | SeverityLow

record VulnerabilityCheck =
  VulnerabilityCheck_MaxSeverity :: Severity
  VulnerabilityCheck_IgnoreUnfixed :: bool
  VulnerabilityCheck_MaxAgeSeconds :: int32

record PromotionChecks =
  PromotionChecks_Vulnerabilities :: "VulnerabilityCheck option"

record PromotionSpec =
  PromotionSpec_Mode :: PromotionMode
  PromotionSpec_Approvals :: "ApprovalPolicy option"
  PromotionSpec_After :: "UpstreamStage list"
  PromotionSpec_Checks :: "PromotionChecks option"

record EnvironmentRef =
  EnvironmentRef_Name :: string

record OrderSpec =
  OrderSpec_ProductRef :: ProductRef
  OrderSpec_Values :: "json option"
  OrderSpec_Destination :: "OCIDestination option"
  OrderSpec_RegistryRefs :: "local_object_reference list"
  OrderSpec_Patches :: "Patch list"
  OrderSpec_Edits :: "Patch list"
  OrderSpec_Promotion :: "PromotionSpec option"
  OrderSpec_EnvironmentRef :: EnvironmentRef
  OrderSpec_TargetNamespace :: string

record PromotionGates =
  PromotionGates_Approvals :: "ApprovalPolicy option"
  PromotionGates_After :: "UpstreamStage list"
  PromotionGates_Checks :: "PromotionChecks option"

record OrderRender =
  OrderRender_ConfigHash :: string

record OrderStatus =
  OrderStatus_ObservedGeneration :: int64
  OrderStatus_LatestPreparationName :: string
  OrderStatus_LatestArtifactDigest :: string
  OrderStatus_LatestConfigHash :: string
  OrderStatus_Render :: "OrderRender option"
  OrderStatus_RegistryAccess :: "RegistryAccess list"
  OrderStatus_Conditions :: "condition list"

record Order =
  Order_ObjectMeta :: object_meta
  Order_Spec :: OrderSpec
  Order_Status :: OrderStatus

section \<open>Methods of Order\<close>

definition EffectivePromotionMode :: "Order \<Rightarrow> PromotionMode" where
  "EffectivePromotionMode o1 =
     (case OrderSpec_Promotion (Order_Spec o1) of
        None \<Rightarrow> PromotionModeManual
      | Some p \<Rightarrow> if PromotionSpec_Mode p = PromotionModeUnset then PromotionModeManual else PromotionSpec_Mode p)"

definition Order_ApprovalPolicy :: "Order \<Rightarrow> ApprovalPolicy option" where
  "Order_ApprovalPolicy o1 =
     (case OrderSpec_Promotion (Order_Spec o1) of None \<Rightarrow> None | Some p \<Rightarrow> PromotionSpec_Approvals p)"

definition Order_PromotionChecks :: "Order \<Rightarrow> PromotionChecks option" where
  "Order_PromotionChecks o1 =
     (case OrderSpec_Promotion (Order_Spec o1) of None \<Rightarrow> None | Some p \<Rightarrow> PromotionSpec_Checks p)"

definition Order_UpstreamStages :: "Order \<Rightarrow> UpstreamStage list" where
  "Order_UpstreamStages o1 =
     (case OrderSpec_Promotion (Order_Spec o1) of None \<Rightarrow> [] | Some p \<Rightarrow> PromotionSpec_After p)"

definition Order_PromotionGates :: "Order \<Rightarrow> PromotionGates option" where
  "Order_PromotionGates o1 =
     (let approvals = Order_ApprovalPolicy o1; after = Order_UpstreamStages o1; checks = Order_PromotionChecks o1 in
      if approvals = None \<and> after = [] \<and> checks = None then None
      else Some \<lparr>PromotionGates_Approvals = approvals,
             PromotionGates_After = sort_cmp (\<lambda>a b. str_compare (UpstreamStage_Order a) (UpstreamStage_Order b)) after,
             PromotionGates_Checks = checks\<rparr>)"

definition Order_GetConditions :: "Order \<Rightarrow> condition list" where
  "Order_GetConditions o1 = OrderStatus_Conditions (Order_Status o1)"

definition Order_SetConditions :: "condition list \<Rightarrow> Order \<Rightarrow> Order" where
  "Order_SetConditions conditions o1 = o1\<lparr>Order_Status := Order_Status o1\<lparr>OrderStatus_Conditions := conditions\<rparr>\<rparr>"

end
