(* ===== verification/Api_Preparation.thy ===== *)
theory Api_Preparation
  imports Api_Order
begin

text \<open>
  Preparations and the Approvals cast on them (\<open>api/v1alpha1/preparation_types.go\<close>, \<open>approval_types.go\<close>).
\<close>

record OrderSource =
  OrderSource_URL :: string
  OrderSource_BaseDigest :: string

datatype RenderType =
    RenderTypeUnset
  | RenderTypeManifest
  | RenderTypeHelm

record Renderer =
  Renderer_Type :: RenderType
  Renderer_Version :: string
  Renderer_Builder :: string

record Artifact =
  Artifact_OCIRef :: string
  Artifact_Digest :: string
  Artifact_RegistryRef :: "local_object_reference option"

record GitSource =
  GitSource_Repo :: string
  GitSource_Tag :: string
  GitSource_CommitHash :: string

record PreparationImage =
  PreparationImage_Ref :: string
  PreparationImage_Name :: string
  PreparationImage_Digest :: string
  PreparationImage_MediaType :: string
  PreparationImage_Vendored :: string

record PreparationSpec =
  PreparationSpec_OrderName :: string
  PreparationSpec_Source :: OrderSource
  PreparationSpec_Renderer :: Renderer
  PreparationSpec_TargetNamespace :: string
  PreparationSpec_ConfigHash :: string
  PreparationSpec_Artifact :: Artifact
  PreparationSpec_CommitMessage :: string
  PreparationSpec_ParentDigest :: string
  PreparationSpec_GitSource :: GitSource
  PreparationSpec_ProductRevision :: string
  PreparationSpec_Promotion :: "PromotionGates option"
  PreparationSpec_Images :: "PreparationImage list"

datatype ApprovalDecision =
    ApprovalDecisionUnset
  | ApprovalDecisionApprove
  | ApprovalDecisionReject

datatype VoteResult =
    VoteResultUnset
  | VoteResultCounted
  | VoteResultNotEligible

record ApprovalVote =
  ApprovalVote_ApprovalName :: string
  ApprovalVote_Issuer :: string
  ApprovalVote_Subject :: string
  ApprovalVote_Username :: string
  ApprovalVote_Decision :: ApprovalDecision
  ApprovalVote_Result :: VoteResult
  ApprovalVote_SubmittedTime :: time

record ApprovalAttestation =
  ApprovalAttestation_OCIRef :: string
  ApprovalAttestation_Digest :: string

record PreparationApprovalStatus =
  PreparationApprovalStatus_RequiredApprovals :: int32
  PreparationApprovalStatus_ApprovedCount :: int32
  PreparationApprovalStatus_RejectedCount :: int32
  PreparationApprovalStatus_IneligibleCount :: int32
  PreparationApprovalStatus_SubmissionCount :: int32
  PreparationApprovalStatus_Votes :: "ApprovalVote list"
  PreparationApprovalStatus_SealedTime :: "time option"
  PreparationApprovalStatus_Attestation :: "ApprovalAttestation option"

datatype AttestationType =
    AttestationTypeUnset
  | AttestationTypeSignature
  | AttestationTypeProvenance

record AttestationReference =
  AttestationReference_Type :: AttestationType
  AttestationReference_OCIRef :: string
  AttestationReference_Digest :: string

record PreparationStatus =
  PreparationStatus_ObservedGeneration :: int64
  PreparationStatus_Conditions :: "condition list"
  PreparationStatus_Attestations :: "AttestationReference list"
  PreparationStatus_Approval :: "PreparationApprovalStatus option"

record Preparation =
  Preparation_ObjectMeta :: object_meta
  Preparation_Spec :: PreparationSpec
  Preparation_Status :: PreparationStatus

record Approver =
  Approver_Issuer :: string
  Approver_Subject :: string
  Approver_Username :: string
  Approver_Email :: string
  Approver_Groups :: "string list"

record ApprovalPreparationReference =
  ApprovalPreparationReference_Name :: string
  ApprovalPreparationReference_UID :: string
  ApprovalPreparationReference_ArtifactDigest :: string

record ApprovalSpec =
  ApprovalSpec_OrderName :: string
  ApprovalSpec_PreparationRef :: ApprovalPreparationReference
  ApprovalSpec_Approver :: Approver
  ApprovalSpec_Decision :: ApprovalDecision
  ApprovalSpec_Comment :: string
  ApprovalSpec_SubmittedTime :: time

record ApprovalStatus =
  ApprovalStatus_ObservedGeneration :: int64
  ApprovalStatus_Conditions :: "condition list"

record Approval =
  Approval_ObjectMeta :: object_meta
  Approval_Spec :: ApprovalSpec
  Approval_Status :: ApprovalStatus

section \<open>Methods of Preparation and Approval\<close>

definition Preparation_ApprovalPolicy :: "Preparation \<Rightarrow> ApprovalPolicy option" where
  "Preparation_ApprovalPolicy p =
     (case PreparationSpec_Promotion (Preparation_Spec p) of None \<Rightarrow> None | Some g \<Rightarrow> PromotionGates_Approvals g)"

definition Preparation_UpstreamStages :: "Preparation \<Rightarrow> UpstreamStage list" where
  "Preparation_UpstreamStages p =
     (case PreparationSpec_Promotion (Preparation_Spec p) of None \<Rightarrow> [] | Some g \<Rightarrow> PromotionGates_After g)"

definition Preparation_PromotionChecks :: "Preparation \<Rightarrow> PromotionChecks option" where
  "Preparation_PromotionChecks p =
     (case PreparationSpec_Promotion (Preparation_Spec p) of None \<Rightarrow> None | Some g \<Rightarrow> PromotionGates_Checks g)"

definition Preparation_GetConditions :: "Preparation \<Rightarrow> condition list" where
  "Preparation_GetConditions o1 = PreparationStatus_Conditions (Preparation_Status o1)"

definition Preparation_SetConditions :: "condition list \<Rightarrow> Preparation \<Rightarrow> Preparation" where
  "Preparation_SetConditions conditions o1 = o1\<lparr>Preparation_Status := Preparation_Status o1\<lparr>PreparationStatus_Conditions := conditions\<rparr>\<rparr>"

definition Approval_GetConditions :: "Approval \<Rightarrow> condition list" where
  "Approval_GetConditions o1 = ApprovalStatus_Conditions (Approval_Status o1)"

definition Approval_SetConditions :: "condition list \<Rightarrow> Approval \<Rightarrow> Approval" where
  "Approval_SetConditions conditions o1 = o1\<lparr>Approval_Status := Approval_Status o1\<lparr>ApprovalStatus_Conditions := conditions\<rparr>\<rparr>"

end
