(* ===== verification/Approval.thy ===== *)
theory Approval
  imports Api_Preparation
begin

text \<open>
  The approval gate of a Preparation (\<open>internal/approval/evaluate.go\<close>, \<open>gate.go\<close>): which votes count,
  when the Preparation is approved, and what sealing its votes fixes. The verdicts on the Approvals
  are a map from their names, as in the code.
\<close>

section \<open>Votes\<close>

definition MaxApprovers :: nat where
  "MaxApprovers = 64"

record approval_verdict =
  av_Counted :: bool
  av_Reason :: string
  av_Message :: string

type_synonym verdicts = "string \<rightharpoonup> approval_verdict"

record approval_result =
  ar_Required :: bool
  ar_Approved :: bool
  ar_Reason :: string
  ar_Message :: string
  ar_Status :: "PreparationApprovalStatus option"
  ar_Verdicts :: verdicts

abbreviation approval_name :: "Approval \<Rightarrow> string" where
  "approval_name a \<equiv> om_Name (Approval_ObjectMeta a)"

abbreviation approver :: "Approval \<Rightarrow> Approver" where
  "approver a \<equiv> ApprovalSpec_Approver (Approval_Spec a)"

definition approverKey :: "string \<Rightarrow> string \<Rightarrow> string" where
  "approverKey issuer subject = issuer @ [CHR 0x00] @ subject"

definition key_of :: "Approval \<Rightarrow> string" where
  "key_of a = approverKey (Approver_Issuer (approver a)) (Approver_Subject (approver a))"

definition eligible :: "ApprovalPolicy \<Rightarrow> string list \<Rightarrow> bool" where
  "eligible policy groups = list_ex (\<lambda>g. g \<in> set (ApprovalPolicy_AllowedGroups policy)) groups"

definition displayName :: "ApprovalVote \<Rightarrow> string" where
  "displayName v = (if ApprovalVote_Username v \<noteq> [] then ApprovalVote_Username v else ApprovalVote_Subject v)"

definition compareApprovals :: "Approval \<Rightarrow> Approval \<Rightarrow> int" where
  "compareApprovals a b =
     (let c = ord_compare (om_CreationTimestamp (Approval_ObjectMeta a)) (om_CreationTimestamp (Approval_ObjectMeta b)) in
      if c \<noteq> 0 then c
      else let c = ord_compare (ApprovalSpec_SubmittedTime (Approval_Spec a)) (ApprovalSpec_SubmittedTime (Approval_Spec b)) in
        if c \<noteq> 0 then c else str_compare (approval_name a) (approval_name b))"

section \<open>Votes that are open\<close>

record open_state =
  w_latest :: "string \<rightharpoonup> Approval"
  w_order :: "string list"
  w_verdicts :: verdicts

definition open_turn :: "open_state \<Rightarrow> Approval \<Rightarrow> open_state" where
  "open_turn st a =
     (let key = key_of a;
          st = (case w_latest st key of
             Some prev \<Rightarrow> st\<lparr>w_verdicts := (w_verdicts st)(approval_name prev \<mapsto>
                \<lparr>av_Counted = False, av_Reason = ReasonSuperseded, av_Message = ''Superseded by '' @ approval_name a\<rparr>)\<rparr>
           | None \<Rightarrow> st\<lparr>w_order := w_order st @ [key]\<rparr>)
      in st\<lparr>w_latest := (w_latest st)(key \<mapsto> a)\<rparr>)"

definition vote_result :: "ApprovalPolicy \<Rightarrow> Approval \<Rightarrow> VoteResult" where
  "vote_result policy a =
     (if eligible policy (Approver_Groups (approver a)) then VoteResultCounted else VoteResultNotEligible)"

definition vote_verdict :: "ApprovalPolicy \<Rightarrow> Approval \<Rightarrow> approval_verdict" where
  "vote_verdict policy a =
     (if eligible policy (Approver_Groups (approver a))
      then \<lparr>av_Counted = True, av_Reason = ReasonCounted, av_Message = ''The vote counts towards the approval gate''\<rparr>
      else \<lparr>av_Counted = False, av_Reason = ReasonNotEligible, av_Message = ''The approver is not a member of any allowed group''\<rparr>)"

definition vote_of :: "ApprovalPolicy \<Rightarrow> Approval \<Rightarrow> ApprovalVote" where
  "vote_of policy a =
     \<lparr>ApprovalVote_ApprovalName = approval_name a, ApprovalVote_Issuer = Approver_Issuer (approver a),
      ApprovalVote_Subject = Approver_Subject (approver a), ApprovalVote_Username = Approver_Username (approver a),
      ApprovalVote_Decision = ApprovalSpec_Decision (Approval_Spec a), ApprovalVote_Result = vote_result policy a,
      ApprovalVote_SubmittedTime = ApprovalSpec_SubmittedTime (Approval_Spec a)\<rparr>"

definition cast_vote :: "ApprovalPolicy \<Rightarrow> (string \<rightharpoonup> Approval) \<Rightarrow> ApprovalVote list \<times> verdicts \<Rightarrow> string \<Rightarrow> ApprovalVote list \<times> verdicts" where
  "cast_vote policy latest acc key =
     (case acc of (votes, verdicts) \<Rightarrow>
      let a = the (latest key) in
      (votes @ [vote_of policy a], verdicts(approval_name a \<mapsto> vote_verdict policy a)))"

definition evaluateOpen :: "ApprovalPolicy \<Rightarrow> Approval list \<Rightarrow> verdicts \<Rightarrow> ApprovalVote list \<times> verdicts" where
  "evaluateOpen policy ordered verdicts =
     (let st = foldl open_turn \<lparr>w_latest = Map.empty, w_order = [], w_verdicts = verdicts\<rparr> ordered;
          (votes, verdicts) = foldl (cast_vote policy (w_latest st)) ([], w_verdicts st) (w_order st)
      in (if length votes > MaxApprovers then take MaxApprovers votes else votes, verdicts))"

section \<open>Votes that are sealed\<close>

definition sealed_by_name :: "ApprovalVote list \<Rightarrow> string \<rightharpoonup> ApprovalVote" where
  "sealed_by_name votes = foldl (\<lambda>m v. m(ApprovalVote_ApprovalName v \<mapsto> v)) Map.empty votes"

definition sealed_by_key :: "ApprovalVote list \<Rightarrow> Approval list \<Rightarrow> string \<rightharpoonup> Approval" where
  "sealed_by_key votes ordered =
     foldl (\<lambda>m a. case sealed_by_name votes (approval_name a) of Some _ \<Rightarrow> m(key_of a \<mapsto> a) | None \<Rightarrow> m) Map.empty ordered"

definition sealed_verdict :: "ApprovalVote list \<Rightarrow> Approval list \<Rightarrow> Approval \<Rightarrow> approval_verdict" where
  "sealed_verdict votes ordered a =
     (case sealed_by_name votes (approval_name a) of
        Some v \<Rightarrow>
          if ApprovalVote_Result v = VoteResultCounted
          then \<lparr>av_Counted = True, av_Reason = ReasonCounted, av_Message = ''The vote is part of the sealed approvals''\<rparr>
          else \<lparr>av_Counted = False, av_Reason = ReasonNotEligible, av_Message = ''The approver is not a member of any allowed group''\<rparr>
      | None \<Rightarrow>
          let late = \<lparr>av_Counted = False, av_Reason = ReasonSubmittedAfterSeal,
                av_Message = ''The vote was submitted after the approvals were sealed and is ignored''\<rparr> in
          (case sealed_by_key votes ordered (key_of a) of
             Some s \<Rightarrow> if compareApprovals a s < 0
               then \<lparr>av_Counted = False, av_Reason = ReasonSuperseded, av_Message = ''Superseded by '' @ approval_name s\<rparr>
               else late
           | None \<Rightarrow> late))"

definition evaluateSealed :: "Approval list \<Rightarrow> ApprovalVote list \<Rightarrow> verdicts \<Rightarrow> verdicts" where
  "evaluateSealed ordered votes verdicts =
     foldl (\<lambda>m a. m(approval_name a \<mapsto> sealed_verdict votes ordered a)) verdicts ordered"

definition sealedStatus :: "Preparation \<Rightarrow> PreparationApprovalStatus option" where
  "sealedStatus prep =
     (case PreparationStatus_Approval (Preparation_Status prep) of
        None \<Rightarrow> None
      | Some s \<Rightarrow> if PreparationApprovalStatus_SealedTime s = None then None else Some s)"

definition IsSealed :: "Preparation \<Rightarrow> bool" where
  "IsSealed prep = (sealedStatus prep \<noteq> None)"

section \<open>The gate\<close>

definition matches :: "Preparation \<Rightarrow> Approval \<Rightarrow> bool" where
  "matches prep a =
     (let ref = ApprovalSpec_PreparationRef (Approval_Spec a) in
      \<not> (ApprovalPreparationReference_UID ref \<noteq> om_UID (Preparation_ObjectMeta prep)
       \<or> ApprovalPreparationReference_ArtifactDigest ref \<noteq> Artifact_Digest (PreparationSpec_Artifact (Preparation_Spec prep))))"

definition mismatch_verdict :: approval_verdict where
  "mismatch_verdict = \<lparr>av_Counted = False, av_Reason = ReasonDigestMismatch,
     av_Message = ''The vote was cast for a different Preparation object or artifact digest''\<rparr>"

text \<open>The counts of the votes, and who approved and rejected.\<close>

record tally =
  t_Approved :: int32
  t_Rejected :: int32
  t_Ineligible :: int32
  t_approvedBy :: "string list"
  t_rejectedBy :: "string list"

definition count_vote :: "tally \<Rightarrow> ApprovalVote \<Rightarrow> tally" where
  "count_vote t v =
     (if ApprovalVote_Result v \<noteq> VoteResultCounted then t\<lparr>t_Ineligible := t_Ineligible t + 1\<rparr>
      else case ApprovalVote_Decision v of
        ApprovalDecisionApprove \<Rightarrow> t\<lparr>t_Approved := t_Approved t + 1, t_approvedBy := t_approvedBy t @ [displayName v]\<rparr>
      | ApprovalDecisionReject \<Rightarrow> t\<lparr>t_Rejected := t_Rejected t + 1, t_rejectedBy := t_rejectedBy t @ [displayName v]\<rparr>
      | ApprovalDecisionUnset \<Rightarrow> t)"

definition tally_votes :: "ApprovalVote list \<Rightarrow> tally" where
  "tally_votes votes = foldl count_vote \<lparr>t_Approved = 0, t_Rejected = 0, t_Ineligible = 0, t_approvedBy = [], t_rejectedBy = []\<rparr> votes"

definition submission_count :: "Approval list \<Rightarrow> int32" where
  "submission_count approvals = of_nat (min (length approvals) 2147483647)"

definition decide :: "ApprovalPolicy \<Rightarrow> tally \<Rightarrow> bool \<times> string \<times> string" where
  "decide policy t =
     (let count = int_dec (sint (t_Approved t)); required = int_dec (sint (ApprovalPolicy_RequiredApprovals policy)) in
      if sint (t_Rejected t) > 0
      then (False, ReasonChangesRequested, ''Changes requested by '' @ str_join '', '' (t_rejectedBy t))
      else if sint (t_Approved t) \<ge> sint (ApprovalPolicy_RequiredApprovals policy)
      then (True, ReasonApproved, count @ '' of '' @ required @ '' required approvals: approved by '' @ str_join '', '' (t_approvedBy t))
      else (False, ReasonAwaitingApprovals, count @ '' of '' @ required @ '' required approvals''))"

definition not_required :: "Approval list \<Rightarrow> approval_result" where
  "not_required approvals =
     \<lparr>ar_Required = False, ar_Approved = True, ar_Reason = ReasonApprovalNotRequired,
      ar_Message = ''No approval policy applies to this Preparation'', ar_Status = None,
      ar_Verdicts = foldl (\<lambda>m a. m(approval_name a \<mapsto> \<lparr>av_Counted = False, av_Reason = ReasonApprovalNotRequired,
        av_Message = ''The Preparation has no approval policy''\<rparr>)) Map.empty approvals\<rparr>"

definition approval_votes :: "Preparation \<Rightarrow> ApprovalPolicy \<Rightarrow> Approval list \<Rightarrow> ApprovalVote list \<times> verdicts" where
  "approval_votes prep policy approvals =
     (let mismatched = foldl (\<lambda>m a. if matches prep a then m else m(approval_name a \<mapsto> mismatch_verdict)) Map.empty approvals;
          ordered = sort_cmp compareApprovals (filter (matches prep) approvals)
      in case sealedStatus prep of
           Some s \<Rightarrow> (PreparationApprovalStatus_Votes s, evaluateSealed ordered (PreparationApprovalStatus_Votes s) mismatched)
         | None \<Rightarrow> evaluateOpen policy ordered mismatched)"

definition approval_Evaluate :: "Preparation \<Rightarrow> Approval list \<Rightarrow> approval_result" where
  "approval_Evaluate prep approvals =
     (case Preparation_ApprovalPolicy prep of
        None \<Rightarrow> not_required approvals
      | Some policy \<Rightarrow>
         (case approval_votes prep policy approvals of (votes, verdicts) \<Rightarrow>
          let t = tally_votes votes;
              (approved, reason, message) = decide policy t
          in \<lparr>ar_Required = True, ar_Approved = approved, ar_Reason = reason, ar_Message = message,
              ar_Status = Some
                \<lparr>PreparationApprovalStatus_RequiredApprovals = ApprovalPolicy_RequiredApprovals policy,
                 PreparationApprovalStatus_ApprovedCount = t_Approved t,
                 PreparationApprovalStatus_RejectedCount = t_Rejected t,
                 PreparationApprovalStatus_IneligibleCount = t_Ineligible t,
                 PreparationApprovalStatus_SubmissionCount = submission_count approvals,
                 PreparationApprovalStatus_Votes = votes,
                 PreparationApprovalStatus_SealedTime = (case sealedStatus prep of Some s \<Rightarrow> PreparationApprovalStatus_SealedTime s | None \<Rightarrow> None),
                 PreparationApprovalStatus_Attestation = (case sealedStatus prep of Some s \<Rightarrow> PreparationApprovalStatus_Attestation s | None \<Rightarrow> None)\<rparr>,
              ar_Verdicts = verdicts\<rparr>))"

record gate_decision =
  gd_Blocked :: bool
  gd_Status :: condition_status
  gd_Reason :: string
  gd_Message :: string

text \<open>
  Whether the sealed votes are recorded in the registry. \<open>meta.IsStatusConditionTrue\<close> of the Kubernetes
  library is an argument: whether a list of conditions holds a type with the status True.
\<close>

definition isArchived :: "(condition list \<Rightarrow> string \<Rightarrow> bool) \<Rightarrow> Preparation \<Rightarrow> bool" where
  "isArchived is_true prep =
     (case sealedStatus prep of
        None \<Rightarrow> False
      | Some s \<Rightarrow> PreparationApprovalStatus_Attestation s \<noteq> None
          \<and> is_true (PreparationStatus_Conditions (Preparation_Status prep)) ConditionTypeApprovalsSealed)"

definition approval_Gate :: "(condition list \<Rightarrow> string \<Rightarrow> bool) \<Rightarrow> Preparation \<Rightarrow> Approval list \<Rightarrow> gate_decision" where
  "approval_Gate is_true prep approvals =
     (let res = approval_Evaluate prep approvals; name = om_Name (Preparation_ObjectMeta prep) in
      if \<not> ar_Approved res
      then \<lparr>gd_Blocked = True, gd_Status = ConditionFalse, gd_Reason = ar_Reason res, gd_Message = name @ '': '' @ ar_Message res\<rparr>
      else if ar_Required res \<and> \<not> isArchived is_true prep
      then \<lparr>gd_Blocked = True, gd_Status = ConditionFalse, gd_Reason = ReasonSealingApprovals,
            gd_Message = name @ '': sealing approvals before deployment''\<rparr>
      else \<lparr>gd_Blocked = False, gd_Status = ConditionTrue, gd_Reason = ar_Reason res, gd_Message = name @ '': '' @ ar_Message res\<rparr>)"

definition NewSealTime :: "time \<Rightarrow> time" where
  "NewSealTime now = truncate_second now"

section \<open>The order of votes\<close>

lemma compareApprovals_lex:
  "compareApprovals = (\<lambda>a b.
     if ord_compare (om_CreationTimestamp (Approval_ObjectMeta a)) (om_CreationTimestamp (Approval_ObjectMeta b)) \<noteq> 0
     then ord_compare (om_CreationTimestamp (Approval_ObjectMeta a)) (om_CreationTimestamp (Approval_ObjectMeta b))
     else if ord_compare (ApprovalSpec_SubmittedTime (Approval_Spec a)) (ApprovalSpec_SubmittedTime (Approval_Spec b)) \<noteq> 0
     then ord_compare (ApprovalSpec_SubmittedTime (Approval_Spec a)) (ApprovalSpec_SubmittedTime (Approval_Spec b))
     else ord_compare (approval_name a) (approval_name b))"
  by (auto simp: compareApprovals_def Let_def fun_eq_iff)

interpretation vote_order: three_way compareApprovals
  unfolding compareApprovals_lex by (intro three_way_lex three_way_ord)

lemma compareApprovals_name: "compareApprovals a b = 0 \<Longrightarrow> approval_name a = approval_name b"
  by (simp add: compareApprovals_lex split: if_splits)

lemma named_votes_separated:
  "inj_on approval_name (set xs) \<Longrightarrow> \<forall>a\<in>set xs. \<forall>b\<in>set xs. compareApprovals a b = 0 \<longrightarrow> a = b"
  using compareApprovals_name by (blast dest: inj_onD)

section \<open>Open votes: the latest of each approver\<close>

text \<open>The approvers in the order of their first vote, and the last vote of each.\<close>

definition approvers :: "Approval list \<Rightarrow> string list" where
  "approvers votes = rev (remdups (rev (map key_of votes)))"

definition latest_vote :: "Approval list \<Rightarrow> string \<Rightarrow> Approval" where
  "latest_vote votes k = the (find (\<lambda>a. key_of a = k) (rev votes))"

lemma approvers_snoc:
  "approvers (xs @ [a]) = (if key_of a \<in> set (map key_of xs) then approvers xs else approvers xs @ [key_of a])"
  by (auto simp: approvers_def)

lemma set_approvers [simp]: "set (approvers xs) = key_of ` set xs"
  by (simp add: approvers_def)

lemma distinct_approvers [simp]: "distinct (approvers xs)"
  by (simp add: approvers_def)

lemma find_key: "k \<in> key_of ` set xs \<Longrightarrow> \<exists>a. find (\<lambda>a. key_of a = k) (rev xs) = Some a \<and> a \<in> set xs \<and> key_of a = k"
  by (induction xs rule: rev_induct) auto

lemma find_key_None: "find (\<lambda>a. key_of a = k) (rev xs) = None \<longleftrightarrow> k \<notin> key_of ` set xs"
  by (induction xs rule: rev_induct) auto

lemma latest_vote_in: "k \<in> key_of ` set xs \<Longrightarrow> latest_vote xs k \<in> set xs \<and> key_of (latest_vote xs k) = k"
  using find_key [of k xs] by (auto simp: latest_vote_def)

lemma open_turns:
  "w_order (foldl open_turn \<lparr>w_latest = Map.empty, w_order = [], w_verdicts = v\<rparr> xs) = approvers xs
   \<and> w_latest (foldl open_turn \<lparr>w_latest = Map.empty, w_order = [], w_verdicts = v\<rparr> xs) =
       (\<lambda>k. find (\<lambda>a. key_of a = k) (rev xs))"
proof (induction xs rule: rev_induct)
  case Nil
  then show ?case by (simp add: approvers_def)
next
  case (snoc a xs)
  let ?st = "foldl open_turn \<lparr>w_latest = Map.empty, w_order = [], w_verdicts = v\<rparr> xs"
  show ?case
  proof (cases "key_of a \<in> key_of ` set xs")
    case True
    then obtain prev where "w_latest ?st (key_of a) = Some prev" using snoc find_key by auto
    then show ?thesis using snoc True by (auto simp: open_turn_def Let_def approvers_snoc fun_eq_iff)
  next
    case False
    then have "w_latest ?st (key_of a) = None" using snoc find_key_None [of "key_of a" xs] by simp
    then show ?thesis using snoc False by (auto simp: open_turn_def Let_def approvers_snoc fun_eq_iff)
  qed
qed

lemma cast_votes:
  "foldl (cast_vote policy latest) (vs, v) ks =
     (vs @ map (\<lambda>k. vote_of policy (the (latest k))) ks,
      foldl (\<lambda>m k. m(approval_name (the (latest k)) \<mapsto> vote_verdict policy (the (latest k)))) v ks)"
  by (induction ks arbitrary: vs v) (auto simp: cast_vote_def Let_def)

definition open_votes :: "ApprovalPolicy \<Rightarrow> Approval list \<Rightarrow> ApprovalVote list" where
  "open_votes policy votes = map (vote_of policy \<circ> latest_vote votes) (take MaxApprovers (approvers votes))"

lemma evaluateOpen_votes: "fst (evaluateOpen policy ordered v) = open_votes policy ordered"
  using open_turns [of v ordered]
  by (auto simp: evaluateOpen_def Let_def cast_votes open_votes_def latest_vote_def take_map split: prod.splits)

lemma verdict_fold:
  assumes "k \<in> set ks" "distinct ks" "inj_on (\<lambda>k. approval_name (f k)) (set ks)"
  shows "foldl (\<lambda>m k. m(approval_name (f k) \<mapsto> vote_verdict policy (f k))) v ks (approval_name (f k)) = Some (vote_verdict policy (f k))"
  using assms
proof (induction ks rule: rev_induct)
  case (snoc x ks)
  show ?case
  proof (cases "k = x")
    case False
    then have "approval_name (f k) \<noteq> approval_name (f x)"
      using inj_onD [OF snoc.prems(3), of k x] snoc.prems(1) by auto
    then show ?thesis using snoc False by simp
  qed simp
qed simp

lemma evaluateOpen_verdict:
  assumes "inj_on approval_name (set ordered)" "k \<in> key_of ` set ordered"
  shows "snd (evaluateOpen policy ordered v) (approval_name (latest_vote ordered k)) = Some (vote_verdict policy (latest_vote ordered k))"
proof -
  have "inj_on (\<lambda>k. approval_name (latest_vote ordered k)) (set (approvers ordered))"
  proof (rule inj_onI)
    fix k k'
    assume "k \<in> set (approvers ordered)" "k' \<in> set (approvers ordered)"
      and same: "approval_name (latest_vote ordered k) = approval_name (latest_vote ordered k')"
    then have k: "latest_vote ordered k \<in> set ordered" "key_of (latest_vote ordered k) = k"
      and k': "latest_vote ordered k' \<in> set ordered" "key_of (latest_vote ordered k') = k'"
      using latest_vote_in by simp_all
    from inj_onD [OF assms(1) same k(1) k'(1)] show "k = k'" using k(2) k'(2) by metis
  qed
  then have "foldl (\<lambda>m k. m(approval_name (latest_vote ordered k) \<mapsto> vote_verdict policy (latest_vote ordered k)))
      (w_verdicts (foldl open_turn \<lparr>w_latest = Map.empty, w_order = [], w_verdicts = v\<rparr> ordered)) (approvers ordered)
      (approval_name (latest_vote ordered k)) = Some (vote_verdict policy (latest_vote ordered k))"
    using assms(2) by (intro verdict_fold) auto
  then show ?thesis
    using open_turns [of v ordered] by (simp add: evaluateOpen_def Let_def cast_votes latest_vote_def)
qed

section \<open>Counting votes\<close>

abbreviation counted :: "ApprovalDecision \<Rightarrow> ApprovalVote list \<Rightarrow> ApprovalVote list" where
  "counted d \<equiv> filter (\<lambda>v. ApprovalVote_Result v = VoteResultCounted \<and> ApprovalVote_Decision v = d)"

lemma count_votes:
  "t_Approved (foldl count_vote t votes) = t_Approved t + of_nat (length (counted ApprovalDecisionApprove votes))
   \<and> t_Rejected (foldl count_vote t votes) = t_Rejected t + of_nat (length (counted ApprovalDecisionReject votes))"
proof (induction votes arbitrary: t)
  case (Cons v votes)
  then show ?case by (cases "ApprovalVote_Decision v") (auto simp: count_vote_def)
qed simp

lemma decide_iff:
  assumes "length votes < 2 ^ 31"
  shows "fst (decide policy (tally_votes votes)) \<longleftrightarrow> counted ApprovalDecisionReject votes = []
    \<and> sint (ApprovalPolicy_RequiredApprovals policy) \<le> int (length (counted ApprovalDecisionApprove votes))"
proof -
  have "length (counted d votes) < 2 ^ 31" for d
    using assms by (rule le_less_trans [OF length_filter_le])
  then have "sint (t_Approved (tally_votes votes)) = int (length (counted ApprovalDecisionApprove votes))"
    "sint (t_Rejected (tally_votes votes)) = int (length (counted ApprovalDecisionReject votes))"
    using count_votes [of _ votes] by (simp_all add: tally_votes_def sint_of_nat32)
  then show ?thesis by (auto simp: decide_def Let_def)
qed

lemma length_open_votes: "length (open_votes policy votes) \<le> 64"
  by (simp add: open_votes_def MaxApprovers_def)

lemma Evaluate_Approved:
  "Preparation_ApprovalPolicy prep = Some policy \<Longrightarrow>
     ar_Approved (approval_Evaluate prep approvals) = fst (decide policy (tally_votes (fst (approval_votes prep policy approvals))))"
  by (simp add: approval_Evaluate_def Let_def split: prod.splits)

lemma distinct_filter_card: "distinct ks \<Longrightarrow> length (filter P ks) = card {k \<in> set ks. P k}"
  using distinct_card [of "filter P ks"] by simp

lemma open_votes_counted:
  "length (counted d (open_votes policy votes)) =
     card {k \<in> set (take MaxApprovers (approvers votes)). eligible policy (Approver_Groups (approver (latest_vote votes k)))
       \<and> ApprovalSpec_Decision (Approval_Spec (latest_vote votes k)) = d}"
  by (subst distinct_filter_card [symmetric])
     (auto simp: open_votes_def filter_map comp_def vote_of_def vote_result_def intro!: arg_cong [where f = length] filter_cong)

section \<open>Permuted votes\<close>

lemma updates_permuted:
  assumes "mset xs = mset ys" "inj_on n (set xs)"
  shows "foldl (\<lambda>m a. if P a then m else m(n a \<mapsto> f a)) m xs = foldl (\<lambda>m a. if P a then m else m(n a \<mapsto> f a)) m ys"
proof -
  have "fold (\<lambda>a m. if P a then m else m(n a \<mapsto> f a)) xs = fold (\<lambda>a m. if P a then m else m(n a \<mapsto> f a)) ys"
  proof (rule fold_multiset_equiv [OF _ assms(1)])
    fix a b
    assume "a \<in> set xs" "b \<in> set xs"
    then have "a = b \<or> n a \<noteq> n b" using assms(2) by (auto dest: inj_onD)
    then show "(\<lambda>m. if P a then m else m(n a \<mapsto> f a)) \<circ> (\<lambda>m. if P b then m else m(n b \<mapsto> f b)) =
        (\<lambda>m. if P b then m else m(n b \<mapsto> f b)) \<circ> (\<lambda>m. if P a then m else m(n a \<mapsto> f a))"
      by (auto simp: fun_eq_iff)
  qed
  then show ?thesis by (simp add: foldl_conv_fold)
qed

lemma approval_votes_permuted:
  assumes "mset as = mset bs" "inj_on approval_name (set as)"
  shows "approval_votes prep policy as = approval_votes prep policy bs"
proof -
  have "inj_on approval_name (set (filter (matches prep) as))" using assms(2) by (auto intro: inj_on_subset)
  then have "sort_cmp compareApprovals (filter (matches prep) as) = sort_cmp compareApprovals (filter (matches prep) bs)"
    using assms(1) by (intro vote_order.sort_permuted named_votes_separated) (simp_all add: mset_filter)
  then show ?thesis
    unfolding approval_votes_def
    using updates_permuted [OF assms, of "matches prep" "\<lambda>_. mismatch_verdict" Map.empty] by simp
qed

section \<open>More approvers than a Preparation holds\<close>

definition crowd_vote :: "nat \<Rightarrow> Approval" where
  "crowd_vote i = \<lparr>Approval_ObjectMeta = \<lparr>om_Name = replicate i CHR ''a'', om_Namespace = [], om_UID = [], om_Generation = 0,
       om_CreationTimestamp = int i, om_DeletionTimestamp = None, om_Labels = [], om_Annotations = [], om_Finalizers = [],
        om_OwnerReferences = [], om_ResourceVersion = []\<rparr>,
     Approval_Spec = \<lparr>ApprovalSpec_OrderName = ''o'',
       ApprovalSpec_PreparationRef = \<lparr>ApprovalPreparationReference_Name = ''p'', ApprovalPreparationReference_UID = ''u'',
         ApprovalPreparationReference_ArtifactDigest = ''d''\<rparr>,
       ApprovalSpec_Approver = \<lparr>Approver_Issuer = ''i'', Approver_Subject = replicate i CHR ''a'', Approver_Username = [],
         Approver_Email = [], Approver_Groups = [''g'']\<rparr>,
       ApprovalSpec_Decision = (if i = 64 then ApprovalDecisionReject else ApprovalDecisionApprove),
       ApprovalSpec_Comment = [], ApprovalSpec_SubmittedTime = int i\<rparr>,
     Approval_Status = \<lparr>ApprovalStatus_ObservedGeneration = 0, ApprovalStatus_Conditions = []\<rparr>\<rparr>"

definition crowd :: "Approval list" where
  "crowd = map crowd_vote [0..<65]"

definition crowd_policy :: ApprovalPolicy where
  "crowd_policy = \<lparr>ApprovalPolicy_RequiredApprovals = 1, ApprovalPolicy_AllowedGroups = [''g'']\<rparr>"

definition crowd_preparation :: Preparation where
  "crowd_preparation = \<lparr>Preparation_ObjectMeta = \<lparr>om_Name = ''p'', om_Namespace = [], om_UID = ''u'', om_Generation = 0,
       om_CreationTimestamp = 0, om_DeletionTimestamp = None, om_Labels = [], om_Annotations = [], om_Finalizers = [],
        om_OwnerReferences = [], om_ResourceVersion = []\<rparr>,
     Preparation_Spec = \<lparr>PreparationSpec_OrderName = ''o'',
       PreparationSpec_Source = \<lparr>OrderSource_URL = [], OrderSource_BaseDigest = []\<rparr>,
       PreparationSpec_Renderer = \<lparr>Renderer_Type = RenderTypeManifest, Renderer_Version = [], Renderer_Builder = []\<rparr>,
       PreparationSpec_TargetNamespace = [], PreparationSpec_ConfigHash = [],
       PreparationSpec_Artifact = \<lparr>Artifact_OCIRef = [], Artifact_Digest = ''d'', Artifact_RegistryRef = None\<rparr>,
       PreparationSpec_CommitMessage = [], PreparationSpec_ParentDigest = [],
       PreparationSpec_GitSource = \<lparr>GitSource_Repo = [], GitSource_Tag = [], GitSource_CommitHash = []\<rparr>,
       PreparationSpec_ProductRevision = [],
       PreparationSpec_Promotion = Some \<lparr>PromotionGates_Approvals = Some crowd_policy, PromotionGates_After = [], PromotionGates_Checks = None\<rparr>,
       PreparationSpec_Images = []\<rparr>,
     Preparation_Status = \<lparr>PreparationStatus_ObservedGeneration = 0, PreparationStatus_Conditions = [],
       PreparationStatus_Attestations = [], PreparationStatus_Approval = None\<rparr>\<rparr>"

lemma crowd_matches: "filter (matches crowd_preparation) crowd = crowd"
  by (auto simp: crowd_def crowd_preparation_def crowd_vote_def matches_def Let_def intro!: filter_True)

lemma crowd_key: "key_of (crowd_vote i) = key_of (crowd_vote j) \<longleftrightarrow> i = j"
  by (auto simp: key_of_def approverKey_def crowd_vote_def dest: arg_cong [where f = length])

lemma crowd_names: "inj_on approval_name (set crowd)"
  by (auto simp: crowd_def inj_on_def crowd_vote_def dest: arg_cong [where f = length])

lemma crowd_sorted: "sort_cmp compareApprovals crowd = crowd"
proof -
  have "sorted_wrt (\<lambda>a b. compareApprovals a b \<le> 0) crowd"
    unfolding crowd_def sorted_wrt_map
    by (rule sorted_wrt_mono_rel [OF _ sorted_wrt_upt])
       (auto simp: compareApprovals_def crowd_vote_def ord_compare_def Let_def)
  then show ?thesis
    using vote_order.sort_unique [of crowd crowd] named_votes_separated [OF crowd_names] by simp
qed

lemma crowd_approvers: "approvers crowd = map (key_of \<circ> crowd_vote) [0..<65]"
proof -
  have "distinct (map (key_of \<circ> crowd_vote) [0..<65])"
    by (auto simp: distinct_map inj_on_def crowd_key)
  then have "distinct (rev (map key_of crowd))" by (simp add: crowd_def)
  then show ?thesis by (simp add: approvers_def distinct_remdups_id crowd_def)
qed

lemma crowd_latest:
  assumes "i < 65"
  shows "latest_vote crowd (key_of (crowd_vote i)) = crowd_vote i"
proof -
  have "key_of (crowd_vote i) \<in> key_of ` set crowd" using assms by (auto simp: crowd_def)
  from latest_vote_in [OF this] obtain j where "latest_vote crowd (key_of (crowd_vote i)) = crowd_vote j"
    "key_of (crowd_vote j) = key_of (crowd_vote i)" by (auto simp: crowd_def)
  then show ?thesis by (simp add: crowd_key)
qed

lemma foldl_skip: "\<forall>a\<in>set xs. P a \<Longrightarrow> foldl (\<lambda>m a. if P a then m else g m a) m xs = m"
  by (induction xs) auto

lemma crowd_evaluated:
  "approval_votes crowd_preparation crowd_policy crowd =
     (open_votes crowd_policy crowd, snd (evaluateOpen crowd_policy crowd Map.empty))"
proof -
  have "\<forall>a\<in>set crowd. matches crowd_preparation a"
    using crowd_matches by (metis filter_id_conv)
  then have none: "foldl (\<lambda>m a. if matches crowd_preparation a then m else m(approval_name a \<mapsto> mismatch_verdict)) Map.empty crowd = Map.empty"
    by (rule foldl_skip)
  show ?thesis
    using evaluateOpen_votes [of crowd_policy crowd Map.empty] none
    by (simp add: approval_votes_def crowd_matches crowd_sorted sealedStatus_def prod_eq_iff)
       (simp add: crowd_preparation_def prod_eq_iff)
qed

section \<open>Properties\<close>

text \<open>C32: While its votes are open, a Preparation with an approval policy is approved exactly when, among the
  first 64 approvers in the order of their first votes (MaxApprovers), no eligible approver's latest vote
  rejects it and at least the required number of eligible approvers' latest votes approve it. A vote of a
  later approver decides nothing, a rejection included. Only votes cast for this Preparation object and
  artifact digest take part.\<close>

theorem open_approval_iff:
  fixes approvals :: "Approval list"
  assumes "Preparation_ApprovalPolicy prep = Some policy" "\<not> IsSealed prep"
  defines "votes \<equiv> sort_cmp compareApprovals (filter (matches prep) approvals)"
  defines "voters d \<equiv> {k \<in> set (take 64 (approvers votes)).
      (\<exists>g\<in>set (Approver_Groups (approver (latest_vote votes k))). g \<in> set (ApprovalPolicy_AllowedGroups policy))
    \<and> ApprovalSpec_Decision (Approval_Spec (latest_vote votes k)) = d}"
  shows "ar_Approved (approval_Evaluate prep approvals) \<longleftrightarrow> voters ApprovalDecisionReject = {}
    \<and> sint (ApprovalPolicy_RequiredApprovals policy) \<le> int (card (voters ApprovalDecisionApprove))"
proof -
  have "fst (approval_votes prep policy approvals) = open_votes policy votes"
    using assms(2) evaluateOpen_votes by (simp add: approval_votes_def IsSealed_def votes_def Let_def)
  moreover have card: "length (counted d (open_votes policy votes)) = card (voters d)" for d
    unfolding open_votes_counted voters_def MaxApprovers_def eligible_def list_ex_iff ..
  have "counted ApprovalDecisionReject (open_votes policy votes) = [] \<longleftrightarrow> card (voters ApprovalDecisionReject) = 0"
    using card [of ApprovalDecisionReject] by (metis length_0_conv)
  moreover have "finite (voters ApprovalDecisionReject)" by (simp add: voters_def)
  ultimately show ?thesis
    using decide_iff [of "open_votes policy votes" policy] length_open_votes [of policy votes] card [of ApprovalDecisionApprove]
    by (simp add: Evaluate_Approved [OF assms(1)])
qed

lemma crowd_policy_of: "Preparation_ApprovalPolicy crowd_preparation = Some crowd_policy" "\<not> IsSealed crowd_preparation"
  by (simp_all add: Preparation_ApprovalPolicy_def IsSealed_def sealedStatus_def crowd_preparation_def)

theorem open_approval_iff_witness: "ar_Approved (approval_Evaluate crowd_preparation crowd)"
proof -
  let ?votes = "sort_cmp compareApprovals (filter (matches crowd_preparation) crowd)"
  let ?voters = "\<lambda>d. {k \<in> set (take 64 (approvers ?votes)).
      (\<exists>g\<in>set (Approver_Groups (approver (latest_vote ?votes k))). g \<in> set (ApprovalPolicy_AllowedGroups crowd_policy))
    \<and> ApprovalSpec_Decision (Approval_Spec (latest_vote ?votes k)) = d}"
  have votes: "?votes = crowd" by (simp add: crowd_matches crowd_sorted)
  have first: "set (take 64 (approvers crowd)) = (\<lambda>i. key_of (crowd_vote i)) ` {0..<64}"
    by (auto simp: crowd_approvers take_map)
  have group: "ApprovalPolicy_AllowedGroups crowd_policy = [''g'']" "Approver_Groups (approver (crowd_vote i)) = [''g'']" for i
    by (simp_all add: crowd_policy_def crowd_vote_def)
  have decision: "ApprovalSpec_Decision (Approval_Spec (crowd_vote i)) = ApprovalDecisionApprove" if "i < 64" for i
    using that by (simp add: crowd_vote_def)
  have voters: "?voters d = (if d = ApprovalDecisionApprove then (\<lambda>i. key_of (crowd_vote i)) ` {0..<64} else {})" for d
    unfolding votes first by (auto simp: crowd_latest group decision)
  have "card ((\<lambda>i. key_of (crowd_vote i)) ` {0..<64}) = 64" by (subst card_image) (auto simp: inj_on_def crowd_key)
  then show ?thesis
    unfolding open_approval_iff [OF crowd_policy_of, of crowd] voters by (simp add: crowd_policy_def)
qed

text \<open>C33: The order in which the Approvals are listed does not matter: for Approvals with different names, as
  the API server ensures, any permutation has the same result, with the same reason, message, status
  and verdicts.\<close>

theorem approval_order_irrelevant:
  assumes "mset as = mset bs" "inj_on approval_name (set as)"
  shows "approval_Evaluate prep as = approval_Evaluate prep bs"
proof -
  have len: "length as = length bs" using assms(1) by (rule mset_eq_length)
  have "not_required as = not_required bs"
    using updates_permuted [OF assms, of "\<lambda>_. False" _ Map.empty] by (simp add: not_required_def)
  moreover have "approval_votes prep policy as = approval_votes prep policy bs" for policy
    using assms by (rule approval_votes_permuted)
  moreover have "submission_count as = submission_count bs" by (simp add: submission_count_def len)
  ultimately show ?thesis by (cases "Preparation_ApprovalPolicy prep") (simp_all add: approval_Evaluate_def)
qed

theorem approval_order_irrelevant_witness:
  "approval_Evaluate crowd_preparation (rev crowd) = approval_Evaluate crowd_preparation crowd"
  using approval_order_irrelevant [of "rev crowd" crowd crowd_preparation] crowd_names by simp

text \<open>C34: Sealing fixes the decision: once the votes of a Preparation are sealed, the decision, its reason and
  its message depend on the sealed votes alone, whatever Approvals exist, and the sealed votes, seal
  time and attestation are carried over unchanged.\<close>

theorem sealed_decision_fixed:
  assumes "Preparation_ApprovalPolicy prep = Some policy" "sealedStatus prep = Some sealed"
  shows "\<exists>status. ar_Status (approval_Evaluate prep approvals) = Some status
      \<and> (ar_Approved (approval_Evaluate prep approvals), ar_Reason (approval_Evaluate prep approvals),
         ar_Message (approval_Evaluate prep approvals)) = decide policy (tally_votes (PreparationApprovalStatus_Votes sealed))
      \<and> PreparationApprovalStatus_Votes status = PreparationApprovalStatus_Votes sealed
      \<and> PreparationApprovalStatus_SealedTime status = PreparationApprovalStatus_SealedTime sealed
      \<and> PreparationApprovalStatus_Attestation status = PreparationApprovalStatus_Attestation sealed"
  using assms by (simp add: approval_Evaluate_def approval_votes_def Let_def split: prod.splits)

definition sealed_sample :: PreparationApprovalStatus where
  "sealed_sample = \<lparr>PreparationApprovalStatus_RequiredApprovals = 1, PreparationApprovalStatus_ApprovedCount = 1,
     PreparationApprovalStatus_RejectedCount = 0, PreparationApprovalStatus_IneligibleCount = 0,
     PreparationApprovalStatus_SubmissionCount = 1, PreparationApprovalStatus_Votes = [vote_of crowd_policy (crowd_vote 1)],
     PreparationApprovalStatus_SealedTime = Some 5, PreparationApprovalStatus_Attestation = None\<rparr>"

definition sealed_preparation :: Preparation where
  "sealed_preparation = crowd_preparation\<lparr>Preparation_Status :=
     (Preparation_Status crowd_preparation)\<lparr>PreparationStatus_Approval := Some sealed_sample\<rparr>\<rparr>"

lemma sealed_preparation_of:
  "Preparation_ApprovalPolicy sealed_preparation = Some crowd_policy" "sealedStatus sealed_preparation = Some sealed_sample"
  by (simp_all add: Preparation_ApprovalPolicy_def sealedStatus_def sealed_preparation_def sealed_sample_def)
     (simp add: crowd_preparation_def)

theorem sealed_decision_fixed_witness: "ar_Status (approval_Evaluate sealed_preparation crowd) \<noteq> None"
  using sealed_decision_fixed [OF sealed_preparation_of, of crowd] by auto

text \<open>Nothing is deployed unapproved: the gate lets a Preparation through exactly when it has no approval
  policy, or it is approved, its votes are sealed, they are attested, and the attestation is recorded
  in the registry.\<close>

lemma approval_gate_open_iff:
  "\<not> gd_Blocked (approval_Gate is_true prep approvals) \<longleftrightarrow>
     Preparation_ApprovalPolicy prep = None
   \<or> ar_Approved (approval_Evaluate prep approvals) \<and> IsSealed prep
     \<and> (\<exists>s. sealedStatus prep = Some s \<and> PreparationApprovalStatus_Attestation s \<noteq> None)
     \<and> is_true (PreparationStatus_Conditions (Preparation_Status prep)) ConditionTypeApprovalsSealed"
proof (cases "Preparation_ApprovalPolicy prep")
  case None
  then show ?thesis by (simp add: approval_Gate_def approval_Evaluate_def not_required_def)
next
  case (Some policy)
  then have "ar_Required (approval_Evaluate prep approvals)"
    by (simp add: approval_Evaluate_def Let_def split: prod.splits)
  then show ?thesis
    using Some by (auto simp: approval_Gate_def isArchived_def IsSealed_def Let_def split: option.splits)
qed

text \<open>A vote may be reported as counted and still not count: with 65 eligible approvers of which the last
  rejects, the verdict on that Approval says that it counts towards the gate, but it is beyond the 64
  approvers whose votes are kept, and the Preparation is approved.\<close>

theorem counted_but_ignored:
  "ApprovalSpec_Decision (Approval_Spec (crowd_vote 64)) = ApprovalDecisionReject
   \<and> map_option av_Counted (ar_Verdicts (approval_Evaluate crowd_preparation crowd) (approval_name (crowd_vote 64))) = Some True
   \<and> ar_Approved (approval_Evaluate crowd_preparation crowd)"
proof (intro conjI)
  have eligible: "eligible crowd_policy (Approver_Groups (approver (crowd_vote i)))" for i
    by (simp add: eligible_def crowd_policy_def crowd_vote_def)
  have kept: "open_votes crowd_policy crowd = map (vote_of crowd_policy \<circ> crowd_vote) [0..<64]"
    by (auto simp: open_votes_def crowd_approvers MaxApprovers_def take_map crowd_latest)
  have reject: "counted ApprovalDecisionReject (open_votes crowd_policy crowd) = []"
    unfolding kept by (auto simp: filter_empty_conv vote_of_def crowd_vote_def)
  have "counted ApprovalDecisionApprove (open_votes crowd_policy crowd) = open_votes crowd_policy crowd"
    unfolding kept filter_id_conv by (auto simp: vote_of_def vote_result_def eligible) (simp add: crowd_vote_def)
  then have "length (counted ApprovalDecisionApprove (open_votes crowd_policy crowd)) = 64"
    by (simp add: kept)
  then show "ar_Approved (approval_Evaluate crowd_preparation crowd)"
    using reject length_open_votes [of crowd_policy crowd]
    by (subst Evaluate_Approved [OF crowd_policy_of(1)])
       (simp add: crowd_evaluated decide_iff, simp add: crowd_policy_def)
  have "key_of (crowd_vote 64) \<in> key_of ` set crowd" by (auto simp: crowd_def)
  from evaluateOpen_verdict [OF crowd_names this, of crowd_policy Map.empty]
  have "snd (evaluateOpen crowd_policy crowd Map.empty) (approval_name (crowd_vote 64)) = Some (vote_verdict crowd_policy (crowd_vote 64))"
    by (simp add: crowd_latest)
  moreover have "ar_Verdicts (approval_Evaluate crowd_preparation crowd) = snd (evaluateOpen crowd_policy crowd Map.empty)"
    by (simp add: approval_Evaluate_def crowd_policy_of(1) crowd_evaluated Let_def split: prod.splits)
  ultimately show "map_option av_Counted (ar_Verdicts (approval_Evaluate crowd_preparation crowd) (approval_name (crowd_vote 64))) = Some True"
    by (simp add: vote_verdict_def eligible)
qed (simp add: crowd_vote_def)

end
