(* ===== verification/Api_Product.thy ===== *)
theory Api_Product
  imports Api_Order
begin

text \<open>
  Products (\<open>api/v1alpha1/product_types.go\<close>): the source an Order is a variant of, what an Order may override, and what scanning found.
\<close>

record AllowedPatchTarget =
  AllowedPatchTarget_Target :: PatchTarget
  AllowedPatchTarget_Paths :: "string list"

datatype OverridePolicy =
    OverridePolicyUnset
  | OverridePolicyNone
  | OverridePolicyListed
  | OverridePolicyAll

record ValueOverrides =
  ValueOverrides_Policy :: OverridePolicy
  ValueOverrides_Paths :: "string list"

record PatchOverrides =
  PatchOverrides_Policy :: OverridePolicy
  PatchOverrides_Targets :: "AllowedPatchTarget list"

record Overrides =
  Overrides_Values :: ValueOverrides
  Overrides_Patches :: PatchOverrides

record ImageFieldSpec =
  ImageFieldSpec_Group :: string
  ImageFieldSpec_Version :: string
  ImageFieldSpec_Kind :: string
  ImageFieldSpec_Path :: string

datatype ImagePolicy =
    ImagePolicyUnset
  | ImagePolicyRecord
  | ImagePolicyPin
  | ImagePolicyVendor

record ProductImages =
  ProductImages_Policy :: ImagePolicy
  ProductImages_FieldSpecs :: "ImageFieldSpec list"

record ProductSpec =
  ProductSpec_Source :: OCISource
  ProductSpec_Vendor :: "OCIDestination option"
  ProductSpec_Render :: "Render option"
  ProductSpec_TargetNamespace :: string
  ProductSpec_Patches :: "Patch list"
  ProductSpec_Overrides :: Overrides
  ProductSpec_Images :: ProductImages
  ProductSpec_RegistryRefs :: "local_object_reference list"

record SourceVerification =
  SourceVerification_Provider :: VerificationProvider
  SourceVerification_KeyID :: string
  SourceVerification_Issuer :: string
  SourceVerification_Subject :: string

datatype SignatureResult =
    SignatureResultUnset
  | SignatureVerified
  | SignatureUntrustedSigner
  | SignatureInvalid
  | SignatureUnsupported

record SignatureVerdict =
  SignatureVerdict_Digest :: string
  SignatureVerdict_Subject :: string
  SignatureVerdict_Result :: SignatureResult
  SignatureVerdict_Signer :: "SourceVerification option"
  SignatureVerdict_Message :: string

record ProductSourceStatus =
  ProductSourceStatus_URL :: string
  ProductSourceStatus_Version :: string
  ProductSourceStatus_Digest :: string
  ProductSourceStatus_Verified :: "SourceVerification option"
  ProductSourceStatus_Signatures :: "SignatureVerdict list"
  ProductSourceStatus_SignaturesCheckedTime :: "time option"

record VulnerabilityScanner =
  VulnerabilityScanner_Name :: string
  VulnerabilityScanner_Version :: string
  VulnerabilityScanner_Database :: string
  VulnerabilityScanner_DatabaseUpdatedTime :: "time option"

datatype SBOMOrigin =
    SBOMOriginUnset
  | SBOMOriginGenerated
  | SBOMOriginImage
  | SBOMOriginSigned

record ImageSBOM =
  ImageSBOM_Digest :: string
  ImageSBOM_Origin :: SBOMOrigin

record VulnerabilitySummary =
  VulnerabilitySummary_Critical :: int32
  VulnerabilitySummary_High :: int32
  VulnerabilitySummary_Medium :: int32
  VulnerabilitySummary_Low :: int32
  VulnerabilitySummary_Unknown :: int32
  VulnerabilitySummary_Fixable :: int32

record ImageScan =
  ImageScan_Digest :: string
  ImageScan_Repository :: string
  ImageScan_Platform :: string
  ImageScan_ScannedTime :: time
  ImageScan_SBOM :: ImageSBOM
  ImageScan_Report :: string
  ImageScan_Summary :: VulnerabilitySummary

record ProductVulnerabilities =
  ProductVulnerabilities_Scanner :: VulnerabilityScanner
  ProductVulnerabilities_Images :: "ImageScan list"

record ProductStatus =
  ProductStatus_ObservedGeneration :: int64
  ProductStatus_ConfigHash :: string
  ProductStatus_Source :: "ProductSourceStatus option"
  ProductStatus_RegistryAccess :: "RegistryAccess list"
  ProductStatus_Vulnerabilities :: "ProductVulnerabilities option"
  ProductStatus_Conditions :: "condition list"

record Product =
  Product_ObjectMeta :: object_meta
  Product_Spec :: ProductSpec
  Product_Status :: ProductStatus

section \<open>Methods of Product\<close>

definition ProductImages_EffectivePolicy :: "ProductImages \<Rightarrow> ImagePolicy" where
  "ProductImages_EffectivePolicy i =
     (if ProductImages_Policy i = ImagePolicyUnset then ImagePolicyRecord else ProductImages_Policy i)"

definition Product_GetConditions :: "Product \<Rightarrow> condition list" where
  "Product_GetConditions o1 = ProductStatus_Conditions (Product_Status o1)"

definition Product_SetConditions :: "condition list \<Rightarrow> Product \<Rightarrow> Product" where
  "Product_SetConditions conditions o1 = o1\<lparr>Product_Status := Product_Status o1\<lparr>ProductStatus_Conditions := conditions\<rparr>\<rparr>"

end
