(* ===== verification/Api_Kitchen.thy ===== *)
theory Api_Kitchen
  imports Api_Meta
begin

text \<open>
  The Kitchen, the settings of Kokumi itself, and Registries (\<open>api/v1alpha1/kitchen_types.go\<close>, \<open>registry_types.go\<close>).
\<close>

record AdminUserConfig =
  AdminUserConfig_Enabled :: bool
  AdminUserConfig_Username :: string
  AdminUserConfig_SecretRef :: "local_object_reference option"

datatype ProviderSignOut =
    ProviderSignOutUnset
  | ProviderSignOutNever
  | ProviderSignOutAlways

record OIDCConfig =
  OIDCConfig_IssuerURL :: string
  OIDCConfig_ClientID :: string
  OIDCConfig_ClientSecretRef :: "local_object_reference option"
  OIDCConfig_UsernameClaim :: string
  OIDCConfig_EmailClaim :: string
  OIDCConfig_GroupsClaim :: string
  OIDCConfig_Scopes :: "string list"
  OIDCConfig_ProviderSignOut :: ProviderSignOut

record KitchenAuth =
  KitchenAuth_AdminUser :: "AdminUserConfig option"
  KitchenAuth_OIDC :: "OIDCConfig option"
  KitchenAuth_TokenSigningKeySecretRef :: "local_object_reference option"

record TrustedKey =
  TrustedKey_Name :: string
  TrustedKey_PublicKey :: string

record KitchenSigning =
  KitchenSigning_TrustedKeys :: "TrustedKey list"
  KitchenSigning_RequireSourceVerification :: bool

record ImageMirror =
  ImageMirror_Prefix :: string
  ImageMirror_Location :: string

record KitchenImages =
  KitchenImages_Mirrors :: "ImageMirror list"

record KitchenScanning =
  KitchenScanning_IntervalSeconds :: int32
  KitchenScanning_MaxDatabaseAgeSeconds :: int32
  KitchenScanning_DBRepository :: string
  KitchenScanning_JavaDBRepository :: string
  KitchenScanning_RegistryRefs :: "local_object_reference list"

record KitchenSpec =
  KitchenSpec_ArgoCDURL :: string
  KitchenSpec_Auth :: "KitchenAuth option"
  KitchenSpec_Signing :: "KitchenSigning option"
  KitchenSpec_Images :: "KitchenImages option"
  KitchenSpec_Scanning :: "KitchenScanning option"

record KitchenSigningStatus =
  KitchenSigningStatus_KeyID :: string
  KitchenSigningStatus_PublicKey :: string

record KitchenStatus =
  KitchenStatus_ObservedGeneration :: int64
  KitchenStatus_Conditions :: "condition list"
  KitchenStatus_Signing :: "KitchenSigningStatus option"

record Kitchen =
  Kitchen_ObjectMeta :: object_meta
  Kitchen_Spec :: KitchenSpec
  Kitchen_Status :: KitchenStatus

datatype RegistryScheme =
    RegistrySchemeUnset
  | RegistrySchemeHTTPS
  | RegistrySchemeHTTP

record RegistrySpec =
  RegistrySpec_URL :: string
  RegistrySpec_SecretRef :: "local_object_reference option"
  RegistrySpec_CertSecretRef :: "local_object_reference option"
  RegistrySpec_Scheme :: RegistryScheme

record RegistryStatus =
  RegistryStatus_ObservedGeneration :: int64
  RegistryStatus_Conditions :: "condition list"

record Registry =
  Registry_ObjectMeta :: object_meta
  Registry_Spec :: RegistrySpec
  Registry_Status :: RegistryStatus

section \<open>Defaults and methods\<close>

definition DefaultKitchenName :: string where
  "DefaultKitchenName = ''default''"

definition SigningKeyNamespace :: string where
  "SigningKeyNamespace = ''kokumi-signing''"

definition SigningKeySecretName :: string where
  "SigningKeySecretName = ''kokumi-signing-key''"

definition DefaultScanningDBRepository :: string where
  "DefaultScanningDBRepository = ''oci://mirror.gcr.io/aquasec/trivy-db''"

definition DefaultScanningJavaDBRepository :: string where
  "DefaultScanningJavaDBRepository = ''oci://mirror.gcr.io/aquasec/trivy-java-db''"

definition DefaultRegistryName :: string where
  "DefaultRegistryName = ''in-cluster''"

text \<open>Each setting of scanning is read through a pointer that may be nil.\<close>

definition EffectiveIntervalSeconds :: "KitchenScanning option \<Rightarrow> int32" where
  "EffectiveIntervalSeconds s =
     (case s of None \<Rightarrow> 86400
      | Some k \<Rightarrow> if sint (KitchenScanning_IntervalSeconds k) \<le> 0 then 86400 else KitchenScanning_IntervalSeconds k)"

definition EffectiveMaxDatabaseAgeSeconds :: "KitchenScanning option \<Rightarrow> int32" where
  "EffectiveMaxDatabaseAgeSeconds s =
     (case s of None \<Rightarrow> 604800
      | Some k \<Rightarrow> if sint (KitchenScanning_MaxDatabaseAgeSeconds k) \<le> 0 then 604800 else KitchenScanning_MaxDatabaseAgeSeconds k)"

definition EffectiveDBRepository :: "KitchenScanning option \<Rightarrow> string" where
  "EffectiveDBRepository s =
     (case s of None \<Rightarrow> DefaultScanningDBRepository
      | Some k \<Rightarrow> if KitchenScanning_DBRepository k = [] then DefaultScanningDBRepository else KitchenScanning_DBRepository k)"

definition EffectiveJavaDBRepository :: "KitchenScanning option \<Rightarrow> string" where
  "EffectiveJavaDBRepository s =
     (case s of None \<Rightarrow> DefaultScanningJavaDBRepository
      | Some k \<Rightarrow> if KitchenScanning_JavaDBRepository k = [] then DefaultScanningJavaDBRepository else KitchenScanning_JavaDBRepository k)"

definition RegistrySpec_EffectiveScheme :: "RegistrySpec \<Rightarrow> RegistryScheme" where
  "RegistrySpec_EffectiveScheme s =
     (if RegistrySpec_Scheme s = RegistrySchemeUnset then RegistrySchemeHTTPS else RegistrySpec_Scheme s)"

definition Kitchen_GetConditions :: "Kitchen \<Rightarrow> condition list" where
  "Kitchen_GetConditions o1 = KitchenStatus_Conditions (Kitchen_Status o1)"

definition Kitchen_SetConditions :: "condition list \<Rightarrow> Kitchen \<Rightarrow> Kitchen" where
  "Kitchen_SetConditions conditions o1 = o1\<lparr>Kitchen_Status := Kitchen_Status o1\<lparr>KitchenStatus_Conditions := conditions\<rparr>\<rparr>"

definition Registry_GetConditions :: "Registry \<Rightarrow> condition list" where
  "Registry_GetConditions o1 = RegistryStatus_Conditions (Registry_Status o1)"

definition Registry_SetConditions :: "condition list \<Rightarrow> Registry \<Rightarrow> Registry" where
  "Registry_SetConditions conditions o1 = o1\<lparr>Registry_Status := Registry_Status o1\<lparr>RegistryStatus_Conditions := conditions\<rparr>\<rparr>"

end
