(* ===== verification/Api_Cluster.thy ===== *)
theory Api_Cluster
  imports Api_Meta
begin

text \<open>
  Clusters and Environments (\<open>api/v1alpha1/cluster_types.go\<close>, \<open>environment_types.go\<close>).
\<close>

datatype ClusterConnection =
    ClusterConnectionUnset
  | ClusterConnectionInCluster
  | ClusterConnectionKubeconfig

record KubeconfigSecretReference =
  KubeconfigSecretReference_Name :: string
  KubeconfigSecretReference_Key :: string

record ClusterKubeconfig =
  ClusterKubeconfig_SecretRef :: KubeconfigSecretReference

record ClusterSpec =
  ClusterSpec_Description :: string
  ClusterSpec_Connection :: ClusterConnection
  ClusterSpec_Kubeconfig :: "ClusterKubeconfig option"

record ClusterStatus =
  ClusterStatus_ObservedGeneration :: int64
  ClusterStatus_Server :: string
  ClusterStatus_KubernetesVersion :: string
  ClusterStatus_Conditions :: "condition list"

record Cluster =
  Cluster_ObjectMeta :: object_meta
  Cluster_Spec :: ClusterSpec
  Cluster_Status :: ClusterStatus

datatype DeployerType =
    DeployerTypeUnset
  | DeployerTypeArgoCD

record ArgoCDDeployer =
  ArgoCDDeployer_Project :: string

record Deployer =
  Deployer_Type :: DeployerType
  Deployer_ArgoCD :: "ArgoCDDeployer option"

record RequiredEnvironment =
  RequiredEnvironment_Environment :: string
  RequiredEnvironment_MinSoakSeconds :: int32

record EnvironmentPromotion =
  EnvironmentPromotion_RequireAfter :: "RequiredEnvironment list"

record EnvironmentSpec =
  EnvironmentSpec_Description :: string
  EnvironmentSpec_ClusterSelector :: label_selector
  EnvironmentSpec_Deployer :: Deployer
  EnvironmentSpec_Promotion :: "EnvironmentPromotion option"

record EnvironmentClusters =
  EnvironmentClusters_Selected :: int32
  EnvironmentClusters_Ready :: int32

record EnvironmentStatus =
  EnvironmentStatus_ObservedGeneration :: int64
  EnvironmentStatus_Clusters :: "EnvironmentClusters option"
  EnvironmentStatus_Conditions :: "condition list"

record Environment =
  Environment_ObjectMeta :: object_meta
  Environment_Spec :: EnvironmentSpec
  Environment_Status :: EnvironmentStatus

section \<open>Methods\<close>

definition Cluster_GetConditions :: "Cluster \<Rightarrow> condition list" where
  "Cluster_GetConditions o1 = ClusterStatus_Conditions (Cluster_Status o1)"

definition Cluster_SetConditions :: "condition list \<Rightarrow> Cluster \<Rightarrow> Cluster" where
  "Cluster_SetConditions conditions o1 = o1\<lparr>Cluster_Status := Cluster_Status o1\<lparr>ClusterStatus_Conditions := conditions\<rparr>\<rparr>"

definition Environment_GetConditions :: "Environment \<Rightarrow> condition list" where
  "Environment_GetConditions o1 = EnvironmentStatus_Conditions (Environment_Status o1)"

definition Environment_SetConditions :: "condition list \<Rightarrow> Environment \<Rightarrow> Environment" where
  "Environment_SetConditions conditions o1 = o1\<lparr>Environment_Status := Environment_Status o1\<lparr>EnvironmentStatus_Conditions := conditions\<rparr>\<rparr>"

end
