(* ===== verification/Resolve_Merge.thy ===== *)
theory Resolve_Merge
  imports Api_Product Api_Kitchen Api_Cluster Api_Preparation "HOL-Library.Sublist"
begin

text \<open>
  What an Order renders (\<open>internal/resolve\<close>): its values and patches merged over its Product's and
  checked against the Product's overrides, the source pinned to the digest the Product resolved, the
  namespace it deploys into, and the clusters its Environment selects. Values are decoded JSON
  objects, lists of fields with distinct keys; where the code ranges over a map and returns the
  first error, the model takes the order of the list, and the theorems are about whether there is an
  error.
\<close>

type_synonym fields = "(string \<times> json) list"

section \<open>Merging values\<close>

fun mergeMaps :: "fields \<Rightarrow> fields \<Rightarrow> fields" where
  "mergeMaps dst [] = dst"
| "mergeMaps dst ((k, v) # src) =
     mergeMaps (AList.update k
       (case v of
          JObj srcMap \<Rightarrow> (case map_of dst k of Some (JObj dstMap) \<Rightarrow> JObj (mergeMaps dstMap srcMap) | _ \<Rightarrow> v)
        | _ \<Rightarrow> v) dst) src"

definition nested_path :: "string \<Rightarrow> string \<Rightarrow> string" where
  "nested_path within k = (if within \<noteq> [] then within @ ''.'' @ k else k)"

fun validateValuePaths :: "string \<Rightarrow> fields \<Rightarrow> string set \<Rightarrow> string option" where
  "validateValuePaths within [] allowed = None"
| "validateValuePaths within ((k, v) # rest) allowed =
     (let path = nested_path within k in
      case (case v of JObj nested \<Rightarrow> validateValuePaths path nested allowed
            | _ \<Rightarrow> if path \<notin> allowed then Some (''value path '' @ go_quote path @ '' is not allowed'') else None) of
        Some err \<Rightarrow> Some err
      | None \<Rightarrow> validateValuePaths within rest allowed)"

definition validateValues :: "ValueOverrides \<Rightarrow> fields \<Rightarrow> string option" where
  "validateValues overrides values =
     (if ValueOverrides_Policy overrides = OverridePolicyAll then None
      else validateValuePaths [] values
        (if ValueOverrides_Policy overrides = OverridePolicyListed then set (ValueOverrides_Paths overrides) else {}))"

fun json_kind :: "json \<Rightarrow> string" where
  "json_kind JNull = ''null''"
| "json_kind (JBool _) = ''bool''"
| "json_kind (JNum _) = ''number''"
| "json_kind (JStr _) = ''string''"
| "json_kind (JArr _) = ''array''"
| "json_kind (JObj _) = ''object''"

text \<open>Decoding a JSON document into a Go map: an object, or null, which leaves the map nil.\<close>

fun decodeValues :: "json \<Rightarrow> string + fields" where
  "decodeValues (JObj fs) = Inr fs"
| "decodeValues JNull = Inr []"
| "decodeValues v = Inl (''json: cannot unmarshal '' @ json_kind v @ '' into Go value of type map[string]interface {}'')"

definition mergeRender :: "Product \<Rightarrow> Order \<Rightarrow> string + Render option" where
  "mergeRender product order =
     (let result = ProductSpec_Render (Product_Spec product); name = om_Name (Product_ObjectMeta product) in
      case OrderSpec_Values (Order_Spec order) of
        None \<Rightarrow> Inr result
      | Some raw \<Rightarrow>
        (case Option.bind result Render_Helm of
           None \<Rightarrow> Inl (''values are only allowed when the Product renders with Helm; Product '' @ go_quote name @ '' does not'')
         | Some helm \<Rightarrow>
           (case decodeValues raw of
              Inl err \<Rightarrow> Inl (''failed to parse Order values: '' @ err)
            | Inr orderValues \<Rightarrow>
              (case validateValues (Overrides_Values (ProductSpec_Overrides (Product_Spec product))) orderValues of
                 Some err \<Rightarrow> Inl (''values not allowed by Product '' @ go_quote name @ '': '' @ err)
               | None \<Rightarrow>
                 (case (case HelmRender_Values helm of None \<Rightarrow> Inr [] | Some base \<Rightarrow> decodeValues base) of
                    Inl err \<Rightarrow> Inl (''failed to parse Product values: '' @ err)
                  | Inr baseValues \<Rightarrow>
                      Inr (map_option (\<lambda>r. r\<lparr>Render_Helm := Some (helm\<lparr>HelmRender_Values := Some (JObj (mergeMaps baseValues orderValues))\<rparr>)\<rparr>)
                             result))))))"

section \<open>Merging patches\<close>

definition describeTarget :: "PatchTarget \<Rightarrow> string" where
  "describeTarget target =
     (if PatchTarget_Namespace target = [] then PatchTarget_Kind target @ ''/'' @ PatchTarget_Name target
      else PatchTarget_Namespace target @ ''/'' @ PatchTarget_Kind target @ ''/'' @ PatchTarget_Name target)"

definition target_matches :: "PatchTarget \<Rightarrow> AllowedPatchTarget \<Rightarrow> bool" where
  "target_matches target a =
     (let t = AllowedPatchTarget_Target a in
      \<not> (PatchTarget_Kind t \<noteq> PatchTarget_Kind target \<or> PatchTarget_Name t \<noteq> PatchTarget_Name target)
      \<and> \<not> (PatchTarget_Namespace t \<noteq> [] \<and> PatchTarget_Namespace t \<noteq> PatchTarget_Namespace target))"

definition validatePatchAllowed :: "Patch \<Rightarrow> AllowedPatchTarget list \<Rightarrow> string option" where
  "validatePatchAllowed patch allowed =
     (let target = Patch_Target patch;
          matching = filter (target_matches target) allowed;
          paths = concat (map AllowedPatchTarget_Paths matching)
      in if matching = [] then Some (''patch target '' @ describeTarget target @ '' is not allowed'')
         else map_option (\<lambda>path. ''patch path '' @ go_quote path @ '' on '' @ describeTarget target @ '' is not allowed'')
                (find (\<lambda>path. path \<notin> set paths) (sort_cmp ord_compare (map fst (Patch_Set patch)))))"

fun first_error :: "('a \<Rightarrow> string option) \<Rightarrow> 'a list \<Rightarrow> string option" where
  "first_error check [] = None"
| "first_error check (x # xs) = (case check x of Some err \<Rightarrow> Some err | None \<Rightarrow> first_error check xs)"

definition validatePatches :: "PatchOverrides \<Rightarrow> Patch list \<Rightarrow> string option" where
  "validatePatches overrides patches =
     (if PatchOverrides_Policy overrides = OverridePolicyAll then None
      else first_error (\<lambda>patch. validatePatchAllowed patch
        (if PatchOverrides_Policy overrides = OverridePolicyListed then PatchOverrides_Targets overrides else [])) patches)"

text \<open>
  The patches by target, in the order their targets are first named: \<open>merged\<close> and \<open>ordering\<close> of the
  code in one association list. \<open>maps.Copy\<close> adds the entries of a set, the later one winning.
\<close>

definition copy_set :: "(string \<times> string) list \<Rightarrow> (string \<times> string) list \<Rightarrow> (string \<times> string) list" where
  "copy_set dst src = foldl (\<lambda>d (k, v). AList.update k v d) dst src"

definition merge_patch :: "(PatchTarget \<times> (string \<times> string) list) list \<Rightarrow> Patch \<Rightarrow> (PatchTarget \<times> (string \<times> string) list) list" where
  "merge_patch merged p =
     (let key = Patch_Target p;
          before = (case map_of merged key of Some s \<Rightarrow> s | None \<Rightarrow> [])
      in AList.update key (copy_set before (Patch_Set p)) merged)"

definition mergePatches :: "Product \<Rightarrow> Order \<Rightarrow> string + Patch list" where
  "mergePatches product order =
     (let own = OrderSpec_Patches (Order_Spec order); base = ProductSpec_Patches (Product_Spec product) in
      if own = [] then Inr base
      else case validatePatches (Overrides_Patches (ProductSpec_Overrides (Product_Spec product))) own of
        Some err \<Rightarrow> Inl (''patches not allowed by Product '' @ go_quote (om_Name (Product_ObjectMeta product)) @ '': '' @ err)
      | None \<Rightarrow> Inr (map (\<lambda>(key, s). \<lparr>Patch_Target = key, Patch_Set = s\<rparr>) (foldl merge_patch [] (base @ own))))"

definition validateEdits :: "Product \<Rightarrow> Order \<Rightarrow> string option" where
  "validateEdits product order =
     map_option (\<lambda>err. ''edits not allowed by Product '' @ go_quote (om_Name (Product_ObjectMeta product)) @ '': '' @ err)
       (validatePatches (Overrides_Patches (ProductSpec_Overrides (Product_Spec product))) (OrderSpec_Edits (Order_Spec order)))"

section \<open>The effective spec\<close>

record ProductIdentity =
  ProductIdentity_Name :: string
  ProductIdentity_ConfigHash :: string

record EffectiveSpec =
  EffectiveSpec_Source :: OCISource
  EffectiveSpec_SourceDigest :: string
  EffectiveSpec_SourceVerified :: "SourceVerification option"
  EffectiveSpec_Render :: "Render option"
  EffectiveSpec_Patches :: "Patch list"
  EffectiveSpec_Edits :: "Patch list"
  EffectiveSpec_Images :: ProductImages
  EffectiveSpec_ImagesVendorURL :: string
  EffectiveSpec_RegistryRefs :: "local_object_reference list"
  EffectiveSpec_Product :: ProductIdentity
  EffectiveSpec_ProductRevision :: string
  EffectiveSpec_TargetNamespace :: string

text \<open>\<open>meta.FindStatusCondition\<close> of the Kubernetes library is an argument.\<close>

definition ProductReady :: "(condition list \<Rightarrow> string \<Rightarrow> condition option) \<Rightarrow> Product \<Rightarrow> bool" where
  "ProductReady find_condition product =
     (if ProductStatus_Source (Product_Status product) = None then False
      else case find_condition (ProductStatus_Conditions (Product_Status product)) ConditionTypeReady of
        None \<Rightarrow> False
      | Some ready \<Rightarrow> c_Status ready = ConditionTrue \<and> c_ObservedGeneration ready = om_Generation (Product_ObjectMeta product))"

definition TargetNamespace :: "Product \<Rightarrow> Order \<Rightarrow> string" where
  "TargetNamespace product order =
     str_or [OrderSpec_TargetNamespace (Order_Spec order), ProductSpec_TargetNamespace (Product_Spec product),
             om_Namespace (Order_ObjectMeta order)]"

text \<open>The Product revision, a SHA-256 over canonical JSON, is an argument of \<open>ForProduct\<close>.\<close>

definition ForProduct :: "(Product \<Rightarrow> string + string) \<Rightarrow> Product \<Rightarrow> Order \<Rightarrow> string + EffectiveSpec" where
  "ForProduct product_revision product order =
     (case ProductStatus_Source (Product_Status product) of
        None \<Rightarrow> Inl (''product '' @ go_quote (om_Name (Product_ObjectMeta product)) @ '' source is not resolved yet'')
      | Some source \<Rightarrow>
        (case mergeRender product order of Inl err \<Rightarrow> Inl err | Inr render \<Rightarrow>
        (case mergePatches product order of Inl err \<Rightarrow> Inl err | Inr patches \<Rightarrow>
        (case validateEdits product order of Some err \<Rightarrow> Inl err | None \<Rightarrow>
        (case product_revision product of Inl err \<Rightarrow> Inl err | Inr revision \<Rightarrow>
          Inr \<lparr>EffectiveSpec_Source = \<lparr>OCISource_URL = ProductSourceStatus_URL source,
                 OCISource_Version = ProductSourceStatus_Version source, OCISource_Verify = None\<rparr>,
               EffectiveSpec_SourceDigest = ProductSourceStatus_Digest source,
               EffectiveSpec_SourceVerified = ProductSourceStatus_Verified source,
               EffectiveSpec_Render = render, EffectiveSpec_Patches = patches,
               EffectiveSpec_Edits = OrderSpec_Edits (Order_Spec order),
               EffectiveSpec_Images = ProductSpec_Images (Product_Spec product),
               EffectiveSpec_ImagesVendorURL =
                 (if ProductImages_EffectivePolicy (ProductSpec_Images (Product_Spec product)) = ImagePolicyVendor
                  then ProductSourceStatus_URL source else []),
               EffectiveSpec_RegistryRefs = ProductSpec_RegistryRefs (Product_Spec product),
               EffectiveSpec_Product = \<lparr>ProductIdentity_Name = om_Name (Product_ObjectMeta product),
                 ProductIdentity_ConfigHash = ProductStatus_ConfigHash (Product_Status product)\<rparr>,
               EffectiveSpec_ProductRevision = revision,
               EffectiveSpec_TargetNamespace = TargetNamespace product order\<rparr>)))))"

record images_image =
  im_Ref :: string
  im_Name :: string
  im_Digest :: string
  im_MediaType :: string
  im_Vendored :: string
  im_Error :: string

record mirror =
  mi_Prefix :: string
  mi_Location :: string

definition LockedImages :: "Preparation option \<Rightarrow> images_image list" where
  "LockedImages preparation =
     (case preparation of None \<Rightarrow> []
      | Some p \<Rightarrow> map (\<lambda>img. \<lparr>im_Ref = PreparationImage_Ref img, im_Name = PreparationImage_Name img,
          im_Digest = PreparationImage_Digest img, im_MediaType = PreparationImage_MediaType img,
          im_Vendored = PreparationImage_Vendored img, im_Error = []\<rparr>) (PreparationSpec_Images (Preparation_Spec p)))"

definition ImageMirrors :: "Kitchen option \<Rightarrow> mirror list" where
  "ImageMirrors kitchen =
     (case Option.bind kitchen (\<lambda>k. KitchenSpec_Images (Kitchen_Spec k)) of None \<Rightarrow> []
      | Some images \<Rightarrow> map (\<lambda>m. \<lparr>mi_Prefix = ImageMirror_Prefix m, mi_Location = trim_prefix ''oci://'' (ImageMirror_Location m)\<rparr>)
          (KitchenImages_Mirrors images))"

section \<open>Intents\<close>

record IntentImages =
  IntentImages_Policy :: ImagePolicy
  IntentImages_FieldSpecs :: "ImageFieldSpec list"
  IntentImages_Vendor :: string

record IntentSource =
  IntentSource_OCI :: string
  IntentSource_Version :: string
  IntentSource_Digest :: string

record Intent =
  Intent_Source :: IntentSource
  Intent_ProductRevision :: string
  Intent_Destination :: string
  Intent_TargetNamespace :: string
  Intent_Render :: "Render option"
  Intent_Patches :: "Patch list"
  Intent_Edits :: "Patch list"
  Intent_Images :: "IntentImages option"
  Intent_Promotion :: "PromotionGates option"

definition intentImages :: "ProductImages \<Rightarrow> string \<Rightarrow> IntentImages option" where
  "intentImages images vendorURL =
     (let policy = ProductImages_EffectivePolicy images in
      if policy = ImagePolicyRecord \<and> ProductImages_FieldSpecs images = [] then None
      else Some \<lparr>IntentImages_Policy = policy, IntentImages_FieldSpecs = ProductImages_FieldSpecs images, IntentImages_Vendor = vendorURL\<rparr>)"

definition NewIntent :: "Order \<Rightarrow> EffectiveSpec \<Rightarrow> string \<Rightarrow> Intent" where
  "NewIntent order effective destination =
     \<lparr>Intent_Source = \<lparr>IntentSource_OCI = OCISource_URL (EffectiveSpec_Source effective),
        IntentSource_Version = OCISource_Version (EffectiveSpec_Source effective),
        IntentSource_Digest = EffectiveSpec_SourceDigest effective\<rparr>,
      Intent_ProductRevision = EffectiveSpec_ProductRevision effective, Intent_Destination = destination,
      Intent_TargetNamespace = EffectiveSpec_TargetNamespace effective, Intent_Render = EffectiveSpec_Render effective,
      Intent_Patches = EffectiveSpec_Patches effective, Intent_Edits = EffectiveSpec_Edits effective,
      Intent_Images = intentImages (EffectiveSpec_Images effective) (EffectiveSpec_ImagesVendorURL effective),
      Intent_Promotion = Order_PromotionGates order\<rparr>"

section \<open>Selecting clusters\<close>

text \<open>Parsing a label selector and matching labels against it are the Kubernetes library's.\<close>

record ClusterSelection =
  cs_namespace :: string
  cs_matches :: "(string \<times> string) list \<Rightarrow> bool"

definition ClusterSelectionOf :: "(label_selector \<Rightarrow> string + ((string \<times> string) list \<Rightarrow> bool)) \<Rightarrow> Environment \<Rightarrow> string + ClusterSelection" where
  "ClusterSelectionOf as_selector env =
     (case as_selector (EnvironmentSpec_ClusterSelector (Environment_Spec env)) of
        Inl err \<Rightarrow> Inl err
      | Inr m \<Rightarrow> Inr \<lparr>cs_namespace = om_Namespace (Environment_ObjectMeta env), cs_matches = m\<rparr>)"

definition Matches :: "ClusterSelection \<Rightarrow> Cluster \<Rightarrow> bool" where
  "Matches s c = (om_Namespace (Cluster_ObjectMeta c) = cs_namespace s \<and> cs_matches s (om_Labels (Cluster_ObjectMeta c)))"

definition Selects :: "ClusterSelection \<Rightarrow> Cluster \<Rightarrow> bool" where
  "Selects s c = (Matches s c \<and> om_DeletionTimestamp (Cluster_ObjectMeta c) = None)"

definition SelectedClusters ::
    "(label_selector \<Rightarrow> string + ((string \<times> string) list \<Rightarrow> bool)) \<Rightarrow> Environment \<Rightarrow> Cluster list \<Rightarrow> string + Cluster list" where
  "SelectedClusters as_selector env clusters =
     (case ClusterSelectionOf as_selector env of
        Inl err \<Rightarrow> Inl err
      | Inr selection \<Rightarrow> Inr (sort_cmp (\<lambda>a b. str_compare (om_Name (Cluster_ObjectMeta a)) (om_Name (Cluster_ObjectMeta b)))
          (filter (Selects selection) clusters)))"

definition CommitMessage :: "(string \<rightharpoonup> string) \<Rightarrow> bool \<Rightarrow> string" where
  "CommitMessage annotations initial =
     (case annotations ''delivery.kokumi.dev/commit-message'' of
        Some message \<Rightarrow> message
      | None \<Rightarrow> if initial then ''Initial commit'' else ''Automatically generated'')"

section \<open>Values at a path\<close>

fun get_val :: "json \<Rightarrow> string list \<Rightarrow> json option" where
  "get_val v [] = Some v"
| "get_val v (k # ks) =
     (case v of JObj fs \<Rightarrow> (case map_of fs k of Some w \<Rightarrow> get_val w ks | None \<Rightarrow> None) | _ \<Rightarrow> None)"

fun is_object :: "json \<Rightarrow> bool" where
  "is_object (JObj fs) = True"
| "is_object _ = False"

definition leaf :: "json \<Rightarrow> string list \<Rightarrow> bool" where
  "leaf v ks \<longleftrightarrow> (\<exists>w. get_val v ks = Some w \<and> \<not> is_object w)"

text \<open>Keys are distinct at every level, and no object below the top is empty.\<close>

fun wf_fields :: "fields \<Rightarrow> bool" where
  "wf_fields [] = True"
| "wf_fields ((k, v) # fs) \<longleftrightarrow>
     k \<notin> fst ` set fs \<and> (case v of JObj sub \<Rightarrow> wf_fields sub | _ \<Rightarrow> True) \<and> wf_fields fs"

fun no_empty :: "fields \<Rightarrow> bool" where
  "no_empty [] = True"
| "no_empty ((k, v) # fs) \<longleftrightarrow> (case v of JObj sub \<Rightarrow> sub \<noteq> [] \<and> no_empty sub | _ \<Rightarrow> True) \<and> no_empty fs"

lemma wf_fields_distinct: "wf_fields fs \<Longrightarrow> distinct (map fst fs)"
  by (induction fs rule: wf_fields.induct) auto

lemma wf_fields_sub: "wf_fields fs \<Longrightarrow> map_of fs k = Some (JObj sub) \<Longrightarrow> wf_fields sub"
  by (induction fs rule: wf_fields.induct) (auto split: if_splits)

lemma no_empty_sub: "no_empty fs \<Longrightarrow> map_of fs k = Some (JObj sub) \<Longrightarrow> sub \<noteq> [] \<and> no_empty sub"
  by (induction fs rule: no_empty.induct) (auto split: if_splits)

definition merge_val :: "json option \<Rightarrow> json \<Rightarrow> json" where
  "merge_val old v =
     (case v of JObj s \<Rightarrow> (case old of Some (JObj d) \<Rightarrow> JObj (mergeMaps d s) | _ \<Rightarrow> v) | _ \<Rightarrow> v)"

lemma mergeMaps_Cons: "mergeMaps dst ((k, v) # src) = mergeMaps (AList.update k (merge_val (map_of dst k) v) dst) src"
  by (simp add: merge_val_def)

lemma mergeMaps_lookup:
  "distinct (map fst src) \<Longrightarrow>
     map_of (mergeMaps dst src) k = (case map_of src k of None \<Rightarrow> map_of dst k | Some v \<Rightarrow> Some (merge_val (map_of dst k) v))"
proof (induction src arbitrary: dst)
  case (Cons x src)
  obtain k' v where x: "x = (k', v)" by (cases x)
  have "map_of src k' = None" using Cons.prems x by (simp add: map_of_eq_None_iff)
  then show ?case
    using Cons unfolding x mergeMaps_Cons
    by (cases "k = k'") (auto simp: update_conv' split: option.splits)
qed simp

text \<open>Every object that is not empty has a leaf below it.\<close>

lemma leaf_below:
  "fs \<noteq> [] \<Longrightarrow> no_empty fs \<Longrightarrow> \<exists>ks. leaf (JObj fs) ks"
proof (induction fs rule: no_empty.induct)
  case (2 k v fs)
  show ?case
  proof (cases v)
    case (JObj sub)
    then obtain ks where "leaf v ks" using 2 by auto
    then have "leaf (JObj ((k, v) # fs)) (k # ks)" by (simp add: leaf_def)
    then show ?thesis by blast
  qed (auto simp: leaf_def intro!: exI [of _ "[k]"])
qed simp

lemma leaf_extends:
  assumes "get_val v ks = Some w" "leaf w ls"
  shows "leaf v (ks @ ls)"
  using assms
proof (induction ks arbitrary: v)
  case (Cons k ks)
  then show ?case by (auto simp: leaf_def split: json.splits option.splits)
qed (simp add: leaf_def)

lemma no_empty_get: "no_empty fs \<Longrightarrow> fs \<noteq> [] \<Longrightarrow> get_val (JObj fs) ks = Some (JObj sub) \<Longrightarrow> sub \<noteq> [] \<and> no_empty sub"
proof (induction ks arbitrary: fs)
  case (Cons k ks)
  then obtain w where w: "map_of fs k = Some w" "get_val w ks = Some (JObj sub)" by (auto split: option.splits)
  then show ?case
  proof (cases w)
    case (JObj sub')
    then show ?thesis using Cons.IH [of sub'] no_empty_sub [OF Cons.prems(1)] w by auto
  qed (cases ks; auto)+
qed simp

text \<open>A value under an object with no empty objects has a leaf at or below it.\<close>

lemma leaf_at_or_below:
  assumes "no_empty fs" "fs \<noteq> []" "get_val (JObj fs) ks = Some w"
  shows "\<exists>ls. leaf (JObj fs) (ks @ ls)"
proof (cases "is_object w")
  case True
  then obtain sub where sub: "w = JObj sub" by (cases w) auto
  then obtain ls where "leaf w ls" using no_empty_get [OF assms(1,2)] assms(3) leaf_below by blast
  then show ?thesis using leaf_extends [OF assms(3)] by blast
next
  case False
  then show ?thesis using assms(3) by (intro exI [of _ "[]"]) (simp add: leaf_def)
qed

lemma merge_confined:
  assumes "wf_fields src" "no_empty src" "\<And>ls. leaf (JObj src) ls \<Longrightarrow> \<not> prefix ls ks \<and> \<not> prefix ks ls"
  shows "get_val (JObj (mergeMaps dst src)) ks = get_val (JObj dst) ks"
  using assms
proof (induction ks arbitrary: dst src)
  case Nil
  then have "src = []" using leaf_below [of src] by auto
  then show ?case by simp
next
  case (Cons k ks)
  note lookup = mergeMaps_lookup [OF wf_fields_distinct [OF Cons.prems(1)], of dst k]
  show ?case
  proof (cases "map_of src k")
    case None
    then show ?thesis using lookup by simp
  next
    case (Some v)
    have "is_object v"
    proof (rule ccontr)
      assume "\<not> is_object v"
      then have "leaf (JObj src) [k]" using Some by (simp add: leaf_def)
      then show False using Cons.prems(3) by force
    qed
    then obtain s where s: "v = JObj s" by (cases v) auto
    have sub: "wf_fields s" "s \<noteq> []" "no_empty s"
      using wf_fields_sub [OF Cons.prems(1)] no_empty_sub [OF Cons.prems(2)] Some s by auto
    have below: "\<not> prefix ls ks \<and> \<not> prefix ks ls" if "leaf (JObj s) ls" for ls
      using leaf_extends [of "JObj src" "[k]" v ls] Cons.prems(3) [of "k # ls"] that Some s by simp
    have none: "get_val (JObj s) ks = None"
    proof (rule ccontr)
      assume "get_val (JObj s) ks \<noteq> None"
      then obtain ls where "leaf (JObj s) (ks @ ls)" using leaf_at_or_below [OF sub(3,2)] by blast
      then show False using below by force
    qed
    show ?thesis
    proof (cases "map_of dst k")
      case None
      then show ?thesis using lookup Some s none by (simp add: merge_val_def)
    next
      case (Some d)
      show ?thesis
      proof (cases "is_object d")
        case True
        then obtain dm where "d = JObj dm" by (cases d) auto
        then show ?thesis
          using lookup Some \<open>map_of src k = Some v\<close> s Cons.IH [OF sub(1,3) below, of dm] by (simp add: merge_val_def)
      next
        case False
        have "ks \<noteq> []" using none by auto
        then show ?thesis
          using False lookup Some \<open>map_of src k = Some v\<close> s none by (cases d; cases ks) (auto simp: merge_val_def)
      qed
    qed
  qed
qed

section \<open>What the overrides allow\<close>

definition path_string :: "string \<Rightarrow> string list \<Rightarrow> string" where
  "path_string base ks = foldl nested_path base ks"

lemma validate_Cons:
  "validateValuePaths base ((k, v) # rest) allowed = None \<longleftrightarrow>
     (case v of JObj nested \<Rightarrow> validateValuePaths (nested_path base k) nested allowed = None
      | _ \<Rightarrow> nested_path base k \<in> allowed) \<and> validateValuePaths base rest allowed = None"
  by (auto simp: Let_def split: json.splits option.splits)

lemma leaf_Cons:
  assumes "wf_fields ((k, v) # rest)"
  shows "leaf (JObj ((k, v) # rest)) ks \<longleftrightarrow> (\<exists>ks'. ks = k # ks' \<and> leaf v ks') \<or> leaf (JObj rest) ks"
proof (cases ks)
  case (Cons k' ks')
  have "map_of rest k = None" using assms by (simp add: map_of_eq_None_iff)
  then show ?thesis using Cons by (cases "k' = k") (auto simp: leaf_def)
qed (simp add: leaf_def)

lemma leaf_Nil: "leaf (JObj []) ks \<longleftrightarrow> False"
  by (cases ks) (auto simp: leaf_def)

lemma path_string_Cons: "path_string base (k # ks) = path_string (nested_path base k) ks"
  by (simp add: path_string_def)

lemma leaf_scalar: "\<not> is_object v \<Longrightarrow> leaf v ks \<longleftrightarrow> ks = []"
  by (cases ks; cases v) (auto simp: leaf_def)

lemma validateValuePaths_iff:
  "wf_fields fs \<Longrightarrow> validateValuePaths base fs allowed = None \<longleftrightarrow> (\<forall>ks. leaf (JObj fs) ks \<longrightarrow> path_string base ks \<in> allowed)"
proof (induction fs arbitrary: base rule: wf_fields.induct)
  case 1
  then show ?case by (simp add: leaf_Nil)
next
  case (2 k v rest)
  have rest: "validateValuePaths base rest allowed = None \<longleftrightarrow> (\<forall>ks. leaf (JObj rest) ks \<longrightarrow> path_string base ks \<in> allowed)"
    using 2 by simp
  have "(case v of JObj nested \<Rightarrow> validateValuePaths (nested_path base k) nested allowed = None
      | _ \<Rightarrow> nested_path base k \<in> allowed) \<longleftrightarrow> (\<forall>ks. leaf v ks \<longrightarrow> path_string base (k # ks) \<in> allowed)"
  proof (cases "is_object v")
    case True
    then obtain sub where "v = JObj sub" by (cases v) auto
    then show ?thesis using 2 by (simp add: path_string_Cons)
  next
    case False
    then show ?thesis by (cases v) (auto simp: leaf_scalar path_string_def)
  qed
  then show ?case
    unfolding validate_Cons leaf_Cons [OF 2(3)] rest by blast
qed

section \<open>Patches at a path\<close>

definition patch_value :: "Patch list \<Rightarrow> PatchTarget \<Rightarrow> string \<Rightarrow> string option" where
  "patch_value patches target path =
     map_of (concat (map Patch_Set (filter (\<lambda>p. Patch_Target p = target) (rev patches)))) path"

lemma copy_set_lookup:
  "distinct (map fst src) \<Longrightarrow> map_of (copy_set dst src) path = (case map_of src path of Some v \<Rightarrow> Some v | None \<Rightarrow> map_of dst path)"
proof (induction src arbitrary: dst)
  case (Cons x src)
  obtain k v where x: "x = (k, v)" by (cases x)
  then have "map_of src k = None" using Cons.prems by (simp add: map_of_eq_None_iff)
  moreover have "copy_set dst (x # src) = copy_set (AList.update k v dst) src" by (simp add: copy_set_def x)
  ultimately show ?case using Cons x by (cases "path = k") (auto simp: update_conv' split: option.splits)
qed (simp add: copy_set_def)

definition value_in :: "(PatchTarget \<times> (string \<times> string) list) list \<Rightarrow> PatchTarget \<Rightarrow> string \<Rightarrow> string option" where
  "value_in merged target path = Option.bind (map_of merged target) (\<lambda>s. map_of s path)"

lemma value_in_merge:
  assumes "distinct (map fst (Patch_Set p))"
  shows "value_in (merge_patch merged p) target path =
    (if Patch_Target p = target then (case map_of (Patch_Set p) path of Some v \<Rightarrow> Some v | None \<Rightarrow> value_in merged target path)
     else value_in merged target path)"
  using copy_set_lookup [OF assms]
  by (auto simp: value_in_def merge_patch_def Let_def update_conv' split: option.splits)

lemma value_in_merged:
  assumes "\<forall>p\<in>set patches. distinct (map fst (Patch_Set p))"
  shows "value_in (foldl merge_patch [] patches) target path = patch_value patches target path"
  using assms
proof (induction patches rule: rev_induct)
  case Nil
  then show ?case by (simp add: value_in_def patch_value_def)
next
  case (snoc p patches)
  then show ?case
    by (auto simp: value_in_merge patch_value_def map_add_def split: option.splits)
qed

lemma merged_targets:
  "distinct (map fst (foldl merge_patch [] patches)) \<and> fst ` set (foldl merge_patch [] patches) = Patch_Target ` set patches"
proof (induction patches rule: rev_induct)
  case (snoc p patches)
  then show ?case by (auto simp: merge_patch_def Let_def distinct_update dom_update)
qed simp

lemma validatePatchAllowed_iff:
  "validatePatchAllowed patch allowed = None \<longleftrightarrow>
     (\<exists>a\<in>set allowed. target_matches (Patch_Target patch) a)
   \<and> (\<forall>path\<in>fst ` set (Patch_Set patch). \<exists>a\<in>set allowed. target_matches (Patch_Target patch) a \<and> path \<in> set (AllowedPatchTarget_Paths a))"
proof -
  let ?m = "filter (target_matches (Patch_Target patch)) allowed"
  have "find (\<lambda>path. path \<notin> set (concat (map AllowedPatchTarget_Paths ?m))) (sort_cmp ord_compare (map fst (Patch_Set patch))) = None
      \<longleftrightarrow> (\<forall>path\<in>fst ` set (Patch_Set patch). \<exists>a\<in>set allowed. target_matches (Patch_Target patch) a \<and> path \<in> set (AllowedPatchTarget_Paths a))"
    unfolding find_None_iff by auto
  then show ?thesis by (auto simp: validatePatchAllowed_def Let_def filter_empty_conv)
qed

lemma first_error_None: "first_error check xs = None \<longleftrightarrow> (\<forall>x\<in>set xs. check x = None)"
  by (induction xs) (auto split: option.splits)

lemma patch_value_append:
  "patch_value (xs @ ys) target path = (case patch_value ys target path of Some v \<Rightarrow> Some v | None \<Rightarrow> patch_value xs target path)"
  unfolding patch_value_def by (simp add: map_add_def)

lemma patch_value_single: "patch_value [p] target path = (if Patch_Target p = target then map_of (Patch_Set p) path else None)"
  by (simp add: patch_value_def)

lemma patch_value_Cons:
  "patch_value (p # ps) target path =
     (case patch_value ps target path of Some v \<Rightarrow> Some v
      | None \<Rightarrow> if Patch_Target p = target then map_of (Patch_Set p) path else None)"
  unfolding patch_value_append [of "[p]" ps, unfolded append.simps] patch_value_single ..

lemma patch_value_None: "target \<notin> Patch_Target ` set ps \<Longrightarrow> patch_value ps target path = None"
  by (induction ps) (auto simp: patch_value_Cons patch_value_def [of "[]"])

lemma patch_value_result:
  "distinct (map fst m) \<Longrightarrow> patch_value (map (\<lambda>(key, s). \<lparr>Patch_Target = key, Patch_Set = s\<rparr>) m) target path = value_in m target path"
proof (induction m)
  case Nil
  then show ?case by (simp add: patch_value_def value_in_def)
next
  case (Cons x m)
  obtain key s where x: "x = (key, s)" by (cases x)
  have "patch_value (map (\<lambda>(key, s). \<lparr>Patch_Target = key, Patch_Set = s\<rparr>) m) key path = None"
    using Cons.prems x by (intro patch_value_None) force
  then show ?case using Cons x by (auto simp: patch_value_Cons value_in_def split: option.splits)
qed

lemma patch_value_set: "patch_value ps target path = Some v \<Longrightarrow> \<exists>p\<in>set ps. Patch_Target p = target \<and> path \<in> fst ` set (Patch_Set p)"
  by (induction ps) (auto simp: patch_value_Cons patch_value_def [of "[]"] dest: map_of_SomeD split: option.splits if_splits intro: rev_image_eqI)

interpretation cluster_names: three_way "\<lambda>a b. str_compare (om_Name (Cluster_ObjectMeta a)) (om_Name (Cluster_ObjectMeta b))"
  by (rule three_way_ord)

section \<open>Properties\<close>

text \<open>The paths and patch targets a Product lets its Orders override.\<close>

definition allowed_values :: "Product \<Rightarrow> string set" where
  "allowed_values product =
     (let o1 = Overrides_Values (ProductSpec_Overrides (Product_Spec product)) in
      if ValueOverrides_Policy o1 = OverridePolicyListed then set (ValueOverrides_Paths o1) else {})"

definition allowed_targets :: "Product \<Rightarrow> AllowedPatchTarget list" where
  "allowed_targets product =
     (let o1 = Overrides_Patches (ProductSpec_Overrides (Product_Spec product)) in
      if PatchOverrides_Policy o1 = OverridePolicyListed then PatchOverrides_Targets o1 else [])"

definition helm_values :: "Render option \<Rightarrow> fields" where
  "helm_values render =
     (case Option.bind (Option.bind render Render_Helm) HelmRender_Values of Some (JObj fs) \<Rightarrow> fs | _ \<Rightarrow> [])"

definition sample_product :: "json option \<Rightarrow> OverridePolicy \<Rightarrow> Product" where
  "sample_product base policy =
     \<lparr>Product_ObjectMeta = \<lparr>om_Name = ''p'', om_Namespace = [], om_UID = [], om_Generation = 0, om_CreationTimestamp = 0,
        om_DeletionTimestamp = None, om_Labels = [], om_Annotations = [], om_Finalizers = [],
        om_OwnerReferences = [], om_ResourceVersion = []\<rparr>,
      Product_Spec = \<lparr>ProductSpec_Source = \<lparr>OCISource_URL = [], OCISource_Version = [], OCISource_Verify = None\<rparr>,
        ProductSpec_Vendor = None,
        ProductSpec_Render = Some \<lparr>Render_Helm = Some \<lparr>HelmRender_ReleaseName = [], HelmRender_IncludeCRDs = False,
          HelmRender_Values = base\<rparr>, Render_Manifest = None\<rparr>,
        ProductSpec_TargetNamespace = [], ProductSpec_Patches = [],
        ProductSpec_Overrides = \<lparr>Overrides_Values = \<lparr>ValueOverrides_Policy = policy, ValueOverrides_Paths = [''a'']\<rparr>,
          Overrides_Patches = \<lparr>PatchOverrides_Policy = policy, PatchOverrides_Targets =
            [\<lparr>AllowedPatchTarget_Target = \<lparr>PatchTarget_Kind = ''k'', PatchTarget_Name = ''n'', PatchTarget_Namespace = []\<rparr>,
              AllowedPatchTarget_Paths = [''a'']\<rparr>]\<rparr>\<rparr>,
        ProductSpec_Images = \<lparr>ProductImages_Policy = ImagePolicyUnset, ProductImages_FieldSpecs = []\<rparr>,
        ProductSpec_RegistryRefs = []\<rparr>,
      Product_Status = \<lparr>ProductStatus_ObservedGeneration = 0, ProductStatus_ConfigHash = [], ProductStatus_Source = None,
        ProductStatus_RegistryAccess = [], ProductStatus_Vulnerabilities = None, ProductStatus_Conditions = []\<rparr>\<rparr>"

definition sample_order :: "json option \<Rightarrow> Patch list \<Rightarrow> Order" where
  "sample_order vs patches =
     \<lparr>Order_ObjectMeta = \<lparr>om_Name = ''o'', om_Namespace = [], om_UID = [], om_Generation = 0, om_CreationTimestamp = 0,
        om_DeletionTimestamp = None, om_Labels = [], om_Annotations = [], om_Finalizers = [],
        om_OwnerReferences = [], om_ResourceVersion = []\<rparr>,
      Order_Spec = \<lparr>OrderSpec_ProductRef = \<lparr>ProductRef_Name = ''p''\<rparr>, OrderSpec_Values = vs, OrderSpec_Destination = None,
        OrderSpec_RegistryRefs = [], OrderSpec_Patches = patches, OrderSpec_Edits = [], OrderSpec_Promotion = None,
        OrderSpec_EnvironmentRef = \<lparr>EnvironmentRef_Name = ''e''\<rparr>, OrderSpec_TargetNamespace = []\<rparr>,
      Order_Status = \<lparr>OrderStatus_ObservedGeneration = 0, OrderStatus_LatestPreparationName = [],
        OrderStatus_LatestArtifactDigest = [], OrderStatus_LatestConfigHash = [], OrderStatus_Render = None,
        OrderStatus_RegistryAccess = [], OrderStatus_Conditions = []\<rparr>\<rparr>"

text \<open>C37: An Order changes only values its Product allows: when merging succeeds under a policy other than All,
  and the Order's values hold no empty objects, then wherever the merged Helm values differ from the
  Product's, the Order sets a value on that path, at, above or below it, whose dotted path the Product
  lists.\<close>

theorem values_confined:
  assumes "mergeRender product order = Inr render" "OrderSpec_Values (Order_Spec order) = Some (JObj src)"
    and "wf_fields src" "no_empty src"
    and "ValueOverrides_Policy (Overrides_Values (ProductSpec_Overrides (Product_Spec product))) \<noteq> OverridePolicyAll"
    and "get_val (JObj (helm_values render)) ks \<noteq> get_val (JObj (helm_values (ProductSpec_Render (Product_Spec product)))) ks"
  shows "\<exists>ls. leaf (JObj src) ls \<and> path_string [] ls \<in> allowed_values product \<and> (prefix ls ks \<or> prefix ks ls)"
proof -
  obtain r helm where r: "ProductSpec_Render (Product_Spec product) = Some r" "Render_Helm r = Some helm"
    using assms(1,2) by (auto simp: mergeRender_def Let_def split: option.splits bind_splits)
  then have ok: "validateValuePaths [] src (allowed_values product) = None"
    using assms(1,2,5) by (auto simp: mergeRender_def Let_def validateValues_def allowed_values_def split: option.splits)
  obtain base where base: "(case HelmRender_Values helm of None \<Rightarrow> Inr [] | Some b \<Rightarrow> decodeValues b) = Inr base"
    "helm_values render = mergeMaps base src"
    using assms(1,2) r by (auto simp: mergeRender_def Let_def helm_values_def split: option.splits sum.splits)
  have "helm_values (ProductSpec_Render (Product_Spec product)) = base"
    using base(1) r by (auto simp: helm_values_def split: option.splits json.splits elim: decodeValues.elims)
  then obtain ls where "leaf (JObj src) ls" "prefix ls ks \<or> prefix ks ls"
    using merge_confined [OF assms(3,4), of ks base] assms(6) base(2) by auto
  then show ?thesis using ok validateValuePaths_iff [OF assms(3), of "[]"] by blast
qed

lemma sample_merge:
  "mergeRender (sample_product (Some (JObj [(''a'', JNum ''1'')])) OverridePolicyListed) (sample_order (Some (JObj [(''a'', JNum ''2'')])) [])
   = Inr (Some \<lparr>Render_Helm = Some \<lparr>HelmRender_ReleaseName = [], HelmRender_IncludeCRDs = False,
       HelmRender_Values = Some (JObj [(''a'', JNum ''2'')])\<rparr>, Render_Manifest = None\<rparr>)"
  by code_simp

theorem values_confined_witness:
  "\<exists>ls. leaf (JObj [(''a'', JNum ''2'')]) ls \<and> path_string [] ls \<in> {''a''}"
  using values_confined [OF sample_merge, of "[(''a'', JNum ''2'')]" "[''a'']"]
  by (auto simp: sample_product_def sample_order_def helm_values_def allowed_values_def)

text \<open>C38: Merging patches keeps every patch of the Product that the Order does not override, gives one patch
  for each target, and lets the Order win on the paths it sets; and under a policy other than All every
  path the Order sets is one that an allowed target of the Product lists.\<close>

theorem patches_merged:
  assumes "mergePatches product order = Inr patches" "OrderSpec_Patches (Order_Spec order) \<noteq> []"
    and "\<forall>p\<in>set (ProductSpec_Patches (Product_Spec product) @ OrderSpec_Patches (Order_Spec order)). distinct (map fst (Patch_Set p))"
  shows "distinct (map Patch_Target patches)
    \<and> patch_value patches target path =
        (case patch_value (OrderSpec_Patches (Order_Spec order)) target path of Some v \<Rightarrow> Some v
         | None \<Rightarrow> patch_value (ProductSpec_Patches (Product_Spec product)) target path)
    \<and> (PatchOverrides_Policy (Overrides_Patches (ProductSpec_Overrides (Product_Spec product))) \<noteq> OverridePolicyAll
       \<and> patch_value (OrderSpec_Patches (Order_Spec order)) target path \<noteq> None
       \<longrightarrow> (\<exists>a\<in>set (allowed_targets product). target_matches target a \<and> path \<in> set (AllowedPatchTarget_Paths a)))"
proof (intro conjI impI)
  let ?own = "OrderSpec_Patches (Order_Spec order)" and ?base = "ProductSpec_Patches (Product_Spec product)"
  let ?m = "foldl merge_patch [] (?base @ ?own)"
  have ok: "validatePatches (Overrides_Patches (ProductSpec_Overrides (Product_Spec product))) ?own = None"
    and patches: "patches = map (\<lambda>(key, s). \<lparr>Patch_Target = key, Patch_Set = s\<rparr>) ?m"
    using assms(1,2) by (simp_all add: mergePatches_def Let_def split: option.splits)
  have distinct: "distinct (map fst ?m)" using merged_targets [of "?base @ ?own"] by blast
  have "map Patch_Target patches = map fst ?m" unfolding patches by (simp add: case_prod_unfold)
  then show "distinct (map Patch_Target patches)" using distinct by simp
  show "patch_value patches target path =
      (case patch_value ?own target path of Some v \<Rightarrow> Some v | None \<Rightarrow> patch_value ?base target path)"
    unfolding patches patch_value_result [OF distinct] value_in_merged [OF assms(3)] patch_value_append ..
  assume *: "PatchOverrides_Policy (Overrides_Patches (ProductSpec_Overrides (Product_Spec product))) \<noteq> OverridePolicyAll
      \<and> patch_value ?own target path \<noteq> None"
  then obtain p where p: "p \<in> set ?own" "Patch_Target p = target" "path \<in> fst ` set (Patch_Set p)"
    using patch_value_set [of ?own target path] by blast
  then have "validatePatchAllowed p (allowed_targets product) = None"
    using ok * by (simp add: validatePatches_def first_error_None allowed_targets_def Let_def)
  then show "\<exists>a\<in>set (allowed_targets product). target_matches target a \<and> path \<in> set (AllowedPatchTarget_Paths a)"
    using p unfolding validatePatchAllowed_iff by auto
qed

definition sample_patch :: Patch where
  "sample_patch = \<lparr>Patch_Target = \<lparr>PatchTarget_Kind = ''k'', PatchTarget_Name = ''n'', PatchTarget_Namespace = ''s''\<rparr>,
     Patch_Set = [(''a'', ''1'')]\<rparr>"

lemma sample_patches:
  "mergePatches (sample_product None OverridePolicyListed) (sample_order None [sample_patch]) = Inr [sample_patch]"
  by code_simp

theorem patches_merged_witness:
  "patch_value [sample_patch] (Patch_Target sample_patch) ''a'' = Some ''1''"
  using patches_merged [OF sample_patches, of "Patch_Target sample_patch" "''a''"]
  by (simp add: sample_order_def sample_product_def) (simp add: patch_value_def sample_patch_def)

text \<open>An Order can change values under a policy that allows none: the check looks at the leaves of the
  Order's values only, and an empty object has none, so an Order whose value of a key is the empty object
  passes the policy None and replaces the Product's value of that key.\<close>

theorem empty_object_overrides:
  "map_option helm_values (case mergeRender (sample_product (Some (JObj [(''a'', JNum ''1'')])) OverridePolicyNone)
       (sample_order (Some (JObj [(''a'', JObj [])])) []) of Inr r \<Rightarrow> Some r | Inl _ \<Rightarrow> None)
   = Some [(''a'', JObj [])]"
  by code_simp

text \<open>The clusters an Environment selects are exactly the Clusters of its namespace whose labels match its
  selector and that are not being deleted, sorted by name, whatever order they are listed in.\<close>

theorem selected_clusters_exact:
  assumes "as_selector (EnvironmentSpec_ClusterSelector (Environment_Spec env)) = Inr matches_labels"
    and "inj_on (\<lambda>c. om_Name (Cluster_ObjectMeta c)) (set clusters)" "mset other = mset clusters"
  shows "\<exists>selected. SelectedClusters as_selector env clusters = Inr selected
      \<and> SelectedClusters as_selector env other = Inr selected
      \<and> set selected = {c \<in> set clusters. om_Namespace (Cluster_ObjectMeta c) = om_Namespace (Environment_ObjectMeta env)
          \<and> matches_labels (om_Labels (Cluster_ObjectMeta c)) \<and> om_DeletionTimestamp (Cluster_ObjectMeta c) = None}
      \<and> sorted_wrt (\<lambda>a b. str_compare (om_Name (Cluster_ObjectMeta a)) (om_Name (Cluster_ObjectMeta b)) \<le> 0) selected"
proof -
  define sel where "sel = \<lparr>cs_namespace = om_Namespace (Environment_ObjectMeta env), cs_matches = matches_labels\<rparr>"
  have eq: "SelectedClusters as_selector env cs = Inr (sort_cmp (\<lambda>a b. str_compare (om_Name (Cluster_ObjectMeta a)) (om_Name (Cluster_ObjectMeta b)))
      (filter (Selects sel) cs))" for cs
    using assms(1) by (simp add: SelectedClusters_def ClusterSelectionOf_def sel_def)
  have same: "sort_cmp (\<lambda>a b. str_compare (om_Name (Cluster_ObjectMeta a)) (om_Name (Cluster_ObjectMeta b))) (filter (Selects sel) other)
      = sort_cmp (\<lambda>a b. str_compare (om_Name (Cluster_ObjectMeta a)) (om_Name (Cluster_ObjectMeta b))) (filter (Selects sel) clusters)"
    using assms(2,3) by (intro cluster_names.sort_permuted) (auto simp: mset_filter dest: inj_onD mset_eq_setD)
  have sets: "set (filter (Selects sel) clusters) = {c \<in> set clusters. om_Namespace (Cluster_ObjectMeta c) = om_Namespace (Environment_ObjectMeta env)
      \<and> matches_labels (om_Labels (Cluster_ObjectMeta c)) \<and> om_DeletionTimestamp (Cluster_ObjectMeta c) = None}"
    by (auto simp: Selects_def Matches_def sel_def)
  show ?thesis
    unfolding eq same
    by (intro exI [of _ "sort_cmp (\<lambda>a b. str_compare (om_Name (Cluster_ObjectMeta a)) (om_Name (Cluster_ObjectMeta b)))
        (filter (Selects sel) clusters)"] conjI) (simp_all only: set_sort_cmp sets cluster_names.sort_sorted)
qed

definition sample_environment :: Environment where
  "sample_environment = \<lparr>Environment_ObjectMeta = \<lparr>om_Name = ''e'', om_Namespace = [], om_UID = [], om_Generation = 0,
       om_CreationTimestamp = 0, om_DeletionTimestamp = None, om_Labels = [], om_Annotations = [], om_Finalizers = [],
        om_OwnerReferences = [], om_ResourceVersion = []\<rparr>,
     Environment_Spec = \<lparr>EnvironmentSpec_Description = [],
       EnvironmentSpec_ClusterSelector = \<lparr>ls_MatchLabels = [], ls_MatchExpressions = []\<rparr>,
       EnvironmentSpec_Deployer = \<lparr>Deployer_Type = DeployerTypeArgoCD, Deployer_ArgoCD = None\<rparr>, EnvironmentSpec_Promotion = None\<rparr>,
     Environment_Status = \<lparr>EnvironmentStatus_ObservedGeneration = 0, EnvironmentStatus_Clusters = None, EnvironmentStatus_Conditions = []\<rparr>\<rparr>"

theorem selected_clusters_exact_witness:
  "SelectedClusters (\<lambda>_. Inr (\<lambda>_. True)) sample_environment [] = Inr []"
  using selected_clusters_exact [of "\<lambda>_. Inr (\<lambda>_. True)" sample_environment "\<lambda>_. True" "[]" "[]"] by simp

end
