(* ===== verification/Api_Serving.thy ===== *)
theory Api_Serving
  imports Api_Product
begin

text \<open>
  Servings (\<open>api/v1alpha1/serving_types.go\<close>): what a stage deploys, its history, and where it runs.
\<close>

record ServingSpec =
  ServingSpec_OrderName :: string
  ServingSpec_PreparationName :: string

datatype DeploymentEndReason =
    DeploymentEndReasonUnset
  | DeploymentEndReasonSuperseded
  | DeploymentEndReasonDegraded

record DeploymentEntry =
  DeploymentEntry_PreparationName :: string
  DeploymentEntry_Digest :: string
  DeploymentEntry_OCIRef :: string
  DeploymentEntry_RegistryRef :: "local_object_reference option"
  DeploymentEntry_ProductRevision :: string
  DeploymentEntry_StartedTime :: time
  DeploymentEntry_HealthyTime :: "time option"
  DeploymentEntry_EndedTime :: "time option"
  DeploymentEntry_EndReason :: DeploymentEndReason
  DeploymentEntry_PromotionRecord :: string
  DeploymentEntry_DeploymentRecord :: string

record DeploymentClusters =
  DeploymentClusters_Selected :: int32
  DeploymentClusters_Healthy :: int32
  DeploymentClusters_Progressing :: int32
  DeploymentClusters_Degraded :: int32
  DeploymentClusters_Held :: int32

record DeploymentTarget =
  DeploymentTarget_Cluster :: string
  DeploymentTarget_Revision :: string
  DeploymentTarget_Conditions :: "condition list"

record ServingStatus =
  ServingStatus_ObservedGeneration :: int64
  ServingStatus_TargetPreparationName :: string
  ServingStatus_History :: "DeploymentEntry list"
  ServingStatus_Clusters :: "DeploymentClusters option"
  ServingStatus_Targets :: "DeploymentTarget list"
  ServingStatus_DeployedVulnerabilities :: "VulnerabilitySummary option"
  ServingStatus_Conditions :: "condition list"

record Serving =
  Serving_ObjectMeta :: object_meta
  Serving_Spec :: ServingSpec
  Serving_Status :: ServingStatus

section \<open>Methods of Serving\<close>

text \<open>The deployed entry of the stored history: the newest with a promotion record.\<close>

definition DeployedEntry :: "Serving \<Rightarrow> DeploymentEntry option" where
  "DeployedEntry s = find (\<lambda>e. DeploymentEntry_PromotionRecord e \<noteq> []) (ServingStatus_History (Serving_Status s))"

definition DeployedPreparationName :: "Serving \<Rightarrow> string" where
  "DeployedPreparationName s =
     (case DeployedEntry s of Some e \<Rightarrow> DeploymentEntry_PreparationName e | None \<Rightarrow> [])"

definition Serving_GetConditions :: "Serving \<Rightarrow> condition list" where
  "Serving_GetConditions o1 = ServingStatus_Conditions (Serving_Status o1)"

definition Serving_SetConditions :: "condition list \<Rightarrow> Serving \<Rightarrow> Serving" where
  "Serving_SetConditions conditions o1 = o1\<lparr>Serving_Status := Serving_Status o1\<lparr>ServingStatus_Conditions := conditions\<rparr>\<rparr>"

end
