(* ===== verification/Conditions.thy ===== *)
theory Conditions
  imports Api_Serving
begin

text \<open>
  Setting status conditions (\<open>internal/conditions/conditions.go\<close>). The functions of
  \<open>k8s.io/apimachinery/pkg/api/meta\<close> are a parameter: the record of what the source calls of them,
  with the behaviour they document as the predicate \<open>condition_laws\<close>. An object with conditions is
  what the interface \<open>Setter\<close> says it is: a generation, and how to read and replace its conditions.
\<close>

section \<open>The Kubernetes library\<close>

record condition_library =
  find_condition :: "condition list \<Rightarrow> string \<Rightarrow> condition option"
  is_condition_true :: "condition list \<Rightarrow> string \<Rightarrow> bool"
  set_condition :: "condition list \<Rightarrow> condition \<Rightarrow> condition list"
  remove_condition :: "condition list \<Rightarrow> string \<Rightarrow> condition list"

text \<open>
  What \<open>FindStatusCondition\<close>, \<open>IsStatusConditionTrue\<close>, \<open>SetStatusCondition\<close> and
  \<open>RemoveStatusCondition\<close> document: setting a condition makes it the one found of its type, but for
  its transition time, and leaves those of the other types; removing one leaves no condition of its
  type.
\<close>

definition same_condition :: "condition \<Rightarrow> condition \<Rightarrow> bool" where
  "same_condition a b \<longleftrightarrow> c_Type a = c_Type b \<and> c_Status a = c_Status b \<and> c_Reason a = c_Reason b
     \<and> c_Message a = c_Message b \<and> c_ObservedGeneration a = c_ObservedGeneration b"

definition condition_laws :: "condition_library \<Rightarrow> bool" where
  "condition_laws lib \<longleftrightarrow>
     (\<forall>cs t. is_condition_true lib cs t \<longleftrightarrow> (\<exists>c. find_condition lib cs t = Some c \<and> c_Status c = ConditionTrue))
   \<and> (\<forall>t. find_condition lib [] t = None)
   \<and> (\<forall>cs c. \<exists>c'. find_condition lib (set_condition lib cs c) (c_Type c) = Some c' \<and> same_condition c' c)
   \<and> (\<forall>cs c t. t \<noteq> c_Type c \<longrightarrow> find_condition lib (set_condition lib cs c) t = find_condition lib cs t)
   \<and> (\<forall>cs t. find_condition lib (remove_condition lib cs t) t = None)
   \<and> (\<forall>cs t u. t \<noteq> u \<longrightarrow> find_condition lib (remove_condition lib cs u) t = find_condition lib cs t)"

section \<open>Messages\<close>

definition maxMessageLength :: nat where
  "maxMessageLength = 32768"

text \<open>\<open>utf8.RuneStart\<close>: every byte but a continuation byte, \<open>10xxxxxx\<close>, starts a rune.\<close>

definition rune_start :: "char \<Rightarrow> bool" where
  "rune_start c = (of_char c div 64 \<noteq> (2 :: nat))"

definition ellipsis :: string where
  "ellipsis = [CHR 0xE2, CHR 0x80, CHR 0xA6]"

text \<open>The loop that moves the cut back to the start of a rune.\<close>

fun rune_cut :: "string \<Rightarrow> nat \<Rightarrow> nat" where
  "rune_cut s i = (if i > 0 \<and> \<not> rune_start (s ! i) then rune_cut s (i - 1) else i)"

declare rune_cut.simps [simp del]

definition Truncate :: "string \<Rightarrow> nat \<Rightarrow> string" where
  "Truncate s limit =
     (if length s \<le> limit then s else take (rune_cut s (limit - length ellipsis)) s @ ellipsis)"

definition List_items :: "string list \<Rightarrow> string \<Rightarrow> nat \<Rightarrow> string" where
  "List_items items sep limit =
     (if length items \<le> limit then str_join sep items
      else str_join sep (take limit items) @ sep @ ''and '' @ nat_dec (length items - limit) @ '' more'')"

section \<open>Setting conditions\<close>

record 'o setter =
  GetGeneration :: "'o \<Rightarrow> int64"
  GetConditions :: "'o \<Rightarrow> condition list"
  SetConditions :: "condition list \<Rightarrow> 'o \<Rightarrow> 'o"

definition Set_condition :: "condition_library \<Rightarrow> 'o setter \<Rightarrow> 'o \<Rightarrow> string \<Rightarrow> condition_status \<Rightarrow> string \<Rightarrow> string \<Rightarrow> 'o" where
  "Set_condition lib s obj conditionType status reason message =
     SetConditions s (set_condition lib (GetConditions s obj)
       \<lparr>c_Type = conditionType, c_Status = status, c_ObservedGeneration = GetGeneration s obj,
        c_LastTransitionTime = 0, c_Reason = reason, c_Message = Truncate message maxMessageLength\<rparr>) obj"

definition MarkTrue :: "condition_library \<Rightarrow> 'o setter \<Rightarrow> 'o \<Rightarrow> string \<Rightarrow> string \<Rightarrow> string \<Rightarrow> 'o" where
  "MarkTrue lib s obj conditionType reason message = Set_condition lib s obj conditionType ConditionTrue reason message"

definition MarkFalse :: "condition_library \<Rightarrow> 'o setter \<Rightarrow> 'o \<Rightarrow> string \<Rightarrow> string \<Rightarrow> string \<Rightarrow> 'o" where
  "MarkFalse lib s obj conditionType reason message = Set_condition lib s obj conditionType ConditionFalse reason message"

definition MarkUnknown :: "condition_library \<Rightarrow> 'o setter \<Rightarrow> 'o \<Rightarrow> string \<Rightarrow> string \<Rightarrow> string \<Rightarrow> 'o" where
  "MarkUnknown lib s obj conditionType reason message = Set_condition lib s obj conditionType ConditionUnknown reason message"

definition Remove_condition :: "condition_library \<Rightarrow> 'o setter \<Rightarrow> 'o \<Rightarrow> string \<Rightarrow> 'o" where
  "Remove_condition lib s obj conditionType = SetConditions s (remove_condition lib (GetConditions s obj) conditionType) obj"

definition HasReason :: "condition_library \<Rightarrow> 'o setter \<Rightarrow> 'o \<Rightarrow> string \<Rightarrow> string \<Rightarrow> bool" where
  "HasReason lib s obj conditionType reason =
     (case find_condition lib (GetConditions s obj) conditionType of None \<Rightarrow> False | Some c \<Rightarrow> c_Reason c = reason)"

lemmas mark_defs = MarkTrue_def MarkFalse_def MarkUnknown_def Set_condition_def Remove_condition_def

section \<open>An instance of the library\<close>

text \<open>A list that keeps one condition of each type, the transition time that of the last status.\<close>

definition find_first :: "condition list \<Rightarrow> string \<Rightarrow> condition option" where
  "find_first cs t = find (\<lambda>c. c_Type c = t) cs"

definition put_condition :: "condition list \<Rightarrow> condition \<Rightarrow> condition list" where
  "put_condition cs c = c # filter (\<lambda>x. c_Type x \<noteq> c_Type c) cs"

definition list_library :: condition_library where
  "list_library =
     \<lparr>find_condition = find_first,
      is_condition_true = (\<lambda>cs t. case find_first cs t of Some c \<Rightarrow> c_Status c = ConditionTrue | None \<Rightarrow> False),
      set_condition = put_condition,
      remove_condition = (\<lambda>cs t. filter (\<lambda>x. c_Type x \<noteq> t) cs)\<rparr>"

lemma find_first_filter: "find_first (filter (\<lambda>x. c_Type x \<noteq> u) cs) t = (if t = u then None else find_first cs t)"
  by (induction cs) (auto simp: find_first_def)

lemma find_first_put: "find_first (put_condition cs c) t = (if t = c_Type c then Some c else find_first cs t)"
  using find_first_filter [of "c_Type c" cs t] by (auto simp: find_first_def put_condition_def)

lemma condition_laws_list_library: "condition_laws list_library"
  unfolding condition_laws_def
  by (auto simp: list_library_def find_first_filter find_first_put same_condition_def find_first_def [of "[]"]
      split: option.splits)

section \<open>Facts\<close>

lemma rune_cut_le: "rune_cut s n \<le> n"
proof (induction n)
  case (Suc n)
  then show ?case using rune_cut.simps [of s "Suc n"] by auto
qed (simp add: rune_cut.simps)

lemma rune_cut_start: "rune_cut s n = 0 \<or> rune_start (s ! rune_cut s n)"
proof (induction n)
  case (Suc n)
  then show ?case using rune_cut.simps [of s "Suc n"] by auto
qed (simp add: rune_cut.simps)

lemma rune_cut_between: "rune_cut s n < i \<Longrightarrow> i \<le> n \<Longrightarrow> \<not> rune_start (s ! i)"
proof (induction n)
  case (Suc n)
  then show ?case using rune_cut.simps [of s "Suc n"] by (cases "i = Suc n") (auto split: if_splits)
qed simp

lemma length_Truncate: "3 \<le> limit \<Longrightarrow> length (Truncate s limit) \<le> limit"
  using rune_cut_le [of s "limit - 3"] by (auto simp: Truncate_def ellipsis_def min_def numeral_3_eq_3)

text \<open>A rune as UTF-8 encodes it: one byte that starts it, then continuation bytes.\<close>

definition rune :: "string \<Rightarrow> bool" where
  "rune r \<longleftrightarrow> r \<noteq> [] \<and> rune_start (hd r) \<and> list_all (\<lambda>c. \<not> rune_start c) (tl r)"

text \<open>A byte that starts a rune is at a boundary between the runes of a string.\<close>

lemma rune_boundary:
  "list_all rune rs \<Longrightarrow> k < length (concat rs) \<Longrightarrow> rune_start (concat rs ! k) \<Longrightarrow>
   \<exists>n<length rs. k = length (concat (take n rs))"
proof (induction rs arbitrary: k)
  case (Cons r rs)
  show ?case
  proof (cases "k < length r")
    case True
    then have "rune_start (r ! k)" using Cons.prems(3) by (simp add: nth_append)
    then have "k = 0"
      using Cons.prems(1) True by (cases r; cases k) (auto simp: rune_def list_all_length)
    then show ?thesis by (intro exI [of _ 0]) simp
  next
    case False
    then have "k - length r < length (concat rs)" using Cons.prems(2) by simp
    then obtain n where "n < length rs" "k - length r = length (concat (take n rs))"
      using Cons.IH [of "k - length r"] Cons.prems False by (auto simp: nth_append)
    then show ?thesis using False by (intro exI [of _ "Suc n"]) auto
  qed
qed simp

lemma boundary_start:
  "list_all rune rs \<Longrightarrow> n < length rs \<Longrightarrow>
   length (concat (take n rs)) < length (concat rs) \<and> rune_start (concat rs ! length (concat (take n rs)))"
proof (induction rs arbitrary: n)
  case (Cons r rs)
  then show ?case by (cases n; cases r) (auto simp: rune_def nth_append)
qed simp

section \<open>Properties\<close>

text \<open>Cutting a message keeps it readable and short: a message of UTF-8 runes that is longer than the
  limit becomes as many of its first runes as fit before the ellipsis, and is never longer than the
  limit; one that fits is kept as it is.\<close>

theorem Truncate_runes:
  assumes "list_all rune rs" "3 \<le> limit"
  shows "length (Truncate (concat rs) limit) \<le> limit
    \<and> (\<exists>n. Truncate (concat rs) limit =
             (if length (concat rs) \<le> limit then concat rs else concat (take n rs) @ ellipsis)
         \<and> (n < length rs \<or> length (concat rs) \<le> limit)
         \<and> (length (concat (take (Suc n) rs)) > limit - 3 \<or> length (concat rs) \<le> limit))"
proof (cases "length (concat rs) \<le> limit")
  case False
  let ?s = "concat rs" and ?k = "rune_cut (concat rs) (limit - 3)"
  have k: "?k \<le> limit - 3" by (rule rune_cut_le)
  have "rs \<noteq> []" using False by auto
  then have start0: "rune_start (?s ! 0)" using assms(1) boundary_start [of rs 0] by simp
  then have "rune_start (?s ! ?k)" using rune_cut_start [of ?s "limit - 3"] by auto
  moreover have "?k < length ?s" using k False by linarith
  ultimately obtain n where n: "n < length rs" "?k = length (concat (take n rs))"
    using rune_boundary [OF assms(1), of ?k] by blast
  then have "take ?k ?s = concat (take n rs)"
    by (metis append_eq_conv_conj append_take_drop_id concat_append)
  then have t: "Truncate ?s limit = concat (take n rs) @ ellipsis"
    using False by (simp add: Truncate_def ellipsis_def numeral_3_eq_3)
  moreover have "length (concat (take (Suc n) rs)) > limit - 3"
  proof (rule ccontr)
    assume le: "\<not> length (concat (take (Suc n) rs)) > limit - 3"
    have "Suc n < length rs"
      using le False n(1) by (metis Suc_leI diff_le_self dual_order.trans le_eq_less_or_eq linorder_not_less take_all_iff)
    then have "rune_start (?s ! length (concat (take (Suc n) rs)))"
      using boundary_start assms(1) by blast
    moreover have "?k < length (concat (take (Suc n) rs))"
      using n assms(1) by (auto simp: take_Suc_conv_app_nth rune_def list_all_length)
    ultimately show False using rune_cut_between [of ?s "limit - 3"] le by auto
  qed
  ultimately show ?thesis using n(1) False length_Truncate [OF assms(2), of ?s] by auto
next
  case True
  then show ?thesis by (auto simp: Truncate_def)
qed

theorem Truncate_runes_witness: "length (Truncate (concat [''a'', [CHR 0xC3, CHR 0xA9], ''b'', ''c'', ''d'']) 5) \<le> 5"
  using Truncate_runes [of "[''a'', [CHR 0xC3, CHR 0xA9], ''b'', ''c'', ''d'']" 5]
  by (simp add: rune_def rune_start_def)

end
