(* ===== verification/Lru_Cache.thy ===== *)
theory Lru_Cache
  imports Go_Prelude
begin

text \<open>
  Remembering what verified: both verifiers of the source look a key up in an LRU cache
  (\<open>k8s.io/utils/lru\<close>), check what they have not verified before, and add what passes. The cache is a
  parameter: its lookup, which may reorder it, and its insertion, which may evict other keys.
\<close>

definition cached_check ::
    "('cache \<Rightarrow> 'key \<Rightarrow> bool \<times> 'cache) \<Rightarrow> ('cache \<Rightarrow> 'key \<Rightarrow> 'cache) \<Rightarrow> 'key \<Rightarrow> 'failure option \<Rightarrow> 'cache \<Rightarrow> 'failure option \<times> 'cache" where
  "cached_check get add key check cache =
     (case get cache key of (hit, cache) \<Rightarrow>
      if hit then (None, cache)
      else (case check of Some failed \<Rightarrow> (Some failed, cache) | None \<Rightarrow> (None, add cache key)))"

text \<open>What the library documents: a cache holds only keys that were added to it.\<close>

definition cache_laws :: "('cache \<Rightarrow> 'key \<Rightarrow> bool \<times> 'cache) \<Rightarrow> ('cache \<Rightarrow> 'key \<Rightarrow> 'cache) \<Rightarrow> ('cache \<Rightarrow> 'key set) \<Rightarrow> bool" where
  "cache_laws get add keys \<longleftrightarrow>
     (\<forall>c k. (fst (get c k) \<longrightarrow> k \<in> keys c) \<and> keys (snd (get c k)) \<subseteq> keys c \<and> keys (add c k) \<subseteq> insert k (keys c))"

lemma cached_check_sound:
  assumes "cache_laws get add keys" "\<forall>k\<in>keys cache. good k" "check = None \<longrightarrow> good key"
    and "cached_check get add key check cache = (result, cache')"
  shows "\<forall>k\<in>keys cache'. good k" and "result = None \<Longrightarrow> good key"
proof -
  obtain hit c where get: "get cache key = (hit, c)" by fastforce
  have laws: "hit \<longrightarrow> key \<in> keys cache" "keys c \<subseteq> keys cache" "keys (add c key) \<subseteq> insert key (keys c)"
    using assms(1) [unfolded cache_laws_def, THEN spec, THEN spec, of cache key]
      assms(1) [unfolded cache_laws_def, THEN spec, THEN spec, of c key] get by simp_all
  show "\<forall>k\<in>keys cache'. good k" "result = None \<Longrightarrow> good key"
    using assms(2-4) laws by (auto simp: cached_check_def get split: if_splits option.splits)
qed

text \<open>An instance: a list of at most \<open>n\<close> keys, the newest first.\<close>

definition list_get :: "'key list \<Rightarrow> 'key \<Rightarrow> bool \<times> 'key list" where
  "list_get c k = (k \<in> set c, c)"

definition list_add :: "nat \<Rightarrow> 'key list \<Rightarrow> 'key \<Rightarrow> 'key list" where
  "list_add n c k = take n (k # c)"

lemma cache_laws_list: "cache_laws list_get (list_add n) set"
  by (auto simp: cache_laws_def list_get_def list_add_def dest: in_set_takeD)

end
