(* ===== verification/Promotion_Record.thy ===== *)
theory Promotion_Record
  imports Scan_Schedule Go_Json Lru_Cache
begin

text \<open>
  The records a stage writes to the registry (\<open>internal/promotion/record.go\<close>, \<open>registry.go\<close>), signed
  in-toto statements (\<open>NewStatement\<close> of \<open>internal/attestation/attestation.go\<close>): a promotion with the
  evidence of every gate it passed, and a healthy deployment. The theory proves that the signed bytes
  determine the promotion they record, that a deployment record verifies for exactly the deployment it
  was made for, and that the verifier's cache never lets through a record that did not verify.
\<close>

section \<open>The evidence of a promotion\<close>

record record_artifact =
  ra_Name :: string
  ra_Digest :: string

record approvals_evidence =
  ae_Attestation :: string

record deployment_evidence =
  de_Preparation :: record_artifact
  de_HealthyTime :: string
  de_Record :: string

record stage_evidence =
  se_Order :: string
  se_SoakSeconds :: int32
  se_Deployment :: "deployment_evidence option"
  se_Promotion :: string

record image_evidence =
  ie_Name :: string
  ie_Digest :: string
  ie_Report :: string

record vulnerabilities_evidence =
  ve_MaxSeverity :: string
  ve_Images :: "image_evidence list"

record checks_evidence =
  ce_Vulnerabilities :: "vulnerabilities_evidence option"

record gates =
  gs_Approvals :: "approvals_evidence option"
  gs_After :: "stage_evidence list"
  gs_Checks :: "checks_evidence option"

record promotion_predicate =
  pp_Order :: string
  pp_Preparation :: record_artifact
  pp_Previous :: "record_artifact option"
  pp_ProductRevision :: string
  pp_Mode :: string
  pp_Time :: string
  pp_Gates :: gates

record deploy_target =
  dt_Cluster :: string
  dt_Server :: string
  dt_Namespace :: string

record deployment_predicate =
  dp_Order :: string
  dp_Preparation :: record_artifact
  dp_ProductRevision :: string
  dp_Promotion :: string
  dp_HealthyTime :: string
  dp_Targets :: "deploy_target list"

definition PromotionPredicateType :: string where
  "PromotionPredicateType = ''https://kokumi.dev/attestations/promotion/v1''"

definition DeploymentPredicateType :: string where
  "DeploymentPredicateType = ''https://kokumi.dev/attestations/deployment/v1''"

definition timestamp :: "time \<Rightarrow> string" where
  "timestamp t = rfc3339 t"

definition VulnerabilitiesEvidenceOf :: "string \<Rightarrow> assessment list \<Rightarrow> vulnerabilities_evidence" where
  "VulnerabilitiesEvidenceOf maxSeverity assessments =
     \<lparr>ve_MaxSeverity = maxSeverity,
      ve_Images = foldl (\<lambda>images a. case i_Scan a of
          Some s \<Rightarrow> images @ [\<lparr>ie_Name = i_Name a, ie_Digest = i_Digest a, ie_Report = sc_Report s\<rparr>]
        | None \<Rightarrow> images) [] assessments\<rparr>"

definition entry_artifact :: "entry \<Rightarrow> record_artifact" where
  "entry_artifact e = \<lparr>ra_Name = e_Preparation e, ra_Digest = e_Digest e\<rparr>"

definition stage_evidence_at :: "string \<Rightarrow> gate_result \<Rightarrow> nat \<Rightarrow> stage \<Rightarrow> stage_evidence" where
  "stage_evidence_at namespace result i stage =
     (let e = \<lparr>se_Order = namespace @ ''/'' @ s_Order stage, se_SoakSeconds = s_SoakSeconds stage,
               se_Deployment = None, se_Promotion = []\<rparr>
      in if g_Promotion result \<noteq> [] then e\<lparr>se_Promotion := g_Promotion result\<rparr>
         else if i < length (g_Qualified result)
         then (let q = q_Entry (g_Qualified result ! i) in
           e\<lparr>se_Deployment := Some \<lparr>de_Preparation = entry_artifact q, de_HealthyTime = timestamp (e_Healthy q),
                                   de_Record = e_DeploymentRecord q\<rparr>\<rparr>)
         else e)"

definition StageEvidenceOf :: "string \<Rightarrow> stage list \<Rightarrow> gate_result \<Rightarrow> stage_evidence list" where
  "StageEvidenceOf namespace stages result =
     map (\<lambda>(i, stage). stage_evidence_at namespace result i stage) (enumerate 0 stages)"

section \<open>Encoding\<close>

text \<open>A pointer field tagged \<open>omitempty\<close> is left out when it is nil.\<close>



definition artifact_json :: "record_artifact \<Rightarrow> json" where
  "artifact_json a = JObj [(''name'', JStr (ra_Name a)), (''digest'', JStr (ra_Digest a))]"

definition approvals_json :: "approvals_evidence \<Rightarrow> json" where
  "approvals_json a = JObj [(''attestation'', JStr (ae_Attestation a))]"

definition deployment_evidence_json :: "deployment_evidence \<Rightarrow> json" where
  "deployment_evidence_json d =
     JObj [(''preparation'', artifact_json (de_Preparation d)), (''healthyTime'', JStr (de_HealthyTime d)),
           (''record'', JStr (de_Record d))]"

definition stage_json :: "stage_evidence \<Rightarrow> json" where
  "stage_json s =
     JObj ((''order'', JStr (se_Order s)) #
       omit_if (se_SoakSeconds s = 0) ''soakSeconds'' (json_int (sint (se_SoakSeconds s))) @
       opt_field ''deployment'' deployment_evidence_json (se_Deployment s) @
       omit_string ''promotion'' (se_Promotion s))"

definition image_json :: "image_evidence \<Rightarrow> json" where
  "image_json i = JObj [(''name'', JStr (ie_Name i)), (''digest'', JStr (ie_Digest i)), (''report'', JStr (ie_Report i))]"

definition vulnerabilities_json :: "vulnerabilities_evidence \<Rightarrow> json" where
  "vulnerabilities_json v =
     JObj [(''maxSeverity'', JStr (ve_MaxSeverity v)), (''images'', JArr (map image_json (ve_Images v)))]"

definition checks_json :: "checks_evidence \<Rightarrow> json" where
  "checks_json c = JObj (opt_field ''vulnerabilities'' vulnerabilities_json (ce_Vulnerabilities c))"

definition gates_json :: "gates \<Rightarrow> json" where
  "gates_json g =
     JObj (opt_field ''approvals'' approvals_json (gs_Approvals g) @
       omit_if (gs_After g = []) ''after'' (JArr (map stage_json (gs_After g))) @
       opt_field ''checks'' checks_json (gs_Checks g))"

definition promotion_json :: "promotion_predicate \<Rightarrow> json" where
  "promotion_json p =
     JObj ([(''order'', JStr (pp_Order p)), (''preparation'', artifact_json (pp_Preparation p))] @
       opt_field ''previous'' artifact_json (pp_Previous p) @
       [(''productRevision'', JStr (pp_ProductRevision p)), (''mode'', JStr (pp_Mode p)),
        (''time'', JStr (pp_Time p)), (''gates'', gates_json (pp_Gates p))])"

definition target_json :: "deploy_target \<Rightarrow> json" where
  "target_json t =
     JObj [(''cluster'', JStr (dt_Cluster t)), (''server'', JStr (dt_Server t)), (''namespace'', JStr (dt_Namespace t))]"

definition deployment_json :: "deployment_predicate \<Rightarrow> json" where
  "deployment_json p =
     JObj [(''order'', JStr (dp_Order p)), (''preparation'', artifact_json (dp_Preparation p)),
       (''productRevision'', JStr (dp_ProductRevision p)), (''promotion'', JStr (dp_Promotion p)),
       (''healthyTime'', JStr (dp_HealthyTime p)), (''targets'', JArr (map target_json (dp_Targets p)))]"

section \<open>Statements\<close>

definition statementType :: string where
  "statementType = ''https://in-toto.io/Statement/v1''"

text \<open>The in-toto statement about the artifact with the SHA-256 \<open>hex\<close>, as a JSON value.\<close>

definition statement_json :: "string \<Rightarrow> string \<Rightarrow> string \<Rightarrow> json \<Rightarrow> json" where
  "statement_json subjectName hex predicateType predicate =
     JObj [(''_type'', JStr statementType),
       (''subject'', JArr [JObj (omit_string ''name'' subjectName @ [(''digest'', JObj [(''sha256'', JStr hex)])])]),
       (''predicateType'', JStr predicateType), (''predicate'', predicate)]"

definition NewStatement :: "string \<Rightarrow> string \<Rightarrow> string \<Rightarrow> json \<Rightarrow> string + string" where
  "NewStatement subjectName digest predicateType predicate =
     (let hex = trim_prefix ''sha256:'' digest in
      if \<not> has_prefix ''sha256:'' digest \<or> hex = []
      then Inl (''unsupported subject digest '' @ go_quote digest @ '': only sha256 is supported'')
      else Inr (json_encode True (statement_json subjectName hex predicateType predicate)))"

definition promotion_predicate_of :: "string \<Rightarrow> string \<Rightarrow> entry \<Rightarrow> entry option \<Rightarrow> gates \<Rightarrow> promotion_predicate" where
  "promotion_predicate_of order mode pending previous gates =
     \<lparr>pp_Order = order, pp_Preparation = entry_artifact pending, pp_Previous = map_option entry_artifact previous,
      pp_ProductRevision = e_ProductRevision pending, pp_Mode = mode, pp_Time = timestamp (e_Started pending),
      pp_Gates = gates\<rparr>"

definition PromotionStatement :: "string \<Rightarrow> string \<Rightarrow> entry \<Rightarrow> entry option \<Rightarrow> gates \<Rightarrow> string + string" where
  "PromotionStatement order mode pending previous gates =
     NewStatement (e_OCIRef pending) (e_Digest pending) PromotionPredicateType
       (promotion_json (promotion_predicate_of order mode pending previous gates))"

definition deployment_predicate_of :: "string \<Rightarrow> entry \<Rightarrow> deploy_target list \<Rightarrow> deployment_predicate" where
  "deployment_predicate_of order healthy targets =
     \<lparr>dp_Order = order, dp_Preparation = entry_artifact healthy, dp_ProductRevision = e_ProductRevision healthy,
      dp_Promotion = e_PromotionRecord healthy, dp_HealthyTime = timestamp (e_Healthy healthy), dp_Targets = targets\<rparr>"

definition DeploymentStatement :: "string \<Rightarrow> entry \<Rightarrow> deploy_target list \<Rightarrow> string + string" where
  "DeploymentStatement order healthy targets =
     (if e_Healthy healthy = 0 then Inl ''the deployment has not been healthy''
      else NewStatement (e_OCIRef healthy) (e_Digest healthy) DeploymentPredicateType
        (deployment_json (deployment_predicate_of order healthy targets)))"

text \<open>The difference a deployment record has from the deployment it is recorded for, if it has one.\<close>

definition VerifyDeployment :: "deployment_predicate \<Rightarrow> string \<Rightarrow> entry \<Rightarrow> string option" where
  "VerifyDeployment predicate order e =
     (let mismatch = ''deployment record does not match: it attests '' in
      if dp_Order predicate \<noteq> order
      then Some (mismatch @ ''a deployment by Order '' @ dp_Order predicate @ '', not '' @ order)
      else if ra_Digest (dp_Preparation predicate) \<noteq> e_Digest e
      then Some (mismatch @ ra_Digest (dp_Preparation predicate) @ '', not '' @ e_Digest e)
      else if dp_ProductRevision predicate \<noteq> e_ProductRevision e
      then Some (mismatch @ ''revision '' @ dp_ProductRevision predicate @ '', not '' @ e_ProductRevision e)
      else if dp_HealthyTime predicate \<noteq> timestamp (e_Healthy e)
      then Some (mismatch @ ''healthy since '' @ dp_HealthyTime predicate @ '', not '' @ timestamp (e_Healthy e))
      else None)"

section \<open>Decoding\<close>

text \<open>
  \<open>json.Unmarshal\<close> into a struct: the fields of the object one after the other, a name matching
  whatever its case, unknown fields ignored, null leaving a field as it is, and another type than the
  field's being an error.
\<close>

definition field_is :: "string \<Rightarrow> string \<Rightarrow> bool" where
  "field_is name key = (ascii_upper key = ascii_upper name)"

fun decode_string :: "json \<Rightarrow> string \<Rightarrow> string option" where
  "decode_string (JStr s) now = Some s"
| "decode_string JNull now = Some now"
| "decode_string _ now = None"

fun decode_fields :: "(string \<Rightarrow> json \<Rightarrow> 'a \<Rightarrow> 'a option) \<Rightarrow> (string \<times> json) list \<Rightarrow> 'a \<Rightarrow> 'a option" where
  "decode_fields field [] x = Some x"
| "decode_fields field ((k, v) # fs) x = Option.bind (field k v x) (decode_fields field fs)"

fun decode_struct :: "(string \<Rightarrow> json \<Rightarrow> 'a \<Rightarrow> 'a option) \<Rightarrow> json \<Rightarrow> 'a \<Rightarrow> 'a option" where
  "decode_struct field (JObj fs) x = decode_fields field fs x"
| "decode_struct field JNull x = Some x"
| "decode_struct field _ x = None"

definition artifact_field :: "string \<Rightarrow> json \<Rightarrow> record_artifact \<Rightarrow> record_artifact option" where
  "artifact_field k v a =
     (if field_is ''name'' k then map_option (\<lambda>s. a\<lparr>ra_Name := s\<rparr>) (decode_string v (ra_Name a))
      else if field_is ''digest'' k then map_option (\<lambda>s. a\<lparr>ra_Digest := s\<rparr>) (decode_string v (ra_Digest a))
      else Some a)"

definition target_field :: "string \<Rightarrow> json \<Rightarrow> deploy_target \<Rightarrow> deploy_target option" where
  "target_field k v t =
     (if field_is ''cluster'' k then map_option (\<lambda>s. t\<lparr>dt_Cluster := s\<rparr>) (decode_string v (dt_Cluster t))
      else if field_is ''server'' k then map_option (\<lambda>s. t\<lparr>dt_Server := s\<rparr>) (decode_string v (dt_Server t))
      else if field_is ''namespace'' k then map_option (\<lambda>s. t\<lparr>dt_Namespace := s\<rparr>) (decode_string v (dt_Namespace t))
      else Some t)"

definition zero_target :: deploy_target where
  "zero_target = \<lparr>dt_Cluster = [], dt_Server = [], dt_Namespace = []\<rparr>"

fun decode_targets :: "json \<Rightarrow> deploy_target list option" where
  "decode_targets (JArr xs) = those (map (\<lambda>x. decode_struct target_field x zero_target) xs)"
| "decode_targets JNull = Some []"
| "decode_targets _ = None"

definition deployment_field :: "string \<Rightarrow> json \<Rightarrow> deployment_predicate \<Rightarrow> deployment_predicate option" where
  "deployment_field k v p =
     (if field_is ''order'' k then map_option (\<lambda>s. p\<lparr>dp_Order := s\<rparr>) (decode_string v (dp_Order p))
      else if field_is ''preparation'' k
      then map_option (\<lambda>a. p\<lparr>dp_Preparation := a\<rparr>) (decode_struct artifact_field v (dp_Preparation p))
      else if field_is ''productRevision'' k
      then map_option (\<lambda>s. p\<lparr>dp_ProductRevision := s\<rparr>) (decode_string v (dp_ProductRevision p))
      else if field_is ''promotion'' k then map_option (\<lambda>s. p\<lparr>dp_Promotion := s\<rparr>) (decode_string v (dp_Promotion p))
      else if field_is ''healthyTime'' k then map_option (\<lambda>s. p\<lparr>dp_HealthyTime := s\<rparr>) (decode_string v (dp_HealthyTime p))
      else if field_is ''targets'' k then map_option (\<lambda>ts. p\<lparr>dp_Targets := ts\<rparr>) (decode_targets v)
      else Some p)"

definition zero_predicate :: deployment_predicate where
  "zero_predicate = \<lparr>dp_Order = [], dp_Preparation = \<lparr>ra_Name = [], ra_Digest = []\<rparr>, dp_ProductRevision = [],
     dp_Promotion = [], dp_HealthyTime = [], dp_Targets = []\<rparr>"

text \<open>The raw predicate of a statement: the last field of that name, an error when there is none.\<close>

fun raw_predicate :: "json \<Rightarrow> json option" where
  "raw_predicate (JObj fs) = foldl (\<lambda>p (k, v). if field_is ''predicate'' k then Some v else p) None fs"
| "raw_predicate _ = None"

definition decode_deployment :: "json \<Rightarrow> deployment_predicate option" where
  "decode_deployment statement =
     Option.bind (raw_predicate statement) (\<lambda>p. decode_struct deployment_field p zero_predicate)"

section \<open>Writing records\<close>

text \<open>
  The registry is a parameter: parsing a reference, and attaching a signed statement, of a predicate
  type and created at a time, to an artifact, which returns the digest of the referrer.
\<close>

record record_writer =
  parse_ref :: "string \<Rightarrow> string + oci_reference"
  attest :: "oci_reference \<Rightarrow> string \<Rightarrow> string \<Rightarrow> time \<Rightarrow> string + string"

definition push :: "record_writer \<Rightarrow> entry \<Rightarrow> string \<Rightarrow> string \<Rightarrow> time \<Rightarrow> string + string" where
  "push w e predicateType statement created =
     (case parse_ref w (e_OCIRef e) of
        Inl err \<Rightarrow> Inl (''parsing artifact reference: '' @ err)
      | Inr subject \<Rightarrow>
         (case attest w subject predicateType statement created of
            Inl err \<Rightarrow> Inl (''failed to record the deployment of Preparation '' @ go_quote (e_Preparation e) @ '': '' @ err)
          | Inr digest \<Rightarrow> Inr digest))"

definition PushPromotion :: "record_writer \<Rightarrow> string \<Rightarrow> string \<Rightarrow> history \<Rightarrow> gates \<Rightarrow> string + string" where
  "PushPromotion w order mode history gates =
     (case Pending history of
        None \<Rightarrow> Inl ''no promotion is pending''
      | Some pending \<Rightarrow>
         (case PromotionStatement order mode pending (Deployed (tl history)) gates of
            Inl err \<Rightarrow> Inl err
          | Inr statement \<Rightarrow> push w pending PromotionPredicateType statement (e_Started pending)))"

definition PushDeployment :: "record_writer \<Rightarrow> string \<Rightarrow> entry \<Rightarrow> deploy_target list \<Rightarrow> string + string" where
  "PushDeployment w order e targets =
     (case DeploymentStatement order e targets of
        Inl err \<Rightarrow> Inl err
      | Inr statement \<Rightarrow> push w e DeploymentPredicateType statement (e_Healthy e))"

section \<open>Verifying records\<close>

definition recordCacheSize :: nat where
  "recordCacheSize = 1024"

record record_key =
  rk_digest :: string
  rk_trust :: string
  rk_order :: string
  rk_entry :: string

definition record_key_of :: "string \<Rightarrow> string \<Rightarrow> entry \<Rightarrow> record_key" where
  "record_key_of trust order e =
     \<lparr>rk_digest = e_DeploymentRecord e, rk_trust = trust, rk_order = order,
      rk_entry = e_Digest e @ ''@'' @ timestamp (e_Healthy e) @ ''#'' @ e_ProductRevision e\<rparr>"

text \<open>
  What the verifier calls: the LRU cache of \<open>k8s.io/utils/lru\<close>, whose lookups only reorder it, the
  identity of a trust set, and the fetch and verification of a referrer, which yields its statement.
  A referrer whose signature does not verify is told apart from a registry that could not be read.
\<close>

datatype verify_failure = NotVerified string | NotRead string

record ('cache, 'trust, 'client) record_reader =
  lru_get :: "'cache \<Rightarrow> record_key \<Rightarrow> bool \<times> 'cache"
  lru_add :: "'cache \<Rightarrow> record_key \<Rightarrow> 'cache"
  trust_ID :: "'trust \<Rightarrow> string"
  read_ref :: "string \<Rightarrow> string + oci_reference"
  verify_referrer :: "'client \<Rightarrow> 'trust \<Rightarrow> oci_reference \<Rightarrow> string \<Rightarrow> string \<Rightarrow> verify_failure + json"

text \<open>Why a record did not verify (\<open>ErrRecordInvalid\<close>), or could not be read.\<close>

datatype invalid_record = InvalidReference string | InvalidSignature string | InvalidPredicate | InvalidMatch string

datatype 'err record_failure = RecordInvalid invalid_record | RecordConnect 'err | RecordRead string

definition verify_fetched ::
    "('cache, 'trust, 'client) record_reader \<Rightarrow> 'client \<Rightarrow> 'trust \<Rightarrow> string \<Rightarrow> entry \<Rightarrow> 'err record_failure option" where
  "verify_fetched v client trust order e =
     (case read_ref v (e_OCIRef e) of
        Inl err \<Rightarrow> Some (RecordInvalid (InvalidReference err))
      | Inr subject \<Rightarrow>
         (case verify_referrer v client trust subject (e_DeploymentRecord e) DeploymentPredicateType of
            Inl (NotVerified err) \<Rightarrow> Some (RecordInvalid (InvalidSignature err))
          | Inl (NotRead err) \<Rightarrow> Some (RecordRead err)
          | Inr statement \<Rightarrow>
             (case decode_deployment statement of
                None \<Rightarrow> Some (RecordInvalid InvalidPredicate)
              | Some attested \<Rightarrow> map_option (\<lambda>m. RecordInvalid (InvalidMatch m)) (VerifyDeployment attested order e))))"

text \<open>The verdict, and the cache the verifier is left with. The cache holds \<open>recordCacheSize\<close> keys.\<close>

definition RecordVerifier_Verify ::
    "('cache, 'trust, 'client) record_reader \<Rightarrow> 'trust \<Rightarrow> string \<Rightarrow> entry \<Rightarrow> 'err + 'client \<Rightarrow> 'cache \<Rightarrow> 'err record_failure option \<times> 'cache" where
  "RecordVerifier_Verify v trust order e connected cache =
     (let key = record_key_of (trust_ID v trust) order e; (hit, cache) = lru_get v cache key in
      if hit then (None, cache)
      else (case connected of
        Inl err \<Rightarrow> (Some (RecordConnect err), cache)
      | Inr client \<Rightarrow>
         (case verify_fetched v client trust order e of
            Some failed \<Rightarrow> (Some failed, cache)
          | None \<Rightarrow> (None, lru_add v cache key))))"

section \<open>The encoding of a record determines the record\<close>

lemmas record_jsons = artifact_json_def approvals_json_def deployment_evidence_json_def stage_json_def image_json_def
  vulnerabilities_json_def checks_json_def gates_json_def promotion_json_def target_json_def deployment_json_def
  statement_json_def opt_field_def omit_if_def omit_string_def

lemma wf_record_jsons [simp]:
  "wf_json (artifact_json a)" "wf_json (approvals_json b)" "wf_json (image_json i)" "wf_json (target_json t)"
  by (simp_all add: record_jsons)

lemma wf_deployment_evidence_json [simp]: "wf_json (deployment_evidence_json d)"
  by (simp add: deployment_evidence_json_def)

lemma wf_stage_json [simp]: "wf_json (stage_json s)"
  by (auto simp: stage_json_def opt_field_def omit_if_def omit_string_def split: option.splits)

lemma wf_vulnerabilities_json [simp]: "wf_json (vulnerabilities_json v)"
  by (simp add: vulnerabilities_json_def list_all_iff)

lemma wf_checks_json [simp]: "wf_json (checks_json c)"
  by (auto simp: checks_json_def opt_field_def split: option.splits)

lemma wf_gates_json [simp]: "wf_json (gates_json g)"
  by (auto simp: gates_json_def opt_field_def omit_if_def list_all_iff split: option.splits)

lemma wf_promotion_json [simp]: "wf_json (promotion_json p)"
  by (auto simp: promotion_json_def opt_field_def split: option.splits)

lemma wf_deployment_json [simp]: "wf_json (deployment_json p)"
  by (simp add: deployment_json_def list_all_iff)

lemma wf_statement_json [simp]: "wf_json (statement_json n h t p) = wf_json p"
  by (simp add: statement_json_def omit_if_def omit_string_def)

lemma artifact_json_inject [simp]: "artifact_json a = artifact_json b \<longleftrightarrow> a = b"
  by (auto simp: artifact_json_def)

lemma deployment_evidence_json_inject [simp]: "deployment_evidence_json a = deployment_evidence_json b \<longleftrightarrow> a = b"
  by (auto simp: deployment_evidence_json_def)

lemma stage_json_inject [simp]: "stage_json a = stage_json b \<longleftrightarrow> a = b"
  by (auto simp: sint_inject32 stage_json_def opt_field_def omit_if_def omit_string_def split: option.splits if_splits)

lemma image_json_inject [simp]: "image_json a = image_json b \<longleftrightarrow> a = b"
  by (auto simp: image_json_def)

lemma map_inject: "(\<And>a b. f a = f b \<longleftrightarrow> a = b) \<Longrightarrow> map f xs = map f ys \<longleftrightarrow> xs = ys"
  by (metis inj_def list.inj_map_strong)

lemma vulnerabilities_json_inject [simp]: "vulnerabilities_json a = vulnerabilities_json b \<longleftrightarrow> a = b"
  by (auto simp: vulnerabilities_json_def map_inject)

lemma checks_json_inject [simp]: "checks_json a = checks_json b \<longleftrightarrow> a = b"
  by (auto simp: checks_json_def opt_field_def split: option.splits)

lemma gates_json_inject [simp]: "gates_json a = gates_json b \<longleftrightarrow> a = b"
  by (auto simp: gates_json_def approvals_json_def opt_field_def omit_if_def map_inject split: option.splits if_splits)

lemma promotion_json_inject [simp]: "promotion_json a = promotion_json b \<longleftrightarrow> a = b"
  by (auto simp: promotion_json_def opt_field_def split: option.splits)

lemma NewStatement_Inr:
  "NewStatement n digest t p = Inr bytes \<longleftrightarrow>
     (\<exists>hex. digest = ''sha256:'' @ hex \<and> hex \<noteq> [] \<and> bytes = json_encode True (statement_json n hex t p))"
proof
  assume a: "NewStatement n digest t p = Inr bytes"
  then have pre: "has_prefix ''sha256:'' digest" "trim_prefix ''sha256:'' digest \<noteq> []"
    by (auto simp: NewStatement_def Let_def split: if_splits)
  then obtain hex where d: "digest = ''sha256:'' @ hex" by (auto simp: has_prefix_iff)
  then show "\<exists>hex. digest = ''sha256:'' @ hex \<and> hex \<noteq> [] \<and> bytes = json_encode True (statement_json n hex t p)"
    using a pre by (intro exI [of _ hex]) (simp add: NewStatement_def Let_def has_prefix_def trim_prefix_def)
qed (auto simp: NewStatement_def trim_prefix_def has_prefix_def)

lemma statement_json_inject:
  "statement_json n h t p = statement_json m k u q \<longleftrightarrow> n = m \<and> h = k \<and> t = u \<and> p = q"
  by (auto simp: statement_json_def omit_string_def omit_if_def split: if_splits)

section \<open>A record decodes to what was encoded\<close>

lemma decode_artifact: "decode_struct artifact_field (artifact_json a) b = Some a"
  by (simp add: artifact_json_def artifact_field_def field_is_def ascii_upper_def)

lemma decode_target: "decode_struct target_field (target_json t) u = Some t"
  by (simp add: target_json_def target_field_def field_is_def ascii_upper_def)

lemma those_map_Some: "those (map (\<lambda>x. Some (f x)) xs) = Some (map f xs)"
  by (induction xs) auto

lemma decode_targets: "decode_targets (JArr (map target_json ts)) = Some ts"
  using those_map_Some [of "\<lambda>x. x" ts] by (simp add: decode_target comp_def)

lemma decode_deployment_json: "decode_struct deployment_field (deployment_json p) z = Some p"
  by (simp add: deployment_json_def deployment_field_def field_is_def ascii_upper_def decode_artifact decode_targets del: decode_targets.simps)

lemma raw_predicate_statement: "raw_predicate (statement_json n h t p) = Some p"
  by (simp add: statement_json_def field_is_def ascii_upper_def)

lemma decode_deployment_statement:
  "decode_deployment (statement_json n h t (deployment_json p)) = Some p"
  by (simp add: decode_deployment_def raw_predicate_statement decode_deployment_json)

section \<open>The cache of verified records\<close>

text \<open>The characters of a timestamp, none of which separates the parts of a cache key.\<close>

definition time_char :: "char \<Rightarrow> bool" where
  "time_char c \<longleftrightarrow> num_char c \<or> c \<in> set ''T:Z''"

lemma num_time_char: "list_all num_char xs \<Longrightarrow> list_all time_char xs"
  by (induction xs) (auto simp: time_char_def)

lemma time_char_fields: "list_all time_char ''-T:Z0''"
  by (simp add: time_char_def num_char_def)

lemma list_all_replicate: "P x \<Longrightarrow> list_all P (replicate k x)"
  by (induction k) auto

lemma pad_int_time_chars: "list_all time_char (pad_int w i)"
proof -
  have digit: "time_char (CHR ''0'')" "time_char (CHR ''-'')" using time_char_fields by simp_all
  have "list_all time_char (digits n)" if "0 \<le> n" for n
    using digits_num_char [OF that] num_time_char by blast
  then have "list_all time_char (pad_dec w n)" if "0 \<le> n" for n
    using that digit by (simp add: pad_dec_def Let_def list_all_replicate)
  then show ?thesis using digit by (simp add: pad_int_def)
qed

lemma timestamp_chars: "list_all time_char (timestamp t)"
proof -
  have "list_all time_char (rfc3339_fields y m d h mi x)" for y m d h mi x
    using time_char_fields by (simp only: list_all_append pad_int_time_chars list.pred_inject simp_thms)
  then show ?thesis unfolding timestamp_def rfc3339_def Let_def by (auto split: prod.splits)
qed

text \<open>Splitting at the first occurrence of a character is unique.\<close>

lemma split_at_unique:
  "c \<notin> set xs \<Longrightarrow> c \<notin> set ys \<Longrightarrow> xs @ c # r = ys @ c # q \<Longrightarrow> xs = ys \<and> r = q"
proof (induction xs arbitrary: ys)
  case Nil
  then show ?case by (cases ys) auto
next
  case (Cons x xs)
  then show ?case by (cases ys) auto
qed

lemma record_key_inject:
  assumes "record_key_of t order e = record_key_of t' order' e'"
    and "CHR ''@'' \<notin> set (e_Digest e)" "CHR ''@'' \<notin> set (e_Digest e')"
  shows "t = t' \<and> order = order' \<and> e_DeploymentRecord e = e_DeploymentRecord e' \<and> e_Digest e = e_Digest e'
    \<and> timestamp (e_Healthy e) = timestamp (e_Healthy e') \<and> e_ProductRevision e = e_ProductRevision e'"
proof -
  have eq: "e_Digest e @ CHR ''@'' # timestamp (e_Healthy e) @ CHR ''#'' # e_ProductRevision e
      = e_Digest e' @ CHR ''@'' # timestamp (e_Healthy e') @ CHR ''#'' # e_ProductRevision e'"
    using assms(1) by (simp add: record_key_of_def)
  have "\<not> time_char (CHR ''#'')" by (simp add: time_char_def num_char_def)
  then have hash: "CHR ''#'' \<notin> set (timestamp t)" for t
    using timestamp_chars [of t] by (auto simp only: list_all_iff)
  from split_at_unique [OF assms(2,3) eq] have "e_Digest e = e_Digest e'"
    and rest: "timestamp (e_Healthy e) @ CHR ''#'' # e_ProductRevision e = timestamp (e_Healthy e') @ CHR ''#'' # e_ProductRevision e'"
    by simp_all
  moreover from split_at_unique [OF hash hash rest]
  have "timestamp (e_Healthy e) = timestamp (e_Healthy e')" "e_ProductRevision e = e_ProductRevision e'" by simp_all
  ultimately show ?thesis using assms(1) by (simp add: record_key_of_def)
qed

text \<open>
  What a record verifies by: a statement signed by a key of the trust set whose predicate attests the
  deployment. What a check reads of the deployment is in the key of the cache.
\<close>

definition attests :: "('cache, 'trust, 'client) record_reader \<Rightarrow> 'trust \<Rightarrow> string \<Rightarrow> entry \<Rightarrow> bool" where
  "attests v trust order e \<longleftrightarrow>
     (\<exists>client subject statement p.
        verify_referrer v client trust subject (e_DeploymentRecord e) DeploymentPredicateType = Inr statement
      \<and> decode_deployment statement = Some p \<and> VerifyDeployment p order e = None)"

lemma VerifyDeployment_None_iff:
  "VerifyDeployment p order e = None \<longleftrightarrow>
     dp_Order p = order \<and> ra_Digest (dp_Preparation p) = e_Digest e \<and> dp_ProductRevision p = e_ProductRevision e
     \<and> dp_HealthyTime p = timestamp (e_Healthy e)"
  by (simp add: VerifyDeployment_def Let_def)

lemma VerifyDeployment_own: "VerifyDeployment (deployment_predicate_of order e targets) order e = None"
  by (simp add: VerifyDeployment_None_iff deployment_predicate_of_def entry_artifact_def)

lemma verify_fetched_attests: "verify_fetched v client trust order e = None \<Longrightarrow> attests v trust order e"
  by (auto simp: verify_fetched_def attests_def split: sum.splits option.splits verify_failure.splits)

text \<open>What is assumed of the trust sets: equal identities are equal trust.\<close>

definition trust_identified :: "('cache, 'trust, 'client) record_reader \<Rightarrow> bool" where
  "trust_identified v \<longleftrightarrow>
     (\<forall>t t'. trust_ID v t = trust_ID v t' \<longrightarrow> (\<lambda>client. verify_referrer v client t) = (\<lambda>client. verify_referrer v client t'))"

definition cache_sound :: "('cache, 'trust, 'client) record_reader \<Rightarrow> ('cache \<Rightarrow> record_key set) \<Rightarrow> 'cache \<Rightarrow> bool" where
  "cache_sound v keys cache \<longleftrightarrow>
     (\<forall>k\<in>keys cache. \<exists>trust order e. k = record_key_of (trust_ID v trust) order e
        \<and> CHR ''@'' \<notin> set (e_Digest e) \<and> attests v trust order e)"

lemma attests_key:
  assumes "trust_identified v" "attests v t order e"
    and "record_key_of (trust_ID v t) order e = record_key_of (trust_ID v t') order' e'"
    and "CHR ''@'' \<notin> set (e_Digest e)" "CHR ''@'' \<notin> set (e_Digest e')"
  shows "attests v t' order' e'"
proof -
  note k = record_key_inject [OF assms(3-5)]
  obtain client subject statement p where
    read: "verify_referrer v client t subject (e_DeploymentRecord e) DeploymentPredicateType = Inr statement"
    and p: "decode_deployment statement = Some p" "VerifyDeployment p order e = None"
    using assms(2) unfolding attests_def by blast
  have "(\<lambda>client. verify_referrer v client t) = (\<lambda>client. verify_referrer v client t')"
    using assms(1) k unfolding trust_identified_def by blast
  from fun_cong [OF this] have same: "verify_referrer v client t = verify_referrer v client t'" .
  have "VerifyDeployment p order' e' = None"
    using p(2) k unfolding VerifyDeployment_None_iff by metis
  moreover have "verify_referrer v client t' subject (e_DeploymentRecord e') DeploymentPredicateType = Inr statement"
    using read unfolding same using k by (simp only:)
  ultimately show ?thesis unfolding attests_def using p(1) by blast
qed

lemma RecordVerifier_cached:
  "RecordVerifier_Verify v trust order e connected cache =
     cached_check (lru_get v) (lru_add v) (record_key_of (trust_ID v trust) order e)
       (case connected of Inl err \<Rightarrow> Some (RecordConnect err) | Inr client \<Rightarrow> verify_fetched v client trust order e) cache"
  by (cases connected) (auto simp: RecordVerifier_Verify_def cached_check_def Let_def split: option.splits prod.splits)

lemma RecordVerifier_step:
  assumes "cache_laws (lru_get v) (lru_add v) keys" "trust_identified v" "cache_sound v keys cache" "CHR ''@'' \<notin> set (e_Digest e)"
    and "RecordVerifier_Verify v trust order e (connected :: 'd + 'client) cache = (result, cache')"
  shows "cache_sound v keys cache' \<and> (result = None \<longrightarrow> attests v trust order e)"
proof -
  let ?good = "\<lambda>k. \<exists>trust order e. k = record_key_of (trust_ID v trust) order e
    \<and> CHR ''@'' \<notin> set (e_Digest e) \<and> attests v trust order e"
  let ?check = "(case connected of Inl err \<Rightarrow> Some (RecordConnect err) | Inr client \<Rightarrow> verify_fetched v client trust order e) :: 'd record_failure option"
  have "attests v trust order e" if "?check = None"
    using that verify_fetched_attests by (auto split: sum.splits)
  then have checked: "?check = None \<longrightarrow> ?good (record_key_of (trust_ID v trust) order e)" using assms(4) by blast
  note sound = cached_check_sound [where good = ?good, OF assms(1) assms(3) [unfolded cache_sound_def] checked
      assms(5) [unfolded RecordVerifier_cached]]
  have "attests v trust order e" if "result = None"
    using sound(2) [OF that] attests_key [OF assms(2)] assms(4) by metis
  then show ?thesis using sound(1) unfolding cache_sound_def by blast
qed

text \<open>The verdicts of a sequence of verifications, each from the cache the one before left.\<close>

fun run_verifier :: "('cache, 'trust, 'client) record_reader \<Rightarrow> 'cache \<Rightarrow> ('trust \<times> string \<times> entry \<times> ('err + 'client)) list \<Rightarrow> 'err record_failure option list" where
  "run_verifier v cache [] = []"
| "run_verifier v cache ((trust, order, e, connected) # rs) =
     (case RecordVerifier_Verify v trust order e connected cache of (result, cache) \<Rightarrow> result # run_verifier v cache rs)"

lemma run_verifier_sound:
  assumes "cache_laws (lru_get v) (lru_add v) keys" "trust_identified v"
  shows "cache_sound v keys cache \<Longrightarrow> \<forall>(t, order, e, c)\<in>set rs. CHR ''@'' \<notin> set (e_Digest e) \<Longrightarrow>
    (((t, order, e, c), None) \<in> set (zip rs (run_verifier v cache rs)) \<Longrightarrow> attests v t order e)"
proof (induction rs arbitrary: cache)
  case (Cons r rs)
  obtain t' order' e' c' where r: "r = (t', order', e', c')" by (cases r) auto
  obtain result cache' where v: "RecordVerifier_Verify v t' order' e' c' cache = (result, cache')" by fastforce
  have "CHR ''@'' \<notin> set (e_Digest e')" using Cons.prems(2) r by auto
  from RecordVerifier_step [OF assms Cons.prems(1) this v]
  have "cache_sound v keys cache'" "result = None \<longrightarrow> attests v t' order' e'" by simp_all
  then show ?case using Cons.IH [of cache'] Cons.prems(2,3) r v by auto
qed simp

section \<open>Properties\<close>

text \<open>C40: The signed bytes of a promotion record determine the promotion: two promotions of well-formed
  entries with equal bytes are by the same Order under the same mode, of the same Preparation, artifact
  and Product revision, after the same deployment, at the same time, with the same evidence of every gate.\<close>

theorem promotion_bytes_determine:
  assumes "PromotionStatement order mode p previous gs = Inr bytes"
    and "PromotionStatement order' mode' p' previous' gs' = Inr bytes"
    and "entry_wf p" "entry_wf p'"
  shows "order = order' \<and> mode = mode' \<and> entry_artifact p = entry_artifact p' \<and> e_OCIRef p = e_OCIRef p'
    \<and> e_ProductRevision p = e_ProductRevision p' \<and> e_Started p = e_Started p'
    \<and> map_option entry_artifact previous = map_option entry_artifact previous' \<and> gs = gs'"
proof -
  let ?p = "promotion_predicate_of order mode p previous gs" and ?q = "promotion_predicate_of order' mode' p' previous' gs'"
  obtain h k where
    "json_encode True (statement_json (e_OCIRef p) h PromotionPredicateType (promotion_json ?p))
       = json_encode True (statement_json (e_OCIRef p') k PromotionPredicateType (promotion_json ?q))"
    using assms(1,2) unfolding PromotionStatement_def NewStatement_Inr by metis
  from json_encode_inj [OF _ _ this] have "e_OCIRef p = e_OCIRef p'" "?p = ?q"
    by (simp_all add: statement_json_inject)
  moreover have "e_Started p = e_Started p'" if "timestamp (e_Started p) = timestamp (e_Started p')"
  proof -
    have "0 \<le> e_Started p" "0 \<le> e_Started p'" "truncate_second (e_Started p) = e_Started p"
        "truncate_second (e_Started p') = e_Started p'"
      using assms(3,4) unfolding entry_wf_def seconds_def by (auto intro: less_imp_le)
    then show ?thesis using that rfc3339_whole_second unfolding timestamp_def by blast
  qed
  ultimately show ?thesis by (simp add: promotion_predicate_of_def)
qed

definition sample_pending :: entry where
  "sample_pending = \<lparr>e_Preparation = ''p'', e_Digest = ''sha256:ab'', e_OCIRef = ''oci://r/p@sha256:ab'', e_Registry = [],
     e_ProductRevision = ''rev'', e_Started = second, e_Healthy = 0, e_Ended = 0, e_EndReason = EndNone,
     e_PromotionRecord = [], e_DeploymentRecord = []\<rparr>"

definition no_gates :: gates where
  "no_gates = \<lparr>gs_Approvals = None, gs_After = [], gs_Checks = None\<rparr>"

lemma sample_pending_wf: "entry_wf sample_pending"
  by (simp add: sample_pending_def entry_wf_def seconds_def truncate_second_def Running_def Promoted_def)

lemma sample_statement: "\<exists>bytes. PromotionStatement ''ns/o'' mode sample_pending None no_gates = Inr bytes"
  unfolding PromotionStatement_def NewStatement_Inr by (simp add: sample_pending_def)

theorem promotion_bytes_determine_witness:
  "PromotionStatement ''ns/o'' ''Manual'' sample_pending None no_gates
     \<noteq> PromotionStatement ''ns/o'' ''Automatic'' sample_pending None no_gates"
proof
  assume eq: "PromotionStatement ''ns/o'' ''Manual'' sample_pending None no_gates
     = PromotionStatement ''ns/o'' ''Automatic'' sample_pending None no_gates"
  obtain bytes where b: "PromotionStatement ''ns/o'' ''Manual'' sample_pending None no_gates = Inr bytes"
    using sample_statement by blast
  from promotion_bytes_determine [OF b b [unfolded eq] sample_pending_wf sample_pending_wf]
  show False by simp
qed

text \<open>A deployment record verifies for exactly the deployment it was made for: read back from its
  statement, the record of a healthy entry is accepted for an Order and an entry precisely when the
  Order, the digest, the Product revision and the time it was first healthy are the same.\<close>

theorem deployment_record_verifies_iff:
  assumes "entry_wf e" "entry_wf e'" "0 \<le> e_Healthy e" "0 \<le> e_Healthy e'"
  shows "(case decode_deployment (statement_json name hex DeploymentPredicateType
            (deployment_json (deployment_predicate_of order e targets))) of
          None \<Rightarrow> False | Some attested \<Rightarrow> VerifyDeployment attested order' e' = None)
     \<longleftrightarrow> order' = order \<and> e_Digest e' = e_Digest e \<and> e_ProductRevision e' = e_ProductRevision e \<and> e_Healthy e' = e_Healthy e"
proof -
  have "truncate_second (e_Healthy e) = e_Healthy e" "truncate_second (e_Healthy e') = e_Healthy e'"
    using assms(1,2) unfolding entry_wf_def seconds_def by blast+
  then have time: "timestamp (e_Healthy e) = timestamp (e_Healthy e') \<longleftrightarrow> e_Healthy e = e_Healthy e'"
    unfolding timestamp_def using rfc3339_whole_second [OF assms(3,4)] by blast
  show ?thesis
    unfolding decode_deployment_statement option.case VerifyDeployment_None_iff deployment_predicate_of_def
      entry_artifact_def deployment_predicate.simps record_artifact.simps time
    by (simp only: eq_commute [of order order'] eq_commute [of "e_Digest e" "e_Digest e'"]
        eq_commute [of "e_ProductRevision e" "e_ProductRevision e'"] eq_commute [of "e_Healthy e" "e_Healthy e'"])
qed

theorem deployment_record_verifies_iff_witness:
  "case decode_deployment (statement_json ''n'' ''ab'' DeploymentPredicateType
        (deployment_json (deployment_predicate_of ''ns/o'' sample_pending []))) of
     None \<Rightarrow> False | Some attested \<Rightarrow> VerifyDeployment attested ''ns/o'' sample_pending = None"
proof -
  have "0 \<le> e_Healthy sample_pending" by (simp add: sample_pending_def)
  note verified = deployment_record_verifies_iff [OF sample_pending_wf sample_pending_wf this this, where name = "''n''" and hex = "''ab''" and order = "''ns/o''" and targets = "[]" and order' = "''ns/o''"]
  show ?thesis unfolding verified by (intro conjI refl)
qed

text \<open>The cache never lets through a record that did not verify: in any sequence of verifications from
  an empty cache, of artifacts whose digest holds no @, a record that is accepted, cached or not, is a
  statement signed by a key of the trust set it was asked for that attests the deployment.\<close>

theorem record_verifier_sound:
  assumes "cache_laws (lru_get v) (lru_add v) keys" "trust_identified v" "keys cache = {}"
    and "\<forall>(trust, order, e, connected)\<in>set requests. CHR ''@'' \<notin> set (e_Digest e)"
    and "((trust, order, e, connected), None) \<in> set (zip requests (run_verifier v cache requests))"
  shows "attests v trust order e"
  using run_verifier_sound [OF assms(1,2) _ assms(4,5)] assms(3) by (simp add: cache_sound_def)

definition list_reader :: "(record_key list, string, unit) record_reader" where
  "list_reader = \<lparr>lru_get = list_get, lru_add = list_add 2, trust_ID = (\<lambda>t. t),
     read_ref = (\<lambda>_. Inr \<lparr>ref_Registry = ''r'', ref_Repository = ''p'', ref_Tag = [], ref_Digest = ''sha256:ab''\<rparr>),
     verify_referrer = (\<lambda>_ _ _ _ _. Inr (statement_json ''n'' ''ab'' DeploymentPredicateType
       (deployment_json (deployment_predicate_of ''ns/o'' sample_pending []))))\<rparr>"

theorem record_verifier_sound_witness: "attests list_reader ''k'' ''ns/o'' sample_pending"
proof (rule record_verifier_sound [of list_reader set "[]"])
  let ?request = "(''k'', ''ns/o'', sample_pending, Inr () :: unit + unit)"
  show "(?request, None) \<in> set (zip [?request, ?request] (run_verifier list_reader [] [?request, ?request]))"
    by (simp add: RecordVerifier_Verify_def list_reader_def list_get_def list_add_def verify_fetched_def decode_deployment_statement
        VerifyDeployment_own)
  show "\<forall>(trust, order, e, connected)\<in>set [?request, ?request]. CHR ''@'' \<notin> set (e_Digest e)"
    by (simp add: sample_pending_def)
qed (auto simp: cache_laws_list trust_identified_def list_reader_def)

end
