(* ===== verification/Evidence.thy ===== *)
theory Evidence
  imports Promotion_Record Approval Lru_Cache
begin

text \<open>
  The evidence a Preparation's artifact must carry in the registry before it is deployed
  (\<open>internal/evidence/evidence.go\<close>): a signature, a provenance statement that names the Order, and,
  under an approval policy, sealed approvals with the result Approved. The predicates are those of
  \<open>internal/provenance/provenance.go\<close> and \<open>internal/approval/attestation.go\<close>. The theory proves what
  verified evidence says, and that the verifier's cache lets nothing else through.
\<close>

section \<open>Decoding\<close>

fun decode_bool :: "json \<Rightarrow> bool \<Rightarrow> bool option" where
  "decode_bool (JBool b) now = Some b"
| "decode_bool JNull now = Some now"
| "decode_bool _ now = None"

definition is_digit :: "char \<Rightarrow> bool" where
  "is_digit c = (let n = (of_char c :: int) in 48 \<le> n \<and> n \<le> 57)"

definition parse_int :: "string \<Rightarrow> int option" where
  "parse_int s =
     (let ds = trim_prefix ''-'' s in
      if ds \<noteq> [] \<and> list_all is_digit ds
      then Some (if has_prefix ''-'' s then - dec_val ds else dec_val ds) else None)"

fun decode_int32 :: "json \<Rightarrow> int32 \<Rightarrow> int32 option" where
  "decode_int32 (JNum n) now =
     (case parse_int n of
        None \<Rightarrow> None
      | Some i \<Rightarrow> if - (2 ^ 31) \<le> i \<and> i < 2 ^ 31 then Some (of_int i) else None)"
| "decode_int32 JNull now = Some now"
| "decode_int32 _ now = None"

fun decode_items :: "(json \<Rightarrow> 'a \<Rightarrow> 'a option) \<Rightarrow> 'a \<Rightarrow> json \<Rightarrow> 'a list option" where
  "decode_items item zero (JArr xs) = those (map (\<lambda>x. item x zero) xs)"
| "decode_items item zero JNull = Some []"
| "decode_items item zero _ = None"

text \<open>A map: the entries of an object; null leaves the map as it is, here empty.\<close>

fun decode_entries :: "(json \<Rightarrow> 'a \<Rightarrow> 'a option) \<Rightarrow> 'a \<Rightarrow> json \<Rightarrow> (string \<times> 'a) list option" where
  "decode_entries item zero (JObj fs) = those (map (\<lambda>(k, v). map_option (Pair k) (item v zero)) fs)"
| "decode_entries item zero JNull = Some []"
| "decode_entries item zero _ = None"

section \<open>Provenance\<close>

record external_parameters =
  xp_Order :: string
  xp_Product :: string
  xp_ConfigHash :: string

record resource_descriptor =
  rd_URI :: string
  rd_Digest :: "(string \<times> string) list"
  rd_MediaType :: string
  rd_Annotations :: "(string \<times> json) list"

record build_definition =
  bd_BuildType :: string
  bd_ExternalParameters :: external_parameters
  bd_ResolvedDependencies :: "resource_descriptor list"

record provenance_builder =
  pb_ID :: string
  pb_Version :: "(string \<times> string) list"

record provenance_metadata =
  pm_StartedOn :: string
  pm_FinishedOn :: string

record run_details =
  run_Builder :: provenance_builder
  run_Metadata :: provenance_metadata

record provenance_predicate =
  pv_BuildDefinition :: build_definition
  pv_RunDetails :: run_details

definition ProvenancePredicateType :: string where
  "ProvenancePredicateType = ''https://slsa.dev/provenance/v1''"

definition external_field :: "string \<Rightarrow> json \<Rightarrow> external_parameters \<Rightarrow> external_parameters option" where
  "external_field k v p =
     (if field_is ''order'' k then map_option (\<lambda>s. p\<lparr>xp_Order := s\<rparr>) (decode_string v (xp_Order p))
      else if field_is ''product'' k then map_option (\<lambda>s. p\<lparr>xp_Product := s\<rparr>) (decode_string v (xp_Product p))
      else if field_is ''configHash'' k then map_option (\<lambda>s. p\<lparr>xp_ConfigHash := s\<rparr>) (decode_string v (xp_ConfigHash p))
      else Some p)"

definition resource_field :: "string \<Rightarrow> json \<Rightarrow> resource_descriptor \<Rightarrow> resource_descriptor option" where
  "resource_field k v r =
     (if field_is ''uri'' k then map_option (\<lambda>s. r\<lparr>rd_URI := s\<rparr>) (decode_string v (rd_URI r))
      else if field_is ''digest'' k then map_option (\<lambda>m. r\<lparr>rd_Digest := rd_Digest r @ m\<rparr>) (decode_entries decode_string [] v)
      else if field_is ''mediaType'' k then map_option (\<lambda>s. r\<lparr>rd_MediaType := s\<rparr>) (decode_string v (rd_MediaType r))
      else if field_is ''annotations'' k
      then map_option (\<lambda>m. r\<lparr>rd_Annotations := rd_Annotations r @ m\<rparr>) (decode_entries (\<lambda>x _. Some x) JNull v)
      else Some r)"

definition zero_resource :: resource_descriptor where
  "zero_resource = \<lparr>rd_URI = [], rd_Digest = [], rd_MediaType = [], rd_Annotations = []\<rparr>"

definition build_field :: "string \<Rightarrow> json \<Rightarrow> build_definition \<Rightarrow> build_definition option" where
  "build_field k v b =
     (if field_is ''buildType'' k then map_option (\<lambda>s. b\<lparr>bd_BuildType := s\<rparr>) (decode_string v (bd_BuildType b))
      else if field_is ''externalParameters'' k
      then map_option (\<lambda>x. b\<lparr>bd_ExternalParameters := x\<rparr>) (decode_struct external_field v (bd_ExternalParameters b))
      else if field_is ''resolvedDependencies'' k
      then map_option (\<lambda>rs. b\<lparr>bd_ResolvedDependencies := rs\<rparr>) (decode_items (decode_struct resource_field) zero_resource v)
      else Some b)"

definition builder_field :: "string \<Rightarrow> json \<Rightarrow> provenance_builder \<Rightarrow> provenance_builder option" where
  "builder_field k v b =
     (if field_is ''id'' k then map_option (\<lambda>s. b\<lparr>pb_ID := s\<rparr>) (decode_string v (pb_ID b))
      else if field_is ''version'' k then map_option (\<lambda>m. b\<lparr>pb_Version := pb_Version b @ m\<rparr>) (decode_entries decode_string [] v)
      else Some b)"

definition metadata_field :: "string \<Rightarrow> json \<Rightarrow> provenance_metadata \<Rightarrow> provenance_metadata option" where
  "metadata_field k v m =
     (if field_is ''startedOn'' k then map_option (\<lambda>s. m\<lparr>pm_StartedOn := s\<rparr>) (decode_string v (pm_StartedOn m))
      else if field_is ''finishedOn'' k then map_option (\<lambda>s. m\<lparr>pm_FinishedOn := s\<rparr>) (decode_string v (pm_FinishedOn m))
      else Some m)"

definition run_field :: "string \<Rightarrow> json \<Rightarrow> run_details \<Rightarrow> run_details option" where
  "run_field k v r =
     (if field_is ''builder'' k then map_option (\<lambda>b. r\<lparr>run_Builder := b\<rparr>) (decode_struct builder_field v (run_Builder r))
      else if field_is ''metadata'' k then map_option (\<lambda>m. r\<lparr>run_Metadata := m\<rparr>) (decode_struct metadata_field v (run_Metadata r))
      else Some r)"

definition provenance_field :: "string \<Rightarrow> json \<Rightarrow> provenance_predicate \<Rightarrow> provenance_predicate option" where
  "provenance_field k v p =
     (if field_is ''buildDefinition'' k
      then map_option (\<lambda>b. p\<lparr>pv_BuildDefinition := b\<rparr>) (decode_struct build_field v (pv_BuildDefinition p))
      else if field_is ''runDetails'' k then map_option (\<lambda>r. p\<lparr>pv_RunDetails := r\<rparr>) (decode_struct run_field v (pv_RunDetails p))
      else Some p)"

definition zero_provenance :: provenance_predicate where
  "zero_provenance =
     \<lparr>pv_BuildDefinition = \<lparr>bd_BuildType = [], bd_ExternalParameters = \<lparr>xp_Order = [], xp_Product = [], xp_ConfigHash = []\<rparr>,
        bd_ResolvedDependencies = []\<rparr>,
      pv_RunDetails = \<lparr>run_Builder = \<lparr>pb_ID = [], pb_Version = []\<rparr>, run_Metadata = \<lparr>pm_StartedOn = [], pm_FinishedOn = []\<rparr>\<rparr>\<rparr>"

definition decode_provenance :: "json \<Rightarrow> provenance_predicate option" where
  "decode_provenance statement =
     Option.bind (raw_predicate statement) (\<lambda>p. decode_struct provenance_field p zero_provenance)"

definition provenance_order :: "provenance_predicate \<Rightarrow> string" where
  "provenance_order p = xp_Order (bd_ExternalParameters (pv_BuildDefinition p))"

section \<open>The approvals on record\<close>

record preparation_info =
  pi_Namespace :: string
  pi_Name :: string
  pi_UID :: string

record submission =
  su_Name :: string
  su_UID :: string
  su_Approver :: Approver
  su_Decision :: string
  su_Comment :: string
  su_SubmittedTime :: string
  su_CreationTime :: string
  su_Counted :: bool
  su_Reason :: string

record approval_predicate =
  ap_Order :: string
  ap_Preparation :: preparation_info
  ap_Policy :: ApprovalPolicy
  ap_Result :: string
  ap_SealedTime :: string
  ap_Submissions :: "submission list"

definition AttestationPredicateType :: string where
  "AttestationPredicateType = ''https://kokumi.dev/attestations/approval/v1''"

fun decision_name :: "ApprovalDecision \<Rightarrow> string" where
  "decision_name ApprovalDecisionUnset = []"
| "decision_name ApprovalDecisionApprove = ''Approve''"
| "decision_name ApprovalDecisionReject = ''Reject''"

text \<open>\<open>t.UTC().Format(time.RFC3339Nano)\<close>: the fraction of a second before the zone, without trailing zeros.\<close>

definition rfc3339_nano :: "time \<Rightarrow> string" where
  "rfc3339_nano t = butlast (rfc3339 t) @ frac_string 9 (t mod second) @ ''Z''"

definition submission_of :: "verdicts \<Rightarrow> Approval \<Rightarrow> submission list" where
  "submission_of verdicts a =
     (let v = (case verdicts (approval_name a) of Some v \<Rightarrow> v | None \<Rightarrow> \<lparr>av_Counted = False, av_Reason = [], av_Message = []\<rparr>) in
      if av_Reason v = ReasonSubmittedAfterSeal \<or> av_Reason v = ReasonDigestMismatch then []
      else [\<lparr>su_Name = approval_name a, su_UID = om_UID (Approval_ObjectMeta a), su_Approver = approver a,
             su_Decision = decision_name (ApprovalSpec_Decision (Approval_Spec a)),
             su_Comment = ApprovalSpec_Comment (Approval_Spec a),
             su_SubmittedTime = rfc3339_nano (ApprovalSpec_SubmittedTime (Approval_Spec a)),
             su_CreationTime = rfc3339 (om_CreationTimestamp (Approval_ObjectMeta a)),
             su_Counted = av_Counted v, su_Reason = av_Reason v\<rparr>])"

definition approval_predicate_of :: "Preparation \<Rightarrow> Approval list \<Rightarrow> ApprovalPolicy \<Rightarrow> time \<Rightarrow> approval_predicate" where
  "approval_predicate_of prep approvals policy sealed =
     (let res = approval_Evaluate prep approvals in
      \<lparr>ap_Order = PreparationSpec_OrderName (Preparation_Spec prep),
       ap_Preparation = \<lparr>pi_Namespace = om_Namespace (Preparation_ObjectMeta prep), pi_Name = om_Name (Preparation_ObjectMeta prep),
          pi_UID = om_UID (Preparation_ObjectMeta prep)\<rparr>,
       ap_Policy = policy, ap_Result = ar_Reason res, ap_SealedTime = rfc3339 sealed,
       ap_Submissions = concat (map (submission_of (ar_Verdicts res)) (sort_cmp compareApprovals approvals))\<rparr>)"

definition approver_json :: "Approver \<Rightarrow> json" where
  "approver_json a =
     JObj ([(''issuer'', JStr (Approver_Issuer a)), (''subject'', JStr (Approver_Subject a))] @
       omit_string ''username'' (Approver_Username a) @ omit_string ''email'' (Approver_Email a) @
       omit_if (Approver_Groups a = []) ''groups'' (JArr (map JStr (Approver_Groups a))))"

definition submission_json :: "submission \<Rightarrow> json" where
  "submission_json s =
     JObj ([(''name'', JStr (su_Name s)), (''uid'', JStr (su_UID s)), (''approver'', approver_json (su_Approver s)),
            (''decision'', JStr (su_Decision s))] @ omit_string ''comment'' (su_Comment s) @
           [(''submittedTime'', JStr (su_SubmittedTime s)), (''creationTime'', JStr (su_CreationTime s)),
            (''counted'', JBool (su_Counted s)), (''reason'', JStr (su_Reason s))])"

definition policy_json :: "ApprovalPolicy \<Rightarrow> json" where
  "policy_json p =
     JObj [(''requiredApprovals'', json_int (sint (ApprovalPolicy_RequiredApprovals p))),
           (''allowedGroups'', JArr (map JStr (ApprovalPolicy_AllowedGroups p)))]"

definition preparation_info_json :: "preparation_info \<Rightarrow> json" where
  "preparation_info_json i =
     JObj [(''namespace'', JStr (pi_Namespace i)), (''name'', JStr (pi_Name i)), (''uid'', JStr (pi_UID i))]"

definition approval_json :: "approval_predicate \<Rightarrow> json" where
  "approval_json p =
     JObj [(''order'', JStr (ap_Order p)), (''preparation'', preparation_info_json (ap_Preparation p)),
       (''policy'', policy_json (ap_Policy p)), (''result'', JStr (ap_Result p)),
       (''sealedTime'', JStr (ap_SealedTime p)), (''submissions'', JArr (map submission_json (ap_Submissions p)))]"

definition buildAttestation :: "Preparation \<Rightarrow> Approval list \<Rightarrow> string + string" where
  "buildAttestation prep approvals =
     (case Preparation_ApprovalPolicy prep of
        None \<Rightarrow> Inl ''preparation has no approval policy''
      | Some policy \<Rightarrow>
         (case sealedStatus prep of
            None \<Rightarrow> Inl ''preparation approvals are not sealed''
          | Some status \<Rightarrow>
              NewStatement (Artifact_OCIRef (PreparationSpec_Artifact (Preparation_Spec prep)))
                (Artifact_Digest (PreparationSpec_Artifact (Preparation_Spec prep))) AttestationPredicateType
                (approval_json (approval_predicate_of prep approvals policy
                  (case PreparationApprovalStatus_SealedTime status of Some t \<Rightarrow> t | None \<Rightarrow> 0)))))"

text \<open>Attaching the sealed approvals, and the reference to them that the status keeps.\<close>

definition Archive :: "record_writer \<Rightarrow> Preparation \<Rightarrow> Approval list \<Rightarrow> string + ApprovalAttestation" where
  "Archive w prep approvals =
     (case buildAttestation prep approvals of
        Inl err \<Rightarrow> Inl err
      | Inr statement \<Rightarrow>
         (case parse_ref w (Artifact_OCIRef (PreparationSpec_Artifact (Preparation_Spec prep))) of
            Inl err \<Rightarrow> Inl (''parsing Preparation artifact reference: '' @ err)
          | Inr subject \<Rightarrow>
             (case attest w subject AttestationPredicateType statement
                 (case sealedStatus prep of Some s \<Rightarrow> (case PreparationApprovalStatus_SealedTime s of Some t \<Rightarrow> t | None \<Rightarrow> 0) | None \<Rightarrow> 0) of
                Inl err \<Rightarrow> Inl err
              | Inr digest \<Rightarrow> Inr
                  \<lparr>ApprovalAttestation_OCIRef = ''oci://'' @ RepositoryReference subject @ ''@'' @ digest,
                   ApprovalAttestation_Digest = digest\<rparr>)))"

section \<open>Decoding approvals\<close>

definition approver_field :: "string \<Rightarrow> json \<Rightarrow> Approver \<Rightarrow> Approver option" where
  "approver_field k v a =
     (if field_is ''issuer'' k then map_option (\<lambda>s. a\<lparr>Approver_Issuer := s\<rparr>) (decode_string v (Approver_Issuer a))
      else if field_is ''subject'' k then map_option (\<lambda>s. a\<lparr>Approver_Subject := s\<rparr>) (decode_string v (Approver_Subject a))
      else if field_is ''username'' k then map_option (\<lambda>s. a\<lparr>Approver_Username := s\<rparr>) (decode_string v (Approver_Username a))
      else if field_is ''email'' k then map_option (\<lambda>s. a\<lparr>Approver_Email := s\<rparr>) (decode_string v (Approver_Email a))
      else if field_is ''groups'' k then map_option (\<lambda>gs. a\<lparr>Approver_Groups := gs\<rparr>) (decode_items decode_string [] v)
      else Some a)"

definition zero_approver :: Approver where
  "zero_approver = \<lparr>Approver_Issuer = [], Approver_Subject = [], Approver_Username = [], Approver_Email = [], Approver_Groups = []\<rparr>"

definition submission_field :: "string \<Rightarrow> json \<Rightarrow> submission \<Rightarrow> submission option" where
  "submission_field k v s =
     (if field_is ''name'' k then map_option (\<lambda>x. s\<lparr>su_Name := x\<rparr>) (decode_string v (su_Name s))
      else if field_is ''uid'' k then map_option (\<lambda>x. s\<lparr>su_UID := x\<rparr>) (decode_string v (su_UID s))
      else if field_is ''approver'' k then map_option (\<lambda>x. s\<lparr>su_Approver := x\<rparr>) (decode_struct approver_field v (su_Approver s))
      else if field_is ''decision'' k then map_option (\<lambda>x. s\<lparr>su_Decision := x\<rparr>) (decode_string v (su_Decision s))
      else if field_is ''comment'' k then map_option (\<lambda>x. s\<lparr>su_Comment := x\<rparr>) (decode_string v (su_Comment s))
      else if field_is ''submittedTime'' k then map_option (\<lambda>x. s\<lparr>su_SubmittedTime := x\<rparr>) (decode_string v (su_SubmittedTime s))
      else if field_is ''creationTime'' k then map_option (\<lambda>x. s\<lparr>su_CreationTime := x\<rparr>) (decode_string v (su_CreationTime s))
      else if field_is ''counted'' k then map_option (\<lambda>x. s\<lparr>su_Counted := x\<rparr>) (decode_bool v (su_Counted s))
      else if field_is ''reason'' k then map_option (\<lambda>x. s\<lparr>su_Reason := x\<rparr>) (decode_string v (su_Reason s))
      else Some s)"

definition zero_submission :: submission where
  "zero_submission = \<lparr>su_Name = [], su_UID = [], su_Approver = zero_approver, su_Decision = [], su_Comment = [],
     su_SubmittedTime = [], su_CreationTime = [], su_Counted = False, su_Reason = []\<rparr>"

definition info_field :: "string \<Rightarrow> json \<Rightarrow> preparation_info \<Rightarrow> preparation_info option" where
  "info_field k v i =
     (if field_is ''namespace'' k then map_option (\<lambda>s. i\<lparr>pi_Namespace := s\<rparr>) (decode_string v (pi_Namespace i))
      else if field_is ''name'' k then map_option (\<lambda>s. i\<lparr>pi_Name := s\<rparr>) (decode_string v (pi_Name i))
      else if field_is ''uid'' k then map_option (\<lambda>s. i\<lparr>pi_UID := s\<rparr>) (decode_string v (pi_UID i))
      else Some i)"

definition policy_field :: "string \<Rightarrow> json \<Rightarrow> ApprovalPolicy \<Rightarrow> ApprovalPolicy option" where
  "policy_field k v p =
     (if field_is ''requiredApprovals'' k
      then map_option (\<lambda>n. p\<lparr>ApprovalPolicy_RequiredApprovals := n\<rparr>) (decode_int32 v (ApprovalPolicy_RequiredApprovals p))
      else if field_is ''allowedGroups'' k
      then map_option (\<lambda>gs. p\<lparr>ApprovalPolicy_AllowedGroups := gs\<rparr>) (decode_items decode_string [] v)
      else Some p)"

definition approvals_field :: "string \<Rightarrow> json \<Rightarrow> approval_predicate \<Rightarrow> approval_predicate option" where
  "approvals_field k v p =
     (if field_is ''order'' k then map_option (\<lambda>s. p\<lparr>ap_Order := s\<rparr>) (decode_string v (ap_Order p))
      else if field_is ''preparation'' k then map_option (\<lambda>x. p\<lparr>ap_Preparation := x\<rparr>) (decode_struct info_field v (ap_Preparation p))
      else if field_is ''policy'' k then map_option (\<lambda>x. p\<lparr>ap_Policy := x\<rparr>) (decode_struct policy_field v (ap_Policy p))
      else if field_is ''result'' k then map_option (\<lambda>s. p\<lparr>ap_Result := s\<rparr>) (decode_string v (ap_Result p))
      else if field_is ''sealedTime'' k then map_option (\<lambda>s. p\<lparr>ap_SealedTime := s\<rparr>) (decode_string v (ap_SealedTime p))
      else if field_is ''submissions'' k
      then map_option (\<lambda>x. p\<lparr>ap_Submissions := x\<rparr>) (decode_items (decode_struct submission_field) zero_submission v)
      else Some p)"

definition zero_approvals :: approval_predicate where
  "zero_approvals = \<lparr>ap_Order = [], ap_Preparation = \<lparr>pi_Namespace = [], pi_Name = [], pi_UID = []\<rparr>,
     ap_Policy = \<lparr>ApprovalPolicy_RequiredApprovals = 0, ApprovalPolicy_AllowedGroups = []\<rparr>,
     ap_Result = [], ap_SealedTime = [], ap_Submissions = []\<rparr>"

definition decode_approvals :: "json \<Rightarrow> approval_predicate option" where
  "decode_approvals statement =
     Option.bind (raw_predicate statement) (\<lambda>p. decode_struct approvals_field p zero_approvals)"

section \<open>Verifying evidence\<close>

text \<open>
  What the verifier calls: the LRU cache, the identity of a trust set, parsing a reference, and finding
  the newest attestation of a predicate type that verifies, which yields the digest of the referrer and
  its statement. The text of an error of decoding JSON is an argument as well.
\<close>

record verified_key =
  vk_digest :: string
  vk_trust :: string
  vk_order :: string
  vk_approvalRequired :: bool

datatype find_failure = FindNotFound string | FindNotVerified string | FindNotRead string

record ('cache, 'trust, 'client) evidence_reader =
  ev_get :: "'cache \<Rightarrow> verified_key \<Rightarrow> bool \<times> 'cache"
  ev_add :: "'cache \<Rightarrow> verified_key \<Rightarrow> 'cache"
  ev_trust_ID :: "'trust \<Rightarrow> string"
  ev_parse :: "string \<Rightarrow> string + oci_reference"
  ev_find :: "'client \<Rightarrow> 'trust \<Rightarrow> oci_reference \<Rightarrow> string \<Rightarrow> find_failure + (string \<times> json)"
  ev_decode_error :: "json \<Rightarrow> string"

definition verifiedCacheSize :: nat where
  "verifiedCacheSize = 1024"

text \<open>Evidence that is missing or does not verify, with the condition reason (\<open>Rejected\<close>), or could not be read.\<close>

datatype 'err evidence_failure = Rejected string string | EvidenceConnect 'err | EvidenceRead string

definition SignaturePredicateType :: string where
  "SignaturePredicateType = ''https://sigstore.dev/cosign/sign/v1''"

definition invalid :: "string \<Rightarrow> 'err evidence_failure" where
  "invalid message = Rejected ReasonSignatureInvalid message"

definition find_evidence ::
    "('cache, 'trust, 'client) evidence_reader \<Rightarrow> 'client \<Rightarrow> 'trust \<Rightarrow> oci_reference \<Rightarrow> string \<Rightarrow> 'err evidence_failure + (string \<times> json)" where
  "find_evidence v client trust subject predicateType =
     (case ev_find v client trust subject predicateType of
        Inl (FindNotFound err) \<Rightarrow> Inl (Rejected ReasonSignatureMissing err)
      | Inl (FindNotVerified err) \<Rightarrow> Inl (invalid err)
      | Inl (FindNotRead err) \<Rightarrow> Inl (EvidenceRead err)
      | Inr found \<Rightarrow> Inr found)"

definition check_provenance :: "('cache, 'trust, 'client) evidence_reader \<Rightarrow> string \<times> json \<Rightarrow> string \<Rightarrow> 'err evidence_failure option" where
  "check_provenance v found order =
     (case found of (digest, statement) \<Rightarrow>
      case decode_provenance statement of
        None \<Rightarrow> Some (invalid (''provenance '' @ digest @ '': '' @ ev_decode_error v statement))
      | Some predicate \<Rightarrow>
          if provenance_order predicate \<noteq> order
          then Some (invalid (''provenance '' @ digest @ '' attests a render for Order '' @ go_quote (provenance_order predicate) @
            '', not '' @ go_quote order))
          else None)"

definition check_approvals :: "('cache, 'trust, 'client) evidence_reader \<Rightarrow> string \<times> json \<Rightarrow> 'err evidence_failure option" where
  "check_approvals v found =
     (case found of (digest, statement) \<Rightarrow>
      case decode_approvals statement of
        None \<Rightarrow> Some (invalid (''approvals '' @ digest @ '': '' @ ev_decode_error v statement))
      | Some approvals \<Rightarrow>
          if ap_Result approvals \<noteq> ReasonApproved
          then Some (invalid (''approvals '' @ digest @ '' record result '' @ go_quote (ap_Result approvals) @ '', not '' @
            go_quote ReasonApproved))
          else None)"

definition Verify_evidence ::
    "('cache, 'trust, 'client) evidence_reader \<Rightarrow> 'client \<Rightarrow> 'trust \<Rightarrow> Preparation \<Rightarrow> string \<Rightarrow> 'err evidence_failure option" where
  "Verify_evidence v client trust preparation order =
     (let artifact = PreparationSpec_Artifact (Preparation_Spec preparation) in
      case ev_parse v (Artifact_OCIRef artifact) of
        Inl err \<Rightarrow> Some (invalid (''invalid artifact reference: '' @ err))
      | Inr subject \<Rightarrow>
          if ref_Digest subject \<noteq> Artifact_Digest artifact
          then Some (invalid (''artifact reference '' @ Artifact_OCIRef artifact @ '' does not name digest '' @ Artifact_Digest artifact))
          else (case find_evidence v client trust subject SignaturePredicateType of
            Inl failed \<Rightarrow> Some failed
          | Inr _ \<Rightarrow>
             (case find_evidence v client trust subject ProvenancePredicateType of
                Inl failed \<Rightarrow> Some failed
              | Inr found \<Rightarrow>
                 (case check_provenance v found order of
                    Some failed \<Rightarrow> Some failed
                  | None \<Rightarrow>
                      if Preparation_ApprovalPolicy preparation = None then None
                      else (case find_evidence v client trust subject AttestationPredicateType of
                        Inl failed \<Rightarrow> Some failed
                      | Inr found \<Rightarrow> check_approvals v found)))))"

definition verified_key_of :: "string \<Rightarrow> Preparation \<Rightarrow> string \<Rightarrow> verified_key" where
  "verified_key_of trust preparation order =
     \<lparr>vk_digest = Artifact_Digest (PreparationSpec_Artifact (Preparation_Spec preparation)), vk_trust = trust, vk_order = order,
      vk_approvalRequired = (Preparation_ApprovalPolicy preparation \<noteq> None)\<rparr>"

definition Verifier_Verify ::
    "('cache, 'trust, 'client) evidence_reader \<Rightarrow> 'trust \<Rightarrow> Preparation \<Rightarrow> string \<Rightarrow> 'err + 'client \<Rightarrow> 'cache \<Rightarrow>
     'err evidence_failure option \<times> 'cache" where
  "Verifier_Verify v trust preparation order connected cache =
     (let key = verified_key_of (ev_trust_ID v trust) preparation order; (hit, cache) = ev_get v cache key in
      if hit then (None, cache)
      else (case connected of
        Inl err \<Rightarrow> (Some (EvidenceConnect err), cache)
      | Inr client \<Rightarrow>
         (case Verify_evidence v client trust preparation order of
            Some failed \<Rightarrow> (Some failed, cache)
          | None \<Rightarrow> (None, ev_add v cache key))))"

section \<open>What verified evidence says\<close>

text \<open>
  The evidence of an artifact with a digest, as the trust set and the registry a client reads give it:
  a signature, provenance that names the Order, and, where they are required, approvals that approve.
\<close>

definition evidenced ::
    "('cache, 'trust, 'client) evidence_reader \<Rightarrow> 'client \<Rightarrow> 'trust \<Rightarrow> string \<Rightarrow> string \<Rightarrow> bool \<Rightarrow> bool" where
  "evidenced v client trust digest order required \<longleftrightarrow>
     (\<exists>subject. ref_Digest subject = digest
      \<and> (\<exists>found. ev_find v client trust subject SignaturePredicateType = Inr found)
      \<and> (\<exists>d statement p. ev_find v client trust subject ProvenancePredicateType = Inr (d, statement)
           \<and> decode_provenance statement = Some p \<and> provenance_order p = order)
      \<and> (required \<longrightarrow> (\<exists>d statement a. ev_find v client trust subject AttestationPredicateType = Inr (d, statement)
           \<and> decode_approvals statement = Some a \<and> ap_Result a = ReasonApproved)))"

lemma find_evidence_Inr: "find_evidence v client trust subject t = Inr found \<longleftrightarrow> ev_find v client trust subject t = Inr found"
  by (auto simp: find_evidence_def split: sum.splits find_failure.splits)

lemma check_provenance_None:
  "check_provenance v (d, statement) order = None \<longleftrightarrow> (\<exists>p. decode_provenance statement = Some p \<and> provenance_order p = order)"
  by (auto simp: check_provenance_def split: option.splits)

lemma check_approvals_None:
  "check_approvals v (d, statement) = None \<longleftrightarrow> (\<exists>a. decode_approvals statement = Some a \<and> ap_Result a = ReasonApproved)"
  by (auto simp: check_approvals_def split: option.splits)

lemma find_evidence_case:
  "(case find_evidence v client trust subject t of Inl failed \<Rightarrow> Some failed | Inr found \<Rightarrow> f found) = None \<longleftrightarrow>
     (\<exists>d statement. ev_find v client trust subject t = Inr (d, statement) \<and> f (d, statement) = None)"
  by (cases "ev_find v client trust subject t") (auto simp: find_evidence_def split: find_failure.splits)

lemma Verify_evidence_None:
  "Verify_evidence v client trust preparation order = None \<longleftrightarrow>
     (\<exists>subject. ev_parse v (Artifact_OCIRef (PreparationSpec_Artifact (Preparation_Spec preparation))) = Inr subject
      \<and> ref_Digest subject = Artifact_Digest (PreparationSpec_Artifact (Preparation_Spec preparation))
      \<and> (\<exists>d statement. ev_find v client trust subject SignaturePredicateType = Inr (d, statement))
      \<and> (\<exists>d statement. ev_find v client trust subject ProvenancePredicateType = Inr (d, statement)
           \<and> (\<exists>p. decode_provenance statement = Some p \<and> provenance_order p = order))
      \<and> (Preparation_ApprovalPolicy preparation = None
         \<or> (\<exists>d statement. ev_find v client trust subject AttestationPredicateType = Inr (d, statement)
           \<and> (\<exists>a. decode_approvals statement = Some a \<and> ap_Result a = ReasonApproved))))"
proof (cases "ev_parse v (Artifact_OCIRef (PreparationSpec_Artifact (Preparation_Spec preparation)))")
  case (Inr subject)
  show ?thesis
    using Inr
    by (auto simp: Verify_evidence_def Let_def find_evidence_case option_case_first check_provenance_None check_approvals_None)
qed (simp add: Verify_evidence_def)

lemma Verify_evidence_evidenced:
  assumes "Verify_evidence v client trust preparation order = None"
  shows "evidenced v client trust (Artifact_Digest (PreparationSpec_Artifact (Preparation_Spec preparation))) order
     (Preparation_ApprovalPolicy preparation \<noteq> None)"
  using assms unfolding Verify_evidence_None evidenced_def by blast

lemma Verifier_cached:
  "Verifier_Verify v trust preparation order connected cache =
     cached_check (ev_get v) (ev_add v) (verified_key_of (ev_trust_ID v trust) preparation order)
       (case connected of Inl err \<Rightarrow> Some (EvidenceConnect err)
        | Inr client \<Rightarrow> Verify_evidence v client trust preparation order) cache"
  by (cases connected) (auto simp: Verifier_Verify_def cached_check_def Let_def split: option.splits prod.splits)

text \<open>The caches a verifier can be left with, by any sequence of verifications.\<close>

inductive verifier_cache :: "('cache, 'trust, 'client) evidence_reader \<Rightarrow> ('cache \<Rightarrow> verified_key set) \<Rightarrow> 'cache \<Rightarrow> bool"
  for v :: "('cache, 'trust, 'client) evidence_reader" and keys :: "'cache \<Rightarrow> verified_key set" where
  verifier_empty: "keys cache = {} \<Longrightarrow> verifier_cache v keys cache"
| verifier_step: "verifier_cache v keys cache \<Longrightarrow>
    Verifier_Verify v trust preparation order (connected :: unit + 'client) cache = (result, cache') \<Longrightarrow> verifier_cache v keys cache'"

definition same_trust :: "('cache, 'trust, 'client) evidence_reader \<Rightarrow> bool" where
  "same_trust v \<longleftrightarrow>
     (\<forall>t t'. ev_trust_ID v t = ev_trust_ID v t' \<longrightarrow> (\<lambda>client. ev_find v client t) = (\<lambda>client. ev_find v client t'))"

definition good_key :: "('cache, 'trust, 'client) evidence_reader \<Rightarrow> verified_key \<Rightarrow> bool" where
  "good_key v k \<longleftrightarrow> (\<exists>client trust. vk_trust k = ev_trust_ID v trust \<and> evidenced v client trust (vk_digest k) (vk_order k) (vk_approvalRequired k))"

lemma Verifier_step:
  assumes "cache_laws (ev_get v) (ev_add v) keys" "\<forall>k\<in>keys cache. good_key v k"
    and "Verifier_Verify v trust preparation order (connected :: 'e + 'client) cache = (result, cache')"
  shows "\<forall>k\<in>keys cache'. good_key v k"
    and "result = None \<Longrightarrow> good_key v (verified_key_of (ev_trust_ID v trust) preparation order)"
proof -
  let ?check = "(case connected of Inl err \<Rightarrow> Some (EvidenceConnect err) | Inr client \<Rightarrow> Verify_evidence v client trust preparation order)
    :: 'e evidence_failure option"
  have "?check = None \<longrightarrow> good_key v (verified_key_of (ev_trust_ID v trust) preparation order)"
  proof
    assume "?check = None"
    then obtain client where "(Verify_evidence v client trust preparation order :: 'e evidence_failure option) = None"
      by (auto split: sum.splits)
    from Verify_evidence_evidenced [OF this]
    show "good_key v (verified_key_of (ev_trust_ID v trust) preparation order)"
      by (auto simp: good_key_def verified_key_of_def)
  qed
  from cached_check_sound [where good = "good_key v", OF assms(1,2) this assms(3) [unfolded Verifier_cached]]
  show "\<forall>k\<in>keys cache'. good_key v k" "result = None \<Longrightarrow> good_key v (verified_key_of (ev_trust_ID v trust) preparation order)"
    by blast+
qed

lemma verifier_cache_good:
  assumes "cache_laws (ev_get v) (ev_add v) keys"
  shows "verifier_cache v keys cache \<Longrightarrow> \<forall>k\<in>keys cache. good_key v k"
proof (induction rule: verifier_cache.induct)
  case (verifier_step cache trust preparation order connected result cache')
  from Verifier_step(1) [OF assms verifier_step.IH verifier_step.hyps(2)] show ?case .
qed simp

lemma evidenced_same_trust:
  assumes "same_trust v" "ev_trust_ID v t = ev_trust_ID v t'" "evidenced v client t digest order required"
  shows "evidenced v client t' digest order required"
proof -
  have "(\<lambda>client. ev_find v client t) = (\<lambda>client. ev_find v client t')"
    using assms(1,2) unfolding same_trust_def by blast
  from fun_cong [OF this] have "ev_find v client t = ev_find v client t'" .
  then show ?thesis using assms(3) unfolding evidenced_def by simp
qed

section \<open>What Kokumi records decodes again\<close>

lemma those_Some: "(\<And>x. f (g x) = Some x) \<Longrightarrow> those (map (f \<circ> g) xs) = Some xs"
  by (induction xs) auto

lemma decode_items_map: "(\<And>x. item (g x) zero = Some x) \<Longrightarrow> decode_items item zero (JArr (map g xs)) = Some xs"
  using those_Some [of "\<lambda>x. item x zero" g xs] by (simp add: comp_def)

lemma is_digit_char: "0 \<le> n \<Longrightarrow> n < 10 \<Longrightarrow> is_digit (digit_char n)"
  by (simp add: is_digit_def of_digit_char)

lemma digits_is_digit: "0 \<le> n \<Longrightarrow> list_all is_digit (digits n) \<and> digits n \<noteq> []"
proof (induction n rule: digits.induct)
  case (1 n)
  then show ?case by (cases "n < 10") (simp_all add: digits.simps [of n] is_digit_char)
qed

lemma digits_no_sign: "0 \<le> n \<Longrightarrow> \<not> has_prefix ''-'' (digits n)"
  using digits_is_digit [of n] by (cases "digits n") (auto simp: has_prefix_def is_digit_def)

lemma parse_int_dec: "parse_int (int_dec i) = Some i"
proof (cases "i < 0")
  case True
  then show ?thesis
    using digits_is_digit [of "- i"] by (simp add: parse_int_def int_dec_def has_prefix_def trim_prefix_def Let_def)
next
  case False
  then show ?thesis
    using digits_is_digit [of i] digits_no_sign [of i] by (simp add: parse_int_def int_dec_def trim_prefix_def Let_def)
qed

lemma decode_int32_json: "decode_int32 (json_int (sint (n :: int32))) m = Some n"
  using sint_range_size [of n] sint_ge [of n] sint_lt [of n] by (simp add: json_int_def parse_int_dec)

lemma decode_strings: "decode_items decode_string [] (JArr (map JStr xs)) = Some xs"
  by (rule decode_items_map) simp

lemma decode_approver: "decode_struct approver_field (approver_json a) zero_approver = Some a"
  by (simp add: approver_json_def omit_string_def omit_if_def approver_field_def field_is_def ascii_upper_def zero_approver_def
      decode_strings del: decode_items.simps)

lemma decode_submission: "decode_struct submission_field (submission_json s) zero_submission = Some s"
  by (simp add: submission_json_def omit_string_def omit_if_def submission_field_def field_is_def ascii_upper_def
      zero_submission_def decode_approver)

lemma decode_submissions:
  "decode_items (decode_struct submission_field) zero_submission (JArr (map submission_json ss)) = Some ss"
  by (rule decode_items_map) (rule decode_submission)

lemma decode_info: "decode_struct info_field (preparation_info_json i) z = Some i"
  by (simp add: preparation_info_json_def info_field_def field_is_def ascii_upper_def)

lemma decode_policy: "decode_struct policy_field (policy_json p) z = Some p"
  by (simp add: policy_json_def policy_field_def field_is_def ascii_upper_def decode_int32_json decode_strings
      del: decode_items.simps)

lemma decode_approval_json: "decode_struct approvals_field (approval_json p) z = Some p"
  by (simp add: approval_json_def approvals_field_def field_is_def ascii_upper_def decode_info decode_policy decode_submissions
      del: decode_items.simps)

lemma decode_approval_statement: "decode_approvals (statement_json n h t (approval_json p)) = Some p"
  by (simp add: decode_approvals_def raw_predicate_statement decode_approval_json)

lemma reason_approved_iff:
  assumes "Preparation_ApprovalPolicy prep \<noteq> None"
  shows "ar_Reason (approval_Evaluate prep approvals) = ReasonApproved \<longleftrightarrow> ar_Approved (approval_Evaluate prep approvals)"
  using assms by (auto simp: approval_Evaluate_def decide_def Let_def reasons split: option.splits prod.splits if_splits)

section \<open>Properties\<close>

text \<open>The evidence of a Preparation is accepted exactly when its artifact reference names its digest and
  the registry holds, about that artifact and verified against the trust set, a signature, provenance
  of a render for the Order, and, when an approval policy applies, sealed approvals with the result
  Approved.\<close>

theorem evidence_accepted_iff:
  "Verify_evidence v client trust preparation order = None \<longleftrightarrow>
     (\<exists>subject. ev_parse v (Artifact_OCIRef (PreparationSpec_Artifact (Preparation_Spec preparation))) = Inr subject
      \<and> ref_Digest subject = Artifact_Digest (PreparationSpec_Artifact (Preparation_Spec preparation))
      \<and> (\<exists>d statement. ev_find v client trust subject ''https://sigstore.dev/cosign/sign/v1'' = Inr (d, statement))
      \<and> (\<exists>d statement p. ev_find v client trust subject ''https://slsa.dev/provenance/v1'' = Inr (d, statement)
           \<and> decode_provenance statement = Some p \<and> provenance_order p = order)
      \<and> (Preparation_ApprovalPolicy preparation = None
         \<or> (\<exists>d statement a. ev_find v client trust subject ''https://kokumi.dev/attestations/approval/v1'' = Inr (d, statement)
           \<and> decode_approvals statement = Some a \<and> ap_Result a = ''Approved'')))"
  unfolding Verify_evidence_None SignaturePredicateType_def ProvenancePredicateType_def AttestationPredicateType_def
    ReasonApproved_def by blast

text \<open>The cache of verified evidence lets nothing through that did not verify: whatever was verified
  before, evidence that is accepted, from the cache or not, is in the registry, for the artifact's
  digest, the trust set and the Order it was asked for, with approvals if they are required.\<close>

theorem cached_evidence_sound:
  assumes "cache_laws (ev_get v) (ev_add v) keys" "same_trust v" "verifier_cache v keys cache"
    and "Verifier_Verify v trust preparation order connected cache = (None, cache')"
  shows "\<exists>client. evidenced v client trust (Artifact_Digest (PreparationSpec_Artifact (Preparation_Spec preparation))) order
     (Preparation_ApprovalPolicy preparation \<noteq> None)"
proof -
  have "good_key v (verified_key_of (ev_trust_ID v trust) preparation order)"
    using Verifier_step(2) [OF assms(1) verifier_cache_good [OF assms(1,3)] assms(4)] by simp
  then obtain client t where "ev_trust_ID v t = ev_trust_ID v trust"
    "evidenced v client t (Artifact_Digest (PreparationSpec_Artifact (Preparation_Spec preparation))) order
       (Preparation_ApprovalPolicy preparation \<noteq> None)"
    by (auto simp: good_key_def verified_key_of_def)
  then show ?thesis using evidenced_same_trust [OF assms(2)] by blast
qed

definition sample_provenance :: json where
  "sample_provenance = JObj [(''predicate'', JObj [(''buildDefinition'', JObj [(''externalParameters'', JObj [(''order'', JStr ''ns/o'')])])])]"

definition sample_evidence_reader :: "(verified_key list, string, unit) evidence_reader" where
  "sample_evidence_reader = \<lparr>ev_get = list_get, ev_add = list_add 2, ev_trust_ID = (\<lambda>t. t),
     ev_parse = (\<lambda>_. Inr \<lparr>ref_Registry = ''r'', ref_Repository = ''p'', ref_Tag = [], ref_Digest = ''sha256:c''\<rparr>),
     ev_find = (\<lambda>_ _ _ t. Inr (''sha256:d'', sample_provenance)), ev_decode_error = (\<lambda>_. [])\<rparr>"

lemma sample_provenance_decodes: "\<exists>p. decode_provenance sample_provenance = Some p \<and> provenance_order p = ''ns/o''"
  by (simp add: decode_provenance_def sample_provenance_def field_is_def ascii_upper_def provenance_field_def build_field_def
      external_field_def provenance_order_def)

definition unapproved_preparation :: Preparation where
  "unapproved_preparation =
     crowd_preparation\<lparr>Preparation_Spec := (Preparation_Spec crowd_preparation)\<lparr>PreparationSpec_Promotion := None,
       PreparationSpec_Artifact := \<lparr>Artifact_OCIRef = ''oci://r/p@sha256:c'', Artifact_Digest = ''sha256:c'', Artifact_RegistryRef = None\<rparr>\<rparr>\<rparr>"

theorem cached_evidence_sound_witness:
  "\<exists>client. evidenced sample_evidence_reader client ''k'' ''sha256:c'' ''ns/o'' False"
proof -
  let ?v = sample_evidence_reader
  have cache: "cache_laws (ev_get ?v) (ev_add ?v) set" "same_trust ?v" "verifier_cache ?v set []"
    by (auto simp: sample_evidence_reader_def cache_laws_list same_trust_def intro: verifier_empty)
  have none: "Preparation_ApprovalPolicy unapproved_preparation = None"
    and digest: "Artifact_Digest (PreparationSpec_Artifact (Preparation_Spec unapproved_preparation)) = ''sha256:c''"
    by (simp_all add: unapproved_preparation_def Preparation_ApprovalPolicy_def)
  have "(Verify_evidence ?v () ''k'' unapproved_preparation ''ns/o'' :: unit evidence_failure option) = None"
    unfolding Verify_evidence_None digest using sample_provenance_decodes none by (simp add: sample_evidence_reader_def)
  then have "Verifier_Verify ?v ''k'' unapproved_preparation ''ns/o'' (Inr () :: unit + unit) []
      = (None, ev_add ?v [] (verified_key_of ''k'' unapproved_preparation ''ns/o''))"
    by (simp add: Verifier_Verify_def Let_def) (simp add: sample_evidence_reader_def list_get_def)
  from cached_evidence_sound [OF cache this] show ?thesis by (simp add: none digest)
qed

text \<open>C22: What Kokumi archives is what it later accepts: the statement of the sealed approvals of a
  Preparation decodes to exactly the policy, the result and the submissions it was built from, and
  the evidence check accepts it precisely when the approvals approved.\<close>

theorem sealed_approvals_accepted_iff:
  assumes "buildAttestation prep approvals = Inr bytes" "Preparation_ApprovalPolicy prep = Some policy"
  shows "\<exists>hex sealed. bytes = json_encode True (statement_json (Artifact_OCIRef (PreparationSpec_Artifact (Preparation_Spec prep))) hex
          AttestationPredicateType (approval_json (approval_predicate_of prep approvals policy sealed)))
     \<and> decode_approvals (statement_json (Artifact_OCIRef (PreparationSpec_Artifact (Preparation_Spec prep))) hex
          AttestationPredicateType (approval_json (approval_predicate_of prep approvals policy sealed)))
        = Some (approval_predicate_of prep approvals policy sealed)
     \<and> (check_approvals v (d, statement_json (Artifact_OCIRef (PreparationSpec_Artifact (Preparation_Spec prep))) hex
          AttestationPredicateType (approval_json (approval_predicate_of prep approvals policy sealed))) = None
        \<longleftrightarrow> ar_Approved (approval_Evaluate prep approvals))"
proof -
  have approved: "ap_Result (approval_predicate_of prep approvals policy sealed) = ReasonApproved \<longleftrightarrow> ar_Approved (approval_Evaluate prep approvals)" for sealed
    using reason_approved_iff [of prep approvals] assms(2) by (simp add: approval_predicate_of_def Let_def)
  obtain hex sealed where "bytes = json_encode True (statement_json (Artifact_OCIRef (PreparationSpec_Artifact (Preparation_Spec prep))) hex
          AttestationPredicateType (approval_json (approval_predicate_of prep approvals policy sealed)))"
    using assms by (auto simp: buildAttestation_def NewStatement_Inr split: option.splits)
  then show ?thesis
    by (intro exI [of _ hex] exI [of _ sealed]) (simp add: decode_approval_statement check_approvals_None approved)
qed

definition archived_preparation :: Preparation where
  "archived_preparation = sealed_preparation\<lparr>Preparation_Spec := (Preparation_Spec sealed_preparation)\<lparr>PreparationSpec_Artifact :=
     \<lparr>Artifact_OCIRef = ''oci://r/p@sha256:c'', Artifact_Digest = ''sha256:c'', Artifact_RegistryRef = None\<rparr>\<rparr>\<rparr>"

theorem sealed_approvals_accepted_iff_witness:
  "\<exists>sealed. decode_approvals (statement_json ''oci://r/p@sha256:c'' ''c'' AttestationPredicateType
      (approval_json (approval_predicate_of archived_preparation [] crowd_policy sealed)))
     = Some (approval_predicate_of archived_preparation [] crowd_policy sealed)"
proof -
  have policy: "Preparation_ApprovalPolicy archived_preparation = Some crowd_policy"
    and ref: "Artifact_OCIRef (PreparationSpec_Artifact (Preparation_Spec archived_preparation)) = ''oci://r/p@sha256:c''"
    and digest: "Artifact_Digest (PreparationSpec_Artifact (Preparation_Spec archived_preparation)) = ''sha256:c''"
    and sealed: "sealedStatus archived_preparation = Some sealed_sample"
    using sealed_preparation_of by (simp_all add: archived_preparation_def Preparation_ApprovalPolicy_def sealedStatus_def)
  have "''sha256:c'' = ''sha256:'' @ ''c''" by simp
  then obtain bytes where "buildAttestation archived_preparation [] = Inr bytes"
    unfolding buildAttestation_def policy sealed digest option.case NewStatement_Inr by blast
  from sealed_approvals_accepted_iff [OF this policy, of sample_evidence_reader "''d''"]
  show ?thesis by (auto simp: ref decode_approval_statement)
qed

end
