(* ===== verification/Serving_State.thy ===== *)
theory Serving_State
  imports Promotion_Record Promotion_Pipeline Approval Resolve_Merge Conditions Api_Kitchen
begin

text \<open>
  The state a Serving keeps (\<open>internal/controller/serving_controller.go\<close>): its stored history and the
  domain form of it, the targets it deploys to, what their engine reports, and the counts, targets and
  conditions its status holds. The theory proves that the history survives being stored, that one
  server is deployed to once, that the counts add up, and when a deployment counts as healthy.
\<close>

section \<open>The history in the status\<close>

fun end_reason_of :: "DeploymentEndReason \<Rightarrow> end_reason" where
  "end_reason_of DeploymentEndReasonUnset = EndNone"
| "end_reason_of DeploymentEndReasonSuperseded = EndSuperseded"
| "end_reason_of DeploymentEndReasonDegraded = EndDegraded"

fun stored_end_reason :: "end_reason \<Rightarrow> DeploymentEndReason" where
  "stored_end_reason EndNone = DeploymentEndReasonUnset"
| "stored_end_reason EndSuperseded = DeploymentEndReasonSuperseded"
| "stored_end_reason EndDegraded = DeploymentEndReasonDegraded"

definition optionalTime :: "time \<Rightarrow> time option" where
  "optionalTime t = (if t = 0 then None else Some t)"

definition registryRef :: "string \<Rightarrow> local_object_reference option" where
  "registryRef name = (if name = [] then None else Some name)"

definition or_zero :: "'a::zero option \<Rightarrow> 'a" where
  "or_zero v = (case v of None \<Rightarrow> 0 | Some x \<Rightarrow> x)"

definition or_empty :: "string option \<Rightarrow> string" where
  "or_empty v = (case v of None \<Rightarrow> [] | Some x \<Rightarrow> x)"

definition history_entry :: "DeploymentEntry \<Rightarrow> entry" where
  "history_entry e =
     \<lparr>e_Preparation = DeploymentEntry_PreparationName e, e_Digest = DeploymentEntry_Digest e,
      e_OCIRef = DeploymentEntry_OCIRef e, e_Registry = or_empty (DeploymentEntry_RegistryRef e),
      e_ProductRevision = DeploymentEntry_ProductRevision e, e_Started = DeploymentEntry_StartedTime e,
      e_Healthy = or_zero (DeploymentEntry_HealthyTime e), e_Ended = or_zero (DeploymentEntry_EndedTime e),
      e_EndReason = end_reason_of (DeploymentEntry_EndReason e),
      e_PromotionRecord = DeploymentEntry_PromotionRecord e,
      e_DeploymentRecord = DeploymentEntry_DeploymentRecord e\<rparr>"

definition stored_entry :: "entry \<Rightarrow> DeploymentEntry" where
  "stored_entry e =
     \<lparr>DeploymentEntry_PreparationName = e_Preparation e, DeploymentEntry_Digest = e_Digest e,
      DeploymentEntry_OCIRef = e_OCIRef e, DeploymentEntry_RegistryRef = registryRef (e_Registry e),
      DeploymentEntry_ProductRevision = e_ProductRevision e, DeploymentEntry_StartedTime = e_Started e,
      DeploymentEntry_HealthyTime = optionalTime (e_Healthy e), DeploymentEntry_EndedTime = optionalTime (e_Ended e),
      DeploymentEntry_EndReason = stored_end_reason (e_EndReason e),
      DeploymentEntry_PromotionRecord = e_PromotionRecord e,
      DeploymentEntry_DeploymentRecord = e_DeploymentRecord e\<rparr>"

definition historyOf :: "Serving \<Rightarrow> history" where
  "historyOf serving = map history_entry (ServingStatus_History (Serving_Status serving))"

definition on_status :: "(ServingStatus \<Rightarrow> ServingStatus) \<Rightarrow> Serving \<Rightarrow> Serving" where
  "on_status f serving = serving\<lparr>Serving_Status := f (Serving_Status serving)\<rparr>"

definition setHistory :: "Serving \<Rightarrow> history \<Rightarrow> Serving" where
  "setHistory serving h = on_status (\<lambda>s. s\<lparr>ServingStatus_History := map stored_entry h\<rparr>) serving"

definition setTargetPreparation :: "Serving \<Rightarrow> string \<Rightarrow> Serving" where
  "setTargetPreparation serving name = on_status (\<lambda>s. s\<lparr>ServingStatus_TargetPreparationName := name\<rparr>) serving"

abbreviation preparation_name :: "Preparation \<Rightarrow> string" where
  "preparation_name p \<equiv> om_Name (Preparation_ObjectMeta p)"

abbreviation preparation_artifact :: "Preparation \<Rightarrow> Artifact" where
  "preparation_artifact p \<equiv> PreparationSpec_Artifact (Preparation_Spec p)"

abbreviation revision_of :: "Preparation \<Rightarrow> string" where
  "revision_of p \<equiv> PreparationSpec_ProductRevision (Preparation_Spec p)"

definition entryOf :: "Preparation \<Rightarrow> entry" where
  "entryOf preparation = zero_entry
     \<lparr>e_Preparation := preparation_name preparation,
      e_Digest := Artifact_Digest (preparation_artifact preparation),
      e_OCIRef := Artifact_OCIRef (preparation_artifact preparation),
      e_ProductRevision := revision_of preparation,
      e_Registry := or_empty (Artifact_RegistryRef (preparation_artifact preparation))\<rparr>"

definition stagesOf :: "Preparation \<Rightarrow> stage list" where
  "stagesOf preparation =
     map (\<lambda>u. \<lparr>s_Order = UpstreamStage_Order u, s_SoakSeconds = UpstreamStage_SoakSeconds u\<rparr>) (Preparation_UpstreamStages preparation)"

text \<open>The loop over the waits.\<close>

fun shortest_wait :: "duration \<Rightarrow> duration list \<Rightarrow> duration" where
  "shortest_wait shortest [] = shortest"
| "shortest_wait shortest (wait # waits) =
     shortest_wait (if wait > 0 \<and> (shortest = 0 \<or> wait < shortest) then wait else shortest) waits"

definition soonest :: "duration list \<Rightarrow> duration" where
  "soonest waits = shortest_wait 0 waits"

section \<open>Targets\<close>

definition InCluster :: string where
  "InCluster = ''in-cluster''"

definition InClusterServer :: string where
  "InClusterServer = ''https://kubernetes.default.svc''"

definition maxListedClusters :: nat where
  "maxListedClusters = 10"

definition maxListedServingFailures :: nat where
  "maxListedServingFailures = 5"

definition maxListedTargets :: nat where
  "maxListedTargets = 64"

definition maxTargetMessageLength :: nat where
  "maxTargetMessageLength = 1024"

definition historyPassInterval :: duration where
  "historyPassInterval = second"

text \<open>A cluster a Serving deploys to, or, when it has a hold reason, would deploy to and cannot.\<close>

record deployTarget =
  tg_cluster :: string
  tg_server :: string
  tg_namespace :: string
  tg_holdReason :: string
  tg_holdMessage :: string

record targetState =
  ts_health :: Health
  ts_revision :: string
  ts_message :: string
  ts_held :: string

definition serverKey :: "string \<Rightarrow> string" where
  "serverKey server = trim_suffix ''/'' server"

abbreviation cluster_name :: "Cluster \<Rightarrow> string" where
  "cluster_name c \<equiv> om_Name (Cluster_ObjectMeta c)"

definition inCluster :: "Cluster \<Rightarrow> bool" where
  "inCluster c = (ClusterSpec_Connection (Cluster_Spec c) = ClusterConnectionInCluster)"

definition target_server :: "Cluster \<Rightarrow> string" where
  "target_server c = (if inCluster c then InClusterServer else ClusterStatus_Server (Cluster_Status c))"

definition not_ready_message :: "Cluster \<Rightarrow> condition option \<Rightarrow> string" where
  "not_ready_message c ready =
     (case ready of
        None \<Rightarrow> ''Cluster '' @ cluster_name c @ '' has not been checked yet''
      | Some r \<Rightarrow> ''Cluster '' @ cluster_name c @ '' is not ready: '' @ c_Message r)"

text \<open>
  The target of a Cluster, and the servers that are taken after it. A Cluster that is not Ready takes
  no server; of two Ready Clusters for one server the first takes it.
\<close>

definition targetOf ::
    "condition_library \<Rightarrow> Cluster \<Rightarrow> string \<Rightarrow> string \<Rightarrow> (string \<rightharpoonup> string) \<Rightarrow> deployTarget \<times> (string \<rightharpoonup> string)" where
  "targetOf lib c namespace bundled servers =
     (let target = \<lparr>tg_cluster = cluster_name c, tg_server = target_server c, tg_namespace = namespace,
                    tg_holdReason = [], tg_holdMessage = []\<rparr>;
          ready = find_condition lib (ClusterStatus_Conditions (Cluster_Status c)) ConditionTypeReady;
          key = serverKey (tg_server target);
          held = (case servers key of
             Some first \<Rightarrow> target\<lparr>tg_holdReason := ReasonClusterConflict,
                tg_holdMessage := ''Cluster '' @ cluster_name c @ '' connects to '' @ tg_server target @ '', as Cluster '' @ first @
                  '' does, which deploys there; one cluster is one Cluster''\<rparr>
           | None \<Rightarrow> if \<not> inCluster c \<and> bundled \<noteq> []
               then target\<lparr>tg_holdReason := ReasonRegistryUnreachable,
                  tg_holdMessage := ''The kubelet would pull '' @ bundled @ '' from the bundled registry, which only the cluster Kokumi runs in reaches; vendor the images to a registry every cluster reaches''\<rparr>
               else target)
      in case ready of
           None \<Rightarrow> (target\<lparr>tg_holdReason := ReasonClusterNotReady, tg_holdMessage := not_ready_message c ready\<rparr>, servers)
         | Some r \<Rightarrow>
             if c_Status r \<noteq> ConditionTrue
             then (target\<lparr>tg_holdReason := ReasonClusterNotReady, tg_holdMessage := not_ready_message c ready\<rparr>, servers)
             else (held, if servers key = None then servers(key \<mapsto> cluster_name c) else servers))"

fun targets_of ::
    "condition_library \<Rightarrow> string \<Rightarrow> string \<Rightarrow> (string \<rightharpoonup> string) \<Rightarrow> Cluster list \<Rightarrow> deployTarget list" where
  "targets_of lib namespace bundled servers [] = []"
| "targets_of lib namespace bundled servers (c # cs) =
     (case targetOf lib c namespace bundled servers of
        (target, servers) \<Rightarrow> target # targets_of lib namespace bundled servers cs)"

text \<open>The first image the kubelet would pull from the bundled registry.\<close>

definition pulled_image :: "PreparationImage \<Rightarrow> string" where
  "pulled_image img = str_or [PreparationImage_Vendored img, PreparationImage_Name img, PreparationImage_Ref img]"

definition bundledPull :: "string \<Rightarrow> Preparation \<Rightarrow> string" where
  "bundledPull host preparation =
     (case find (\<lambda>img. host \<noteq> [] \<and> has_prefix (host @ ''/'') (trim_prefix ''oci://'' (pulled_image img)))
             (PreparationSpec_Images (Preparation_Spec preparation)) of
        Some img \<Rightarrow> pulled_image img | None \<Rightarrow> [])"

text \<open>Reducing what the engine reports on the targets to one observation: the loop, with its early return.\<close>

fun observe_targets :: "entry \<Rightarrow> (string \<rightharpoonup> targetState) \<Rightarrow> nat \<Rightarrow> nat \<Rightarrow> deployTarget list \<Rightarrow> observation" where
  "observe_targets deployed states considered healthy [] =
     (if considered > 0 \<and> healthy = considered then \<lparr>o_Revision = e_Digest deployed, o_Health = HealthHealthy\<rparr>
      else \<lparr>o_Revision = [], o_Health = HealthProgressing\<rparr>)"
| "observe_targets deployed states considered healthy (t # ts) =
     (if tg_holdReason t = ReasonClusterNotReady then observe_targets deployed states considered healthy ts
      else case states (tg_cluster t) of
        None \<Rightarrow> observe_targets deployed states (considered + 1) healthy ts
      | Some state \<Rightarrow>
          if tg_holdReason t \<noteq> [] \<or> ts_revision state \<noteq> e_Digest deployed
          then observe_targets deployed states (considered + 1) healthy ts
          else case ts_health state of
            HealthDegraded \<Rightarrow> \<lparr>o_Revision = e_Digest deployed, o_Health = HealthDegraded\<rparr>
          | HealthHealthy \<Rightarrow> observe_targets deployed states (considered + 1) (healthy + 1) ts
          | HealthProgressing \<Rightarrow> observe_targets deployed states (considered + 1) healthy ts)"

definition observationOf :: "entry \<Rightarrow> deployTarget list \<Rightarrow> (string \<rightharpoonup> targetState) \<Rightarrow> observation" where
  "observationOf deployed targets states = observe_targets deployed states 0 0 targets"

section \<open>Targets in the status\<close>

definition serving_setter :: "Serving setter" where
  "serving_setter = \<lparr>GetGeneration = \<lambda>s. om_Generation (Serving_ObjectMeta s),
     GetConditions = Serving_GetConditions, SetConditions = Serving_SetConditions\<rparr>"

text \<open>A target's conditions, observed at the Serving's generation (\<open>targetConditions\<close>).\<close>

definition targetConditions :: "int64 \<Rightarrow> DeploymentTarget setter" where
  "targetConditions generation = \<lparr>GetGeneration = \<lambda>_. generation, GetConditions = DeploymentTarget_Conditions,
     SetConditions = \<lambda>c t. t\<lparr>DeploymentTarget_Conditions := c\<rparr>\<rparr>"

definition targetRank :: "condition_library \<Rightarrow> DeploymentTarget \<Rightarrow> int" where
  "targetRank lib t =
     (case find_condition lib (DeploymentTarget_Conditions t) ConditionTypeReady of
        None \<Rightarrow> 2
      | Some ready \<Rightarrow> if c_Status ready = ConditionUnknown then 2 else if c_Reason ready = ReasonDegraded then 1 else 0)"

datatype target_class = TargetHeld | TargetDegraded | TargetHealthy | TargetProgressing

definition classify :: "entry \<Rightarrow> (string \<rightharpoonup> targetState) \<Rightarrow> deployTarget \<Rightarrow> target_class" where
  "classify deployed states target =
     (if tg_holdReason target \<noteq> [] then TargetHeld
      else case states (tg_cluster target) of
        None \<Rightarrow> TargetProgressing
      | Some state \<Rightarrow>
          if ts_revision state = e_Digest deployed \<and> ts_health state = HealthDegraded then TargetDegraded
          else if ts_revision state = e_Digest deployed \<and> ts_health state = HealthHealthy then TargetHealthy
          else TargetProgressing)"

definition count_target :: "target_class \<Rightarrow> DeploymentClusters \<Rightarrow> DeploymentClusters" where
  "count_target cls counts =
     (case cls of
        TargetHeld \<Rightarrow> counts\<lparr>DeploymentClusters_Held := DeploymentClusters_Held counts + 1\<rparr>
      | TargetDegraded \<Rightarrow> counts\<lparr>DeploymentClusters_Degraded := DeploymentClusters_Degraded counts + 1\<rparr>
      | TargetHealthy \<Rightarrow> counts\<lparr>DeploymentClusters_Healthy := DeploymentClusters_Healthy counts + 1\<rparr>
      | TargetProgressing \<Rightarrow> counts\<lparr>DeploymentClusters_Progressing := DeploymentClusters_Progressing counts + 1\<rparr>)"

text \<open>The target as the status lists it, before its condition is set.\<close>

definition target_entry :: "(string \<rightharpoonup> DeploymentTarget) \<Rightarrow> (string \<rightharpoonup> targetState) \<Rightarrow> deployTarget \<Rightarrow> DeploymentTarget" where
  "target_entry previous states target =
     \<lparr>DeploymentTarget_Cluster = tg_cluster target,
      DeploymentTarget_Revision = (case states (tg_cluster target) of Some state \<Rightarrow> ts_revision state | None \<Rightarrow> []),
      DeploymentTarget_Conditions = (case previous (tg_cluster target) of Some t \<Rightarrow> DeploymentTarget_Conditions t | None \<Rightarrow> [])\<rparr>"

definition listed_target ::
    "condition_library \<Rightarrow> int64 \<Rightarrow> entry \<Rightarrow> (string \<rightharpoonup> DeploymentTarget) \<Rightarrow> (string \<rightharpoonup> targetState) \<Rightarrow> deployTarget \<Rightarrow> DeploymentTarget" where
  "listed_target lib generation deployed previous states target =
     (let e = target_entry previous states target; ready = targetConditions generation in
      case classify deployed states target of
        TargetHeld \<Rightarrow> MarkFalse lib ready e ConditionTypeReady (tg_holdReason target)
          (Truncate (tg_holdMessage target) maxTargetMessageLength)
      | TargetDegraded \<Rightarrow> MarkFalse lib ready e ConditionTypeReady ReasonDegraded
          (Truncate (str_or [case states (tg_cluster target) of Some state \<Rightarrow> ts_message state | None \<Rightarrow> [],
             ''The engine reports the deployment degraded'']) maxTargetMessageLength)
      | TargetHealthy \<Rightarrow> e
      | TargetProgressing \<Rightarrow> MarkUnknown lib ready e ConditionTypeReady ReasonProgressing
          (''Deploying Preparation '' @ e_Preparation deployed))"

definition previous_targets :: "DeploymentTarget list \<Rightarrow> string \<rightharpoonup> DeploymentTarget" where
  "previous_targets ts = foldl (\<lambda>m t. m(DeploymentTarget_Cluster t \<mapsto> t)) Map.empty ts"

text \<open>One turn of the loop over the targets: their counts, and those listed; a healthy one is only counted.\<close>

definition target_turn ::
    "condition_library \<Rightarrow> int64 \<Rightarrow> entry \<Rightarrow> (string \<rightharpoonup> DeploymentTarget) \<Rightarrow> (string \<rightharpoonup> targetState) \<Rightarrow>
     DeploymentClusters \<times> DeploymentTarget list \<Rightarrow> deployTarget \<Rightarrow> DeploymentClusters \<times> DeploymentTarget list" where
  "target_turn lib generation deployed previous states acc target =
     (case acc of (counts, shown) \<Rightarrow>
      let cls = classify deployed states target in
      (count_target cls counts,
       if cls = TargetHealthy then shown
       else shown @ [listed_target lib generation deployed previous states target]))"

definition setTargets :: "condition_library \<Rightarrow> Serving \<Rightarrow> entry \<Rightarrow> deployTarget list \<Rightarrow> (string \<rightharpoonup> targetState) \<Rightarrow> Serving" where
  "setTargets lib serving deployed targets states =
     (let previous = previous_targets (ServingStatus_Targets (Serving_Status serving));
          zero = \<lparr>DeploymentClusters_Selected = of_nat (length targets), DeploymentClusters_Healthy = 0,
             DeploymentClusters_Progressing = 0, DeploymentClusters_Degraded = 0, DeploymentClusters_Held = 0\<rparr>;
          (counts, shown) = foldl (target_turn lib (om_Generation (Serving_ObjectMeta serving)) deployed previous states) (zero, []) targets
      in on_status (\<lambda>s. s\<lparr>ServingStatus_Clusters := Some counts,
           ServingStatus_Targets := take maxListedTargets
             (sort_cmp (\<lambda>a b. ord_compare (targetRank lib a) (targetRank lib b)) shown)\<rparr>) serving)"

section \<open>Conditions of a Serving\<close>

definition conditionMessage :: "condition_library \<Rightarrow> Serving \<Rightarrow> string \<Rightarrow> string" where
  "conditionMessage lib serving conditionType =
     (case find_condition lib (Serving_GetConditions serving) conditionType of Some c \<Rightarrow> c_Message c | None \<Rightarrow> [])"

definition markPending :: "condition_library \<Rightarrow> Serving \<Rightarrow> string \<Rightarrow> Serving" where
  "markPending lib serving msg = MarkUnknown lib serving_setter serving ConditionTypeReady ReasonPending msg"

definition markDeploymentFailed :: "condition_library \<Rightarrow> Serving \<Rightarrow> string \<Rightarrow> Serving" where
  "markDeploymentFailed lib serving msg = MarkFalse lib serving_setter serving ConditionTypeReady ReasonDeploymentFailed msg"

definition markHeld :: "condition_library \<Rightarrow> Serving \<Rightarrow> string \<Rightarrow> Serving" where
  "markHeld lib serving held =
     (if held = [] then serving
      else case find_condition lib (Serving_GetConditions serving) ConditionTypeReady of
        None \<Rightarrow> serving
      | Some ready \<Rightarrow> Set_condition lib serving_setter serving (c_Type ready) (c_Status ready) (c_Reason ready)
          (c_Message ready @ ''. '' @ held))"

definition unready_clusters :: "deployTarget list \<Rightarrow> string list" where
  "unready_clusters targets = map tg_cluster (filter (\<lambda>t. tg_holdReason t = ReasonClusterNotReady) targets)"

text \<open>The clusters a message names.\<close>

definition deployment_where :: "deployTarget list \<Rightarrow> string" where
  "deployment_where targets =
     (let names = map tg_cluster (filter (\<lambda>t. tg_holdReason t \<noteq> ReasonClusterNotReady) targets);
          unready = unready_clusters targets
      in (if length targets > 1 \<or> (length targets = 1 \<and> tg_cluster (hd targets) \<noteq> InCluster)
          then '' to '' @ List_items names '', '' maxListedClusters else []) @
         (if unready \<noteq> [] then ''; not ready: '' @ List_items unready '', '' maxListedClusters else []))"

definition failed_targets :: "condition_library \<Rightarrow> DeploymentTarget list \<Rightarrow> string list" where
  "failed_targets lib ts =
     concat (map (\<lambda>t. case find_condition lib (DeploymentTarget_Conditions t) ConditionTypeReady of
         Some ready \<Rightarrow> if c_Status ready = ConditionFalse \<and> c_Reason ready \<noteq> ReasonClusterNotReady
           then [DeploymentTarget_Cluster t @ '': '' @ c_Message ready] else []
       | None \<Rightarrow> []) ts)"

definition failure_message :: "entry \<Rightarrow> int \<Rightarrow> int \<Rightarrow> string list \<Rightarrow> string" where
  "failure_message deployed failing selected failed =
     (let described = take maxListedServingFailures failed;
          msg = (if selected > 1
            then ''deployment of Preparation '' @ e_Preparation deployed @ '' failed on '' @ int_dec failing @ '' of '' @
              int_dec selected @ '' clusters: '' @ str_join ''; '' described
            else ''deployment of Preparation '' @ e_Preparation deployed @ '' failed on '' @ str_join ''; '' described);
          more_failing = failing - int (length described)
      in if more_failing > 0 then msg @ ''; and '' @ int_dec more_failing @ '' more'' else msg)"

text \<open>The targets are counted first: the counts are never missing, which would be a nil pointer here.\<close>

definition markDeployment :: "condition_library \<Rightarrow> Serving \<Rightarrow> entry \<Rightarrow> deployTarget list \<Rightarrow> observation \<Rightarrow> Serving option" where
  "markDeployment lib serving deployed targets observation =
     (case ServingStatus_Clusters (Serving_Status serving) of
        None \<Rightarrow> None
      | Some counts \<Rightarrow>
         let unready = unready_clusters targets;
             failing = sint (DeploymentClusters_Held counts) - int (length unready) + sint (DeploymentClusters_Degraded counts)
         in Some
           (if failing > 0
            then markDeploymentFailed lib serving (failure_message deployed failing (sint (DeploymentClusters_Selected counts))
              (failed_targets lib (ServingStatus_Targets (Serving_Status serving))))
            else if length unready = length targets
            then markDeploymentFailed lib serving
              (''no Cluster of the Environment is ready: '' @ List_items unready '', '' maxListedClusters)
            else if o_Health observation = HealthHealthy
            then MarkTrue lib serving_setter serving ConditionTypeReady ReasonDeployed
              (''Deployed Preparation '' @ e_Preparation deployed @ deployment_where targets)
            else MarkUnknown lib serving_setter serving ConditionTypeReady ReasonDeploying
              (''Deploying Preparation '' @ e_Preparation deployed @ deployment_where targets)))"

section \<open>The stored history\<close>

lemma end_reason_roundtrip [simp]: "end_reason_of (stored_end_reason r) = r"
  by (cases r) auto

lemma history_entry_stored [simp]: "history_entry (stored_entry e) = e"
  by (simp add: history_entry_def stored_entry_def optionalTime_def registryRef_def or_zero_def or_empty_def)

lemma historyOf_setHistory [simp]: "historyOf (setHistory s h) = h"
  by (simp add: historyOf_def setHistory_def on_status_def comp_def)

lemma promoted_stored [simp]: "DeploymentEntry_PromotionRecord (stored_entry e) \<noteq> [] \<longleftrightarrow> Promoted e"
  by (simp add: stored_entry_def Promoted_def)

lemma find_stored: "find (\<lambda>e. DeploymentEntry_PromotionRecord e \<noteq> []) (map stored_entry h) = map_option stored_entry (Deployed h)"
  by (induction h) (simp_all add: Promoted_def stored_entry_def)

section \<open>Targets\<close>

lemma targetOf_server: "tg_server (fst (targetOf lib c namespace bundled servers)) = target_server c"
  by (auto simp: targetOf_def Let_def split: option.splits)

lemma targetOf_cluster: "tg_cluster (fst (targetOf lib c namespace bundled servers)) = cluster_name c"
  by (auto simp: targetOf_def Let_def split: option.splits)

lemma targetOf_free:
  assumes "tg_holdReason (fst (targetOf lib c namespace bundled servers)) = []"
  shows "servers (serverKey (target_server c)) = None"
    and "snd (targetOf lib c namespace bundled servers) = servers(serverKey (target_server c) \<mapsto> cluster_name c)"
    and "\<exists>r. find_condition lib (ClusterStatus_Conditions (Cluster_Status c)) ConditionTypeReady = Some r \<and> c_Status r = ConditionTrue"
    and "inCluster c \<or> bundled = []"
  using assms by (auto simp: targetOf_def Let_def reasons split: option.splits if_splits)

lemma targetOf_servers: "dom servers \<subseteq> dom (snd (targetOf lib c namespace bundled servers))"
  by (auto simp: targetOf_def Let_def split: option.splits)

definition deploys :: "deployTarget \<Rightarrow> bool" where
  "deploys t \<longleftrightarrow> tg_holdReason t = []"

definition target_keys :: "deployTarget list \<Rightarrow> string list" where
  "target_keys ts = map (\<lambda>t. serverKey (tg_server t)) (filter deploys ts)"

lemma target_keys_distinct:
  "distinct (target_keys (targets_of lib namespace bundled servers cs))
   \<and> set (target_keys (targets_of lib namespace bundled servers cs)) \<inter> dom servers = {}"
proof (induction cs arbitrary: servers)
  case Nil
  then show ?case by (simp add: target_keys_def)
next
  case (Cons c cs)
  obtain t servers' where t: "targetOf lib c namespace bundled servers = (t, servers')" by fastforce
  have sub: "dom servers \<subseteq> dom servers'" using targetOf_servers [of servers lib c namespace bundled] t by simp
  show ?case
  proof (cases "deploys t")
    case False
    then show ?thesis using Cons.IH [of servers'] sub t by (auto simp: target_keys_def)
  next
    case True
    then have "tg_holdReason (fst (targetOf lib c namespace bundled servers)) = []" using t by (simp add: deploys_def)
    from targetOf_free [OF this] targetOf_server [of lib c namespace bundled servers] t
    have "servers (serverKey (tg_server t)) = None" "serverKey (tg_server t) \<in> dom servers'" by simp_all
    then show ?thesis using Cons.IH [of servers'] sub True t by (auto simp: target_keys_def)
  qed
qed

definition cluster_ready :: "condition_library \<Rightarrow> Cluster \<Rightarrow> bool" where
  "cluster_ready lib c \<longleftrightarrow>
     (\<exists>r. find_condition lib (ClusterStatus_Conditions (Cluster_Status c)) ConditionTypeReady = Some r \<and> c_Status r = ConditionTrue)"

lemma targets_of_deploys:
  "t \<in> set (targets_of lib namespace bundled servers cs) \<Longrightarrow> deploys t \<Longrightarrow>
   \<exists>c\<in>set cs. tg_cluster t = cluster_name c \<and> tg_server t = target_server c \<and> cluster_ready lib c
     \<and> (inCluster c \<or> bundled = [])"
proof (induction cs arbitrary: servers)
  case (Cons c cs)
  obtain t' servers' where t': "targetOf lib c namespace bundled servers = (t', servers')" by fastforce
  consider "t = t'" | "t \<in> set (targets_of lib namespace bundled servers' cs)" using Cons.prems(1) t' by auto
  then show ?case
  proof cases
    case 1
    then have free: "tg_holdReason (fst (targetOf lib c namespace bundled servers)) = []"
      using Cons.prems(2) t' by (simp add: deploys_def)
    show ?thesis
      using targetOf_free(3,4) [OF free] targetOf_server [of lib c namespace bundled servers]
        targetOf_cluster [of lib c namespace bundled servers] 1 t'
      by (auto simp: cluster_ready_def)
  next
    case 2
    then show ?thesis using Cons.IH Cons.prems(2) by fastforce
  qed
qed simp

section \<open>What is observed\<close>

text \<open>A target that counts: its Cluster is Ready; how the deployed entry stands there.\<close>

definition considered :: "deployTarget \<Rightarrow> bool" where
  "considered t \<longleftrightarrow> tg_holdReason t \<noteq> ReasonClusterNotReady"

lemma observe_targets_degraded:
  "o_Health (observe_targets deployed states n k ts) = HealthDegraded \<longleftrightarrow>
     (\<exists>t\<in>set ts. classify deployed states t = TargetDegraded)"
proof (induction ts arbitrary: n k)
  case (Cons t ts)
  show ?case
    by (auto simp: Cons.IH classify_def reasons split: option.splits Health.splits)
qed simp

lemma observe_targets_healthy:
  "k \<le> n \<Longrightarrow> o_Health (observe_targets deployed states n k ts) = HealthHealthy \<longleftrightarrow>
     k = n \<and> (n > 0 \<or> (\<exists>t\<in>set ts. considered t))
   \<and> (\<forall>t\<in>set ts. considered t \<longrightarrow> classify deployed states t = TargetHealthy)"
proof (induction ts arbitrary: n k)
  case (Cons t ts)
  have a: "o_Health (observe_targets deployed states (n + 1) (k + 1) ts) = HealthHealthy \<longleftrightarrow>
     k = n \<and> (\<forall>t\<in>set ts. considered t \<longrightarrow> classify deployed states t = TargetHealthy)"
    using Cons.IH [of "k + 1" "n + 1"] Cons.prems by simp
  have b: "o_Health (observe_targets deployed states (n + 1) k ts) \<noteq> HealthHealthy"
    using Cons.IH [of k "n + 1"] Cons.prems by simp
  show ?case
    using a b Cons.prems Cons.IH [of k n]
    by (auto simp: classify_def considered_def reasons split: option.splits Health.splits)
qed simp

lemma observe_targets_revision:
  "o_Revision (observe_targets deployed states n k ts) =
     (if o_Health (observe_targets deployed states n k ts) = HealthProgressing then [] else e_Digest deployed)"
  by (induction ts arbitrary: n k) (auto split: option.splits Health.splits)

section \<open>Counts\<close>

definition class_count :: "entry \<Rightarrow> (string \<rightharpoonup> targetState) \<Rightarrow> target_class \<Rightarrow> deployTarget list \<Rightarrow> nat" where
  "class_count deployed states cls ts = length (filter (\<lambda>t. classify deployed states t = cls) ts)"

lemma class_count_simps [simp]:
  "class_count deployed states cls [] = 0"
  "class_count deployed states cls (t # ts) =
     (if classify deployed states t = cls then 1 else 0) + class_count deployed states cls ts"
  by (simp_all add: class_count_def)

lemma class_count_total:
  "class_count deployed states TargetHeld ts + class_count deployed states TargetDegraded ts
   + class_count deployed states TargetHealthy ts + class_count deployed states TargetProgressing ts = length ts"
proof (induction ts)
  case (Cons t ts)
  then show ?case by (cases "classify deployed states t") simp_all
qed simp

lemma class_count_le: "class_count deployed states cls ts \<le> length ts"
  by (simp add: class_count_def)

lemma target_turn_eq:
  "target_turn lib generation deployed previous states (counts, shown) t =
     (count_target (classify deployed states t) counts,
      if classify deployed states t = TargetHealthy then shown
      else shown @ [listed_target lib generation deployed previous states t])"
  by (simp add: target_turn_def Let_def)

lemma target_turns:
  "foldl (target_turn lib generation deployed previous states) (counts, shown) ts =
     (counts\<lparr>DeploymentClusters_Held := DeploymentClusters_Held counts + of_nat (class_count deployed states TargetHeld ts),
             DeploymentClusters_Degraded := DeploymentClusters_Degraded counts + of_nat (class_count deployed states TargetDegraded ts),
             DeploymentClusters_Healthy := DeploymentClusters_Healthy counts + of_nat (class_count deployed states TargetHealthy ts),
             DeploymentClusters_Progressing := DeploymentClusters_Progressing counts + of_nat (class_count deployed states TargetProgressing ts)\<rparr>,
      shown @ map (listed_target lib generation deployed previous states)
        (filter (\<lambda>t. classify deployed states t \<noteq> TargetHealthy) ts))"
proof (induction ts arbitrary: counts shown)
  case (Cons t ts)
  show ?case
    by (cases "classify deployed states t") (simp_all add: Cons.IH target_turn_eq count_target_def)
qed simp

definition shown_targets :: "condition_library \<Rightarrow> Serving \<Rightarrow> entry \<Rightarrow> deployTarget list \<Rightarrow> (string \<rightharpoonup> targetState) \<Rightarrow> DeploymentTarget list" where
  "shown_targets lib serving deployed targets states =
     map (listed_target lib (om_Generation (Serving_ObjectMeta serving)) deployed
         (previous_targets (ServingStatus_Targets (Serving_Status serving))) states)
       (filter (\<lambda>t. classify deployed states t \<noteq> TargetHealthy) targets)"

lemma setTargets_eq:
  "setTargets lib serving deployed targets states =
     on_status (\<lambda>s. s\<lparr>ServingStatus_Clusters := Some
         \<lparr>DeploymentClusters_Selected = of_nat (length targets),
          DeploymentClusters_Healthy = of_nat (class_count deployed states TargetHealthy targets),
          DeploymentClusters_Progressing = of_nat (class_count deployed states TargetProgressing targets),
          DeploymentClusters_Degraded = of_nat (class_count deployed states TargetDegraded targets),
          DeploymentClusters_Held = of_nat (class_count deployed states TargetHeld targets)\<rparr>,
       ServingStatus_Targets := take maxListedTargets
         (sort_cmp (\<lambda>a b. ord_compare (targetRank lib a) (targetRank lib b))
           (shown_targets lib serving deployed targets states))\<rparr>) serving"
  by (simp add: setTargets_def target_turns shown_targets_def Let_def)

lemma degraded_considered: "classify deployed states t = TargetDegraded \<Longrightarrow> considered t"
  by (auto simp: classify_def considered_def reasons split: if_splits)

lemma held_count:
  "class_count deployed states TargetHeld ts =
     length (unready_clusters ts) + length (filter (\<lambda>t. classify deployed states t = TargetHeld \<and> considered t) ts)"
  by (induction ts) (auto simp: unready_clusters_def considered_def classify_def reasons split: option.splits)

section \<open>Conditions\<close>

lemma law_true: "condition_laws lib \<Longrightarrow>
    is_condition_true lib cs t \<longleftrightarrow> (\<exists>c. find_condition lib cs t = Some c \<and> c_Status c = ConditionTrue)"
  unfolding condition_laws_def by blast

lemma law_set: "condition_laws lib \<Longrightarrow>
    \<exists>c'. find_condition lib (set_condition lib cs c) (c_Type c) = Some c' \<and> same_condition c' c"
  unfolding condition_laws_def by blast

lemma law_other: "condition_laws lib \<Longrightarrow> t \<noteq> c_Type c \<Longrightarrow>
    find_condition lib (set_condition lib cs c) t = find_condition lib cs t"
  unfolding condition_laws_def by blast

lemma law_removed: "condition_laws lib \<Longrightarrow>
    find_condition lib (remove_condition lib cs u) t = (if t = u then None else find_condition lib cs t)"
  unfolding condition_laws_def by auto

lemma serving_conditions [simp]:
  "Serving_GetConditions (Serving_SetConditions cs s) = cs"
  by (simp add: Serving_GetConditions_def Serving_SetConditions_def)

lemma serving_setter_simps [simp]:
  "GetConditions serving_setter = Serving_GetConditions" "SetConditions serving_setter = Serving_SetConditions"
  by (simp_all add: serving_setter_def)

lemma find_Set_condition:
  assumes "condition_laws lib"
  shows "\<exists>c. find_condition lib (Serving_GetConditions (Set_condition lib serving_setter s t status reason message)) t = Some c
     \<and> c_Status c = status \<and> c_Reason c = reason \<and> c_Message c = Truncate message maxMessageLength"
  using law_set [OF assms, of "Serving_GetConditions s"
      "\<lparr>c_Type = t, c_Status = status, c_ObservedGeneration = GetGeneration serving_setter s,
        c_LastTransitionTime = 0, c_Reason = reason, c_Message = Truncate message maxMessageLength\<rparr>"]
  by (auto simp: Set_condition_def same_condition_def)

lemma find_Set_condition_other:
  assumes "condition_laws lib" "u \<noteq> t"
  shows "find_condition lib (Serving_GetConditions (Set_condition lib serving_setter s t status reason message)) u
     = find_condition lib (Serving_GetConditions s) u"
  using law_other [OF assms(1)] assms(2) by (simp add: Set_condition_def)

lemma true_Set_condition:
  "condition_laws lib \<Longrightarrow>
     is_condition_true lib (Serving_GetConditions (Set_condition lib serving_setter s t status reason message)) t \<longleftrightarrow> status = ConditionTrue"
  using find_Set_condition [of lib s t status reason message] law_true [of lib _ t] by auto

lemma ready_marks:
  assumes "condition_laws lib"
  shows "is_condition_true lib (Serving_GetConditions (MarkTrue lib serving_setter s ConditionTypeReady reason m)) ConditionTypeReady"
    and "\<not> is_condition_true lib (Serving_GetConditions (MarkUnknown lib serving_setter s ConditionTypeReady reason m)) ConditionTypeReady"
    and "\<not> is_condition_true lib (Serving_GetConditions (markDeploymentFailed lib s m)) ConditionTypeReady"
  by (simp_all add: MarkTrue_def MarkUnknown_def MarkFalse_def markDeploymentFailed_def true_Set_condition [OF assms])

lemma setTargets_counts:
  "ServingStatus_Clusters (Serving_Status (setTargets lib serving deployed targets states)) = Some
     \<lparr>DeploymentClusters_Selected = of_nat (length targets),
      DeploymentClusters_Healthy = of_nat (class_count deployed states TargetHealthy targets),
      DeploymentClusters_Progressing = of_nat (class_count deployed states TargetProgressing targets),
      DeploymentClusters_Degraded = of_nat (class_count deployed states TargetDegraded targets),
      DeploymentClusters_Held = of_nat (class_count deployed states TargetHeld targets)\<rparr>"
  by (simp add: setTargets_eq on_status_def)

section \<open>Properties\<close>

text \<open>A history survives being stored in the status of a Serving: reading it back gives the same
  history, nothing else of the Serving changes, and the deployed entry the API reports is the one the
  history says is deployed.\<close>

theorem history_survives_storing:
  "historyOf (setHistory s h) = h
   \<and> DeployedEntry (setHistory s h) = map_option stored_entry (Deployed h)
   \<and> DeployedPreparationName (setHistory s h) = (case Deployed h of None \<Rightarrow> [] | Some e \<Rightarrow> e_Preparation e)
   \<and> setHistory s h = s\<lparr>Serving_Status := (Serving_Status s)\<lparr>ServingStatus_History := map stored_entry h\<rparr>\<rparr>"
proof -
  have "DeployedEntry (setHistory s h) = map_option stored_entry (Deployed h)"
    using find_stored [of h] by (simp add: DeployedEntry_def setHistory_def on_status_def)
  then show ?thesis
    by (auto simp: DeployedPreparationName_def setHistory_def on_status_def stored_entry_def historyOf_def comp_def
        split: option.splits) (simp_all add: stored_entry_def [symmetric])
qed

text \<open>C21: One server is deployed to once: of the Clusters an Environment selects, at most one target of each
  server is not held, whatever trailing slash its URL has; and a target that is not held is of a
  Cluster that is Ready, and is the cluster Kokumi runs in if an image is pulled from the bundled
  registry.\<close>

theorem one_target_per_server:
  "distinct (map (\<lambda>t. serverKey (tg_server t)) (filter (\<lambda>t. tg_holdReason t = []) (targets_of lib namespace bundled Map.empty cs)))
   \<and> (\<forall>t\<in>set (targets_of lib namespace bundled Map.empty cs). tg_holdReason t = [] \<longrightarrow>
        (\<exists>c\<in>set cs. tg_cluster t = cluster_name c \<and> tg_server t = target_server c \<and> cluster_ready lib c
          \<and> (inCluster c \<or> bundled = [])))"
  using target_keys_distinct [of lib namespace bundled Map.empty cs] targets_of_deploys
  unfolding target_keys_def deploys_def by blast

definition sample_cluster :: "string \<Rightarrow> string \<Rightarrow> Cluster" where
  "sample_cluster name server =
     \<lparr>Cluster_ObjectMeta = \<lparr>om_Name = name, om_Namespace = ''ns'', om_UID = [], om_Generation = 1, om_CreationTimestamp = 0,
        om_DeletionTimestamp = None, om_Labels = [], om_Annotations = [], om_Finalizers = [],
        om_OwnerReferences = [], om_ResourceVersion = []\<rparr>,
      Cluster_Spec = \<lparr>ClusterSpec_Description = [], ClusterSpec_Connection = ClusterConnectionKubeconfig, ClusterSpec_Kubeconfig = None\<rparr>,
      Cluster_Status = \<lparr>ClusterStatus_ObservedGeneration = 1, ClusterStatus_Server = server, ClusterStatus_KubernetesVersion = [],
        ClusterStatus_Conditions = [\<lparr>c_Type = ConditionTypeReady, c_Status = ConditionTrue, c_ObservedGeneration = 1,
          c_LastTransitionTime = 0, c_Reason = ReasonReady, c_Message = []\<rparr>]\<rparr>\<rparr>"

definition sample_targets :: "deployTarget list" where
  "sample_targets = targets_of list_library ''app'' [] Map.empty
     [sample_cluster ''a'' ''https://x'', sample_cluster ''b'' ''https://x/'', sample_cluster ''c'' ''https://y'']"

theorem one_target_per_server_witness:
  "distinct (map (\<lambda>t. serverKey (tg_server t)) (filter (\<lambda>t. tg_holdReason t = []) sample_targets))
   \<and> map tg_holdReason sample_targets = [[], ''ClusterConflict'', []]"
proof
  show "distinct (map (\<lambda>t. serverKey (tg_server t)) (filter (\<lambda>t. tg_holdReason t = []) sample_targets))"
    using one_target_per_server unfolding sample_targets_def by blast
  show "map tg_holdReason sample_targets = [[], ''ClusterConflict'', []]"
    by code_simp
qed

text \<open>What is observed of a deployment: it is degraded exactly when some target that is not held runs
  the deployed digest degraded; otherwise it is healthy exactly when some target's Cluster is Ready
  and every target whose Cluster is Ready is not held and runs the deployed digest healthily; and a
  report that is neither names no revision.\<close>

theorem observation_exact:
  "let ob = observationOf deployed targets states;
       runs = (\<lambda>t health. \<exists>state. states (tg_cluster t) = Some state \<and> tg_holdReason t = []
                 \<and> ts_revision state = e_Digest deployed \<and> ts_health state = health)
   in (o_Health ob = HealthDegraded \<longleftrightarrow> (\<exists>t\<in>set targets. runs t HealthDegraded))
    \<and> (o_Health ob = HealthHealthy \<longleftrightarrow> (\<exists>t\<in>set targets. tg_holdReason t \<noteq> ''ClusterNotReady'')
          \<and> (\<forall>t\<in>set targets. tg_holdReason t = ''ClusterNotReady'' \<or> runs t HealthHealthy))
    \<and> o_Revision ob = (if o_Health ob = HealthProgressing then [] else e_Digest deployed)"
proof -
  have degraded: "classify deployed states t = TargetDegraded \<longleftrightarrow> (\<exists>state. states (tg_cluster t) = Some state \<and> tg_holdReason t = []
      \<and> ts_revision state = e_Digest deployed \<and> ts_health state = HealthDegraded)" for t
    by (auto simp: classify_def split: option.splits)
  have healthy: "classify deployed states t = TargetHealthy \<longleftrightarrow> (\<exists>state. states (tg_cluster t) = Some state \<and> tg_holdReason t = []
      \<and> ts_revision state = e_Digest deployed \<and> ts_health state = HealthHealthy)" for t
    by (auto simp: classify_def split: option.splits)
  show ?thesis
    unfolding Let_def observationOf_def observe_targets_degraded observe_targets_healthy [OF order_refl]
      observe_targets_revision degraded healthy
    by (auto simp: considered_def ReasonClusterNotReady_def)
qed

definition sample_report :: "string \<rightharpoonup> targetState" where
  "sample_report = [''a'' \<mapsto> \<lparr>ts_health = HealthHealthy, ts_revision = ''sha256:ab'', ts_message = [], ts_held = []\<rparr>,
     ''c'' \<mapsto> \<lparr>ts_health = HealthHealthy, ts_revision = ''sha256:ab'', ts_message = [], ts_held = []\<rparr>]"

theorem observation_exact_witness:
  "o_Health (observationOf sample_pending [sample_targets ! 0, sample_targets ! 2] sample_report) \<noteq> HealthDegraded
   \<and> o_Health (observationOf sample_pending [sample_targets ! 0, sample_targets ! 2] sample_report) = HealthHealthy"
proof
  have d: "o_Health (observationOf sample_pending [sample_targets ! 0, sample_targets ! 2] sample_report) = HealthHealthy"
    by code_simp
  then show "o_Health (observationOf sample_pending [sample_targets ! 0, sample_targets ! 2] sample_report) = HealthHealthy" .
  show "o_Health (observationOf sample_pending [sample_targets ! 0, sample_targets ! 2] sample_report) \<noteq> HealthDegraded"
    using observation_exact [of sample_pending "[sample_targets ! 0, sample_targets ! 2]" sample_report] d
    by (simp add: Let_def)
qed

text \<open>The counts of a Serving add up: the selected targets are the held, degraded, healthy and
  progressing ones, each counted exactly; the status lists all targets that are not healthy, up to 64
  of them, the held ones first, then the degraded, then the progressing.\<close>

theorem target_counts:
  assumes "length targets < 2 ^ 31"
  shows "\<exists>counts. ServingStatus_Clusters (Serving_Status (setTargets lib serving deployed targets states)) = Some counts
     \<and> sint (DeploymentClusters_Selected counts) = int (length targets)
     \<and> sint (DeploymentClusters_Held counts) = int (class_count deployed states TargetHeld targets)
     \<and> sint (DeploymentClusters_Degraded counts) = int (class_count deployed states TargetDegraded targets)
     \<and> sint (DeploymentClusters_Healthy counts) = int (class_count deployed states TargetHealthy targets)
     \<and> sint (DeploymentClusters_Progressing counts) = int (class_count deployed states TargetProgressing targets)
     \<and> sint (DeploymentClusters_Selected counts) = sint (DeploymentClusters_Held counts) + sint (DeploymentClusters_Degraded counts)
         + sint (DeploymentClusters_Healthy counts) + sint (DeploymentClusters_Progressing counts)
     \<and> length (ServingStatus_Targets (Serving_Status (setTargets lib serving deployed targets states)))
         = min 64 (length targets - class_count deployed states TargetHealthy targets)
     \<and> sorted_wrt (\<lambda>a b. targetRank lib a \<le> targetRank lib b)
         (ServingStatus_Targets (Serving_Status (setTargets lib serving deployed targets states)))"
proof -
  have n: "class_count deployed states cls targets < 2 ^ 31" for cls
    using class_count_le [of deployed states cls targets] assms by linarith
  have len: "length (shown_targets lib serving deployed targets states)
      = length targets - class_count deployed states TargetHealthy targets"
    using length_filter_sum [of "\<lambda>t. classify deployed states t = TargetHealthy" targets]
    by (simp add: shown_targets_def class_count_def)
  have total: "int (length targets) = int (class_count deployed states TargetHeld targets)
      + int (class_count deployed states TargetDegraded targets) + int (class_count deployed states TargetHealthy targets)
      + int (class_count deployed states TargetProgressing targets)"
    using class_count_total [of deployed states targets] by linarith
  have "sorted_wrt (\<lambda>a b. ord_compare (targetRank lib a) (targetRank lib b) \<le> 0)
      (sort_cmp (\<lambda>a b. ord_compare (targetRank lib a) (targetRank lib b)) (shown_targets lib serving deployed targets states))"
    by (rule three_way.sort_sorted [OF three_way_ord])
  then have sorted: "sorted_wrt (\<lambda>a b. targetRank lib a \<le> targetRank lib b) (take 64
      (sort_cmp (\<lambda>a b. ord_compare (targetRank lib a) (targetRank lib b)) (shown_targets lib serving deployed targets states)))"
    unfolding ord_compare_le by (rule sorted_wrt_take)
  show ?thesis
    using sint_of_nat32 [OF assms] sint_of_nat32 [OF n] total len sorted
    by (simp add: setTargets_eq on_status_def maxListedTargets_def min.commute)
qed

definition sample_serving :: Serving where
  "sample_serving =
     \<lparr>Serving_ObjectMeta = \<lparr>om_Name = ''o'', om_Namespace = ''ns'', om_UID = [], om_Generation = 1, om_CreationTimestamp = 0,
        om_DeletionTimestamp = None, om_Labels = [], om_Annotations = [], om_Finalizers = [],
        om_OwnerReferences = [], om_ResourceVersion = []\<rparr>,
      Serving_Spec = \<lparr>ServingSpec_OrderName = ''o'', ServingSpec_PreparationName = ''p''\<rparr>,
      Serving_Status = \<lparr>ServingStatus_ObservedGeneration = 0, ServingStatus_TargetPreparationName = [], ServingStatus_History = [],
        ServingStatus_Clusters = None, ServingStatus_Targets = [], ServingStatus_DeployedVulnerabilities = None,
        ServingStatus_Conditions = []\<rparr>\<rparr>"

theorem target_counts_witness:
  "\<exists>counts. ServingStatus_Clusters (Serving_Status (setTargets list_library sample_serving sample_pending sample_targets sample_report)) = Some counts
     \<and> sint (DeploymentClusters_Selected counts) = 3 \<and> sint (DeploymentClusters_Held counts) = 1
     \<and> sint (DeploymentClusters_Healthy counts) = 2"
proof -
  have n: "length sample_targets = 3" "class_count sample_pending sample_report TargetHeld sample_targets = 1"
    "class_count sample_pending sample_report TargetHealthy sample_targets = 2" by code_simp+
  then have "length sample_targets < 2 ^ 31" by simp
  from target_counts [OF this, of list_library sample_serving sample_pending sample_report] n
  show ?thesis by auto
qed

text \<open>What Ready says of a Serving: after its targets are counted and its condition derived, it is Ready
  exactly when some Cluster of its Environment is Ready and every Cluster that is Ready, and only
  those, runs the deployed Preparation healthily and is not held.\<close>

theorem serving_ready_iff:
  assumes "condition_laws lib" "length targets < 2 ^ 31"
    and "markDeployment lib (setTargets lib serving deployed targets states) deployed targets (observationOf deployed targets states) = Some marked"
  shows "is_condition_true lib (Serving_GetConditions marked) ConditionTypeReady \<longleftrightarrow>
     (\<exists>t\<in>set targets. tg_holdReason t \<noteq> ReasonClusterNotReady)
   \<and> (\<forall>t\<in>set targets. tg_holdReason t \<noteq> ReasonClusterNotReady \<longrightarrow> classify deployed states t = TargetHealthy)"
proof -
  let ?held = "class_count deployed states TargetHeld targets" and ?degraded = "class_count deployed states TargetDegraded targets"
  let ?unready = "unready_clusters targets"
  have n: "class_count deployed states cls targets < 2 ^ 31" for cls
    using class_count_le [of deployed states cls targets] assms(2) by linarith
  let ?failed = "filter (\<lambda>t. classify deployed states t = TargetHeld \<and> considered t) targets"
  let ?healthy = "(\<exists>t\<in>set targets. considered t) \<and> (\<forall>t\<in>set targets. considered t \<longrightarrow> classify deployed states t = TargetHealthy)"
  have observed: "o_Health (observationOf deployed targets states) = HealthHealthy \<longleftrightarrow> ?healthy"
    unfolding observationOf_def observe_targets_healthy [OF order_refl] by simp
  have none_failing: "?failed = [] \<and> ?degraded = 0" if ?healthy
    using that degraded_considered unfolding class_count_def length_0_conv filter_empty_conv by (metis target_class.distinct(3,7))
  have some_ready: "length ?unready \<noteq> length targets" if "\<exists>t\<in>set targets. considered t"
    using that length_filter_less [of _ targets "\<lambda>t. tg_holdReason t = ReasonClusterNotReady"]
    unfolding unready_clusters_def considered_def length_map by fastforce
  have "is_condition_true lib (Serving_GetConditions marked) ConditionTypeReady \<longleftrightarrow>
      \<not> (int ?held - int (length ?unready) + int ?degraded > 0) \<and> length ?unready \<noteq> length targets
      \<and> o_Health (observationOf deployed targets states) = HealthHealthy"
    using assms(3) n ready_marks [OF assms(1)] setTargets_counts [of lib serving deployed targets states]
    by (simp only: markDeployment_def Let_def option.case DeploymentClusters.simps sint_of_nat32 option.inject split: if_splits)
      blast+
  also have "\<dots> \<longleftrightarrow> ?healthy"
  proof (cases ?healthy)
    case True
    then have "?failed = []" "?degraded = 0" "length ?unready \<noteq> length targets"
      using none_failing some_ready by blast+
    then show ?thesis using True observed held_count [of deployed states targets] by simp
  next
    case False
    then show ?thesis using observed by blast
  qed
  finally show ?thesis by (simp add: considered_def)
qed

theorem serving_ready_iff_witness:
  "\<exists>marked. markDeployment list_library (setTargets list_library sample_serving sample_pending [sample_targets ! 0] sample_report)
      sample_pending [sample_targets ! 0] (observationOf sample_pending [sample_targets ! 0] sample_report) = Some marked
    \<and> is_condition_true list_library (Serving_GetConditions marked) ConditionTypeReady"
proof -
  let ?s = "setTargets list_library sample_serving sample_pending [sample_targets ! 0] sample_report"
  obtain marked where m: "markDeployment list_library ?s sample_pending [sample_targets ! 0]
      (observationOf sample_pending [sample_targets ! 0] sample_report) = Some marked"
    by (simp add: markDeployment_def setTargets_eq on_status_def Let_def)
  have "tg_holdReason (sample_targets ! 0) \<noteq> ReasonClusterNotReady"
    "classify sample_pending sample_report (sample_targets ! 0) = TargetHealthy" by code_simp+
  then show ?thesis
    using serving_ready_iff [OF condition_laws_list_library _ m] m by simp
qed

end
