(* ===== verification/Control.thy ===== *)
theory Control
  imports Api_Meta
begin

text \<open>
  What the controllers (\<open>internal/controller\<close>) share: the outcomes of reading and writing an object, errors
  with a condition reason (\<open>registry.Error\<close>), joining errors, and steps that can fail.
\<close>

text \<open>Reading an object: it does not exist, the read failed, or the object. A reconcile reads one snapshot.\<close>

datatype read_failure = NotFound string | GetFailed string

text \<open>Writing an object: it was written, it is gone, it changed since it was read, or the write failed.\<close>

datatype write_result = Written | WriteNotFound string | WriteConflict string | WriteFailed string

fun write_error :: "write_result \<Rightarrow> string option" where
  "write_error Written = None"
| "write_error (WriteNotFound m) = Some m"
| "write_error (WriteConflict m) = Some m"
| "write_error (WriteFailed m) = Some m"

text \<open>An error of connecting to a registry, with the condition reason it carries (\<open>registry.Error\<close>), if any.\<close>

record registry_error =
  re_Reason :: "string option"
  re_Message :: string

definition registry_Reason :: "registry_error \<Rightarrow> string \<Rightarrow> string" where
  "registry_Reason err fallback = (case re_Reason err of Some r \<Rightarrow> r | None \<Rightarrow> fallback)"

text \<open>A step returns an error or a result, and the state it leaves, which it leaves also when it fails.\<close>

definition and_then :: "('s \<Rightarrow> (string + 'a) \<times> 's) \<Rightarrow> ('a \<Rightarrow> 's \<Rightarrow> (string + 'b) \<times> 's) \<Rightarrow> 's \<Rightarrow> (string + 'b) \<times> 's" where
  "and_then m f st = (case m st of (Inl err, st) \<Rightarrow> (Inl err, st) | (Inr x, st) \<Rightarrow> f x st)"

definition join_errors :: "string option list \<Rightarrow> string option" where
  "join_errors errs = (let es = concat (map (\<lambda>e. case e of Some x \<Rightarrow> [x] | None \<Rightarrow> []) errs) in
     if es = [] then None else Some (str_join [CHR 0x0A] es))"

fun error_of :: "string + 'a \<Rightarrow> string option" where
  "error_of (Inl err) = Some err"
| "error_of (Inr _) = None"

definition Finalizer :: string where
  "Finalizer = ''delivery.kokumi.dev/finalizer''"

end
