(* ===== verification/Serving_Controller.thy ===== *)
theory Serving_Controller
  imports Serving_State Evidence Control
begin

text \<open>
  The Serving controller (\<open>internal/controller/serving_controller.go\<close>): one reconcile of a Serving,
  from the Preparation it converges to, through the gates of a promotion and the registry record of it,
  to the deployment on the clusters of its Environment. What the reconcile reads of the Kubernetes API,
  the registry, the signing keys, the engines and the clock are arguments; what it changes is its state:
  the Serving, the caches of its verifiers, the engines' objects, the clock and its Events.
\<close>

section \<open>What a reconcile calls\<close>

record api_reads =
  get_Serving :: "string \<Rightarrow> string \<Rightarrow> read_failure + Serving"
  get_Order :: "string \<Rightarrow> string \<Rightarrow> read_failure + Order"
  get_Preparation :: "string \<Rightarrow> string \<Rightarrow> read_failure + Preparation"
  get_Environment :: "string \<Rightarrow> string \<Rightarrow> read_failure + Environment"
  get_Product :: "string \<Rightarrow> string \<Rightarrow> read_failure + Product"
  get_Kitchen :: "string \<Rightarrow> string \<Rightarrow> read_failure + Kitchen"
  list_Preparations :: "string \<Rightarrow> string \<Rightarrow> string + Preparation list"
  list_Approvals :: "string \<Rightarrow> string \<Rightarrow> string + Approval list"
  list_Clusters :: "string \<Rightarrow> string + Cluster list"

record ('trust, 'signer) signing_state =
  st_Trust :: 'trust
  st_Signer :: 'signer

record admission =
  ad_reason :: string
  ad_message :: string

text \<open>
  An engine (\<open>servingDeployer\<close>), over the state of the objects it manages: whether an Environment may
  deploy, deploying to a target, and stopping to deploy to the clusters that are not kept.
\<close>

record 'engine deployer =
  en_Admit :: "Environment \<Rightarrow> 'engine \<Rightarrow> string + admission"
  en_Apply :: "Environment \<Rightarrow> Serving \<Rightarrow> entry \<Rightarrow> deployTarget \<Rightarrow> 'engine \<Rightarrow> (string + targetState) \<times> 'engine"
  en_Remove :: "Serving \<Rightarrow> string list option \<Rightarrow> 'engine \<Rightarrow> (string list \<times> string option) \<times> 'engine"

text \<open>The access to signed reports: the trust, and connecting to a repository.\<close>

record ('trust, 'client) report_access =
  ra_Trust :: 'trust
  ra_Connect :: "string \<Rightarrow> read_error + 'client"

record ('trust, 'signer, 'client, 'scope, 'ec, 'rc, 'engine) services =
  sv_conditions :: condition_library
  sv_as_selector :: "label_selector \<Rightarrow> string + ((string \<times> string) list \<Rightarrow> bool)"
  sv_signing :: "string + ('trust, 'signer) signing_state"
  sv_connect_recorded :: "string \<Rightarrow> local_object_reference option \<Rightarrow> string \<Rightarrow> string + local_object_reference list \<Rightarrow> registry_error + 'client"
  sv_scope :: "string \<Rightarrow> local_object_reference list \<Rightarrow> registry_error + 'scope"
  sv_scope_connect :: "'scope \<Rightarrow> string \<Rightarrow> registry_error + 'client"
  sv_writer :: "'client \<Rightarrow> 'signer \<Rightarrow> record_writer"
  sv_evidence :: "('ec, 'trust, 'client) evidence_reader"
  sv_records :: "('rc, 'trust, 'client) record_reader"
  sv_record_decode_error :: string
  sv_read_report :: "(string + ('trust, 'client) report_access) \<Rightarrow> scan \<Rightarrow> read_error + finding list"
  sv_deployers :: "(DeployerType \<times> 'engine deployer) list"
  sv_argocd :: "'engine deployer"
  sv_InstallNamespace :: string
  sv_BundledRegistryHost :: string
  sv_records_events :: bool
  sv_clock :: "nat \<Rightarrow> time"

datatype serving_event =
    Undeployed string
  | VulnerabilitiesIncreased string int vuln_severity int

record ('ec, 'rc, 'engine) reconcile =
  rs_serving :: Serving
  rs_evidence :: 'ec
  rs_records :: 'rc
  rs_engine :: 'engine
  rs_ticks :: nat
  rs_events :: "serving_event list"

section \<open>Steps that can fail\<close>

definition on_serving :: "(Serving \<Rightarrow> Serving) \<Rightarrow> ('ec, 'rc, 'engine) reconcile \<Rightarrow> ('ec, 'rc, 'engine) reconcile" where
  "on_serving f st = st\<lparr>rs_serving := f (rs_serving st)\<rparr>"

definition clock ::
    "('trust, 'signer, 'client, 'scope, 'ec, 'rc, 'engine) services \<Rightarrow> ('ec, 'rc, 'engine) reconcile \<Rightarrow> time \<times> ('ec, 'rc, 'engine) reconcile" where
  "clock v st = (sv_clock v (rs_ticks st), st\<lparr>rs_ticks := rs_ticks st + 1\<rparr>)"

abbreviation serving_namespace :: "Serving \<Rightarrow> string" where
  "serving_namespace s \<equiv> om_Namespace (Serving_ObjectMeta s)"

abbreviation order_name :: "Serving \<Rightarrow> string" where
  "order_name s \<equiv> ServingSpec_OrderName (Serving_Spec s)"

abbreviation preparation_namespace :: "Preparation \<Rightarrow> string" where
  "preparation_namespace p \<equiv> om_Namespace (Preparation_ObjectMeta p)"

abbreviation preparation_conditions :: "Preparation \<Rightarrow> condition list" where
  "preparation_conditions p \<equiv> PreparationStatus_Conditions (Preparation_Status p)"

definition mark_true :: "('trust, 'signer, 'client, 'scope, 'ec, 'rc, 'engine) services \<Rightarrow> string \<Rightarrow> string \<Rightarrow> string \<Rightarrow> Serving \<Rightarrow> Serving" where
  "mark_true v t reason message s = MarkTrue (sv_conditions v) serving_setter s t reason message"

definition mark_false :: "('trust, 'signer, 'client, 'scope, 'ec, 'rc, 'engine) services \<Rightarrow> string \<Rightarrow> string \<Rightarrow> string \<Rightarrow> Serving \<Rightarrow> Serving" where
  "mark_false v t reason message s = MarkFalse (sv_conditions v) serving_setter s t reason message"

definition mark_unknown :: "('trust, 'signer, 'client, 'scope, 'ec, 'rc, 'engine) services \<Rightarrow> string \<Rightarrow> string \<Rightarrow> string \<Rightarrow> Serving \<Rightarrow> Serving" where
  "mark_unknown v t reason message s = MarkUnknown (sv_conditions v) serving_setter s t reason message"

definition remove_mark :: "('trust, 'signer, 'client, 'scope, 'ec, 'rc, 'engine) services \<Rightarrow> string \<Rightarrow> Serving \<Rightarrow> Serving" where
  "remove_mark v t s = Remove_condition (sv_conditions v) serving_setter s t"

section \<open>The Preparation a Serving converges to\<close>

definition release_of :: "condition_library \<Rightarrow> Preparation \<Rightarrow> release" where
  "release_of lib p = \<lparr>l_Name = preparation_name p, l_Created = om_CreationTimestamp (Preparation_ObjectMeta p),
     l_Ready = is_condition_true lib (preparation_conditions p) ConditionTypeReady\<rparr>"

text \<open>The Order, the candidate, what the Serving waits for without one, and an error.\<close>

definition targetPreparation ::
    "condition_library \<Rightarrow> api_reads \<Rightarrow> Serving \<Rightarrow> Order option \<times> Preparation option \<times> string \<times> string option" where
  "targetPreparation lib r serving =
     (let ns = serving_namespace serving; name = order_name serving; wanted = ServingSpec_PreparationName (Serving_Spec serving) in
      case get_Order r ns name of
        Inl (GetFailed err) \<Rightarrow> (None, None, [], Some (''failed to get Order: '' @ err))
      | Inl (NotFound _) \<Rightarrow> (None, None, ''Waiting for Order '' @ go_quote name, None)
      | Inr order \<Rightarrow>
          if EffectivePromotionMode order \<noteq> PromotionModeAutomatic
          then if wanted = [] then (Some order, None, ''Waiting for a Preparation to be promoted'', None)
            else (case get_Preparation r ns wanted of
              Inl (GetFailed err) \<Rightarrow> (Some order, None, [], Some (''failed to get Preparation '' @ go_quote wanted @ '': '' @ err))
            | Inl (NotFound _) \<Rightarrow> (Some order, None, ''Waiting for Preparation '' @ go_quote wanted, None)
            | Inr preparation \<Rightarrow> (Some order, Some preparation, [], None))
          else (case list_Preparations r ns name of
              Inl err \<Rightarrow> (Some order, None, [], Some (''failed to list Preparations: '' @ err))
            | Inr preparations \<Rightarrow>
               (case NewestReady (map (release_of lib) preparations) of (newest, ok) \<Rightarrow>
                if \<not> ok then (Some order, None,
                  if preparations = [] then ''Waiting for preparations'' else ''Waiting for ready preparation'', None)
                else (Some order, find (\<lambda>p. preparation_name p = newest) preparations, [], None))))"

section \<open>The approval gate\<close>

definition gate ::
    "('trust, 'signer, 'client, 'scope, 'ec, 'rc, 'engine) services \<Rightarrow> api_reads \<Rightarrow> Preparation \<Rightarrow> bool \<Rightarrow>
     ('ec, 'rc, 'engine) reconcile \<Rightarrow> (string + bool) \<times> ('ec, 'rc, 'engine) reconcile" where
  "gate v r preparation target st =
     (case list_Approvals r (preparation_namespace preparation) (preparation_name preparation) of
        Inl err \<Rightarrow> (Inl (''failed to list Approvals: '' @ err), st)
      | Inr approvals \<Rightarrow>
          if \<not> target
          then let res = approval_Evaluate preparation approvals in
            (Inr (ar_Approved res), on_serving (\<lambda>s. Set_condition (sv_conditions v) serving_setter (setTargetPreparation s [])
               ConditionTypeApproved (if ar_Approved res then ConditionTrue else ConditionFalse) (ar_Reason res)
               (preparation_name preparation @ '': '' @ ar_Message res)) st)
          else let g = approval_Gate (is_condition_true (sv_conditions v)) preparation approvals in
            (Inr (\<not> gd_Blocked g), on_serving (\<lambda>s. Set_condition (sv_conditions v) serving_setter
               (setTargetPreparation s (preparation_name preparation)) ConditionTypeApproved (gd_Status g) (gd_Reason g) (gd_Message g)) st))"

section \<open>The upstream gate\<close>

fun upstreamReasons :: "gate_outcome \<Rightarrow> string" where
  "upstreamReasons OutcomeSatisfied = ReasonSatisfied"
| "upstreamReasons OutcomeSoaking = ReasonSoaking"
| "upstreamReasons OutcomeNotDeployedUpstream = ReasonNotDeployedUpstream"
| "upstreamReasons OutcomeInvalidPipeline = ReasonInvalidPipeline"

definition requirements :: "api_reads \<Rightarrow> Order \<Rightarrow> string + requirement list" where
  "requirements r order =
     (case get_Environment r (om_Namespace (Order_ObjectMeta order)) (EnvironmentRef_Name (OrderSpec_EnvironmentRef (Order_Spec order))) of
        Inl (NotFound _) \<Rightarrow> Inr []
      | Inl (GetFailed err) \<Rightarrow> Inl err
      | Inr env \<Rightarrow>
         (case EnvironmentSpec_Promotion (Environment_Spec env) of
            None \<Rightarrow> Inr []
          | Some p \<Rightarrow> Inr (map (\<lambda>q. \<lparr>m_Environment = RequiredEnvironment_Environment q,
                m_MinSoakSeconds = RequiredEnvironment_MinSoakSeconds q\<rparr>) (EnvironmentPromotion_RequireAfter p))))"

text \<open>Connecting to the artifact of an Order: through the recorded Registry or those of the Order.\<close>

definition connect ::
    "('trust, 'signer, 'client, 'scope, 'ec, 'rc, 'engine) services \<Rightarrow> api_reads \<Rightarrow> string \<Rightarrow> string \<Rightarrow>
     local_object_reference option \<Rightarrow> string \<Rightarrow> registry_error + 'client" where
  "connect v r namespace orderName recorded ociRef =
     (case sv_connect_recorded v namespace recorded ociRef
         (case get_Order r namespace orderName of
            Inl (NotFound _) \<Rightarrow> Inr []
          | Inl (GetFailed err) \<Rightarrow> Inl (''failed to get Order '' @ go_quote orderName @ '': '' @ err)
          | Inr order \<Rightarrow> Inr (OrderSpec_RegistryRefs (Order_Spec order))) of
        Inl err \<Rightarrow> Inl (err\<lparr>re_Message := ''failed to connect to '' @ ociRef @ '': '' @ re_Message err\<rparr>)
      | Inr client \<Rightarrow> Inr client)"

definition record_failure_message ::
    "('trust, 'signer, 'client, 'scope, 'ec, 'rc, 'engine) services \<Rightarrow> registry_error record_failure \<Rightarrow> string" where
  "record_failure_message v failure =
     (case failure of
        RecordInvalid cause \<Rightarrow> ''deployment record did not verify: '' @
          (case cause of InvalidReference m \<Rightarrow> m | InvalidSignature m \<Rightarrow> m | InvalidPredicate \<Rightarrow> sv_record_decode_error v | InvalidMatch m \<Rightarrow> m)
      | RecordConnect err \<Rightarrow> re_Message err
      | RecordRead m \<Rightarrow> m)"

text \<open>Why the record of an upstream deployment did not verify, with its condition reason, or none when it did.\<close>

definition verifyDeployment ::
    "('trust, 'signer, 'client, 'scope, 'ec, 'rc, 'engine) services \<Rightarrow> api_reads \<Rightarrow> string \<Rightarrow> qualified_entry \<Rightarrow>
     ('ec, 'rc, 'engine) reconcile \<Rightarrow> (string \<times> string) option \<times> ('ec, 'rc, 'engine) reconcile" where
  "verifyDeployment v r namespace qualified st =
     (case sv_signing v of
        Inl err \<Rightarrow> (Some (ReasonSigningKeyNotReady, err), st)
      | Inr state \<Rightarrow>
         (let e = q_Entry qualified; order = s_Order (q_Stage qualified);
              (failure, cache) = RecordVerifier_Verify (sv_records v) (st_Trust state) (namespace @ ''/'' @ order) e
                 (connect v r namespace order (registryRef (e_Registry e)) (e_OCIRef e)) (rs_records st)
          in (case failure of
                None \<Rightarrow> None
              | Some f \<Rightarrow> Some (case f of
                    RecordInvalid _ \<Rightarrow> ReasonSignatureInvalid
                  | RecordConnect err \<Rightarrow> registry_Reason err []
                  | RecordRead _ \<Rightarrow> [], record_failure_message v f),
              st\<lparr>rs_records := cache\<rparr>)))"

text \<open>The Environments of the upstream Orders, and their histories as their Servings record them.\<close>

fun read_upstreams ::
    "api_reads \<Rightarrow> string \<Rightarrow> stage list \<Rightarrow> (string \<rightharpoonup> string) \<Rightarrow> (string \<rightharpoonup> upstream) \<Rightarrow>
     string + (string \<rightharpoonup> string) \<times> (string \<rightharpoonup> upstream)" where
  "read_upstreams r ns [] environments upstreams = Inr (environments, upstreams)"
| "read_upstreams r ns (stage # stages) environments upstreams =
     (case get_Order r ns (s_Order stage) of
        Inl (NotFound _) \<Rightarrow> read_upstreams r ns stages environments upstreams
      | Inl (GetFailed err) \<Rightarrow> Inl (''failed to get upstream Order '' @ go_quote (s_Order stage) @ '': '' @ err)
      | Inr order \<Rightarrow>
         (let environments = environments(s_Order stage \<mapsto> EnvironmentRef_Name (OrderSpec_EnvironmentRef (Order_Spec order)));
              product = ProductRef_Name (OrderSpec_ProductRef (Order_Spec order))
          in case get_Serving r ns (s_Order stage) of
               Inl (GetFailed err) \<Rightarrow> Inl (''failed to get the Serving of upstream Order '' @ go_quote (s_Order stage) @ '': '' @ err)
             | Inl (NotFound _) \<Rightarrow> read_upstreams r ns stages environments
                 (upstreams(s_Order stage \<mapsto> \<lparr>u_Product = product, u_History = []\<rparr>))
             | Inr serving \<Rightarrow> read_upstreams r ns stages environments
                 (upstreams(s_Order stage \<mapsto> \<lparr>u_Product = product, u_History = historyOf serving\<rparr>))))"

text \<open>The loop over the qualifying deployments: the first whose record does not verify.\<close>

fun verify_qualified ::
    "('trust, 'signer, 'client, 'scope, 'ec, 'rc, 'engine) services \<Rightarrow> api_reads \<Rightarrow> string \<Rightarrow> qualified_entry list \<Rightarrow>
     ('ec, 'rc, 'engine) reconcile \<Rightarrow> (qualified_entry \<times> string \<times> string) option \<times> ('ec, 'rc, 'engine) reconcile" where
  "verify_qualified v r ns [] st = (None, st)"
| "verify_qualified v r ns (q # qs) st =
     (case verifyDeployment v r ns q st of
        (None, st) \<Rightarrow> verify_qualified v r ns qs st
      | (Some (reason, err), st) \<Rightarrow> (Some (q, reason, err), st))"

definition evaluate_upstream ::
    "('trust, 'signer, 'client, 'scope, 'ec, 'rc, 'engine) services \<Rightarrow> api_reads \<Rightarrow> Preparation \<Rightarrow> gate_request \<Rightarrow>
     ('ec, 'rc, 'engine) reconcile \<Rightarrow> (string + gate_result) \<times> ('ec, 'rc, 'engine) reconcile" where
  "evaluate_upstream v r preparation req st =
     (let result = gate_Evaluate req; name = preparation_name preparation in
      if \<not> Satisfied result
      then (Inr result, on_serving (mark_false v ConditionTypeUpstreamDeployed (upstreamReasons (g_Outcome result))
          (name @ '': '' @ g_Message result)) st)
      else (case verify_qualified v r (serving_namespace (rs_serving st)) (g_Qualified result) st of
          (Some (q, reason, err), st) \<Rightarrow>
            (let msg = name @ '': the deployment record '' @ e_DeploymentRecord (q_Entry q) @ '' of Order '' @ s_Order (q_Stage q) @
                   '' did not verify: '' @ err;
                 held = zero_result\<lparr>g_Outcome := OutcomeNotDeployedUpstream, g_Message := msg\<rparr>
             in if reason = []
                then (Inl err, on_serving (mark_false v ConditionTypeUpstreamDeployed ReasonSignatureMissing msg) st)
                else (Inr held, on_serving (mark_false v ConditionTypeUpstreamDeployed reason msg) st))
        | (None, st) \<Rightarrow>
            (Inr result, on_serving (mark_true v ConditionTypeUpstreamDeployed ReasonSatisfied (name @ '': '' @ g_Message result)) st)))"

definition upstream_request :: "Order \<Rightarrow> Preparation \<Rightarrow> history \<Rightarrow> (string \<rightharpoonup> upstream) \<Rightarrow> time \<Rightarrow> gate_request" where
  "upstream_request order preparation history upstreams now =
     \<lparr>r_Preparation = preparation_name preparation, r_Product = ProductRef_Name (OrderSpec_ProductRef (Order_Spec order)),
      r_Revision = revision_of preparation, r_Stages = stagesOf preparation, r_Self = history,
      r_Upstreams = upstreams, r_Now = now\<rparr>"

definition upstream_gate ::
    "('trust, 'signer, 'client, 'scope, 'ec, 'rc, 'engine) services \<Rightarrow> api_reads \<Rightarrow> Order \<Rightarrow> Preparation \<Rightarrow> history \<Rightarrow>
     ('ec, 'rc, 'engine) reconcile \<Rightarrow> (string + gate_result) \<times> ('ec, 'rc, 'engine) reconcile" where
  "upstream_gate v r order preparation history st =
     (let stages = stagesOf preparation in
      case (if PromotedBefore (preparation_name preparation) history = None then requirements r order else Inr []) of
        Inl err \<Rightarrow> (Inl err, st)
      | Inr required \<Rightarrow>
          if stages = [] \<and> required = []
          then (Inr zero_result, on_serving (remove_mark v ConditionTypeUpstreamDeployed) st)
          else (case clock v st of (now, st) \<Rightarrow>
            (case read_upstreams r (serving_namespace (rs_serving st)) stages Map.empty Map.empty of
               Inl err \<Rightarrow> (Inl err, st)
             | Inr (environments, upstreams) \<Rightarrow>
                (let msg = Required stages environments required in
                 if msg \<noteq> []
                 then (Inr (zero_result\<lparr>g_Outcome := OutcomeInvalidPipeline, g_Message := msg\<rparr>),
                   on_serving (mark_false v ConditionTypeUpstreamDeployed ReasonPipelineRequired
                     (preparation_name preparation @ '': '' @ msg)) st)
                 else evaluate_upstream v r preparation (upstream_request order preparation history upstreams now) st))))"

section \<open>The evidence of a Preparation\<close>

definition verify ::
    "('trust, 'signer, 'client, 'scope, 'ec, 'rc, 'engine) services \<Rightarrow> api_reads \<Rightarrow> Preparation \<Rightarrow> ('ec, 'rc, 'engine) reconcile \<Rightarrow> (string + bool) \<times> ('ec, 'rc, 'engine) reconcile" where
  "verify v r preparation st =
     (let name = preparation_name preparation in
      case sv_signing v of
        Inl err \<Rightarrow> (Inr False, on_serving (mark_unknown v ConditionTypeVerified ReasonSigningKeyNotReady
            (name @ '': waiting for the signing key: '' @ err)) st)
      | Inr state \<Rightarrow>
         (let artifact = preparation_artifact preparation;
              (failure, cache) = Verifier_Verify (sv_evidence v) (st_Trust state) preparation
                 (serving_namespace (rs_serving st) @ ''/'' @ order_name (rs_serving st))
                 (connect v r (preparation_namespace preparation) (PreparationSpec_OrderName (Preparation_Spec preparation))
                   (Artifact_RegistryRef artifact) (Artifact_OCIRef artifact)) (rs_evidence st);
              st = st\<lparr>rs_evidence := cache\<rparr>
          in case failure of
               None \<Rightarrow> (Inr True, on_serving (mark_true v ConditionTypeVerified ReasonSignaturesVerified
                   (name @ '': signature and attestations verified'')) st)
             | Some (Rejected reason err) \<Rightarrow> (Inr False, on_serving (mark_false v ConditionTypeVerified reason (name @ '': '' @ err)) st)
             | Some (EvidenceConnect err) \<Rightarrow>
                 if registry_Reason err [] \<noteq> []
                 then (Inr False, on_serving (mark_false v ConditionTypeVerified (registry_Reason err []) (name @ '': '' @ re_Message err)) st)
                 else (Inl (''failed to verify Preparation '' @ go_quote name @ '': '' @ re_Message err), st)
             | Some (EvidenceRead err) \<Rightarrow> (Inl (''failed to verify Preparation '' @ go_quote name @ '': '' @ err), st)))"

section \<open>The promotion checks\<close>

fun checkReasons :: "outcome \<Rightarrow> string" where
  "checkReasons OutcomePassed = ReasonPassed"
| "checkReasons OutcomeVulnerabilitiesFound = ReasonVulnerabilitiesFound"
| "checkReasons OutcomeScanMissing = ReasonScanMissing"
| "checkReasons OutcomeScanStale = ReasonScanStale"

record checksVerdict =
  cv_passed :: bool
  cv_recheck :: duration
  cv_evidence :: "checks_evidence option"

text \<open>The severity of a check, which the API requires to be set.\<close>

fun check_severity :: "Severity \<Rightarrow> vuln_severity" where
  "check_severity SeverityCritical = Sev_Critical"
| "check_severity SeverityHigh = Sev_High"
| "check_severity SeverityMedium = Sev_Medium"
| "check_severity SeverityLow = Sev_Low"
| "check_severity SeverityUnset = Sev_Unknown"

fun api_severity_name :: "Severity \<Rightarrow> string" where
  "api_severity_name SeverityUnset = []"
| "api_severity_name s = severity_name (check_severity s)"

definition summary_of :: "VulnerabilitySummary \<Rightarrow> summary" where
  "summary_of s = \<lparr>n_Critical = VulnerabilitySummary_Critical s, n_High = VulnerabilitySummary_High s,
     n_Medium = VulnerabilitySummary_Medium s, n_Low = VulnerabilitySummary_Low s,
     n_Unknown = VulnerabilitySummary_Unknown s, n_Fixable = VulnerabilitySummary_Fixable s\<rparr>"

definition stored_summary :: "summary \<Rightarrow> VulnerabilitySummary" where
  "stored_summary s = \<lparr>VulnerabilitySummary_Critical = n_Critical s, VulnerabilitySummary_High = n_High s,
     VulnerabilitySummary_Medium = n_Medium s, VulnerabilitySummary_Low = n_Low s,
     VulnerabilitySummary_Unknown = n_Unknown s, VulnerabilitySummary_Fixable = n_Fixable s\<rparr>"

definition scan_of :: "ImageScan \<Rightarrow> scan" where
  "scan_of s = \<lparr>sc_Repository = ImageScan_Repository s, sc_Digest = ImageScan_Digest s, sc_Report = ImageScan_Report s,
     sc_ScannedAt = ImageScan_ScannedTime s, sc_Summary = summary_of (ImageScan_Summary s)\<rparr>"

definition product_scans :: "Product \<Rightarrow> string \<rightharpoonup> ImageScan" where
  "product_scans product =
     (case ProductStatus_Vulnerabilities (Product_Status product) of
        None \<Rightarrow> Map.empty
      | Some vs \<Rightarrow> foldl (\<lambda>m s. m(ImageScan_Digest s \<mapsto> s)) Map.empty (ProductVulnerabilities_Images vs))"

definition releaseImagesOf :: "Preparation \<Rightarrow> Product \<Rightarrow> image list" where
  "releaseImagesOf preparation product =
     map (\<lambda>img. \<lparr>i_Name = str_or [PreparationImage_Name img, PreparationImage_Ref img], i_Digest = PreparationImage_Digest img,
         i_Vendored = (PreparationImage_Vendored img \<noteq> []),
         i_Scan = map_option scan_of (product_scans product (PreparationImage_Digest img))\<rparr>)
       (PreparationSpec_Images (Preparation_Spec preparation))"

definition productOf :: "api_reads \<Rightarrow> Serving \<Rightarrow> string + Product option" where
  "productOf r serving =
     (case get_Order r (serving_namespace serving) (order_name serving) of
        Inl (NotFound _) \<Rightarrow> Inr None
      | Inl (GetFailed err) \<Rightarrow> Inl (''failed to get Order: '' @ err)
      | Inr order \<Rightarrow>
         (case get_Product r (serving_namespace serving) (ProductRef_Name (OrderSpec_ProductRef (Order_Spec order))) of
            Inl (NotFound _) \<Rightarrow> Inr None
          | Inl (GetFailed err) \<Rightarrow> Inl (''failed to get Product: '' @ err)
          | Inr product \<Rightarrow> Inr (Some product)))"

definition scanInterval :: "('trust, 'signer, 'client, 'scope, 'ec, 'rc, 'engine) services \<Rightarrow> api_reads \<Rightarrow> string + duration" where
  "scanInterval v r =
     (case get_Kitchen r (sv_InstallNamespace v) DefaultKitchenName of
        Inl (GetFailed err) \<Rightarrow> Inl (''failed to get Kitchen: '' @ err)
      | Inl (NotFound _) \<Rightarrow> Inr (sint (EffectiveIntervalSeconds None) * second)
      | Inr kitchen \<Rightarrow> Inr (sint (EffectiveIntervalSeconds (KitchenSpec_Scanning (Kitchen_Spec kitchen))) * second))"

definition reportAccess :: "('trust, 'signer, 'client, 'scope, 'ec, 'rc, 'engine) services \<Rightarrow> Product \<Rightarrow> string + ('trust, 'client) report_access" where
  "reportAccess v product =
     (case sv_signing v of
        Inl err \<Rightarrow> Inl (''waiting for the signing key to verify the reports: '' @ err)
      | Inr state \<Rightarrow>
         (case sv_scope v (om_Namespace (Product_ObjectMeta product)) (ProductSpec_RegistryRefs (Product_Spec product)) of
            Inl err \<Rightarrow> Inl (''connecting to the vendored images: '' @ re_Message err)
          | Inr scope \<Rightarrow> Inr \<lparr>ra_Trust = st_Trust state, ra_Connect = (\<lambda>repository.
               case sv_scope_connect v scope repository of
                 Inl err \<Rightarrow> Inl (if registry_Reason err [] \<noteq> [] then Unreadable (re_Message err) else ReadFailed (re_Message err))
               | Inr client \<Rightarrow> Inr client)\<rparr>))"

definition vulnerability_check :: "VulnerabilityCheck \<Rightarrow> duration \<Rightarrow> check" where
  "vulnerability_check c interval =
     \<lparr>k_MaxSeverity = check_severity (VulnerabilityCheck_MaxSeverity c), k_IgnoreUnfixed = VulnerabilityCheck_IgnoreUnfixed c,
      k_MaxAge = MaxAge (sint (VulnerabilityCheck_MaxAgeSeconds c) * second) interval\<rparr>"

definition evaluateVulnerabilities ::
    "('trust, 'signer, 'client, 'scope, 'ec, 'rc, 'engine) services \<Rightarrow> api_reads \<Rightarrow> Preparation \<Rightarrow> VulnerabilityCheck \<Rightarrow> ('ec, 'rc, 'engine) reconcile \<Rightarrow> (string + verdict \<times> assessment list) \<times> ('ec, 'rc, 'engine) reconcile" where
  "evaluateVulnerabilities v r preparation c st =
     (case productOf r (rs_serving st) of
        Inl err \<Rightarrow> (Inl err, st)
      | Inr None \<Rightarrow> (Inr (\<lparr>d_Outcome = OutcomeScanMissing, d_Message = ''the Order or its Product was not found'',
                          d_Blocking = [], d_Recheck = 0\<rparr>, []), st)
      | Inr (Some product) \<Rightarrow>
         (case scanInterval v r of
            Inl err \<Rightarrow> (Inl err, st)
          | Inr interval \<Rightarrow>
             (let assessments = Read (releaseImagesOf preparation product) (sv_read_report v (reportAccess v product));
                  (now, st) = clock v st
              in (case vuln_Evaluate assessments (vulnerability_check c interval) now of
                    Inl err \<Rightarrow> Inl err | Inr verdict \<Rightarrow> Inr (verdict, assessments), st))))"

definition vulnerabilities_of :: "Preparation \<Rightarrow> VulnerabilityCheck option" where
  "vulnerabilities_of preparation =
     (case Preparation_PromotionChecks preparation of None \<Rightarrow> None | Some c \<Rightarrow> PromotionChecks_Vulnerabilities c)"

definition checks :: "('trust, 'signer, 'client, 'scope, 'ec, 'rc, 'engine) services \<Rightarrow> api_reads \<Rightarrow> Preparation \<Rightarrow> ('ec, 'rc, 'engine) reconcile \<Rightarrow> (string + checksVerdict) \<times> ('ec, 'rc, 'engine) reconcile" where
  "checks v r preparation st =
     (case vulnerabilities_of preparation of
        None \<Rightarrow> (Inr \<lparr>cv_passed = True, cv_recheck = 0, cv_evidence = None\<rparr>, on_serving (remove_mark v ConditionTypeChecksPassed) st)
      | Some c \<Rightarrow>
          and_then (evaluateVulnerabilities v r preparation c) (\<lambda>(verdict, assessments) st.
            let reason = checkReasons (d_Outcome verdict); msg = preparation_name preparation @ '': '' @ d_Message verdict in
            if d_Outcome verdict \<noteq> OutcomePassed
            then (Inr \<lparr>cv_passed = False, cv_recheck = 0, cv_evidence = None\<rparr>,
              on_serving (mark_false v ConditionTypeChecksPassed reason msg) st)
            else (Inr \<lparr>cv_passed = True, cv_recheck = d_Recheck verdict, cv_evidence = Some
                \<lparr>ce_Vulnerabilities = Some (VulnerabilitiesEvidenceOf (api_severity_name (VulnerabilityCheck_MaxSeverity c)) assessments)\<rparr>\<rparr>,
              on_serving (mark_true v ConditionTypeChecksPassed reason msg) st)) st)"

section \<open>Promoting\<close>

fun mode_name :: "PromotionMode \<Rightarrow> string" where
  "mode_name PromotionModeUnset = []"
| "mode_name PromotionModeAutomatic = ''Automatic''"
| "mode_name PromotionModeManual = ''Manual''"

definition promotion_gates :: "string \<Rightarrow> Preparation \<Rightarrow> gate_result \<Rightarrow> checksVerdict \<Rightarrow> gates" where
  "promotion_gates namespace candidate upstream c =
     \<lparr>gs_Approvals = (case (Preparation_ApprovalPolicy candidate, PreparationStatus_Approval (Preparation_Status candidate)) of
         (Some _, Some a) \<Rightarrow> (case PreparationApprovalStatus_Attestation a of
             Some att \<Rightarrow> Some \<lparr>ae_Attestation = ApprovalAttestation_Digest att\<rparr> | None \<Rightarrow> None)
       | _ \<Rightarrow> None),
      gs_After = StageEvidenceOf namespace (stagesOf candidate) upstream, gs_Checks = cv_evidence c\<rparr>"

definition recordPromotion ::
    "('trust, 'signer, 'client, 'scope, 'ec, 'rc, 'engine) services \<Rightarrow> api_reads \<Rightarrow> Serving \<Rightarrow> Order \<Rightarrow> Preparation \<Rightarrow> history \<Rightarrow> gate_result \<Rightarrow> checksVerdict \<Rightarrow> string + string" where
  "recordPromotion v r serving order candidate history upstream c =
     (case sv_signing v of
        Inl err \<Rightarrow> Inl (''waiting for the signing key to record the promotion: '' @ err)
      | Inr state \<Rightarrow>
         (let artifact = preparation_artifact candidate in
          case connect v r (serving_namespace serving) (order_name serving) (Artifact_RegistryRef artifact) (Artifact_OCIRef artifact) of
            Inl err \<Rightarrow> Inl (re_Message err)
          | Inr client \<Rightarrow>
              PushPromotion (sv_writer v client (st_Signer state)) (serving_namespace serving @ ''/'' @ order_name serving)
                (mode_name (EffectivePromotionMode order)) history (promotion_gates (serving_namespace serving) candidate upstream c)))"

text \<open>Holding the candidate: its pending promotion is given up.\<close>

definition hold :: "history \<Rightarrow> string \<Rightarrow> duration \<Rightarrow> ('ec, 'rc, 'engine) reconcile \<Rightarrow> (string + duration \<times> string) \<times> ('ec, 'rc, 'engine) reconcile" where
  "hold h msg wait st = (Inr (wait, msg), on_serving (\<lambda>s. setHistory s (Drop h)) st)"

text \<open>A candidate that passed its gates: its evidence, then the two passes of a promotion.\<close>

definition promote_verified ::
    "('trust, 'signer, 'client, 'scope, 'ec, 'rc, 'engine) services \<Rightarrow> api_reads \<Rightarrow> Order \<Rightarrow> Preparation \<Rightarrow> history \<Rightarrow> gate_result \<Rightarrow> checksVerdict \<Rightarrow> bool \<Rightarrow> ('ec, 'rc, 'engine) reconcile \<Rightarrow> (string + duration \<times> string) \<times> ('ec, 'rc, 'engine) reconcile" where
  "promote_verified v r order candidate history upstream c verified st =
     (let step = Next (preparation_name candidate) history in
      if step = StepDeployed then (Inr (cv_recheck c, []), on_serving (\<lambda>s. setHistory s (Drop history)) st)
      else if \<not> verified
      then hold history (''Waiting for its evidence to verify: '' @ conditionMessage (sv_conditions v) (rs_serving st) ConditionTypeVerified) 0 st
      else if step = StepOpen
      then (case clock v st of (now, st) \<Rightarrow>
        (Inr (historyPassInterval, ''Recording the promotion of Preparation '' @ preparation_name candidate),
         on_serving (\<lambda>s. setHistory s (Open (entryOf candidate) now history)) st))
      else (case recordPromotion v r (rs_serving st) order candidate history upstream c of
          Inl err \<Rightarrow> (Inl err, st)
        | Inr promotion_record \<Rightarrow> (Inr (cv_recheck c, []), on_serving (\<lambda>s. setHistory s (Start promotion_record history)) st)))"

text \<open>A candidate whose upstream stages and checks are evaluated: approvals, which are sealed once it is the target.\<close>

definition promote_checked ::
    "('trust, 'signer, 'client, 'scope, 'ec, 'rc, 'engine) services \<Rightarrow> api_reads \<Rightarrow> Order \<Rightarrow> Preparation \<Rightarrow> history \<Rightarrow> gate_result \<Rightarrow> checksVerdict \<Rightarrow> ('ec, 'rc, 'engine) reconcile \<Rightarrow> (string + duration \<times> string) \<times> ('ec, 'rc, 'engine) reconcile" where
  "promote_checked v r order candidate history upstream c st =
     (let current = (Next (preparation_name candidate) history = StepDeployed);
          target = (current \<or> Satisfied upstream \<and> cv_passed c)
      in and_then (gate v r candidate target) (\<lambda>approved st.
        if \<not> target
        then (let st = on_serving (mark_unknown v ConditionTypeVerified ReasonPending
                 (preparation_name candidate @ '': verified once its upstream stages and checks pass'')) st
          in if \<not> Satisfied upstream
             then hold history (''Waiting for upstream stages: '' @ conditionMessage (sv_conditions v) (rs_serving st) ConditionTypeUpstreamDeployed)
                    (g_RequeueAfter upstream) st
             else hold history (''Held by its checks: '' @ conditionMessage (sv_conditions v) (rs_serving st) ConditionTypeChecksPassed)
                    (cv_recheck c) st)
        else if \<not> approved \<and> \<not> current
        then hold history (''Waiting for approvals: '' @ conditionMessage (sv_conditions v) (rs_serving st) ConditionTypeApproved) 0 st
        else and_then (verify v r candidate) (promote_verified v r order candidate history upstream c) st) st)"

definition promote ::
    "('trust, 'signer, 'client, 'scope, 'ec, 'rc, 'engine) services \<Rightarrow> api_reads \<Rightarrow> Order \<Rightarrow> Preparation \<Rightarrow> ('ec, 'rc, 'engine) reconcile \<Rightarrow> (string + duration \<times> string) \<times> ('ec, 'rc, 'engine) reconcile" where
  "promote v r order candidate st =
     (let history = historyOf (rs_serving st) in
      if \<not> is_condition_true (sv_conditions v) (preparation_conditions candidate) ConditionTypeReady
      then hold history (''Waiting for Preparation '' @ go_quote (preparation_name candidate) @ '' to become ready'') 0
             (on_serving (\<lambda>s. setTargetPreparation s []) st)
      else and_then (upstream_gate v r order candidate (Drop history))
             (\<lambda>upstream. and_then (checks v r candidate) (promote_checked v r order candidate history upstream)) st)"

section \<open>Deploying\<close>

definition deployer_of :: "('trust, 'signer, 'client, 'scope, 'ec, 'rc, 'engine) services \<Rightarrow> Environment \<Rightarrow> 'engine deployer" where
  "deployer_of v env =
     (case map_of (sv_deployers v) (Deployer_Type (EnvironmentSpec_Deployer (Environment_Spec env))) of
        Some d \<Rightarrow> d | None \<Rightarrow> sv_argocd v)"

definition all_deployers :: "('trust, 'signer, 'client, 'scope, 'ec, 'rc, 'engine) services \<Rightarrow> 'engine deployer list" where
  "all_deployers v = (if sv_deployers v = [] then [sv_argocd v] else map snd (sv_deployers v))"

text \<open>Stopping deployments through every engine; the first error ends the loop.\<close>

fun remove_all ::
    "('trust, 'signer, 'client, 'scope, 'ec, 'rc, 'engine) services \<Rightarrow> 'engine deployer list \<Rightarrow> string list option \<Rightarrow> ('ec, 'rc, 'engine) reconcile \<Rightarrow> (string + unit) \<times> ('ec, 'rc, 'engine) reconcile" where
  "remove_all v [] keep st = (Inr (), st)"
| "remove_all v (d # ds) keep st =
     (case en_Remove d (rs_serving st) keep (rs_engine st) of
        ((removed, err), engine) \<Rightarrow>
          (let st = st\<lparr>rs_engine := engine,
                 rs_events := rs_events st @ (if keep \<noteq> None \<and> sv_records_events v then map Undeployed removed else [])\<rparr>
           in case err of Some e \<Rightarrow> (Inl e, st) | None \<Rightarrow> remove_all v ds keep st))"

definition remove_deployments :: "('trust, 'signer, 'client, 'scope, 'ec, 'rc, 'engine) services \<Rightarrow> string list option \<Rightarrow> ('ec, 'rc, 'engine) reconcile \<Rightarrow> (string + unit) \<times> ('ec, 'rc, 'engine) reconcile" where
  "remove_deployments v keep st = remove_all v (all_deployers v) keep st"

text \<open>The Environment and the targets; or why the Order may not deploy at all.\<close>

datatype deploy_targets = NoTargets string string | TargetsIn Environment "deployTarget list"

definition deploy_targets_of ::
    "('trust, 'signer, 'client, 'scope, 'ec, 'rc, 'engine) services \<Rightarrow> api_reads \<Rightarrow> Order \<Rightarrow> Preparation \<Rightarrow> ('ec, 'rc, 'engine) reconcile \<Rightarrow> string + deploy_targets" where
  "deploy_targets_of v r order preparation st =
     (let ns = serving_namespace (rs_serving st); name = EnvironmentRef_Name (OrderSpec_EnvironmentRef (Order_Spec order)) in
      case get_Environment r ns name of
        Inl (NotFound _) \<Rightarrow> Inr (NoTargets ReasonEnvironmentNotFound
            (''Environment '' @ go_quote name @ '' does not exist in namespace '' @ ns))
      | Inl (GetFailed err) \<Rightarrow> Inl (''failed to get Environment '' @ go_quote name @ '': '' @ err)
      | Inr env \<Rightarrow>
         (case list_Clusters r ns of
            Inl err \<Rightarrow> Inl (''failed to list Clusters: '' @ err)
          | Inr clusters \<Rightarrow>
             (case SelectedClusters (sv_as_selector v) env clusters of
                Inl err \<Rightarrow> Inr (NoTargets ReasonInvalidSelector (''Environment '' @ name @ '': clusterSelector: '' @ err))
              | Inr selected \<Rightarrow>
                  if selected = []
                  then Inr (NoTargets ReasonNoClusters (''Environment '' @ name @ '' selects no Cluster in namespace '' @ ns))
                  else (case en_Admit (deployer_of v env) env (rs_engine st) of
                     Inl err \<Rightarrow> Inl err
                   | Inr admitted \<Rightarrow>
                       if ad_reason admitted \<noteq> []
                       then Inr (NoTargets (ad_reason admitted) (''Environment '' @ name @ '': '' @ ad_message admitted))
                       else Inr (TargetsIn env (targets_of (sv_conditions v) (PreparationSpec_TargetNamespace (Preparation_Spec preparation))
                              (bundledPull (sv_BundledRegistryHost v) preparation) Map.empty selected))))))"

text \<open>The loop over the targets: those the engine holds become held, the others report a state.\<close>

fun apply_loop ::
    "'engine deployer \<Rightarrow> Environment \<Rightarrow> entry \<Rightarrow> deployTarget list \<Rightarrow> (string \<rightharpoonup> targetState) \<Rightarrow> ('ec, 'rc, 'engine) reconcile \<Rightarrow>
     (string + deployTarget list \<times> (string \<rightharpoonup> targetState)) \<times> ('ec, 'rc, 'engine) reconcile" where
  "apply_loop d env deployed [] states st = (Inr ([], states), st)"
| "apply_loop d env deployed (target # targets) states st =
     (if tg_holdReason target \<noteq> []
      then and_then (apply_loop d env deployed targets states) (\<lambda>(ts, states) st. (Inr (target # ts, states), st)) st
      else (case en_Apply d env (rs_serving st) deployed target (rs_engine st) of
          (Inl err, engine) \<Rightarrow> (Inl err, st\<lparr>rs_engine := engine\<rparr>)
        | (Inr state, engine) \<Rightarrow>
            (let st = st\<lparr>rs_engine := engine\<rparr> in
             if ts_held state \<noteq> []
             then and_then (apply_loop d env deployed targets states)
               (\<lambda>(ts, states) st. (Inr (target\<lparr>tg_holdReason := ts_held state, tg_holdMessage := ts_message state\<rparr> # ts, states), st)) st
             else and_then (apply_loop d env deployed targets (states(tg_cluster target \<mapsto> state)))
               (\<lambda>(ts, states) st. (Inr (target # ts, states), st)) st)))"

definition applyTargets ::
    "('trust, 'signer, 'client, 'scope, 'ec, 'rc, 'engine) services \<Rightarrow> Environment \<Rightarrow> entry \<Rightarrow> deployTarget list \<Rightarrow> ('ec, 'rc, 'engine) reconcile \<Rightarrow>
     (string + deployTarget list \<times> (string \<rightharpoonup> targetState)) \<times> ('ec, 'rc, 'engine) reconcile" where
  "applyTargets v env deployed targets st =
     and_then (apply_loop (deployer_of v env) env deployed targets Map.empty)
       (\<lambda>applied. and_then (remove_deployments v (Some (map tg_cluster targets))) (\<lambda>_ st. (Inr applied, st))) st"

section \<open>Recording deployments\<close>

text \<open>The targets a healthy deployment is recorded with: those that run its digest healthily.\<close>

definition healthy_targets :: "Preparation \<Rightarrow> entry \<Rightarrow> deployTarget list \<Rightarrow> (string \<rightharpoonup> targetState) \<Rightarrow> deploy_target list" where
  "healthy_targets preparation e deployedTo states =
     concat (map (\<lambda>t. case states (tg_cluster t) of
         Some state \<Rightarrow> if tg_holdReason t = [] \<and> ts_revision state = e_Digest e \<and> ts_health state = HealthHealthy
           then [\<lparr>dt_Cluster = tg_cluster t, dt_Server = tg_server t,
                  dt_Namespace = PreparationSpec_TargetNamespace (Preparation_Spec preparation)\<rparr>] else []
       | None \<Rightarrow> []) deployedTo)"

fun record_unrecorded ::
    "('trust, 'signer, 'client, 'scope, 'ec, 'rc, 'engine) services \<Rightarrow> api_reads \<Rightarrow> ('trust, 'signer) signing_state \<Rightarrow> Serving \<Rightarrow> deployTarget list \<Rightarrow> (string \<rightharpoonup> targetState) \<Rightarrow>
     entry list \<Rightarrow> history \<Rightarrow> string + history" where
  "record_unrecorded v r state serving deployedTo states [] history = Inr history"
| "record_unrecorded v r state serving deployedTo states (e # es) history =
     (case get_Preparation r (serving_namespace serving) (e_Preparation e) of
        Inl (NotFound _) \<Rightarrow> record_unrecorded v r state serving deployedTo states es history
      | Inl (GetFailed err) \<Rightarrow> Inl (''failed to get Preparation '' @ go_quote (e_Preparation e) @ '': '' @ err)
      | Inr preparation \<Rightarrow>
         (case connect v r (serving_namespace serving) (order_name serving) (registryRef (e_Registry e)) (e_OCIRef e) of
            Inl err \<Rightarrow> Inl (re_Message err)
          | Inr client \<Rightarrow>
             (case PushDeployment (sv_writer v client (st_Signer state)) (serving_namespace serving @ ''/'' @ order_name serving) e
                 (healthy_targets preparation e deployedTo states) of
                Inl err \<Rightarrow> Inl err
              | Inr deployment_record \<Rightarrow> record_unrecorded v r state serving deployedTo states es
                  (RecordDeployment (e_Digest e) (e_Healthy e) deployment_record history))))"

definition recordDeployments ::
    "('trust, 'signer, 'client, 'scope, 'ec, 'rc, 'engine) services \<Rightarrow> api_reads \<Rightarrow> history \<Rightarrow> deployTarget list \<Rightarrow> (string \<rightharpoonup> targetState) \<Rightarrow> ('ec, 'rc, 'engine) reconcile \<Rightarrow> (string + unit) \<times> ('ec, 'rc, 'engine) reconcile" where
  "recordDeployments v r history deployedTo states st =
     (if Unrecorded history = [] then (Inr (), st)
      else case sv_signing v of
        Inl err \<Rightarrow> (Inl (''waiting for the signing key to record the deployment: '' @ err), st)
      | Inr state \<Rightarrow>
         (case record_unrecorded v r state (rs_serving st) deployedTo states (Unrecorded history) history of
            Inl err \<Rightarrow> (Inl err, st)
          | Inr history \<Rightarrow> (Inr (), on_serving (\<lambda>s. setHistory s history) st)))"

definition set_vulnerabilities :: "VulnerabilitySummary option \<Rightarrow> Serving \<Rightarrow> Serving" where
  "set_vulnerabilities summary = on_status (\<lambda>s. s\<lparr>ServingStatus_DeployedVulnerabilities := summary\<rparr>)"

text \<open>The Event of findings that increased while a Preparation stays deployed; only these severities count.\<close>

definition increased_event :: "VulnerabilitySummary \<Rightarrow> summary \<Rightarrow> VulnerabilityCheck \<Rightarrow> string \<Rightarrow> serving_event list" where
  "increased_event previous found c name =
     (let severity = check_severity (VulnerabilityCheck_MaxSeverity c);
          was = (summary_of previous)\<lparr>n_Unknown := 0, n_Fixable := 0\<rparr>
      in case Increased was found severity of
           (before, after, increased) \<Rightarrow> if increased then [VulnerabilitiesIncreased name (sint after) severity (sint before)] else [])"

definition recordDeployedVulnerabilities :: "('trust, 'signer, 'client, 'scope, 'ec, 'rc, 'engine) services \<Rightarrow> api_reads \<Rightarrow> entry \<Rightarrow> ('ec, 'rc, 'engine) reconcile \<Rightarrow> (string + unit) \<times> ('ec, 'rc, 'engine) reconcile" where
  "recordDeployedVulnerabilities v r deployed st =
     (if e_Healthy deployed = 0 then (Inr (), st)
      else case get_Preparation r (serving_namespace (rs_serving st)) (e_Preparation deployed) of
        Inl (NotFound _) \<Rightarrow> (Inr (), st)
      | Inl (GetFailed err) \<Rightarrow> (Inl err, st)
      | Inr preparation \<Rightarrow>
         (case productOf r (rs_serving st) of
            Inl err \<Rightarrow> (Inl err, st)
          | Inr product \<Rightarrow>
             (let (found, scanned) = (case product of Some p \<Rightarrow> Total (releaseImagesOf preparation p) | None \<Rightarrow> (zero_summary, False));
                  previous = ServingStatus_DeployedVulnerabilities (Serving_Status (rs_serving st));
                  st = on_serving (set_vulnerabilities (if scanned then Some (stored_summary found) else None)) st
              in case (previous, vulnerabilities_of preparation) of
                   (Some was, Some c) \<Rightarrow>
                     if scanned \<and> sv_records_events v
                     then (Inr (), st\<lparr>rs_events := rs_events st @ increased_event was found c (preparation_name preparation)\<rparr>)
                     else (Inr (), st)
                 | _ \<Rightarrow> (Inr (), st))))"

section \<open>One reconcile\<close>

text \<open>What the targets report, in the Serving: counts, Ready, and the history or the records.\<close>

definition mark_ready :: "('trust, 'signer, 'client, 'scope, 'ec, 'rc, 'engine) services \<Rightarrow> string \<Rightarrow> string \<Rightarrow> string \<Rightarrow> Serving \<Rightarrow> Serving" where
  "mark_ready v reason msg held s = markHeld (sv_conditions v) (mark_false v ConditionTypeReady reason msg s) held"

definition mark_deployment :: "('trust, 'signer, 'client, 'scope, 'ec, 'rc, 'engine) services \<Rightarrow> entry \<Rightarrow> deployTarget list \<Rightarrow> observation \<Rightarrow> Serving \<Rightarrow> Serving" where
  "mark_deployment v deployed targets observation s =
     (case markDeployment (sv_conditions v) s deployed targets observation of Some s \<Rightarrow> s | None \<Rightarrow> s)"

definition observe_deployment ::
    "('trust, 'signer, 'client, 'scope, 'ec, 'rc, 'engine) services \<Rightarrow> api_reads \<Rightarrow> history \<Rightarrow> entry \<Rightarrow> string \<Rightarrow> deployTarget list \<times> (string \<rightharpoonup> targetState) \<Rightarrow> ('ec, 'rc, 'engine) reconcile \<Rightarrow> (string + duration) \<times> ('ec, 'rc, 'engine) reconcile" where
  "observe_deployment v r history deployed held applied st =
     (case applied of (targets, states) \<Rightarrow>
      let observation = observationOf deployed targets states;
          st = on_serving (\<lambda>s. markHeld (sv_conditions v)
            (mark_deployment v deployed targets observation (setTargets (sv_conditions v) s deployed targets states)) held) st;
          (now, st) = clock v st;
          (observed, changed) = Observe observation now history
      in if changed
         then (Inr historyPassInterval, on_serving (\<lambda>s. setHistory
             (if e_Healthy deployed = 0 \<and> (case Deployed observed of Some d \<Rightarrow> e_Healthy d \<noteq> 0 | None \<Rightarrow> False)
              then set_vulnerabilities None s else s) observed) st)
         else and_then (recordDeployments v r history targets states)
           (\<lambda>_. and_then (recordDeployedVulnerabilities v r deployed) (\<lambda>_ st. (Inr 0, st))) st)"

definition deploy_preparation ::
    "('trust, 'signer, 'client, 'scope, 'ec, 'rc, 'engine) services \<Rightarrow> api_reads \<Rightarrow> Order \<Rightarrow> history \<Rightarrow> entry \<Rightarrow> string \<Rightarrow> Preparation \<Rightarrow> ('ec, 'rc, 'engine) reconcile \<Rightarrow> (string + duration) \<times> ('ec, 'rc, 'engine) reconcile" where
  "deploy_preparation v r order history deployed held preparation st =
     (case deploy_targets_of v r order preparation st of
        Inl err \<Rightarrow> (Inl err, st)
      | Inr (NoTargets reason msg) \<Rightarrow>
          and_then (remove_deployments v (Some [])) (\<lambda>_ st.
            (Inr 0, on_serving (\<lambda>s. mark_ready v reason msg held (setTargets (sv_conditions v) s deployed [] Map.empty)) st)) st
      | Inr (TargetsIn env targets) \<Rightarrow>
         (case applyTargets v env deployed targets st of
            (Inl err, st) \<Rightarrow> (Inl (''failed to deploy: '' @ err),
               on_serving (\<lambda>s. markHeld (sv_conditions v) (markDeploymentFailed (sv_conditions v) s (''failed to deploy: '' @ err)) held) st)
          | (Inr applied, st) \<Rightarrow> observe_deployment v r history deployed held applied st))"

definition deploy ::
    "('trust, 'signer, 'client, 'scope, 'ec, 'rc, 'engine) services \<Rightarrow> api_reads \<Rightarrow> Order option \<Rightarrow> string \<Rightarrow> ('ec, 'rc, 'engine) reconcile \<Rightarrow> (string + duration) \<times> ('ec, 'rc, 'engine) reconcile" where
  "deploy v r order held st =
     (let history = historyOf (rs_serving st) in
      case (Deployed history, order) of
        (Some deployed, Some order) \<Rightarrow>
         (case get_Preparation r (serving_namespace (rs_serving st)) (e_Preparation deployed) of
            Inl (GetFailed err) \<Rightarrow> (Inl (''failed to get Preparation '' @ go_quote (e_Preparation deployed) @ '': '' @ err), st)
          | Inl (NotFound _) \<Rightarrow> (Inr 0, on_serving (mark_ready v ReasonPreparationNotFound
              (''Preparation '' @ e_Preparation deployed @ '', which is deployed, was deleted; promote another Preparation'') held) st)
          | Inr preparation \<Rightarrow> deploy_preparation v r order history deployed held preparation st)
      | _ \<Rightarrow> (Inr 0, if held \<noteq> [] then on_serving (\<lambda>s. markPending (sv_conditions v) s held) st else st))"

text \<open>Deciding on the candidate: the wait and what holds it, or the error, which still lets it deploy what is deployed.\<close>

definition decide_candidate ::
    "('trust, 'signer, 'client, 'scope, 'ec, 'rc, 'engine) services \<Rightarrow> api_reads \<Rightarrow> ('ec, 'rc, 'engine) reconcile \<Rightarrow> (Order option \<times> duration \<times> string \<times> string option) \<times> ('ec, 'rc, 'engine) reconcile" where
  "decide_candidate v r st =
     (case targetPreparation (sv_conditions v) r (rs_serving st) of
        (Some order, Some candidate, _, _) \<Rightarrow>
         (case promote v r order candidate st of
            (Inl err, st) \<Rightarrow> ((Some order, 0, [], Some err), st)
          | (Inr (wait, held), st) \<Rightarrow> ((Some order, wait, held, None), st))
      | (order, _, held, None) \<Rightarrow>
          ((order, 0, held, None), on_serving (\<lambda>s. setTargetPreparation (setHistory s (Drop (historyOf s))) []) st)
      | (order, _, held, Some err) \<Rightarrow> ((order, 0, held, Some err), st))"

definition reconcileServing :: "('trust, 'signer, 'client, 'scope, 'ec, 'rc, 'engine) services \<Rightarrow> api_reads \<Rightarrow> ('ec, 'rc, 'engine) reconcile \<Rightarrow> (string + duration) \<times> ('ec, 'rc, 'engine) reconcile" where
  "reconcileServing v r st =
     (case decide_candidate v r st of
        ((order, wait, held, err), st) \<Rightarrow>
         (case deploy v r order held st of
            (deployed, st) \<Rightarrow>
             (case join_errors [err, error_of deployed] of
                Some e \<Rightarrow> (Inl e, st)
              | None \<Rightarrow> (Inr (soonest [wait, case deployed of Inr w \<Rightarrow> w | Inl _ \<Rightarrow> 0]), st))))"

section \<open>The reconcile request\<close>

record api_writes =
  update_Serving :: "Serving \<Rightarrow> write_result"
  patch_Serving :: "Serving \<Rightarrow> ServingStatus \<Rightarrow> write_result"

definition finalizers :: "Serving \<Rightarrow> string list" where
  "finalizers s = om_Finalizers (Serving_ObjectMeta s)"

definition set_finalizers :: "string list \<Rightarrow> Serving \<Rightarrow> Serving" where
  "set_finalizers fs s = s\<lparr>Serving_ObjectMeta := (Serving_ObjectMeta s)\<lparr>om_Finalizers := fs\<rparr>\<rparr>"

definition reconcileDelete :: "('trust, 'signer, 'client, 'scope, 'ec, 'rc, 'engine) services \<Rightarrow> api_writes \<Rightarrow> ('ec, 'rc, 'engine) reconcile \<Rightarrow> (string + duration) \<times> ('ec, 'rc, 'engine) reconcile" where
  "reconcileDelete v w st =
     (if Finalizer \<notin> set (finalizers (rs_serving st)) then (Inr 0, st)
      else and_then (remove_deployments v None) (\<lambda>_ st.
        let st = on_serving (\<lambda>s. set_finalizers (filter (\<lambda>f. f \<noteq> Finalizer) (finalizers s)) s) st in
        case update_Serving w (rs_serving st) of
          Written \<Rightarrow> (Inr 0, st)
        | WriteNotFound _ \<Rightarrow> (Inr 0, st)
        | WriteConflict m \<Rightarrow> (Inl m, st)
        | WriteFailed m \<Rightarrow> (Inl m, st)) st)"

text \<open>The result of the reconcile, and the status that is stored.\<close>

definition patchStatus ::
    "api_writes \<Rightarrow> Serving \<Rightarrow> ServingStatus \<Rightarrow> string + duration \<Rightarrow> (string + duration) \<times> ServingStatus" where
  "patchStatus w serving before result =
     (let serving = on_status (\<lambda>s. s\<lparr>ServingStatus_ObservedGeneration := om_Generation (Serving_ObjectMeta serving)\<rparr>) serving;
          failed = (\<lambda>m. (case join_errors [error_of result, Some (''failed to patch Serving status: '' @ m)] of
             Some e \<Rightarrow> Inl e | None \<Rightarrow> result, before))
      in if Serving_Status serving = before then (result, before)
         else case patch_Serving w serving before of
           Written \<Rightarrow> (result, Serving_Status serving)
         | WriteNotFound _ \<Rightarrow> (result, before)
         | WriteConflict m \<Rightarrow> (case result of Inr _ \<Rightarrow> (Inr second, before) | Inl _ \<Rightarrow> failed m)
         | WriteFailed m \<Rightarrow> failed m)"

definition reconcile_body :: "('trust, 'signer, 'client, 'scope, 'ec, 'rc, 'engine) services \<Rightarrow> api_reads \<Rightarrow> api_writes \<Rightarrow> ('ec, 'rc, 'engine) reconcile \<Rightarrow> (string + duration) \<times> ('ec, 'rc, 'engine) reconcile" where
  "reconcile_body v r w st =
     (if om_DeletionTimestamp (Serving_ObjectMeta (rs_serving st)) \<noteq> None then reconcileDelete v w st
      else if Finalizer \<in> set (finalizers (rs_serving st)) then reconcileServing v r st
      else let st = on_serving (\<lambda>s. set_finalizers (finalizers s @ [Finalizer]) s) st in
        case write_error (update_Serving w (rs_serving st)) of
          Some m \<Rightarrow> (Inl m, st)
        | None \<Rightarrow> reconcileServing v r st)"

text \<open>The outcome of a request: the result, the status stored afterwards if the Serving exists, and the state left.\<close>

definition Reconcile ::
    "('trust, 'signer, 'client, 'scope, 'ec, 'rc, 'engine) services \<Rightarrow> api_reads \<Rightarrow> api_writes \<Rightarrow> string \<Rightarrow> string \<Rightarrow> ('ec, 'rc, 'engine) reconcile \<Rightarrow> (string + duration) \<times> ServingStatus option \<times> ('ec, 'rc, 'engine) reconcile" where
  "Reconcile v r w namespace name st =
     (case get_Serving r namespace name of
        Inl (NotFound _) \<Rightarrow> (Inr 0, None, st)
      | Inl (GetFailed err) \<Rightarrow> (Inl (''failed to get Serving: '' @ err), None, st)
      | Inr serving \<Rightarrow>
         (case reconcile_body v r w (st\<lparr>rs_serving := serving\<rparr>) of
            (result, st) \<Rightarrow>
             (case patchStatus w (rs_serving st) (Serving_Status serving) result of
                (result, stored) \<Rightarrow> (result, Some stored, st))))"

section \<open>Watches\<close>

text \<open>
  Which Servings a change of another object reconciles. Lists by an index of the API are arguments: the
  Orders of a Product, the Orders that run after one, those of an Environment. A list that fails is logged
  and yields no request.
\<close>

type_synonym request = "string \<times> string"

record api_indexes =
  orders_of_product :: "string \<Rightarrow> string \<Rightarrow> string + Order list"
  orders_after :: "string \<Rightarrow> string \<Rightarrow> string + Order list"
  orders_of_environment :: "string \<Rightarrow> string \<Rightarrow> string + Order list"
  servings_in :: "string \<Rightarrow> string + Serving list"
  all_servings :: "string + Serving list"
  environments_in :: "string \<Rightarrow> string + Environment list"
  all_environments :: "string + Environment list"

definition order_key :: "Order \<Rightarrow> request" where
  "order_key o1 = (om_Namespace (Order_ObjectMeta o1), om_Name (Order_ObjectMeta o1))"

definition serving_key :: "Serving \<Rightarrow> request" where
  "serving_key s = (serving_namespace s, om_Name (Serving_ObjectMeta s))"

definition listed_keys :: "('a \<Rightarrow> request) \<Rightarrow> string + 'a list \<Rightarrow> request list" where
  "listed_keys key found = (case found of Inl _ \<Rightarrow> [] | Inr xs \<Rightarrow> map key xs)"

datatype watched = WatchedOrder Order | WatchedPreparation Preparation

fun enqueueServingForOrderName :: "watched \<Rightarrow> request list" where
  "enqueueServingForOrderName (WatchedOrder o1) = [order_key o1]"
| "enqueueServingForOrderName (WatchedPreparation p) = [(preparation_namespace p, PreparationSpec_OrderName (Preparation_Spec p))]"

definition enqueueServingsOfProduct :: "api_indexes \<Rightarrow> Product \<Rightarrow> request list" where
  "enqueueServingsOfProduct x product =
     listed_keys order_key (orders_of_product x (om_Namespace (Product_ObjectMeta product)) (om_Name (Product_ObjectMeta product)))"

definition enqueueDownstreamServings :: "api_indexes \<Rightarrow> Serving \<Rightarrow> request list" where
  "enqueueDownstreamServings x serving = listed_keys order_key (orders_after x (serving_namespace serving) (order_name serving))"

definition historyChanged :: "Serving \<Rightarrow> Serving \<Rightarrow> bool" where
  "historyChanged old new = (ServingStatus_History (Serving_Status old) \<noteq> ServingStatus_History (Serving_Status new))"

definition productScansChanged :: "Product \<Rightarrow> Product \<Rightarrow> bool" where
  "productScansChanged old new = (ProductStatus_Vulnerabilities (Product_Status old) \<noteq> ProductStatus_Vulnerabilities (Product_Status new))"

definition enqueueServingsOfRegistry :: "api_indexes \<Rightarrow> Registry \<Rightarrow> request list" where
  "enqueueServingsOfRegistry x reg = listed_keys serving_key (servings_in x (om_Namespace (Registry_ObjectMeta reg)))"

definition enqueueAllServings :: "api_indexes \<Rightarrow> request list" where
  "enqueueAllServings x = listed_keys serving_key (all_servings x)"

definition servingsOfEnvironments :: "api_indexes \<Rightarrow> string \<Rightarrow> string list \<Rightarrow> request list" where
  "servingsOfEnvironments x namespace names =
     concat (map (\<lambda>name. listed_keys order_key (orders_of_environment x namespace name)) names)"

definition enqueueServingsOfEnvironment :: "api_indexes \<Rightarrow> Environment \<Rightarrow> request list" where
  "enqueueServingsOfEnvironment x env =
     servingsOfEnvironments x (om_Namespace (Environment_ObjectMeta env)) [om_Name (Environment_ObjectMeta env)]"

definition enqueueServingsOfCluster ::
    "(label_selector \<Rightarrow> string + ((string \<times> string) list \<Rightarrow> bool)) \<Rightarrow> api_indexes \<Rightarrow> Cluster \<Rightarrow> request list" where
  "enqueueServingsOfCluster as_selector x c =
     (let ns = om_Namespace (Cluster_ObjectMeta c) in
      case environments_in x ns of
        Inl _ \<Rightarrow> []
      | Inr environments \<Rightarrow> servingsOfEnvironments x ns
          (map (\<lambda>env. om_Name (Environment_ObjectMeta env))
            (filter (\<lambda>env. case ClusterSelectionOf as_selector env of Inr selection \<Rightarrow> Matches selection c | Inl _ \<Rightarrow> False) environments)))"

definition servingsOfProject :: "api_indexes \<Rightarrow> string \<Rightarrow> request list" where
  "servingsOfProject x project =
     (case all_environments x of
        Inl _ \<Rightarrow> []
      | Inr environments \<Rightarrow> concat (map (\<lambda>env.
          case Deployer_ArgoCD (EnvironmentSpec_Deployer (Environment_Spec env)) of
            Some a \<Rightarrow> if ArgoCDDeployer_Project a = project
              then servingsOfEnvironments x (om_Namespace (Environment_ObjectMeta env)) [om_Name (Environment_ObjectMeta env)] else []
          | None \<Rightarrow> []) environments))"

end
