(* ===== verification/Serving_Safety.thy ===== *)
theory Serving_Safety
  imports Serving_Controller
begin

text \<open>
  What a reconcile of a Serving may do: a Preparation is promoted only after every gate of it passed, with
  its promotion on record; whatever holds it or fails leaves what is deployed alone; and the history only
  takes the steps of \<open>history_step\<close>, so that it stays well-formed for ever.
\<close>

section \<open>What leaves the history alone\<close>

abbreviation rs_history :: "('ec, 'rc, 'engine) reconcile \<Rightarrow> history" where
  "rs_history st \<equiv> historyOf (rs_serving st)"

lemma historyOf_conditions [simp]: "historyOf (Serving_SetConditions cs s) = historyOf s"
  by (simp add: historyOf_def Serving_SetConditions_def)

lemma historyOf_marks [simp]:
  "historyOf (Set_condition lib serving_setter s t status reason message) = historyOf s"
  "historyOf (mark_true v t reason message s) = historyOf s"
  "historyOf (mark_false v t reason message s) = historyOf s"
  "historyOf (mark_unknown v t reason message s) = historyOf s"
  "historyOf (remove_mark v t s) = historyOf s"
  "historyOf (markPending lib s message) = historyOf s"
  "historyOf (markDeploymentFailed lib s message) = historyOf s"
  by (simp_all add: mark_true_def mark_false_def mark_unknown_def remove_mark_def mark_defs markPending_def markDeploymentFailed_def)

lemma historyOf_markHeld [simp]: "historyOf (markHeld lib s held) = historyOf s"
  by (auto simp: markHeld_def split: option.splits)

lemma historyOf_status [simp]:
  "historyOf (setTargetPreparation s name) = historyOf s"
  "historyOf (set_vulnerabilities summary s) = historyOf s"
  "historyOf (setTargets lib s deployed targets states) = historyOf s"
  by (simp_all add: historyOf_def setTargetPreparation_def set_vulnerabilities_def setTargets_eq on_status_def)

lemma historyOf_mark_deployment [simp]: "historyOf (mark_deployment v deployed targets ob s) = historyOf s"
  by (auto simp: mark_deployment_def markDeployment_def Let_def MarkTrue_def MarkUnknown_def split: option.splits)

lemma historyOf_mark_ready [simp]: "historyOf (mark_ready v reason msg held s) = historyOf s"
  by (simp add: mark_ready_def)

lemma rs_serving_on_serving [simp]: "rs_serving (on_serving f st) = f (rs_serving st)"
  by (simp add: on_serving_def)

lemma on_serving_simps [simp]:
  "rs_ticks (on_serving f st) = rs_ticks st"
  "rs_engine (on_serving f st) = rs_engine st"
  "rs_evidence (on_serving f st) = rs_evidence st"
  "rs_records (on_serving f st) = rs_records st"
  "rs_events (on_serving f st) = rs_events st"
  by (simp_all add: on_serving_def)

lemma clock_eq [simp]: "clock v st = (sv_clock v (rs_ticks st), st\<lparr>rs_ticks := rs_ticks st + 1\<rparr>)"
  by (simp add: clock_def)

text \<open>The time only advances, and what a Serving is named stays.\<close>

lemma serving_spec_setter [simp]:
  "Serving_ObjectMeta (Set_condition lib serving_setter s t status reason message) = Serving_ObjectMeta s"
  "Serving_Spec (Set_condition lib serving_setter s t status reason message) = Serving_Spec s"
  by (simp_all add: Set_condition_def Serving_SetConditions_def)

definition keeps :: "('ec, 'rc, 'engine) reconcile \<Rightarrow> ('ec, 'rc, 'engine) reconcile \<Rightarrow> bool" where
  "keeps st st' \<longleftrightarrow> rs_history st' = rs_history st \<and> rs_ticks st \<le> rs_ticks st'
     \<and> Serving_ObjectMeta (rs_serving st') = Serving_ObjectMeta (rs_serving st) \<and> Serving_Spec (rs_serving st') = Serving_Spec (rs_serving st)"

lemma keeps_refl [simp]: "keeps st st"
  by (simp add: keeps_def)

lemma keeps_trans: "keeps st st' \<Longrightarrow> keeps st' st'' \<Longrightarrow> keeps st st''"
  by (simp add: keeps_def)

lemma same_identity [simp]:
  "Serving_ObjectMeta (mark_true v t reason message s) = Serving_ObjectMeta s" "Serving_Spec (mark_true v t reason message s) = Serving_Spec s"
  "Serving_ObjectMeta (mark_false v t reason message s) = Serving_ObjectMeta s" "Serving_Spec (mark_false v t reason message s) = Serving_Spec s"
  "Serving_ObjectMeta (mark_unknown v t reason message s) = Serving_ObjectMeta s" "Serving_Spec (mark_unknown v t reason message s) = Serving_Spec s"
  "Serving_ObjectMeta (remove_mark v t s) = Serving_ObjectMeta s" "Serving_Spec (remove_mark v t s) = Serving_Spec s"
  "Serving_ObjectMeta (setTargetPreparation s name) = Serving_ObjectMeta s" "Serving_Spec (setTargetPreparation s name) = Serving_Spec s"
  "Serving_ObjectMeta (set_vulnerabilities summary s) = Serving_ObjectMeta s" "Serving_Spec (set_vulnerabilities summary s) = Serving_Spec s"
  "Serving_ObjectMeta (setHistory s h) = Serving_ObjectMeta s" "Serving_Spec (setHistory s h) = Serving_Spec s"
  by (simp_all add: mark_true_def mark_false_def mark_unknown_def remove_mark_def MarkTrue_def MarkFalse_def MarkUnknown_def
      Remove_condition_def Serving_SetConditions_def setTargetPreparation_def set_vulnerabilities_def setHistory_def on_status_def)

lemma same_identity_marks [simp]:
  "Serving_ObjectMeta (markHeld lib s held) = Serving_ObjectMeta s" "Serving_Spec (markHeld lib s held) = Serving_Spec s"
  "Serving_ObjectMeta (setTargets lib s deployed targets states) = Serving_ObjectMeta s"
  "Serving_Spec (setTargets lib s deployed targets states) = Serving_Spec s"
  by (simp_all add: markHeld_def setTargets_eq on_status_def split: option.split)

lemma same_identity_ready [simp]:
  "Serving_ObjectMeta (mark_ready v reason msg held s) = Serving_ObjectMeta s"
  "Serving_Spec (mark_ready v reason msg held s) = Serving_Spec s"
  by (simp_all add: mark_ready_def)

lemma gate_keeps: "keeps st (snd (gate v r p target st))"
  by (auto simp: gate_def keeps_def Let_def split: sum.splits)

lemma verifyDeployment_keeps: "keeps st (snd (verifyDeployment v r ns q st))"
  by (auto simp: verifyDeployment_def keeps_def Let_def split: sum.splits prod.splits)

lemma verify_qualified_keeps: "keeps st (snd (verify_qualified v r ns qs st))"
proof (induction qs arbitrary: st)
  case (Cons q qs)
  obtain result st1 where v: "verifyDeployment v r ns q st = (result, st1)" by fastforce
  have "keeps st st1" using verifyDeployment_keeps [of st v r ns q] v by simp
  then show ?case using Cons.IH [of st1] v by (auto simp: v split: option.splits intro: keeps_trans)
qed simp

lemma evaluate_upstream_keeps: "keeps st (snd (evaluate_upstream v r p req st))"
proof -
  obtain failed st1 where q: "verify_qualified v r (serving_namespace (rs_serving st)) (g_Qualified (gate_Evaluate req)) st = (failed, st1)"
    by fastforce
  have "keeps st st1" using verify_qualified_keeps [of st v r] q by (metis snd_conv)
  then show ?thesis by (auto simp: evaluate_upstream_def Let_def q keeps_def split: option.splits prod.splits)
qed

lemma upstream_gate_keeps: "keeps st (snd (upstream_gate v r order p h st))"
proof -
  have tick: "keeps st (snd (evaluate_upstream v r p req (st\<lparr>rs_ticks := Suc (rs_ticks st)\<rparr>)))" for req
    using evaluate_upstream_keeps [of "st\<lparr>rs_ticks := Suc (rs_ticks st)\<rparr>" v r p req] by (simp add: keeps_def)
  show ?thesis
    using tick by (auto simp: upstream_gate_def Let_def keeps_def split: sum.splits prod.splits)
qed

lemma verify_keeps: "keeps st (snd (verify v r p st))"
  by (auto simp: verify_def keeps_def Let_def split: sum.splits prod.splits option.splits evidence_failure.splits)

lemma evaluateVulnerabilities_keeps: "keeps st (snd (evaluateVulnerabilities v r p c st))"
  by (auto simp: evaluateVulnerabilities_def keeps_def Let_def split: sum.splits option.splits)

lemma checks_keeps: "keeps st (snd (checks v r p st))"
proof (cases "vulnerabilities_of p")
  case None
  then show ?thesis by (simp add: checks_def keeps_def)
next
  case (Some c)
  obtain res st1 where e: "evaluateVulnerabilities v r p c st = (res, st1)" by fastforce
  have "keeps st st1" using evaluateVulnerabilities_keeps [of st v r p c] e by simp
  then show ?thesis using Some e by (auto simp: checks_def and_then_def keeps_def Let_def split: sum.splits prod.splits)
qed


text \<open>Most steps leave the caches of the verifiers alone as well.\<close>

definition steady :: "('ec, 'rc, 'engine) reconcile \<Rightarrow> ('ec, 'rc, 'engine) reconcile \<Rightarrow> bool" where
  "steady st st' \<longleftrightarrow> keeps st st' \<and> rs_evidence st' = rs_evidence st \<and> rs_records st' = rs_records st"

lemma steady_keeps: "steady st st' \<Longrightarrow> keeps st st'"
  by (simp add: steady_def)

lemma steady_refl [simp]: "steady st st"
  by (simp add: steady_def)

lemma steady_trans: "steady st st' \<Longrightarrow> steady st' st'' \<Longrightarrow> steady st st''"
  by (auto simp: steady_def intro: keeps_trans)

lemma remove_all_steady: "steady st (snd (remove_all v ds keep st))"
proof (induction ds arbitrary: st)
  case (Cons d ds)
  obtain removed err engine where e: "en_Remove d (rs_serving st) keep (rs_engine st) = ((removed, err), engine)"
    by (metis surj_pair)
  let ?st = "st\<lparr>rs_engine := engine, rs_events := rs_events st @ (if keep \<noteq> None \<and> sv_records_events v then map Undeployed removed else [])\<rparr>"
  have step: "steady st ?st" by (simp add: steady_def keeps_def)
  show ?case
  proof (cases err)
    case None
    then show ?thesis using steady_trans [OF step Cons.IH [of ?st]] by (simp add: e Let_def)
  qed (use step in \<open>simp add: e Let_def\<close>)
qed simp

lemma remove_deployments_steady: "steady st (snd (remove_deployments v keep st))"
  by (simp add: remove_deployments_def remove_all_steady)

lemma steady_engine: "steady (st\<lparr>rs_engine := e\<rparr>) st' \<Longrightarrow> steady st st'"
  by (simp add: steady_def keeps_def)

lemma and_then_steady:
  fixes m :: "('ec, 'rc, 'engine) reconcile \<Rightarrow> (string + 'a) \<times> ('ec, 'rc, 'engine) reconcile"
    and f :: "'a \<Rightarrow> ('ec, 'rc, 'engine) reconcile \<Rightarrow> (string + 'b) \<times> ('ec, 'rc, 'engine) reconcile"
  assumes "steady st (snd (m st))" and "\<And>x st'. steady st' (snd (f x st'))"
  shows "steady st (snd (and_then m f st))"
proof -
  obtain x st' where m: "m st = (x, st')" by fastforce
  then show ?thesis using assms(1) assms(2) [of st'] by (auto simp: and_then_def split: sum.splits intro: steady_trans)
qed

lemma apply_loop_steady: "steady st (snd (apply_loop d env deployed targets states st))"
proof (induction targets arbitrary: states st)
  case (Cons target targets)
  show ?case
  proof (cases "tg_holdReason target = []")
    case False
    then show ?thesis using Cons.IH by (auto intro!: and_then_steady)
  next
    case True
    obtain x engine where e: "en_Apply d env (rs_serving st) deployed target (rs_engine st) = (x, engine)" by fastforce
    show ?thesis
    proof (cases x)
      case (Inl err)
      then show ?thesis using True by (simp add: e steady_def keeps_def)
    next
      case (Inr state)
      have "steady (st\<lparr>rs_engine := engine\<rparr>) (snd (apply_loop d env deployed (target # targets) states st))"
        using True Cons.IH by (simp add: e Inr Let_def and_then_steady split_beta)
      then show ?thesis by (rule steady_engine)
    qed
  qed
qed simp

lemma applyTargets_steady: "steady st (snd (applyTargets v env deployed targets st))"
  by (auto simp: applyTargets_def intro!: and_then_steady apply_loop_steady remove_deployments_steady)

lemma recordDeployedVulnerabilities_steady: "steady st (snd (recordDeployedVulnerabilities v r deployed st))"
  by (auto simp: recordDeployedVulnerabilities_def steady_def keeps_def Let_def split: sum.splits option.splits read_failure.splits prod.splits)

section \<open>Promoting only what passed its gates\<close>

text \<open>The gates of a promotion passed one after the other, each from the state the one before left.\<close>

definition gates_passed ::
    "('trust, 'signer, 'client, 'scope, 'ec, 'rc, 'engine) services \<Rightarrow> api_reads \<Rightarrow> Order \<Rightarrow> Preparation \<Rightarrow> ('ec, 'rc, 'engine) reconcile \<Rightarrow>
     gate_result \<Rightarrow> checksVerdict \<Rightarrow> ('ec, 'rc, 'engine) reconcile \<Rightarrow> bool" where
  "gates_passed v r order candidate st upstream c st' \<longleftrightarrow>
     is_condition_true (sv_conditions v) (preparation_conditions candidate) ConditionTypeReady \<and> Satisfied upstream \<and> cv_passed c
     \<and> (\<exists>st1 st2 st3. upstream_gate v r order candidate (Drop (rs_history st)) st = (Inr upstream, st1)
        \<and> checks v r candidate st1 = (Inr c, st2) \<and> gate v r candidate True st2 = (Inr True, st3)
        \<and> verify v r candidate st3 = (Inr True, st'))"

text \<open>The history after deciding on a candidate, when it is not the history before.\<close>

definition decided ::
    "('trust, 'signer, 'client, 'scope, 'ec, 'rc, 'engine) services \<Rightarrow> api_reads \<Rightarrow> Order \<Rightarrow> Preparation \<Rightarrow> history \<Rightarrow> gate_result \<Rightarrow> checksVerdict \<Rightarrow>
     ('ec, 'rc, 'engine) reconcile \<Rightarrow> history \<Rightarrow> bool" where
  "decided v r order candidate h upstream c st h' \<longleftrightarrow>
     Next (preparation_name candidate) h = StepOpen \<and> h' = Open (entryOf candidate) (sv_clock v (rs_ticks st)) h
   \<or> Next (preparation_name candidate) h = StepRecord
     \<and> (\<exists>promotion_record. recordPromotion v r (rs_serving st) order candidate h upstream c = Inr promotion_record
         \<and> h' = Start promotion_record h)"

lemma historyOf_setHistory_on [simp]: "rs_history (on_serving (\<lambda>s. setHistory s h) st) = h"
  by simp

lemma promote_verified_outcome:
  assumes "promote_verified v r order candidate h upstream c verified st = (result, st')" "rs_history st = h"
  shows "rs_ticks st \<le> rs_ticks st' \<and> (rs_history st' = h \<or> rs_history st' = Drop h
     \<or> verified \<and> Next (preparation_name candidate) h \<noteq> StepDeployed \<and> decided v r order candidate h upstream c st (rs_history st'))"
  using assms
  by (cases "Next (preparation_name candidate) h")
    (auto simp: promote_verified_def Let_def hold_def decided_def split: if_splits sum.splits)

lemma promote_checked_outcome:
  assumes p: "promote_checked v r order candidate h upstream c st = (result, st')" and h: "rs_history st = h"
  shows "rs_ticks st \<le> rs_ticks st' \<and> (rs_history st' = h \<or> rs_history st' = Drop h
     \<or> Satisfied upstream \<and> cv_passed c
       \<and> (\<exists>st1 st2. gate v r candidate True st = (Inr True, st1) \<and> verify v r candidate st1 = (Inr True, st2)
          \<and> rs_ticks st2 \<le> rs_ticks st' \<and> decided v r order candidate h upstream c st2 (rs_history st')))"
proof -
  define current where "current = (Next (preparation_name candidate) h = StepDeployed)"
  define target where "target = (current \<or> Satisfied upstream \<and> cv_passed c)"
  obtain g st1 where g: "gate v r candidate target st = (g, st1)" by fastforce
  have h1: "rs_history st1 = h" and t1: "rs_ticks st \<le> rs_ticks st1"
    using gate_keeps [of st v r candidate target] g h by (simp_all add: keeps_def)
  show ?thesis
  proof (cases "\<exists>approved. g = Inr approved \<and> target \<and> (approved \<or> current)")
    case False
    then show ?thesis using p h1 t1
      by (cases g) (auto simp: promote_checked_def Let_def and_then_def g current_def [symmetric] target_def [symmetric] hold_def split: if_splits)
  next
    case True
    then obtain approved where a: "g = Inr approved" "target" "approved \<or> current" by blast
    obtain y st2 where y: "verify v r candidate st1 = (y, st2)" by fastforce
    have h2: "rs_history st2 = h" and t2: "rs_ticks st \<le> rs_ticks st2"
      using verify_keeps [of st1 v r candidate] y h1 t1 by (simp_all add: keeps_def)
    have p2: "(case y of Inl err \<Rightarrow> (Inl err, st2) | Inr verified \<Rightarrow> promote_verified v r order candidate h upstream c verified st2) = (result, st')"
    proof -
      have gT: "gate v r candidate True st = (Inr approved, st1)" using g a(1,2) by simp
      have t: "(current \<or> Satisfied upstream \<and> cv_passed c) = True" using a(2) by (simp add: target_def)
      have n: "(\<not> approved \<and> \<not> current) = False" using a(3) by blast
      show ?thesis
        using p by (simp only: promote_checked_def Let_def and_then_def current_def [symmetric] t gT y n prod.case sum.case not_True_eq_False if_False)
    qed
    show ?thesis
    proof (cases y)
      case (Inl err)
      then show ?thesis using p2 h2 t2 by auto
    next
      case (Inr verified)
      have v2: "promote_verified v r order candidate h upstream c verified st2 = (result, st')" using p2 Inr by simp
      note out = promote_verified_outcome [OF v2 h2]
      then have t3: "rs_ticks st2 \<le> rs_ticks st'" by blast
      from out [THEN conjunct2] show ?thesis
      proof (elim disjE)
        assume d: "verified \<and> Next (preparation_name candidate) h \<noteq> StepDeployed \<and> decided v r order candidate h upstream c st2 (rs_history st')"
        then have "\<not> current" by (simp add: current_def)
        then show ?thesis using a d g y Inr t2 t3 by (auto simp: target_def)
      qed (use t2 t3 in auto)
    qed
  qed
qed

lemma promote_outcome:
  assumes p: "promote v r order candidate st = (result, st')"
  shows "rs_ticks st \<le> rs_ticks st' \<and> (rs_history st' = rs_history st \<or> rs_history st' = Drop (rs_history st)
     \<or> (\<exists>upstream c st1. gates_passed v r order candidate st upstream c st1 \<and> rs_ticks st1 \<le> rs_ticks st'
         \<and> decided v r order candidate (rs_history st) upstream c st1 (rs_history st')))"
proof (cases "is_condition_true (sv_conditions v) (preparation_conditions candidate) ConditionTypeReady")
  case False
  then show ?thesis using p by (auto simp: promote_def Let_def hold_def)
next
  case True
  let ?h = "rs_history st"
  obtain u st1 where u: "upstream_gate v r order candidate (Drop ?h) st = (u, st1)" by fastforce
  have h1: "rs_history st1 = ?h" and t1: "rs_ticks st \<le> rs_ticks st1"
    using upstream_gate_keeps [of st v r order candidate "Drop ?h"] u by (simp_all add: keeps_def)
  obtain c st2 where c: "checks v r candidate st1 = (c, st2)" by fastforce
  have h2: "rs_history st2 = ?h" and t2: "rs_ticks st1 \<le> rs_ticks st2"
    using checks_keeps [of st1 v r candidate] c h1 by (simp_all add: keeps_def)
  show ?thesis
  proof (cases "\<exists>upstream verdict. u = Inr upstream \<and> c = Inr verdict")
    case False
    then show ?thesis using p True h1 h2 t1 t2
      by (cases u; cases c) (auto simp: promote_def Let_def and_then_def u c)
  next
    case both: True
    then obtain upstream verdict where uc: "u = Inr upstream" "c = Inr verdict" by blast
    have "promote_checked v r order candidate ?h upstream verdict st2 = (result, st')"
      using p True uc by (simp add: promote_def Let_def and_then_def u c)
    note out = promote_checked_outcome [OF this h2]
    have "rs_ticks st \<le> rs_ticks st'" using out t1 t2 by linarith
    then show ?thesis using out [THEN conjunct2] True u c uc by (auto simp: gates_passed_def)
  qed
qed


text \<open>What each gate has seen when it lets a candidate through.\<close>

lemma gate_approved:
  assumes "gate v r p True st = (Inr True, st')"
  shows "\<exists>approvals. list_Approvals r (preparation_namespace p) (preparation_name p) = Inr approvals
     \<and> \<not> gd_Blocked (approval_Gate (is_condition_true (sv_conditions v)) p approvals)"
  using assms by (auto simp: gate_def Let_def split: sum.splits)

lemma evaluateVulnerabilities_passes:
  assumes "evaluateVulnerabilities v r p check st = (Inr (verdict, as), st')" "d_Outcome verdict = OutcomePassed"
  shows "\<exists>product interval. productOf r (rs_serving st) = Inr (Some product) \<and> scanInterval v r = Inr interval
     \<and> as = Read (releaseImagesOf p product) (sv_read_report v (reportAccess v product))
     \<and> (\<forall>a\<in>set as. image_passes (vulnerability_check check interval) (sv_clock v (rs_ticks st)) a)"
  using assms by (auto simp: evaluateVulnerabilities_def Let_def passes_iff [symmetric] passes_def split: sum.splits option.splits)

lemma checks_passed:
  assumes "checks v r p st = (Inr c, st')" "cv_passed c" "vulnerabilities_of p = Some check"
  shows "\<exists>product interval. productOf r (rs_serving st) = Inr (Some product) \<and> scanInterval v r = Inr interval
     \<and> (\<forall>a\<in>set (Read (releaseImagesOf p product) (sv_read_report v (reportAccess v product))).
         image_passes (vulnerability_check check interval) (sv_clock v (rs_ticks st)) a)"
proof -
  obtain x st1 where e: "evaluateVulnerabilities v r p check st = (x, st1)" by fastforce
  then obtain verdict as where x: "x = Inr (verdict, as)" "d_Outcome verdict = OutcomePassed"
    using assms by (cases x) (auto simp: checks_def and_then_def Let_def split: if_splits prod.splits)
  then show ?thesis using evaluateVulnerabilities_passes [of v r p check st verdict as st1] e by blast
qed

lemma verify_verified:
  assumes "verify v r p st = (Inr True, st')"
  shows "\<exists>state connected cache. sv_signing v = Inr state
     \<and> Verifier_Verify (sv_evidence v) (st_Trust state) p (serving_namespace (rs_serving st) @ ''/'' @ order_name (rs_serving st))
         (connected :: registry_error + 'client) (rs_evidence st) = (None, cache)"
  using assms by (auto simp: verify_def Let_def split: sum.splits prod.splits option.splits evidence_failure.splits if_splits)

lemma recordPromotion_pushed:
  assumes "recordPromotion v r s order p h upstream c = Inr promotion_record"
  shows "\<exists>state client. sv_signing v = Inr state
     \<and> connect v r (serving_namespace s) (order_name s) (Artifact_RegistryRef (preparation_artifact p)) (Artifact_OCIRef (preparation_artifact p)) = Inr client
     \<and> PushPromotion (sv_writer v client (st_Signer state)) (serving_namespace s @ ''/'' @ order_name s)
         (mode_name (EffectivePromotionMode order)) h (promotion_gates (serving_namespace s) p upstream c) = Inr promotion_record"
  using assms by (auto simp: recordPromotion_def Let_def split: sum.splits)

lemma keeps_names:
  assumes "keeps st st'"
  shows "serving_namespace (rs_serving st') = serving_namespace (rs_serving st)" "order_name (rs_serving st') = order_name (rs_serving st)"
    and "productOf r (rs_serving st') = productOf r (rs_serving st)"
proof -
  show names: "serving_namespace (rs_serving st') = serving_namespace (rs_serving st)" "order_name (rs_serving st') = order_name (rs_serving st)"
    using assms by (simp_all add: keeps_def)
  show "productOf r (rs_serving st') = productOf r (rs_serving st)" unfolding productOf_def names by (rule refl)
qed

lemma gates_passed_keeps:
  assumes "gates_passed v r order candidate st upstream c st'"
  shows "keeps st st'"
proof -
  obtain st1 st2 st3 where s: "upstream_gate v r order candidate (Drop (rs_history st)) st = (Inr upstream, st1)"
    "checks v r candidate st1 = (Inr c, st2)" "gate v r candidate True st2 = (Inr True, st3)" "verify v r candidate st3 = (Inr True, st')"
    using assms by (auto simp: gates_passed_def)
  have "keeps st st1" "keeps st1 st2" "keeps st2 st3" "keeps st3 st'"
    using upstream_gate_keeps [of st v r order candidate "Drop (rs_history st)"] checks_keeps [of st1 v r candidate]
      gate_keeps [of st2 v r candidate True] verify_keeps [of st3 v r candidate] s by simp_all
  then show ?thesis by (blast intro: keeps_trans)
qed

text \<open>Once its gates passed, a candidate is promoted, in two passes.\<close>

lemma promote_passed:
  assumes "gates_passed v r order candidate st upstream c st1"
  shows "promote v r order candidate st = promote_verified v r order candidate (rs_history st) upstream c True st1"
proof -
  obtain s1 s2 s3 where s: "upstream_gate v r order candidate (Drop (rs_history st)) st = (Inr upstream, s1)"
    "checks v r candidate s1 = (Inr c, s2)" "gate v r candidate True s2 = (Inr True, s3)" "verify v r candidate s3 = (Inr True, st1)"
    and ok: "Satisfied upstream" "cv_passed c" "is_condition_true (sv_conditions v) (preparation_conditions candidate) ConditionTypeReady"
    using assms by (auto simp: gates_passed_def)
  have "promote_checked v r order candidate (rs_history st) upstream c s2 = promote_verified v r order candidate (rs_history st) upstream c True st1"
    using ok by (simp add: promote_checked_def Let_def and_then_def s)
  then show ?thesis using ok by (simp add: promote_def Let_def and_then_def s)
qed

text \<open>The Preparation that is deployed.\<close>

abbreviation deployed_name :: "history \<Rightarrow> string option" where
  "deployed_name h \<equiv> map_option e_Preparation (Deployed h)"

lemma promote_changes_deployed:
  assumes "history_wf (rs_history st)" "promote v r order candidate st = (result, st')"
    and "deployed_name (rs_history st') \<noteq> deployed_name (rs_history st)"
  shows "Next (preparation_name candidate) (rs_history st) = StepRecord
    \<and> (\<exists>upstream c st1 promotion_record. gates_passed v r order candidate st upstream c st1
       \<and> recordPromotion v r (rs_serving st1) order candidate (rs_history st) upstream c = Inr promotion_record
       \<and> rs_history st' = Start promotion_record (rs_history st))"
  using promote_outcome [OF assms(2)] assms(1,3) Deployed_Open [OF assms(1)] by (auto simp: decided_def)

lemma deployed_name_supersede: "deployed_name (supersede t h) = deployed_name h"
  by (induction h) (auto simp: Promoted_def)

lemma Deployed_Start:
  assumes "Next c h = StepRecord" "deployed_name (Start r h) \<noteq> deployed_name h"
  shows "\<exists>e. Deployed (Start r h) = Some e \<and> e_Preparation e = c \<and> e_PromotionRecord e = r \<and> r \<noteq> []"
proof -
  obtain p where p: "Pending h = Some p" "e_Preparation p = c" using assms(1) by (auto simp: Next_record_iff)
  then obtain h' where h: "h = p # h'" "\<not> Promoted p" by (cases h) (auto split: if_splits)
  have "r \<noteq> []"
  proof
    assume "r = []"
    then have "deployed_name (Start r h) = deployed_name h" using h by (simp add: Start_def Promoted_def deployed_name_supersede)
    then show False using assms(2) by simp
  qed
  then show ?thesis using h p by (simp add: Start_def Promoted_def)
qed

section \<open>What the caches of the verifiers hold\<close>

text \<open>
  What is assumed of the caches and of the trust sets: a cache holds only keys that were added to it, and
  trust sets with one identity trust the same. The digests of upstream deployments are digests.
\<close>

definition services_trusted ::
    "('trust, 'signer, 'client, 'scope, 'ec, 'rc, 'engine) services \<Rightarrow> ('ec \<Rightarrow> verified_key set) \<Rightarrow> ('rc \<Rightarrow> record_key set) \<Rightarrow> bool" where
  "services_trusted v keys rkeys \<longleftrightarrow>
     cache_laws (ev_get (sv_evidence v)) (ev_add (sv_evidence v)) keys \<and> same_trust (sv_evidence v)
     \<and> cache_laws (lru_get (sv_records v)) (lru_add (sv_records v)) rkeys \<and> trust_identified (sv_records v)"

definition histories_digested :: "api_reads \<Rightarrow> bool" where
  "histories_digested r \<longleftrightarrow> (\<forall>ns name s. get_Serving r ns name = Inr s \<longrightarrow> (\<forall>e\<in>set (historyOf s). CHR ''@'' \<notin> set (e_Digest e)))"

text \<open>Both caches hold only what verified.\<close>

definition caches_sound ::
    "('trust, 'signer, 'client, 'scope, 'ec, 'rc, 'engine) services \<Rightarrow> ('ec \<Rightarrow> verified_key set) \<Rightarrow> ('rc \<Rightarrow> record_key set) \<Rightarrow>
     ('ec, 'rc, 'engine) reconcile \<Rightarrow> bool" where
  "caches_sound v keys rkeys st \<longleftrightarrow>
     (\<forall>k\<in>keys (rs_evidence st). good_key (sv_evidence v) k) \<and> cache_sound (sv_records v) rkeys (rs_records st)"

lemma caches_sound_simps [simp]:
  "caches_sound v keys rkeys (on_serving f st) = caches_sound v keys rkeys st"
  "caches_sound v keys rkeys (st\<lparr>rs_ticks := n\<rparr>) = caches_sound v keys rkeys st"
  "caches_sound v keys rkeys (st\<lparr>rs_engine := e\<rparr>) = caches_sound v keys rkeys st"
  "caches_sound v keys rkeys (st\<lparr>rs_events := ev\<rparr>) = caches_sound v keys rkeys st"
  "caches_sound v keys rkeys (st\<lparr>rs_serving := s\<rparr>) = caches_sound v keys rkeys st"
  by (simp_all add: caches_sound_def)

lemma verifyDeployment_sound:
  assumes "services_trusted v keys rkeys" "caches_sound v keys rkeys st" "CHR ''@'' \<notin> set (e_Digest (q_Entry q))"
    and "verifyDeployment v r ns q st = (failure, st')"
  shows "caches_sound v keys rkeys st'"
    and "failure = None \<Longrightarrow> \<exists>state. sv_signing v = Inr state
      \<and> attests (sv_records v) (st_Trust state) (ns @ ''/'' @ s_Order (q_Stage q)) (q_Entry q)"
proof -
  have "caches_sound v keys rkeys st' \<and> (failure = None \<longrightarrow> (\<exists>state. sv_signing v = Inr state
      \<and> attests (sv_records v) (st_Trust state) (ns @ ''/'' @ s_Order (q_Stage q)) (q_Entry q)))"
  proof (cases "sv_signing v")
    case (Inl err)
    then show ?thesis using assms(2,4) by (auto simp: verifyDeployment_def)
  next
    case (Inr state)
    let ?order = "ns @ ''/'' @ s_Order (q_Stage q)"
    let ?connected = "connect v r ns (s_Order (q_Stage q)) (registryRef (e_Registry (q_Entry q))) (e_OCIRef (q_Entry q))"
    obtain result cache where c: "RecordVerifier_Verify (sv_records v) (st_Trust state) ?order (q_Entry q) ?connected (rs_records st) = (result, cache)"
      by fastforce
    have "cache_sound (sv_records v) rkeys cache \<and> (result = None \<longrightarrow> attests (sv_records v) (st_Trust state) ?order (q_Entry q))"
      using assms(1,2) by (intro RecordVerifier_step [where keys = rkeys, OF _ _ _ assms(3) c]) (simp_all add: services_trusted_def caches_sound_def)
    then show ?thesis using assms(2,4) Inr c
      by (auto simp: verifyDeployment_def Let_def caches_sound_def split: option.splits)
  qed
  then show "caches_sound v keys rkeys st'"
    and "failure = None \<Longrightarrow> \<exists>state. sv_signing v = Inr state
      \<and> attests (sv_records v) (st_Trust state) (ns @ ''/'' @ s_Order (q_Stage q)) (q_Entry q)" by simp_all
qed

lemma verify_qualified_sound:
  assumes "services_trusted v keys rkeys"
  shows "caches_sound v keys rkeys st \<Longrightarrow> \<forall>q\<in>set qs. CHR ''@'' \<notin> set (e_Digest (q_Entry q)) \<Longrightarrow>
    verify_qualified v r ns qs st = (failed, st') \<Longrightarrow>
    caches_sound v keys rkeys st' \<and> (failed = None \<longrightarrow> (\<forall>q\<in>set qs. \<exists>state. sv_signing v = Inr state
      \<and> attests (sv_records v) (st_Trust state) (ns @ ''/'' @ s_Order (q_Stage q)) (q_Entry q)))"
proof (induction qs arbitrary: st)
  case (Cons q qs)
  obtain failure st1 where d: "verifyDeployment v r ns q st = (failure, st1)" by fastforce
  have "CHR ''@'' \<notin> set (e_Digest (q_Entry q))" using Cons.prems(2) by simp
  note one = verifyDeployment_sound [OF assms Cons.prems(1) this d]
  show ?case
  proof (cases failure)
    case None
    then show ?thesis using Cons.IH [OF one(1)] Cons.prems(2,3) one(2) d by simp
  next
    case (Some f)
    then show ?thesis using Cons.prems(3) one(1) d by (cases f) auto
  qed
qed simp

text \<open>What the upstream gate reads of the API: the Orders of the stages and what their Servings recorded.\<close>

definition order_environment :: "api_reads \<Rightarrow> string \<Rightarrow> string \<Rightarrow> string" where
  "order_environment r ns name = (case get_Order r ns name of
     Inr order \<Rightarrow> EnvironmentRef_Name (OrderSpec_EnvironmentRef (Order_Spec order)) | Inl _ \<Rightarrow> [])"

definition upstream_read :: "api_reads \<Rightarrow> string \<Rightarrow> string \<Rightarrow> upstream \<Rightarrow> bool" where
  "upstream_read r ns name u \<longleftrightarrow>
     (\<exists>order. get_Order r ns name = Inr order \<and> u_Product u = ProductRef_Name (OrderSpec_ProductRef (Order_Spec order)))
     \<and> (u_History u = [] \<or> (\<exists>serving. get_Serving r ns name = Inr serving \<and> u_History u = historyOf serving))"

lemma read_upstreams_read:
  assumes "read_upstreams r ns stages environments upstreams = Inr (environments', upstreams')"
    and "\<forall>name u. upstreams name = Some u \<longrightarrow> upstream_read r ns name u"
    and "\<forall>name e. environments name = Some e \<longrightarrow> e = order_environment r ns name"
  shows "(\<forall>name u. upstreams' name = Some u \<longrightarrow> upstream_read r ns name u)
    \<and> (\<forall>name e. environments' name = Some e \<longrightarrow> e = order_environment r ns name)
    \<and> dom environments \<subseteq> dom environments'
    \<and> (\<forall>s\<in>set stages. s_Order s \<in> dom environments' \<or> order_environment r ns (s_Order s) = [])"
  using assms
proof (induction stages arbitrary: environments upstreams)
  case (Cons stage stages)
  let ?name = "s_Order stage"
  show ?case
  proof (cases "get_Order r ns ?name")
    case (Inl failure)
    then have "read_upstreams r ns stages environments upstreams = Inr (environments', upstreams')"
      using Cons.prems(1) by (auto split: read_failure.splits)
    from Cons.IH [OF this Cons.prems(2,3)] show ?thesis using Inl by (simp add: order_environment_def)
  next
    case (Inr order)
    let ?environments = "environments(?name \<mapsto> EnvironmentRef_Name (OrderSpec_EnvironmentRef (Order_Spec order)))"
    have env: "\<forall>name e. ?environments name = Some e \<longrightarrow> e = order_environment r ns name"
      using Cons.prems(3) Inr by (auto simp: order_environment_def)
    let ?u = "\<lambda>h. \<lparr>u_Product = ProductRef_Name (OrderSpec_ProductRef (Order_Spec order)), u_History = h\<rparr>"
    have "\<exists>h. upstream_read r ns ?name (?u h) \<and> read_upstreams r ns stages ?environments (upstreams(?name \<mapsto> ?u h)) = Inr (environments', upstreams')"
    proof (cases "get_Serving r ns ?name")
      case (Inl f)
      then show ?thesis using Cons.prems(1) Inr by (intro exI [of _ "[]"]) (cases f; simp add: Let_def upstream_read_def)
    next
      case (Inr serving)
      then show ?thesis using Cons.prems(1) \<open>get_Order r ns ?name = Inr order\<close>
        by (intro exI [of _ "historyOf serving"]) (simp add: Let_def upstream_read_def)
    qed
    then obtain u where u: "upstream_read r ns ?name u" "read_upstreams r ns stages ?environments (upstreams(?name \<mapsto> u)) = Inr (environments', upstreams')"
      by blast
    have "\<forall>name u'. (upstreams(?name \<mapsto> u)) name = Some u' \<longrightarrow> upstream_read r ns name u'"
      using Cons.prems(2) u(1) by auto
    from Cons.IH [OF u(2) this env] show ?thesis by (simp del: fun_upd_apply)
  qed
qed auto

lemma read_upstreams_environment:
  assumes "read_upstreams r ns stages Map.empty Map.empty = Inr (environments, upstreams)" "s \<in> set stages"
  shows "environment_of environments (s_Order s) = order_environment r ns (s_Order s)"
  using read_upstreams_read [OF assms(1)] assms(2) by (auto simp: environment_of_def split: option.splits)

lemmas read_upstreams_upstream = read_upstreams_read [where environments = Map.empty and upstreams = Map.empty, simplified, THEN conjunct1, rule_format]

text \<open>A stage has a deployment of the revision that qualifies, and the registry attests it.\<close>

definition stage_attested ::
    "('trust, 'signer, 'client, 'scope, 'ec, 'rc, 'engine) services \<Rightarrow> api_reads \<Rightarrow> string \<Rightarrow> Order \<Rightarrow> Preparation \<Rightarrow> time \<Rightarrow> stage \<Rightarrow> bool" where
  "stage_attested v r ns order p t s \<longleftrightarrow>
     (\<exists>upstream serving e state. get_Order r ns (s_Order s) = Inr upstream
      \<and> ProductRef_Name (OrderSpec_ProductRef (Order_Spec upstream)) = ProductRef_Name (OrderSpec_ProductRef (Order_Spec order))
      \<and> get_Serving r ns (s_Order s) = Inr serving \<and> e \<in> set (historyOf serving)
      \<and> e_ProductRevision e = revision_of p \<and> Promoted e \<and> e_Healthy e \<noteq> 0 \<and> e_EndReason e \<noteq> EndDegraded \<and> Soak s \<le> healthy_for t e
      \<and> sv_signing v = Inr state \<and> attests (sv_records v) (st_Trust state) (ns @ ''/'' @ s_Order s) e)"

lemma gate_Evaluate_early:
  assumes "r_Stages req = [] \<or> PromotedBefore (r_Preparation req) (r_Self req) \<noteq> None"
  shows "g_Qualified (gate_Evaluate req) = []"
  using assms by (auto simp: gate_Evaluate_def zero_result_def)

lemma qualified_read:
  assumes "read_upstreams r ns (stagesOf p) Map.empty Map.empty = Inr (environments, upstreams)"
    and "q \<in> set (g_Qualified (gate_Evaluate (upstream_request order p h upstreams t)))"
  shows "\<exists>upstream serving. get_Order r ns (s_Order (q_Stage q)) = Inr upstream
    \<and> ProductRef_Name (OrderSpec_ProductRef (Order_Spec upstream)) = ProductRef_Name (OrderSpec_ProductRef (Order_Spec order))
    \<and> get_Serving r ns (s_Order (q_Stage q)) = Inr serving \<and> q_Entry q \<in> set (historyOf serving)
    \<and> qualifies (upstream_request order p h upstreams t) (q_Stage q) (q_Entry q)"
proof -
  let ?req = "upstream_request order p h upstreams t"
  have "\<not> (r_Stages ?req = [] \<or> PromotedBefore (r_Preparation ?req) (r_Self ?req) \<noteq> None)"
  proof
    assume "r_Stages ?req = [] \<or> PromotedBefore (r_Preparation ?req) (r_Self ?req) \<noteq> None"
    from gate_Evaluate_early [OF this] assms(2) show False by simp
  qed
  then have loop: "r_Stages ?req \<noteq> []" "PromotedBefore (r_Preparation ?req) (r_Self ?req) = None" by simp_all
  have "qualifies ?req (q_Stage q) (q_Entry q)
      \<and> (\<exists>u. r_Upstreams ?req (s_Order (q_Stage q)) = Some u \<and> u_Product u = r_Product ?req \<and> q_Entry q \<in> set (u_History u))"
    using gate_evidence [OF loop] assms(2) by (cases "Satisfied (gate_Evaluate ?req)") auto
  then obtain u where u: "upstreams (s_Order (q_Stage q)) = Some u" "u_Product u = r_Product ?req" "q_Entry q \<in> set (u_History u)"
    and q: "qualifies ?req (q_Stage q) (q_Entry q)" by (auto simp: upstream_request_def)
  have "upstream_read r ns (s_Order (q_Stage q)) u" using read_upstreams_upstream [OF assms(1) u(1)] .
  then show ?thesis using u(2,3) q by (auto simp: upstream_read_def upstream_request_def)
qed

lemma evaluate_upstream_sound:
  assumes "services_trusted v keys rkeys" "histories_digested r" "caches_sound v keys rkeys st"
    and read: "read_upstreams r (serving_namespace (rs_serving st)) (stagesOf p) Map.empty Map.empty = Inr (environments, upstreams)"
    and e: "evaluate_upstream v r p (upstream_request order p h upstreams t) st = (x, st')"
  shows "caches_sound v keys rkeys st'"
    and "x = Inr result \<Longrightarrow> Satisfied result \<Longrightarrow> PromotedBefore (preparation_name p) h = None \<Longrightarrow> s \<in> set (stagesOf p) \<Longrightarrow>
      stage_attested v r (serving_namespace (rs_serving st)) order p t s"
proof -
  let ?req = "upstream_request order p h upstreams t"
  let ?ns = "serving_namespace (rs_serving st)"
  obtain failed st1 where v: "verify_qualified v r ?ns (g_Qualified (gate_Evaluate ?req)) st = (failed, st1)" by fastforce
  have "\<forall>q\<in>set (g_Qualified (gate_Evaluate ?req)). CHR ''@'' \<notin> set (e_Digest (q_Entry q))"
    using qualified_read [OF read] assms(2) unfolding histories_digested_def by blast
  note sound = verify_qualified_sound [OF assms(1,3) this v]
  show "caches_sound v keys rkeys st'"
    using e sound assms(3) by (auto simp: evaluate_upstream_def Let_def v split: if_splits option.splits)
  assume x: "x = Inr result" "Satisfied result" and new: "PromotedBefore (preparation_name p) h = None" and s: "s \<in> set (stagesOf p)"
  then have sat: "Satisfied (gate_Evaluate ?req)" and none: "failed = None"
    using e by (auto simp: evaluate_upstream_def Let_def v Satisfied_def zero_result_def split: if_splits option.splits)
  have loop: "r_Stages ?req \<noteq> []" "PromotedBefore (r_Preparation ?req) (r_Self ?req) = None"
    using s new by (auto simp: upstream_request_def)
  have "s \<in> q_Stage ` set (g_Qualified (gate_Evaluate ?req))"
    using gate_evidence [OF loop] sat s by (metis upstream_request_def gate_request.select_convs(4) list.set_map)
  then obtain q where q: "q \<in> set (g_Qualified (gate_Evaluate ?req))" "q_Stage q = s" by auto
  obtain state where "sv_signing v = Inr state" "attests (sv_records v) (st_Trust state) (?ns @ ''/'' @ s_Order s) (q_Entry q)"
    using sound none q by auto
  then show "stage_attested v r ?ns order p t s"
    using qualified_read [OF read q(1)] q(2) unfolding stage_attested_def qualifies_def
    by (auto simp: upstream_request_def)
qed

lemma upstream_gate_sound:
  assumes "services_trusted v keys rkeys" "histories_digested r" "caches_sound v keys rkeys st"
    and u: "upstream_gate v r order p h st = (x, st')"
  shows "caches_sound v keys rkeys st'"
    and "x = Inr result \<Longrightarrow> Satisfied result \<Longrightarrow> PromotedBefore (preparation_name p) h = None \<Longrightarrow>
      \<exists>required. requirements r order = Inr required
      \<and> (\<forall>q\<in>set required. \<exists>s\<in>set (stagesOf p). order_environment r (serving_namespace (rs_serving st)) (s_Order s) = m_Environment q
           \<and> sint (m_MinSoakSeconds q) \<le> sint (s_SoakSeconds s))
      \<and> (\<forall>s\<in>set (stagesOf p). stage_attested v r (serving_namespace (rs_serving st)) order p (sv_clock v (rs_ticks st)) s)"
proof -
  let ?ns = "serving_namespace (rs_serving st)"
  let ?required = "if PromotedBefore (preparation_name p) h = None then requirements r order else Inr []"
  let ?met = "\<lambda>required. \<forall>q\<in>set required. \<exists>s\<in>set (stagesOf p). order_environment r ?ns (s_Order s) = m_Environment q
    \<and> sint (m_MinSoakSeconds q) \<le> sint (s_SoakSeconds s)"
  let ?goal = "caches_sound v keys rkeys st' \<and> (x = Inr result \<longrightarrow> Satisfied result \<longrightarrow> PromotedBefore (preparation_name p) h = None \<longrightarrow>
    (\<exists>required. requirements r order = Inr required \<and> ?met required
      \<and> (\<forall>s\<in>set (stagesOf p). stage_attested v r ?ns order p (sv_clock v (rs_ticks st)) s)))"
  have ?goal
  proof (cases "\<exists>required environments upstreams. ?required = Inr required \<and> \<not> (stagesOf p = [] \<and> required = [])
      \<and> read_upstreams r ?ns (stagesOf p) Map.empty Map.empty = Inr (environments, upstreams) \<and> Required (stagesOf p) environments required = []")
    case False
    then show ?thesis
      using u assms(3) by (cases ?required) (auto simp: upstream_gate_def Let_def Satisfied_def split: if_splits sum.splits)
  next
    case True
    then obtain required environments upstreams where req: "?required = Inr required" "\<not> (stagesOf p = [] \<and> required = [])"
      and read: "read_upstreams r ?ns (stagesOf p) Map.empty Map.empty = Inr (environments, upstreams)"
      and met: "Required (stagesOf p) environments required = []" by blast
    let ?st = "st\<lparr>rs_ticks := rs_ticks st + 1\<rparr>"
    have e: "evaluate_upstream v r p (upstream_request order p h upstreams (sv_clock v (rs_ticks st))) ?st = (x, st')"
      using u req(2) read met unfolding upstream_gate_def Let_def req(1) by simp
    have read': "read_upstreams r (serving_namespace (rs_serving ?st)) (stagesOf p) Map.empty Map.empty = Inr (environments, upstreams)"
      using read by simp
    have sound: "caches_sound v keys rkeys ?st" using assms(3) by simp
    note * = evaluate_upstream_sound [OF assms(1,2) sound read' e]
    have "?met required"
      using met read_upstreams_environment [OF read] unfolding Required_iff by metis
    then show ?thesis using * req(1) by auto
  qed
  then show "caches_sound v keys rkeys st'"
    and "x = Inr result \<Longrightarrow> Satisfied result \<Longrightarrow> PromotedBefore (preparation_name p) h = None \<Longrightarrow>
      \<exists>required. requirements r order = Inr required \<and> ?met required
      \<and> (\<forall>s\<in>set (stagesOf p). stage_attested v r ?ns order p (sv_clock v (rs_ticks st)) s)" by blast+
qed

lemma verify_sound:
  assumes "services_trusted v keys rkeys" "caches_sound v keys rkeys st" and f: "verify v r p st = (x, st')"
  shows "caches_sound v keys rkeys st'"
    and "x = Inr True \<Longrightarrow> \<exists>state client. sv_signing v = Inr state
      \<and> evidenced (sv_evidence v) client (st_Trust state) (Artifact_Digest (preparation_artifact p))
          (serving_namespace (rs_serving st) @ ''/'' @ order_name (rs_serving st)) (Preparation_ApprovalPolicy p \<noteq> None)"
proof -
  let ?order = "serving_namespace (rs_serving st) @ ''/'' @ order_name (rs_serving st)"
  have "caches_sound v keys rkeys st' \<and> (x = Inr True \<longrightarrow> (\<exists>state client. sv_signing v = Inr state
      \<and> evidenced (sv_evidence v) client (st_Trust state) (Artifact_Digest (preparation_artifact p)) ?order (Preparation_ApprovalPolicy p \<noteq> None)))"
  proof (cases "sv_signing v")
    case (Inl err)
    then show ?thesis using assms(2) f by (auto simp: verify_def Let_def)
  next
    case (Inr state)
    let ?connected = "connect v r (preparation_namespace p) (PreparationSpec_OrderName (Preparation_Spec p))
      (Artifact_RegistryRef (preparation_artifact p)) (Artifact_OCIRef (preparation_artifact p))"
    obtain failure cache where c: "Verifier_Verify (sv_evidence v) (st_Trust state) p ?order ?connected (rs_evidence st) = (failure, cache)"
      by fastforce
    have laws: "cache_laws (ev_get (sv_evidence v)) (ev_add (sv_evidence v)) keys" "same_trust (sv_evidence v)"
      and good: "\<forall>k\<in>keys (rs_evidence st). good_key (sv_evidence v) k"
      using assms(1,2) by (simp_all add: services_trusted_def caches_sound_def)
    note step = Verifier_step [OF laws(1) good c]
    have sound: "caches_sound v keys rkeys (st\<lparr>rs_evidence := cache\<rparr>)"
      using step(1) assms(2) by (simp add: caches_sound_def)
    have "\<exists>client. evidenced (sv_evidence v) client (st_Trust state) (Artifact_Digest (preparation_artifact p)) ?order (Preparation_ApprovalPolicy p \<noteq> None)"
      if "failure = None"
    proof -
      from step(2) [OF that] obtain client t where "ev_trust_ID (sv_evidence v) t = ev_trust_ID (sv_evidence v) (st_Trust state)"
        "evidenced (sv_evidence v) client t (Artifact_Digest (preparation_artifact p)) ?order (Preparation_ApprovalPolicy p \<noteq> None)"
        by (auto simp: good_key_def verified_key_of_def)
      then show ?thesis using evidenced_same_trust [OF laws(2)] by blast
    qed
    moreover have "caches_sound v keys rkeys st' \<and> (x = Inr True \<longrightarrow> failure = None)"
      using f Inr c sound by (auto simp: verify_def Let_def split: option.splits evidence_failure.splits if_splits)
    ultimately show ?thesis using Inr by auto
  qed
  then show "caches_sound v keys rkeys st'"
    and "x = Inr True \<Longrightarrow> \<exists>state client. sv_signing v = Inr state
      \<and> evidenced (sv_evidence v) client (st_Trust state) (Artifact_Digest (preparation_artifact p)) ?order (Preparation_ApprovalPolicy p \<noteq> None)"
    by blast+
qed

text \<open>The other steps leave the caches alone.\<close>

lemma caches_sound_gate: "caches_sound v keys rkeys (snd (gate v r p target st)) = caches_sound v keys rkeys st"
  by (auto simp: gate_def Let_def split: sum.splits)

lemma caches_sound_checks: "caches_sound v keys rkeys (snd (checks v r p st)) = caches_sound v keys rkeys st"
proof (cases "vulnerabilities_of p")
  case (Some c)
  obtain res st1 where e: "evaluateVulnerabilities v r p c st = (res, st1)" by fastforce
  then have "caches_sound v keys rkeys st1 = caches_sound v keys rkeys st"
    by (auto simp: evaluateVulnerabilities_def Let_def split: sum.splits option.splits)
  then show ?thesis using Some e by (auto simp: checks_def and_then_def Let_def split: sum.splits prod.splits)
qed (simp add: checks_def)

lemma caches_sound_promote_verified:
  "caches_sound v keys rkeys (snd (promote_verified v r order p h upstream c verified st)) = caches_sound v keys rkeys st"
  by (auto simp: promote_verified_def Let_def hold_def split: sum.splits)

lemma promote_checked_sound:
  assumes "services_trusted v keys rkeys" "caches_sound v keys rkeys st"
  shows "caches_sound v keys rkeys (snd (promote_checked v r order p h upstream c st))"
proof -
  obtain x st1 where g: "gate v r p (Next (preparation_name p) h = StepDeployed \<or> Satisfied upstream \<and> cv_passed c) st = (x, st1)"
    by fastforce
  have s1: "caches_sound v keys rkeys st1" using assms(2) caches_sound_gate [of v keys rkeys r p _ st] g by (metis snd_conv)
  obtain y st2 where y: "verify v r p st1 = (y, st2)" by fastforce
  have "caches_sound v keys rkeys st2" using verify_sound(1) [OF assms(1) s1 y] .
  then have "caches_sound v keys rkeys (snd (and_then (verify v r p) (promote_verified v r order p h upstream c) st1))"
    by (cases y) (auto simp: and_then_def y caches_sound_promote_verified)
  then show ?thesis using s1
    by (cases x) (auto simp: promote_checked_def Let_def and_then_def [of "gate v r p _"] g hold_def)
qed

lemma promote_sound:
  assumes "services_trusted v keys rkeys" "histories_digested r" "caches_sound v keys rkeys st"
  shows "caches_sound v keys rkeys (snd (promote v r order p st))"
proof (cases "is_condition_true (sv_conditions v) (preparation_conditions p) ConditionTypeReady")
  case False
  then show ?thesis using assms(3) by (simp add: promote_def Let_def hold_def)
next
  case True
  obtain x st1 where u: "upstream_gate v r order p (Drop (rs_history st)) st = (x, st1)" by fastforce
  have s1: "caches_sound v keys rkeys st1" using upstream_gate_sound(1) [OF assms u] .
  obtain y st2 where c: "checks v r p st1 = (y, st2)" by fastforce
  have s2: "caches_sound v keys rkeys st2" using s1 caches_sound_checks [of v keys rkeys r p st1] c by simp
  show ?thesis
    using True s1 s2 promote_checked_sound [OF assms(1) s2]
    by (cases x; cases y) (simp_all add: promote_def Let_def and_then_def u c)
qed

end
