(* ===== verification/Serving_Refinement.thy ===== *)
theory Serving_Refinement
  imports Serving_Safety
begin

text \<open>
  A reconcile of a Serving, end to end: whatever it decides, deploys, observes and records, and whether it
  fails or not, it takes the history through steps of \<open>history_step\<close> at the times its clock reads, it
  leaves sound caches behind, and a request that stores a status stores one that such steps reach.
\<close>

section \<open>Advancing a history\<close>

text \<open>The clock does not go back, and a record that was attached to an artifact has a digest.\<close>

definition services_regular :: "('trust, 'signer, 'client, 'scope, 'ec, 'rc, 'engine) services \<Rightarrow> bool" where
  "services_regular v \<longleftrightarrow> mono (sv_clock v)
     \<and> (\<forall>client signer subject t statement created d. attest (sv_writer v client signer) subject t statement created = Inr d \<longrightarrow> d \<noteq> [])"

lemma push_attested: "push w e t statement created = Inr d \<Longrightarrow> \<exists>subject. attest w subject t statement created = Inr d"
  by (auto simp: push_def split: sum.splits)

lemma PushPromotion_attested:
  assumes "PushPromotion w order mode h g = Inr d"
  shows "\<exists>subject t statement created. attest w subject t statement created = Inr d"
proof (cases "Pending h")
  case (Some p)
  then obtain statement where "push w p PromotionPredicateType statement (e_Started p) = Inr d"
    using assms by (auto simp: PushPromotion_def split: sum.splits)
  then show ?thesis by (blast dest: push_attested)
qed (use assms in \<open>simp add: PushPromotion_def\<close>)

text \<open>From any time before the one a pass reads first, its steps reach the history it leaves.\<close>

definition advances ::
    "('trust, 'signer, 'client, 'scope, 'ec, 'rc, 'engine) services \<Rightarrow> ('ec, 'rc, 'engine) reconcile \<Rightarrow> ('ec, 'rc, 'engine) reconcile \<Rightarrow> bool" where
  "advances v st st' \<longleftrightarrow> rs_ticks st \<le> rs_ticks st'
     \<and> (\<forall>now \<le> sv_clock v (rs_ticks st). \<exists>t. now \<le> t \<and> t \<le> sv_clock v (rs_ticks st') \<and> history_step\<^sup>*\<^sup>* (now, rs_history st) (t, rs_history st'))"

lemma advances_trans:
  assumes "advances v st st'" "advances v st' st''"
  shows "advances v st st''"
  unfolding advances_def
proof (intro conjI allI impI)
  show "rs_ticks st \<le> rs_ticks st''" using assms by (simp add: advances_def)
  fix now assume "now \<le> sv_clock v (rs_ticks st)"
  then obtain t where t: "now \<le> t" "t \<le> sv_clock v (rs_ticks st')" "history_step\<^sup>*\<^sup>* (now, rs_history st) (t, rs_history st')"
    using assms(1) by (auto simp: advances_def)
  then obtain t' where "t \<le> t'" "t' \<le> sv_clock v (rs_ticks st'')" "history_step\<^sup>*\<^sup>* (t, rs_history st') (t', rs_history st'')"
    using assms(2) by (auto simp: advances_def)
  then show "\<exists>t'. now \<le> t' \<and> t' \<le> sv_clock v (rs_ticks st'') \<and> history_step\<^sup>*\<^sup>* (now, rs_history st) (t', rs_history st'')"
    using t by (meson order_trans rtranclp_trans)
qed

lemma keeps_advances:
  assumes "services_regular v" "keeps st st'"
  shows "advances v st st'"
proof -
  have "sv_clock v (rs_ticks st) \<le> sv_clock v (rs_ticks st')"
    using assms by (simp add: services_regular_def keeps_def mono_def)
  then show ?thesis using assms(2) by (force simp: advances_def keeps_def)
qed

text \<open>One step at the time that the clock reads, or at any time, in a state whose history is unchanged.\<close>

lemma step_advances:
  assumes "services_regular v" "rs_ticks st \<le> k" "k \<le> rs_ticks st'"
    and "\<And>now. now \<le> sv_clock v k \<Longrightarrow> history_step (now, rs_history st) (sv_clock v k, rs_history st')"
  shows "advances v st st'"
proof -
  have "sv_clock v (rs_ticks st) \<le> sv_clock v k" "sv_clock v k \<le> sv_clock v (rs_ticks st')"
    using assms(1-3) by (simp_all add: services_regular_def mono_def)
  then show ?thesis
    using assms(2-4) by (auto simp: advances_def intro!: exI [of _ "sv_clock v k"] r_into_rtranclp)
qed

lemma steps_advances:
  assumes "services_regular v" "rs_ticks st \<le> rs_ticks st'"
    and "\<And>now. history_step\<^sup>*\<^sup>* (now, rs_history st) (now, rs_history st')"
  shows "advances v st st'"
proof -
  have "sv_clock v (rs_ticks st) \<le> sv_clock v (rs_ticks st')" using assms(1,2) by (simp add: services_regular_def mono_def)
  then show ?thesis using assms(2,3) unfolding advances_def by (meson order_refl order_trans)
qed

lemma promoted_advances:
  assumes "services_regular v" "promote v r order candidate st = (result, st')"
  shows "advances v st st'"
proof -
  note outcome = promote_outcome [OF assms(2)]
  have ticks: "rs_ticks st \<le> rs_ticks st'" using outcome by blast
  from outcome [THEN conjunct2] show ?thesis
  proof (elim disjE)
    assume same: "rs_history st' = rs_history st"
    show ?thesis using ticks same by (intro steps_advances [OF assms(1)]) simp_all
  next
    assume "rs_history st' = Drop (rs_history st)"
    then show ?thesis using ticks by (intro steps_advances [OF assms(1)]) (auto intro: drop_step)
  next
    assume "\<exists>upstream c st1. gates_passed v r order candidate st upstream c st1 \<and> rs_ticks st1 \<le> rs_ticks st'
         \<and> decided v r order candidate (rs_history st) upstream c st1 (rs_history st')"
    then obtain upstream c st1 where g: "gates_passed v r order candidate st upstream c st1" "rs_ticks st1 \<le> rs_ticks st'"
      and d: "decided v r order candidate (rs_history st) upstream c st1 (rs_history st')" by blast
    have t1: "rs_ticks st \<le> rs_ticks st1" using gates_passed_keeps [OF g(1)] by (simp add: keeps_def)
    show ?thesis using d unfolding decided_def
    proof (elim disjE conjE exE)
      assume "Next (preparation_name candidate) (rs_history st) = StepOpen"
        and opened: "rs_history st' = Open (entryOf candidate) (sv_clock v (rs_ticks st1)) (rs_history st)"
      then have "Next (e_Preparation (entryOf candidate)) (rs_history st) = StepOpen" by (simp add: entryOf_def)
      then show ?thesis using opened by (intro step_advances [OF assms(1) t1 g(2)]) (simp add: open_step)
    next
      fix promotion_record
      assume step: "Next (preparation_name candidate) (rs_history st) = StepRecord"
        and pushed: "recordPromotion v r (rs_serving st1) order candidate (rs_history st) upstream c = Inr promotion_record"
        and started: "rs_history st' = Start promotion_record (rs_history st)"
      have "promotion_record \<noteq> []"
        using recordPromotion_pushed [OF pushed] assms(1) unfolding services_regular_def by (blast dest: PushPromotion_attested)
      then show ?thesis using step started by (intro step_advances [OF assms(1) t1 g(2)]) (auto intro: start_step)
    qed
  qed
qed

section \<open>Recording deployments\<close>

lemma record_unrecorded_steps:
  assumes "services_regular v"
  shows "record_unrecorded v r state s targets states es h = Inr h' \<Longrightarrow> \<forall>e\<in>set es. e_Healthy e \<noteq> 0 \<Longrightarrow>
    history_step\<^sup>*\<^sup>* (now, h) (now, h')"
proof (induction es arbitrary: h)
  case (Cons e es)
  show ?case
  proof (cases "get_Preparation r (serving_namespace s) (e_Preparation e)")
    case (Inl f)
    then show ?thesis using Cons.IH [of h] Cons.prems by (cases f) auto
  next
    case (Inr p)
    obtain client d where w: "PushDeployment (sv_writer v client (st_Signer state)) (serving_namespace s @ ''/'' @ order_name s) e
        (healthy_targets p e targets states) = Inr d"
      and rest: "record_unrecorded v r state s targets states es (RecordDeployment (e_Digest e) (e_Healthy e) d h) = Inr h'"
      using Cons.prems(1) Inr by (auto split: sum.splits)
    have "d \<noteq> []"
      using w assms by (auto simp: PushDeployment_def push_def services_regular_def split: sum.splits)
    then have "history_step (now, h) (now, RecordDeployment (e_Digest e) (e_Healthy e) d h)"
      using Cons.prems(2) by (intro record_step) auto
    then show ?thesis using Cons.IH [OF rest] Cons.prems(2) by (auto intro: converse_rtranclp_into_rtranclp)
  qed
qed simp

lemma recordDeployments_advances:
  assumes "services_regular v" "recordDeployments v r (rs_history st) targets states st = (result, st')"
  shows "advances v st st'"
proof (cases "\<exists>state h. sv_signing v = Inr state \<and> Unrecorded (rs_history st) \<noteq> []
    \<and> record_unrecorded v r state (rs_serving st) targets states (Unrecorded (rs_history st)) (rs_history st) = Inr h")
  case True
  then obtain state h where s: "sv_signing v = Inr state" "Unrecorded (rs_history st) \<noteq> []"
    "record_unrecorded v r state (rs_serving st) targets states (Unrecorded (rs_history st)) (rs_history st) = Inr h" by blast
  have "\<forall>e\<in>set (Unrecorded (rs_history st)). e_Healthy e \<noteq> 0" by (simp add: Unrecorded_def)
  note steps = record_unrecorded_steps [OF assms(1) s(3) this]
  have "st' = on_serving (\<lambda>x. setHistory x h) st" using assms(2) s by (auto simp: recordDeployments_def)
  then show ?thesis using steps by (intro steps_advances [OF assms(1)]) simp_all
next
  case False
  then have "st' = st" using assms(2) by (auto simp: recordDeployments_def split: if_splits sum.splits)
  then show ?thesis using keeps_advances [OF assms(1)] by simp
qed


section \<open>Deploying\<close>

lemma observe_deployment_advances:
  assumes v: "services_regular v" and o: "observe_deployment v r (rs_history st) deployed held applied st = (result, st')"
  shows "advances v st st'"
proof -
  obtain targets states where a: "applied = (targets, states)" by fastforce
  define ob where "ob = observationOf deployed targets states"
  define st1 where "st1 = on_serving (\<lambda>s. markHeld (sv_conditions v)
    (mark_deployment v deployed targets ob (setTargets (sv_conditions v) s deployed targets states)) held) st"
  define st2 where "st2 = st1\<lparr>rs_ticks := rs_ticks st1 + 1\<rparr>"
  have h1: "rs_history st1 = rs_history st" "rs_ticks st1 = rs_ticks st" by (simp_all add: st1_def)
  obtain observed changed where ob': "Observe ob (sv_clock v (rs_ticks st1)) (rs_history st) = (observed, changed)" by fastforce
  have st2: "advances v st st2" using h1 by (intro steps_advances [OF v]) (simp_all add: st2_def)
  have o2: "(if changed
      then (Inr historyPassInterval, on_serving (\<lambda>s. setHistory (if e_Healthy deployed = 0
          \<and> (case Deployed observed of Some d \<Rightarrow> e_Healthy d \<noteq> 0 | None \<Rightarrow> False) then set_vulnerabilities None s else s) observed) st2)
      else and_then (recordDeployments v r (rs_history st) targets states)
        (\<lambda>_. and_then (recordDeployedVulnerabilities v r deployed) (\<lambda>_ st. (Inr 0, st))) st2) = (result, st')"
    using o unfolding observe_deployment_def a prod.case Let_def ob_def [symmetric] st1_def [symmetric] clock_eq
      ob' st2_def [symmetric] .
  show ?thesis
  proof (cases changed)
    case True
    then have "rs_history st' = observed" "rs_ticks st' = rs_ticks st2" using o2 by auto
    moreover have "observed = fst (Observe ob (sv_clock v (rs_ticks st)) (rs_history st))" using ob' h1 by simp
    ultimately show ?thesis
      by (intro step_advances [OF v, of _ "rs_ticks st"]) (simp_all add: st2_def h1 observe_step)
  next
    case False
    have h2: "rs_history st2 = rs_history st" by (simp add: st2_def h1)
    obtain x st3 where r: "recordDeployments v r (rs_history st2) targets states st2 = (x, st3)" by fastforce
    have st3: "advances v st st3" using advances_trans [OF st2 recordDeployments_advances [OF v r]] .
    show ?thesis
    proof (cases x)
      case (Inl err)
      then show ?thesis using o2 False r st3 by (simp add: and_then_def h2)
    next
      case (Inr u)
      have "st' = snd (recordDeployedVulnerabilities v r deployed st3)"
        using o2 False r Inr by (auto simp: and_then_def h2 split: sum.splits prod.splits)
      then show ?thesis
        using advances_trans [OF st3 keeps_advances [OF v steady_keeps [OF recordDeployedVulnerabilities_steady]]] by simp
    qed
  qed
qed

lemma deploy_preparation_advances:
  assumes v: "services_regular v" and d: "deploy_preparation v r order (rs_history st) deployed held p st = (result, st')"
  shows "advances v st st'"
proof (cases "deploy_targets_of v r order p st")
  case (Inl err)
  then show ?thesis using d keeps_advances [OF v] by (simp add: deploy_preparation_def)
next
  case (Inr found)
  show ?thesis
  proof (cases found)
    case (NoTargets reason msg)
    have "and_then (remove_deployments v (Some [])) (\<lambda>_ st.
        (Inr 0, on_serving (\<lambda>s. mark_ready v reason msg held (setTargets (sv_conditions v) s deployed [] Map.empty)) st)) st = (result, st')"
      using d Inr NoTargets by (simp add: deploy_preparation_def)
    moreover have "steady st (snd (and_then (remove_deployments v (Some [])) (\<lambda>_ st.
        (Inr 0 :: string + duration, on_serving (\<lambda>s. mark_ready v reason msg held (setTargets (sv_conditions v) s deployed [] Map.empty)) st)) st))"
      by (rule and_then_steady [OF remove_deployments_steady]) (simp add: steady_def keeps_def)
    ultimately have "keeps st st'" by (simp add: steady_def)
    then show ?thesis by (rule keeps_advances [OF v])
  next
    case (TargetsIn env targets)
    obtain x st1 where a: "applyTargets v env deployed targets st = (x, st1)" by fastforce
    have k: "keeps st st1" using steady_keeps [OF applyTargets_steady [of st v env deployed targets]] a by simp
    show ?thesis
    proof (cases x)
      case (Inl err)
      have "advances v st1 st'"
        using d Inr TargetsIn a Inl by (intro steps_advances [OF v]) (auto simp: deploy_preparation_def)
      then show ?thesis using advances_trans keeps_advances [OF v k] by blast
    next
      case (Inr applied)
      have "rs_history st1 = rs_history st" using k by (simp add: keeps_def)
      then have "observe_deployment v r (rs_history st1) deployed held applied st1 = (result, st')"
        using d \<open>deploy_targets_of v r order p st = Inr found\<close> TargetsIn a Inr by (simp add: deploy_preparation_def)
      then show ?thesis using advances_trans keeps_advances [OF v k] observe_deployment_advances [OF v] by blast
    qed
  qed
qed

lemma deploy_advances:
  assumes v: "services_regular v" and d: "deploy v r order held st = (result, st')"
  shows "advances v st st'"
proof (cases "\<exists>deployed o1 p. Deployed (rs_history st) = Some deployed \<and> order = Some o1
    \<and> get_Preparation r (serving_namespace (rs_serving st)) (e_Preparation deployed) = Inr p")
  case True
  then show ?thesis using d deploy_preparation_advances [OF v] by (auto simp: deploy_def Let_def)
next
  case False
  then have "rs_history st' = rs_history st" "rs_ticks st' = rs_ticks st"
    using d by (auto simp: deploy_def Let_def split: option.splits sum.splits read_failure.splits)
  then show ?thesis by (intro steps_advances [OF v]) simp_all
qed

lemma decide_candidate_advances:
  assumes v: "services_regular v" and d: "decide_candidate v r st = (decision, st')"
  shows "advances v st st'"
proof -
  obtain order candidate held err where t: "targetPreparation (sv_conditions v) r (rs_serving st) = (order, candidate, held, err)"
    by (metis surj_pair)
  show ?thesis
  proof (cases "\<exists>o1 p. order = Some o1 \<and> candidate = Some p")
    case True
    then obtain o1 p where op: "order = Some o1" "candidate = Some p" by blast
    obtain x st1 where p: "promote v r o1 p st = (x, st1)" by fastforce
    have "st' = st1" using d t op p by (auto simp: decide_candidate_def split: sum.splits)
    then show ?thesis using promoted_advances [OF v p] by simp
  next
    case False
    then have "st' = st \<or> rs_history st' = Drop (rs_history st) \<and> rs_ticks st' = rs_ticks st"
      using d t by (cases order; cases candidate; cases err) (auto simp: decide_candidate_def)
    then show ?thesis
    proof (elim disjE)
      assume "st' = st"
      then show ?thesis using keeps_advances [OF v] by simp
    next
      assume "rs_history st' = Drop (rs_history st) \<and> rs_ticks st' = rs_ticks st"
      then show ?thesis by (intro steps_advances [OF v]) (auto intro: drop_step)
    qed
  qed
qed

lemma reconcileServing_advances:
  assumes v: "services_regular v" and d: "reconcileServing v r st = (result, st')"
  shows "advances v st st'"
proof -
  obtain order wait held err st1 where c: "decide_candidate v r st = ((order, wait, held, err), st1)" by (metis surj_pair)
  obtain deployed st2 where e: "deploy v r order held st1 = (deployed, st2)" by fastforce
  have "st' = st2" using d by (auto simp: reconcileServing_def c e split: option.splits)
  then show ?thesis using advances_trans [OF decide_candidate_advances [OF v c] deploy_advances [OF v e]] by simp
qed


section \<open>The caches a reconcile leaves\<close>

abbreviation caches :: "('ec, 'rc, 'engine) reconcile \<Rightarrow> 'ec \<times> 'rc" where
  "caches st \<equiv> (rs_evidence st, rs_records st)"

lemma caches_sound_eq: "caches st' = caches st \<Longrightarrow> caches_sound v keys rkeys st' = caches_sound v keys rkeys st"
  by (simp add: caches_sound_def)

lemma steady_caches: "steady st st' \<Longrightarrow> caches st' = caches st"
  by (simp add: steady_def)

lemma recordDeployments_caches: "caches (snd (recordDeployments v r h targets states st)) = caches st"
  by (auto simp: recordDeployments_def split: sum.splits)

lemma observe_deployment_caches: "caches (snd (observe_deployment v r h deployed held (targets, states) st)) = caches st"
proof -
  let ?rest = "and_then (recordDeployments v r h targets states)
      (\<lambda>_. and_then (recordDeployedVulnerabilities v r deployed) (\<lambda>_ st. (Inr (0 :: duration), st)))"
  have rest: "rs_evidence (snd (?rest s)) = rs_evidence s" "rs_records (snd (?rest s)) = rs_records s" for s
  proof -
    obtain x s1 where r: "recordDeployments v r h targets states s = (x, s1)" by fastforce
    obtain y s2 where d: "recordDeployedVulnerabilities v r deployed s1 = (y, s2)" by fastforce
    have "caches s1 = caches s" "caches s2 = caches s1"
      using recordDeployments_caches [of v r h targets states s] r steady_caches [OF recordDeployedVulnerabilities_steady [of s1 v r deployed]] d
      by simp_all
    then show "rs_evidence (snd (?rest s)) = rs_evidence s" "rs_records (snd (?rest s)) = rs_records s"
      by (cases x; cases y; simp add: and_then_def r d)+
  qed
  show ?thesis
    unfolding observe_deployment_def prod.case Let_def clock_eq
    by (cases "Observe (observationOf deployed targets states) (sv_clock v (rs_ticks (on_serving (\<lambda>s. markHeld (sv_conditions v)
        (mark_deployment v deployed targets (observationOf deployed targets states)
          (setTargets (sv_conditions v) s deployed targets states)) held) st))) h") (simp add: rest)
qed

lemma deploy_caches: "caches (snd (deploy v r order held st)) = caches st"
proof -
  have prep: "caches (snd (deploy_preparation v r o1 h deployed held p st)) = caches st" for o1 h deployed p
  proof (cases "deploy_targets_of v r o1 p st")
    case (Inr found)
    show ?thesis
    proof (cases found)
      case (NoTargets reason msg)
      have "steady st (snd (and_then (remove_deployments v (Some [])) (\<lambda>_ st.
          (Inr 0 :: string + duration, on_serving (\<lambda>s. mark_ready v reason msg held (setTargets (sv_conditions v) s deployed [] Map.empty)) st)) st))"
        by (rule and_then_steady [OF remove_deployments_steady]) (simp add: steady_def keeps_def)
      then show ?thesis using Inr NoTargets by (simp add: deploy_preparation_def steady_def)
    next
      case (TargetsIn env targets)
      obtain x st1 where a: "applyTargets v env deployed targets st = (x, st1)" by fastforce
      have k: "caches st1 = caches st" using steady_caches [OF applyTargets_steady [of st v env deployed targets]] a by simp
      show ?thesis
        using Inr TargetsIn a k observe_deployment_caches [of v r h deployed held _ _ st1]
        by (cases x) (auto simp: deploy_preparation_def)
    qed
  qed (simp add: deploy_preparation_def)
  then show ?thesis
    by (auto simp: deploy_def Let_def split: option.split sum.split read_failure.split)
qed

lemma reconcileServing_sound:
  assumes "services_trusted v keys rkeys" "histories_digested r" "caches_sound v keys rkeys st"
  shows "caches_sound v keys rkeys (snd (reconcileServing v r st))"
proof -
  obtain order wait held err st1 where c: "decide_candidate v r st = ((order, wait, held, err), st1)" by (metis surj_pair)
  obtain o2 candidate held2 err2 where t: "targetPreparation (sv_conditions v) r (rs_serving st) = (o2, candidate, held2, err2)"
    by (metis surj_pair)
  have "caches_sound v keys rkeys st1"
  proof (cases "\<exists>o1 p. o2 = Some o1 \<and> candidate = Some p")
    case True
    then obtain o1 p where op: "o2 = Some o1" "candidate = Some p" by blast
    obtain x s where "promote v r o1 p st = (x, s)" by fastforce
    then show ?thesis using c t op promote_sound [OF assms, of o1 p] by (auto simp: decide_candidate_def split: sum.splits)
  next
    case False
    then have "caches st1 = caches st"
      using c t by (cases o2; cases candidate; cases err2) (auto simp: decide_candidate_def)
    then show ?thesis using caches_sound_eq assms(3) by blast
  qed
  moreover have "snd (reconcileServing v r st) = snd (deploy v r order held st1)"
    by (auto simp: reconcileServing_def c split: prod.splits option.splits)
  ultimately show ?thesis using caches_sound_eq [OF deploy_caches [of v r order held st1], of v] by simp
qed

section \<open>The whole request\<close>

lemma historyOf_set_finalizers [simp]: "historyOf (set_finalizers fs s) = historyOf s"
  by (simp add: historyOf_def set_finalizers_def)

lemma reconcileDelete_history: "rs_history (snd (reconcileDelete v w st)) = rs_history st"
    and reconcileDelete_ticks: "rs_ticks st \<le> rs_ticks (snd (reconcileDelete v w st))"
    and reconcileDelete_caches: "caches (snd (reconcileDelete v w st)) = caches st"
proof -
  obtain x st1 where r: "remove_deployments v None st = (x, st1)" by fastforce
  have "steady st st1" using remove_deployments_steady [of st v None] r by simp
  then have k: "rs_history st1 = rs_history st" "rs_ticks st \<le> rs_ticks st1" "caches st1 = caches st" by (simp_all add: steady_def keeps_def)
  show "rs_history (snd (reconcileDelete v w st)) = rs_history st" "rs_ticks st \<le> rs_ticks (snd (reconcileDelete v w st))"
    "caches (snd (reconcileDelete v w st)) = caches st"
    using k by (cases x; auto simp: reconcileDelete_def and_then_def r Let_def split: write_result.split)+
qed

lemma remove_all_serving: "rs_serving (snd (remove_all v ds keep st)) = rs_serving st"
  by (induction v ds keep st rule: remove_all.induct) (auto simp: Let_def split: prod.split option.split)

text \<open>What a run of several engines did: each removed its deployments from where the one before left the cluster.\<close>

fun removed_in_turn :: "'engine deployer list \<Rightarrow> Serving \<Rightarrow> string list option \<Rightarrow> 'engine \<Rightarrow> 'engine \<Rightarrow> bool" where
  "removed_in_turn [] serving keep s s' \<longleftrightarrow> s' = s"
| "removed_in_turn (d # ds) serving keep s s' \<longleftrightarrow>
     (\<exists>removed s1. en_Remove d serving keep s = ((removed, None), s1) \<and> removed_in_turn ds serving keep s1 s')"

lemma remove_all_in_turn:
  "remove_all v ds keep st = (Inr (), st') \<Longrightarrow> removed_in_turn ds (rs_serving st) keep (rs_engine st) (rs_engine st')"
proof (induction ds arbitrary: st)
  case (Cons d ds)
  obtain removed err engine where e: "en_Remove d (rs_serving st) keep (rs_engine st) = ((removed, err), engine)" by (metis surj_pair)
  let ?st = "st\<lparr>rs_engine := engine, rs_events := rs_events st @ (if keep \<noteq> None \<and> sv_records_events v then map Undeployed removed else [])\<rparr>"
  have "err = None" "remove_all v ds keep ?st = (Inr (), st')"
    using Cons.prems by (auto simp: e Let_def split: option.splits)
  then show ?case using Cons.IH [of ?st] e by simp
qed simp

lemma reconcileDelete_removed:
  assumes "reconcileDelete v w st = (result, st')" "Finalizer \<in> set (finalizers (rs_serving st))"
    and "Finalizer \<notin> set (finalizers (rs_serving st'))"
  shows "removed_in_turn (all_deployers v) (rs_serving st) None (rs_engine st) (rs_engine st')"
proof -
  obtain x st1 where r: "remove_deployments v None st = (x, st1)" by fastforce
  have "rs_serving st1 = rs_serving st" using remove_all_serving [of v "all_deployers v" None st] r by (simp add: remove_deployments_def)
  then have "x = Inr ()" "rs_engine st' = rs_engine st1"
    using assms r by (cases x; auto simp: reconcileDelete_def and_then_def Let_def split: write_result.splits)+
  then show ?thesis using remove_all_in_turn r by (fastforce simp: remove_deployments_def)
qed

lemma reconcile_body_advances:
  assumes v: "services_regular v" and b: "reconcile_body v r w st = (result, st')"
  shows "advances v st st'"
proof -
  have start: "advances v st (on_serving (set_finalizers fs) st)" for fs
    by (intro steps_advances [OF v]) simp_all
  show ?thesis
  proof (cases "om_DeletionTimestamp (Serving_ObjectMeta (rs_serving st)) = None")
    case False
    then have "st' = snd (reconcileDelete v w st)" using b by (auto simp: reconcile_body_def)
    then show ?thesis
      using reconcileDelete_history [of v w st] reconcileDelete_ticks [of st v w] by (intro steps_advances [OF v]) simp_all
  next
    case True
    let ?st = "on_serving (\<lambda>s. set_finalizers (finalizers s @ [Finalizer]) s) st"
    have s: "advances v st ?st" by (intro steps_advances [OF v]) simp_all
    consider "Finalizer \<in> set (finalizers (rs_serving st))" "reconcileServing v r st = (result, st')"
      | "st' = ?st" | "reconcileServing v r ?st = (result, st')"
      using b True by (auto simp: reconcile_body_def Let_def split: if_splits option.splits)
    then show ?thesis
      using s advances_trans reconcileServing_advances [OF v] by cases blast+
  qed
qed

lemma reconcile_body_sound:
  assumes "services_trusted v keys rkeys" "histories_digested r" "caches_sound v keys rkeys st"
  shows "caches_sound v keys rkeys (snd (reconcile_body v r w st))"
proof -
  have "caches_sound v keys rkeys (snd (reconcileDelete v w st))"
    using caches_sound_eq [OF reconcileDelete_caches [of v w st], of v] assms(3) by simp
  moreover have "caches_sound v keys rkeys (on_serving f st)" for f using assms(3) by simp
  ultimately show ?thesis
    using reconcileServing_sound [OF assms(1,2)] assms(3) by (simp add: reconcile_body_def Let_def split: option.split)
qed

lemma Reconcile_stores:
  assumes "get_Serving r ns name = Inr serving"
  shows "\<exists>result stored st'. Reconcile v r w ns name st = (result, Some stored, st')"
  using assms by (simp add: Reconcile_def split_beta)

lemma patchStatus_stored:
  "snd (patchStatus w s before result) = before \<or>
   historyOf (s\<lparr>Serving_Status := snd (patchStatus w s before result)\<rparr>) = historyOf s"
  by (auto simp: patchStatus_def Let_def historyOf_def on_status_def split: write_result.split sum.split)

end
