(* ===== verification/Serving_Sample.thy ===== *)
theory Serving_Sample
  imports Serving_Safety
begin

text \<open>
  A concrete world to evaluate the Serving controller in: one Order after an upstream Order, a candidate
  whose promotion is pending, one Cluster, an engine that remembers what it applies where, and caches,
  signatures and a registry given by functions that compute.
\<close>

definition sample_meta :: "string \<Rightarrow> object_meta" where
  "sample_meta name = \<lparr>om_Name = name, om_Namespace = ''ns'', om_UID = [], om_Generation = 1, om_CreationTimestamp = 0,
     om_DeletionTimestamp = None, om_Labels = [], om_Annotations = [], om_Finalizers = [Finalizer],
        om_OwnerReferences = [], om_ResourceVersion = []\<rparr>"

definition sample_stage_order :: "string \<Rightarrow> string \<Rightarrow> Order" where
  "sample_stage_order name environment = \<lparr>Order_ObjectMeta = sample_meta name,
     Order_Spec = \<lparr>OrderSpec_ProductRef = \<lparr>ProductRef_Name = ''app''\<rparr>, OrderSpec_Values = None, OrderSpec_Destination = None,
       OrderSpec_RegistryRefs = [], OrderSpec_Patches = [], OrderSpec_Edits = [], OrderSpec_Promotion = None,
       OrderSpec_EnvironmentRef = \<lparr>EnvironmentRef_Name = environment\<rparr>, OrderSpec_TargetNamespace = ''app''\<rparr>,
     Order_Status = \<lparr>OrderStatus_ObservedGeneration = 0, OrderStatus_LatestPreparationName = [], OrderStatus_LatestArtifactDigest = [],
       OrderStatus_LatestConfigHash = [], OrderStatus_Render = None, OrderStatus_RegistryAccess = [], OrderStatus_Conditions = []\<rparr>\<rparr>"

definition sample_candidate_prep :: Preparation where
  "sample_candidate_prep = crowd_preparation\<lparr>Preparation_ObjectMeta := sample_meta ''p'',
     Preparation_Spec := (Preparation_Spec crowd_preparation)\<lparr>PreparationSpec_ProductRevision := ''rev'', PreparationSpec_TargetNamespace := ''app'',
       PreparationSpec_Promotion := Some \<lparr>PromotionGates_Approvals = None,
         PromotionGates_After = [\<lparr>UpstreamStage_Order = ''staging'', UpstreamStage_SoakSeconds = 60\<rparr>], PromotionGates_Checks = None\<rparr>,
       PreparationSpec_Artifact := \<lparr>Artifact_OCIRef = ''oci://r/p@sha256:ab'', Artifact_Digest = ''sha256:ab'', Artifact_RegistryRef = None\<rparr>\<rparr>,
     Preparation_Status := (Preparation_Status crowd_preparation)\<lparr>PreparationStatus_Conditions :=
       [\<lparr>c_Type = ConditionTypeReady, c_Status = ConditionTrue, c_ObservedGeneration = 1, c_LastTransitionTime = 0, c_Reason = [], c_Message = []\<rparr>]\<rparr>\<rparr>"

text \<open>What staging deployed, healthily for a minute and more, with its record.\<close>

definition staged_entry :: entry where
  "staged_entry = \<lparr>e_Preparation = ''q'', e_Digest = ''sha256:cd'', e_OCIRef = ''oci://r/p@sha256:cd'', e_Registry = [],
     e_ProductRevision = ''rev'', e_Started = second, e_Healthy = 2 * second, e_Ended = 0, e_EndReason = EndNone,
     e_PromotionRecord = ''sha256:pr'', e_DeploymentRecord = ''sha256:dr''\<rparr>"

definition serving_with :: "string \<Rightarrow> history \<Rightarrow> Serving" where
  "serving_with name h = setHistory (sample_serving\<lparr>Serving_ObjectMeta := sample_meta name, Serving_Spec := (Serving_Spec sample_serving)\<lparr>ServingSpec_OrderName := name\<rparr>\<rparr>) h"

definition sample_environment :: Environment where
  "sample_environment = \<lparr>Environment_ObjectMeta = sample_meta ''prod'',
     Environment_Spec = \<lparr>EnvironmentSpec_Description = [],
       EnvironmentSpec_ClusterSelector = \<lparr>ls_MatchLabels = [], ls_MatchExpressions = []\<rparr>,
       EnvironmentSpec_Deployer = \<lparr>Deployer_Type = DeployerTypeArgoCD, Deployer_ArgoCD = None\<rparr>,
       EnvironmentSpec_Promotion = Some \<lparr>EnvironmentPromotion_RequireAfter =
         [\<lparr>RequiredEnvironment_Environment = ''test'', RequiredEnvironment_MinSoakSeconds = 30\<rparr>]\<rparr>\<rparr>,
     Environment_Status = \<lparr>EnvironmentStatus_ObservedGeneration = 0, EnvironmentStatus_Clusters = None, EnvironmentStatus_Conditions = []\<rparr>\<rparr>"

definition sample_reads :: "history \<Rightarrow> api_reads" where
  "sample_reads h = \<lparr>
     get_Serving = (\<lambda>_ name. if name = ''o'' then Inr (serving_with ''o'' h)
       else if name = ''staging'' then Inr (serving_with ''staging'' [staged_entry]) else Inl (NotFound [])),
     get_Order = (\<lambda>_ name. if name = ''o'' then Inr (sample_stage_order ''o'' ''prod'')
       else if name = ''staging'' then Inr (sample_stage_order ''staging'' ''test'') else Inl (NotFound [])),
     get_Preparation = (\<lambda>_ name. if name = ''p'' then Inr sample_candidate_prep else Inl (NotFound [])),
     get_Environment = (\<lambda>_ name. if name = ''prod'' then Inr sample_environment else Inl (NotFound [])),
     get_Product = (\<lambda>_ _. Inl (NotFound [])), get_Kitchen = (\<lambda>_ _. Inl (NotFound [])),
     list_Preparations = (\<lambda>_ _. Inr [sample_candidate_prep]), list_Approvals = (\<lambda>_ _. Inr []),
     list_Clusters = (\<lambda>_. Inr [sample_cluster ''c'' ''https://c''])\<rparr>"

text \<open>The registry attests what staging deployed and holds provenance for the candidate; it takes any record.\<close>

definition sample_records :: "(record_key list, string, unit) record_reader" where
  "sample_records = list_reader\<lparr>verify_referrer := (\<lambda>_ _ _ _ _. Inr (statement_json ''n'' ''cd'' DeploymentPredicateType
     (deployment_json (deployment_predicate_of ''ns/staging'' staged_entry []))))\<rparr>"

definition sample_evidence :: "(verified_key list, string, unit) evidence_reader" where
  "sample_evidence = sample_evidence_reader\<lparr>ev_parse := (\<lambda>_. Inr \<lparr>ref_Registry = ''r'', ref_Repository = ''p'', ref_Tag = [], ref_Digest = ''sha256:ab''\<rparr>)\<rparr>"

text \<open>An engine that remembers the digest it was last pointed at on each server, and reports it healthy.\<close>

type_synonym sample_engine = "(string \<times> string) list"

definition sample_deployer :: "sample_engine deployer" where
  "sample_deployer = \<lparr>en_Admit = (\<lambda>_ _. Inr \<lparr>ad_reason = [], ad_message = []\<rparr>),
     en_Apply = (\<lambda>_ _ e t applied. (Inr \<lparr>ts_health = HealthHealthy, ts_revision = e_Digest e, ts_message = [], ts_held = []\<rparr>,
       (tg_cluster t, e_Digest e) # filter (\<lambda>x. fst x \<noteq> tg_cluster t) applied)),
     en_Remove = (\<lambda>_ keep applied. case keep of
         None \<Rightarrow> ((map fst applied, None), [])
       | Some kept \<Rightarrow> ((filter (\<lambda>c. c \<notin> set kept) (map fst applied), None), filter (\<lambda>x. fst x \<in> set kept) applied))\<rparr>"

definition sample_services :: "(string, unit, unit, unit, verified_key list, record_key list, sample_engine) services" where
  "sample_services = \<lparr>sv_conditions = list_library, sv_as_selector = (\<lambda>_. Inr (\<lambda>_. True)),
     sv_signing = Inr \<lparr>st_Trust = ''k'', st_Signer = ()\<rparr>, sv_connect_recorded = (\<lambda>_ _ _ _. Inr ()), sv_scope = (\<lambda>_ _. Inr ()),
     sv_scope_connect = (\<lambda>_ _. Inr ()),
     sv_writer = (\<lambda>_ _. \<lparr>parse_ref = (\<lambda>_. Inr \<lparr>ref_Registry = ''r'', ref_Repository = ''p'', ref_Tag = [], ref_Digest = ''sha256:ab''\<rparr>),
       attest = (\<lambda>_ _ _ _. Inr ''sha256:rec'')\<rparr>),
     sv_evidence = sample_evidence, sv_records = sample_records, sv_record_decode_error = [], sv_read_report = (\<lambda>_ _. Inr []),
     sv_deployers = [], sv_argocd = sample_deployer, sv_InstallNamespace = ''kokumi'', sv_BundledRegistryHost = [],
     sv_records_events = True, sv_clock = (\<lambda>n. (100 + int n) * second)\<rparr>"

definition sample_state :: "history \<Rightarrow> (verified_key list, record_key list, sample_engine) reconcile" where
  "sample_state h = \<lparr>rs_serving = serving_with ''o'' h, rs_evidence = [], rs_records = [], rs_engine = [], rs_ticks = 0, rs_events = []\<rparr>"


definition sample_gate_request :: gate_request where
  "sample_gate_request = upstream_request (sample_stage_order ''o'' ''prod'') sample_candidate_prep []
     [''staging'' \<mapsto> \<lparr>u_Product = ''app'', u_History = [staged_entry]\<rparr>] (100 * second)"

definition sample_verdict :: gate_result where
  "sample_verdict = gate_Evaluate sample_gate_request"

lemma sample_evaluated:
  "g_Outcome sample_verdict = OutcomeSatisfied"
  "g_Qualified sample_verdict = [\<lparr>q_Stage = \<lparr>s_Order = ''staging'', s_SoakSeconds = 60\<rparr>, q_Entry = staged_entry\<rparr>]"
  by code_simp+

lemma sample_stages: "stagesOf sample_candidate_prep = [\<lparr>s_Order = ''staging'', s_SoakSeconds = 60\<rparr>]"
  by (simp add: stagesOf_def sample_candidate_prep_def Preparation_UpstreamStages_def)

lemma sample_required: "requirements (sample_reads h) (sample_stage_order ''o'' ''prod'') = Inr [\<lparr>m_Environment = ''test'', m_MinSoakSeconds = 30\<rparr>]"
  by (simp add: requirements_def sample_reads_def sample_environment_def sample_stage_order_def)

lemma historyOf_serving_with [simp]: "historyOf (serving_with name h) = h"
  by (simp add: serving_with_def)

lemma sample_read: "read_upstreams (sample_reads h) ns (stagesOf sample_candidate_prep) Map.empty Map.empty =
    Inr ([''staging'' \<mapsto> ''test''], [''staging'' \<mapsto> \<lparr>u_Product = ''app'', u_History = [staged_entry]\<rparr>])"
  by (simp add: sample_stages sample_reads_def sample_stage_order_def)

lemma sample_met: "Required (stagesOf sample_candidate_prep) [''staging'' \<mapsto> ''test''] [\<lparr>m_Environment = ''test'', m_MinSoakSeconds = 30\<rparr>] = []"
  unfolding Required_iff by (simp add: sample_stages environment_of_def)

lemma sample_verified:
  assumes "rs_records st = []"
  shows "verifyDeployment sample_services (sample_reads h) ''ns'' \<lparr>q_Stage = \<lparr>s_Order = ''staging'', s_SoakSeconds = 60\<rparr>, q_Entry = staged_entry\<rparr> st
    = (None, st\<lparr>rs_records := [record_key_of ''k'' ''ns/staging'' staged_entry]\<rparr>)"
  using assms
  by (simp add: verifyDeployment_def sample_services_def RecordVerifier_Verify_def sample_records_def list_reader_def
      list_get_def list_add_def connect_def verify_fetched_def decode_deployment_statement VerifyDeployment_own Let_def)

lemma sample_identity [simp]:
  "serving_namespace (serving_with name h) = ''ns''" "order_name (serving_with name h) = name"
  by (simp_all add: serving_with_def setHistory_def on_status_def sample_meta_def)

lemma sample_candidate_simps [simp]:
  "preparation_name sample_candidate_prep = ''p''" "preparation_namespace sample_candidate_prep = ''ns''"
  "Preparation_ApprovalPolicy sample_candidate_prep = None" "vulnerabilities_of sample_candidate_prep = None"
  "Artifact_Digest (preparation_artifact sample_candidate_prep) = ''sha256:ab''"
  "is_condition_true list_library (preparation_conditions sample_candidate_prep) ConditionTypeReady"
  by (simp_all add: sample_candidate_prep_def sample_meta_def Preparation_ApprovalPolicy_def vulnerabilities_of_def
      Preparation_PromotionChecks_def list_library_def find_first_def)

definition sample_gated :: "history \<Rightarrow> (verified_key list, record_key list, sample_engine) reconcile" where
  "sample_gated h = on_serving (mark_true sample_services ConditionTypeUpstreamDeployed ReasonSatisfied (''p: '' @ g_Message sample_verdict))
     ((sample_state h)\<lparr>rs_ticks := 1, rs_records := [record_key_of ''k'' ''ns/staging'' staged_entry]\<rparr>)"

lemma sample_upstream_gate:
  "upstream_gate sample_services (sample_reads h) (sample_stage_order ''o'' ''prod'') sample_candidate_prep [] (sample_state h) =
     (Inr sample_verdict, sample_gated h)"
proof -
  have v: "verifyDeployment sample_services (sample_reads h) ''ns'' \<lparr>q_Stage = \<lparr>s_Order = ''staging'', s_SoakSeconds = 60\<rparr>, q_Entry = staged_entry\<rparr>
      ((sample_state h)\<lparr>rs_ticks := Suc 0\<rparr>) = (None, (sample_state h)\<lparr>rs_ticks := Suc 0, rs_records := [record_key_of ''k'' ''ns/staging'' staged_entry]\<rparr>)"
    by (subst sample_verified) (simp_all add: sample_state_def)
  have req: "upstream_request (sample_stage_order ''o'' ''prod'') sample_candidate_prep [] [''staging'' \<mapsto> \<lparr>u_Product = ''app'', u_History = [staged_entry]\<rparr>]
      (sv_clock sample_services 0) = sample_gate_request"
    by (simp add: sample_gate_request_def sample_services_def)
  have ns: "serving_namespace (rs_serving (sample_state h)) = ''ns''" "rs_ticks (sample_state h) = 0" by (simp_all add: sample_state_def)
  have lib: "sv_clock sample_services 0 = 100 * second" by (simp add: sample_services_def)
  show ?thesis
    unfolding upstream_gate_def Let_def sample_required sample_read sample_met clock_def
    by (simp add: ns sample_met [unfolded sample_stages] req sample_stages evaluate_upstream_def Let_def sample_verdict_def [symmetric] sample_evaluated Satisfied_def v sample_gated_def sample_read)
qed


definition sample_checked :: "history \<Rightarrow> (verified_key list, record_key list, sample_engine) reconcile" where
  "sample_checked h = snd (gate sample_services (sample_reads h) sample_candidate_prep True
     (snd (checks sample_services (sample_reads h) sample_candidate_prep (sample_gated h))))"

lemma sample_checks:
  "checks sample_services (sample_reads h) sample_candidate_prep (sample_gated h) =
     (Inr \<lparr>cv_passed = True, cv_recheck = 0, cv_evidence = None\<rparr>, snd (checks sample_services (sample_reads h) sample_candidate_prep (sample_gated h)))"
  by (simp add: checks_def)

lemma sample_gate:
  "gate sample_services (sample_reads h) sample_candidate_prep True (snd (checks sample_services (sample_reads h) sample_candidate_prep (sample_gated h)))
    = (Inr True, sample_checked h)"
proof -
  have "\<not> gd_Blocked (approval_Gate is_true sample_candidate_prep [])" for is_true
    unfolding approval_gate_open_iff by simp
  moreover have "list_Approvals (sample_reads h) = (\<lambda>_ _. Inr [])" by (simp add: sample_reads_def)
  ultimately show ?thesis by (simp add: sample_checked_def gate_def Let_def)
qed

lemma sample_checked_state:
  "rs_evidence (sample_checked h) = []" "rs_ticks (sample_checked h) = 1"
  "serving_namespace (rs_serving (sample_checked h)) = ''ns''" "order_name (rs_serving (sample_checked h)) = ''o''"
  "rs_history (sample_checked h) = h"
proof -
  have "keeps (sample_gated h) (sample_checked h)"
    unfolding sample_checked_def by (rule keeps_trans [OF checks_keeps gate_keeps])
  moreover have "keeps (sample_state h) (sample_gated h)" by (simp add: sample_gated_def sample_state_def keeps_def)
  ultimately have k: "keeps (sample_state h) (sample_checked h)" by (blast intro: keeps_trans)
  have st: "serving_namespace (rs_serving (sample_state h)) = ''ns''" "order_name (rs_serving (sample_state h)) = ''o''" "rs_history (sample_state h) = h"
    by (simp_all add: sample_state_def)
  show "serving_namespace (rs_serving (sample_checked h)) = ''ns''" "order_name (rs_serving (sample_checked h)) = ''o''"
    "rs_history (sample_checked h) = h"
    using keeps_names [OF k] k st by (simp_all add: keeps_def)
  show "rs_evidence (sample_checked h) = []" "rs_ticks (sample_checked h) = 1"
    by (simp_all add: sample_checked_def gate_def checks_def sample_gated_def sample_state_def sample_reads_def Let_def)
qed

lemma sample_verify:
  "verify sample_services (sample_reads h) sample_candidate_prep (sample_checked h) =
     (Inr True, snd (verify sample_services (sample_reads h) sample_candidate_prep (sample_checked h)))"
proof -
  let ?v = sample_evidence
  have "(Verify_evidence ?v () ''k'' sample_candidate_prep ''ns/o'' :: registry_error evidence_failure option) = None"
    unfolding Verify_evidence_None using sample_provenance_decodes by (simp add: sample_evidence_def sample_evidence_reader_def)
  then have "Verifier_Verify ?v ''k'' sample_candidate_prep ''ns/o'' (Inr () :: registry_error + unit) []
      = (None, ev_add ?v [] (verified_key_of ''k'' sample_candidate_prep ''ns/o''))"
    by (simp add: Verifier_Verify_def Let_def) (simp add: sample_evidence_def sample_evidence_reader_def list_get_def)
  moreover have "connect sample_services r ns name recorded url = Inr ()" for r ns name recorded url
    by (simp add: sample_services_def connect_def)
  moreover have "sv_signing sample_services = Inr \<lparr>st_Trust = ''k'', st_Signer = ()\<rparr>" "sv_evidence sample_services = ?v"
    by (simp_all add: sample_services_def)
  ultimately show ?thesis by (simp add: verify_def sample_checked_state)
qed

lemma sample_record:
  assumes "Pending h = Some pending" "e_Digest pending = ''sha256:ab''"
  shows "recordPromotion sample_services r s (sample_stage_order ''o'' ''prod'') sample_candidate_prep h upstream c = Inr ''sha256:rec''"
proof -
  have "\<exists>bytes. PromotionStatement order mode pending previous gates = Inr bytes" for order mode previous gates
    unfolding PromotionStatement_def NewStatement_Inr by (simp add: assms(2))
  then obtain bytes where bytes: "\<And>order mode previous gates. PromotionStatement order mode pending previous gates = Inr (bytes order mode previous gates)"
    by metis
  have "PushPromotion (sv_writer sample_services () ()) order mode h gates = Inr ''sha256:rec''" for order mode gates
    by (simp add: PushPromotion_def assms(1) bytes push_def sample_services_def)
  moreover have "connect sample_services r ns name recorded url = Inr ()" for r ns name recorded url
    by (simp add: sample_services_def connect_def)
  moreover have "sv_signing sample_services = Inr \<lparr>st_Trust = ''k'', st_Signer = ()\<rparr>" by (simp add: sample_services_def)
  ultimately show ?thesis by (simp add: recordPromotion_def Let_def)
qed

lemma sample_pending_history:
  "Next ''p'' [sample_pending] = StepRecord" "Drop [sample_pending] = []" "history_wf [sample_pending]"
  "deployed_name [sample_pending] = None" "deployed_name (Start ''sha256:rec'' [sample_pending]) = Some ''p''"
  using sample_pending_wf
  by (simp_all add: Next_def Drop_def Start_def sample_pending_def Promoted_def history_wf_def MaxEntries_def)

lemma sample_libraries [simp]: "sv_conditions sample_services = list_library" "sv_evidence sample_services = sample_evidence"
  "sv_records sample_services = sample_records"
  by (simp_all add: sample_services_def)

definition sample_ready :: "history \<Rightarrow> (verified_key list, record_key list, sample_engine) reconcile" where
  "sample_ready h = snd (verify sample_services (sample_reads h) sample_candidate_prep (sample_checked h))"

lemma sample_gates_passed:
  assumes "Drop h = []"
  shows "gates_passed sample_services (sample_reads h) (sample_stage_order ''o'' ''prod'') sample_candidate_prep (sample_state h)
     sample_verdict \<lparr>cv_passed = True, cv_recheck = 0, cv_evidence = None\<rparr> (sample_ready h)"
proof -
  have h: "rs_history (sample_state h) = h" by (simp add: sample_state_def)
  show ?thesis
    unfolding gates_passed_def h assms
  proof (intro conjI exI)
    show "upstream_gate sample_services (sample_reads h) (sample_stage_order ''o'' ''prod'') sample_candidate_prep []
        (sample_state h) = (Inr sample_verdict, sample_gated h)" by (rule sample_upstream_gate)
    show "gate sample_services (sample_reads h) sample_candidate_prep True
        (snd (checks sample_services (sample_reads h) sample_candidate_prep (sample_gated h)))
        = (Inr True, sample_checked h)" by (rule sample_gate)
    show "verify sample_services (sample_reads h) sample_candidate_prep (sample_checked h) = (Inr True, sample_ready h)"
      unfolding sample_ready_def by (rule sample_verify)
  qed (use sample_checks [of h] in \<open>simp_all add: Satisfied_def sample_evaluated\<close>)
qed

lemma sample_state_history [simp]: "rs_history (sample_state h) = h"
  by (simp add: sample_state_def)

lemma sample_promote:
  "\<exists>result st. promote sample_services (sample_reads [sample_pending]) (sample_stage_order ''o'' ''prod'') sample_candidate_prep (sample_state [sample_pending])
      = (result, st) \<and> rs_history st = Start ''sha256:rec'' [sample_pending]"
proof -
  have "Pending [sample_pending] = Some sample_pending" "e_Digest sample_pending = ''sha256:ab''"
    by (simp_all add: sample_pending_def Promoted_def)
  note pushed = sample_record [OF this]
  show ?thesis
    unfolding promote_passed [OF sample_gates_passed [OF sample_pending_history(2)]]
    by (simp add: promote_verified_def sample_pending_history pushed)
qed

text \<open>The history after the first of the two passes of a promotion.\<close>

definition sample_opened :: history where
  "sample_opened = Open (entryOf sample_candidate_prep) (sv_clock sample_services (rs_ticks (sample_ready []))) []"

lemma sample_promoted:
  obtains result st where "promote sample_services (sample_reads [sample_pending]) (sample_stage_order ''o'' ''prod'') sample_candidate_prep
      (sample_state [sample_pending]) = (result, st)" "rs_history st = Start ''sha256:rec'' [sample_pending]"
    "history_wf (rs_history (sample_state [sample_pending]))"
    "deployed_name (rs_history st) \<noteq> deployed_name (rs_history (sample_state [sample_pending]))"
proof -
  have hs: "rs_history (sample_state [sample_pending]) = [sample_pending]" by simp
  obtain result st where p: "promote sample_services (sample_reads [sample_pending]) (sample_stage_order ''o'' ''prod'') sample_candidate_prep
      (sample_state [sample_pending]) = (result, st)" and h: "rs_history st = Start ''sha256:rec'' [sample_pending]"
    using sample_promote by blast
  have "history_wf (rs_history (sample_state [sample_pending]))" unfolding hs by (rule sample_pending_history)
  moreover have "deployed_name (rs_history st) \<noteq> deployed_name (rs_history (sample_state [sample_pending]))"
    unfolding hs h sample_pending_history by simp
  ultimately show thesis using that p h by blast
qed

lemma sample_trusted: "services_trusted sample_services set set" "caches_sound sample_services set set (sample_state h)"
  "histories_digested (sample_reads [sample_pending])"
proof -
  show "services_trusted sample_services set set"
    by (auto simp: services_trusted_def sample_evidence_def sample_evidence_reader_def sample_records_def list_reader_def
        cache_laws_list same_trust_def trust_identified_def)
  show "caches_sound sample_services set set (sample_state h)"
    by (simp add: caches_sound_def cache_sound_def sample_state_def)
  show "histories_digested (sample_reads [sample_pending])"
    by (auto simp: histories_digested_def sample_reads_def staged_entry_def sample_pending_def)
qed

end
