(* ===== verification/Serving_Properties.thy ===== *)
theory Serving_Properties
  imports Serving_Refinement Serving_Sample
begin

text \<open>
  The properties of the Serving controller: what must hold before a Preparation is deployed in place of
  another one, that a candidate which passes its gates is deployed in two passes, and what every reconcile
  keeps, whatever fails in it. The witnesses evaluate the controller in the concrete world of
  \<open>Serving_Sample\<close>.
\<close>

section \<open>Before a Preparation is deployed\<close>

text \<open>C1: A Preparation is deployed in place of another one only through every gate: it is Ready; it has no
  approval policy or its Approvals approve it, sealed and archived; every image of it passes the check it was
  rendered under, with a fresh report of the Product; its promotion was opened by an earlier pass; and the
  signed record of this promotion is in the registry, under the digest the history now holds.\<close>

theorem promotion_requires_gates:
  assumes "history_wf (rs_history st)" "promote v r order candidate st = (result, st')"
    and "deployed_name (rs_history st') \<noteq> deployed_name (rs_history st)"
  shows "is_condition_true (sv_conditions v) (preparation_conditions candidate) ConditionTypeReady
    \<and> (\<exists>approvals. list_Approvals r (preparation_namespace candidate) (preparation_name candidate) = Inr approvals
        \<and> (Preparation_ApprovalPolicy candidate = None
           \<or> ar_Approved (approval_Evaluate candidate approvals) \<and> IsSealed candidate
             \<and> (\<exists>s. sealedStatus candidate = Some s \<and> PreparationApprovalStatus_Attestation s \<noteq> None)
             \<and> is_condition_true (sv_conditions v) (preparation_conditions candidate) ConditionTypeApprovalsSealed))
    \<and> (\<forall>check. vulnerabilities_of candidate = Some check \<longrightarrow>
        (\<exists>product interval t. productOf r (rs_serving st) = Inr (Some product) \<and> scanInterval v r = Inr interval
          \<and> (\<forall>a\<in>set (Read (releaseImagesOf candidate product) (sv_read_report v (reportAccess v product))).
               image_passes (vulnerability_check check interval) (sv_clock v t) a)))
    \<and> Next (preparation_name candidate) (rs_history st) = StepRecord
    \<and> (\<exists>state client upstream c e. sv_signing v = Inr state
        \<and> PushPromotion (sv_writer v client (st_Signer state)) (serving_namespace (rs_serving st) @ ''/'' @ order_name (rs_serving st))
            (mode_name (EffectivePromotionMode order)) (rs_history st)
            (promotion_gates (serving_namespace (rs_serving st)) candidate upstream c) = Inr (e_PromotionRecord e)
        \<and> Satisfied upstream \<and> Deployed (rs_history st') = Some e \<and> e_Preparation e = preparation_name candidate)"
proof -
  obtain upstream c st1 promotion_record where
    step: "Next (preparation_name candidate) (rs_history st) = StepRecord"
    and gates: "gates_passed v r order candidate st upstream c st1"
    and pushed: "recordPromotion v r (rs_serving st1) order candidate (rs_history st) upstream c = Inr promotion_record"
    and start: "rs_history st' = Start promotion_record (rs_history st)"
    using promote_changes_deployed [OF assms] by blast
  obtain s1 s2 s3 where s: "upstream_gate v r order candidate (Drop (rs_history st)) st = (Inr upstream, s1)"
    "checks v r candidate s1 = (Inr c, s2)" "gate v r candidate True s2 = (Inr True, s3)"
    and ok: "Satisfied upstream" "cv_passed c"
      "is_condition_true (sv_conditions v) (preparation_conditions candidate) ConditionTypeReady"
    using gates by (auto simp: gates_passed_def)
  have "keeps st s1" using upstream_gate_keeps [of st v r order candidate "Drop (rs_history st)"] s(1) by simp
  note same = keeps_names(3) [OF this] and id = keeps_names(1,2) [OF gates_passed_keeps [OF gates]]
  obtain e where e: "Deployed (rs_history st') = Some e" "e_Preparation e = preparation_name candidate" "e_PromotionRecord e = promotion_record"
    using Deployed_Start [OF step, of promotion_record] start assms(3) by auto
  show ?thesis
    using ok step gate_approved [OF s(3)] checks_passed [OF s(2) ok(2)] recordPromotion_pushed [OF pushed] e
    unfolding approval_gate_open_iff same id by blast
qed

theorem promotion_requires_gates_witness:
  "\<exists>e. e_Preparation e = ''p'' \<and> e_PromotionRecord e = ''sha256:rec''
     \<and> Deployed (Start ''sha256:rec'' [sample_pending]) = Some e"
proof -
  obtain result st where p: "promote sample_services (sample_reads [sample_pending]) (sample_stage_order ''o'' ''prod'') sample_candidate_prep
      (sample_state [sample_pending]) = (result, st)" and h: "rs_history st = Start ''sha256:rec'' [sample_pending]"
    and wf: "history_wf (rs_history (sample_state [sample_pending]))"
    and changed: "deployed_name (rs_history st) \<noteq> deployed_name (rs_history (sample_state [sample_pending]))"
    by (rule sample_promoted)
  from promotion_requires_gates [OF wf p changed] sample_pending_history(5) show ?thesis
    unfolding h by (auto simp: Start_def sample_pending_def Promoted_def)
qed

text \<open>C2: A Preparation is deployed in place of another one only on evidence in the registry: whatever the cache
  of the verifier remembers, there are a signature of its artifact, provenance that names the Order of the
  Serving, and, under an approval policy, approvals that approve it, all of them trusted by the keys of this
  pass.\<close>

theorem promotion_requires_evidence:
  assumes "services_trusted v keys rkeys" "histories_digested r" "caches_sound v keys rkeys st"
    and "history_wf (rs_history st)" "promote v r order candidate st = (result, st')"
    and "deployed_name (rs_history st') \<noteq> deployed_name (rs_history st)"
  shows "\<exists>state client subject. sv_signing v = Inr state \<and> ref_Digest subject = Artifact_Digest (preparation_artifact candidate)
    \<and> (\<exists>found. ev_find (sv_evidence v) client (st_Trust state) subject SignaturePredicateType = Inr found)
    \<and> (\<exists>d statement p. ev_find (sv_evidence v) client (st_Trust state) subject ProvenancePredicateType = Inr (d, statement)
         \<and> decode_provenance statement = Some p
         \<and> provenance_order p = serving_namespace (rs_serving st) @ ''/'' @ order_name (rs_serving st))
    \<and> (Preparation_ApprovalPolicy candidate \<noteq> None \<longrightarrow>
         (\<exists>d statement a. ev_find (sv_evidence v) client (st_Trust state) subject AttestationPredicateType = Inr (d, statement)
           \<and> decode_approvals statement = Some a \<and> ap_Result a = ReasonApproved))"
proof -
  obtain upstream c st4 where gates: "gates_passed v r order candidate st upstream c st4"
    using promote_changes_deployed [OF assms(4-6)] by blast
  then obtain s1 s2 s3 where s: "upstream_gate v r order candidate (Drop (rs_history st)) st = (Inr upstream, s1)"
    "checks v r candidate s1 = (Inr c, s2)" "gate v r candidate True s2 = (Inr True, s3)" "verify v r candidate s3 = (Inr True, st4)"
    by (auto simp: gates_passed_def)
  have "caches_sound v keys rkeys s1" using upstream_gate_sound(1) [OF assms(1-3) s(1)] .
  then have sound: "caches_sound v keys rkeys s3"
    using caches_sound_checks [of v keys rkeys r candidate s1] caches_sound_gate [of v keys rkeys r candidate True s2] s(2,3) by simp
  have "keeps st s1" "keeps s1 s2" "keeps s2 s3"
    using upstream_gate_keeps [of st v r order candidate "Drop (rs_history st)"] checks_keeps [of s1 v r candidate]
      gate_keeps [of s2 v r candidate True] s by simp_all
  then have "keeps st s3" by (blast intro: keeps_trans)
  note names = keeps_names(1,2) [OF this]
  show ?thesis using verify_sound(2) [OF assms(1) sound s(4) refl] unfolding names evidenced_def by blast
qed

theorem promotion_requires_evidence_witness:
  "\<exists>subject d statement p. ev_find sample_evidence () ''k'' subject ProvenancePredicateType = Inr (d, statement)
     \<and> decode_provenance statement = Some p \<and> provenance_order p = ''ns/o'' \<and> ref_Digest subject = ''sha256:ab''"
proof -
  obtain result st where p: "promote sample_services (sample_reads [sample_pending]) (sample_stage_order ''o'' ''prod'') sample_candidate_prep
      (sample_state [sample_pending]) = (result, st)" and h: "rs_history st = Start ''sha256:rec'' [sample_pending]"
    and wf: "history_wf (rs_history (sample_state [sample_pending]))"
    and changed: "deployed_name (rs_history st) \<noteq> deployed_name (rs_history (sample_state [sample_pending]))"
    by (rule sample_promoted)
  have signed: "sv_signing sample_services = Inr \<lparr>st_Trust = ''k'', st_Signer = ()\<rparr>"
    and order: "serving_namespace (rs_serving (sample_state h)) @ ''/'' @ order_name (rs_serving (sample_state h)) = ''ns/o''" for h
    by (simp_all add: sample_services_def sample_state_def)
  show ?thesis
    using promotion_requires_evidence [OF sample_trusted(1,3,2) wf p changed] unfolding signed order
    by (auto simp del: not_Some_eq)
qed

text \<open>C3: A Preparation that was never deployed here is deployed only after its upstream stages: for every
  Environment that must come first there is a stage that deploys to it and soaks long enough, and each stage
  has a deployment of the same revision of the same Product, in the history of its Serving, that was healthy
  for the soak time and never degraded, and whose deployment record in the registry attests it.\<close>

theorem promotion_requires_upstreams:
  assumes "services_trusted v keys rkeys" "histories_digested r" "caches_sound v keys rkeys st"
    and "history_wf (rs_history st)" "promote v r order candidate st = (result, st')"
    and "deployed_name (rs_history st') \<noteq> deployed_name (rs_history st)"
    and "PromotedBefore (preparation_name candidate) (Drop (rs_history st)) = None"
  shows "(\<exists>required. requirements r order = Inr required
      \<and> (\<forall>q\<in>set required. \<exists>s\<in>set (stagesOf candidate).
           order_environment r (serving_namespace (rs_serving st)) (s_Order s) = m_Environment q
         \<and> sint (m_MinSoakSeconds q) \<le> sint (s_SoakSeconds s)))
    \<and> (\<forall>s\<in>set (stagesOf candidate). stage_attested v r (serving_namespace (rs_serving st)) order candidate (sv_clock v (rs_ticks st)) s)"
proof -
  obtain upstream c st4 s1 where u: "upstream_gate v r order candidate (Drop (rs_history st)) st = (Inr upstream, s1)" and "Satisfied upstream"
    using promote_changes_deployed [OF assms(4-6)] by (auto simp: gates_passed_def)
  then show ?thesis using upstream_gate_sound(2) [OF assms(1-3) u refl _ assms(7)] by blast
qed

theorem promotion_requires_upstreams_witness:
  "stage_attested sample_services (sample_reads [sample_pending]) ''ns'' (sample_stage_order ''o'' ''prod'') sample_candidate_prep
     (100 * second) \<lparr>s_Order = ''staging'', s_SoakSeconds = 60\<rparr>"
proof -
  obtain result st where p: "promote sample_services (sample_reads [sample_pending]) (sample_stage_order ''o'' ''prod'') sample_candidate_prep
      (sample_state [sample_pending]) = (result, st)" and h: "rs_history st = Start ''sha256:rec'' [sample_pending]"
    and wf: "history_wf (rs_history (sample_state [sample_pending]))"
    and changed: "deployed_name (rs_history st) \<noteq> deployed_name (rs_history (sample_state [sample_pending]))"
    by (rule sample_promoted)
  have new: "PromotedBefore (preparation_name sample_candidate_prep) (Drop (rs_history (sample_state [sample_pending]))) = None"
    using sample_pending_history(2) by (simp add: sample_state_def)
  have s: "serving_namespace (rs_serving (sample_state h)) = ''ns''" "sv_clock sample_services (rs_ticks (sample_state h)) = 100 * second" for h
    by (simp_all add: sample_state_def sample_services_def)
  show ?thesis
    using promotion_requires_upstreams [OF sample_trusted(1,3,2) wf p changed new] unfolding s sample_stages by simp
qed

section \<open>A candidate that passes its gates\<close>

text \<open>C4: A candidate that passes its gates in two passes is deployed: the first pass opens its promotion, leaves
  what is deployed alone and asks to be run again within a second; the second one, once the record of the
  promotion is in the registry, deploys the candidate under it.\<close>

theorem promotion_completes:
  assumes "history_wf (rs_history st)" "Next (preparation_name candidate) (rs_history st) = StepOpen"
    and "gates_passed v r order candidate st upstream c st1" "promote v r order candidate st = (result, st2)"
    and "rs_history st3 = rs_history st2" "gates_passed v' r' order' candidate st3 upstream' c' st4"
    and "recordPromotion v' r' (rs_serving st4) order' candidate (rs_history st3) upstream' c' = Inr promotion_record"
    and "promotion_record \<noteq> []" "promote v' r' order' candidate st3 = (result', st5)"
  shows "(\<exists>held. result = Inr (second, held)) \<and> Deployed (rs_history st2) = Deployed (rs_history st)
    \<and> result' = Inr (cv_recheck c', [])
    \<and> (\<exists>e. Deployed (rs_history st5) = Some e \<and> e_Preparation e = preparation_name candidate \<and> e_PromotionRecord e = promotion_record
        \<and> e_Digest e = Artifact_Digest (preparation_artifact candidate))"
proof -
  let ?h = "rs_history st" and ?name = "preparation_name candidate"
  have name: "e_Preparation (entryOf candidate) = ?name" and digest: "e_Digest (entryOf candidate) = Artifact_Digest (preparation_artifact candidate)"
    by (simp_all add: entryOf_def)
  have first: "result = Inr (historyPassInterval, ''Recording the promotion of Preparation '' @ ?name)"
      "rs_history st2 = Open (entryOf candidate) (sv_clock v (rs_ticks st1)) ?h"
    using assms(4) promote_passed [OF assms(3)] assms(2) by (auto simp: promote_verified_def)
  have step: "Next ?name (rs_history st2) = StepRecord"
    using Next_Open [OF assms(1), of "entryOf candidate"] assms(2) first(2) by (simp add: name)
  have second: "result' = Inr (cv_recheck c', [])" "rs_history st5 = Start promotion_record (rs_history st2)"
    using assms(5,7,9) promote_passed [OF assms(6)] step by (auto simp: promote_verified_def)
  have "\<exists>e. Deployed (Start promotion_record (rs_history st2)) = Some e \<and> e_Preparation e = ?name \<and> e_PromotionRecord e = promotion_record
      \<and> e_Digest e = Artifact_Digest (preparation_artifact candidate)"
    using assms(8) unfolding first(2)
    by (simp add: Open_def prepend_def MaxEntries_def Start_def Promoted_def pending_entry_def name digest)
  then show ?thesis
    using first second Deployed_Open [OF assms(1), of "entryOf candidate"] by (simp add: historyPassInterval_def)
qed


theorem promotion_completes_witness:
  "\<exists>result st. promote sample_services (sample_reads sample_opened) (sample_stage_order ''o'' ''prod'') sample_candidate_prep (sample_state sample_opened)
      = (result, st) \<and> result = Inr (0, []) \<and> (\<exists>e. Deployed (rs_history st) = Some e \<and> e_Preparation e = ''p'')"
proof -
  obtain result st where p: "promote sample_services (sample_reads []) (sample_stage_order ''o'' ''prod'') sample_candidate_prep (sample_state [])
      = (result, st)" by fastforce
  obtain result' st' where p': "promote sample_services (sample_reads sample_opened) (sample_stage_order ''o'' ''prod'') sample_candidate_prep
      (sample_state sample_opened) = (result', st')" by fastforce
  have pending: "Pending sample_opened = Some (hd sample_opened)" "e_Digest (hd sample_opened) = ''sha256:ab''" "Drop sample_opened = []"
    by (simp_all add: sample_opened_def Open_def Drop_def prepend_def MaxEntries_def pending_entry_def Promoted_def entryOf_def)
  have start: "Drop [] = ([] :: history)" "history_wf (rs_history (sample_state []))"
    "Next (preparation_name sample_candidate_prep) (rs_history (sample_state [])) = StepOpen"
    by (simp_all add: Drop_def Next_def)
  have opened: "rs_history (sample_state sample_opened) = rs_history st"
    using p promote_passed [OF sample_gates_passed [OF start(1)]] start(3) by (auto simp: promote_verified_def sample_opened_def)
  note completes = promotion_completes [OF start(2,3) sample_gates_passed [OF start(1)] p opened sample_gates_passed [OF pending(3)]
      _ _ p', of "''sha256:rec''"]
  show ?thesis using completes sample_record [OF pending(1,2)] p' by auto
qed


section \<open>Every reconcile\<close>

text \<open>C5: A request refines the abstract machine of a stage: whatever it decides, deploys and observes, and
  wherever it fails, the history it stores is reached from the one it read by steps of that machine at
  times that its clock reads; a well-formed history therefore stays well-formed.\<close>

theorem reconcile_refines_history:
  assumes "services_regular v" "get_Serving r ns name = Inr serving"
    and "Reconcile v r w ns name st = (result, Some stored, st')" "now \<le> sv_clock v (rs_ticks st)"
  shows "\<exists>t. now \<le> t \<and> t \<le> sv_clock v (rs_ticks st')
    \<and> history_step\<^sup>*\<^sup>* (now, historyOf serving) (t, historyOf (serving\<lparr>Serving_Status := stored\<rparr>))
    \<and> (second \<le> now \<and> history_wf (historyOf serving) \<longrightarrow> history_wf (historyOf (serving\<lparr>Serving_Status := stored\<rparr>)))"
proof -
  let ?st = "st\<lparr>rs_serving := serving\<rparr>" and ?after = "serving\<lparr>Serving_Status := stored\<rparr>"
  obtain result1 st1 where b: "reconcile_body v r w ?st = (result1, st1)" by fastforce
  have st1: "st' = st1" and stored: "stored = snd (patchStatus w (rs_serving st1) (Serving_Status serving) result1)"
    using assms(2,3) b by (auto simp: Reconcile_def split: prod.splits)
  have "advances v ?st st1" using reconcile_body_advances [OF assms(1) b] .
  then obtain t where t: "now \<le> t" "t \<le> sv_clock v (rs_ticks st')" "history_step\<^sup>*\<^sup>* (now, historyOf serving) (t, rs_history st1)"
    using assms(4) by (auto simp: advances_def st1)
  have kept: "historyOf ?after = historyOf serving \<or> historyOf ?after = rs_history st1"
    using patchStatus_stored [of w "rs_serving st1" "Serving_Status serving" result1] stored by (auto simp: historyOf_def)
  have steps: "history_step\<^sup>*\<^sup>* (now, historyOf serving) (t', historyOf ?after) \<and> t' \<le> t \<and> now \<le> t'"
    if "t' = (if historyOf ?after = historyOf serving then now else t)" for t'
    using kept t that by auto
  have wf: "second \<le> fst s \<and> history_wf (snd s) \<longrightarrow> history_wf (snd s')" if "history_step\<^sup>*\<^sup>* s s'" for s s'
    using that
  proof (induction rule: converse_rtranclp_induct)
    case (step y z)
    then show ?case using history_step_clock [of y z] history_step_wf [of y z] by auto
  qed simp
  show ?thesis
    using steps [OF refl] t wf [of "(now, historyOf serving)"]
    by (intro exI [of _ "if historyOf ?after = historyOf serving then now else t"]) fastforce
qed

theorem reconcile_refines_history_witness:
  "\<exists>stored. history_wf (historyOf ((serving_with ''o'' [sample_pending])\<lparr>Serving_Status := stored\<rparr>))"
proof -
  let ?v = sample_services and ?r = "sample_reads [sample_pending]"
  have regular: "services_regular ?v"
    by (auto simp: services_regular_def sample_services_def mono_def)
  have read: "get_Serving ?r ''ns'' ''o'' = Inr (serving_with ''o'' [sample_pending])" by (simp add: sample_reads_def)
  obtain result stored st where r: "Reconcile ?v ?r \<lparr>update_Serving = (\<lambda>_. Written), patch_Serving = (\<lambda>_ _. Written)\<rparr> ''ns'' ''o'' (sample_state [])
      = (result, Some stored, st)"
    using Reconcile_stores [OF read] by blast
  have now: "100 * second \<le> sv_clock ?v (rs_ticks (sample_state []))" by (simp add: sample_services_def sample_state_def)
  have "second \<le> 100 * second" by simp
  then show ?thesis
    using reconcile_refines_history [OF regular read r now] sample_pending_history(3) by auto
qed

text \<open>C6: Every request leaves sound caches: if the caches of the verifiers hold only what verified, they still
  do afterwards, whatever was verified or failed to; a deletion leaves them alone.\<close>

theorem reconcile_keeps_caches_sound:
  assumes "services_trusted v keys rkeys" "histories_digested r" "caches_sound v keys rkeys st"
  shows "caches_sound v keys rkeys (snd (snd (Reconcile v r w ns name st)))"
proof (cases "get_Serving r ns name")
  case (Inl failure)
  then show ?thesis using assms(3) by (cases failure) (simp_all add: Reconcile_def)
next
  case (Inr serving)
  have "caches_sound v keys rkeys (st\<lparr>rs_serving := serving\<rparr>)" using assms(3) by simp
  from reconcile_body_sound [OF assms(1,2) this, of w] Inr show ?thesis
    by (cases "reconcile_body v r w (st\<lparr>rs_serving := serving\<rparr>)") (simp add: Reconcile_def split: prod.split)
qed

theorem reconcile_keeps_caches_sound_witness:
  "caches_sound sample_services set set (snd (snd (Reconcile sample_services (sample_reads [sample_pending])
     \<lparr>update_Serving = (\<lambda>_. Written), patch_Serving = (\<lambda>_ _. Written)\<rparr> ''ns'' ''o'' (sample_state []))))"
  by (rule reconcile_keeps_caches_sound [OF sample_trusted(1,3,2)])

end
