(* ===== verification/Go_Hash.thy ===== *)
theory Go_Hash
  imports Go_Strings
begin

text \<open>
  What the source uses of Go's \<open>crypto/sha256\<close>, \<open>encoding/hex\<close> and \<open>encoding/base64\<close>: the SHA-256
  digest of a byte string (FIPS 180-4), its lower-case hexadecimal form, and the standard base64
  encoding in which \<open>encoding/json\<close> writes byte slices.
\<close>

section \<open>SHA-256\<close>

definition sha256_constants :: "int32 list" where
  "sha256_constants =
    [1116352408, 1899447441, 3049323471, 3921009573, 961987163, 1508970993, 2453635748, 2870763221,
     3624381080, 310598401, 607225278, 1426881987, 1925078388, 2162078206, 2614888103, 3248222580,
     3835390401, 4022224774, 264347078, 604807628, 770255983, 1249150122, 1555081692, 1996064986,
     2554220882, 2821834349, 2952996808, 3210313671, 3336571891, 3584528711, 113926993, 338241895,
     666307205, 773529912, 1294757372, 1396182291, 1695183700, 1986661051, 2177026350, 2456956037,
     2730485921, 2820302411, 3259730800, 3345764771, 3516065817, 3600352804, 4094571909, 275423344,
     430227734, 506948616, 659060556, 883997877, 958139571, 1322822218, 1537002063, 1747873779,
     1955562222, 2024104815, 2227730452, 2361852424, 2428436474, 2756734187, 3204031479, 3329325298]"

definition sha256_start :: "int32 list" where
  "sha256_start =
    [1779033703, 3144134277, 1013904242, 2773480762, 1359893119, 2600822924, 528734635, 1541459225]"

unbundle bit_operations_syntax

definition small_sigma0 :: "int32 \<Rightarrow> int32" where
  "small_sigma0 x = word_rotr 7 x XOR word_rotr 18 x XOR drop_bit 3 x"

definition small_sigma1 :: "int32 \<Rightarrow> int32" where
  "small_sigma1 x = word_rotr 17 x XOR word_rotr 19 x XOR drop_bit 10 x"

definition big_sigma0 :: "int32 \<Rightarrow> int32" where
  "big_sigma0 x = word_rotr 2 x XOR word_rotr 13 x XOR word_rotr 22 x"

definition big_sigma1 :: "int32 \<Rightarrow> int32" where
  "big_sigma1 x = word_rotr 6 x XOR word_rotr 11 x XOR word_rotr 25 x"

definition choose_bits :: "int32 \<Rightarrow> int32 \<Rightarrow> int32 \<Rightarrow> int32" where
  "choose_bits x y z = (x AND y) XOR (NOT x AND z)"

definition majority_bits :: "int32 \<Rightarrow> int32 \<Rightarrow> int32 \<Rightarrow> int32" where
  "majority_bits x y z = (x AND y) XOR (x AND z) XOR (y AND z)"

text \<open>The message schedule, newest word first, and the rounds over the eight working variables.\<close>

fun extend_schedule :: "nat \<Rightarrow> int32 list \<Rightarrow> int32 list" where
  "extend_schedule 0 ws = ws"
| "extend_schedule (Suc n) ws =
     extend_schedule n ((small_sigma1 (ws ! 1) + ws ! 6 + small_sigma0 (ws ! 14) + ws ! 15) # ws)"

fun sha256_round :: "int32 list \<Rightarrow> int32 \<times> int32 \<Rightarrow> int32 list" where
  "sha256_round [a, b, c, d, e, f, g, h] (k, w) =
     (let t1 = h + big_sigma1 e + choose_bits e f g + k + w; t2 = big_sigma0 a + majority_bits a b c
      in [t1 + t2, a, b, c, d + t1, e, f, g])"
| "sha256_round vs kw = vs"

definition sha256_block :: "int32 list \<Rightarrow> int32 list \<Rightarrow> int32 list" where
  "sha256_block vs ws =
     map2 (+) vs (foldl sha256_round vs (zip sha256_constants (rev (extend_schedule 48 (rev ws)))))"

definition bytes_word :: "string \<Rightarrow> int32" where
  "bytes_word cs = foldl (\<lambda>v c. 256 * v + of_nat (of_char c)) 0 cs"

fun chunks :: "nat \<Rightarrow> nat \<Rightarrow> 'a list \<Rightarrow> 'a list list" where
  "chunks 0 k xs = []"
| "chunks (Suc n) k xs = take k xs # chunks n k (drop k xs)"

text \<open>The bytes of a number, most significant first, in a field of \<open>n\<close> bytes.\<close>

definition be_bytes :: "nat \<Rightarrow> nat \<Rightarrow> string" where
  "be_bytes n v = map (\<lambda>i. char_of (v div 256 ^ (n - 1 - i))) [0..<n]"

definition sha256_padded :: "string \<Rightarrow> string" where
  "sha256_padded s =
     s @ [CHR 0x80] @ replicate ((119 - length s mod 64) mod 64) (CHR 0x00) @ be_bytes 8 (8 * length s)"

definition sha256 :: "string \<Rightarrow> string" where
  "sha256 s =
     (let p = sha256_padded s;
          blocks = map (\<lambda>b. map bytes_word (chunks 16 4 b)) (chunks (length p div 64) 64 p)
      in concat (map (\<lambda>w. be_bytes 4 (unat w)) (foldl sha256_block sha256_start blocks)))"

definition hex_encode :: "string \<Rightarrow> string" where
  "hex_encode s = concat (map (\<lambda>c. [hex_digit (of_char c div 16), hex_digit (of_char c mod 16)]) s)"

lemma length_be_bytes [simp]: "length (be_bytes n v) = n"
  by (simp add: be_bytes_def)

lemma length_hex_encode [simp]: "length (hex_encode s) = 2 * length s"
  by (simp add: hex_encode_def) (induction s; simp)

lemma length_sha256_round [simp]: "length (sha256_round vs kw) = length vs"
  by (cases "(vs, kw)" rule: sha256_round.cases) (simp_all add: Let_def)

lemma length_sha256_rounds [simp]: "length (foldl sha256_round vs kws) = length vs"
  by (induction kws arbitrary: vs) simp_all

lemma length_sha256_blocks [simp]: "length (foldl sha256_block vs bs) = length vs"
  by (induction bs arbitrary: vs) (simp_all add: sha256_block_def)

lemma length_sha256 [simp]: "length (sha256 s) = 32"
proof -
  have "length (concat (map (\<lambda>w :: int32. be_bytes 4 (unat w)) ws)) = 4 * length ws" for ws
    by (induction ws) simp_all
  then show ?thesis by (simp add: sha256_def Let_def sha256_start_def)
qed

section \<open>Hexadecimal and base64\<close>

definition base64_digit :: "nat \<Rightarrow> char" where
  "base64_digit n =
     (if n < 26 then char_of (65 + n) else if n < 52 then char_of (71 + n)
      else if n < 62 then char_of (n - 4) else if n = 62 then CHR ''+'' else CHR ''/'')"

fun base64_encode :: "string \<Rightarrow> string" where
  "base64_encode [] = []"
| "base64_encode [a] =
     (let n = of_char a in [base64_digit (n div 4), base64_digit (n mod 4 * 16), CHR ''='', CHR ''=''])"
| "base64_encode [a, b] =
     (let n = of_char a * 256 + of_char b in
      [base64_digit (n div 1024), base64_digit (n div 16 mod 64), base64_digit (n mod 16 * 4), CHR ''=''])"
| "base64_encode (a # b # c # r) =
     (let n = of_char a * 65536 + of_char b * 256 + of_char c in
      [base64_digit (n div 262144), base64_digit (n div 4096 mod 64), base64_digit (n div 64 mod 64),
       base64_digit (n mod 64)] @ base64_encode r)"

text \<open>Decoding, which skips line breaks and ignores the bits padding leaves over (\<open>base64.StdEncoding\<close> is not strict).\<close>

definition base64_value :: "char \<Rightarrow> nat option" where
  "base64_value c =
     (let n = of_char c :: nat in
      if 65 \<le> n \<and> n \<le> 90 then Some (n - 65) else if 97 \<le> n \<and> n \<le> 122 then Some (n - 71)
      else if 48 \<le> n \<and> n \<le> 57 then Some (n + 4) else if c = CHR ''+'' then Some 62
      else if c = CHR ''/'' then Some 63 else None)"

fun base64_quads :: "string \<Rightarrow> string option" where
  "base64_quads [] = Some []"
| "base64_quads (a # b # c # d # r) =
     (case (base64_value a, base64_value b) of
        (Some x, Some y) \<Rightarrow>
          (if c = CHR ''='' then (if d = CHR ''='' \<and> r = [] then Some [char_of (x * 4 + y div 16)] else None)
           else (case base64_value c of
              None \<Rightarrow> None
            | Some z \<Rightarrow>
                if d = CHR ''=''
                then (if r = [] then Some [char_of (x * 4 + y div 16), char_of (y mod 16 * 16 + z div 4)] else None)
                else (case base64_value d of
                    None \<Rightarrow> None
                  | Some w \<Rightarrow> map_option ((@) [char_of (x * 4 + y div 16), char_of (y mod 16 * 16 + z div 4), char_of (z mod 4 * 64 + w)])
                      (base64_quads r))))
      | _ \<Rightarrow> None)"
| "base64_quads s = None"

definition base64_decode :: "string \<Rightarrow> string option" where
  "base64_decode s = base64_quads (filter (\<lambda>c. c \<noteq> CHR 0x0A \<and> c \<noteq> CHR 0x0D) s)"

lemma of_base64_digit:
  assumes "n < 64"
  shows "(of_char (base64_digit n) :: nat) =
     (if n < 26 then 65 + n else if n < 52 then 71 + n else if n < 62 then n - 4 else if n = 62 then 43 else 47)"
  using assms by (simp add: base64_digit_def of_char_of)

lemma base64_digit_simps:
  assumes "n < 64"
  shows "base64_value (base64_digit n) = Some n" "base64_digit n \<noteq> CHR ''=''"
    "base64_digit n \<noteq> CHR 0x0A" "base64_digit n \<noteq> CHR 0x0D"
proof -
  have special: "of_char (CHR ''='') = (61 :: nat)" "of_char (CHR 0x0A) = (10 :: nat)" "of_char (CHR 0x0D) = (13 :: nat)"
    "of_char (CHR ''+'') = (43 :: nat)" "of_char (CHR ''/'') = (47 :: nat)" by simp_all
  show "base64_value (base64_digit n) = Some n"
  proof (cases "n < 62")
    case True
    then show ?thesis unfolding base64_value_def of_base64_digit [OF assms] Let_def by auto
  next
    case False
    then have "n = 62 \<or> n = 63" using assms by linarith
    then show ?thesis by (auto simp: base64_value_def base64_digit_def Let_def)
  qed
  have "(of_char (base64_digit n) :: nat) \<notin> {61, 10, 13}" unfolding of_base64_digit [OF assms] using assms by auto
  then show "base64_digit n \<noteq> CHR ''=''" "base64_digit n \<noteq> CHR 0x0A" "base64_digit n \<noteq> CHR 0x0D"
    using special by auto
qed

lemma base64_group:
  fixes x y z w :: nat
  assumes "y < 64" "z < 64" "w < 64"
  defines "n \<equiv> ((x * 64 + y) * 64 + z) * 64 + w"
  shows "n div 262144 = x" "n div 4096 mod 64 = y" "n div 64 mod 64 = z" "n mod 64 = w"
proof -
  have "n div 64 = (x * 64 + y) * 64 + z" using assms(3) by (simp add: n_def)
  moreover from this have "n div (64 * 64) = x * 64 + y" using assms(2) by (simp add: div_mult2_eq)
  moreover from this have "n div (64 * 64 * 64) = x" using assms(1) by (simp add: div_mult2_eq [of n "64 * 64" 64])
  moreover have "n mod 64 = w" using assms(3) by (simp only: n_def mod_mult_self3 mod_less)
  moreover have "((x * 64 + y) * 64 + z) mod 64 = z" "(x * 64 + y) mod 64 = y" using assms(1,2) by (simp_all only: mod_mult_self3 mod_less)
  ultimately show "n div 262144 = x" "n div 4096 mod 64 = y" "n div 64 mod 64 = z" "n mod 64 = w" by simp_all
qed

text \<open>Three bytes in groups of six bits and back.\<close>

lemma base64_parts:
  fixes a b c :: nat
  assumes "a < 256" "b < 256" "c < 256"
  defines "n \<equiv> a * 65536 + b * 256 + c"
  shows "n div 262144 = a div 4" "n div 4096 mod 64 = a mod 4 * 16 + b div 16"
    "n div 64 mod 64 = b mod 16 * 4 + c div 64" "n mod 64 = c mod 64"
proof -
  have "((a1 * 64 + (a0 * 16 + b1)) * 64 + (b0 * 4 + c1)) * 64 + c0 = (a1 * 4 + a0) * 65536 + (b1 * 16 + b0) * 256 + (c1 * 64 + c0)"
    for a1 a0 b1 b0 c1 c0 :: nat by simp
  from this [of "a div 4" "a mod 4" "b div 16" "b mod 16" "c div 64" "c mod 64"]
  have n: "n = ((a div 4 * 64 + (a mod 4 * 16 + b div 16)) * 64 + (b mod 16 * 4 + c div 64)) * 64 + c mod 64"
    unfolding n_def by (simp only: div_mult_mod_eq)
  have bound: "a mod 4 * 16 + b div 16 < 64" "b mod 16 * 4 + c div 64 < 64" "c mod 64 < 64"
  proof -
    have "a mod 4 < 4" "b div 16 < 16" "b mod 16 < 16" "c div 64 < 4" using assms(2,3) by (simp_all add: less_mult_imp_div_less)
    then show "a mod 4 * 16 + b div 16 < 64" "b mod 16 * 4 + c div 64 < 64" by linarith+
  qed simp
  show "n div 262144 = a div 4" "n div 4096 mod 64 = a mod 4 * 16 + b div 16"
    "n div 64 mod 64 = b mod 16 * 4 + c div 64" "n mod 64 = c mod 64"
    unfolding n by (rule base64_group [OF bound])+
qed

lemma byte_bounds: "(of_char c :: nat) < 256" "of_char c div 4 < (64 :: nat)" "of_char c div 16 < (16 :: nat)" "of_char c div 64 < (4 :: nat)"
proof -
  show "(of_char c :: nat) < 256" by simp
  then show "of_char c div 4 < (64 :: nat)" "of_char c div 16 < (16 :: nat)" "of_char c div 64 < (4 :: nat)"
    by (simp_all add: less_mult_imp_div_less)
qed

lemma group_bounds:
  fixes a b :: nat
  shows "b < 16 \<Longrightarrow> a mod 4 * 16 + b < 64" "b < 4 \<Longrightarrow> a mod 16 * 4 + b < 64"
proof -
  have "a mod 4 < 4" "a mod 16 < 16" by simp_all
  then show "b < 16 \<Longrightarrow> a mod 4 * 16 + b < 64" "b < 4 \<Longrightarrow> a mod 16 * 4 + b < 64" by linarith+
qed

lemma group_of:
  fixes a b :: nat
  shows "b < 16 \<Longrightarrow> (a mod 4 * 16 + b) div 16 = a mod 4" "b < 16 \<Longrightarrow> (a mod 4 * 16 + b) mod 16 = b"
    "b < 4 \<Longrightarrow> (a mod 16 * 4 + b) div 4 = a mod 16" "b < 4 \<Longrightarrow> (a mod 16 * 4 + b) mod 4 = b"
  by simp_all

lemma base64_bytes:
  "base64_encode (a # b # c # r) =
     [base64_digit (of_char a div 4), base64_digit (of_char a mod 4 * 16 + of_char b div 16),
      base64_digit (of_char b mod 16 * 4 + of_char c div 64), base64_digit (of_char c mod 64)] @ base64_encode r"
  using base64_parts [OF byte_bounds(1) byte_bounds(1) byte_bounds(1), of a b c] by (simp add: Let_def del: of_char_of)

lemma base64_bytes2:
  "base64_encode [a, b] =
     [base64_digit (of_char a div 4), base64_digit (of_char a mod 4 * 16 + of_char b div 16), base64_digit (of_char b mod 16 * 4 + 0), CHR ''='']"
proof -
  have n: "(of_char a * 256 + of_char b :: nat) = (of_char a div 4 * 64 + (of_char a mod 4 * 16 + of_char b div 16)) * 16 + of_char b mod 16"
  proof -
    have "(a1 * 64 + (a0 * 16 + b1)) * 16 + b0 = (a1 * 4 + a0) * 256 + (b1 * 16 + b0)" for a1 a0 b1 b0 :: nat by simp
    from this [of "of_char a div 4" "of_char a mod 4" "of_char b div 16" "of_char b mod 16"] show ?thesis
      by (simp only: div_mult_mod_eq)
  qed
  have m: "of_char a mod 4 * 16 + of_char b div 16 < (64 :: nat)" by (simp add: group_bounds byte_bounds)
  have "(of_char a * 256 + of_char b) div 16 = of_char a div 4 * 64 + (of_char a mod 4 * 16 + of_char b div 16 :: nat)" unfolding n by simp
  moreover from this have "(of_char a * 256 + of_char b) div 16 div 64 = (of_char a div 4 :: nat)" using m by simp
  then have "(of_char a * 256 + of_char b) div 1024 = (of_char a div 4 :: nat)" by (simp add: div_mult2_eq [symmetric])
  moreover have "(of_char a * 256 + of_char b) mod 16 = (of_char b mod 16 :: nat)" by (simp only: n mod_mult_self3 mod_mod_trivial)
  ultimately show ?thesis using m by (simp add: Let_def)
qed

lemma base64_quads_encode: "base64_quads (base64_encode s) = Some s"
proof (induction s rule: base64_encode.induct)
  case (2 a)
  have "of_char a mod 4 * 16 + 0 < (64 :: nat)" by (rule group_bounds) simp
  then show ?case by (simp add: base64_digit_simps byte_bounds Let_def)
next
  case (3 a b)
  show ?case
    by (simp add: base64_bytes2 base64_digit_simps byte_bounds group_bounds group_of del: base64_encode.simps)
next
  case (4 a b c r)
  then show ?case
    by (simp add: base64_bytes base64_digit_simps byte_bounds group_bounds group_of del: base64_encode.simps)
qed simp

definition base64_char :: "char \<Rightarrow> bool" where
  "base64_char c \<longleftrightarrow> c \<noteq> CHR 0x0A \<and> c \<noteq> CHR 0x0D"

lemma base64_encode_chars: "list_all base64_char (base64_encode s)"
proof (induction s rule: base64_encode.induct)
  case (2 a)
  have "of_char a mod 4 * 16 + 0 < (64 :: nat)" by (rule group_bounds) simp
  then show ?case by (simp add: base64_char_def base64_digit_simps byte_bounds Let_def)
next
  case (3 a b)
  show ?case
    by (simp add: base64_char_def base64_bytes2 base64_digit_simps byte_bounds group_bounds del: base64_encode.simps)
next
  case (4 a b c r)
  then show ?case
    by (simp add: base64_char_def base64_bytes base64_digit_simps byte_bounds group_bounds del: base64_encode.simps)
qed simp

lemma base64_decode_encode: "base64_decode (base64_encode s) = Some s"
proof -
  have "filter (\<lambda>c. c \<noteq> CHR 0x0A \<and> c \<noteq> CHR 0x0D) (base64_encode s) = base64_encode s"
    using base64_encode_chars [of s] by (intro filter_True) (simp add: list_all_iff base64_char_def)
  then show ?thesis by (simp add: base64_decode_def base64_quads_encode)
qed

end
