(* ===== verification/Go_Glob.thy ===== *)
theory Go_Glob
  imports Go_Strings
begin

text \<open>
  Glob patterns, as Go's \<open>path.Match\<close> reads them: a star matches any sequence without a slash, a
  question mark one character but a slash, brackets a set of characters, and a backslash escapes. The
  source takes a malformed pattern for one that does not match, which is how it is modelled. Names are
  ASCII, so a rune is a byte.
\<close>

abbreviation backslash :: char where
  "backslash \<equiv> CHR 0x5C"

text \<open>A character of a set, possibly escaped, that something follows.\<close>

definition get_esc :: "string \<Rightarrow> (char \<times> string) option" where
  "get_esc p =
     (case p of
        [] \<Rightarrow> None
      | c # r \<Rightarrow>
          if c = CHR ''-'' \<or> c = CHR '']'' then None
          else (case (if c = backslash then r else p) of
            [] \<Rightarrow> None
          | d # r \<Rightarrow> if r = [] then None else Some (d, r)))"

lemma get_esc_shorter: "get_esc p = Some (c, r) \<Longrightarrow> length r < length p"
  by (auto simp: get_esc_def split: list.splits if_splits)

function class_match :: "char \<Rightarrow> bool \<Rightarrow> bool \<Rightarrow> string \<Rightarrow> (bool \<times> string) option" where
  "class_match c matched any p =
     (if any \<and> p \<noteq> [] \<and> hd p = CHR '']'' then Some (matched, tl p)
      else case get_esc p of
        None \<Rightarrow> None
      | Some (lo, r) \<Rightarrow>
          if hd r = CHR ''-''
          then (case get_esc (tl r) of
              None \<Rightarrow> None
            | Some (hi, r) \<Rightarrow> class_match c (matched \<or> lo \<le> c \<and> c \<le> hi) True r)
          else class_match c (matched \<or> c = lo) True r)"
  by pat_completeness auto
termination
  by (relation "measure (\<lambda>(c, m, a, p). length p)") (auto dest!: get_esc_shorter)

declare class_match.simps [simp del]

lemma class_match_shorter: "class_match c m a p = Some (n, r) \<Longrightarrow> length r < length p"
proof (induction c m a p rule: class_match.induct)
  case (1 c m a p)
  show ?case
  proof (cases "a \<and> p \<noteq> [] \<and> hd p = CHR '']''")
    case True
    then have "r = tl p" using "1.prems" by (subst (asm) class_match.simps) simp
    then show ?thesis using True by (cases p) simp_all
  next
    case False
    then obtain lo q where esc: "get_esc p = Some (lo, q)"
      using "1.prems" by (auto simp: class_match.simps [of c m a p] split: option.splits)
    have shorter: "length q < length p" by (rule get_esc_shorter [OF esc])
    show ?thesis
    proof (cases "hd q = CHR ''-''")
      case range: True
      then obtain hi q' where hi: "get_esc (tl q) = Some (hi, q')"
        using False esc "1.prems" by (auto simp: class_match.simps [of c m a p] split: option.splits)
      then have "class_match c m a p = class_match c (m \<or> lo \<le> c \<and> c \<le> hi) True q'"
        using False hi by (subst class_match.simps) (auto simp: esc range)
      then have "length r < length q'"
        using "1.IH"(1) [OF False esc refl range hi refl] "1.prems" by simp
      then show ?thesis using get_esc_shorter [OF hi] shorter by (simp add: less_diff_conv)
    next
      case single: False
      then have "class_match c m a p = class_match c (m \<or> c = lo) True q"
        using False single by (subst class_match.simps) (auto simp: esc)
      then have "length r < length q"
        using "1.IH"(2) [OF False esc refl single] "1.prems" by simp
      then show ?thesis using shorter by simp
    qed
  qed
qed

definition set_match :: "char \<Rightarrow> string \<Rightarrow> (bool \<times> string) option" where
  "set_match c p =
     (if p \<noteq> [] \<and> hd p = CHR ''^'' then map_option (apfst Not) (class_match c False False (tl p))
      else class_match c False False p)"

lemma set_match_shorter: "set_match c p = Some (m, r) \<Longrightarrow> length r < length p"
  by (auto simp: set_match_def split: if_splits dest!: class_match_shorter)

function glob_match :: "string \<Rightarrow> string \<Rightarrow> bool" where
  "glob_match [] s = (s = [])"
| "glob_match (q # p) s =
     (if q = CHR ''*'' then (if glob_match p s then True else if s = [] \<or> hd s = CHR ''/'' then False else glob_match (q # p) (tl s))
      else if s = [] then False
      else if q = CHR ''?'' then hd s \<noteq> CHR ''/'' \<and> glob_match p (tl s)
      else if q = CHR ''['' then (case set_match (hd s) p of
          None \<Rightarrow> False
        | Some (m, r) \<Rightarrow> m \<and> glob_match r (tl s))
      else if q = backslash then p \<noteq> [] \<and> hd p = hd s \<and> glob_match (tl p) (tl s)
      else q = hd s \<and> glob_match p (tl s))"
  by pat_completeness auto
termination
  by (relation "measure (\<lambda>(p, s). length p + length s)") (auto dest: set_match_shorter simp: neq_Nil_conv add_strict_mono)

declare glob_match.simps [simp del]

text \<open>A pattern without special characters matches itself only, and a star everything without a slash.\<close>

definition glob_special :: "char \<Rightarrow> bool" where
  "glob_special c \<longleftrightarrow> c \<in> {CHR ''*'', CHR ''?'', CHR ''['', backslash}"

lemma glob_match_literal: "\<forall>c\<in>set p. \<not> glob_special c \<Longrightarrow> glob_match p s \<longleftrightarrow> p = s"
proof (induction p arbitrary: s)
  case Nil
  then show ?case by (simp add: glob_match.simps eq_commute)
next
  case (Cons c p)
  then have "glob_match (c # p) s \<longleftrightarrow> s \<noteq> [] \<and> c = hd s \<and> glob_match p (tl s)"
    by (subst glob_match.simps) (simp add: glob_special_def)
  then show ?case using Cons by (cases s) auto
qed

lemma glob_match_star: "glob_match ''*'' s \<longleftrightarrow> CHR ''/'' \<notin> set s"
proof (induction s)
  case Nil
  then show ?case by (subst glob_match.simps) (simp add: glob_match.simps(1))
next
  case (Cons c s)
  then show ?case by (subst glob_match.simps) (auto simp: glob_match.simps(1))
qed

end
