(* ===== verification/Argocd_Application.thy ===== *)
theory Argocd_Application
  imports Serving_State Go_Hash Go_Glob
begin

text \<open>
  What Kokumi builds for Argo CD and reads of it (\<open>internal/argocd\<close>): the Application that deploys an
  artifact to a target, its names, labels and opt-in annotation, the state Argo CD reports on it, and the
  cluster Secret that registers a cluster. Argo CD's objects are unstructured: their metadata, which the
  Kubernetes library reads through typed accessors, is a record here, and the rest a nested map. The
  accessors of nested fields are that library's: a parameter, with what they document as the locale
  \<open>unstructured_fields\<close>.
\<close>

section \<open>Unstructured objects\<close>

datatype field =
    FNull
  | FBool bool
  | FInt int
  | FStr string
  | FSlice "field list"
  | FMap "string \<Rightarrow> field option"

type_synonym fields = "string \<rightharpoonup> field"

record unstructured =
  us_Name :: string
  us_Namespace :: string
  us_UID :: string
  us_ResourceVersion :: string
  us_Labels :: "string \<rightharpoonup> string"
  us_Annotations :: "string \<rightharpoonup> string"
  us_Object :: fields

text \<open>A key of a Go map that is missing reads as the zero value.\<close>

definition any_at :: "fields \<Rightarrow> string \<Rightarrow> field" where
  "any_at m k = (case m k of Some v \<Rightarrow> v | None \<Rightarrow> FNull)"

text \<open>\<open>NestedFieldNoCopy\<close> finds no field, meets a value that is not a map on the way, or finds one.\<close>

datatype nested = Absent | NotNested | Nested field

record unstructured_library =
  nested_field :: "fields \<Rightarrow> string list \<Rightarrow> nested"
  set_nested_field :: "fields \<Rightarrow> field \<Rightarrow> string list \<Rightarrow> fields"

text \<open>The typed readers: they find nothing when the field is missing or of another type.\<close>

definition nested_string :: "unstructured_library \<Rightarrow> fields \<Rightarrow> string list \<Rightarrow> string option" where
  "nested_string lib obj path = (case nested_field lib obj path of Nested (FStr s) \<Rightarrow> Some s | _ \<Rightarrow> None)"

definition nested_map :: "unstructured_library \<Rightarrow> fields \<Rightarrow> string list \<Rightarrow> fields option" where
  "nested_map lib obj path = (case nested_field lib obj path of Nested (FMap m) \<Rightarrow> Some m | _ \<Rightarrow> None)"

definition nested_slice :: "unstructured_library \<Rightarrow> fields \<Rightarrow> string list \<Rightarrow> field list option" where
  "nested_slice lib obj path = (case nested_field lib obj path of Nested (FSlice xs) \<Rightarrow> Some xs | _ \<Rightarrow> None)"

definition nested_string_slice :: "unstructured_library \<Rightarrow> fields \<Rightarrow> string list \<Rightarrow> string list" where
  "nested_string_slice lib obj path =
     (case nested_slice lib obj path of
        None \<Rightarrow> []
      | Some xs \<Rightarrow>
         (case those (map (\<lambda>x. case x of FStr s \<Rightarrow> Some s | _ \<Rightarrow> None) xs) of Some ss \<Rightarrow> ss | None \<Rightarrow> []))"

definition string_of :: "string option \<Rightarrow> string" where
  "string_of x = (case x of Some s \<Rightarrow> s | None \<Rightarrow> [])"

definition map_of_field :: "fields option \<Rightarrow> fields" where
  "map_of_field x = (case x of Some m \<Rightarrow> m | None \<Rightarrow> Map.empty)"

text \<open>What the library documents of reading and setting a nested field.\<close>

locale unstructured_fields =
  fixes nested :: "fields \<Rightarrow> string list \<Rightarrow> nested"
    and set_nested :: "fields \<Rightarrow> field \<Rightarrow> string list \<Rightarrow> fields"
  assumes nested_self: "nested obj [] = Nested (FMap obj)"
    and nested_missing: "obj k = None \<Longrightarrow> nested obj (k # ks) = Absent"
    and nested_last: "obj k = Some v \<Longrightarrow> nested obj [k] = Nested v"
    and nested_inner: "obj k = Some (FMap m) \<Longrightarrow> nested obj (k # ks) = nested m ks"
    and nested_null: "obj k = Some FNull \<Longrightarrow> ks \<noteq> [] \<Longrightarrow> nested obj (k # ks) = Absent"
    and nested_other: "obj k = Some v \<Longrightarrow> v \<noteq> FNull \<Longrightarrow> (\<And>m. v \<noteq> FMap m) \<Longrightarrow> ks \<noteq> [] \<Longrightarrow> nested obj (k # ks) = NotNested"
    and set_last: "set_nested obj v [k] = obj(k \<mapsto> v)"
    and set_missing: "obj k = None \<Longrightarrow> ks \<noteq> [] \<Longrightarrow> set_nested obj v (k # ks) = obj(k \<mapsto> FMap (set_nested Map.empty v ks))"
    and set_inner: "obj k = Some (FMap m) \<Longrightarrow> ks \<noteq> [] \<Longrightarrow> set_nested obj v (k # ks) = obj(k \<mapsto> FMap (set_nested m v ks))"
    and set_other: "obj k = Some w \<Longrightarrow> (\<And>m. w \<noteq> FMap m) \<Longrightarrow> ks \<noteq> [] \<Longrightarrow> set_nested obj v (k # ks) = obj"

abbreviation unstructured_laws :: "unstructured_library \<Rightarrow> bool" where
  "unstructured_laws lib \<equiv> unstructured_fields (nested_field lib) (set_nested_field lib)"

text \<open>The reference reading, which the laws determine.\<close>

primrec field_at :: "string list \<Rightarrow> fields \<Rightarrow> nested" where
  "field_at [] obj = Nested (FMap obj)"
| "field_at (k # ks) obj =
     (case obj k of
        None \<Rightarrow> Absent
      | Some v \<Rightarrow>
          if ks = [] then Nested v
          else (case v of FMap m \<Rightarrow> field_at ks m | FNull \<Rightarrow> Absent | _ \<Rightarrow> NotNested))"

primrec with_field :: "string list \<Rightarrow> field \<Rightarrow> fields \<Rightarrow> fields" where
  "with_field [] v obj = obj"
| "with_field (k # ks) v obj =
     (if ks = [] then obj(k \<mapsto> v)
      else (case obj k of
          None \<Rightarrow> obj(k \<mapsto> FMap (with_field ks v Map.empty))
        | Some (FMap m) \<Rightarrow> obj(k \<mapsto> FMap (with_field ks v m))
        | Some _ \<Rightarrow> obj))"

context unstructured_fields
begin

lemma nested_eq: "nested obj ks = field_at ks obj"
proof (induction ks arbitrary: obj)
  case Nil
  then show ?case by (simp add: nested_self)
next
  case (Cons k ks)
  then show ?case
    by (cases "obj k"; cases "ks = []"; cases "the (obj k)")
      (auto simp: nested_missing nested_last nested_inner nested_null nested_other)
qed

lemma set_eq: "ks \<noteq> [] \<Longrightarrow> set_nested obj v ks = with_field ks v obj"
proof (induction ks arbitrary: obj)
  case Nil
  then show ?case by simp
next
  case (Cons k ks)
  then show ?case
    by (cases "obj k"; cases "ks = []"; cases "the (obj k)")
      (auto simp: set_last set_missing set_inner set_other)
qed

end

text \<open>The library as the laws determine it: an instance the witnesses compute with.\<close>

definition plain_unstructured :: unstructured_library where
  "plain_unstructured = \<lparr>nested_field = \<lambda>obj ks. field_at ks obj, set_nested_field = \<lambda>obj v ks. with_field ks v obj\<rparr>"

interpretation plain_fields: unstructured_fields "nested_field plain_unstructured" "set_nested_field plain_unstructured"
  by unfold_locales (auto simp: plain_unstructured_def split: field.splits)

lemma nested_field_eq: "unstructured_laws lib \<Longrightarrow> nested_field lib obj ks = field_at ks obj"
  by (rule unstructured_fields.nested_eq)

lemma set_nested_field_eq: "unstructured_laws lib \<Longrightarrow> ks \<noteq> [] \<Longrightarrow> set_nested_field lib obj v ks = with_field ks v obj"
  by (rule unstructured_fields.set_eq)

lemmas nested_readers = nested_string_def nested_map_def nested_slice_def nested_string_slice_def nested_field_eq

section \<open>Names and labels\<close>

definition Argocd_Namespace :: string where
  "Argocd_Namespace = ''argocd''"

definition DefaultProject :: string where
  "DefaultProject = ''default''"

definition LabelOrder :: string where
  "LabelOrder = ''delivery.kokumi.dev/order''"

definition LabelServing :: string where
  "LabelServing = ''delivery.kokumi.dev/serving''"

definition LabelServingNamespace :: string where
  "LabelServingNamespace = ''delivery.kokumi.dev/serving-namespace''"

definition LabelCluster :: string where
  "LabelCluster = ''delivery.kokumi.dev/cluster''"

definition LabelClusterNamespace :: string where
  "LabelClusterNamespace = ''delivery.kokumi.dev/cluster-namespace''"

definition AnnotationAllowedOrder :: string where
  "AnnotationAllowedOrder = ''delivery.kokumi.dev/allowed-order''"

definition maxNameLength :: nat where
  "maxNameLength = 63"

definition trim_right :: "char set \<Rightarrow> string \<Rightarrow> string" where
  "trim_right cs s = rev (dropWhile (\<lambda>c. c \<in> cs) (rev s))"

definition hashedName :: "string \<Rightarrow> string \<Rightarrow> nat \<Rightarrow> string" where
  "hashedName base unique limit =
     (let hash = hex_encode (take 4 (sha256 unique)) in
      trim_right {CHR ''-'', CHR ''.''} (take (min (length base) (limit - length hash - 1)) base) @ ''-'' @ hash)"

text \<open>The name of the Application, in Argo CD's namespace, that deploys a Serving's Order to a cluster.\<close>

definition Application_Key :: "Serving \<Rightarrow> string \<Rightarrow> string" where
  "Application_Key serving cluster =
     (let ns = om_Namespace (Serving_ObjectMeta serving); order = ServingSpec_OrderName (Serving_Spec serving) in
      hashedName (''kokumi-'' @ ns @ ''-'' @ order) (ns @ ''/'' @ order @ ''/'' @ cluster) maxNameLength)"

definition ServingLabels :: "Serving \<Rightarrow> (string \<rightharpoonup> string)" where
  "ServingLabels serving =
     [LabelServing \<mapsto> om_Name (Serving_ObjectMeta serving), LabelServingNamespace \<mapsto> om_Namespace (Serving_ObjectMeta serving)]"

definition allowedOrder :: "string \<Rightarrow> string \<Rightarrow> string" where
  "allowedOrder namespace order = namespace @ ''/'' @ order"

section \<open>The Application of a target\<close>

record Argocd_Target =
  at_Cluster :: string
  at_Server :: string
  at_Namespace :: string
  at_Project :: string

definition sync_policy :: field where
  "sync_policy = FMap [
     ''automated'' \<mapsto> FMap [''prune'' \<mapsto> FBool True, ''selfHeal'' \<mapsto> FBool True],
     ''syncOptions'' \<mapsto> FSlice [FStr ''ServerSideApply=true'', FStr ''CreateNamespace=true'']]"

definition application_spec :: "oci_reference \<Rightarrow> Argocd_Target \<Rightarrow> fields" where
  "application_spec ref target = [
     ''project'' \<mapsto> FStr (at_Project target),
     ''source'' \<mapsto> FMap [''repoURL'' \<mapsto> FStr (OCIRepositoryReference ref), ''targetRevision'' \<mapsto> FStr (ref_Digest ref), ''path'' \<mapsto> FStr ''.''],
     ''destination'' \<mapsto> FMap [''server'' \<mapsto> FStr (at_Server target), ''namespace'' \<mapsto> FStr (at_Namespace target)],
     ''syncPolicy'' \<mapsto> sync_policy]"

definition Application :: "(string \<Rightarrow> string + oci_reference) \<Rightarrow> Serving \<Rightarrow> string \<Rightarrow> Argocd_Target \<Rightarrow> string + unstructured" where
  "Application parse serving ociRef target =
     (case parse ociRef of
        Inl err \<Rightarrow> Inl (''failed to parse OCI Ref: '' @ err)
      | Inr ref \<Rightarrow>
         (let ns = om_Namespace (Serving_ObjectMeta serving); order = ServingSpec_OrderName (Serving_Spec serving) in
          Inr \<lparr>us_Name = Application_Key serving (at_Cluster target), us_Namespace = Argocd_Namespace, us_UID = [], us_ResourceVersion = [],
            us_Labels = [LabelOrder \<mapsto> order, LabelCluster \<mapsto> at_Cluster target] ++ ServingLabels serving,
            us_Annotations = [AnnotationAllowedOrder \<mapsto> allowedOrder ns order],
            us_Object = [''spec'' \<mapsto> FMap (application_spec ref target)]\<rparr>))"

definition allowed_order_of :: "unstructured \<Rightarrow> string" where
  "allowed_order_of app = string_at (us_Annotations app) AnnotationAllowedOrder"

text \<open>Why an Application is not opted in for an Order, if it is not.\<close>

definition OptedIn :: "unstructured \<Rightarrow> string \<Rightarrow> string \<Rightarrow> string option" where
  "OptedIn app namespace order =
     (let actual = allowed_order_of app; expected = allowedOrder namespace order in
      if actual = expected then None
      else Some (''existing deployment not opted in for this order: Argo CD Application '' @ go_quote (us_Name app) @
        '' must be annotated with '' @ go_quote AnnotationAllowedOrder @ ''='' @ go_quote expected @
        '' (current value: '' @ go_quote actual @ '')''))"

definition ClusterOf :: "unstructured \<Rightarrow> string" where
  "ClusterOf app = string_at (us_Labels app) LabelCluster"

definition Application_Matches :: "unstructured_library \<Rightarrow> unstructured \<Rightarrow> unstructured \<Rightarrow> bool" where
  "Application_Matches lib existing desired =
     (case nested_map lib (us_Object existing) [''spec''] of
        None \<Rightarrow> False
      | Some spec \<Rightarrow> spec = map_of_field (nested_map lib (us_Object desired) [''spec''])
          \<and> us_Annotations existing = us_Annotations desired \<and> us_Labels existing = us_Labels desired)"

definition ServingOf :: "(string \<rightharpoonup> string) \<Rightarrow> (string \<times> string) option" where
  "ServingOf labels =
     (let name = string_at labels LabelServing; namespace = string_at labels LabelServingNamespace in
      if name = [] \<or> namespace = [] then None else Some (namespace, name))"

section \<open>What Argo CD reports\<close>

datatype Phase = PhaseProgressing | PhaseHealthy | PhaseDegraded | PhaseRejected | PhaseMissing

record Argocd_State =
  as_Phase :: Phase
  as_Revision :: string
  as_Message :: string

definition conditionInvalidSpec :: string where
  "conditionInvalidSpec = ''InvalidSpecError''"

text \<open>The message of the first condition of that type. A message that is not a string is empty.\<close>

fun invalid_condition :: "field list \<Rightarrow> string option" where
  "invalid_condition [] = None"
| "invalid_condition (c # cs) =
     (case c of
        FMap m \<Rightarrow> if any_at m ''type'' = FStr conditionInvalidSpec
          then Some (case any_at m ''message'' of FStr s \<Rightarrow> s | _ \<Rightarrow> [])
          else invalid_condition cs
      | _ \<Rightarrow> invalid_condition cs)"

definition invalidSpec :: "unstructured_library \<Rightarrow> fields \<Rightarrow> string option" where
  "invalidSpec lib obj =
     (case nested_slice lib obj [''status'', ''conditions''] of Some cs \<Rightarrow> invalid_condition cs | None \<Rightarrow> None)"

definition comparedCurrentSource :: "unstructured_library \<Rightarrow> fields \<Rightarrow> bool" where
  "comparedCurrentSource lib obj =
     (case nested_map lib obj [''status'', ''sync'', ''comparedTo'', ''source''] of
        None \<Rightarrow> False
      | Some compared \<Rightarrow>
         (let source = map_of_field (nested_map lib obj [''spec'', ''source'']) in
          list_all (\<lambda>k. any_at compared k = any_at source k) [''repoURL'', ''targetRevision'', ''path'']))"

definition syncFinished :: "unstructured_library \<Rightarrow> fields \<Rightarrow> string \<Rightarrow> bool" where
  "syncFinished lib obj revision =
     (case nested_string lib obj [''status'', ''operationState'', ''phase''] of
        None \<Rightarrow> True
      | Some phase \<Rightarrow> phase = ''Succeeded'' \<and>
          string_of (nested_string lib obj [''status'', ''operationState'', ''syncResult'', ''revision'']) = revision)"

definition object_state :: "unstructured_library \<Rightarrow> fields \<Rightarrow> Argocd_State" where
  "object_state lib obj =
     (case invalidSpec lib obj of
        Some msg \<Rightarrow> \<lparr>as_Phase = PhaseRejected, as_Revision = [], as_Message = msg\<rparr>
      | None \<Rightarrow>
         (let syncStatus = string_of (nested_string lib obj [''status'', ''sync'', ''status'']);
              revision = string_of (nested_string lib obj [''status'', ''sync'', ''revision'']);
              healthStatus = string_of (nested_string lib obj [''status'', ''health'', ''status'']);
              healthMessage = string_of (nested_string lib obj [''status'', ''health'', ''message''])
          in \<lparr>as_Phase =
                (if healthStatus = ''Degraded'' then PhaseDegraded
                 else if syncStatus = ''Synced'' \<and> healthStatus = ''Healthy'' \<and> comparedCurrentSource lib obj \<and> syncFinished lib obj revision
                 then PhaseHealthy else PhaseProgressing),
              as_Revision = revision, as_Message = healthMessage\<rparr>))"

definition StateOf :: "unstructured_library \<Rightarrow> unstructured option \<Rightarrow> Argocd_State" where
  "StateOf lib app =
     (case app of
        None \<Rightarrow> \<lparr>as_Phase = PhaseMissing, as_Revision = [], as_Message = []\<rparr>
      | Some app \<Rightarrow> object_state lib (us_Object app))"

definition watchedState :: "unstructured_library \<Rightarrow> unstructured \<Rightarrow> string list" where
  "watchedState lib app =
     (let field = (\<lambda>path. string_of (nested_string lib (us_Object app) path)) in
      [field [''status'', ''health'', ''status''],
       field [''status'', ''sync'', ''status''],
       field [''status'', ''sync'', ''revision''],
       field [''status'', ''sync'', ''comparedTo'', ''source'', ''targetRevision''],
       field [''status'', ''operationState'', ''phase''],
       field [''status'', ''operationState'', ''syncResult'', ''revision''],
       string_of (invalidSpec lib (us_Object app)),
       allowed_order_of app])"

definition Application_Changed :: "unstructured_library \<Rightarrow> unstructured \<Rightarrow> unstructured \<Rightarrow> bool" where
  "Application_Changed lib old updated \<longleftrightarrow> watchedState lib old \<noteq> watchedState lib updated"

section \<open>Trimming the status\<close>

definition trimmedStatus :: "string list list" where
  "trimmedStatus =
    [[''sync'', ''status''], [''sync'', ''revision''], [''sync'', ''comparedTo'', ''source''],
     [''health'', ''status''], [''health'', ''message''],
     [''operationState'', ''phase''], [''operationState'', ''syncResult'', ''revision''],
     [''conditions'']]"

definition keep_field :: "unstructured_library \<Rightarrow> fields \<Rightarrow> fields \<Rightarrow> string list \<Rightarrow> fields" where
  "keep_field lib status kept path =
     (case nested_field lib status path of Nested v \<Rightarrow> set_nested_field lib kept v path | _ \<Rightarrow> kept)"

definition TrimStatus :: "unstructured_library \<Rightarrow> unstructured \<Rightarrow> unstructured" where
  "TrimStatus lib app =
     (case nested_map lib (us_Object app) [''status''] of
        None \<Rightarrow> app
      | Some status \<Rightarrow> app\<lparr>us_Object := (us_Object app)(''status'' \<mapsto> FMap (foldl (keep_field lib status) Map.empty trimmedStatus))\<rparr>)"

section \<open>Cluster Secrets\<close>

record Endpoint =
  ep_Server :: string
  ep_CAData :: string
  ep_TLSServerName :: string
  ep_Insecure :: bool
  ep_ProxyURL :: string

record Credential =
  cr_Token :: string
  cr_ClientCertificate :: string
  cr_ClientKey :: string

record Kubeconfig =
  kc_Endpoint :: Endpoint
  kc_Credential :: Credential

definition LabelSecretType :: string where
  "LabelSecretType = ''argocd.argoproj.io/secret-type''"

definition SecretTypeCluster :: string where
  "SecretTypeCluster = ''cluster''"

definition labelManagedBy :: string where
  "labelManagedBy = ''app.kubernetes.io/managed-by''"

definition managedBy :: string where
  "managedBy = ''kokumi''"

definition maxClusterNameLength :: nat where
  "maxClusterNameLength = 253"

definition ClusterSecretName :: "string \<Rightarrow> string" where
  "ClusterSecretName server = ''kokumi-'' @ hex_encode (take 8 (sha256 (trim_suffix ''/'' server)))"

definition Argocd_ClusterName :: "string \<Rightarrow> string \<Rightarrow> string" where
  "Argocd_ClusterName namespace name =
     hashedName (''kokumi-'' @ namespace @ ''-'' @ name) (namespace @ ''/'' @ name) maxClusterNameLength"

definition omit_bytes :: "string \<Rightarrow> string \<Rightarrow> (string \<times> json) list" where
  "omit_bytes key s = omit_if (s = []) key (JStr (base64_encode s))"

definition clusterConfig :: "Kubeconfig \<Rightarrow> json" where
  "clusterConfig k =
     (let endpoint = kc_Endpoint k; credential = kc_Credential k in
      JObj (omit_string ''bearerToken'' (cr_Token credential) @
        [(''tlsClientConfig'', JObj ([(''insecure'', JBool (ep_Insecure endpoint))] @
           omit_string ''serverName'' (ep_TLSServerName endpoint) @
           omit_bytes ''caData'' (ep_CAData endpoint) @
           omit_bytes ''certData'' (cr_ClientCertificate credential) @
           omit_bytes ''keyData'' (cr_ClientKey credential)))] @
        omit_string ''proxyUrl'' (ep_ProxyURL endpoint)))"

definition RegistrationLabels :: "string \<Rightarrow> string \<Rightarrow> (string \<rightharpoonup> string)" where
  "RegistrationLabels namespace name =
     [labelManagedBy \<mapsto> managedBy, LabelCluster \<mapsto> name, LabelClusterNamespace \<mapsto> namespace]"

definition ClusterSecret :: "string \<Rightarrow> string \<Rightarrow> Kubeconfig \<Rightarrow> secret" where
  "ClusterSecret namespace name k =
     \<lparr>sc_Name = ClusterSecretName (ep_Server (kc_Endpoint k)), sc_Namespace = Argocd_Namespace, sc_UID = [], sc_ResourceVersion = [],
      sc_Labels = (RegistrationLabels namespace name)(LabelSecretType \<mapsto> SecretTypeCluster), sc_Type = ''Opaque'',
      sc_Data = [''name'' \<mapsto> Argocd_ClusterName namespace name, ''server'' \<mapsto> ep_Server (kc_Endpoint k),
                 ''config'' \<mapsto> json_encode True (clusterConfig k)]\<rparr>"

text \<open>The namespace and name a Secret's labels say, and whether Kokumi manages it for that Cluster.\<close>

definition Managed :: "secret \<Rightarrow> string \<times> string \<times> bool" where
  "Managed s =
     (let namespace = string_at (sc_Labels s) LabelClusterNamespace; name = string_at (sc_Labels s) LabelCluster in
      (namespace, name, namespace \<noteq> [] \<and> name \<noteq> [] \<and> string_at (sc_Labels s) labelManagedBy = managedBy))"

definition SameServer :: "string \<Rightarrow> string \<Rightarrow> bool" where
  "SameServer a b \<longleftrightarrow> a \<noteq> [] \<and> trim_suffix ''/'' a = trim_suffix ''/'' b"

definition secret_conflicts :: "string \<Rightarrow> string \<Rightarrow> secret \<Rightarrow> bool" where
  "secret_conflicts clusterName server s \<longleftrightarrow>
     \<not> snd (snd (Managed s)) \<and> string_at (sc_Labels s) LabelSecretType = SecretTypeCluster \<and>
     (string_at (sc_Data s) ''name'' = clusterName \<or> SameServer (string_at (sc_Data s) ''server'') server)"

definition Conflicts :: "secret list \<Rightarrow> string \<Rightarrow> string \<Rightarrow> string \<Rightarrow> string list" where
  "Conflicts secrets namespace name server =
     map sc_Name (filter (secret_conflicts (Argocd_ClusterName namespace name) server) secrets)"

section \<open>Projects\<close>

definition ProjectAdmitsSourceNamespace :: "unstructured_library \<Rightarrow> unstructured \<Rightarrow> string \<Rightarrow> bool" where
  "ProjectAdmitsSourceNamespace lib project namespace =
     list_ex (\<lambda>pattern. glob_match pattern namespace) (nested_string_slice lib (us_Object project) [''spec'', ''sourceNamespaces''])"

section \<open>Names\<close>

lemma length_trim_right: "length (trim_right cs s) \<le> length s"
  by (simp add: trim_right_def le_trans [OF length_dropWhile_le])

lemma set_trim_right: "set (trim_right cs s) \<subseteq> set s"
  using set_dropWhileD [of _ "\<lambda>c. c \<in> cs" "rev s"] by (auto simp: trim_right_def)

lemma length_hashedName: "9 \<le> limit \<Longrightarrow> length (hashedName base unique limit) \<le> limit"
proof -
  assume limit: "9 \<le> limit"
  have "length (trim_right {CHR ''-'', CHR ''.''} (take (min (length base) (limit - 9)) base)) \<le> limit - 9"
    by (rule le_trans [OF length_trim_right]) simp
  with limit show ?thesis by (simp add: hashedName_def Let_def)
qed

definition lower_hex :: "char set" where
  "lower_hex = set ''0123456789abcdef''"

lemma hex_digit_lower: "n < 16 \<Longrightarrow> hex_digit n \<in> lower_hex"
proof -
  have "list_all (\<lambda>n. hex_digit n \<in> lower_hex) [0..<16]" by code_simp
  then show "n < 16 \<Longrightarrow> hex_digit n \<in> lower_hex" by (simp add: list_all_iff)
qed

lemma set_hex_encode: "set (hex_encode s) \<subseteq> lower_hex"
proof -
  have "(of_char c :: nat) < 16 * 16" for c by simp
  then have "(of_char c :: nat) div 16 < 16" for c by (rule less_mult_imp_div_less)
  then show ?thesis by (auto simp: hex_encode_def intro: hex_digit_lower)
qed

lemma hex_encode_inj: "hex_encode s = hex_encode t \<Longrightarrow> s = t"
proof (induction s arbitrary: t)
  case Nil
  then show ?case by (cases t) (simp_all add: hex_encode_def)
next
  case (Cons c s)
  then obtain d u where t: "t = d # u" by (cases t) (simp_all add: hex_encode_def)
  have digits: "hex_digit (of_char c div 16) = hex_digit (of_char d div 16)" "hex_digit (of_char c mod 16) = hex_digit (of_char d mod 16)"
    and rest: "hex_encode s = hex_encode u"
    using Cons.prems by (simp_all add: t hex_encode_def)
  have "(of_char x :: nat) < 16 * 16" for x :: char by simp
  then have "(of_char x :: nat) div 16 < 16" for x :: char by (rule less_mult_imp_div_less)
  then have "(of_char c :: nat) div 16 = of_char d div 16" "(of_char c :: nat) mod 16 = of_char d mod 16"
    using digits by (metis hex_val_digit, metis hex_val_digit mod_less_divisor zero_less_numeral)
  then have "(of_char c :: nat) = of_char d" by (metis mult_div_mod_eq)
  then show ?case using Cons.IH [OF rest] t by (metis char_eqI)
qed

lemma trim_right_Cons: "c \<notin> cs \<Longrightarrow> trim_right cs (c # s) = c # trim_right cs s"
  by (simp add: trim_right_def dropWhile_append)

definition dns_chars :: "char set" where
  "dns_chars = set ''abcdefghijklmnopqrstuvwxyz0123456789-.''"

text \<open>What the name of an Application is derived from, before it is hashed.\<close>

definition application_id :: "Serving \<Rightarrow> string \<Rightarrow> string" where
  "application_id serving cluster =
     om_Namespace (Serving_ObjectMeta serving) @ ''/'' @ ServingSpec_OrderName (Serving_Spec serving) @ ''/'' @ cluster"

lemma hashedName_Cons:
  assumes "c \<notin> {CHR ''-'', CHR ''.''}"
  shows "hashedName (c # s) unique (Suc (n + 9)) = c # trim_right {CHR ''-'', CHR ''.''} (take n s) @ ''-'' @ hex_encode (take 4 (sha256 unique))"
proof -
  have "take (min (length (c # s)) (Suc n)) (c # s) = c # take n s" by (simp add: min_def)
  then show ?thesis using trim_right_Cons [OF assms] by (simp add: hashedName_def Let_def)
qed

lemma Application_Key_parts:
  obtains r where "Application_Key serving cluster = CHR ''k'' # r @ ''-'' @ hex_encode (take 4 (sha256 (application_id serving cluster)))"
    "set r \<subseteq> set ''okumi-'' \<union> set (om_Namespace (Serving_ObjectMeta serving)) \<union> set (ServingSpec_OrderName (Serving_Spec serving))"
proof -
  define rest where "rest = ''okumi-'' @ om_Namespace (Serving_ObjectMeta serving) @ ''-'' @ ServingSpec_OrderName (Serving_Spec serving)"
  have "maxNameLength = Suc (53 + 9)" by (simp add: maxNameLength_def)
  then have "Application_Key serving cluster = hashedName (CHR ''k'' # rest) (application_id serving cluster) (Suc (53 + 9))"
    by (simp add: Application_Key_def Let_def rest_def application_id_def)
  then have "Application_Key serving cluster =
      CHR ''k'' # trim_right {CHR ''-'', CHR ''.''} (take 53 rest) @ ''-'' @ hex_encode (take 4 (sha256 (application_id serving cluster)))"
    by (subst (asm) hashedName_Cons) simp_all
  moreover have "set (trim_right {CHR ''-'', CHR ''.''} (take 53 rest)) \<subseteq> set rest"
    using set_trim_right set_take_subset by fast
  then have "set (trim_right {CHR ''-'', CHR ''.''} (take 53 rest)) \<subseteq>
      set ''okumi-'' \<union> set (om_Namespace (Serving_ObjectMeta serving)) \<union> set (ServingSpec_OrderName (Serving_Spec serving))"
    by (auto simp: rest_def)
  ultimately show thesis using that by blast
qed

section \<open>Trimming keeps what is read\<close>

text \<open>What a reader finds on a path, and paths of which neither is a prefix of the other.\<close>

definition found :: "string list \<Rightarrow> fields \<Rightarrow> field option" where
  "found path obj = (case field_at path obj of Nested v \<Rightarrow> Some v | _ \<Rightarrow> None)"

fun diverge :: "string list \<Rightarrow> string list \<Rightarrow> bool" where
  "diverge (x # xs) (y # ys) = (if x = y then diverge xs ys else True)"
| "diverge _ _ = False"

text \<open>Setting a field on the path meets no value that is not a map.\<close>

fun clear :: "string list \<Rightarrow> fields \<Rightarrow> bool" where
  "clear [] obj = False"
| "clear [k] obj = True"
| "clear (k # ks) obj = (case obj k of None \<Rightarrow> True | Some (FMap m) \<Rightarrow> clear ks m | Some _ \<Rightarrow> False)"

lemma found_Nil [simp]: "found [] obj = Some (FMap obj)"
  by (simp add: found_def)

lemma found_Cons: "found (k # ks) obj =
    (case obj k of None \<Rightarrow> None | Some v \<Rightarrow> if ks = [] then Some v else case v of FMap m \<Rightarrow> found ks m | _ \<Rightarrow> None)"
  by (simp add: found_def split: option.split field.split)

lemma found_empty [simp]: "ks \<noteq> [] \<Longrightarrow> found ks Map.empty = None"
  by (cases ks) (simp_all add: found_Cons)

lemma clear_empty [simp]: "ks \<noteq> [] \<Longrightarrow> clear ks Map.empty"
  by (cases ks rule: list.exhaust; cases "tl ks") auto

lemma clear_Cons: "ks \<noteq> [] \<Longrightarrow> clear (k # ks) obj = (case obj k of None \<Rightarrow> True | Some (FMap m) \<Rightarrow> clear ks m | Some _ \<Rightarrow> False)"
  by (cases ks) (auto split: option.split field.split)

lemma found_with_same: "clear p obj \<Longrightarrow> found p (with_field p v obj) = Some v"
proof (induction p arbitrary: obj)
  case (Cons k ks)
  show ?case
  proof (cases "ks = []")
    case False
    then show ?thesis
      using Cons.prems Cons.IH [of Map.empty] Cons.IH [of "case obj k of Some (FMap m) \<Rightarrow> m | _ \<Rightarrow> Map.empty"]
      by (auto simp: clear_Cons found_Cons split: option.splits field.splits)
  qed (simp add: found_Cons)
qed simp

lemma found_with_other: "diverge p q \<Longrightarrow> found q (with_field p v obj) = found q obj"
proof (induction p q arbitrary: obj rule: diverge.induct)
  case (1 x xs y ys)
  show ?case
  proof (cases "x = y")
    case False
    then show ?thesis by (auto simp: found_Cons split: option.splits field.splits)
  next
    case True
    then have d: "diverge xs ys" using 1 by simp
    then have ne: "xs \<noteq> []" "ys \<noteq> []" by (cases xs; cases ys; simp)+
    show ?thesis using 1(1) [OF True d] True ne by (auto simp: found_Cons split: option.splits field.splits)
  qed
qed simp_all

lemma clear_with_other: "diverge p q \<Longrightarrow> clear q obj \<Longrightarrow> clear q (with_field p v obj)"
proof (induction p q arbitrary: obj rule: diverge.induct)
  case (1 x xs y ys)
  show ?case
  proof (cases "x = y")
    case False
    then show ?thesis using 1 by (cases ys) (auto split: option.splits field.splits)
  next
    case True
    then have d: "diverge xs ys" using 1 by simp
    then have ne: "xs \<noteq> []" "ys \<noteq> []" by (cases xs; cases ys; simp)+
    then obtain z zs where ys: "ys = z # zs" by (cases ys) auto
    show ?thesis using 1(1) [OF True d] 1(3) True ne ys by (auto split: option.splits field.splits)
  qed
qed simp_all

definition keep_found :: "fields \<Rightarrow> fields \<Rightarrow> string list \<Rightarrow> fields" where
  "keep_found status kept path = (case found path status of Some v \<Rightarrow> with_field path v kept | None \<Rightarrow> kept)"

lemma keep_field_eq: "unstructured_laws lib \<Longrightarrow> path \<noteq> [] \<Longrightarrow> keep_field lib status kept path = keep_found status kept path"
  by (simp add: keep_field_def keep_found_def found_def nested_field_eq set_nested_field_eq split: nested.split)

lemma keep_found_fold:
  assumes "pairwise diverge (set paths)" "distinct paths" "\<forall>p\<in>set paths. clear p kept \<and> found p kept = None"
  shows "(\<forall>p\<in>set paths. found p (foldl (keep_found status) kept paths) = found p status)
    \<and> (\<forall>q. (\<forall>p\<in>set paths. diverge p q) \<longrightarrow> found q (foldl (keep_found status) kept paths) = found q kept)"
  using assms
proof (induction paths arbitrary: kept)
  case (Cons p paths)
  let ?kept = "keep_found status kept p"
  have other: "diverge p q \<Longrightarrow> found q ?kept = found q kept" "diverge p q \<Longrightarrow> clear q kept \<Longrightarrow> clear q ?kept" for q
    by (auto simp: keep_found_def found_with_other clear_with_other split: option.split)
  have own: "found p ?kept = found p status"
    using Cons.prems(3) by (auto simp: keep_found_def found_with_same split: option.split)
  have div: "\<forall>q\<in>set paths. diverge p q \<and> diverge q p"
    using Cons.prems(1,2) by (auto simp: pairwise_def)
  have rest: "pairwise diverge (set paths)" "distinct paths" "\<forall>q\<in>set paths. clear q ?kept \<and> found q ?kept = None"
    using Cons.prems div other by (auto simp: pairwise_def)
  note IH = Cons.IH [OF rest]
  have "found p (foldl (keep_found status) ?kept paths) = found p ?kept" using IH div by blast
  then show ?case using IH own other by auto
qed simp

lemma trimmed_paths: "pairwise diverge (set trimmedStatus)" "distinct trimmedStatus" "[] \<notin> set trimmedStatus"
proof -
  have "list_all (\<lambda>p. list_all (\<lambda>q. p = q \<or> diverge p q) trimmedStatus) trimmedStatus" by code_simp
  then show "pairwise diverge (set trimmedStatus)" by (auto simp: pairwise_def list_all_iff)
qed (simp_all add: trimmedStatus_def)

lemma trimmed_found:
  assumes "unstructured_laws lib" "p \<in> set trimmedStatus"
  shows "found p (foldl (keep_field lib status) Map.empty trimmedStatus) = found p status"
proof -
  have eq: "foldl (keep_field lib status) kept paths = foldl (keep_found status) kept paths" if "[] \<notin> set paths" for kept paths
    using that by (induction paths arbitrary: kept) (auto simp: keep_field_eq [OF assms(1)])
  have "\<forall>p\<in>set trimmedStatus. clear p Map.empty \<and> found p Map.empty = None"
    using trimmed_paths(3) by (metis clear_empty found_empty)
  then show ?thesis
    using keep_found_fold [OF trimmed_paths(1,2), of Map.empty status] assms(2) by (simp add: eq [OF trimmed_paths(3)])
qed

lemma found_append: "q \<noteq> [] \<Longrightarrow> found (p @ q) obj = (case found p obj of Some (FMap m) \<Rightarrow> found q m | _ \<Rightarrow> None)"
  by (induction p arbitrary: obj) (auto simp: found_Cons split: option.split field.split)

lemma readers_found:
  assumes "unstructured_laws lib"
  shows "nested_string lib obj path = (case found path obj of Some (FStr s) \<Rightarrow> Some s | _ \<Rightarrow> None)"
    and "nested_map lib obj path = (case found path obj of Some (FMap m) \<Rightarrow> Some m | _ \<Rightarrow> None)"
    and "nested_slice lib obj path = (case found path obj of Some (FSlice xs) \<Rightarrow> Some xs | _ \<Rightarrow> None)"
  by (simp_all add: nested_string_def nested_map_def nested_slice_def nested_field_eq [OF assms] found_def split: nested.split field.split)

lemma TrimStatus_found:
  assumes "unstructured_laws lib" "p \<in> set trimmedStatus"
  shows "found (''status'' # p) (us_Object (TrimStatus lib app)) = found (''status'' # p) (us_Object app)"
proof -
  have p: "p \<noteq> []" using assms(2) trimmed_paths(3) by blast
  then show ?thesis
    by (cases "us_Object app ''status''")
      (auto simp: TrimStatus_def readers_found [OF assms(1)] found_Cons trimmed_found [OF assms] split: option.split field.split)
qed

lemma TrimStatus_other: "found (k # p) (us_Object (TrimStatus lib app)) = found (k # p) (us_Object app)" if "k \<noteq> ''status''"
  using that by (simp add: TrimStatus_def found_Cons split: option.split)

lemma TrimStatus_meta [simp]:
  "us_Annotations (TrimStatus lib app) = us_Annotations app" "us_Labels (TrimStatus lib app) = us_Labels app"
  "us_Name (TrimStatus lib app) = us_Name app" "us_ResourceVersion (TrimStatus lib app) = us_ResourceVersion app"
  by (simp_all add: TrimStatus_def split: option.split)

text \<open>Every read of the status is on a trimmed path, or below one.\<close>

lemma TrimStatus_reads:
  assumes "unstructured_laws lib"
  shows "found [''status'', ''sync'', ''status''] (us_Object (TrimStatus lib app)) = found [''status'', ''sync'', ''status''] (us_Object app)"
    "found [''status'', ''sync'', ''revision''] (us_Object (TrimStatus lib app)) = found [''status'', ''sync'', ''revision''] (us_Object app)"
    "found [''status'', ''sync'', ''comparedTo'', ''source''] (us_Object (TrimStatus lib app)) = found [''status'', ''sync'', ''comparedTo'', ''source''] (us_Object app)"
    "found [''status'', ''health'', ''status''] (us_Object (TrimStatus lib app)) = found [''status'', ''health'', ''status''] (us_Object app)"
    "found [''status'', ''health'', ''message''] (us_Object (TrimStatus lib app)) = found [''status'', ''health'', ''message''] (us_Object app)"
    "found [''status'', ''operationState'', ''phase''] (us_Object (TrimStatus lib app)) = found [''status'', ''operationState'', ''phase''] (us_Object app)"
    "found [''status'', ''operationState'', ''syncResult'', ''revision''] (us_Object (TrimStatus lib app)) =
       found [''status'', ''operationState'', ''syncResult'', ''revision''] (us_Object app)"
    "found [''status'', ''conditions''] (us_Object (TrimStatus lib app)) = found [''status'', ''conditions''] (us_Object app)"
  by (rule TrimStatus_found [OF assms], simp add: trimmedStatus_def)+

lemma TrimStatus_below:
  assumes "unstructured_laws lib"
  shows "found [''status'', ''sync'', ''comparedTo'', ''source'', k] (us_Object (TrimStatus lib app)) =
    found [''status'', ''sync'', ''comparedTo'', ''source'', k] (us_Object app)"
  using found_append [of "[k]" "[''status'', ''sync'', ''comparedTo'', ''source'']"] TrimStatus_reads(3) [OF assms, of app] by simp

section \<open>Applications that are built, and what a healthy one says\<close>

lemma Application_built:
  assumes "Application parse serving ociRef target = Inr app" "unstructured_laws lib"
  shows "us_Name app = Application_Key serving (at_Cluster target)"
    and "allowed_order_of app = allowedOrder (om_Namespace (Serving_ObjectMeta serving)) (ServingSpec_OrderName (Serving_Spec serving))"
    and "ClusterOf app = at_Cluster target" and "ServingLabels serving \<subseteq>\<^sub>m us_Labels app"
    and "\<exists>ref. parse ociRef = Inr ref \<and> nested_map lib (us_Object app) [''spec''] = Some (application_spec ref target)"
  using assms(1)
  by (auto simp: Application_def Let_def allowed_order_of_def string_at_def ClusterOf_def ServingLabels_def LabelCluster_def
      LabelServing_def LabelServingNamespace_def LabelOrder_def readers_found [OF assms(2)] found_Cons map_le_def split: sum.splits)

lemma object_state_healthy:
  assumes "unstructured_laws lib" "as_Phase (object_state lib obj) = PhaseHealthy"
  shows "invalidSpec lib obj = None \<and> found [''status'', ''sync'', ''status''] obj = Some (FStr ''Synced'')
     \<and> found [''status'', ''health'', ''status''] obj = Some (FStr ''Healthy'')
     \<and> comparedCurrentSource lib obj \<and> syncFinished lib obj (as_Revision (object_state lib obj))"
  using assms(2)
  by (auto simp: object_state_def Let_def readers_found [OF assms(1)] string_of_def split: option.splits field.splits if_splits)

end
