(* ===== verification/Kube_Api.thy ===== *)
theory Kube_Api
  imports Go_Strings
begin

text \<open>
  The Kubernetes API as a client sees it: a record of its calls on one kind of object in one namespace,
  over the state of the server, with what it documents as the locale \<open>object_server\<close>. Reads may be stale,
  since they go through a cache, and a failed write may or may not have happened. \<open>fresh_server\<close> adds
  reads that are not stale. A store that computes provides both.
\<close>

section \<open>The calls\<close>

datatype api_failure = ApiNoMatch string | ApiNotFound string | ApiAlreadyExists string | ApiConflict string | ApiFailed string

primrec api_message :: "api_failure \<Rightarrow> string" where
  "api_message (ApiNoMatch m) = m"
| "api_message (ApiNotFound m) = m"
| "api_message (ApiAlreadyExists m) = m"
| "api_message (ApiConflict m) = m"
| "api_message (ApiFailed m) = m"

record ('o, 's) object_api =
  ob_get :: "string \<Rightarrow> 's \<Rightarrow> api_failure + 'o"
  ob_list :: "(string \<rightharpoonup> string) \<Rightarrow> 's \<Rightarrow> api_failure + 'o list"
  ob_create :: "'o \<Rightarrow> 's \<Rightarrow> (api_failure + 'o) \<times> 's"
  ob_update :: "'o \<Rightarrow> 's \<Rightarrow> (api_failure + 'o) \<times> 's"
  ob_delete :: "'o \<Rightarrow> 's \<Rightarrow> api_failure option \<times> 's"

text \<open>
  The objects the server holds, by name. What a read returned is the object the server holds if its
  version still is; a create adds an object under a name that had none; an update with a version, and a
  delete on the condition of one, take effect only on the object of that version. A write that returns an
  error may have taken effect.
\<close>

locale object_server =
  fixes api :: "('o, 's) object_api"
    and name_of :: "'o \<Rightarrow> string"
    and version_of :: "'o \<Rightarrow> string"
    and written :: "'o \<Rightarrow> 'o \<Rightarrow> bool"
    and labels_of :: "'o \<Rightarrow> (string \<rightharpoonup> string)"
    and stored :: "'s \<Rightarrow> string \<rightharpoonup> 'o"
  assumes get_read: "ob_get api n s = Inr x \<Longrightarrow>
      name_of x = n \<and> version_of x \<noteq> [] \<and> (\<forall>c. stored s n = Some c \<longrightarrow> version_of c = version_of x \<longrightarrow> c = x)"
    and list_read: "ob_list api labels s = Inr xs \<Longrightarrow> x \<in> set xs \<Longrightarrow>
      labels \<subseteq>\<^sub>m labels_of x \<and> version_of x \<noteq> [] \<and> (\<forall>c. stored s (name_of x) = Some c \<longrightarrow> version_of c = version_of x \<longrightarrow> c = x)"
    and create: "ob_create api x s = (r, s') \<Longrightarrow>
      stored s' = stored s \<and> (\<forall>c. r \<noteq> Inr c)
      \<or> stored s (name_of x) = None \<and> (\<exists>c. written x c \<and> stored s' = (stored s)(name_of x \<mapsto> c) \<and> (\<forall>d. r = Inr d \<longrightarrow> d = c))"
    and update: "ob_update api x s = (r, s') \<Longrightarrow> version_of x \<noteq> [] \<Longrightarrow>
      stored s' = stored s \<and> (\<forall>c. r \<noteq> Inr c)
      \<or> (\<exists>b c. stored s (name_of x) = Some b \<and> version_of b = version_of x \<and> written x c
             \<and> stored s' = (stored s)(name_of x \<mapsto> c) \<and> (\<forall>d. r = Inr d \<longrightarrow> d = c))"
    and delete: "ob_delete api x s = (err, s') \<Longrightarrow> version_of x \<noteq> [] \<Longrightarrow>
      stored s' = stored s \<and> err \<noteq> None
      \<or> (\<exists>b. stored s (name_of x) = Some b \<and> version_of b = version_of x \<and> stored s' = (stored s)(name_of x := None))"

text \<open>Reads that are not stale: a cache that has seen every write.\<close>

locale fresh_server = object_server +
  assumes get_fresh: "ob_get api n s = Inr x \<Longrightarrow> stored s n = Some x"
    and list_fresh: "ob_list api labels s = Inr xs \<Longrightarrow>
      set xs = {x. \<exists>n. stored s n = Some x \<and> labels \<subseteq>\<^sub>m labels_of x}"
    and delete_missing: "ob_delete api x s = (Some (ApiNotFound m), s') \<Longrightarrow> stored s' (name_of x) = None"
    and stored_name: "stored s n = Some x \<Longrightarrow> name_of x = n"

section \<open>A server that computes\<close>

text \<open>Objects by name, and a counter that names their versions. Entries that are not well-formed are not there.\<close>

record 'o object_store =
  os_objects :: "(string \<times> 'o) list"
  os_version :: nat

locale versioned =
  fixes name_of :: "'o \<Rightarrow> string"
    and version_of :: "'o \<Rightarrow> string"
    and set_version :: "string \<Rightarrow> 'o \<Rightarrow> 'o"
    and written :: "'o \<Rightarrow> 'o \<Rightarrow> bool"
    and labels_of :: "'o \<Rightarrow> (string \<rightharpoonup> string)"
  assumes set_version_name: "name_of (set_version v x) = name_of x"
    and set_version_version: "version_of (set_version v x) = v"
    and set_version_written: "written x (set_version v x)"

definition store_get :: "('o \<Rightarrow> string) \<Rightarrow> ('o \<Rightarrow> string) \<Rightarrow> 'o object_store \<Rightarrow> string \<Rightarrow> 'o option" where
  "store_get name_of version_of s n =
     (case map_of (os_objects s) n of
        None \<Rightarrow> None
      | Some x \<Rightarrow> if name_of x = n \<and> version_of x \<noteq> [] then Some x else None)"

definition store_put :: "string \<Rightarrow> 'o \<Rightarrow> 'o object_store \<Rightarrow> 'o object_store" where
  "store_put n x s = \<lparr>os_objects = AList.update n x (os_objects s), os_version = os_version s + 1\<rparr>"

definition next_version :: "'o object_store \<Rightarrow> string" where
  "next_version s = CHR ''v'' # nat_dec (os_version s)"

definition store_api ::
    "('o \<Rightarrow> string) \<Rightarrow> ('o \<Rightarrow> string) \<Rightarrow> (string \<Rightarrow> 'o \<Rightarrow> 'o) \<Rightarrow> ('o \<Rightarrow> (string \<rightharpoonup> string)) \<Rightarrow> ('o, 'o object_store) object_api" where
  "store_api name_of version_of set_version labels_of =
     \<lparr>ob_get = \<lambda>n s. (case store_get name_of version_of s n of None \<Rightarrow> Inl (ApiNotFound ''not found'') | Some x \<Rightarrow> Inr x),
      ob_list = \<lambda>labels s. Inr (filter (\<lambda>x. store_get name_of version_of s (name_of x) = Some x \<and> labels \<subseteq>\<^sub>m labels_of x)
        (map snd (os_objects s))),
      ob_create = \<lambda>x s. (if store_get name_of version_of s (name_of x) \<noteq> None then (Inl (ApiAlreadyExists ''already exists''), s)
        else (Inr (set_version (next_version s) x), store_put (name_of x) (set_version (next_version s) x) s)),
      ob_update = \<lambda>x s. (case store_get name_of version_of s (name_of x) of
          None \<Rightarrow> (Inl (ApiNotFound ''not found''), s)
        | Some b \<Rightarrow> if version_of b \<noteq> version_of x then (Inl (ApiConflict ''the object has been modified''), s)
            else (Inr (set_version (next_version s) x), store_put (name_of x) (set_version (next_version s) x) s)),
      ob_delete = \<lambda>x s. (case store_get name_of version_of s (name_of x) of
          None \<Rightarrow> (Some (ApiNotFound ''not found''), s)
        | Some b \<Rightarrow> if version_of b \<noteq> version_of x then (Some (ApiConflict ''the precondition failed''), s)
            else (None, s\<lparr>os_objects := AList.delete (name_of x) (os_objects s)\<rparr>))\<rparr>"

lemma store_get_put:
  assumes "name_of x = n" "version_of x \<noteq> []"
  shows "store_get name_of version_of (store_put n x s) = (store_get name_of version_of s)(n \<mapsto> x)"
  using assms by (auto simp: store_get_def store_put_def update_conv' fun_eq_iff)

lemma store_get_delete:
  "store_get name_of version_of (s\<lparr>os_objects := AList.delete n (os_objects s)\<rparr>) = (store_get name_of version_of s)(n := None)"
  by (auto simp: store_get_def delete_conv' fun_eq_iff)

lemma store_get_name: "store_get name_of version_of s n = Some x \<Longrightarrow> name_of x = n \<and> version_of x \<noteq> []"
  by (auto simp: store_get_def split: option.splits if_splits)

lemma store_get_listed: "store_get name_of version_of s n = Some x \<Longrightarrow> x \<in> snd ` set (os_objects s)"
  by (force simp: store_get_def dest: map_of_SomeD split: option.splits if_splits)

sublocale versioned \<subseteq> store: fresh_server "store_api name_of version_of set_version labels_of" name_of version_of written labels_of
  "store_get name_of version_of"
proof unfold_locales
  fix n s x
  assume "ob_get (store_api name_of version_of set_version labels_of) n s = Inr x"
  then have "store_get name_of version_of s n = Some x" by (simp add: store_api_def split: option.splits)
  then show "name_of x = n \<and> version_of x \<noteq> [] \<and> (\<forall>c. store_get name_of version_of s n = Some c \<longrightarrow> version_of c = version_of x \<longrightarrow> c = x)"
    "store_get name_of version_of s n = Some x"
    using store_get_name by fastforce+
next
  fix labels s xs x
  assume "ob_list (store_api name_of version_of set_version labels_of) labels s = Inr xs" and "x \<in> set xs"
  then show "labels \<subseteq>\<^sub>m labels_of x \<and> version_of x \<noteq> [] \<and>
      (\<forall>c. store_get name_of version_of s (name_of x) = Some c \<longrightarrow> version_of c = version_of x \<longrightarrow> c = x)"
    using store_get_name by (fastforce simp: store_api_def)
next
  fix x s r s'
  assume "ob_create (store_api name_of version_of set_version labels_of) x s = (r, s')"
  then show "store_get name_of version_of s' = store_get name_of version_of s \<and> (\<forall>c. r \<noteq> Inr c)
      \<or> store_get name_of version_of s (name_of x) = None
        \<and> (\<exists>c. written x c \<and> store_get name_of version_of s' = (store_get name_of version_of s)(name_of x \<mapsto> c) \<and> (\<forall>d. r = Inr d \<longrightarrow> d = c))"
    by (auto simp: store_api_def store_get_put set_version_name set_version_version set_version_written next_version_def split: if_splits)
next
  fix x s r s'
  assume "ob_update (store_api name_of version_of set_version labels_of) x s = (r, s')"
  then show "store_get name_of version_of s' = store_get name_of version_of s \<and> (\<forall>c. r \<noteq> Inr c)
      \<or> (\<exists>b c. store_get name_of version_of s (name_of x) = Some b \<and> version_of b = version_of x \<and> written x c
           \<and> store_get name_of version_of s' = (store_get name_of version_of s)(name_of x \<mapsto> c) \<and> (\<forall>d. r = Inr d \<longrightarrow> d = c))"
    by (auto simp: store_api_def store_get_put set_version_name set_version_version set_version_written next_version_def
        split: if_splits option.splits)
next
  fix x s err s'
  assume "ob_delete (store_api name_of version_of set_version labels_of) x s = (err, s')"
  then show "store_get name_of version_of s' = store_get name_of version_of s \<and> err \<noteq> None
      \<or> (\<exists>b. store_get name_of version_of s (name_of x) = Some b \<and> version_of b = version_of x
           \<and> store_get name_of version_of s' = (store_get name_of version_of s)(name_of x := None))"
    by (auto simp: store_api_def store_get_delete split: if_splits option.splits)
next
  fix labels s xs
  assume "ob_list (store_api name_of version_of set_version labels_of) labels s = Inr xs"
  then show "set xs = {x. \<exists>n. store_get name_of version_of s n = Some x \<and> labels \<subseteq>\<^sub>m labels_of x}"
    using store_get_name store_get_listed by (fastforce simp: store_api_def)
next
  fix x s m s'
  assume "ob_delete (store_api name_of version_of set_version labels_of) x s = (Some (ApiNotFound m), s')"
  then show "store_get name_of version_of s' (name_of x) = None"
    by (auto simp: store_api_def split: if_splits option.splits)
next
  fix s n x
  assume "store_get name_of version_of s n = Some x"
  then show "name_of x = n" using store_get_name by fastforce
qed

end
