(* ===== verification/Argocd_Engine.thy ===== *)
theory Argocd_Engine
  imports Argocd_Application Kube_Api Serving_Controller
begin

text \<open>
  The engine that deploys through Argo CD (\<open>internal/controller/argocd.go\<close>): admitting an Environment,
  pointing the Application of a target at an artifact, removing the Applications of clusters that are no
  longer targets, and registering clusters. The Kubernetes API is a parameter, the calls of \<open>Kube_Api\<close>
  on the Applications and on the Secrets of Argo CD's namespace.
\<close>

section \<open>The engine\<close>

record 's argoCD =
  ac_lib :: unstructured_library
  ac_parse :: "string \<Rightarrow> string + oci_reference"
  ac_apps :: "(unstructured, 's) object_api"
  ac_project :: "string \<Rightarrow> 's \<Rightarrow> api_failure + unstructured"
  ac_namespace :: string

definition environment_project :: "Environment \<Rightarrow> string" where
  "environment_project env =
     (case Deployer_ArgoCD (EnvironmentSpec_Deployer (Environment_Spec env)) of
        Some a \<Rightarrow> ArgoCDDeployer_Project a | None \<Rightarrow> [])"

definition Argocd_Admit :: "'s argoCD \<Rightarrow> Environment \<Rightarrow> 's \<Rightarrow> string + admission" where
  "Argocd_Admit a env s =
     (let name = environment_project env; ns = om_Namespace (Environment_ObjectMeta env) in
      case ac_project a name s of
        Inl (ApiNoMatch _) \<Rightarrow> Inr \<lparr>ad_reason = ReasonArgoCDNotInstalled,
            ad_message = ''Argo CD'' @ [CHR 0x27] @ ''s CRDs are not installed; install Argo CD to deploy''\<rparr>
      | Inl (ApiNotFound _) \<Rightarrow> Inr \<lparr>ad_reason = ReasonProjectNotFound,
            ad_message = ''The Argo CD AppProject '' @ go_quote name @ '' does not exist in namespace '' @ Argocd_Namespace\<rparr>
      | Inl err \<Rightarrow> Inl (''failed to get AppProject '' @ go_quote name @ '': '' @ api_message err)
      | Inr project \<Rightarrow>
          if ns \<noteq> ac_namespace a \<and> \<not> ProjectAdmitsSourceNamespace (ac_lib a) project ns
          then Inr \<lparr>ad_reason = ReasonProjectNotPermitted,
            ad_message = ''The Argo CD AppProject '' @ go_quote name @ '' does not admit namespace '' @ ns @ '' in its sourceNamespaces''\<rparr>
          else Inr \<lparr>ad_reason = [], ad_message = []\<rparr>)"

definition stateOf :: "unstructured_library \<Rightarrow> unstructured \<Rightarrow> targetState" where
  "stateOf lib app =
     (let state = StateOf lib (Some app) in
      case as_Phase state of
        PhaseHealthy \<Rightarrow> \<lparr>ts_health = HealthHealthy, ts_revision = as_Revision state, ts_message = as_Message state, ts_held = []\<rparr>
      | PhaseDegraded \<Rightarrow> \<lparr>ts_health = HealthDegraded, ts_revision = as_Revision state, ts_message = as_Message state, ts_held = []\<rparr>
      | PhaseRejected \<Rightarrow> \<lparr>ts_health = HealthProgressing, ts_revision = [],
          ts_message = ''Argo CD refuses the deployment: '' @ as_Message state, ts_held = ReasonRejected\<rparr>
      | _ \<Rightarrow> \<lparr>ts_health = HealthProgressing, ts_revision = as_Revision state, ts_message = as_Message state, ts_held = []\<rparr>)"

definition held_state :: "string \<Rightarrow> string \<Rightarrow> targetState" where
  "held_state reason message = \<lparr>ts_health = HealthProgressing, ts_revision = [], ts_message = message, ts_held = reason\<rparr>"

definition desired_application :: "'s argoCD \<Rightarrow> Environment \<Rightarrow> Serving \<Rightarrow> entry \<Rightarrow> deployTarget \<Rightarrow> string + unstructured" where
  "desired_application a env serving deployed target =
     Application (ac_parse a) serving (e_OCIRef deployed)
       \<lparr>at_Cluster = tg_cluster target, at_Server = tg_server target, at_Namespace = tg_namespace target,
        at_Project = environment_project env\<rparr>"

text \<open>Creating the Application when it is missing, and bringing one that exists to the desired state.\<close>

definition create_application :: "'s argoCD \<Rightarrow> unstructured \<Rightarrow> 's \<Rightarrow> (string + targetState) \<times> 's" where
  "create_application a desired s =
     (case ob_create (ac_apps a) desired s of
        (Inl (ApiAlreadyExists _), s) \<Rightarrow> (Inr \<lparr>ts_health = HealthProgressing, ts_revision = [], ts_message = [], ts_held = []\<rparr>, s)
      | (Inl err, s) \<Rightarrow> (Inl (''failed to create Application: '' @ api_message err), s)
      | (Inr created, s) \<Rightarrow> (Inr (stateOf (ac_lib a) created), s))"

definition update_application :: "'s argoCD \<Rightarrow> Serving \<Rightarrow> unstructured \<Rightarrow> unstructured \<Rightarrow> 's \<Rightarrow> (string + targetState) \<times> 's" where
  "update_application a serving desired existing s =
     (case OptedIn existing (om_Namespace (Serving_ObjectMeta serving)) (ServingSpec_OrderName (Serving_Spec serving)) of
        Some err \<Rightarrow> (Inr (held_state ReasonOptInRequired err), s)
      | None \<Rightarrow>
          if Application_Matches (ac_lib a) existing desired then (Inr (stateOf (ac_lib a) existing), s)
          else (case ob_update (ac_apps a) (desired\<lparr>us_ResourceVersion := us_ResourceVersion existing\<rparr>) s of
              (Inl err, s) \<Rightarrow> (Inl (''failed to update Application: '' @ api_message err), s)
            | (Inr updated, s) \<Rightarrow> (Inr (stateOf (ac_lib a) updated), s)))"

definition Argocd_Apply :: "'s argoCD \<Rightarrow> Environment \<Rightarrow> Serving \<Rightarrow> entry \<Rightarrow> deployTarget \<Rightarrow> 's \<Rightarrow> (string + targetState) \<times> 's" where
  "Argocd_Apply a env serving deployed target s =
     (case desired_application a env serving deployed target of
        Inl err \<Rightarrow> (Inl err, s)
      | Inr desired \<Rightarrow>
         (case ob_get (ac_apps a) (us_Name desired) s of
            Inl (ApiNoMatch _) \<Rightarrow> (Inr (held_state ReasonArgoCDNotInstalled
                (''Argo CD'' @ [CHR 0x27] @ ''s Application CRD is not installed; install Argo CD to deploy'')), s)
          | Inl (ApiNotFound _) \<Rightarrow> create_application a desired s
          | Inl err \<Rightarrow> (Inl (''failed to get Application: '' @ api_message err), s)
          | Inr existing \<Rightarrow> update_application a serving desired existing s))"

text \<open>The loop of \<open>Remove\<close> over the Applications it listed.\<close>

definition kept_cluster :: "string list option \<Rightarrow> string \<Rightarrow> bool" where
  "kept_cluster keep cluster = (case keep of None \<Rightarrow> False | Some cs \<Rightarrow> cluster \<in> set cs)"

fun remove_applications ::
    "'s argoCD \<Rightarrow> Serving \<Rightarrow> string list option \<Rightarrow> string list \<Rightarrow> unstructured list \<Rightarrow> 's \<Rightarrow> (string list \<times> string option) \<times> 's" where
  "remove_applications a serving keep removed [] s = ((removed, None), s)"
| "remove_applications a serving keep removed (app # apps) s =
     (if kept_cluster keep (ClusterOf app) then remove_applications a serving keep removed apps s
      else if OptedIn app (om_Namespace (Serving_ObjectMeta serving)) (ServingSpec_OrderName (Serving_Spec serving)) \<noteq> None
      then remove_applications a serving keep removed apps s
      else (case ob_delete (ac_apps a) app s of
          (Some (ApiNotFound _), s) \<Rightarrow> remove_applications a serving keep (removed @ [ClusterOf app]) apps s
        | (Some err, s) \<Rightarrow> ((removed, Some (''failed to delete Application '' @ go_quote (us_Name app) @ '': '' @ api_message err)), s)
        | (None, s) \<Rightarrow> remove_applications a serving keep (removed @ [ClusterOf app]) apps s))"

definition Argocd_Remove :: "'s argoCD \<Rightarrow> Serving \<Rightarrow> string list option \<Rightarrow> 's \<Rightarrow> (string list \<times> string option) \<times> 's" where
  "Argocd_Remove a serving keep s =
     (case ob_list (ac_apps a) (ServingLabels serving) s of
        Inl (ApiNoMatch _) \<Rightarrow> (([], None), s)
      | Inl err \<Rightarrow> (([], Some (''failed to list Applications: '' @ api_message err)), s)
      | Inr apps \<Rightarrow> remove_applications a serving keep [] apps s)"

definition argocd_deployer :: "'s argoCD \<Rightarrow> 's deployer" where
  "argocd_deployer a = \<lparr>en_Admit = Argocd_Admit a, en_Apply = Argocd_Apply a, en_Remove = Argocd_Remove a\<rparr>"

section \<open>Registering clusters\<close>

record registration =
  rg_reason :: string
  rg_message :: string
  rg_event :: string

fun unregister_secrets ::
    "(secret, 's) object_api \<Rightarrow> string \<Rightarrow> string list \<Rightarrow> secret list \<Rightarrow> 's \<Rightarrow> (string + string list) \<times> 's" where
  "unregister_secrets api keep deleted [] s = (Inr deleted, s)"
| "unregister_secrets api keep deleted (x # xs) s =
     (if sc_Name x = keep then unregister_secrets api keep deleted xs s
      else (case ob_delete api x s of
          (Some (ApiNotFound _), s) \<Rightarrow> unregister_secrets api keep (deleted @ [sc_Name x]) xs s
        | (Some err, s) \<Rightarrow> (Inl (''failed to delete Argo CD cluster Secret: '' @ api_message err), s)
        | (None, s) \<Rightarrow> unregister_secrets api keep (deleted @ [sc_Name x]) xs s))"

text \<open>What an Event says about the deleted Secrets, or an error.\<close>

definition unregister :: "(secret, 's) object_api \<Rightarrow> string \<Rightarrow> string \<Rightarrow> string \<Rightarrow> 's \<Rightarrow> (string + string) \<times> 's" where
  "unregister api namespace name keep s =
     (case ob_list api (RegistrationLabels namespace name) s of
        Inl err \<Rightarrow> (Inl (''failed to list Argo CD cluster Secrets: '' @ api_message err), s)
      | Inr secrets \<Rightarrow>
         (case unregister_secrets api keep [] secrets s of
            (Inl err, s) \<Rightarrow> (Inl err, s)
          | (Inr deleted, s) \<Rightarrow>
              (Inr (if deleted = [] then []
                    else ''Unregistered the cluster from Argo CD (Secret '' @ Argocd_Namespace @ ''/'' @ str_join '', '' deleted @ '')''), s)))"

definition Unregister :: "(secret, 's) object_api \<Rightarrow> Cluster \<Rightarrow> 's \<Rightarrow> (string + string) \<times> 's" where
  "Unregister api c s = unregister api (om_Namespace (Cluster_ObjectMeta c)) (cluster_name c) [] s"

definition updateClusterSecret :: "(secret, 's) object_api \<Rightarrow> secret \<Rightarrow> secret \<Rightarrow> 's \<Rightarrow> string option \<times> 's" where
  "updateClusterSecret api existing desired s =
     (if sc_Labels existing = sc_Labels desired \<and> sc_Type existing = sc_Type desired \<and> sc_Data existing = sc_Data desired
      then (None, s)
      else (case ob_update api (existing\<lparr>sc_Labels := sc_Labels desired, sc_Data := sc_Data desired, sc_Type := sc_Type desired\<rparr>) s of
          (Inl err, s) \<Rightarrow> (Some (''failed to update Argo CD cluster Secret: '' @ api_message err), s)
        | (Inr _, s) \<Rightarrow> (None, s)))"

text \<open>The result when another registration holds the server: this Cluster's own are deleted.\<close>

definition registration_conflict :: "(secret, 's) object_api \<Rightarrow> Cluster \<Rightarrow> string \<Rightarrow> 's \<Rightarrow> (registration \<times> string option) \<times> 's" where
  "registration_conflict api c msg s =
     (case Unregister api c s of
        (Inl err, s) \<Rightarrow> ((\<lparr>rg_reason = ReasonClusterConflict, rg_message = msg, rg_event = []\<rparr>, Some err), s)
      | (Inr event, s) \<Rightarrow> ((\<lparr>rg_reason = ReasonClusterConflict, rg_message = msg, rg_event = event\<rparr>, None), s))"

definition empty_registration :: registration where
  "empty_registration = \<lparr>rg_reason = [], rg_message = [], rg_event = []\<rparr>"

definition create_registration :: "(secret, 's) object_api \<Rightarrow> Cluster \<Rightarrow> secret \<Rightarrow> 's \<Rightarrow> (registration \<times> string option) \<times> 's" where
  "create_registration api c desired s =
     (case unregister api (om_Namespace (Cluster_ObjectMeta c)) (cluster_name c) (sc_Name desired) s of
        (Inl err, s) \<Rightarrow> ((empty_registration, Some err), s)
      | (Inr _, s) \<Rightarrow>
         (case ob_create api desired s of
            (Inl (ApiAlreadyExists err), s) \<Rightarrow> ((empty_registration,
               Some (''the Argo CD cluster Secret '' @ sc_Name desired @ '' was created meanwhile: '' @ err)), s)
          | (Inl err, s) \<Rightarrow> ((\<lparr>rg_reason = ReasonRegistrationFailed,
               rg_message = ''Failed to register the cluster with Argo CD: '' @ api_message err, rg_event = []\<rparr>, Some (api_message err)), s)
          | (Inr _, s) \<Rightarrow> ((\<lparr>rg_reason = [], rg_message = ''registered with Argo CD'',
               rg_event = ''Registered the cluster with Argo CD in Secret '' @ Argocd_Namespace @ ''/'' @ sc_Name desired\<rparr>, None), s)))"

definition keep_registration :: "(secret, 's) object_api \<Rightarrow> Cluster \<Rightarrow> string \<Rightarrow> secret \<Rightarrow> secret \<Rightarrow> 's \<Rightarrow> (registration \<times> string option) \<times> 's" where
  "keep_registration api c server existing desired s =
     (case Managed existing of
        (namespace, name, managed) \<Rightarrow>
          if \<not> managed \<or> namespace \<noteq> om_Namespace (Cluster_ObjectMeta c) \<or> name \<noteq> cluster_name c
          then registration_conflict api c
            (''Argo CD already knows the server '' @ server @ '' from '' @
             (if managed then ''the Cluster '' @ namespace @ ''/'' @ name else ''the Secret '' @ sc_Name existing) @
             ''; one cluster is one Cluster'') s
          else (case updateClusterSecret api existing desired s of
              (err, s) \<Rightarrow> ((\<lparr>rg_reason = [], rg_message = ''registered with Argo CD'', rg_event = []\<rparr>, err), s)))"

definition Register :: "(secret, 's) object_api \<Rightarrow> Cluster \<Rightarrow> Kubeconfig option \<Rightarrow> 's \<Rightarrow> (registration \<times> string option) \<times> 's" where
  "Register api c kubeconfig s =
     (case kubeconfig of
        None \<Rightarrow> ((\<lparr>rg_reason = [], rg_message = ''Argo CD deploys to its own cluster'', rg_event = []\<rparr>, None), s)
      | Some k \<Rightarrow>
         (let server = ep_Server (kc_Endpoint k); ns = om_Namespace (Cluster_ObjectMeta c) in
          if SameServer server InClusterServer
          then registration_conflict api c (''Argo CD knows '' @ server @ '' as the cluster it runs in: connect in-cluster instead'') s
          else (case ob_list api [LabelSecretType \<mapsto> SecretTypeCluster] s of
              Inl err \<Rightarrow> ((empty_registration, Some (''failed to list Argo CD cluster Secrets: '' @ api_message err)), s)
            | Inr secrets \<Rightarrow>
               (let conflicts = Conflicts secrets ns (cluster_name c) server; desired = ClusterSecret ns (cluster_name c) k in
                if conflicts \<noteq> []
                then registration_conflict api c
                  (''Argo CD already knows the server '' @ server @ '' from the Secret '' @ str_join '', '' conflicts @ ''; one cluster is one Cluster'') s
                else (case find (\<lambda>x. sc_Name x = sc_Name desired) secrets of
                    Some existing \<Rightarrow> keep_registration api c server existing desired s
                  | None \<Rightarrow> create_registration api c desired s)))))"

section \<open>Mapping watch events\<close>

definition servingOfApplication :: "unstructured \<Rightarrow> (string \<times> string) list" where
  "servingOfApplication app = (case ServingOf (us_Labels app) of Some key \<Rightarrow> [key] | None \<Rightarrow> [])"

definition clustersOfArgoCDSecret :: "(string \<Rightarrow> string + Cluster list) \<Rightarrow> secret \<Rightarrow> (string \<times> string) list \<times> bool" where
  "clustersOfArgoCDSecret clusters_of_server secret =
     (case Managed secret of
        (namespace, name, managed) \<Rightarrow>
          if sc_Namespace secret \<noteq> Argocd_Namespace \<or> \<not> managed then ([], False)
          else (case clusters_of_server (serverKey (string_at (sc_Data secret) ''server'')) of
              Inl _ \<Rightarrow> ([(namespace, name)], True)
            | Inr clusters \<Rightarrow>
                ((namespace, name) # map (\<lambda>c. (om_Namespace (Cluster_ObjectMeta c), cluster_name c)) clusters, True)))"

section \<open>Optional watches\<close>

text \<open>
  Waiting for the definition of a kind: the answers of the mapper at each tick, until the context is done.
  The watch is started, with an event on \<open>Started\<close>, once the kind is there.
\<close>

datatype mapping_answer = KindServed | KindNoMatch | MappingFailed string

datatype wait_result = WatchStarted | WatchFailed string | WatchCancelled

fun optional_wait :: "string \<Rightarrow> string option \<Rightarrow> mapping_answer list \<Rightarrow> wait_result" where
  "optional_wait kind start [] = WatchCancelled"
| "optional_wait kind start (KindServed # answers) =
     (case start of None \<Rightarrow> WatchStarted | Some err \<Rightarrow> WatchFailed (''failed to watch '' @ kind @ '': '' @ err))"
| "optional_wait kind start (KindNoMatch # answers) = optional_wait kind start answers"
| "optional_wait kind start (MappingFailed err # answers) = optional_wait kind start answers"

end
