(* ===== verification/Argocd_Safety.thy ===== *)
theory Argocd_Safety
  imports Argocd_Engine Serving_Safety
begin

text \<open>
  What the Argo CD engine may change: an Application that is not opted in for the Order of a Serving is
  neither changed nor deleted on behalf of that Serving, even when the reads of the engine are stale. The
  interface between the Serving controller and its engines is the locale \<open>deployment_engine\<close>: what an
  engine may do to its objects on behalf of an Order. The Argo CD engine provides it, and a whole
  reconcile of a Serving does no more.
\<close>

section \<open>What an engine may do on behalf of an Order\<close>

locale deployment_engines =
  fixes engines :: "'engine deployer set"
    and allowed :: "string \<Rightarrow> string \<Rightarrow> 'engine \<Rightarrow> 'engine \<Rightarrow> bool"
  assumes allowed_refl: "allowed ns order s s"
    and allowed_trans: "allowed ns order s s' \<Longrightarrow> allowed ns order s' s'' \<Longrightarrow> allowed ns order s s''"
    and apply_allowed: "d \<in> engines \<Longrightarrow> en_Apply d env serving e target s = (result, s') \<Longrightarrow>
      allowed (serving_namespace serving) (order_name serving) s s'"
    and remove_allowed: "d \<in> engines \<Longrightarrow> en_Remove d serving keep s = (removed, s') \<Longrightarrow>
      allowed (serving_namespace serving) (order_name serving) s s'"

text \<open>The part of a reconcile that reaches the engines: the Serving it is about, and what they did for it.\<close>

definition moved :: "(string \<Rightarrow> string \<Rightarrow> 'engine \<Rightarrow> 'engine \<Rightarrow> bool) \<Rightarrow> ('ec, 'rc, 'engine) reconcile \<Rightarrow> ('ec, 'rc, 'engine) reconcile \<Rightarrow> bool" where
  "moved allowed st st' \<longleftrightarrow>
     serving_namespace (rs_serving st') = serving_namespace (rs_serving st) \<and> order_name (rs_serving st') = order_name (rs_serving st)
     \<and> allowed (serving_namespace (rs_serving st)) (order_name (rs_serving st)) (rs_engine st) (rs_engine st')"

context deployment_engines
begin

lemma moved_trans: "moved allowed st st' \<Longrightarrow> moved allowed st' st'' \<Longrightarrow> moved allowed st st''"
  by (auto simp: moved_def intro: allowed_trans)

lemma moved_serving:
  assumes "serving_namespace (rs_serving st') = serving_namespace (rs_serving st)"
    and "order_name (rs_serving st') = order_name (rs_serving st)" and "rs_engine st' = rs_engine st"
  shows "moved allowed st st'"
  using assms by (simp add: moved_def allowed_refl)

lemma moved_and_then:
  fixes m :: "('ec, 'rc, 'engine) reconcile \<Rightarrow> (string + 'a) \<times> ('ec, 'rc, 'engine) reconcile"
    and f :: "'a \<Rightarrow> ('ec, 'rc, 'engine) reconcile \<Rightarrow> (string + 'b) \<times> ('ec, 'rc, 'engine) reconcile"
  assumes "moved allowed st (snd (m st))" and "\<And>x st'. moved allowed st' (snd (f x st'))"
  shows "moved allowed st (snd (and_then m f st))"
proof -
  obtain x st' where m: "m st = (x, st')" by fastforce
  then show ?thesis using assms(1) assms(2) [of st'] by (auto simp: and_then_def split: sum.splits intro: moved_trans)
qed

lemma apply_loop_moved:
  assumes "d \<in> engines"
  shows "moved allowed st (snd (apply_loop d env deployed targets states st))"
proof (induction targets arbitrary: states st)
  case Nil
  then show ?case by (simp add: moved_serving)
next
  case (Cons target targets)
  show ?case
  proof (cases "tg_holdReason target = []")
    case False
    then show ?thesis using Cons.IH by (auto intro!: moved_and_then simp: moved_serving split_beta)
  next
    case True
    obtain x engine where e: "en_Apply d env (rs_serving st) deployed target (rs_engine st) = (x, engine)" by fastforce
    have step: "moved allowed st (st\<lparr>rs_engine := engine\<rparr>)" using apply_allowed [OF assms e] by (simp add: moved_def)
    show ?thesis
    proof (cases x)
      case (Inl err)
      then show ?thesis using True step by (simp add: e)
    next
      case (Inr state)
      have "moved allowed (st\<lparr>rs_engine := engine\<rparr>) (snd (apply_loop d env deployed (target # targets) states st))"
        using True Cons.IH by (simp add: e Inr Let_def moved_and_then split_beta moved_serving)
      with step show ?thesis by (rule moved_trans)
    qed
  qed
qed

lemma remove_all_moved:
  assumes "set ds \<subseteq> engines"
  shows "moved allowed st (snd (remove_all v ds keep st))"
  using assms
proof (induction ds arbitrary: st)
  case Nil
  then show ?case by (simp add: moved_serving)
next
  case (Cons d ds)
  obtain removed err engine where e: "en_Remove d (rs_serving st) keep (rs_engine st) = ((removed, err), engine)"
    by (metis surj_pair)
  let ?st = "st\<lparr>rs_engine := engine, rs_events := rs_events st @ (if keep \<noteq> None \<and> sv_records_events v then map Undeployed removed else [])\<rparr>"
  have step: "moved allowed st ?st" using remove_allowed [OF _ e] Cons.prems by (simp add: moved_def)
  show ?case
  proof (cases err)
    case None
    then show ?thesis using moved_trans [OF step Cons.IH [of ?st]] Cons.prems by (simp add: e Let_def)
  qed (use step in \<open>simp add: e Let_def\<close>)
qed

end

section \<open>The steps that reach no engine\<close>

definition quiet :: "('ec, 'rc, 'engine) reconcile \<Rightarrow> ('ec, 'rc, 'engine) reconcile \<Rightarrow> bool" where
  "quiet st st' \<longleftrightarrow> Serving_ObjectMeta (rs_serving st') = Serving_ObjectMeta (rs_serving st)
     \<and> Serving_Spec (rs_serving st') = Serving_Spec (rs_serving st) \<and> rs_engine st' = rs_engine st"

lemma quiet_refl [simp]: "quiet st st"
  by (simp add: quiet_def)

lemma quiet_trans: "quiet st st' \<Longrightarrow> quiet st' st'' \<Longrightarrow> quiet st st''"
  by (simp add: quiet_def)

lemma quiet_and_then:
  fixes m :: "('ec, 'rc, 'engine) reconcile \<Rightarrow> (string + 'a) \<times> ('ec, 'rc, 'engine) reconcile"
    and f :: "'a \<Rightarrow> ('ec, 'rc, 'engine) reconcile \<Rightarrow> (string + 'b) \<times> ('ec, 'rc, 'engine) reconcile"
  assumes "quiet st (snd (m st))" and "\<And>x st'. quiet st' (snd (f x st'))"
  shows "quiet st (snd (and_then m f st))"
proof -
  obtain x st' where m: "m st = (x, st')" by fastforce
  then show ?thesis using assms(1) assms(2) [of st'] by (auto simp: and_then_def split: sum.splits intro: quiet_trans)
qed

lemma gate_quiet: "quiet st (snd (gate v r p target st))"
  by (auto simp: gate_def quiet_def Let_def split: sum.splits)

lemma verifyDeployment_quiet: "quiet st (snd (verifyDeployment v r ns q st))"
  by (auto simp: verifyDeployment_def quiet_def Let_def split: sum.splits prod.splits)

lemma verify_qualified_quiet: "quiet st (snd (verify_qualified v r ns qs st))"
proof (induction qs arbitrary: st)
  case (Cons q qs)
  obtain result st1 where v: "verifyDeployment v r ns q st = (result, st1)" by fastforce
  have "quiet st st1" using verifyDeployment_quiet [of st v r ns q] v by simp
  then show ?case using Cons.IH [of st1] v by (auto simp: v split: option.splits intro: quiet_trans)
qed simp

lemma evaluate_upstream_quiet: "quiet st (snd (evaluate_upstream v r p req st))"
proof -
  obtain failed st1 where q: "verify_qualified v r (serving_namespace (rs_serving st)) (g_Qualified (gate_Evaluate req)) st = (failed, st1)"
    by fastforce
  have "quiet st st1" using verify_qualified_quiet [of st v r] q by (metis snd_conv)
  then show ?thesis by (auto simp: evaluate_upstream_def Let_def q quiet_def split: option.splits prod.splits)
qed

lemma upstream_gate_quiet: "quiet st (snd (upstream_gate v r order p h st))"
proof -
  have tick: "quiet st (snd (evaluate_upstream v r p req (st\<lparr>rs_ticks := Suc (rs_ticks st)\<rparr>)))" for req
    using evaluate_upstream_quiet [of "st\<lparr>rs_ticks := Suc (rs_ticks st)\<rparr>" v r p req] by (simp add: quiet_def)
  show ?thesis
    using tick by (auto simp: upstream_gate_def Let_def quiet_def split: sum.splits prod.splits)
qed

lemma verify_quiet: "quiet st (snd (verify v r p st))"
  by (auto simp: verify_def quiet_def Let_def split: sum.splits prod.splits option.splits evidence_failure.splits)

lemma evaluateVulnerabilities_quiet: "quiet st (snd (evaluateVulnerabilities v r p c st))"
  by (auto simp: evaluateVulnerabilities_def quiet_def Let_def split: sum.splits option.splits)

lemma checks_quiet: "quiet st (snd (checks v r p st))"
proof (cases "vulnerabilities_of p")
  case None
  then show ?thesis by (simp add: checks_def quiet_def)
next
  case (Some c)
  obtain res st1 where e: "evaluateVulnerabilities v r p c st = (res, st1)" by fastforce
  have "quiet st st1" using evaluateVulnerabilities_quiet [of st v r p c] e by simp
  then show ?thesis using Some e by (auto simp: checks_def and_then_def quiet_def Let_def split: sum.splits prod.splits)
qed

lemma promote_verified_quiet: "quiet st (snd (promote_verified v r order p h u c verified st))"
  by (auto simp: promote_verified_def hold_def quiet_def Let_def split: sum.splits)

lemma hold_quiet:
  "quiet st (snd (hold h msg wait st))"
  "quiet st (snd (hold h msg wait (on_serving (mark_unknown v t reason m) st)))"
  "quiet st (snd (hold h msg wait (on_serving (\<lambda>s. setTargetPreparation s name) st)))"
  by (simp_all add: hold_def quiet_def)

lemma promote_checked_quiet: "quiet st (snd (promote_checked v r order p h u c st))"
  unfolding promote_checked_def Let_def
  by (rule quiet_and_then [OF gate_quiet]) (auto simp: hold_quiet intro!: quiet_and_then verify_quiet promote_verified_quiet)

lemma promote_quiet: "quiet st (snd (promote v r order p st))"
  by (auto simp: promote_def Let_def hold_quiet intro!: quiet_and_then upstream_gate_quiet checks_quiet promote_checked_quiet)

lemma decide_candidate_quiet: "quiet st (snd (decide_candidate v r st))"
proof -
  have dropped: "quiet st (on_serving (\<lambda>s. setTargetPreparation (setHistory s h) []) st)" for h
    by (simp add: quiet_def)
  obtain order candidate held err where t: "targetPreparation (sv_conditions v) r (rs_serving st) = (order, candidate, held, err)"
    by (metis surj_pair)
  show ?thesis
  proof (cases "\<exists>o1 p. order = Some o1 \<and> candidate = Some p")
    case True
    then obtain o1 p where op: "order = Some o1" "candidate = Some p" by blast
    obtain x st1 where p: "promote v r o1 p st = (x, st1)" by fastforce
    have "quiet st st1" using promote_quiet [of st v r o1 p] p by simp
    then show ?thesis using t op p by (auto simp: decide_candidate_def split: sum.splits)
  next
    case False
    then show ?thesis using t by (cases order; cases candidate; cases err) (auto simp: decide_candidate_def quiet_def)
  qed
qed

lemma recordDeployments_quiet: "quiet st (snd (recordDeployments v r h targets states st))"
  by (auto simp: recordDeployments_def quiet_def split: sum.splits)

lemma recordDeployedVulnerabilities_quiet: "quiet st (snd (recordDeployedVulnerabilities v r deployed st))"
  by (auto simp: recordDeployedVulnerabilities_def quiet_def Let_def split: sum.splits option.splits read_failure.splits prod.splits)

lemma same_identity_deployment:
  "Serving_ObjectMeta (mark_deployment v deployed targets ob s) = Serving_ObjectMeta s"
  "Serving_Spec (mark_deployment v deployed targets ob s) = Serving_Spec s"
  by (auto simp: mark_deployment_def markDeployment_def markDeploymentFailed_def Let_def MarkTrue_def MarkFalse_def MarkUnknown_def split: option.splits)

lemma observe_deployment_quiet: "quiet st (snd (observe_deployment v r h deployed held applied st))"
proof -
  obtain targets states where a: "applied = (targets, states)" by fastforce
  define st1 where "st1 = on_serving (\<lambda>s. markHeld (sv_conditions v)
    (mark_deployment v deployed targets (observationOf deployed targets states) (setTargets (sv_conditions v) s deployed targets states)) held) st"
  define st2 where "st2 = st1\<lparr>rs_ticks := rs_ticks st1 + 1\<rparr>"
  note same_identity_deployment [simp]
  have q: "quiet st st2" by (simp add: st2_def st1_def quiet_def)
  have changed: "quiet st2 (on_serving (\<lambda>s. setHistory (if b then set_vulnerabilities None s else s) observed) st2)" for b observed
    by (simp add: quiet_def)
  have rest: "quiet st2 (snd (and_then (recordDeployments v r h targets states)
      (\<lambda>_. and_then (recordDeployedVulnerabilities v r deployed) (\<lambda>_ st. (Inr (0 :: duration), st))) st2))"
    by (intro quiet_and_then recordDeployments_quiet recordDeployedVulnerabilities_quiet) simp
  show ?thesis
    unfolding observe_deployment_def a prod.case Let_def clock_eq st1_def [symmetric] st2_def [symmetric]
    using quiet_trans [OF q changed] quiet_trans [OF q rest] by (simp split: prod.split)
qed

section \<open>A whole reconcile\<close>

text \<open>The engines a reconcile may call.\<close>

definition engines_of :: "('trust, 'signer, 'client, 'scope, 'ec, 'rc, 'engine) services \<Rightarrow> 'engine deployer set" where
  "engines_of v = insert (sv_argocd v) (snd ` set (sv_deployers v))"

lemma deployer_of_engines: "deployer_of v env \<in> engines_of v"
  by (force simp: deployer_of_def engines_of_def dest: map_of_SomeD split: option.split)

lemma all_deployers_engines: "set (all_deployers v) \<subseteq> engines_of v"
  by (auto simp: all_deployers_def engines_of_def)

lemma deploy_quiet_cases:
  assumes "deploy v r order held st = (result, st')"
  shows "quiet st st' \<or> (\<exists>deployed o1 p. deploy_preparation v r o1 (rs_history st) deployed held p st = (result, st'))"
proof (cases "\<exists>deployed o1 p. Deployed (rs_history st) = Some deployed \<and> order = Some o1
    \<and> get_Preparation r (serving_namespace (rs_serving st)) (e_Preparation deployed) = Inr p")
  case True
  then show ?thesis using assms by (auto simp: deploy_def Let_def)
next
  case False
  then have "quiet st st'"
    using assms by (auto simp: deploy_def Let_def quiet_def markPending_def MarkUnknown_def MarkFalse_def
        split: option.splits sum.splits read_failure.splits if_splits)
  then show ?thesis ..
qed

context deployment_engines
begin

lemma moved_quiet: "quiet st st' \<Longrightarrow> moved allowed st st'"
  by (simp add: quiet_def moved_serving)

lemma applyTargets_moved:
  assumes "engines_of v \<subseteq> engines"
  shows "moved allowed st (snd (applyTargets v env deployed targets st))"
proof -
  have d: "deployer_of v env \<in> engines" and all: "set (all_deployers v) \<subseteq> engines"
    using assms deployer_of_engines all_deployers_engines by blast+
  show ?thesis
    unfolding applyTargets_def remove_deployments_def
    by (intro moved_and_then apply_loop_moved [OF d] remove_all_moved [OF all]) (simp add: moved_serving)
qed

lemma deploy_preparation_moved:
  assumes "engines_of v \<subseteq> engines"
  shows "moved allowed st (snd (deploy_preparation v r order h deployed held p st))"
proof (cases "deploy_targets_of v r order p st")
  case (Inl err)
  then show ?thesis by (simp add: deploy_preparation_def moved_serving)
next
  case (Inr found)
  show ?thesis
  proof (cases found)
    case (NoTargets reason msg)
    have all: "set (all_deployers v) \<subseteq> engines" using assms all_deployers_engines by blast
    have "moved allowed st (snd (and_then (remove_deployments v (Some [])) (\<lambda>_ st.
        (Inr 0 :: string + duration, on_serving (\<lambda>s. mark_ready v reason msg held (setTargets (sv_conditions v) s deployed [] Map.empty)) st)) st))"
      unfolding remove_deployments_def by (rule moved_and_then [OF remove_all_moved [OF all]]) (simp add: moved_serving)
    then show ?thesis using Inr NoTargets by (simp add: deploy_preparation_def)
  next
    case (TargetsIn env targets)
    obtain x st1 where a: "applyTargets v env deployed targets st = (x, st1)" by fastforce
    have k: "moved allowed st st1" using applyTargets_moved [OF assms, of st env deployed targets] a by simp
    show ?thesis
    proof (cases x)
      case (Inl err)
      have "moved allowed st1 (snd (deploy_preparation v r order h deployed held p st))"
        using Inr TargetsIn a Inl by (intro moved_serving) (simp_all add: deploy_preparation_def markDeploymentFailed_def MarkFalse_def)
      then show ?thesis by (rule moved_trans [OF k])
    next
      case (Inr applied)
      have "moved allowed st1 (snd (observe_deployment v r h deployed held applied st1))"
        by (rule moved_quiet [OF observe_deployment_quiet])
      then show ?thesis
        using moved_trans [OF k] \<open>deploy_targets_of v r order p st = Inr found\<close> TargetsIn a Inr by (simp add: deploy_preparation_def)
    qed
  qed
qed

lemma deploy_moved:
  assumes "engines_of v \<subseteq> engines"
  shows "moved allowed st (snd (deploy v r order held st))"
proof -
  obtain result st' where d: "deploy v r order held st = (result, st')" by fastforce
  from deploy_quiet_cases [OF d] show ?thesis
  proof (elim disjE exE)
    assume "quiet st st'"
    then show ?thesis using d moved_quiet by simp
  next
    fix deployed o1 p
    assume "deploy_preparation v r o1 (rs_history st) deployed held p st = (result, st')"
    then show ?thesis using d deploy_preparation_moved [OF assms, of st r o1 "rs_history st" deployed held p] by simp
  qed
qed

lemma reconcileServing_moved:
  assumes "engines_of v \<subseteq> engines"
  shows "moved allowed st (snd (reconcileServing v r st))"
proof -
  obtain order wait held err st1 where c: "decide_candidate v r st = ((order, wait, held, err), st1)" by (metis surj_pair)
  obtain deployed st2 where e: "deploy v r order held st1 = (deployed, st2)" by fastforce
  have "moved allowed st st1" using moved_quiet [OF decide_candidate_quiet [of st v r]] c by simp
  moreover have "moved allowed st1 st2" using deploy_moved [OF assms, of st1 r order held] e by simp
  ultimately have "moved allowed st st2" by (rule moved_trans)
  then show ?thesis by (simp add: reconcileServing_def c e split: option.split)
qed

lemma set_finalizers_moved: "moved allowed st (on_serving (\<lambda>s. set_finalizers (f s) s) st)"
  by (rule moved_serving) (simp_all add: set_finalizers_def)

lemma reconcileDelete_moved:
  assumes "engines_of v \<subseteq> engines"
  shows "moved allowed st (snd (reconcileDelete v w st))"
proof -
  have all: "set (all_deployers v) \<subseteq> engines" using assms all_deployers_engines by blast
  show ?thesis
  proof (cases "Finalizer \<in> set (finalizers (rs_serving st))")
    case False
    then show ?thesis by (simp add: reconcileDelete_def moved_serving)
  next
    case True
    then have enabled: "(Finalizer \<notin> set (finalizers (rs_serving st))) = False" by simp
    show ?thesis
      unfolding reconcileDelete_def Let_def remove_deployments_def enabled if_False
      by (rule moved_and_then [OF remove_all_moved [OF all]]) (auto intro: set_finalizers_moved split: write_result.split)
  qed
qed

lemma reconcile_body_moved:
  assumes "engines_of v \<subseteq> engines"
  shows "moved allowed st (snd (reconcile_body v r w st))"
  using set_finalizers_moved [of st "\<lambda>s. finalizers s @ [Finalizer]"]
    moved_trans [OF set_finalizers_moved reconcileServing_moved [OF assms]]
  by (auto simp: reconcile_body_def Let_def reconcileDelete_moved [OF assms] reconcileServing_moved [OF assms] split: option.split)

lemma Reconcile_allowed:
  assumes "engines_of v \<subseteq> engines" and "get_Serving r namespace name = Inr serving"
    and "Reconcile v r w namespace name st = (result, stored, st')"
  shows "allowed (serving_namespace serving) (order_name serving) (rs_engine st) (rs_engine st')"
  using reconcile_body_moved [OF assms(1), of "st\<lparr>rs_serving := serving\<rparr>" r w] assms(2,3)
  by (auto simp: Reconcile_def moved_def split: prod.splits)

lemma Reconcile_no_serving:
  assumes "get_Serving r namespace name = Inl failed" and "Reconcile v r w namespace name st = (result, stored, st')"
  shows "rs_engine st' = rs_engine st"
  using assms by (auto simp: Reconcile_def split: read_failure.splits)

end

section \<open>The Argo CD engine\<close>

text \<open>A stored object has the metadata and the contents that were written.\<close>

definition same_application :: "unstructured \<Rightarrow> unstructured \<Rightarrow> bool" where
  "same_application x c \<longleftrightarrow> us_Name c = us_Name x \<and> us_Namespace c = us_Namespace x \<and> us_Labels c = us_Labels x
     \<and> us_Annotations c = us_Annotations x \<and> us_Object c = us_Object x"

locale applications_server =
  object_server "ac_apps a" us_Name us_ResourceVersion same_application us_Labels stored
  for a :: "'s argoCD" and stored :: "'s \<Rightarrow> string \<rightharpoonup> unstructured"

text \<open>Every Application that is not opted in for the Order is still there, unchanged.\<close>

definition foreign_kept :: "('s \<Rightarrow> string \<rightharpoonup> unstructured) \<Rightarrow> string \<Rightarrow> string \<Rightarrow> 's \<Rightarrow> 's \<Rightarrow> bool" where
  "foreign_kept stored ns order s s' \<longleftrightarrow>
     (\<forall>n x. stored s n = Some x \<longrightarrow> allowed_order_of x \<noteq> allowedOrder ns order \<longrightarrow> stored s' n = Some x)"

lemma foreign_kept_trans: "foreign_kept stored ns order s s' \<Longrightarrow> foreign_kept stored ns order s' s'' \<Longrightarrow> foreign_kept stored ns order s s''"
  by (simp add: foreign_kept_def)

lemma foreign_kept_same: "stored s' = stored s \<Longrightarrow> foreign_kept stored ns order s s'"
  by (simp add: foreign_kept_def)

lemma OptedIn_None: "OptedIn app ns order = None \<longleftrightarrow> allowed_order_of app = allowedOrder ns order"
  by (simp add: OptedIn_def Let_def)

context applications_server
begin

lemma create_foreign:
  assumes "create_application a desired s = (r, s')"
  shows "foreign_kept stored ns order s s'"
proof -
  obtain x where c: "ob_create (ac_apps a) desired s = (x, s')"
    using assms by (auto simp: create_application_def split: prod.splits sum.splits api_failure.splits)
  from create [OF c] show ?thesis by (auto simp: foreign_kept_def)
qed

lemma update_foreign:
  assumes u: "update_application a serving desired existing s = (r, s')"
    and e: "us_Name existing = us_Name desired" "us_ResourceVersion existing \<noteq> []"
      "\<And>c. stored s (us_Name desired) = Some c \<Longrightarrow> us_ResourceVersion c = us_ResourceVersion existing \<Longrightarrow> c = existing"
  shows "foreign_kept stored (serving_namespace serving) (order_name serving) s s'"
proof (cases "allowed_order_of existing = allowedOrder (serving_namespace serving) (order_name serving)
    \<and> \<not> Application_Matches (ac_lib a) existing desired")
  case False
  then have "s' = s" using u by (auto simp: update_application_def simp flip: OptedIn_None split: option.splits if_splits)
  then show ?thesis by (simp add: foreign_kept_same)
next
  case True
  then have "OptedIn existing (serving_namespace serving) (order_name serving) = None" by (simp add: OptedIn_None)
  then obtain x where c: "ob_update (ac_apps a) (desired\<lparr>us_ResourceVersion := us_ResourceVersion existing\<rparr>) s = (x, s')"
    using u True by (auto simp: update_application_def split: prod.splits sum.splits)
  from update [OF c] show ?thesis
    using e True by (auto simp: foreign_kept_def)
qed

lemma delete_foreign:
  assumes d: "ob_delete (ac_apps a) app s = (err, s')"
    and app: "us_ResourceVersion app \<noteq> []" "allowed_order_of app = allowedOrder ns order"
      "\<And>c. stored s (us_Name app) = Some c \<Longrightarrow> us_ResourceVersion c = us_ResourceVersion app \<Longrightarrow> c = app"
  shows "foreign_kept stored ns order s s' \<and> stored s' \<subseteq>\<^sub>m stored s"
  using delete [OF d app(1)] app by (auto simp: foreign_kept_def map_le_def split: if_splits)

lemma remove_applications_foreign:
  assumes "remove_applications a serving keep removed apps s = (r, s')"
    and "\<And>app c. app \<in> set apps \<Longrightarrow> us_ResourceVersion app \<noteq> [] \<and>
      (stored s (us_Name app) = Some c \<longrightarrow> us_ResourceVersion c = us_ResourceVersion app \<longrightarrow> c = app)"
  shows "foreign_kept stored (serving_namespace serving) (order_name serving) s s'"
  using assms
proof (induction apps arbitrary: removed s)
  case Nil
  then show ?case by (simp add: foreign_kept_same)
next
  case (Cons app apps)
  let ?ns = "serving_namespace serving" and ?order = "order_name serving"
  show ?case
  proof (cases "kept_cluster keep (ClusterOf app) \<or> allowed_order_of app \<noteq> allowedOrder ?ns ?order")
    case True
    then have "remove_applications a serving keep removed apps s = (r, s')"
      using Cons.prems(1) by (auto simp: OptedIn_None split: if_splits)
    then show ?thesis using Cons.IH [of removed s] Cons.prems(2) by simp
  next
    case False
    obtain err s1 where d: "ob_delete (ac_apps a) app s = (err, s1)" by fastforce
    have step: "foreign_kept stored ?ns ?order s s1 \<and> stored s1 \<subseteq>\<^sub>m stored s"
      using delete_foreign [OF d, of ?ns ?order] Cons.prems(2) [of app] False by simp
    have later: "us_ResourceVersion x \<noteq> [] \<and> (stored s1 (us_Name x) = Some c \<longrightarrow> us_ResourceVersion c = us_ResourceVersion x \<longrightarrow> c = x)"
      if "x \<in> set apps" for x c
      using that Cons.prems(2) [of x c] step by (auto simp: map_le_def dom_def)
    have "s' = s1 \<or> remove_applications a serving keep (removed @ [ClusterOf app]) apps s1 = (r, s')"
      using Cons.prems(1) False d by (auto simp: OptedIn_None split: option.splits api_failure.splits)
    moreover have "foreign_kept stored ?ns ?order s1 s'"
      if "remove_applications a serving keep (removed @ [ClusterOf app]) apps s1 = (r, s')"
      using Cons.IH [OF that] later by blast
    ultimately show ?thesis using step by (auto intro: foreign_kept_trans)
  qed
qed

lemma Apply_foreign:
  assumes "Argocd_Apply a env serving deployed target s = (r, s')"
  shows "foreign_kept stored (serving_namespace serving) (order_name serving) s s'"
proof (cases "desired_application a env serving deployed target")
  case (Inl err)
  then show ?thesis using assms by (simp add: Argocd_Apply_def foreign_kept_same)
next
  case desired: (Inr desired)
  show ?thesis
  proof (cases "ob_get (ac_apps a) (us_Name desired) s")
    case (Inl err)
    then have "s' = s \<or> create_application a desired s = (r, s')"
      using assms desired by (auto simp: Argocd_Apply_def split: api_failure.splits)
    then show ?thesis by (auto intro: create_foreign foreign_kept_same)
  next
    case (Inr existing)
    then have "update_application a serving desired existing s = (r, s')"
      using assms desired by (simp add: Argocd_Apply_def)
    then show ?thesis by (rule update_foreign) (use get_read [OF Inr] in auto)
  qed
qed

lemma Remove_foreign:
  assumes "Argocd_Remove a serving keep s = (r, s')"
  shows "foreign_kept stored (serving_namespace serving) (order_name serving) s s'"
proof (cases "ob_list (ac_apps a) (ServingLabels serving) s")
  case (Inl err)
  then have "s' = s" using assms by (auto simp: Argocd_Remove_def split: api_failure.splits)
  then show ?thesis by (simp add: foreign_kept_same)
next
  case (Inr apps)
  then have "remove_applications a serving keep [] apps s = (r, s')" using assms by (simp add: Argocd_Remove_def)
  then show ?thesis by (rule remove_applications_foreign) (use list_read [OF Inr] in auto)
qed

lemma argocd_engines: "deployment_engines {argocd_deployer a} (foreign_kept stored)"
  by unfold_locales
    (auto simp: argocd_deployer_def foreign_kept_same intro: foreign_kept_trans Apply_foreign Remove_foreign)

end

sublocale applications_server \<subseteq> engine: deployment_engines "{argocd_deployer a}" "foreign_kept stored"
  by (rule argocd_engines)

end
