(* ===== verification/Argocd_Deploy.thy ===== *)
theory Argocd_Deploy
  imports Argocd_Safety
begin

text \<open>
  What the Argo CD engine leaves behind, when its reads are not stale: the Application of every target that
  reports a revision is the desired one, no Application of the Serving is left on another cluster, and a
  target is healthy only when Argo CD synced the current source of its Application. Registrations of
  clusters: one per server, and none of another Cluster is touched.
\<close>

section \<open>Applying\<close>

locale applications_current =
  fresh_server "ac_apps a" us_Name us_ResourceVersion same_application us_Labels stored
  for a :: "'s argoCD" and stored :: "'s \<Rightarrow> string \<rightharpoonup> unstructured"
begin

lemma is_applications_server: "applications_server a stored"
  by (simp add: applications_server_def object_server_axioms)

end

text \<open>What the engine wants to be stored for a target.\<close>

definition desired_stored :: "'s argoCD \<Rightarrow> Environment \<Rightarrow> Serving \<Rightarrow> entry \<Rightarrow> deployTarget \<Rightarrow> unstructured \<Rightarrow> bool" where
  "desired_stored a env serving deployed target app \<longleftrightarrow>
     (\<exists>desired. desired_application a env serving deployed target = Inr desired \<and> us_Name app = us_Name desired
        \<and> us_Labels app = us_Labels desired \<and> us_Annotations app = us_Annotations desired
        \<and> nested_map (ac_lib a) (us_Object app) [''spec''] = nested_map (ac_lib a) (us_Object desired) [''spec''])"

lemma stateOf_reported:
  assumes "ts_held (stateOf lib app) = []"
  shows "ts_revision (stateOf lib app) = as_Revision (object_state lib (us_Object app))"
    and "ts_health (stateOf lib app) = HealthHealthy \<longleftrightarrow> as_Phase (object_state lib (us_Object app)) = PhaseHealthy"
  using assms by (auto simp: stateOf_def StateOf_def Let_def ReasonRejected_def split: Phase.splits)

lemma held_state_held [simp]: "ts_held (held_state reason message) = reason"
  by (simp add: held_state_def)

lemma matches_desired:
  assumes "desired_application a env serving deployed target = Inr desired" "Application_Matches (ac_lib a) app desired"
    "unstructured_laws (ac_lib a)" "us_Name app = us_Name desired"
  shows "desired_stored a env serving deployed target app"
proof -
  have "\<exists>spec. nested_map (ac_lib a) (us_Object desired) [''spec''] = Some spec"
    using Application_built(5) [OF assms(1) [unfolded desired_application_def] assms(3)] by blast
  then show ?thesis
    using assms by (auto simp: Application_Matches_def desired_stored_def map_of_field_def split: option.splits)
qed

context applications_current
begin

lemma Apply_stored:
  assumes "Argocd_Apply a env serving deployed target s = (Inr state, s')" "ts_held state = []"
    and lib: "unstructured_laws (ac_lib a)"
  shows "ts_health state = HealthProgressing \<and> ts_revision state = []
    \<or> (\<exists>app. stored s' (Application_Key serving (tg_cluster target)) = Some app \<and> desired_stored a env serving deployed target app
        \<and> state = stateOf (ac_lib a) app)"
proof -
  obtain desired where desired: "desired_application a env serving deployed target = Inr desired"
    using assms(1) by (auto simp: Argocd_Apply_def split: sum.splits)
  have name: "us_Name desired = Application_Key serving (tg_cluster target)"
    using Application_built(1) [OF desired [unfolded desired_application_def] lib] by simp
  have wanted: "desired_stored a env serving deployed target c" if "same_application (desired\<lparr>us_ResourceVersion := v\<rparr>) c" for c v
    using that desired by (auto simp: desired_stored_def same_application_def)
  have wanted': "desired_stored a env serving deployed target c" if "same_application desired c" for c
    using that desired by (auto simp: desired_stored_def same_application_def)
  show ?thesis
  proof (cases "ob_get (ac_apps a) (us_Name desired) s")
    case (Inl err)
    then have c: "create_application a desired s = (Inr state, s')"
      using assms(1,2) desired by (cases err) (auto simp: Argocd_Apply_def ReasonArgoCDNotInstalled_def)
    obtain x where x: "ob_create (ac_apps a) desired s = (x, s')"
      using c by (auto simp: create_application_def split: prod.splits sum.splits api_failure.splits)
    show ?thesis
    proof (cases x)
      case (Inl e)
      then show ?thesis using c x by (auto simp: create_application_def split: api_failure.splits)
    next
      case (Inr app)
      then have "same_application desired app \<and> stored s' = (stored s)(us_Name desired \<mapsto> app)"
        using create [OF x] by auto
      then show ?thesis using c x Inr wanted' name by (auto simp: create_application_def)
    qed
  next
    case (Inr existing)
    then have u: "update_application a serving desired existing s = (Inr state, s')"
      using assms(1) desired by (simp add: Argocd_Apply_def)
    have e: "us_Name existing = us_Name desired" "us_ResourceVersion existing \<noteq> []" "stored s (us_Name desired) = Some existing"
      using get_read [OF Inr] get_fresh [OF Inr] by simp_all
    have opted: "OptedIn existing (serving_namespace serving) (order_name serving) = None"
      using u assms(2) by (auto simp: update_application_def ReasonOptInRequired_def split: option.splits)
    show ?thesis
    proof (cases "Application_Matches (ac_lib a) existing desired")
      case True
      then show ?thesis
        using u opted e name matches_desired [OF desired True lib e(1)] by (auto simp: update_application_def)
    next
      case False
      obtain x where x: "ob_update (ac_apps a) (desired\<lparr>us_ResourceVersion := us_ResourceVersion existing\<rparr>) s = (x, s')"
        using u opted False by (auto simp: update_application_def split: prod.splits sum.splits)
      then obtain app where app: "x = Inr app" "state = stateOf (ac_lib a) app"
        using u opted False by (auto simp: update_application_def split: sum.splits)
      have "same_application (desired\<lparr>us_ResourceVersion := us_ResourceVersion existing\<rparr>) app \<and> stored s' = (stored s)(us_Name desired \<mapsto> app)"
        using update [OF x] app e(2) by auto
      then show ?thesis using wanted [of "us_ResourceVersion existing" app] app name by (intro disjI2 exI [of _ app]) simp
    qed
  qed
qed

lemma Apply_other:
  assumes "Argocd_Apply a env serving deployed target s = (r, s')" and lib: "unstructured_laws (ac_lib a)"
    and "n \<noteq> Application_Key serving (tg_cluster target)"
  shows "stored s' n = stored s n"
proof (cases "desired_application a env serving deployed target")
  case (Inl err)
  then show ?thesis using assms(1) by (simp add: Argocd_Apply_def)
next
  case desired: (Inr desired)
  have n: "n \<noteq> us_Name desired"
    using Application_built(1) [OF desired [unfolded desired_application_def] lib] assms(3) by simp
  have created: "stored s2 n = stored s1 n" if c: "create_application a desired s1 = (r2, s2)" for s1 r2 s2
  proof -
    obtain x where "ob_create (ac_apps a) desired s1 = (x, s2)"
      using c by (auto simp: create_application_def split: prod.splits sum.splits api_failure.splits)
    from create [OF this] show ?thesis using n by auto
  qed
  have updated: "stored s2 n = stored s1 n" if "update_application a serving desired existing s1 = (r2, s2)"
    "us_ResourceVersion existing \<noteq> []" for existing s1 r2 s2
  proof -
    have "s2 = s1 \<or> (\<exists>x. ob_update (ac_apps a) (desired\<lparr>us_ResourceVersion := us_ResourceVersion existing\<rparr>) s1 = (x, s2))"
      using that(1) by (auto simp: update_application_def split: option.splits if_splits prod.splits sum.splits)
    then show ?thesis using update that(2) n by fastforce
  qed
  show ?thesis
  proof (cases "ob_get (ac_apps a) (us_Name desired) s")
    case (Inl err)
    then show ?thesis using assms(1) desired created by (auto simp: Argocd_Apply_def split: api_failure.splits)
  next
    case (Inr existing)
    then show ?thesis using assms(1) desired updated get_read [OF Inr] by (auto simp: Argocd_Apply_def)
  qed
qed

text \<open>The loop over the targets, whose Applications have distinct names.\<close>

lemma apply_loop_stored:
  assumes "apply_loop (argocd_deployer a) env deployed targets states st = (Inr (deployedTo, states'), st')"
    and lib: "unstructured_laws (ac_lib a)"
    and "distinct (map tg_cluster targets)" "inj_on (Application_Key (rs_serving st)) K" "tg_cluster ` set targets \<subseteq> K"
  shows "rs_serving st' = rs_serving st
    \<and> (\<forall>c\<in>K - tg_cluster ` set targets. states' c = states c \<and>
         stored (rs_engine st') (Application_Key (rs_serving st) c) = stored (rs_engine st) (Application_Key (rs_serving st) c))
    \<and> tg_cluster ` set deployedTo \<subseteq> tg_cluster ` set targets
    \<and> (\<forall>t\<in>set deployedTo. tg_holdReason t = [] \<longrightarrow> t \<in> set targets \<and> (\<exists>state. states' (tg_cluster t) = Some state
         \<and> (ts_health state = HealthProgressing \<and> ts_revision state = []
           \<or> (\<exists>app. stored (rs_engine st') (Application_Key (rs_serving st) (tg_cluster t)) = Some app
                \<and> desired_stored a env (rs_serving st) deployed t app \<and> state = stateOf (ac_lib a) app))))"
  using assms(1,3-)
proof (induction targets arbitrary: states st deployedTo)
  case Nil
  then show ?case by simp
next
  case (Cons target targets)
  let ?key = "Application_Key (rs_serving st)"
  show ?case
  proof (cases "tg_holdReason target = []")
    case False
    then obtain ts where ts: "apply_loop (argocd_deployer a) env deployed targets states st = (Inr (ts, states'), st')" "deployedTo = target # ts"
      using Cons.prems(1) by (auto simp: and_then_def split: prod.splits sum.splits)
    show ?thesis using Cons.IH [OF ts(1)] Cons.prems(2-) ts(2) False by auto
  next
    case True
    obtain x s1 where x: "Argocd_Apply a env (rs_serving st) deployed target (rs_engine st) = (x, s1)" by fastforce
    have e: "en_Apply (argocd_deployer a) env (rs_serving st) deployed target (rs_engine st) = (x, s1)"
      using x by (simp add: argocd_deployer_def)
    obtain state where state: "x = Inr state" using Cons.prems(1) True by (auto simp: e split: sum.splits)
    let ?st = "st\<lparr>rs_engine := s1\<rparr>"
    let ?states = "if ts_held state = [] then states(tg_cluster target \<mapsto> state) else states"
    let ?target = "if ts_held state = [] then target else target\<lparr>tg_holdReason := ts_held state, tg_holdMessage := ts_message state\<rparr>"
    obtain ts where ts: "apply_loop (argocd_deployer a) env deployed targets ?states ?st = (Inr (ts, states'), st')" "deployedTo = ?target # ts"
      using Cons.prems(1) True by (auto simp: e state Let_def and_then_def split: prod.splits sum.splits if_splits)
    have rest: "distinct (map tg_cluster targets)" "inj_on (Application_Key (rs_serving ?st)) K" "tg_cluster ` set targets \<subseteq> K"
      and fresh: "tg_cluster target \<in> K - tg_cluster ` set targets"
      using Cons.prems(2-) by auto
    note IH = Cons.IH [OF ts(1) rest]
    have other: "stored s1 (?key c) = stored (rs_engine st) (?key c)" if "c \<in> K - {tg_cluster target}" for c
    proof (rule Apply_other [OF x lib])
      show "?key c \<noteq> ?key (tg_cluster target)" using that fresh Cons.prems(3) by (auto dest: inj_onD)
    qed
    have own: "states' (tg_cluster target) = ?states (tg_cluster target)
        \<and> stored (rs_engine st') (?key (tg_cluster target)) = stored s1 (?key (tg_cluster target))"
      using IH fresh by simp
    have applied: "ts_held state = [] \<Longrightarrow> ts_health state = HealthProgressing \<and> ts_revision state = []
        \<or> (\<exists>app. stored s1 (?key (tg_cluster target)) = Some app
             \<and> desired_stored a env (rs_serving st) deployed target app \<and> state = stateOf (ac_lib a) app)"
      using Apply_stored [OF x [unfolded state] _ lib] by blast
    have "tg_cluster ?target = tg_cluster target" "tg_holdReason ?target = ts_held state" by (auto simp: True)
    then show ?thesis
      using IH own applied other ts(2) by (cases "ts_held state = []") auto
  qed
qed

end

section \<open>Removing\<close>

context applications_current
begin

lemma remove_applications_gone:
  assumes "remove_applications a serving keep removed apps s = ((removed', None), s')"
    and "\<And>x. x \<in> set apps \<Longrightarrow> us_ResourceVersion x \<noteq> []"
  shows "stored s' \<subseteq>\<^sub>m stored s
    \<and> (\<forall>x\<in>set apps. \<not> kept_cluster keep (ClusterOf x) \<longrightarrow>
         OptedIn x (serving_namespace serving) (order_name serving) = None \<longrightarrow> stored s' (us_Name x) = None)
    \<and> (\<forall>n. n \<notin> us_Name ` {x \<in> set apps. \<not> kept_cluster keep (ClusterOf x)} \<longrightarrow> stored s' n = stored s n)"
  using assms
proof (induction apps arbitrary: removed s)
  case Nil
  then show ?case by simp
next
  case (Cons app apps)
  show ?case
  proof (cases "kept_cluster keep (ClusterOf app) \<or> OptedIn app (serving_namespace serving) (order_name serving) \<noteq> None")
    case True
    then have "remove_applications a serving keep removed apps s = ((removed', None), s')"
      using Cons.prems(1) by (auto split: if_splits)
    from Cons.IH [OF this] Cons.prems(2) True show ?thesis by auto
  next
    case False
    obtain err s1 where d: "ob_delete (ac_apps a) app s = (err, s1)" by fastforce
    have rest: "remove_applications a serving keep (removed @ [ClusterOf app]) apps s1 = ((removed', None), s')"
      and ok: "err = None \<or> (\<exists>m. err = Some (ApiNotFound m))"
      using Cons.prems(1) False d by (auto split: option.splits api_failure.splits)
    have v: "us_ResourceVersion app \<noteq> []" using Cons.prems(2) [of app] by simp
    have gone: "stored s1 (us_Name app) = None"
      using ok delete [OF d v] delete_missing [of app s _ s1] d by auto
    have step: "stored s1 \<subseteq>\<^sub>m stored s" "\<And>n. n \<noteq> us_Name app \<Longrightarrow> stored s1 n = stored s n"
      using delete [OF d v] by (auto simp: map_le_def split: if_splits)
    note IH = Cons.IH [OF rest Cons.prems(2)]
    have "stored s' (us_Name app) = None" using IH gone by (metis domIff map_le_def list.set_intros(2))
    moreover have "stored s' \<subseteq>\<^sub>m stored s" using IH step(1) map_le_trans by (metis list.set_intros(2))
    moreover have "stored s' n = stored s n"
      if n: "n \<notin> us_Name ` {x \<in> set (app # apps). \<not> kept_cluster keep (ClusterOf x)}" for n
    proof -
      have "n \<noteq> us_Name app" "n \<notin> us_Name ` {x \<in> set apps. \<not> kept_cluster keep (ClusterOf x)}" using n False by auto
      then show ?thesis using IH step(2) by simp
    qed
    ultimately show ?thesis using IH by simp
  qed
qed

lemma Remove_gone:
  assumes "Argocd_Remove a serving keep s = ((removed, None), s')"
    and "\<And>m. ob_list (ac_apps a) (ServingLabels serving) s \<noteq> Inl (ApiNoMatch m)"
  shows "(\<forall>n x. stored s' n = Some x \<longrightarrow> ServingLabels serving \<subseteq>\<^sub>m us_Labels x \<longrightarrow>
           allowed_order_of x = allowedOrder (serving_namespace serving) (order_name serving) \<longrightarrow> kept_cluster keep (ClusterOf x))
    \<and> (\<forall>n x. stored s n = Some x \<longrightarrow> kept_cluster keep (ClusterOf x) \<longrightarrow> stored s' n = Some x)"
proof -
  obtain apps where apps: "ob_list (ac_apps a) (ServingLabels serving) s = Inr apps"
    using assms by (auto simp: Argocd_Remove_def split: sum.splits api_failure.splits)
  then have r: "remove_applications a serving keep [] apps s = ((removed, None), s')"
    using assms(1) by (simp add: Argocd_Remove_def)
  have gone: "stored s' \<subseteq>\<^sub>m stored s"
    "\<forall>x\<in>set apps. \<not> kept_cluster keep (ClusterOf x) \<longrightarrow> OptedIn x (serving_namespace serving) (order_name serving) = None \<longrightarrow> stored s' (us_Name x) = None"
    "\<forall>n. n \<notin> us_Name ` {x \<in> set apps. \<not> kept_cluster keep (ClusterOf x)} \<longrightarrow> stored s' n = stored s n"
    using remove_applications_gone [OF r] list_read [OF apps] by auto
  note listed = list_fresh [OF apps]
  show ?thesis
  proof (intro conjI allI impI)
    fix n x
    assume x: "stored s' n = Some x" "ServingLabels serving \<subseteq>\<^sub>m us_Labels x"
      "allowed_order_of x = allowedOrder (serving_namespace serving) (order_name serving)"
    then have s: "stored s n = Some x" using gone(1) by (metis domI map_le_def)
    then have "x \<in> set apps" "us_Name x = n" using listed x(2) stored_name by auto
    then show "kept_cluster keep (ClusterOf x)" using gone(2) x by (auto simp: OptedIn_None)
  next
    fix n x
    assume x: "stored s n = Some x" "kept_cluster keep (ClusterOf x)"
    then have "n \<notin> us_Name ` {y \<in> set apps. \<not> kept_cluster keep (ClusterOf y)}"
      using listed stored_name by fastforce
    then show "stored s' n = Some x" using gone(3) x(1) by simp
  qed
qed

end

section \<open>Registering\<close>

definition same_secret :: "secret \<Rightarrow> secret \<Rightarrow> bool" where
  "same_secret x c \<longleftrightarrow> sc_Name c = sc_Name x \<and> sc_Namespace c = sc_Namespace x \<and> sc_Labels c = sc_Labels x
     \<and> sc_Type c = sc_Type x \<and> sc_Data c = sc_Data x"

locale secrets_server =
  object_server api sc_Name sc_ResourceVersion same_secret sc_Labels stored
  for api :: "(secret, 's) object_api" and stored :: "'s \<Rightarrow> string \<rightharpoonup> secret"

abbreviation is_managed :: "secret \<Rightarrow> bool" where
  "is_managed x \<equiv> snd (snd (Managed x))"

abbreviation secret_server :: "secret \<Rightarrow> string" where
  "secret_server x \<equiv> string_at (sc_Data x) ''server''"

text \<open>What may happen on behalf of a Cluster: only Secrets with its labels change, to one named after its server.\<close>

definition registration_step :: "('s \<Rightarrow> string \<rightharpoonup> secret) \<Rightarrow> string \<Rightarrow> string \<Rightarrow> 's \<Rightarrow> 's \<Rightarrow> bool" where
  "registration_step stored ns name s s' \<longleftrightarrow>
     (\<forall>n. stored s' n = stored s n
       \<or> (\<forall>b. stored s n = Some b \<longrightarrow> RegistrationLabels ns name \<subseteq>\<^sub>m sc_Labels b)
         \<and> (\<forall>c. stored s' n = Some c \<longrightarrow> RegistrationLabels ns name \<subseteq>\<^sub>m sc_Labels c \<and> n = ClusterSecretName (secret_server c)))"

lemma registration_step_same [simp]: "stored s' = stored s \<Longrightarrow> registration_step stored ns name s s'"
  by (simp add: registration_step_def)

lemma registration_step_trans:
  assumes "registration_step stored ns name s s'" "registration_step stored ns name s' s''"
  shows "registration_step stored ns name s s''"
  unfolding registration_step_def
proof
  fix n
  show "stored s'' n = stored s n
      \<or> (\<forall>b. stored s n = Some b \<longrightarrow> RegistrationLabels ns name \<subseteq>\<^sub>m sc_Labels b)
        \<and> (\<forall>c. stored s'' n = Some c \<longrightarrow> RegistrationLabels ns name \<subseteq>\<^sub>m sc_Labels c \<and> n = ClusterSecretName (secret_server c))"
    using assms [unfolded registration_step_def, THEN spec, of n] by auto
qed

lemma string_at_Some: "string_at m k = v \<Longrightarrow> v \<noteq> [] \<Longrightarrow> m k = Some v"
  by (auto simp: string_at_def split: option.splits)

lemma Managed_labels: "Managed x = (ns, name, True) \<Longrightarrow> RegistrationLabels ns name \<subseteq>\<^sub>m sc_Labels x"
proof -
  assume "Managed x = (ns, name, True)"
  then have "sc_Labels x LabelClusterNamespace = Some ns" "sc_Labels x LabelCluster = Some name" "sc_Labels x labelManagedBy = Some managedBy"
    by (auto simp: Managed_def Let_def managedBy_def intro: string_at_Some)
  then show ?thesis by (auto simp: RegistrationLabels_def map_le_def)
qed

lemma ClusterSecret_simps [simp]:
  "sc_Name (ClusterSecret ns name k) = ClusterSecretName (ep_Server (kc_Endpoint k))"
  "secret_server (ClusterSecret ns name k) = ep_Server (kc_Endpoint k)"
  by (simp_all add: ClusterSecret_def string_at_def)

lemma ClusterSecret_labels: "RegistrationLabels ns name \<subseteq>\<^sub>m sc_Labels (ClusterSecret ns name k)"
  by (auto simp: ClusterSecret_def RegistrationLabels_def map_le_def labelManagedBy_def LabelCluster_def LabelClusterNamespace_def LabelSecretType_def)

context secrets_server
begin

lemma unregister_secrets_step:
  assumes "unregister_secrets api keep deleted xs s = (r, s')"
    and "\<And>x c. x \<in> set xs \<Longrightarrow> RegistrationLabels ns name \<subseteq>\<^sub>m sc_Labels x \<and> sc_ResourceVersion x \<noteq> [] \<and>
      (stored s (sc_Name x) = Some c \<longrightarrow> sc_ResourceVersion c = sc_ResourceVersion x \<longrightarrow> c = x)"
  shows "registration_step stored ns name s s'"
  using assms
proof (induction xs arbitrary: deleted s)
  case Nil
  then show ?case by simp
next
  case (Cons x xs)
  show ?case
  proof (cases "sc_Name x = keep")
    case True
    then show ?thesis using Cons.IH [of deleted s] Cons.prems by simp
  next
    case False
    obtain err s1 where d: "ob_delete api x s = (err, s1)" by fastforce
    have x: "RegistrationLabels ns name \<subseteq>\<^sub>m sc_Labels x" "sc_ResourceVersion x \<noteq> []"
      "\<And>c. stored s (sc_Name x) = Some c \<Longrightarrow> sc_ResourceVersion c = sc_ResourceVersion x \<Longrightarrow> c = x"
      using Cons.prems(2) [of x] by auto
    have step: "registration_step stored ns name s s1"
      using delete [OF d x(2)] x(1,3) by (auto simp: registration_step_def split: if_splits)
    have le: "stored s1 \<subseteq>\<^sub>m stored s"
      using delete [OF d x(2)] by (auto simp: map_le_def split: if_splits)
    have later: "RegistrationLabels ns name \<subseteq>\<^sub>m sc_Labels y \<and> sc_ResourceVersion y \<noteq> [] \<and>
        (stored s1 (sc_Name y) = Some c \<longrightarrow> sc_ResourceVersion c = sc_ResourceVersion y \<longrightarrow> c = y)" if "y \<in> set xs" for y c
      using that Cons.prems(2) [of y c] le by (auto simp: map_le_def dom_def)
    have "s' = s1 \<or> unregister_secrets api keep (deleted @ [sc_Name x]) xs s1 = (r, s')"
      using Cons.prems(1) False d by (auto split: option.splits api_failure.splits)
    moreover have "registration_step stored ns name s1 s'"
      if "unregister_secrets api keep (deleted @ [sc_Name x]) xs s1 = (r, s')"
      using Cons.IH [OF that] later by blast
    ultimately show ?thesis using step by (auto intro: registration_step_trans)
  qed
qed

lemma unregister_step:
  assumes "unregister api ns name keep s = (r, s')"
  shows "registration_step stored ns name s s'"
proof (cases "ob_list api (RegistrationLabels ns name) s")
  case (Inl err)
  then show ?thesis using assms by (simp add: unregister_def)
next
  case (Inr xs)
  obtain y where y: "unregister_secrets api keep [] xs s = (y, s')"
    using assms Inr by (auto simp: unregister_def split: prod.splits sum.splits)
  show ?thesis by (rule unregister_secrets_step [OF y]) (use list_read [OF Inr] in auto)
qed

abbreviation cluster_ns :: "Cluster \<Rightarrow> string" where
  "cluster_ns c \<equiv> om_Namespace (Cluster_ObjectMeta c)"

lemma conflict_step:
  assumes "registration_conflict api c msg s = (r, s')"
  shows "registration_step stored (cluster_ns c) (cluster_name c) s s'"
proof -
  obtain y where "unregister api (cluster_ns c) (cluster_name c) [] s = (y, s')"
    using assms by (auto simp: registration_conflict_def Unregister_def split: prod.splits sum.splits)
  then show ?thesis by (rule unregister_step)
qed

lemma create_registration_step:
  assumes "create_registration api c (ClusterSecret (cluster_ns c) (cluster_name c) k) s = (r, s')"
  shows "registration_step stored (cluster_ns c) (cluster_name c) s s'"
proof -
  let ?desired = "ClusterSecret (cluster_ns c) (cluster_name c) k"
  obtain x s1 where u: "unregister api (cluster_ns c) (cluster_name c) (sc_Name ?desired) s = (x, s1)" by fastforce
  note first = unregister_step [OF u]
  show ?thesis
  proof (cases x)
    case (Inl err)
    then show ?thesis using assms u first by (simp add: create_registration_def)
  next
    case (Inr event)
    obtain y where c: "ob_create api ?desired s1 = (y, s')"
      using assms u Inr by (auto simp: create_registration_def split: prod.splits sum.splits api_failure.splits)
    have "registration_step stored (cluster_ns c) (cluster_name c) s1 s'"
      using create [OF c] ClusterSecret_labels [of "cluster_ns c" "cluster_name c" k] ClusterSecret_simps(2) [of "cluster_ns c" "cluster_name c" k]
      by (auto simp: registration_step_def same_secret_def split: if_splits)
    then show ?thesis by (rule registration_step_trans [OF first])
  qed
qed

lemma keep_registration_step:
  assumes "keep_registration api c server existing (ClusterSecret (cluster_ns c) (cluster_name c) k) s = (r, s')"
    and e: "sc_ResourceVersion existing \<noteq> []" "sc_Name existing = ClusterSecretName (ep_Server (kc_Endpoint k))"
      "\<And>x. stored s (sc_Name existing) = Some x \<Longrightarrow> sc_ResourceVersion x = sc_ResourceVersion existing \<Longrightarrow> x = existing"
  shows "registration_step stored (cluster_ns c) (cluster_name c) s s'"
proof (cases "Managed existing = (cluster_ns c, cluster_name c, True)")
  case False
  then obtain msg where "registration_conflict api c msg s = (r, s')"
    using assms(1) by (auto simp: keep_registration_def split: prod.splits if_splits)
  then show ?thesis by (rule conflict_step)
next
  case True
  let ?desired = "ClusterSecret (cluster_ns c) (cluster_name c) k"
  let ?updated = "existing\<lparr>sc_Labels := sc_Labels ?desired, sc_Data := sc_Data ?desired, sc_Type := sc_Type ?desired\<rparr>"
  have "s' = s \<or> (\<exists>y. ob_update api ?updated s = (y, s'))"
    using assms(1) True by (auto simp: keep_registration_def updateClusterSecret_def split: prod.splits sum.splits if_splits)
  then show ?thesis
  proof (elim disjE exE)
    fix y assume u: "ob_update api ?updated s = (y, s')"
    show ?thesis
      using update [OF u] e ClusterSecret_labels [of "cluster_ns c" "cluster_name c" k] Managed_labels [OF True]
        ClusterSecret_simps(2) [of "cluster_ns c" "cluster_name c" k]
      by (auto simp: registration_step_def same_secret_def split: if_splits)
  qed simp
qed

lemma Register_step:
  assumes "Register api c kubeconfig s = (r, s')"
  shows "registration_step stored (cluster_ns c) (cluster_name c) s s'"
proof (cases kubeconfig)
  case None
  then show ?thesis using assms by (simp add: Register_def)
next
  case (Some k)
  let ?desired = "ClusterSecret (cluster_ns c) (cluster_name c) k"
  consider (conflict) msg where "registration_conflict api c msg s = (r, s')" | (same) "s' = s"
    | (listed) xs where "ob_list api [LabelSecretType \<mapsto> SecretTypeCluster] s = Inr xs"
      "(case find (\<lambda>x. sc_Name x = sc_Name ?desired) xs of
          Some existing \<Rightarrow> keep_registration api c (ep_Server (kc_Endpoint k)) existing ?desired s
        | None \<Rightarrow> create_registration api c ?desired s) = (r, s')"
    using assms Some by (auto simp: Register_def Let_def split: if_splits sum.splits)
  then show ?thesis
  proof cases
    case conflict
    then show ?thesis by (rule conflict_step)
  next
    case same
    then show ?thesis by simp
  next
    case listed
    show ?thesis
    proof (cases "find (\<lambda>x. sc_Name x = sc_Name ?desired) xs")
      case None
      then show ?thesis using listed(2) create_registration_step by simp
    next
      case (Some existing)
      then have "existing \<in> set xs" "sc_Name existing = ClusterSecretName (ep_Server (kc_Endpoint k))"
        by (auto dest: find_SomeD)
      moreover have "keep_registration api c (ep_Server (kc_Endpoint k)) existing ?desired s = (r, s')"
        using listed(2) Some by simp
      ultimately show ?thesis using keep_registration_step list_read [OF listed(1)] by blast
    qed
  qed
qed

lemma Unregister_step: "Unregister api c s = (r, s') \<Longrightarrow> registration_step stored (cluster_ns c) (cluster_name c) s s'"
  unfolding Unregister_def by (rule unregister_step)

end

text \<open>The registrations Kokumi manages are named after their servers, so a server has at most one.\<close>

definition named_after_servers :: "(string \<rightharpoonup> secret) \<Rightarrow> bool" where
  "named_after_servers secrets \<longleftrightarrow> (\<forall>n x. secrets n = Some x \<longrightarrow> is_managed x \<longrightarrow> n = ClusterSecretName (secret_server x))"

lemma registration_step_named:
  "registration_step stored ns name s s' \<Longrightarrow> named_after_servers (stored s) \<Longrightarrow> named_after_servers (stored s')"
  unfolding registration_step_def named_after_servers_def by metis

lemma one_registration:
  assumes "named_after_servers secrets" "secrets m = Some x" "secrets n = Some y" "is_managed x" "is_managed y"
    and "SameServer (secret_server x) (secret_server y)"
  shows "m = n"
proof -
  have "m = ClusterSecretName (secret_server x)" "n = ClusterSecretName (secret_server y)"
    using assms(1-5) by (simp_all add: named_after_servers_def)
  then show ?thesis using assms(6) by (simp add: SameServer_def ClusterSecretName_def)
qed

end
