(* ===== verification/Argocd_Properties.thy ===== *)
theory Argocd_Properties
  imports Argocd_Deploy Serving_Sample Serving_Refinement
begin

text \<open>
  The properties of deploying through Argo CD, with the stores that compute as the Kubernetes API of the
  witnesses.
\<close>

section \<open>An API that computes\<close>

interpretation application_store: versioned us_Name us_ResourceVersion "\<lambda>v x. x\<lparr>us_ResourceVersion := v\<rparr>" same_application us_Labels
  by unfold_locales (simp_all add: same_application_def)

interpretation secret_store: versioned sc_Name sc_ResourceVersion "\<lambda>v x. x\<lparr>sc_ResourceVersion := v\<rparr>" same_secret sc_Labels
  by unfold_locales (simp_all add: same_secret_def)

definition applications_api :: "(unstructured, unstructured object_store) object_api" where
  "applications_api = store_api us_Name us_ResourceVersion (\<lambda>v x. x\<lparr>us_ResourceVersion := v\<rparr>) us_Labels"

definition secrets_api :: "(secret, secret object_store) object_api" where
  "secrets_api = store_api sc_Name sc_ResourceVersion (\<lambda>v x. x\<lparr>sc_ResourceVersion := v\<rparr>) sc_Labels"

abbreviation stored_applications :: "unstructured object_store \<Rightarrow> string \<rightharpoonup> unstructured" where
  "stored_applications \<equiv> store_get us_Name us_ResourceVersion"

abbreviation stored_secrets :: "secret object_store \<Rightarrow> string \<rightharpoonup> secret" where
  "stored_secrets \<equiv> store_get sc_Name sc_ResourceVersion"

definition sample_argocd :: "unstructured object_store argoCD" where
  "sample_argocd = \<lparr>ac_lib = plain_unstructured,
     ac_parse = (\<lambda>_. Inr \<lparr>ref_Registry = ''r'', ref_Repository = ''p'', ref_Tag = [], ref_Digest = ''sha256:ab''\<rparr>),
     ac_apps = applications_api, ac_project = (\<lambda>_ _. Inl (ApiNotFound ''not found'')), ac_namespace = ''kokumi''\<rparr>"

interpretation sample_applications: applications_current sample_argocd stored_applications
  unfolding applications_current_def sample_argocd_def applications_api_def
  by (simp add: application_store.store.fresh_server_axioms)

interpretation sample_secrets: secrets_server secrets_api stored_secrets
  unfolding secrets_server_def secrets_api_def by (rule secret_store.store.object_server_axioms)

lemma sample_argocd_lib: "unstructured_laws (ac_lib sample_argocd)"
  by (simp add: sample_argocd_def plain_fields.unstructured_fields_axioms)

text \<open>The world of \<open>Serving_Sample\<close>, deploying through Argo CD.\<close>

definition argocd_services :: "(string, unit, unit, unit, verified_key list, record_key list, unstructured object_store) services" where
  "argocd_services = \<lparr>sv_conditions = list_library, sv_as_selector = sv_as_selector sample_services,
     sv_signing = sv_signing sample_services, sv_connect_recorded = sv_connect_recorded sample_services,
     sv_scope = sv_scope sample_services, sv_scope_connect = sv_scope_connect sample_services, sv_writer = sv_writer sample_services,
     sv_evidence = sample_evidence, sv_records = sample_records, sv_record_decode_error = [],
     sv_read_report = sv_read_report sample_services, sv_deployers = [], sv_argocd = argocd_deployer sample_argocd,
     sv_InstallNamespace = ''kokumi'', sv_BundledRegistryHost = [], sv_records_events = True, sv_clock = sv_clock sample_services\<rparr>"

definition argocd_state :: "unstructured object_store \<Rightarrow> (verified_key list, record_key list, unstructured object_store) reconcile" where
  "argocd_state engine = \<lparr>rs_serving = serving_with ''o'' [], rs_evidence = [], rs_records = [], rs_engine = engine, rs_ticks = 0, rs_events = []\<rparr>"

text \<open>Somebody's own Application, under the very name the Order's would have.\<close>

definition foreign_application :: unstructured where
  "foreign_application = \<lparr>us_Name = ''app'', us_Namespace = ''argocd'', us_UID = ''u'', us_ResourceVersion = ''v0'',
     us_Labels = ServingLabels (serving_with ''o'' []), us_Annotations = Map.empty, us_Object = Map.empty\<rparr>"

definition foreign_store :: "unstructured object_store" where
  "foreign_store = \<lparr>os_objects = [(''app'', foreign_application)], os_version = 1\<rparr>"

section \<open>Properties\<close>

definition written_writes :: api_writes where
  "written_writes = \<lparr>update_Serving = \<lambda>_. Written, patch_Serving = \<lambda>_ _. Written\<rparr>"

text \<open>C17: However stale the reads of the engine are, and whatever fails, a reconcile of a Serving neither
  changes nor deletes an Application that is not opted in for the Order of that Serving.\<close>

theorem engine_respects_opt_in:
  assumes "applications_server a stored" "engines_of v = {argocd_deployer a}"
    and "get_Serving r namespace name = Inr serving"
    and "Reconcile v r w namespace name st = (result, status, st')"
    and "stored (rs_engine st) n = Some app"
    and "allowed_order_of app \<noteq> allowedOrder (serving_namespace serving) (order_name serving)"
  shows "stored (rs_engine st') n = Some app"
proof -
  have engines: "deployment_engines {argocd_deployer a} (foreign_kept stored)"
    using applications_server.argocd_engines [OF assms(1)] .
  have "foreign_kept stored (serving_namespace serving) (order_name serving) (rs_engine st) (rs_engine st')"
    using deployment_engines.Reconcile_allowed [OF engines _ assms(3,4)] assms(2) by simp
  then show ?thesis using assms(5,6) by (simp add: foreign_kept_def)
qed

theorem engine_respects_opt_in_witness:
  "stored_applications (rs_engine (snd (snd (Reconcile argocd_services (sample_reads [staged_entry]) written_writes ''ns'' ''o'' (argocd_state foreign_store))))) ''app''
     = Some foreign_application"
proof -
  obtain result status st' where r: "Reconcile argocd_services (sample_reads [staged_entry]) written_writes ''ns'' ''o'' (argocd_state foreign_store)
      = (result, status, st')" by (metis surj_pair)
  have "stored_applications (rs_engine st') ''app'' = Some foreign_application"
  proof (rule engine_respects_opt_in [OF sample_applications.is_applications_server _ _ r])
    show "engines_of argocd_services = {argocd_deployer sample_argocd}" by (simp add: engines_of_def argocd_services_def)
    show "get_Serving (sample_reads [staged_entry]) ''ns'' ''o'' = Inr (serving_with ''o'' [staged_entry])" by (simp add: sample_reads_def)
    show "stored_applications (rs_engine (argocd_state foreign_store)) ''app'' = Some foreign_application"
      by (simp add: argocd_state_def foreign_store_def store_get_def foreign_application_def)
    show "allowed_order_of foreign_application \<noteq> allowedOrder (serving_namespace (serving_with ''o'' [staged_entry])) (order_name (serving_with ''o'' [staged_entry]))"
      by (simp add: allowed_order_of_def foreign_application_def string_at_def allowedOrder_def)
  qed
  then show ?thesis by (simp add: r)
qed

lemma desired_stored_spec:
  assumes "unstructured_laws (ac_lib a)" "desired_stored a env serving deployed t app"
  shows "ClusterOf app = tg_cluster t"
    and "\<exists>ref. ac_parse a (e_OCIRef deployed) = Inr ref
      \<and> nested_map (ac_lib a) (us_Object app) [''spec''] = Some (application_spec ref
          \<lparr>at_Cluster = tg_cluster t, at_Server = tg_server t, at_Namespace = tg_namespace t, at_Project = environment_project env\<rparr>)"
proof -
  obtain desired where desired: "desired_application a env serving deployed t = Inr desired" "us_Labels app = us_Labels desired"
    "nested_map (ac_lib a) (us_Object app) [''spec''] = nested_map (ac_lib a) (us_Object desired) [''spec'']"
    using assms(2) by (auto simp: desired_stored_def)
  note built = Application_built [OF desired(1) [unfolded desired_application_def] assms(1)]
  show "ClusterOf app = tg_cluster t" using built(3) desired(2) by (simp add: ClusterOf_def)
  show "\<exists>ref. ac_parse a (e_OCIRef deployed) = Inr ref
      \<and> nested_map (ac_lib a) (us_Object app) [''spec''] = Some (application_spec ref
          \<lparr>at_Cluster = tg_cluster t, at_Server = tg_server t, at_Namespace = tg_namespace t, at_Project = environment_project env\<rparr>)"
    using built(5) desired(3) by simp
qed

text \<open>C18: After the targets of a Serving were applied, every target that is not held and reports a revision has an
  Application that points at the digest of the deployed entry, on the target's cluster and namespace, and the
  state is what Argo CD reports on it; and no Application opted in for the Order is left on another cluster.\<close>

theorem applied_targets_deploy:
  assumes "applications_current a stored" "unstructured_laws (ac_lib a)"
    and "deployer_of v env = argocd_deployer a" "all_deployers v = [argocd_deployer a]"
    and "\<And>s m. ob_list (ac_apps a) (ServingLabels (rs_serving st)) s \<noteq> Inl (ApiNoMatch m)"
    and "distinct (map tg_cluster targets)" "inj_on (Application_Key (rs_serving st)) (tg_cluster ` set targets)"
    and "applyTargets v env deployed targets st = (Inr (deployedTo, states), st')"
  shows "(\<forall>t\<in>set deployedTo. tg_holdReason t = [] \<longrightarrow>
      t \<in> set targets \<and> (\<exists>state. states (tg_cluster t) = Some state \<and> (ts_revision state \<noteq> [] \<longrightarrow>
        (\<exists>ref app. ac_parse a (e_OCIRef deployed) = Inr ref
           \<and> stored (rs_engine st') (Application_Key (rs_serving st) (tg_cluster t)) = Some app
           \<and> nested_map (ac_lib a) (us_Object app) [''spec''] = Some (application_spec ref
               \<lparr>at_Cluster = tg_cluster t, at_Server = tg_server t, at_Namespace = tg_namespace t, at_Project = environment_project env\<rparr>)
           \<and> state = stateOf (ac_lib a) app))))
    \<and> (\<forall>n app. stored (rs_engine st') n = Some app \<longrightarrow> ServingLabels (rs_serving st) \<subseteq>\<^sub>m us_Labels app \<longrightarrow>
        allowed_order_of app = allowedOrder (serving_namespace (rs_serving st)) (order_name (rs_serving st)) \<longrightarrow>
        ClusterOf app \<in> tg_cluster ` set targets)"
proof -
  let ?s = "rs_serving st" and ?keep = "Some (map tg_cluster targets)"
  obtain st1 where loop: "apply_loop (argocd_deployer a) env deployed targets Map.empty st = (Inr (deployedTo, states), st1)"
    and rest: "remove_all v [argocd_deployer a] ?keep st1 = (Inr (), st')"
    using assms(8) by (auto simp: applyTargets_def and_then_def remove_deployments_def assms(3,4) split: prod.splits sum.splits)
  note applied = applications_current.apply_loop_stored [OF assms(1) loop assms(2,6,7) order_refl]
  have same: "rs_serving st1 = ?s" using applied by blast
  obtain removed err s2 where r: "Argocd_Remove a ?s ?keep (rs_engine st1) = ((removed, err), s2)" by (metis surj_pair)
  then have "err = None" "rs_engine st' = s2"
    using rest same by (auto simp: argocd_deployer_def Let_def split: option.splits)
  then have removed: "Argocd_Remove a ?s ?keep (rs_engine st1) = ((removed, None), rs_engine st')" using r by simp
  note gone = applications_current.Remove_gone [OF assms(1) removed assms(5)]
  let ?deployed = "\<lambda>t state. \<exists>ref app. ac_parse a (e_OCIRef deployed) = Inr ref
           \<and> stored (rs_engine st') (Application_Key ?s (tg_cluster t)) = Some app
           \<and> nested_map (ac_lib a) (us_Object app) [''spec''] = Some (application_spec ref
               \<lparr>at_Cluster = tg_cluster t, at_Server = tg_server t, at_Namespace = tg_namespace t, at_Project = environment_project env\<rparr>)
           \<and> state = stateOf (ac_lib a) app"
  show ?thesis
  proof (intro conjI ballI impI allI)
    fix t assume t: "t \<in> set deployedTo" "tg_holdReason t = []"
    then obtain state where state: "t \<in> set targets" "states (tg_cluster t) = Some state"
      and at: "ts_health state = HealthProgressing \<and> ts_revision state = []
        \<or> (\<exists>app. stored (rs_engine st1) (Application_Key ?s (tg_cluster t)) = Some app
             \<and> desired_stored a env ?s deployed t app \<and> state = stateOf (ac_lib a) app)"
      using applied by blast
    show "t \<in> set targets" by (rule state(1))
    have "?deployed t state" if "ts_revision state \<noteq> []"
    proof -
      obtain app where app: "stored (rs_engine st1) (Application_Key ?s (tg_cluster t)) = Some app" "state = stateOf (ac_lib a) app"
        and "desired_stored a env ?s deployed t app" using at \<open>ts_revision state \<noteq> []\<close> by blast
      note spec = desired_stored_spec [OF assms(2) this(3)]
      then have "kept_cluster ?keep (ClusterOf app)" using state(1) by (simp add: kept_cluster_def)
      then show ?thesis using gone app spec(2) by blast
    qed
    then show "\<exists>state. states (tg_cluster t) = Some state \<and> (ts_revision state \<noteq> [] \<longrightarrow> ?deployed t state)"
      using state(2) by blast
  next
    fix n app
    assume "stored (rs_engine st') n = Some app" "ServingLabels ?s \<subseteq>\<^sub>m us_Labels app"
      "allowed_order_of app = allowedOrder (serving_namespace ?s) (order_name ?s)"
    then have "kept_cluster ?keep (ClusterOf app)" using gone by blast
    then show "ClusterOf app \<in> tg_cluster ` set targets" by (simp add: kept_cluster_def)
  qed
qed

text \<open>An Application that was synced to the digest, deployed again.\<close>

definition synced_target :: deployTarget where
  "synced_target = \<lparr>tg_cluster = ''c'', tg_server = ''https://c'', tg_namespace = ''app'', tg_holdReason = [], tg_holdMessage = []\<rparr>"

definition synced_status :: field where
  "synced_status = FMap [
     ''sync'' \<mapsto> FMap [''status'' \<mapsto> FStr ''Synced'', ''revision'' \<mapsto> FStr ''sha256:ab'',
        ''comparedTo'' \<mapsto> FMap [''source'' \<mapsto> FMap [''repoURL'' \<mapsto> FStr ''oci://r/p'', ''targetRevision'' \<mapsto> FStr ''sha256:ab'', ''path'' \<mapsto> FStr ''.'']]],
     ''health'' \<mapsto> FMap [''status'' \<mapsto> FStr ''Healthy''], ''history'' \<mapsto> FSlice []]"

definition synced_serving :: Serving where
  "synced_serving = serving_with ''o'' []"

definition synced_application :: unstructured where
  "synced_application =
     (case desired_application sample_argocd sample_environment synced_serving staged_entry synced_target of
        Inr app \<Rightarrow> app\<lparr>us_ResourceVersion := ''v0'', us_Object := (us_Object app)(''status'' \<mapsto> synced_status)\<rparr>
      | Inl _ \<Rightarrow> foreign_application)"

definition synced_store :: "unstructured object_store" where
  "synced_store = \<lparr>os_objects = [(Application_Key synced_serving ''c'', synced_application)], os_version = 1\<rparr>"

lemma synced_desired:
  obtains app where "desired_application sample_argocd sample_environment synced_serving staged_entry synced_target = Inr app"
    "synced_application = app\<lparr>us_ResourceVersion := ''v0'', us_Object := (us_Object app)(''status'' \<mapsto> synced_status)\<rparr>"
    "us_Name app = Application_Key synced_serving ''c''" "us_Name synced_application = Application_Key synced_serving ''c''"
proof -
  obtain app where app: "desired_application sample_argocd sample_environment synced_serving staged_entry synced_target = Inr app"
    by (simp add: desired_application_def Application_def Let_def sample_argocd_def)
  moreover have "us_Name app = Application_Key synced_serving ''c''"
    using Application_built(1) [OF app [unfolded desired_application_def] sample_argocd_lib] by (simp add: synced_target_def)
  ultimately show thesis using that by (simp add: synced_application_def)
qed

lemma synced_stored: "stored_applications synced_store (Application_Key synced_serving ''c'') = Some synced_application"
proof (rule synced_desired)
  fix app
  assume app: "synced_application = app\<lparr>us_ResourceVersion := ''v0'', us_Object := (us_Object app)(''status'' \<mapsto> synced_status)\<rparr>"
    "us_Name synced_application = Application_Key synced_serving ''c''"
  have "us_ResourceVersion synced_application = ''v0''" by (simp add: app(1))
  then show ?thesis by (simp add: synced_store_def store_get_def app(2))
qed

lemma synced_apply:
  "Argocd_Apply sample_argocd sample_environment synced_serving staged_entry synced_target synced_store =
     (Inr (stateOf plain_unstructured synced_application), synced_store)"
proof (rule synced_desired)
  fix app
  assume app: "desired_application sample_argocd sample_environment synced_serving staged_entry synced_target = Inr app"
    "synced_application = app\<lparr>us_ResourceVersion := ''v0'', us_Object := (us_Object app)(''status'' \<mapsto> synced_status)\<rparr>"
    "us_Name app = Application_Key synced_serving ''c''"
  note built = Application_built [OF app(1) [unfolded desired_application_def] sample_argocd_lib]
  have lib: "ac_lib sample_argocd = plain_unstructured" by (simp add: sample_argocd_def)
  have "ob_get (ac_apps sample_argocd) (us_Name app) synced_store = Inr synced_application"
    using synced_stored by (simp add: sample_argocd_def applications_api_def store_api_def app(3))
  moreover have "OptedIn synced_application (serving_namespace synced_serving) (order_name synced_serving) = None"
    using built(2) unfolding OptedIn_None app(2) by (simp add: allowed_order_of_def)
  moreover have "Application_Matches plain_unstructured synced_application app"
    using built(5) unfolding app(2) lib
    by (auto simp: Application_Matches_def readers_found [OF plain_fields.unstructured_fields_axioms] found_Cons map_of_field_def
        split: option.splits field.splits)
  ultimately show ?thesis
    by (simp add: Argocd_Apply_def app(1) update_application_def lib)
qed

lemma synced_remove:
  "Argocd_Remove sample_argocd synced_serving (Some [''c'']) synced_store = (([], None), synced_store)"
proof (rule synced_desired)
  fix app
  assume app: "desired_application sample_argocd sample_environment synced_serving staged_entry synced_target = Inr app"
    "synced_application = app\<lparr>us_ResourceVersion := ''v0'', us_Object := (us_Object app)(''status'' \<mapsto> synced_status)\<rparr>"
  have "ClusterOf synced_application = ''c''"
    using Application_built(3) [OF app(1) [unfolded desired_application_def] sample_argocd_lib]
    by (simp add: app(2) ClusterOf_def synced_target_def)
  then show ?thesis
    by (simp add: Argocd_Remove_def sample_argocd_def applications_api_def store_api_def synced_store_def kept_cluster_def)
qed

lemma synced_state:
  "stateOf plain_unstructured synced_application =
     \<lparr>ts_health = HealthHealthy, ts_revision = ''sha256:ab'', ts_message = [], ts_held = []\<rparr>"
proof (rule synced_desired)
  fix app
  assume app: "desired_application sample_argocd sample_environment synced_serving staged_entry synced_target = Inr app"
    "synced_application = app\<lparr>us_ResourceVersion := ''v0'', us_Object := (us_Object app)(''status'' \<mapsto> synced_status)\<rparr>"
  have "us_Object app = [''spec'' \<mapsto> FMap (application_spec \<lparr>ref_Registry = ''r'', ref_Repository = ''p'', ref_Tag = [], ref_Digest = ''sha256:ab''\<rparr>
      \<lparr>at_Cluster = ''c'', at_Server = ''https://c'', at_Namespace = ''app'', at_Project = environment_project sample_environment\<rparr>)]"
    using app(1) by (auto simp: desired_application_def Application_def Let_def sample_argocd_def synced_target_def)
  then have "us_Object synced_application = [''spec'' \<mapsto> FMap (application_spec \<lparr>ref_Registry = ''r'', ref_Repository = ''p'', ref_Tag = [], ref_Digest = ''sha256:ab''\<rparr>
      \<lparr>at_Cluster = ''c'', at_Server = ''https://c'', at_Namespace = ''app'', at_Project = environment_project sample_environment\<rparr>), ''status'' \<mapsto> synced_status]"
    by (simp add: app(2))
  then show ?thesis
    by (simp add: stateOf_def StateOf_def object_state_def invalidSpec_def comparedCurrentSource_def syncFinished_def Let_def
        readers_found [OF plain_fields.unstructured_fields_axioms] found_Cons synced_status_def string_of_def any_at_def map_of_field_def
        application_spec_def OCIRepositoryReference_def RepositoryReference_def)
qed

lemma synced_applied:
  "applyTargets argocd_services sample_environment staged_entry [synced_target] (argocd_state synced_store) =
     (Inr ([synced_target], [''c'' \<mapsto> stateOf plain_unstructured synced_application]), argocd_state synced_store)"
proof -
  have e: "en_Apply (argocd_deployer sample_argocd) sample_environment synced_serving staged_entry synced_target synced_store =
      (Inr (stateOf plain_unstructured synced_application), synced_store)"
    and d: "en_Remove (argocd_deployer sample_argocd) synced_serving (Some [''c'']) synced_store = (([], None), synced_store)"
    using synced_apply synced_remove by (simp_all add: argocd_deployer_def)
  have t: "tg_holdReason synced_target = []" "tg_cluster synced_target = ''c''" by (simp_all add: synced_target_def)
  have st: "rs_serving (argocd_state synced_store) = synced_serving" "rs_engine (argocd_state synced_store) = synced_store"
    by (simp_all add: argocd_state_def synced_serving_def)
  have v: "deployer_of argocd_services sample_environment = argocd_deployer sample_argocd" "all_deployers argocd_services = [argocd_deployer sample_argocd]"
    by (simp_all add: deployer_of_def all_deployers_def argocd_services_def)
  have same: "(argocd_state synced_store)\<lparr>rs_engine := synced_store\<rparr> = argocd_state synced_store" 
    "(argocd_state synced_store)\<lparr>rs_engine := synced_store, rs_events := rs_events (argocd_state synced_store)\<rparr> = argocd_state synced_store"
    by (simp_all add: argocd_state_def)
  have loop: "apply_loop (argocd_deployer sample_argocd) sample_environment staged_entry [synced_target] Map.empty (argocd_state synced_store) =
      (Inr ([synced_target], [''c'' \<mapsto> stateOf plain_unstructured synced_application]), argocd_state synced_store)"
    using e by (simp add: t st and_then_def same synced_state)
  show ?thesis
    unfolding applyTargets_def v and_then_def loop prod.case sum.case remove_deployments_def
    using d by (simp add: st t same)
qed

theorem applied_targets_deploy_witness:
  "\<exists>app. stored_applications synced_store (Application_Key synced_serving ''c'') = Some app
     \<and> stateOf plain_unstructured app = \<lparr>ts_health = HealthHealthy, ts_revision = ''sha256:ab'', ts_message = [], ts_held = []\<rparr>
     \<and> (\<exists>ref target. nested_map plain_unstructured (us_Object app) [''spec''] = Some (application_spec ref target))"
proof -
  have lib: "ac_lib sample_argocd = plain_unstructured" by (simp add: sample_argocd_def)
  have st: "rs_serving (argocd_state synced_store) = synced_serving" "rs_engine (argocd_state synced_store) = synced_store"
    by (simp_all add: argocd_state_def synced_serving_def)
  have v: "deployer_of argocd_services sample_environment = argocd_deployer sample_argocd" "all_deployers argocd_services = [argocd_deployer sample_argocd]"
    by (simp_all add: deployer_of_def all_deployers_def argocd_services_def)
  have t: "tg_cluster synced_target = ''c''" "tg_holdReason synced_target = []" by (simp_all add: synced_target_def)
  have listed: "ob_list (ac_apps sample_argocd) (ServingLabels (rs_serving (argocd_state synced_store))) s \<noteq> Inl (ApiNoMatch m)" for s m
    by (simp add: sample_argocd_def applications_api_def store_api_def)
  have "distinct (map tg_cluster [synced_target])" "inj_on (Application_Key (rs_serving (argocd_state synced_store))) (tg_cluster ` set [synced_target])"
    by simp_all
  note applied = applied_targets_deploy [OF sample_applications.applications_current_axioms sample_argocd_lib v listed this synced_applied]
  show ?thesis
    using applied [THEN conjunct1, THEN bspec, of synced_target] unfolding st lib t
    by (auto simp: synced_stored synced_state)
qed

text \<open>C7: A deleted Serving keeps its finalizer until its deployments are gone: when a request takes the finalizer off, no
  Application with the labels of the Serving that is opted in for its Order is stored any more, in the very state
  of the cluster that the request leaves.\<close>

theorem finalizer_removed_last:
  assumes "applications_current a stored" "all_deployers v = [argocd_deployer a]"
    and "get_Serving r namespace name = Inr serving" "om_DeletionTimestamp (Serving_ObjectMeta serving) \<noteq> None"
    and "Finalizer \<in> set (finalizers serving)"
    and "Reconcile v r w namespace name st = (result, status, st')" "Finalizer \<notin> set (finalizers (rs_serving st'))"
    and "\<And>m. ob_list (ac_apps a) (ServingLabels serving) (rs_engine st) \<noteq> Inl (ApiNoMatch m)"
    and "stored (rs_engine st') n = Some app" "ServingLabels serving \<subseteq>\<^sub>m us_Labels app"
  shows "allowed_order_of app \<noteq> allowedOrder (serving_namespace serving) (order_name serving)"
proof
  assume opted: "allowed_order_of app = allowedOrder (serving_namespace serving) (order_name serving)"
  obtain res where "reconcileDelete v w (st\<lparr>rs_serving := serving\<rparr>) = (res, st')"
    using assms(3,4,6) by (auto simp: Reconcile_def reconcile_body_def split: prod.splits)
  then have "removed_in_turn (all_deployers v) serving None (rs_engine st) (rs_engine st')"
    using reconcileDelete_removed assms(5,7) by fastforce
  then obtain removed where "Argocd_Remove a serving None (rs_engine st) = ((removed, None), rs_engine st')"
    by (auto simp: assms(2) argocd_deployer_def)
  from applications_current.Remove_gone [OF assms(1) this assms(8)] have "kept_cluster None (ClusterOf app)"
    using assms(9,10) opted by blast
  then show False by (simp add: kept_cluster_def)
qed

text \<open>The Serving of the synced Application, deleted.\<close>

definition deleted_serving :: Serving where
  "deleted_serving = synced_serving\<lparr>Serving_ObjectMeta := (Serving_ObjectMeta synced_serving)\<lparr>om_DeletionTimestamp := Some 1\<rparr>\<rparr>"

definition deleted_reads :: api_reads where
  "deleted_reads = (sample_reads [])\<lparr>get_Serving := \<lambda>_ _. Inr deleted_serving\<rparr>"

lemma deleted_serving_same:
  "ServingLabels deleted_serving = ServingLabels synced_serving" "serving_namespace deleted_serving = serving_namespace synced_serving"
  "order_name deleted_serving = order_name synced_serving" "finalizers deleted_serving = [Finalizer]"
  by (simp_all add: deleted_serving_def ServingLabels_def finalizers_def synced_serving_def serving_with_def setHistory_def on_status_def
      sample_meta_def)

lemma synced_opted_in:
  "ServingLabels synced_serving \<subseteq>\<^sub>m us_Labels synced_application"
  "allowed_order_of synced_application = allowedOrder (serving_namespace synced_serving) (order_name synced_serving)"
proof (rule_tac [!] synced_desired)
  fix app
  assume app: "desired_application sample_argocd sample_environment synced_serving staged_entry synced_target = Inr app"
    "synced_application = app\<lparr>us_ResourceVersion := ''v0'', us_Object := (us_Object app)(''status'' \<mapsto> synced_status)\<rparr>"
  note built = Application_built [OF app(1) [unfolded desired_application_def] sample_argocd_lib]
  show "ServingLabels synced_serving \<subseteq>\<^sub>m us_Labels synced_application"
    "allowed_order_of synced_application = allowedOrder (serving_namespace synced_serving) (order_name synced_serving)"
    using built by (simp_all add: app(2) allowed_order_of_def)
qed

lemma deleted_gone:
  "\<exists>s. Argocd_Remove sample_argocd deleted_serving None synced_store = (([''c''], None), s)"
proof (rule synced_desired)
  fix app
  assume app: "desired_application sample_argocd sample_environment synced_serving staged_entry synced_target = Inr app"
    "synced_application = app\<lparr>us_ResourceVersion := ''v0'', us_Object := (us_Object app)(''status'' \<mapsto> synced_status)\<rparr>"
    "us_Name synced_application = Application_Key synced_serving ''c''"
  have cluster: "ClusterOf synced_application = ''c''"
    using Application_built(3) [OF app(1) [unfolded desired_application_def] sample_argocd_lib]
    by (simp add: app(2) ClusterOf_def synced_target_def)
  have "ob_list applications_api (ServingLabels deleted_serving) synced_store = Inr [synced_application]"
    using synced_stored synced_opted_in(1)
    by (simp add: applications_api_def store_api_def deleted_serving_same) (simp add: synced_store_def app(3))
  moreover have "OptedIn synced_application (serving_namespace deleted_serving) (order_name deleted_serving) = None"
    using synced_opted_in(2) by (simp add: OptedIn_None deleted_serving_same)
  moreover have "\<exists>s. ob_delete applications_api synced_application synced_store = (None, s)"
    using synced_stored by (simp add: applications_api_def store_api_def app(3))
  ultimately show ?thesis
    using cluster by (auto simp: Argocd_Remove_def sample_argocd_def kept_cluster_def)
qed

theorem finalizer_removed_last_witness:
  "\<exists>result status st'. Reconcile argocd_services deleted_reads written_writes ''ns'' ''o'' (argocd_state synced_store) = (result, status, st')
     \<and> finalizers (rs_serving st') = []
     \<and> stored_applications synced_store (Application_Key synced_serving ''c'') = Some synced_application
     \<and> (\<forall>n. stored_applications (rs_engine st') n \<noteq> Some synced_application)"
proof -
  obtain result status st' where run: "Reconcile argocd_services deleted_reads written_writes ''ns'' ''o'' (argocd_state synced_store)
      = (result, status, st')" by (metis surj_pair)
  have v: "all_deployers argocd_services = [argocd_deployer sample_argocd]" by (simp add: all_deployers_def argocd_services_def)
  have read: "get_Serving deleted_reads ''ns'' ''o'' = Inr deleted_serving" by (simp add: deleted_reads_def)
  have deleted: "om_DeletionTimestamp (Serving_ObjectMeta deleted_serving) \<noteq> None" by (simp add: deleted_serving_def)
  have start: "rs_engine (argocd_state synced_store) = synced_store" by (simp add: argocd_state_def)
  have off: "finalizers (rs_serving st') = []"
  proof -
    obtain s where "en_Remove (argocd_deployer sample_argocd) deleted_serving None synced_store = (([''c''], None), s)"
      using deleted_gone by (auto simp: argocd_deployer_def)
    then show ?thesis using run deleted
      by (auto simp: Reconcile_def read reconcile_body_def reconcileDelete_def and_then_def remove_deployments_def v start written_writes_def
          deleted_serving_same Let_def split: prod.splits) (simp_all add: finalizers_def set_finalizers_def)
  qed
  have "stored_applications (rs_engine st') n \<noteq> Some synced_application" for n
  proof
    assume "stored_applications (rs_engine st') n = Some synced_application"
    from finalizer_removed_last [OF sample_applications.applications_current_axioms v read deleted _ run _ _ this]
    show False
      using synced_opted_in off by (simp add: deleted_serving_same sample_argocd_def applications_api_def store_api_def)
  qed
  then show ?thesis using run off synced_stored by blast
qed

text \<open>C19: A target is healthy only when Argo CD says so of what is deployed now: when applying reports a target
  healthy, its Application is stored as desired, Argo CD does not refuse it, it compared the very repository,
  digest and path that the Application asks for, it is Synced and Healthy, and no sync is running or the last
  one succeeded at the revision that is reported.\<close>

theorem healthy_is_synced:
  assumes "applications_current a stored" "unstructured_laws (ac_lib a)"
    and "Argocd_Apply a env serving deployed target s = (Inr state, s')" "ts_held state = []" "ts_health state = HealthHealthy"
  shows "\<exists>ref app source. ac_parse a (e_OCIRef deployed) = Inr ref
    \<and> stored s' (Application_Key serving (tg_cluster target)) = Some app
    \<and> nested_map (ac_lib a) (us_Object app) [''spec''] = Some (application_spec ref
        \<lparr>at_Cluster = tg_cluster target, at_Server = tg_server target, at_Namespace = tg_namespace target, at_Project = environment_project env\<rparr>)
    \<and> invalidSpec (ac_lib a) (us_Object app) = None
    \<and> nested_map (ac_lib a) (us_Object app) [''status'', ''sync'', ''comparedTo'', ''source''] = Some source
    \<and> source ''repoURL'' = Some (FStr (OCIRepositoryReference ref)) \<and> source ''targetRevision'' = Some (FStr (ref_Digest ref))
    \<and> source ''path'' = Some (FStr ''.'')
    \<and> nested_string (ac_lib a) (us_Object app) [''status'', ''sync'', ''status''] = Some ''Synced''
    \<and> nested_string (ac_lib a) (us_Object app) [''status'', ''health'', ''status''] = Some ''Healthy''
    \<and> syncFinished (ac_lib a) (us_Object app) (ts_revision state)"
proof -
  obtain app where app: "stored s' (Application_Key serving (tg_cluster target)) = Some app"
    "desired_stored a env serving deployed target app" "state = stateOf (ac_lib a) app"
    using applications_current.Apply_stored [OF assms(1,3,4,2)] assms(5) by auto
  obtain desired where desired: "desired_application a env serving deployed target = Inr desired"
    "nested_map (ac_lib a) (us_Object app) [''spec''] = nested_map (ac_lib a) (us_Object desired) [''spec'']"
    using app(2) by (auto simp: desired_stored_def)
  obtain ref where ref: "ac_parse a (e_OCIRef deployed) = Inr ref"
    and spec: "nested_map (ac_lib a) (us_Object app) [''spec''] = Some (application_spec ref
        \<lparr>at_Cluster = tg_cluster target, at_Server = tg_server target, at_Namespace = tg_namespace target, at_Project = environment_project env\<rparr>)"
    using Application_built(5) [OF desired(1) [unfolded desired_application_def] assms(2)] desired(2) by auto
  have phase: "as_Phase (object_state (ac_lib a) (us_Object app)) = PhaseHealthy"
    and revision: "ts_revision state = as_Revision (object_state (ac_lib a) (us_Object app))"
    using stateOf_reported [of "ac_lib a" app] assms(4,5) app(3) by simp_all
  note healthy = object_state_healthy [OF assms(2) phase]
  have source: "nested_map (ac_lib a) (us_Object app) [''spec'', ''source''] =
      Some [''repoURL'' \<mapsto> FStr (OCIRepositoryReference ref), ''targetRevision'' \<mapsto> FStr (ref_Digest ref), ''path'' \<mapsto> FStr ''.'']"
    using spec found_append [of "[''source'']" "[''spec'']" "us_Object app"]
    by (auto simp: readers_found [OF assms(2)] application_spec_def found_Cons split: option.splits field.splits)
  obtain compared where compared: "nested_map (ac_lib a) (us_Object app) [''status'', ''sync'', ''comparedTo'', ''source''] = Some compared"
    "any_at compared ''repoURL'' = FStr (OCIRepositoryReference ref)" "any_at compared ''targetRevision'' = FStr (ref_Digest ref)"
    "any_at compared ''path'' = FStr ''.''"
    using healthy source by (auto simp: comparedCurrentSource_def map_of_field_def any_at_def split: option.splits)
  then have "compared ''repoURL'' = Some (FStr (OCIRepositoryReference ref))" "compared ''targetRevision'' = Some (FStr (ref_Digest ref))"
    "compared ''path'' = Some (FStr ''.'')"
    by (auto simp: any_at_def split: option.splits)
  moreover have "nested_string (ac_lib a) (us_Object app) [''status'', ''sync'', ''status''] = Some ''Synced''"
    "nested_string (ac_lib a) (us_Object app) [''status'', ''health'', ''status''] = Some ''Healthy''"
    using healthy by (simp_all add: readers_found [OF assms(2)])
  ultimately show ?thesis using ref app(1) spec compared(1) healthy revision by (intro exI [of _ ref] exI [of _ app] exI [of _ compared]) simp
qed

theorem healthy_is_synced_witness:
  "\<exists>app. stored_applications synced_store (Application_Key synced_serving ''c'') = Some app
     \<and> syncFinished plain_unstructured (us_Object app) ''sha256:ab''
     \<and> nested_string plain_unstructured (us_Object app) [''status'', ''sync'', ''status''] = Some ''Synced''"
proof -
  have lib: "ac_lib sample_argocd = plain_unstructured" by (simp add: sample_argocd_def)
  have "ts_held (stateOf plain_unstructured synced_application) = []" "ts_health (stateOf plain_unstructured synced_application) = HealthHealthy"
    "tg_cluster synced_target = ''c''" by (simp_all add: synced_state synced_target_def)
  then show ?thesis
    using healthy_is_synced [OF sample_applications.applications_current_axioms sample_argocd_lib synced_apply]
    unfolding lib synced_state by auto
qed

text \<open>Trimming the status of an Application for the cache changes nothing Kokumi reads of it: its state, what
  the watch compares, its opt-in, and whether it matches a desired Application.\<close>

theorem trimming_keeps_state:
  assumes "unstructured_laws lib"
  shows "StateOf lib (Some (TrimStatus lib app)) = StateOf lib (Some app)
    \<and> Application_Changed lib (TrimStatus lib app) other = Application_Changed lib app other
    \<and> Application_Matches lib (TrimStatus lib app) desired = Application_Matches lib app desired
    \<and> OptedIn (TrimStatus lib app) ns order = OptedIn app ns order"
proof (intro conjI)
  note reads = TrimStatus_reads [OF assms] TrimStatus_below [OF assms] TrimStatus_other [of "''spec''", simplified]
  have invalid: "invalidSpec lib (us_Object (TrimStatus lib app)) = invalidSpec lib (us_Object app)"
    by (simp add: invalidSpec_def readers_found [OF assms] reads)
  show "StateOf lib (Some (TrimStatus lib app)) = StateOf lib (Some app)"
    unfolding StateOf_def option.case object_state_def invalid comparedCurrentSource_def syncFinished_def readers_found [OF assms] reads ..
  show "Application_Changed lib (TrimStatus lib app) other = Application_Changed lib app other"
    by (simp add: Application_Changed_def watchedState_def allowed_order_of_def invalid readers_found [OF assms] reads)
  show "Application_Matches lib (TrimStatus lib app) desired = Application_Matches lib app desired"
    unfolding Application_Matches_def readers_found [OF assms] reads TrimStatus_meta ..
  show "OptedIn (TrimStatus lib app) ns order = OptedIn app ns order"
    by (simp add: OptedIn_def allowed_order_of_def Let_def)
qed

theorem trimming_keeps_state_witness:
  "StateOf plain_unstructured (Some (TrimStatus plain_unstructured synced_application)) = StateOf plain_unstructured (Some synced_application)"
  using trimming_keeps_state [OF plain_fields.unstructured_fields_axioms] by blast

text \<open>C20: Registering and unregistering a Cluster, however stale the reads and whatever fails, leave every Secret
  without the registration labels of that Cluster as it is, and keep the registrations Kokumi manages named
  after their servers, so that two of them for the same server are one.\<close>

theorem registration_exclusive:
  assumes "secrets_server api stored" "named_after_servers (stored s)"
    and "Register api c kubeconfig s = (result, s') \<or> Unregister api c s = (unregistered, s')"
  shows "named_after_servers (stored s')
    \<and> (\<forall>n x. stored s n = Some x \<longrightarrow> \<not> RegistrationLabels (om_Namespace (Cluster_ObjectMeta c)) (cluster_name c) \<subseteq>\<^sub>m sc_Labels x \<longrightarrow>
        stored s' n = Some x)
    \<and> (\<forall>m n x y. stored s' m = Some x \<longrightarrow> stored s' n = Some y \<longrightarrow> is_managed x \<longrightarrow> is_managed y \<longrightarrow>
        SameServer (secret_server x) (secret_server y) \<longrightarrow> m = n)"
proof -
  have step: "registration_step stored (om_Namespace (Cluster_ObjectMeta c)) (cluster_name c) s s'"
    using assms(3) secrets_server.Register_step [OF assms(1)] secrets_server.Unregister_step [OF assms(1)] by blast
  have named: "named_after_servers (stored s')" by (rule registration_step_named [OF step assms(2)])
  show ?thesis
  proof (intro conjI allI impI)
    fix n x
    assume "stored s n = Some x" "\<not> RegistrationLabels (om_Namespace (Cluster_ObjectMeta c)) (cluster_name c) \<subseteq>\<^sub>m sc_Labels x"
    then show "stored s' n = Some x" using step [unfolded registration_step_def, THEN spec, of n] by auto
  next
    fix m n x y
    assume "stored s' m = Some x" "stored s' n = Some y" "is_managed x" "is_managed y" "SameServer (secret_server x) (secret_server y)"
    then show "m = n" using one_registration [OF named] by blast
  qed (rule named)
qed

definition empty_secrets :: "secret object_store" where
  "empty_secrets = \<lparr>os_objects = [], os_version = 1\<rparr>"

definition sample_kubeconfig :: Kubeconfig where
  "sample_kubeconfig = \<lparr>kc_Endpoint = \<lparr>ep_Server = ''https://c'', ep_CAData = [], ep_TLSServerName = [], ep_Insecure = False, ep_ProxyURL = []\<rparr>,
     kc_Credential = \<lparr>cr_Token = ''t'', cr_ClientCertificate = [], cr_ClientKey = []\<rparr>\<rparr>"

theorem registration_exclusive_witness:
  "named_after_servers (stored_secrets (snd (Register secrets_api (sample_cluster ''c'' ''https://c'') (Some sample_kubeconfig) empty_secrets)))"
proof -
  have "named_after_servers (stored_secrets empty_secrets)"
    by (simp add: named_after_servers_def empty_secrets_def store_get_def)
  moreover obtain result s' where "Register secrets_api (sample_cluster ''c'' ''https://c'') (Some sample_kubeconfig) empty_secrets = (result, s')"
    by fastforce
  ultimately show ?thesis
    using registration_exclusive [OF sample_secrets.secrets_server_axioms _ disjI1] by simp
qed

text \<open>The name of an Application fits a label value: at most 63 characters, and when the namespace and the name
  of the Order are DNS names, of their characters only, starting with a letter and ending with a
  hexadecimal digit. Two Orders and clusters share a name only when the first 32 bits of their hashes agree.\<close>

theorem application_names_valid:
  assumes "set (om_Namespace (Serving_ObjectMeta serving)) \<union> set (ServingSpec_OrderName (Serving_Spec serving)) \<subseteq> dns_chars"
  shows "length (Application_Key serving cluster) \<le> 63 \<and> set (Application_Key serving cluster) \<subseteq> dns_chars
    \<and> hd (Application_Key serving cluster) = CHR ''k'' \<and> last (Application_Key serving cluster) \<in> lower_hex
    \<and> (Application_Key serving cluster = Application_Key other cluster' \<longrightarrow>
         take 4 (sha256 (application_id serving cluster)) = take 4 (sha256 (application_id other cluster')))"
proof -
  obtain r where key: "Application_Key serving cluster = CHR ''k'' # r @ ''-'' @ hex_encode (take 4 (sha256 (application_id serving cluster)))"
    and r: "set r \<subseteq> set ''okumi-'' \<union> set (om_Namespace (Serving_ObjectMeta serving)) \<union> set (ServingSpec_OrderName (Serving_Spec serving))"
    by (rule Application_Key_parts)
  have hex: "lower_hex \<subseteq> dns_chars" by (simp add: lower_hex_def dns_chars_def)
  have hash: "hex_encode (take 4 (sha256 x)) \<noteq> []" "length (hex_encode (take 4 (sha256 x))) = 8" for x
    by (simp_all flip: length_0_conv)
  have "CHR ''k'' # ''okumi--'' \<in> lists dns_chars" by (simp add: dns_chars_def)
  then have "set (Application_Key serving cluster) \<subseteq> dns_chars"
    using r assms hex set_hex_encode [of "take 4 (sha256 (application_id serving cluster))"] by (auto simp: key)
  moreover have "last (Application_Key serving cluster) \<in> lower_hex"
    using set_hex_encode hash(1) last_in_set by (fastforce simp: key)
  moreover have "length (Application_Key serving cluster) \<le> 63"
    by (simp add: Application_Key_def Let_def maxNameLength_def length_hashedName)
  moreover have "take 4 (sha256 (application_id serving cluster)) = take 4 (sha256 (application_id other cluster'))"
    if same: "Application_Key serving cluster = Application_Key other cluster'"
  proof -
    obtain q where "Application_Key other cluster' = CHR ''k'' # q @ ''-'' @ hex_encode (take 4 (sha256 (application_id other cluster')))"
      by (rule Application_Key_parts)
    then have "(r @ ''-'') @ hex_encode (take 4 (sha256 (application_id serving cluster))) = (q @ ''-'') @ hex_encode (take 4 (sha256 (application_id other cluster')))"
      using same by (simp add: key)
    then have "hex_encode (take 4 (sha256 (application_id serving cluster))) = hex_encode (take 4 (sha256 (application_id other cluster')))"
      by (subst (asm) append_eq_append_conv) (simp_all add: hash)
    then show ?thesis by (rule hex_encode_inj)
  qed
  ultimately show ?thesis by (simp add: key)
qed

theorem application_names_valid_witness:
  "length (Application_Key synced_serving ''c'') \<le> 63 \<and> hd (Application_Key synced_serving ''c'') = CHR ''k''"
proof -
  have "set (om_Namespace (Serving_ObjectMeta synced_serving)) \<union> set (ServingSpec_OrderName (Serving_Spec synced_serving)) \<subseteq> dns_chars"
    by (simp add: synced_serving_def dns_chars_def)
  then show ?thesis using application_names_valid by blast
qed

end
