(* ===== verification/Registry_Location.thy ===== *)
theory Registry_Location
  imports Api_Kitchen
begin

text \<open>
  Registry locations (\<open>internal/registry/location.go\<close>): a registry host and a repository path below it,
  which location covers which, and the Registry through which a location is reached. Hosts and paths are
  ASCII.
\<close>

definition CanonicalHost :: "string \<Rightarrow> string" where
  "CanonicalHost host =
     (let host = to_lower host in
      if host = ''index.docker.io'' \<or> host = ''registry-1.docker.io'' then ''docker.io'' else host)"

record Location =
  lo_Host :: string
  lo_Path :: string

text \<open>A colon after the last slash of the path separates a tag.\<close>

definition strip_tag :: "string \<Rightarrow> string" where
  "strip_tag path = (case cut_last CHR '':'' path of
      Some (before, after) \<Rightarrow> if CHR ''/'' \<in> set after then path else before
    | None \<Rightarrow> path)"

definition ParseLocation :: "string \<Rightarrow> string + Location" where
  "ParseLocation s =
     (let rest = trim_prefix ''oci://'' s;
          rest = (case str_cut ''@'' rest of Some (before, _) \<Rightarrow> before | None \<Rightarrow> rest);
          (host, path) = (case str_cut ''/'' rest of Some p \<Rightarrow> p | None \<Rightarrow> (rest, []))
      in if host = [] then Inl (''invalid registry location '' @ go_quote s @ '': missing host'')
         else Inr \<lparr>lo_Host = CanonicalHost host, lo_Path = trim_char CHR ''/'' (strip_tag path)\<rparr>)"

definition Location_String :: "Location \<Rightarrow> string" where
  "Location_String l = (if lo_Path l = [] then lo_Host l else lo_Host l @ ''/'' @ lo_Path l)"

definition Covers :: "Location \<Rightarrow> Location \<Rightarrow> bool" where
  "Covers l other =
     (if lo_Host l \<noteq> lo_Host other then False
      else lo_Path l = [] \<or> lo_Path other = lo_Path l \<or> has_prefix (lo_Path l @ ''/'') (lo_Path other))"

definition URLCovers :: "string \<Rightarrow> string \<Rightarrow> string + bool" where
  "URLCovers registryURL url =
     (case ParseLocation registryURL of
        Inl err \<Rightarrow> Inl err
      | Inr reg \<Rightarrow> (case ParseLocation url of Inl err \<Rightarrow> Inl err | Inr loc \<Rightarrow> Inr (Covers reg loc)))"

text \<open>The loop over the Registries, with the best one so far and the length of its path.\<close>

definition match_turn :: "Location \<Rightarrow> Registry option \<times> int \<Rightarrow> Registry \<Rightarrow> Registry option \<times> int" where
  "match_turn target best reg =
     (case ParseLocation (RegistrySpec_URL (Registry_Spec reg)) of
        Inl _ \<Rightarrow> best
      | Inr loc \<Rightarrow> if Covers loc target \<and> int (length (lo_Path loc)) > snd best then (Some reg, int (length (lo_Path loc))) else best)"

definition Match :: "Registry list \<Rightarrow> string \<Rightarrow> string + Registry option" where
  "Match registries url =
     (case ParseLocation url of
        Inl err \<Rightarrow> Inl err
      | Inr target \<Rightarrow> Inr (fst (foldl (match_turn target) (None, -1) registries)))"

section \<open>Locations are well-formed\<close>

text \<open>What parsing promises: the host is canonical, not empty and without a slash, the path has no slash at its ends.\<close>

definition wf_location :: "Location \<Rightarrow> bool" where
  "wf_location l \<longleftrightarrow> lo_Host l \<noteq> [] \<and> CHR ''/'' \<notin> set (lo_Host l) \<and> CanonicalHost (lo_Host l) = lo_Host l
     \<and> (lo_Path l \<noteq> [] \<longrightarrow> hd (lo_Path l) \<noteq> CHR ''/'' \<and> last (lo_Path l) \<noteq> CHR ''/'')"

lemma lower_char_idem [simp]: "lower_char (lower_char c) = lower_char c"
proof -
  have "(of_char (char_of (n + 32) :: char) :: nat) = n + 32" if "n \<le> 90" for n :: nat
    using that by (simp add: of_char_of)
  then show ?thesis by (auto simp: lower_char_def Let_def)
qed

lemma to_lower_idem [simp]: "to_lower (to_lower s) = to_lower s"
  by (simp add: to_lower_def)

lemma lower_char_slash [simp]: "lower_char c = CHR ''/'' \<longleftrightarrow> c = CHR ''/''"
proof -
  have "(char_of (n + 32) :: char) \<noteq> CHR ''/''" if "65 \<le> n" "n \<le> 90" for n :: nat
  proof
    assume "(char_of (n + 32) :: char) = CHR ''/''"
    then have "(of_char (char_of (n + 32) :: char) :: nat) = of_char (CHR ''/'')" by simp
    then show False using that by (simp add: of_char_of)
  qed
  moreover have "lower_char (CHR ''/'') = CHR ''/''" by (simp add: lower_char_def)
  ultimately show ?thesis by (auto simp: lower_char_def Let_def split: if_splits)
qed

lemma CanonicalHost_idem: "CanonicalHost (CanonicalHost host) = CanonicalHost host"
proof -
  have "to_lower ''docker.io'' = ''docker.io''" by code_simp
  then show ?thesis by (auto simp: CanonicalHost_def Let_def)
qed

lemma CanonicalHost_wf: "host \<noteq> [] \<Longrightarrow> CHR ''/'' \<notin> set host \<Longrightarrow> CanonicalHost host \<noteq> [] \<and> CHR ''/'' \<notin> set (CanonicalHost host)"
proof -
  assume "host \<noteq> []" "CHR ''/'' \<notin> set host"
  then have "to_lower host \<noteq> []" "CHR ''/'' \<notin> set (to_lower host)"
    by (auto simp: to_lower_def) (metis lower_char_slash)
  then show ?thesis by (auto simp: CanonicalHost_def Let_def)
qed

lemma str_cut_before: "str_cut [c] s = Some (before, after) \<Longrightarrow> c \<notin> set before"
proof (induction s arbitrary: before)
  case (Cons d s)
  then show ?case by (auto simp: has_prefix_def split: if_splits)
qed simp

lemma str_cut_None: "str_cut [c] s = None \<Longrightarrow> c \<notin> set s"
  by (induction s) (auto simp: has_prefix_def split: if_splits)

lemma hd_dropWhile_neq: "dropWhile ((=) c) s \<noteq> [] \<Longrightarrow> hd (dropWhile ((=) c) s) \<noteq> c"
  using hd_dropWhile [of "(=) c" s] by auto

lemma trim_char_ends:
  "trim_char c s \<noteq> [] \<Longrightarrow> hd (trim_char c s) \<noteq> c \<and> last (trim_char c s) \<noteq> c"
proof -
  let ?t = "dropWhile ((=) c) s"
  assume ne: "trim_char c s \<noteq> []"
  have last: "last (trim_char c s) \<noteq> c"
    using ne hd_dropWhile_neq [of c "rev ?t"] by (simp add: trim_char_def last_rev)
  have "prefix (trim_char c s) ?t" if "prefix (rev (dropWhile ((=) c) (rev ?t))) ?t"
    using that by (simp add: trim_char_def)
  obtain p where p: "rev ?t = p @ dropWhile ((=) c) (rev ?t)" by (metis takeWhile_dropWhile_id)
  then have "?t = trim_char c s @ rev p" by (metis rev_append rev_rev_ident trim_char_def)
  then have "hd (trim_char c s) = hd ?t" using ne by (metis hd_append2)
  moreover have "?t \<noteq> []" using ne \<open>?t = trim_char c s @ rev p\<close> by auto
  ultimately show ?thesis using last hd_dropWhile_neq [of c s] by auto
qed

lemma ParseLocation_wf:
  assumes "ParseLocation s = Inr l"
  shows "wf_location l"
proof -
  define rest where "rest = (case str_cut ''@'' (trim_prefix ''oci://'' s) of Some (before, _) \<Rightarrow> before | None \<Rightarrow> trim_prefix ''oci://'' s)"
  obtain host path where cut: "(case str_cut ''/'' rest of Some p \<Rightarrow> p | None \<Rightarrow> (rest, [])) = (host, path)" by fastforce
  have host: "CHR ''/'' \<notin> set host" using cut str_cut_before str_cut_None by (auto split: option.splits)
  have parse: "ParseLocation s = (if host = [] then Inl (''invalid registry location '' @ go_quote s @ '': missing host'')
      else Inr \<lparr>lo_Host = CanonicalHost host, lo_Path = trim_char CHR ''/'' (strip_tag path)\<rparr>)"
    unfolding ParseLocation_def Let_def rest_def [symmetric] cut by simp
  then have "host \<noteq> []" and l: "l = \<lparr>lo_Host = CanonicalHost host, lo_Path = trim_char CHR ''/'' (strip_tag path)\<rparr>"
    using assms by (auto split: if_splits)
  then show ?thesis using host trim_char_ends [of "CHR ''/''" "strip_tag path"]
    by (simp add: wf_location_def CanonicalHost_wf CanonicalHost_idem)
qed

section \<open>Covering is a tree order\<close>

lemma Covers_iff: "Covers l other \<longleftrightarrow> lo_Host l = lo_Host other
    \<and> (lo_Path l = [] \<or> lo_Path other = lo_Path l \<or> (\<exists>r. lo_Path other = lo_Path l @ CHR ''/'' # r))"
  by (auto simp: Covers_def has_prefix_iff)

lemma Covers_refl [simp]: "Covers l l"
  by (simp add: Covers_iff)

lemma Covers_trans: "Covers a b \<Longrightarrow> Covers b c \<Longrightarrow> Covers a c"
  by (auto simp: Covers_iff)

lemma Covers_same_length: "Covers a c \<Longrightarrow> Covers b c \<Longrightarrow> length (lo_Path a) = length (lo_Path b) \<Longrightarrow> a = b"
  by (rule Location.equality) (auto simp: Covers_iff dest: arg_cong [of _ _ length])

lemma Covers_comparable: "Covers a c \<Longrightarrow> Covers b c \<Longrightarrow> length (lo_Path a) \<le> length (lo_Path b) \<Longrightarrow> Covers a b"
proof -
  assume c: "Covers a c" "Covers b c" and le: "length (lo_Path a) \<le> length (lo_Path b)"
  have path: "take (length (lo_Path a)) (lo_Path b) = lo_Path a"
    using c le by (auto simp: Covers_iff) (metis append_eq_conv_conj take_append append.right_neutral diff_is_0_eq take0)+
  show ?thesis
  proof (cases "lo_Path a = [] \<or> lo_Path b = lo_Path a")
    case True
    then show ?thesis using c by (auto simp: Covers_iff)
  next
    case False
    then obtain x r where b: "lo_Path b = lo_Path a @ x # r"
      using path le by (metis append_Nil2 append_take_drop_id neq_Nil_conv)
    then have "x = CHR ''/''" using c False by (auto simp: Covers_iff)
    then show ?thesis using b c by (auto simp: Covers_iff)
  qed
qed

section \<open>The Registry of a location\<close>

definition registry_covers :: "Registry \<Rightarrow> Location \<Rightarrow> bool" where
  "registry_covers reg target \<longleftrightarrow>
     (\<exists>loc. ParseLocation (RegistrySpec_URL (Registry_Spec reg)) = Inr loc \<and> Covers loc target)"

definition path_length :: "Registry \<Rightarrow> int" where
  "path_length reg = (case ParseLocation (RegistrySpec_URL (Registry_Spec reg)) of Inr loc \<Rightarrow> int (length (lo_Path loc)) | Inl _ \<Rightarrow> -1)"

lemma match_turn_eq:
  "match_turn target best reg =
     (if registry_covers reg target \<and> path_length reg > snd best then (Some reg, path_length reg) else best)"
  by (auto simp: match_turn_def registry_covers_def path_length_def split: sum.splits)

definition best_match :: "Location \<Rightarrow> Registry list \<Rightarrow> Registry option \<times> int \<Rightarrow> bool" where
  "best_match target seen best \<longleftrightarrow>
     (case fst best of
        None \<Rightarrow> snd best = -1 \<and> (\<forall>r\<in>set seen. \<not> registry_covers r target)
      | Some r \<Rightarrow> r \<in> set seen \<and> registry_covers r target \<and> snd best = path_length r
          \<and> (\<forall>q\<in>set seen. registry_covers q target \<longrightarrow> path_length q \<le> path_length r))"

lemma path_length_covers: "registry_covers r target \<Longrightarrow> 0 \<le> path_length r"
  by (auto simp: registry_covers_def path_length_def)

lemma best_match_fold: "best_match target seen best \<Longrightarrow> best_match target (seen @ regs) (foldl (match_turn target) best regs)"
proof (induction regs arbitrary: seen best)
  case (Cons reg regs)
  have "best_match target (seen @ [reg]) (match_turn target best reg)"
    using Cons.prems path_length_covers [of reg target]
    by (cases "fst best"; auto simp: best_match_def match_turn_eq)
  then show ?case using Cons.IH [of "seen @ [reg]"] by simp
qed simp

lemma Match_best:
  assumes "Match registries url = Inr found" "ParseLocation url = Inr target"
  shows "case found of
      None \<Rightarrow> \<forall>r\<in>set registries. \<not> registry_covers r target
    | Some r \<Rightarrow> r \<in> set registries \<and> registry_covers r target
        \<and> (\<forall>q\<in>set registries. registry_covers q target \<longrightarrow> path_length q \<le> path_length r)"
proof -
  have "best_match target [] (None, -1)" by (simp add: best_match_def)
  from best_match_fold [OF this, of registries] show ?thesis
    using assms by (auto simp: Match_def best_match_def split: option.splits)
qed

end
