(* ===== verification/Registry_Clients.thy ===== *)
theory Registry_Clients
  imports Registry_Location Control Go_Hash Go_Glob
begin

text \<open>
  Connecting to registries (\<open>internal/registry\<close>, but for locations): the credential a docker config holds for
  a location, the connection through a Registry and its Secrets, the clients kept per version of those, the
  Scope of the Registries an object lists, and the resolver that reads them. Parsing JSON, URLs and
  certificates is a parameter, and so is what a client is; the clients kept are a state.
\<close>

section \<open>Docker configs\<close>

record dockerConfigEntry =
  dc_Username :: string
  dc_Password :: string
  dc_Auth :: string
  dc_IdentityToken :: string
  dc_RegistryToken :: string

record credential =
  cd_Username :: string
  cd_Password :: string
  cd_RefreshToken :: string
  cd_AccessToken :: string

definition EmptyCredential :: credential where
  "EmptyCredential = \<lparr>cd_Username = [], cd_Password = [], cd_RefreshToken = [], cd_AccessToken = []\<rparr>"

text \<open>
  What the libraries do: the entries of a docker config by key, in some order, or the error; the host and the
  path of a URL; whether a PEM holds a certificate; why a certificate and a key are not a pair.
\<close>

record registry_library =
  rl_docker_config :: "string \<Rightarrow> string + (string \<times> dockerConfigEntry) list"
  rl_url :: "string \<Rightarrow> (string \<times> string) option"
  rl_pem :: "string \<Rightarrow> bool"
  rl_key_pair :: "string \<Rightarrow> string \<Rightarrow> string option"

text \<open>\<open>net.SplitHostPort\<close>, and the host as it is when that fails.\<close>

definition SplitHostPort :: "string \<Rightarrow> (string \<times> string) option" where
  "SplitHostPort hostport =
     (case cut_last CHR '':'' hostport of
        None \<Rightarrow> None
      | Some (before, port) \<Rightarrow>
          if hd hostport = CHR ''[''
          then (case str_cut '']'' hostport of
              None \<Rightarrow> None
            | Some (bracketed, after) \<Rightarrow>
                if after \<noteq> CHR '':'' # port then None
                else if CHR ''['' \<in> set (tl hostport) \<or> CHR '']'' \<in> set after then None
                else Some (tl bracketed, port))
          else if CHR '':'' \<in> set before then None
          else if CHR ''['' \<in> set hostport \<or> CHR '']'' \<in> set hostport then None
          else Some (before, port))"

definition splitPort :: "string \<Rightarrow> string \<times> string" where
  "splitPort hostport = (case SplitHostPort hostport of None \<Rightarrow> (hostport, []) | Some p \<Rightarrow> p)"

definition hostMatch :: "string \<Rightarrow> string \<Rightarrow> bool" where
  "hostMatch pattern host =
     (let (patternHost, patternPort) = splitPort pattern; (targetHost, targetPort) = splitPort host in
      if patternPort \<noteq> targetPort then False
      else list_all2 glob_match (str_split CHR ''.'' patternHost) (str_split CHR ''.'' targetHost))"

definition keyMatch :: "registry_library \<Rightarrow> string \<Rightarrow> Location \<Rightarrow> int option" where
  "keyMatch lib key loc =
     (case rl_url lib (if str_contains ''://'' key then key else ''https://'' @ key) of
        None \<Rightarrow> None
      | Some (urlHost, urlPath) \<Rightarrow>
          if urlHost = [] then None
          else let host = CanonicalHost urlHost; keyPath = trim_char CHR ''/'' urlPath;
              keyPath = (if host = ''docker.io'' \<and> (keyPath = ''v1'' \<or> keyPath = ''v2'') then [] else keyPath) in
            if \<not> hostMatch host (lo_Host loc) then None
            else if keyPath \<noteq> [] \<and> lo_Path loc \<noteq> keyPath \<and> \<not> has_prefix (keyPath @ ''/'') (lo_Path loc) then None
            else Some (2 * int (length keyPath) + (if str_contains ''*'' host then 0 else 1)))"

text \<open>The offset at which base64 is malformed is left out of the message.\<close>

definition entryCredential :: "dockerConfigEntry \<Rightarrow> string + credential" where
  "entryCredential entry =
     (let cred = \<lparr>cd_Username = dc_Username entry, cd_Password = dc_Password entry,
            cd_RefreshToken = dc_IdentityToken entry, cd_AccessToken = dc_RegistryToken entry\<rparr>;
          checked = (\<lambda>cred. if cred = EmptyCredential then Inl ''entry holds no credential'' else Inr cred)
      in if dc_Auth entry \<noteq> [] \<and> cd_Username cred = [] \<and> cd_Password cred = []
         then (case base64_decode (dc_Auth entry) of
             None \<Rightarrow> Inl ''decode auth: illegal base64 data''
           | Some decoded \<Rightarrow> (case str_cut '':'' decoded of
               None \<Rightarrow> Inl ''auth is not username:password''
             | Some (user, pass) \<Rightarrow> checked (cred\<lparr>cd_Username := user, cd_Password := pass\<rparr>)))
         else checked cred)"

text \<open>The best key so far, its entry and its score; ties break on the key.\<close>

definition key_turn ::
    "registry_library \<Rightarrow> Location \<Rightarrow> (string \<times> dockerConfigEntry \<times> int) option \<Rightarrow> string \<times> dockerConfigEntry \<Rightarrow>
     (string \<times> dockerConfigEntry \<times> int) option" where
  "key_turn lib loc best ke =
     (case keyMatch lib (fst ke) loc of
        None \<Rightarrow> best
      | Some score \<Rightarrow>
         (case best of
            None \<Rightarrow> Some (fst ke, snd ke, score)
          | Some (bestKey, entry, bestScore) \<Rightarrow>
              if score > bestScore \<or> score = bestScore \<and> fst ke < bestKey then Some (fst ke, snd ke, score) else best))"

definition credentialFor :: "registry_library \<Rightarrow> string \<Rightarrow> Location \<Rightarrow> string + credential" where
  "credentialFor lib data loc =
     (case rl_docker_config lib data of
        Inl err \<Rightarrow> Inl (''parse docker config: '' @ err)
      | Inr auths \<Rightarrow>
         (case foldl (key_turn lib loc) None auths of
            None \<Rightarrow> Inl (''no entry for '' @ Location_String loc)
          | Some (_, entry, _) \<Rightarrow> entryCredential entry))"

section \<open>Connections\<close>

text \<open>TLS settings: the PEM trusted besides the system's authorities, and the client certificates with their keys.\<close>

record tls_config =
  tl_RootCAs :: "string option"
  tl_Certificates :: "(string \<times> string) list"

definition keyCACert :: string where
  "keyCACert = ''ca.crt''"

definition keyClientCert :: string where
  "keyClientCert = ''tls.crt''"

definition keyClientKey :: string where
  "keyClientKey = ''tls.key''"

definition tlsConfig :: "registry_library \<Rightarrow> secret \<Rightarrow> string + tls_config" where
  "tlsConfig lib s =
     (let ca = string_at (sc_Data s) keyCACert; cert = string_at (sc_Data s) keyClientCert; key = string_at (sc_Data s) keyClientKey in
      if ca = [] \<and> cert = [] \<and> key = []
      then Inl (''holds none of '' @ keyCACert @ '', '' @ keyClientCert @ '' and '' @ keyClientKey)
      else if ca \<noteq> [] \<and> \<not> rl_pem lib ca then Inl (keyCACert @ '' holds no PEM certificate'')
      else let cas = (if ca = [] then None else Some ca) in
        if cert \<noteq> [] \<or> key \<noteq> []
        then (case rl_key_pair lib cert key of
            Some err \<Rightarrow> Inl (keyClientCert @ '' and '' @ keyClientKey @ '': '' @ err)
          | None \<Rightarrow> Inr \<lparr>tl_RootCAs = cas, tl_Certificates = [(cert, key)]\<rparr>)
        else Inr \<lparr>tl_RootCAs = cas, tl_Certificates = []\<rparr>)"

record 'client Connection =
  cn_Registry :: "Registry option"
  cn_Host :: string
  cn_Credential :: credential
  cn_PlainHTTP :: bool
  cn_TLSConfig :: "tls_config option"
  cn_CertificateAuthority :: string
  cn_ClientCertificate :: string
  cn_ClientKey :: string
  cn_Client :: "'client option"
  cn_version :: string

definition empty_connection :: "'client Connection" where
  "empty_connection = \<lparr>cn_Registry = None, cn_Host = [], cn_Credential = EmptyCredential, cn_PlainHTTP = False, cn_TLSConfig = None,
     cn_CertificateAuthority = [], cn_ClientCertificate = [], cn_ClientKey = [], cn_Client = None, cn_version = []\<rparr>"

definition Authenticated :: "'client Connection \<Rightarrow> bool" where
  "Authenticated c \<longleftrightarrow> cn_Credential c \<noteq> EmptyCredential \<or> (case cn_TLSConfig c of None \<Rightarrow> False | Some t \<Rightarrow> tl_Certificates t \<noteq> [])"

definition RegistryName :: "'client Connection \<Rightarrow> string" where
  "RegistryName c = (case cn_Registry c of None \<Rightarrow> [] | Some reg \<Rightarrow> om_Name (Registry_ObjectMeta reg))"

text \<open>The keychain of a connection resolves a registry to the credential, or to no authentication.\<close>

definition keychain_Resolve :: "'client Connection \<Rightarrow> string \<Rightarrow> credential option" where
  "keychain_Resolve c registryStr =
     (if cn_Credential c = EmptyCredential \<or> CanonicalHost registryStr \<noteq> cn_Host c then None else Some (cn_Credential c))"

definition RegistryNotFound :: "string \<Rightarrow> registry_error" where
  "RegistryNotFound name = \<lparr>re_Reason = Some ReasonRegistryNotFound, re_Message = ''registry '' @ go_quote name @ '' not found''\<rparr>"

definition SecretNotFound :: "string \<Rightarrow> registry_error" where
  "SecretNotFound name = \<lparr>re_Reason = Some ReasonSecretNotFound, re_Message = ''secret '' @ go_quote name @ '' not found''\<rparr>"

text \<open>The error of a ping, as far as it is inspected.\<close>

record ping_error =
  pe_Status :: "int option"
  pe_NoBasicCredential :: bool
  pe_UntrustedCertificate :: bool

definition PingReason :: "ping_error \<Rightarrow> string" where
  "PingReason err =
     (if pe_Status err = Some 401 \<or> pe_Status err = Some 403 then ReasonUnauthorized
      else if pe_NoBasicCredential err then ReasonUnauthorized
      else ReasonUnreachable)"

definition Retriable :: "ping_error \<Rightarrow> bool" where
  "Retriable err \<longleftrightarrow> PingReason err = ReasonUnreachable \<and> \<not> pe_UntrustedCertificate err"

section \<open>Clients\<close>

record Entry =
  ey_Registry :: Registry
  ey_Secret :: "secret option"
  ey_CertSecret :: "secret option"
  ey_Err :: "registry_error option"

record oci_options =
  op_Host :: string
  op_Credential :: credential
  op_PlainHTTP :: bool
  op_TLSConfig :: "tls_config option"

definition no_options :: oci_options where
  "no_options = \<lparr>op_Host = [], op_Credential = EmptyCredential, op_PlainHTTP = False, op_TLSConfig = None\<rparr>"

text \<open>How clients are built, and the clients kept: by UID, with the version they were built for.\<close>

record 'client Clients =
  ct_bundledHost :: string
  ct_newClient :: "oci_options \<Rightarrow> 'client"

definition NewClients :: "string \<Rightarrow> (oci_options \<Rightarrow> 'client) \<Rightarrow> 'client Clients" where
  "NewClients bundledHost newClient = \<lparr>ct_bundledHost = CanonicalHost bundledHost, ct_newClient = newClient\<rparr>"

type_synonym 'client kept = "string \<rightharpoonup> string \<times> 'client"

definition client_for :: "'client Clients \<Rightarrow> string \<Rightarrow> string \<Rightarrow> oci_options \<Rightarrow> 'client kept \<Rightarrow> 'client \<times> 'client kept" where
  "client_for c uid version opts kept =
     (let build = (ct_newClient c opts, kept(uid \<mapsto> (version, ct_newClient c opts))) in
      case kept uid of
        Some (v, client) \<Rightarrow> if v = version then (client, kept) else build
      | None \<Rightarrow> build)"

text \<open>The credential and the TLS settings of the Secrets of an entry, each with the version of its Secret.\<close>

definition entry_credential :: "registry_library \<Rightarrow> Entry \<Rightarrow> Location \<Rightarrow> registry_error + credential \<times> string" where
  "entry_credential lib entry loc =
     (case RegistrySpec_SecretRef (Registry_Spec (ey_Registry entry)) of
        None \<Rightarrow> Inr (EmptyCredential, [])
      | Some ref \<Rightarrow>
         (case ey_Secret entry of
            None \<Rightarrow> Inl (SecretNotFound ref)
          | Some s \<Rightarrow>
              if sc_Type s \<noteq> ''kubernetes.io/dockerconfigjson''
              then Inl \<lparr>re_Reason = Some ReasonSecretInvalid, re_Message = ''secret '' @ go_quote ref @ '' is of type '' @ sc_Type s
                @ '', not kubernetes.io/dockerconfigjson''\<rparr>
              else (case credentialFor lib (string_at (sc_Data s) ''.dockerconfigjson'') loc of
                  Inl err \<Rightarrow> Inl \<lparr>re_Reason = Some ReasonSecretInvalid, re_Message = ''secret '' @ go_quote ref @ '': '' @ err\<rparr>
                | Inr cred \<Rightarrow> Inr (cred, ''/'' @ sc_ResourceVersion s))))"

definition entry_tls :: "registry_library \<Rightarrow> Entry \<Rightarrow> registry_error + (tls_config \<times> secret) option" where
  "entry_tls lib entry =
     (case RegistrySpec_CertSecretRef (Registry_Spec (ey_Registry entry)) of
        None \<Rightarrow> Inr None
      | Some ref \<Rightarrow>
         (case ey_CertSecret entry of
            None \<Rightarrow> Inl (SecretNotFound ref)
          | Some s \<Rightarrow>
             (case tlsConfig lib s of
                Inl err \<Rightarrow> Inl \<lparr>re_Reason = Some ReasonCertificateInvalid, re_Message = ''secret '' @ go_quote ref @ '': '' @ err\<rparr>
              | Inr tls \<Rightarrow> Inr (Some (tls, s)))))"

text \<open>The connection through the Registry of an entry, but for its client.\<close>

definition entry_connection :: "registry_library \<Rightarrow> Entry \<Rightarrow> registry_error + 'client Connection" where
  "entry_connection lib entry =
     (let reg = ey_Registry entry in
      case ey_Err entry of
        Some err \<Rightarrow> Inl err
      | None \<Rightarrow>
         (case ParseLocation (RegistrySpec_URL (Registry_Spec reg)) of
            Inl err \<Rightarrow> Inl \<lparr>re_Reason = None, re_Message = err\<rparr>
          | Inr loc \<Rightarrow>
             (case entry_credential lib entry loc of
                Inl err \<Rightarrow> Inl err
              | Inr (cred, v1) \<Rightarrow>
                 (case entry_tls lib entry of
                    Inl err \<Rightarrow> Inl err
                  | Inr tls \<Rightarrow>
                      let conn = empty_connection\<lparr>cn_Registry := Some reg, cn_Host := lo_Host loc, cn_Credential := cred,
                          cn_PlainHTTP := (RegistrySpec_EffectiveScheme (Registry_Spec reg) = RegistrySchemeHTTP),
                          cn_version := om_ResourceVersion (Registry_ObjectMeta reg) @ v1\<rparr> in
                      Inr (case tls of
                          None \<Rightarrow> conn
                        | Some (t, s) \<Rightarrow> conn\<lparr>cn_TLSConfig := Some t, cn_CertificateAuthority := string_at (sc_Data s) keyCACert,
                            cn_ClientCertificate := string_at (sc_Data s) keyClientCert, cn_ClientKey := string_at (sc_Data s) keyClientKey,
                            cn_version := cn_version conn @ ''/'' @ sc_ResourceVersion s\<rparr>)))))"

definition connection_options :: "'client Connection \<Rightarrow> oci_options" where
  "connection_options conn = \<lparr>op_Host = cn_Host conn, op_Credential = cn_Credential conn, op_PlainHTTP = cn_PlainHTTP conn,
     op_TLSConfig = cn_TLSConfig conn\<rparr>"

definition Clients_Connect ::
    "registry_library \<Rightarrow> 'client Clients \<Rightarrow> Entry \<Rightarrow> 'client kept \<Rightarrow> (registry_error + 'client Connection) \<times> 'client kept" where
  "Clients_Connect lib c entry kept =
     (case entry_connection lib entry of
        Inl err \<Rightarrow> (Inl err, kept)
      | Inr conn \<Rightarrow>
         (case client_for c (om_UID (Registry_ObjectMeta (ey_Registry entry))) (cn_version conn) (connection_options conn) kept of
            (client, kept) \<Rightarrow> (Inr (conn\<lparr>cn_Client := Some client\<rparr>), kept)))"

definition anonymous_options :: "bool \<Rightarrow> oci_options" where
  "anonymous_options plainHTTP = no_options\<lparr>op_PlainHTTP := plainHTTP\<rparr>"

definition anonymous_key :: "bool \<Rightarrow> string" where
  "anonymous_key plainHTTP = ''anonymous/'' @ (if plainHTTP then ''true'' else ''false'')"

definition anonymous :: "'client Clients \<Rightarrow> Location \<Rightarrow> 'client kept \<Rightarrow> 'client Connection \<times> 'client kept" where
  "anonymous c loc kept =
     (let plainHTTP = (lo_Host loc = ct_bundledHost c) in
      case client_for c (anonymous_key plainHTTP) [] (anonymous_options plainHTTP) kept of
        (client, kept) \<Rightarrow> (empty_connection\<lparr>cn_Host := lo_Host loc, cn_PlainHTTP := plainHTTP, cn_Client := Some client\<rparr>, kept))"

section \<open>Scopes\<close>

datatype 'client Scope =
    ZeroScope
  | StaticScope "string \<rightharpoonup> 'client"
  | ClientScope "Entry list"

fun Scope_Registries :: "'client Scope \<Rightarrow> Registry list" where
  "Scope_Registries (ClientScope entries) = map ey_Registry entries"
| "Scope_Registries _ = []"

definition static_scope :: "(string \<times> 'client) list \<Rightarrow> 'client Scope" where
  "static_scope clients = StaticScope (map_of (rev (map (\<lambda>(host, client). (CanonicalHost host, client)) clients)))"

fun Scope_Connect ::
    "registry_library \<Rightarrow> 'client Clients \<Rightarrow> 'client Scope \<Rightarrow> string \<Rightarrow> 'client kept \<Rightarrow> (registry_error + 'client Connection) \<times> 'client kept" where
  "Scope_Connect lib c scope url kept =
     (case ParseLocation url of
        Inl err \<Rightarrow> (Inl \<lparr>re_Reason = None, re_Message = err\<rparr>, kept)
      | Inr loc \<Rightarrow>
         (case scope of
            StaticScope static \<Rightarrow> (Inr (empty_connection\<lparr>cn_Host := lo_Host loc, cn_Client := static (lo_Host loc)\<rparr>), kept)
          | ZeroScope \<Rightarrow> (Inr empty_connection, kept)
          | ClientScope entries \<Rightarrow>
             (case Match (map ey_Registry entries) url of
                Inl err \<Rightarrow> (Inl \<lparr>re_Reason = None, re_Message = err\<rparr>, kept)
              | Inr None \<Rightarrow> apfst Inr (anonymous c loc kept)
              | Inr (Some reg) \<Rightarrow>
                 (let name = om_Name (Registry_ObjectMeta reg); prefixed = (\<lambda>m. ''registry '' @ go_quote name @ '': '' @ m) in
                  case find (\<lambda>e. om_Name (Registry_ObjectMeta (ey_Registry e)) = name) entries of
                    None \<Rightarrow> (Inl \<lparr>re_Reason = None, re_Message = prefixed ''not in the scope''\<rparr>, kept)
                  | Some entry \<Rightarrow>
                     (case Clients_Connect lib c entry kept of
                        (Inl err, kept) \<Rightarrow> (Inl (err\<lparr>re_Message := prefixed (re_Message err)\<rparr>), kept)
                      | (Inr conn, kept) \<Rightarrow> (Inr conn, kept))))))"

declare Scope_Connect.simps [simp del]

text \<open>Whether a reference read through a connection is private; resolving a reference with a client is an argument.\<close>

definition without_certificates :: "tls_config option \<Rightarrow> tls_config option" where
  "without_certificates tls = map_option (\<lambda>t. t\<lparr>tl_Certificates := []\<rparr>) tls"

definition Private ::
    "'client Clients \<Rightarrow> ('client \<Rightarrow> 'ref \<Rightarrow> bool) \<Rightarrow> 'client Scope \<Rightarrow> 'client Connection \<Rightarrow> 'ref \<Rightarrow> 'client kept \<Rightarrow> bool \<times> 'client kept" where
  "Private c resolves scope conn ref kept =
     (case (scope, cn_Registry conn) of
        (ClientScope _, Some reg) \<Rightarrow>
          if \<not> Authenticated conn then (False, kept)
          else (case client_for c (om_UID (Registry_ObjectMeta reg) @ ''/anonymous'') (cn_version conn)
              (no_options\<lparr>op_PlainHTTP := cn_PlainHTTP conn, op_TLSConfig := without_certificates (cn_TLSConfig conn)\<rparr>) kept of
            (client, kept) \<Rightarrow> (\<not> resolves client ref, kept))
      | _ \<Rightarrow> (False, kept))"

section \<open>The resolver\<close>

record registry_reader =
  rd_Registry :: "string \<Rightarrow> string \<Rightarrow> read_failure + Registry"
  rd_Secret :: "string \<Rightarrow> string \<Rightarrow> read_failure + secret"

text \<open>Reading a Secret a Registry names, if it names one.\<close>

definition read_secret :: "registry_reader \<Rightarrow> string \<Rightarrow> local_object_reference option \<Rightarrow> registry_error + secret option" where
  "read_secret r ns ref =
     (case ref of
        None \<Rightarrow> Inr None
      | Some name \<Rightarrow>
         (case rd_Secret r ns name of
            Inl (NotFound _) \<Rightarrow> Inl (SecretNotFound name)
          | Inl (GetFailed err) \<Rightarrow> Inl \<lparr>re_Reason = None, re_Message = ''read Secret '' @ go_quote name @ '': '' @ err\<rparr>
          | Inr s \<Rightarrow> Inr (Some s)))"

definition entry_of :: "registry_reader \<Rightarrow> Registry \<Rightarrow> Entry" where
  "entry_of r reg =
     (let ns = om_Namespace (Registry_ObjectMeta reg); empty = \<lparr>ey_Registry = reg, ey_Secret = None, ey_CertSecret = None, ey_Err = None\<rparr> in
      case read_secret r ns (RegistrySpec_SecretRef (Registry_Spec reg)) of
        Inl err \<Rightarrow> empty\<lparr>ey_Err := Some err\<rparr>
      | Inr s \<Rightarrow>
         (case read_secret r ns (RegistrySpec_CertSecretRef (Registry_Spec reg)) of
            Inl err \<Rightarrow> empty\<lparr>ey_Secret := s, ey_Err := Some err\<rparr>
          | Inr t \<Rightarrow> empty\<lparr>ey_Secret := s, ey_CertSecret := t\<rparr>))"

fun scope_entries :: "registry_reader \<Rightarrow> string \<Rightarrow> local_object_reference list \<Rightarrow> registry_error + Entry list" where
  "scope_entries r ns [] = Inr []"
| "scope_entries r ns (ref # refs) =
     (case rd_Registry r ns ref of
        Inl (NotFound _) \<Rightarrow> Inl (RegistryNotFound ref)
      | Inl (GetFailed err) \<Rightarrow> Inl \<lparr>re_Reason = None, re_Message = ''failed to get Registry '' @ go_quote ref @ '': '' @ err\<rparr>
      | Inr reg \<Rightarrow> map_sum id ((#) (entry_of r reg)) (scope_entries r ns refs))"

definition Resolver_Scope :: "registry_reader \<Rightarrow> string \<Rightarrow> local_object_reference list \<Rightarrow> registry_error + 'client Scope" where
  "Resolver_Scope r ns refs = map_sum id ClientScope (scope_entries r ns refs)"

definition Resolver_Connect ::
    "registry_library \<Rightarrow> 'client Clients \<Rightarrow> registry_reader \<Rightarrow> Registry \<Rightarrow> 'client kept \<Rightarrow> (registry_error + 'client Connection) \<times> 'client kept" where
  "Resolver_Connect lib c r reg kept = Clients_Connect lib c (entry_of r reg) kept"

text \<open>Through the Registries the fallback names, which may fail.\<close>

definition connect_fallback ::
    "registry_library \<Rightarrow> 'client Clients \<Rightarrow> registry_reader \<Rightarrow> string \<Rightarrow> string \<Rightarrow> string + local_object_reference list \<Rightarrow>
     'client kept \<Rightarrow> (registry_error + 'client Connection) \<times> 'client kept" where
  "connect_fallback lib c r ns url fallback kept =
     (case fallback of
        Inl err \<Rightarrow> (Inl \<lparr>re_Reason = None, re_Message = err\<rparr>, kept)
      | Inr refs \<Rightarrow> (case Resolver_Scope r ns refs of Inl err \<Rightarrow> (Inl err, kept) | Inr scope \<Rightarrow> Scope_Connect lib c scope url kept))"

definition ConnectRecorded ::
    "registry_library \<Rightarrow> 'client Clients \<Rightarrow> registry_reader \<Rightarrow> string \<Rightarrow> local_object_reference option \<Rightarrow> string \<Rightarrow>
     string + local_object_reference list \<Rightarrow> 'client kept \<Rightarrow> (registry_error + 'client Connection) \<times> 'client kept" where
  "ConnectRecorded lib c r ns recorded url fallback kept =
     (case recorded of
        None \<Rightarrow> connect_fallback lib c r ns url fallback kept
      | Some name \<Rightarrow>
         (case Resolver_Scope r ns [name] of
            Inl err \<Rightarrow> if registry_Reason err [] \<noteq> ReasonRegistryNotFound then (Inl err, kept)
              else connect_fallback lib c r ns url fallback kept
          | Inr scope \<Rightarrow>
             (case Scope_Connect lib c scope url kept of
                (Inl err, kept) \<Rightarrow> (Inl err, kept)
              | (Inr conn, kept) \<Rightarrow> if cn_Registry conn \<noteq> None then (Inr conn, kept)
                  else connect_fallback lib c r ns url fallback kept)))"

end
