(* ===== verification/Registry_Safety.thy ===== *)
theory Registry_Safety
  imports Registry_Clients
begin

text \<open>
  What connecting to registries promises: credentials go only to the host of the Registry that covers the
  location with the longest path, the docker config entry that is used does not depend on the order of the
  entries, and a kept client is one built for the Registry and the Secrets as they are.
\<close>

section \<open>The best key of a docker config\<close>

text \<open>A candidate: a key that matches, with its entry and its score. The best has the highest score, then the least key.\<close>

definition beats :: "string \<times> 'e \<times> int \<Rightarrow> string \<times> 'e \<times> int \<Rightarrow> bool" where
  "beats a b \<longleftrightarrow> snd (snd a) > snd (snd b) \<or> snd (snd a) = snd (snd b) \<and> fst a \<le> fst b"

lemma beats_total: "beats a b \<or> beats b a"
  unfolding beats_def by (meson linear linorder_less_linear)

lemma beats_trans: "beats a b \<Longrightarrow> beats b c \<Longrightarrow> beats a c"
  unfolding beats_def by force

lemma beats_refl [simp]: "beats a a"
  by (simp add: beats_def)

definition candidates :: "registry_library \<Rightarrow> Location \<Rightarrow> (string \<times> dockerConfigEntry) list \<Rightarrow> (string \<times> dockerConfigEntry \<times> int) set" where
  "candidates lib loc auths = {(k, e, s). (k, e) \<in> set auths \<and> keyMatch lib k loc = Some s}"

definition best_key ::
    "(string \<times> dockerConfigEntry \<times> int) set \<Rightarrow> (string \<times> dockerConfigEntry \<times> int) option \<Rightarrow> bool" where
  "best_key cs best = (case best of None \<Rightarrow> cs = {} | Some b \<Rightarrow> b \<in> cs \<and> (\<forall>c\<in>cs. beats b c))"

lemma candidates_snoc:
  "candidates lib loc (auths @ [(k, e)]) =
     (case keyMatch lib k loc of None \<Rightarrow> candidates lib loc auths | Some s \<Rightarrow> insert (k, e, s) (candidates lib loc auths))"
  by (auto simp: candidates_def split: option.splits)

lemma key_turn_best:
  assumes "best_key (candidates lib loc auths) best" "k \<notin> fst ` set auths"
  shows "best_key (candidates lib loc (auths @ [(k, e)])) (key_turn lib loc best (k, e))"
proof (cases "keyMatch lib k loc")
  case None
  then show ?thesis using assms by (simp add: candidates_snoc key_turn_def)
next
  case (Some s)
  show ?thesis
  proof (cases best)
    case None
    then show ?thesis using assms Some by (simp add: candidates_snoc key_turn_def best_key_def)
  next
    case (Some b)
    obtain bk be bs where b: "b = (bk, be, bs)" by (cases b)
    have bc: "(bk, be, bs) \<in> candidates lib loc auths" and win: "\<forall>c\<in>candidates lib loc auths. beats (bk, be, bs) c"
      using assms(1) Some b by (simp_all add: best_key_def)
    show ?thesis
    proof (cases "s > bs \<or> s = bs \<and> k < bk")
      case True
      then have new: "beats (k, e, s) (bk, be, bs)" by (auto simp: beats_def)
      have "\<forall>c\<in>candidates lib loc auths. beats (k, e, s) c" using win beats_trans [OF new] by blast
      then show ?thesis using True Some b \<open>keyMatch lib k loc = Some s\<close>
        by (simp add: candidates_snoc key_turn_def best_key_def)
    next
      case False
      then have "beats (bk, be, bs) (k, e, s)" by (auto simp: beats_def)
      moreover have "key_turn lib loc best (k, e) = best"
        using False Some b \<open>keyMatch lib k loc = Some s\<close> by (auto simp: key_turn_def)
      ultimately show ?thesis using bc win Some b \<open>keyMatch lib k loc = Some s\<close>
        by (simp add: candidates_snoc best_key_def)
    qed
  qed
qed

lemma key_fold_best:
  "best_key (candidates lib loc seen) best \<Longrightarrow> distinct (map fst (seen @ auths)) \<Longrightarrow>
   best_key (candidates lib loc (seen @ auths)) (foldl (key_turn lib loc) best auths)"
proof (induction auths arbitrary: seen best)
  case (Cons a auths)
  obtain k e where a: "a = (k, e)" by fastforce
  have "best_key (candidates lib loc (seen @ [a])) (key_turn lib loc best a)"
    using key_turn_best [OF Cons.prems(1), of k e] Cons.prems(2) a by auto
  then show ?case using Cons.IH [of "seen @ [a]"] Cons.prems(2) by simp
qed simp

lemma best_key_unique:
  assumes "best_key (candidates lib loc auths) a" "best_key (candidates lib loc auths) b" "distinct (map fst auths)"
  shows "a = b"
proof (cases "a = None \<or> b = None")
  case True
  then show ?thesis using assms(1,2) by (auto simp: best_key_def split: option.splits)
next
  case False
  then obtain x y where ab: "a = Some x" "b = Some y" by auto
  then have in_x: "x \<in> candidates lib loc auths" and in_y: "y \<in> candidates lib loc auths" and "beats x y" "beats y x"
    using assms(1,2) by (auto simp: best_key_def)
  then have "fst x = fst y" "snd (snd x) = snd (snd y)" by (auto simp: beats_def)
  moreover have "fst (snd x) = fst (snd y)"
    using in_x in_y assms(3) \<open>fst x = fst y\<close> by (auto simp: candidates_def dest: eq_key_imp_eq_value)
  ultimately show ?thesis using ab by (simp add: prod_eq_iff)
qed

lemma key_fold_exact:
  assumes "distinct (map fst auths)"
  shows "best_key (candidates lib loc auths) best \<longleftrightarrow> foldl (key_turn lib loc) None auths = best"
proof -
  have "best_key (candidates lib loc []) None" by (simp add: best_key_def candidates_def)
  from key_fold_best [OF this, of auths] have "best_key (candidates lib loc auths) (foldl (key_turn lib loc) None auths)"
    using assms by simp
  then show ?thesis using best_key_unique [OF _ _ assms] by blast
qed

lemma key_fold_permuted:
  assumes "distinct (map fst auths)" "mset auths = mset others"
  shows "foldl (key_turn lib loc) None auths = foldl (key_turn lib loc) None others"
proof -
  have "distinct (map fst others)" using assms by (metis mset_eq_imp_distinct_iff mset_map)
  moreover have "candidates lib loc auths = candidates lib loc others" using mset_eq_setD [OF assms(2)] by (simp add: candidates_def)
  ultimately show ?thesis using key_fold_exact [OF assms(1)] key_fold_exact by metis
qed

section \<open>Kept clients\<close>

text \<open>What each version of each UID stands for: the options a client of it is built from.\<close>

type_synonym versions = "string \<Rightarrow> string \<Rightarrow> oci_options"

definition kept_for :: "versions \<Rightarrow> 'client Clients \<Rightarrow> 'client kept \<Rightarrow> bool" where
  "kept_for w c kept \<longleftrightarrow> (\<forall>uid v client. kept uid = Some (v, client) \<longrightarrow> client = ct_newClient c (w uid v))"

lemma kept_for_empty [simp]: "kept_for w c Map.empty"
  by (simp add: kept_for_def)

lemma client_for_kept:
  assumes "client_for c uid v opts kept = (client, kept')" "kept_for w c kept" "w uid v = opts"
  shows "client = ct_newClient c opts \<and> kept_for w c kept'"
  using assms by (auto simp: client_for_def kept_for_def Let_def split: option.splits if_splits prod.splits)

text \<open>The versions of a Registry and its Secrets tell apart what connections are built from.\<close>

definition versioned_entry :: "registry_library \<Rightarrow> versions \<Rightarrow> 'client Clients \<Rightarrow> Entry \<Rightarrow> bool" where
  "versioned_entry lib w c e \<longleftrightarrow>
     (\<forall>conn :: 'client Connection. entry_connection lib e = Inr conn \<longrightarrow>
        w (om_UID (Registry_ObjectMeta (ey_Registry e))) (cn_version conn) = connection_options conn)"

definition anonymous_versions :: "versions \<Rightarrow> bool" where
  "anonymous_versions w \<longleftrightarrow> (\<forall>b. w (anonymous_key b) [] = anonymous_options b)"

lemma connection_options_client [simp]: "connection_options (conn\<lparr>cn_Client := client\<rparr>) = connection_options conn"
  by (simp add: connection_options_def)

lemma Clients_Connect_kept:
  assumes "Clients_Connect lib c entry kept = (result, kept')" "kept_for w c kept" "versioned_entry lib w c entry"
  shows "kept_for w c kept' \<and> (\<forall>conn. result = Inr conn \<longrightarrow> cn_Client conn = Some (ct_newClient c (connection_options conn)))"
proof (cases "entry_connection lib entry :: registry_error + 'a Connection")
  case (Inl err)
  then show ?thesis using assms(1,2) by (auto simp: Clients_Connect_def)
next
  case (Inr conn)
  obtain client k where client: "client_for c (om_UID (Registry_ObjectMeta (ey_Registry entry))) (cn_version conn) (connection_options conn) kept = (client, k)"
    by fastforce
  have "client = ct_newClient c (connection_options conn) \<and> kept_for w c k"
    using client_for_kept [OF client assms(2)] assms(3) Inr by (simp add: versioned_entry_def)
  then show ?thesis using assms(1) Inr client by (auto simp: Clients_Connect_def)
qed

lemma anonymous_kept:
  assumes "anonymous c loc kept = (conn, kept')" "kept_for w c kept" "anonymous_versions w"
  shows "kept_for w c kept' \<and> cn_Client conn = Some (ct_newClient c (anonymous_options (cn_PlainHTTP conn)))
    \<and> cn_Registry conn = None \<and> cn_Credential conn = EmptyCredential \<and> cn_TLSConfig conn = None \<and> cn_Host conn = lo_Host loc"
proof -
  let ?b = "lo_Host loc = ct_bundledHost c"
  obtain client k where client: "client_for c (anonymous_key ?b) [] (anonymous_options ?b) kept = (client, k)" by fastforce
  have "client = ct_newClient c (anonymous_options ?b) \<and> kept_for w c k"
    using client_for_kept [OF client assms(2)] assms(3) by (simp add: anonymous_versions_def)
  then show ?thesis using assms(1) client by (auto simp: anonymous_def Let_def empty_connection_def)
qed

section \<open>Connecting through a Scope\<close>

text \<open>The connection is through an entry that covers the location, with the longest path among those that do, or anonymous.\<close>

definition through_entry :: "registry_library \<Rightarrow> Entry list \<Rightarrow> Location \<Rightarrow> 'client Connection \<Rightarrow> bool" where
  "through_entry lib entries target conn \<longleftrightarrow>
     (\<exists>e\<in>set entries. \<exists>loc v. cn_Registry conn = Some (ey_Registry e) \<and> ey_Err e = None
        \<and> ParseLocation (RegistrySpec_URL (Registry_Spec (ey_Registry e))) = Inr loc \<and> Covers loc target
        \<and> (\<forall>q\<in>set entries. registry_covers (ey_Registry q) target \<longrightarrow> path_length (ey_Registry q) \<le> path_length (ey_Registry e))
        \<and> entry_credential lib e loc = Inr (cn_Credential conn, v)
        \<and> cn_Host conn = lo_Host loc)"

definition not_through_any :: "Entry list \<Rightarrow> Location \<Rightarrow> 'client Connection \<Rightarrow> bool" where
  "not_through_any entries target conn \<longleftrightarrow>
     (\<forall>e\<in>set entries. \<not> registry_covers (ey_Registry e) target)
     \<and> cn_Registry conn = None \<and> cn_Credential conn = EmptyCredential \<and> cn_TLSConfig conn = None \<and> cn_Host conn = lo_Host target"

lemma entry_connection_parts:
  assumes "entry_connection lib e = Inr conn"
  shows "\<exists>loc v. ey_Err e = None \<and> ParseLocation (RegistrySpec_URL (Registry_Spec (ey_Registry e))) = Inr loc
     \<and> cn_Registry conn = Some (ey_Registry e) \<and> cn_Host conn = lo_Host loc
     \<and> entry_credential lib e loc = Inr (cn_Credential conn, v)"
proof -
  obtain loc cred v tls where parts: "ey_Err e = None" "ParseLocation (RegistrySpec_URL (Registry_Spec (ey_Registry e))) = Inr loc"
      "entry_credential lib e loc = Inr (cred, v)" "entry_tls lib e = Inr tls"
    using assms by (auto simp: entry_connection_def Let_def split: option.splits sum.splits prod.splits)
  then show ?thesis using assms
    by (cases tls) (auto simp: entry_connection_def Let_def empty_connection_def)
qed

text \<open>What is looked up by name is the entry itself: no two entries carry the same name with another Registry.\<close>

definition names_identify :: "Entry list \<Rightarrow> bool" where
  "names_identify entries \<longleftrightarrow> (\<forall>a\<in>set entries. \<forall>b\<in>set entries.
     om_Name (Registry_ObjectMeta (ey_Registry a)) = om_Name (Registry_ObjectMeta (ey_Registry b)) \<longrightarrow> a = b)"

lemma Scope_Connect_cases:
  assumes "Scope_Connect lib c (ClientScope entries) url kept = (Inr conn, kept')" "ParseLocation url = Inr target"
    and "names_identify entries"
  shows "(\<exists>e\<in>set entries. registry_covers (ey_Registry e) target
        \<and> (\<forall>q\<in>set entries. registry_covers (ey_Registry q) target \<longrightarrow> path_length (ey_Registry q) \<le> path_length (ey_Registry e))
        \<and> Clients_Connect lib c e kept = (Inr conn, kept'))
    \<or> (\<forall>e\<in>set entries. \<not> registry_covers (ey_Registry e) target) \<and> anonymous c target kept = (conn, kept')"
proof -
  obtain found where match: "Match (map ey_Registry entries) url = Inr found"
    using assms(1,2) by (auto simp: Scope_Connect.simps split: sum.splits)
  have best: "case found of None \<Rightarrow> \<forall>r\<in>set (map ey_Registry entries). \<not> registry_covers r target
    | Some r \<Rightarrow> r \<in> set (map ey_Registry entries) \<and> registry_covers r target
        \<and> (\<forall>q\<in>set (map ey_Registry entries). registry_covers q target \<longrightarrow> path_length q \<le> path_length r)"
    by (rule Match_best [OF match assms(2)])
  show ?thesis
  proof (cases found)
    case None
    then show ?thesis using assms(1,2) match best
      by (cases "anonymous c target kept") (simp add: Scope_Connect.simps)
  next
    case (Some reg)
    let ?name = "\<lambda>e. om_Name (Registry_ObjectMeta (ey_Registry e))"
    obtain e where e: "e \<in> set entries" "ey_Registry e = reg" using best Some by auto
    then obtain f where f: "find (\<lambda>x. ?name x = om_Name (Registry_ObjectMeta reg)) entries = Some f"
      using find_dom [of "\<lambda>x. ?name x = om_Name (Registry_ObjectMeta reg)" entries] by auto
    then have "f = e" using find_SomeD [OF f] e assms(3) by (auto simp: names_identify_def)
    then have "Clients_Connect lib c e kept = (Inr conn, kept')"
      using assms(1,2) match Some f e by (auto simp: Scope_Connect.simps Let_def split: prod.splits sum.splits)
    then show ?thesis using e best Some by auto
  qed
qed

lemma Scope_Connect_through:
  assumes "Scope_Connect lib c (ClientScope entries) url kept = (Inr conn, kept')" "ParseLocation url = Inr target"
    and "names_identify entries"
  shows "through_entry lib entries target conn \<or> not_through_any entries target conn"
  using Scope_Connect_cases [OF assms]
proof (elim disjE bexE conjE)
  fix e assume e: "e \<in> set entries" "registry_covers (ey_Registry e) target"
    "\<forall>q\<in>set entries. registry_covers (ey_Registry q) target \<longrightarrow> path_length (ey_Registry q) \<le> path_length (ey_Registry e)"
    and connect: "Clients_Connect lib c e kept = (Inr conn, kept')"
  obtain built client where built: "entry_connection lib e = Inr built" and conn: "conn = built\<lparr>cn_Client := Some client\<rparr>"
    using connect by (auto simp: Clients_Connect_def split: sum.splits prod.splits)
  show ?thesis using entry_connection_parts [OF built] e conn by (auto simp: through_entry_def registry_covers_def)
next
  assume none: "\<forall>e\<in>set entries. \<not> registry_covers (ey_Registry e) target" and anon: "anonymous c target kept = (conn, kept')"
  show ?thesis using none anon by (auto simp: not_through_any_def anonymous_def Let_def empty_connection_def split: prod.splits)
qed

lemma Scope_Connect_kept:
  assumes "Scope_Connect lib c (ClientScope entries) url kept = (Inr conn, kept')" "ParseLocation url = Inr target"
    and "names_identify entries" "kept_for w c kept" "anonymous_versions w" "\<forall>e\<in>set entries. versioned_entry lib w c e"
  shows "kept_for w c kept' \<and> (cn_Registry conn \<noteq> None \<longrightarrow> cn_Client conn = Some (ct_newClient c (connection_options conn)))
    \<and> (cn_Registry conn = None \<longrightarrow> cn_Client conn = Some (ct_newClient c (anonymous_options (cn_PlainHTTP conn))))"
  using Scope_Connect_cases [OF assms(1-3)]
proof (elim disjE bexE conjE)
  fix e assume e: "e \<in> set entries" and connect: "Clients_Connect lib c e kept = (Inr conn, kept')"
  obtain built client where built: "entry_connection lib e = Inr built" and conn: "conn = built\<lparr>cn_Client := Some client\<rparr>"
    using connect by (auto simp: Clients_Connect_def split: sum.splits prod.splits)
  then have "cn_Registry conn \<noteq> None" using entry_connection_parts [OF built] by auto
  then show ?thesis using Clients_Connect_kept [OF connect assms(4)] assms(6) e by auto
next
  assume "anonymous c target kept = (conn, kept')"
  then show ?thesis using anonymous_kept [OF _ assms(4,5)] by simp
qed

lemma Private_kept:
  assumes "Private c resolves scope conn ref kept = (private, kept')" "kept_for w c kept"
    and "\<And>reg. cn_Registry conn = Some reg \<Longrightarrow> w (om_UID (Registry_ObjectMeta reg) @ ''/anonymous'') (cn_version conn)
           = no_options\<lparr>op_PlainHTTP := cn_PlainHTTP conn, op_TLSConfig := without_certificates (cn_TLSConfig conn)\<rparr>"
  shows "kept_for w c kept'"
proof (cases "(\<exists>es. scope = ClientScope es) \<and> Authenticated conn \<and> cn_Registry conn \<noteq> None")
  case False
  then show ?thesis using assms(1,2) by (auto simp: Private_def split: Scope.splits option.splits if_splits)
next
  case True
  then obtain es reg where scope: "scope = ClientScope es" "cn_Registry conn = Some reg" "Authenticated conn" by auto
  obtain client k where client: "client_for c (om_UID (Registry_ObjectMeta reg) @ ''/anonymous'') (cn_version conn)
      (no_options\<lparr>op_PlainHTTP := cn_PlainHTTP conn, op_TLSConfig := without_certificates (cn_TLSConfig conn)\<rparr>) kept = (client, k)"
    by fastforce
  then show ?thesis using client_for_kept [OF client assms(2)] assms(1,3) scope by (simp add: Private_def)
qed

section \<open>The resolver\<close>

lemma scope_entries_read:
  "scope_entries r ns refs = Inr entries \<Longrightarrow> map Inr entries = map (\<lambda>ref. map_sum id (entry_of r) (rd_Registry r ns ref)) refs"
proof (induction refs arbitrary: entries)
  case (Cons ref refs)
  then obtain reg rest where "rd_Registry r ns ref = Inr reg" "scope_entries r ns refs = Inr rest" "entries = entry_of r reg # rest"
    by (cases "rd_Registry r ns ref"; cases "scope_entries r ns refs") (auto split: read_failure.splits)
  then show ?case using Cons.IH by simp
qed simp

lemma ey_Registry_entry_of [simp]: "ey_Registry (entry_of r reg) = reg"
  by (simp add: entry_of_def Let_def split: sum.splits)

text \<open>Reading an object by name returns the object of that name.\<close>

definition reads_by_name :: "registry_reader \<Rightarrow> bool" where
  "reads_by_name r \<longleftrightarrow> (\<forall>ns n reg. rd_Registry r ns n = Inr reg \<longrightarrow> om_Name (Registry_ObjectMeta reg) = n)"

lemma scope_entries_identify:
  assumes "scope_entries r ns refs = Inr entries" "reads_by_name r"
  shows "names_identify entries"
proof -
  have read: "\<exists>reg. e = entry_of r reg \<and> rd_Registry r ns (om_Name (Registry_ObjectMeta reg)) = Inr reg" if e: "e \<in> set entries" for e
  proof -
    have "Inr e \<in> set (map (\<lambda>ref. map_sum id (entry_of r) (rd_Registry r ns ref)) refs)"
      using scope_entries_read [OF assms(1)] e by (metis imageI list.set_map)
    then obtain ref where "map_sum id (entry_of r) (rd_Registry r ns ref) = Inr e" by auto
    then obtain reg where "rd_Registry r ns ref = Inr reg" "e = entry_of r reg" by (cases "rd_Registry r ns ref") auto
    then show ?thesis using assms(2) by (auto simp: reads_by_name_def)
  qed
  show ?thesis unfolding names_identify_def
  proof (intro ballI impI)
    fix a b assume ab: "a \<in> set entries" "b \<in> set entries"
      and same: "om_Name (Registry_ObjectMeta (ey_Registry a)) = om_Name (Registry_ObjectMeta (ey_Registry b))"
    obtain q where q: "a = entry_of r q" "rd_Registry r ns (om_Name (Registry_ObjectMeta q)) = Inr q" using read [OF ab(1)] by blast
    obtain p where p: "b = entry_of r p" "rd_Registry r ns (om_Name (Registry_ObjectMeta p)) = Inr p" using read [OF ab(2)] by blast
    have "om_Name (Registry_ObjectMeta q) = om_Name (Registry_ObjectMeta p)" using same unfolding q(1) p(1) by simp
    then have "(Inr q :: read_failure + Registry) = Inr p" using q(2) p(2) by metis
    then show "a = b" using q(1) p(1) by simp
  qed
qed

end
