(* ===== verification/Registry_Access.thy ===== *)
theory Registry_Access
  imports Registry_Clients Api_Preparation
begin

text \<open>
  The registry locations an Order and a Product access (\<open>internal/registry/access.go\<close>). The map in which an
  Order's are collected is the list of its keys in the order they were added; the code visits it in any
  order, so of entries that differ in their Registry only the order is the model's choice.
\<close>

record 'client OrderLocations =
  ol_Product :: "'client Scope"
  ol_Source :: string
  ol_SourceConn :: "'client Connection"
  ol_Destination :: string
  ol_DestinationConn :: "'client Connection"
  ol_ImagesVendorURL :: string
  ol_Images :: "PreparationImage list"

fun client_string :: "RegistryClient \<Rightarrow> string" where
  "client_string RegistryClientUnset = []"
| "client_string RegistryClientKokumi = ''Kokumi''"
| "client_string RegistryClientArgoCD = ''ArgoCD''"
| "client_string RegistryClientKubelet = ''Kubelet''"

fun operation_string :: "RegistryOperation \<Rightarrow> string" where
  "operation_string RegistryOperationUnset = []"
| "operation_string RegistryOperationPull = ''Pull''"
| "operation_string RegistryOperationPush = ''Push''"

definition access_compare :: "RegistryAccess \<Rightarrow> RegistryAccess \<Rightarrow> int" where
  "access_compare a b =
     cmp_or [str_compare (RegistryAccess_URL a) (RegistryAccess_URL b),
             str_compare (client_string (RegistryAccess_Client a)) (client_string (RegistryAccess_Client b)),
             str_compare (operation_string (RegistryAccess_Operation a)) (operation_string (RegistryAccess_Operation b))]"

definition add_access :: "string \<Rightarrow> RegistryOperation \<Rightarrow> RegistryClient \<Rightarrow> string \<Rightarrow> RegistryAccess list \<Rightarrow> RegistryAccess list" where
  "add_access url oper who registryName keys =
     (let a = \<lparr>RegistryAccess_URL = url, RegistryAccess_Operation = oper, RegistryAccess_Client = who, RegistryAccess_Registry = registryName\<rparr>
      in if a \<in> set keys then keys else keys @ [a])"

definition registryOf :: "Registry list \<Rightarrow> string \<Rightarrow> string" where
  "registryOf registries url =
     (case Match registries url of Inr (Some reg) \<Rightarrow> om_Name (Registry_ObjectMeta reg) | _ \<Rightarrow> [])"

fun urlOf :: "Registry list \<Rightarrow> string \<Rightarrow> string" where
  "urlOf [] name = []"
| "urlOf (reg # regs) name = (if om_Name (Registry_ObjectMeta reg) = name then RegistrySpec_URL (Registry_Spec reg) else urlOf regs name)"

definition image_access :: "Registry list \<Rightarrow> string \<Rightarrow> PreparationImage \<Rightarrow> RegistryAccess list \<Rightarrow> RegistryAccess list" where
  "image_access registries vendorImages img keys =
     (case ParseLocation (PreparationImage_Name img) of
        Inl _ \<Rightarrow> keys
      | Inr loc \<Rightarrow>
          let reg = registryOf registries (PreparationImage_Name img);
              upstream = (if reg \<noteq> [] then urlOf registries reg else ''oci://'' @ lo_Host loc);
              keys = add_access upstream RegistryOperationPull RegistryClientKokumi reg keys
          in if PreparationImage_Vendored img \<noteq> [] \<and> vendorImages \<noteq> []
             then add_access vendorImages RegistryOperationPull RegistryClientKubelet []
               (add_access vendorImages RegistryOperationPush RegistryClientKokumi (registryOf registries vendorImages) keys)
             else add_access (''oci://'' @ lo_Host loc) RegistryOperationPull RegistryClientKubelet [] keys)"

definition access_keys :: "'client OrderLocations \<Rightarrow> RegistryAccess list" where
  "access_keys l =
     (let registries = Scope_Registries (ol_Product l);
          vendorImages = (if ol_ImagesVendorURL l \<noteq> [] then ol_ImagesVendorURL l @ ''/images'' else []);
          keys = add_access (ol_Source l) RegistryOperationPull RegistryClientKokumi (RegistryName (ol_SourceConn l)) [];
          keys = add_access (ol_Destination l) RegistryOperationPush RegistryClientKokumi (RegistryName (ol_DestinationConn l)) keys;
          keys = add_access (ol_Destination l) RegistryOperationPull RegistryClientArgoCD [] keys
      in foldl (\<lambda>keys img. image_access registries vendorImages img keys) keys (ol_Images l))"

definition OrderAccess :: "'client OrderLocations \<Rightarrow> RegistryAccess list" where
  "OrderAccess l = sort_cmp access_compare (access_keys l)"

definition ProductAccess :: "string \<Rightarrow> 'client Connection \<Rightarrow> string \<Rightarrow> 'client Connection \<Rightarrow> RegistryAccess list" where
  "ProductAccess source sourceConn vendor vendorConn =
     [\<lparr>RegistryAccess_URL = source, RegistryAccess_Operation = RegistryOperationPull, RegistryAccess_Client = RegistryClientKokumi,
       RegistryAccess_Registry = RegistryName sourceConn\<rparr>]
     @ (if vendor \<noteq> []
        then [\<lparr>RegistryAccess_URL = vendor, RegistryAccess_Operation = RegistryOperationPush, RegistryAccess_Client = RegistryClientKokumi,
               RegistryAccess_Registry = RegistryName vendorConn\<rparr>]
        else [])"

section \<open>What is listed\<close>

lemma add_access_set: "set (add_access url oper who reg keys) = insert \<lparr>RegistryAccess_URL = url, RegistryAccess_Operation = oper,
    RegistryAccess_Client = who, RegistryAccess_Registry = reg\<rparr> (set keys)"
  by (auto simp: add_access_def Let_def)

lemma add_access_distinct: "distinct keys \<Longrightarrow> distinct (add_access url oper who reg keys)"
  by (simp add: add_access_def Let_def)

lemma image_access_distinct: "distinct keys \<Longrightarrow> distinct (image_access registries vendorImages img keys)"
  by (simp add: image_access_def Let_def add_access_distinct split: sum.split)

lemma image_access_grows: "set keys \<subseteq> set (image_access registries vendorImages img keys)"
  by (auto simp: image_access_def Let_def add_access_set split: sum.split)

lemma image_accesses_distinct: "distinct keys \<Longrightarrow> distinct (foldl (\<lambda>keys img. image_access registries vendorImages img keys) keys imgs)"
  by (induction imgs arbitrary: keys) (simp_all add: image_access_distinct)

lemma image_accesses_grow: "set keys \<subseteq> set (foldl (\<lambda>keys img. image_access registries vendorImages img keys) keys imgs)"
proof (induction imgs arbitrary: keys)
  case (Cons img imgs)
  then show ?case using image_access_grows [of keys registries vendorImages img] by (simp add: order_trans)
qed simp

lemma OrderAccess_distinct: "distinct (OrderAccess l)"
  by (simp add: OrderAccess_def access_keys_def Let_def image_accesses_distinct add_access_distinct)

text \<open>The kubelet pulls every image: from the vendor location when it was vendored, from its own host otherwise.\<close>

definition kubelet_location :: "string \<Rightarrow> PreparationImage \<Rightarrow> Location \<Rightarrow> string" where
  "kubelet_location vendorURL img loc =
     (if PreparationImage_Vendored img \<noteq> [] \<and> vendorURL \<noteq> [] then vendorURL @ ''/images'' else ''oci://'' @ lo_Host loc)"

lemma image_listed:
  assumes "img \<in> set imgs" "ParseLocation (PreparationImage_Name img) = Inr loc"
  shows "\<lparr>RegistryAccess_URL = kubelet_location vendorURL img loc, RegistryAccess_Operation = RegistryOperationPull,
      RegistryAccess_Client = RegistryClientKubelet, RegistryAccess_Registry = []\<rparr>
    \<in> set (foldl (\<lambda>keys img. image_access registries (if vendorURL \<noteq> [] then vendorURL @ ''/images'' else []) img keys) keys imgs)"
  using assms(1)
proof (induction imgs arbitrary: keys)
  case (Cons x imgs)
  let ?vendor = "if vendorURL \<noteq> [] then vendorURL @ ''/images'' else []"
  show ?case
  proof (cases "x = img")
    case True
    have "\<lparr>RegistryAccess_URL = kubelet_location vendorURL img loc, RegistryAccess_Operation = RegistryOperationPull,
        RegistryAccess_Client = RegistryClientKubelet, RegistryAccess_Registry = []\<rparr> \<in> set (image_access registries ?vendor img keys)"
      using assms(2) by (simp add: image_access_def Let_def add_access_set kubelet_location_def)
    from subsetD [OF image_accesses_grow this] show ?thesis unfolding True foldl_Cons .
  next
    case False
    then show ?thesis using Cons by simp
  qed
qed simp

end
