(* ===== verification/Resolve_Intent.thy ===== *)
theory Resolve_Intent
  imports Resolve_Merge Go_Hash
begin

text \<open>
  The identity of what an Order renders (\<open>internal/resolve\<close>: \<open>intent.go\<close>, \<open>hash.go\<close>, \<open>revision.go\<close>,
  \<open>convert.go\<close>, \<open>render.go\<close>): the canonical JSON of an intent and its SHA-256, the revision of a Product,
  and the inputs of the artifact pipeline. A slice or map that is empty is not nil.
\<close>

section \<open>The JSON of the API types\<close>

fun layout_string :: "FileLayout \<Rightarrow> string" where
  "layout_string FileLayoutUnset = []"
| "layout_string FileLayoutSingle = ''Single''"
| "layout_string FileLayoutMulti = ''Multi''"

fun image_policy_string :: "ImagePolicy \<Rightarrow> string" where
  "image_policy_string ImagePolicyUnset = []"
| "image_policy_string ImagePolicyRecord = ''Record''"
| "image_policy_string ImagePolicyPin = ''Pin''"
| "image_policy_string ImagePolicyVendor = ''Vendor''"

fun severity_string :: "Severity \<Rightarrow> string" where
  "severity_string SeverityUnset = []"
| "severity_string SeverityCritical = ''Critical''"
| "severity_string SeverityHigh = ''High''"
| "severity_string SeverityMedium = ''Medium''"
| "severity_string SeverityLow = ''Low''"

definition omit_int32 :: "string \<Rightarrow> int32 \<Rightarrow> (string \<times> json) list" where
  "omit_int32 key i = omit_if (i = 0) key (json_int (sint i))"

definition omit_list :: "string \<Rightarrow> ('a \<Rightarrow> json) \<Rightarrow> 'a list \<Rightarrow> (string \<times> json) list" where
  "omit_list key f xs = omit_if (xs = []) key (JArr (map f xs))"

definition HelmRender_json :: "HelmRender \<Rightarrow> json" where
  "HelmRender_json h = JObj (omit_string ''releaseName'' (HelmRender_ReleaseName h)
     @ omit_if (\<not> HelmRender_IncludeCRDs h) ''includeCRDs'' (JBool True)
     @ opt_field ''values'' id (HelmRender_Values h))"

definition ManifestRender_json :: "ManifestRender \<Rightarrow> json" where
  "ManifestRender_json m = JObj (omit_string ''layout'' (layout_string (ManifestRender_Layout m)))"

definition Render_json :: "Render \<Rightarrow> json" where
  "Render_json r = JObj (opt_field ''helm'' HelmRender_json (Render_Helm r) @ opt_field ''manifest'' ManifestRender_json (Render_Manifest r))"

definition PatchTarget_json :: "PatchTarget \<Rightarrow> json" where
  "PatchTarget_json t = JObj ([(''kind'', JStr (PatchTarget_Kind t)), (''name'', JStr (PatchTarget_Name t))]
     @ omit_string ''namespace'' (PatchTarget_Namespace t))"

definition Patch_json :: "Patch \<Rightarrow> json" where
  "Patch_json p = JObj [(''target'', PatchTarget_json (Patch_Target p)), (''set'', JObj (map (apsnd JStr) (Patch_Set p)))]"

definition ImageFieldSpec_json :: "ImageFieldSpec \<Rightarrow> json" where
  "ImageFieldSpec_json f = JObj (omit_string ''group'' (ImageFieldSpec_Group f) @ omit_string ''version'' (ImageFieldSpec_Version f)
     @ [(''kind'', JStr (ImageFieldSpec_Kind f)), (''path'', JStr (ImageFieldSpec_Path f))])"

text \<open>The groups are never nil: the API requires at least one, so the null that Go writes for a nil slice does not arise.\<close>

definition ApprovalPolicy_json :: "ApprovalPolicy \<Rightarrow> json" where
  "ApprovalPolicy_json a = JObj [(''requiredApprovals'', json_int (sint (ApprovalPolicy_RequiredApprovals a))),
     (''allowedGroups'', JArr (map JStr (ApprovalPolicy_AllowedGroups a)))]"

definition UpstreamStage_json :: "UpstreamStage \<Rightarrow> json" where
  "UpstreamStage_json s = JObj ([(''order'', JStr (UpstreamStage_Order s))] @ omit_int32 ''soakSeconds'' (UpstreamStage_SoakSeconds s))"

definition VulnerabilityCheck_json :: "VulnerabilityCheck \<Rightarrow> json" where
  "VulnerabilityCheck_json v = JObj ([(''maxSeverity'', JStr (severity_string (VulnerabilityCheck_MaxSeverity v)))]
     @ omit_if (\<not> VulnerabilityCheck_IgnoreUnfixed v) ''ignoreUnfixed'' (JBool True)
     @ omit_int32 ''maxAgeSeconds'' (VulnerabilityCheck_MaxAgeSeconds v))"

definition PromotionChecks_json :: "PromotionChecks \<Rightarrow> json" where
  "PromotionChecks_json c = JObj (opt_field ''vulnerabilities'' VulnerabilityCheck_json (PromotionChecks_Vulnerabilities c))"

definition PromotionGates_json :: "PromotionGates \<Rightarrow> json" where
  "PromotionGates_json g = JObj (opt_field ''approvals'' ApprovalPolicy_json (PromotionGates_Approvals g)
     @ omit_list ''after'' UpstreamStage_json (PromotionGates_After g)
     @ opt_field ''checks'' PromotionChecks_json (PromotionGates_Checks g))"

definition IntentImages_json :: "IntentImages \<Rightarrow> json" where
  "IntentImages_json i = JObj ([(''policy'', JStr (image_policy_string (IntentImages_Policy i)))]
     @ omit_list ''fieldSpecs'' ImageFieldSpec_json (IntentImages_FieldSpecs i)
     @ omit_string ''vendor'' (IntentImages_Vendor i))"

definition IntentSource_json :: "IntentSource \<Rightarrow> json" where
  "IntentSource_json s = JObj [(''oci'', JStr (IntentSource_OCI s)), (''version'', JStr (IntentSource_Version s)),
     (''digest'', JStr (IntentSource_Digest s))]"

definition Intent_json :: "Intent \<Rightarrow> json" where
  "Intent_json i = JObj ([(''source'', IntentSource_json (Intent_Source i)), (''productRevision'', JStr (Intent_ProductRevision i)),
       (''destination'', JStr (Intent_Destination i)), (''targetNamespace'', JStr (Intent_TargetNamespace i))]
     @ opt_field ''render'' Render_json (Intent_Render i)
     @ omit_list ''patches'' Patch_json (Intent_Patches i)
     @ omit_list ''edits'' Patch_json (Intent_Edits i)
     @ opt_field ''images'' IntentImages_json (Intent_Images i)
     @ opt_field ''promotion'' PromotionGates_json (Intent_Promotion i))"

section \<open>Canonical JSON\<close>

text \<open>
  Decoding into \<open>any\<close> and encoding again: of an object's fields of one key the last counts, and the fields are
  sorted by key; numbers keep their literal. The encoder escapes no HTML. Encoding a value that was decoded
  does not fail, so the canonical JSON of what the source encodes always exists.
\<close>

fun last_fields :: "(string \<times> 'v) list \<Rightarrow> (string \<times> 'v) list" where
  "last_fields [] = []"
| "last_fields ((k, v) # fs) = (if k \<in> fst ` set fs then last_fields fs else (k, v) # last_fields fs)"

definition by_key :: "string \<times> 'v \<Rightarrow> string \<times> 'v \<Rightarrow> int" where
  "by_key a b = str_compare (fst a) (fst b)"

fun canonical :: "json \<Rightarrow> json" where
  "canonical (JObj fs) = JObj (sort_cmp by_key (last_fields (map (\<lambda>(k, v). (k, canonical v)) fs)))"
| "canonical (JArr xs) = JArr (map canonical xs)"
| "canonical v = v"

definition canonicalJSON :: "json \<Rightarrow> string" where
  "canonicalJSON v = json_encode False (canonical v)"

definition Intent_Canonical :: "Intent \<Rightarrow> string" where
  "Intent_Canonical i = canonicalJSON (Intent_json i)"

definition CalculateSpecHash :: "string \<Rightarrow> string" where
  "CalculateSpecHash canon = ''sha256:'' @ hex_encode (sha256 canon)"

section \<open>The hash and the revision of a Product\<close>

definition OIDCIdentityMatch_json :: "OIDCIdentityMatch \<Rightarrow> json" where
  "OIDCIdentityMatch_json m = JObj [(''issuer'', JStr (OIDCIdentityMatch_Issuer m)), (''subject'', JStr (OIDCIdentityMatch_Subject m))]"

definition LocalObjectReference_json :: "local_object_reference \<Rightarrow> json" where
  "LocalObjectReference_json n = JObj (omit_string ''name'' n)"

fun verification_provider_string :: "VerificationProvider \<Rightarrow> string" where
  "verification_provider_string VerificationProviderUnset = []"
| "verification_provider_string VerificationProviderCosign = ''cosign''"

definition OCISourceVerification_json :: "OCISourceVerification \<Rightarrow> json" where
  "OCISourceVerification_json v = JObj (omit_string ''provider'' (verification_provider_string (OCISourceVerification_Provider v))
     @ opt_field ''secretRef'' LocalObjectReference_json (OCISourceVerification_SecretRef v)
     @ omit_list ''matchOIDCIdentity'' OIDCIdentityMatch_json (OCISourceVerification_MatchOIDCIdentity v)
     @ opt_field ''trustedRootSecretRef'' LocalObjectReference_json (OCISourceVerification_TrustedRootSecretRef v))"

definition OCISource_json :: "OCISource \<Rightarrow> json" where
  "OCISource_json s = JObj ([(''url'', JStr (OCISource_URL s)), (''version'', JStr (OCISource_Version s))]
     @ opt_field ''verify'' OCISourceVerification_json (OCISource_Verify s))"

definition CalculateProductHash :: "OCISource \<Rightarrow> string \<Rightarrow> string" where
  "CalculateProductHash source vendorURL =
     ''sha256:'' @ hex_encode (sha256 (json_encode True (JObj ([(''source'', OCISource_json source)] @ omit_string ''vendorURL'' vendorURL))))"

record productPart =
  pt_SourceDigest :: string
  pt_Render :: "Render option"
  pt_Patches :: "Patch list"
  pt_Images :: "IntentImages option"

definition productPart_json :: "productPart \<Rightarrow> json" where
  "productPart_json p = JObj ([(''source'', JObj [(''digest'', JStr (pt_SourceDigest p))])]
     @ opt_field ''render'' Render_json (pt_Render p)
     @ omit_list ''patches'' Patch_json (pt_Patches p)
     @ opt_field ''images'' IntentImages_json (pt_Images p))"

definition product_part :: "Product \<Rightarrow> productPart" where
  "product_part product =
     (let images = ProductSpec_Images (Product_Spec product); source = ProductStatus_Source (Product_Status product);
          vendorURL = (case source of
              Some s \<Rightarrow> if ProductImages_EffectivePolicy images = ImagePolicyVendor then ProductSourceStatus_URL s else []
            | None \<Rightarrow> [])
      in \<lparr>pt_SourceDigest = (case source of Some s \<Rightarrow> ProductSourceStatus_Digest s | None \<Rightarrow> []),
          pt_Render = ProductSpec_Render (Product_Spec product), pt_Patches = ProductSpec_Patches (Product_Spec product),
          pt_Images = intentImages images vendorURL\<rparr>)"

definition productRevisionCanonical :: "Product \<Rightarrow> string" where
  "productRevisionCanonical product = canonicalJSON (productPart_json (product_part product))"

definition ProductRevision :: "Product \<Rightarrow> string + string" where
  "ProductRevision product = Inr (CalculateSpecHash (productRevisionCanonical product))"

section \<open>The inputs of the artifact pipeline\<close>

record HelmSpec =
  HelmSpec_ReleaseName :: string
  HelmSpec_IncludeCRDs :: bool
  HelmSpec_Values :: fields

datatype Layout = LayoutUnset | LayoutSingle | LayoutMulti

record ManifestSpec =
  ManifestSpec_Layout :: Layout

record RenderSpec =
  RenderSpec_Helm :: "HelmSpec option"
  RenderSpec_Manifest :: "ManifestSpec option"

definition EffectiveLayout :: "RenderSpec option \<Rightarrow> Layout" where
  "EffectiveLayout r =
     (case Option.bind r RenderSpec_Manifest of
        Some m \<Rightarrow> if ManifestSpec_Layout m \<noteq> LayoutUnset then ManifestSpec_Layout m else LayoutSingle
      | None \<Rightarrow> LayoutSingle)"

record artifact_source =
  as_OCI :: string
  as_Version :: string
  as_Digest :: string

datatype images_policy = PolicyUnset | PolicyRecord | PolicyPin | PolicyVendor

record FieldSpec =
  FieldSpec_Group :: string
  FieldSpec_Version :: string
  FieldSpec_Kind :: string
  FieldSpec_Path :: string

record ImageOptions =
  io_Policy :: images_policy
  io_FieldSpecs :: "FieldSpec list"
  io_VendorURL :: string
  io_Mirrors :: "mirror list"
  io_Locked :: "images_image list"

text \<open>A patch of the pipeline: its target and what it sets.\<close>

record PatchSpec =
  PatchSpec_Target :: PatchTarget
  PatchSpec_Set :: "(string \<times> string) list"

record ArtifactSpec =
  sp_Source :: artifact_source
  sp_Render :: "RenderSpec option"
  sp_Patches :: "PatchSpec list"
  sp_Edits :: "PatchSpec list"
  sp_Images :: ImageOptions

fun images_policy_of :: "ImagePolicy \<Rightarrow> images_policy" where
  "images_policy_of ImagePolicyUnset = PolicyUnset"
| "images_policy_of ImagePolicyRecord = PolicyRecord"
| "images_policy_of ImagePolicyPin = PolicyPin"
| "images_policy_of ImagePolicyVendor = PolicyVendor"

fun layout_of :: "FileLayout \<Rightarrow> Layout" where
  "layout_of FileLayoutUnset = LayoutUnset"
| "layout_of FileLayoutSingle = LayoutSingle"
| "layout_of FileLayoutMulti = LayoutMulti"

definition toImageOptions :: "ProductImages \<Rightarrow> ImageOptions" where
  "toImageOptions spec =
     \<lparr>io_Policy = images_policy_of (ProductImages_EffectivePolicy spec),
      io_FieldSpecs = map (\<lambda>fs. \<lparr>FieldSpec_Group = ImageFieldSpec_Group fs, FieldSpec_Version = ImageFieldSpec_Version fs,
        FieldSpec_Kind = ImageFieldSpec_Kind fs, FieldSpec_Path = ImageFieldSpec_Path fs\<rparr>) (ProductImages_FieldSpecs spec),
      io_VendorURL = [], io_Mirrors = [], io_Locked = []\<rparr>"

definition jsonToMap :: "json option \<Rightarrow> string + fields" where
  "jsonToMap j =
     (case j of
        None \<Rightarrow> Inr []
      | Some raw \<Rightarrow> map_sum (\<lambda>err. ''unmarshal helm values: '' @ err) id (decodeValues raw))"

definition toRenderSpec :: "Render option \<Rightarrow> string + RenderSpec option" where
  "toRenderSpec render =
     (case render of
        None \<Rightarrow> Inr None
      | Some r \<Rightarrow>
         (let manifest = map_option (\<lambda>m. \<lparr>ManifestSpec_Layout = layout_of (ManifestRender_Layout m)\<rparr>) (Render_Manifest r) in
          case Render_Helm r of
            None \<Rightarrow> Inr (Some \<lparr>RenderSpec_Helm = None, RenderSpec_Manifest = manifest\<rparr>)
          | Some h \<Rightarrow>
             (case jsonToMap (HelmRender_Values h) of
                Inl err \<Rightarrow> Inl err
              | Inr vals \<Rightarrow> Inr (Some \<lparr>RenderSpec_Helm = Some \<lparr>HelmSpec_ReleaseName = HelmRender_ReleaseName h,
                  HelmSpec_IncludeCRDs = HelmRender_IncludeCRDs h, HelmSpec_Values = vals\<rparr>, RenderSpec_Manifest = manifest\<rparr>))))"

definition toPatchSpecs :: "Patch list \<Rightarrow> PatchSpec list" where
  "toPatchSpecs patches = map (\<lambda>p. \<lparr>PatchSpec_Target = Patch_Target p, PatchSpec_Set = Patch_Set p\<rparr>) patches"

definition ToArtifactSpec :: "EffectiveSpec \<Rightarrow> string + ArtifactSpec" where
  "ToArtifactSpec e =
     (case toRenderSpec (EffectiveSpec_Render e) of
        Inl err \<Rightarrow> Inl err
      | Inr render \<Rightarrow> Inr
          \<lparr>sp_Source = \<lparr>as_OCI = OCISource_URL (EffectiveSpec_Source e), as_Version = OCISource_Version (EffectiveSpec_Source e),
             as_Digest = EffectiveSpec_SourceDigest e\<rparr>,
           sp_Render = render, sp_Patches = toPatchSpecs (EffectiveSpec_Patches e), sp_Edits = toPatchSpecs (EffectiveSpec_Edits e),
           sp_Images = toImageOptions (EffectiveSpec_Images e)\<rparr>)"

text \<open>The version of the build and of the Helm library it was linked with.\<close>

record build_info =
  bi_Version :: string
  bi_HelmVersion :: string

definition FallbackBuilderID :: "build_info \<Rightarrow> string" where
  "FallbackBuilderID b = ''kokumi@'' @ bi_Version b"

definition Renderer_of :: "build_info \<Rightarrow> Render option \<Rightarrow> string \<Rightarrow> Renderer" where
  "Renderer_of b render builderID =
     (let builder = str_or [builderID, FallbackBuilderID b] in
      if Option.bind render Render_Helm \<noteq> None
      then \<lparr>Renderer_Type = RenderTypeHelm, Renderer_Version = bi_HelmVersion b, Renderer_Builder = builder\<rparr>
      else \<lparr>Renderer_Type = RenderTypeManifest, Renderer_Version = CHR ''v'' # bi_Version b, Renderer_Builder = builder\<rparr>)"

record ConfigVerification =
  cv_Provider :: string
  cv_KeyID :: string
  cv_Issuer :: string
  cv_Subject :: string

record artifact_config =
  cfg_OrderNamespace :: string
  cfg_OrderName :: string
  cfg_OrderUID :: string
  cfg_ProductNamespace :: string
  cfg_ProductName :: string
  cfg_ProductConfigHash :: string
  cfg_ConfigHash :: string
  cfg_Renderer :: Renderer
  cfg_Intent :: string
  cfg_Verified :: "ConfigVerification option"

definition ArtifactConfig :: "Order \<Rightarrow> EffectiveSpec \<Rightarrow> string \<Rightarrow> string \<Rightarrow> Renderer \<Rightarrow> artifact_config" where
  "ArtifactConfig order effective intent configHash renderer =
     (let meta = Order_ObjectMeta order in
      \<lparr>cfg_OrderNamespace = om_Namespace meta, cfg_OrderName = om_Name meta, cfg_OrderUID = om_UID meta,
       cfg_ProductNamespace = om_Namespace meta, cfg_ProductName = ProductIdentity_Name (EffectiveSpec_Product effective),
       cfg_ProductConfigHash = ProductIdentity_ConfigHash (EffectiveSpec_Product effective),
       cfg_ConfigHash = configHash, cfg_Renderer = renderer, cfg_Intent = intent,
       cfg_Verified = map_option (\<lambda>v. \<lparr>cv_Provider = verification_provider_string (SourceVerification_Provider v),
           cv_KeyID = SourceVerification_KeyID v, cv_Issuer = SourceVerification_Issuer v, cv_Subject = SourceVerification_Subject v\<rparr>)
         (EffectiveSpec_SourceVerified effective)\<rparr>)"

end
