(* ===== verification/Resolve_Canonical.thy ===== *)
theory Resolve_Canonical
  imports Resolve_Intent
begin

text \<open>
  What the canonical JSON of an intent determines. Two JSON documents mean the same when their objects have
  the same fields, whatever their order, of one key the last; they have the same canonical JSON exactly then.
\<close>

section \<open>Documents that mean the same\<close>

inductive same_json :: "json \<Rightarrow> json \<Rightarrow> bool" where
  same_null: "same_json JNull JNull"
| same_bool: "same_json (JBool b) (JBool b)"
| same_num: "same_json (JNum n) (JNum n)"
| same_str: "same_json (JStr s) (JStr s)"
| same_arr: "list_all2 same_json xs ys \<Longrightarrow> same_json (JArr xs) (JArr ys)"
| same_obj: "(\<And>k. rel_option same_json (map_of (rev fs) k) (map_of (rev gs) k)) \<Longrightarrow> same_json (JObj fs) (JObj gs)"

inductive_simps same_json_simps [simp]:
  "same_json JNull w" "same_json (JBool b) w" "same_json (JNum n) w" "same_json (JStr s) w"
  "same_json (JArr xs) w" "same_json (JObj fs) w"

lemma fst_last_fields: "fst ` set (last_fields fs) = fst ` set fs"
  by (induction fs rule: last_fields.induct) auto

lemma distinct_last_fields: "distinct (map fst (last_fields fs))"
  by (induction fs rule: last_fields.induct) (auto simp: fst_last_fields [simplified])

lemma map_of_last_fields: "map_of (last_fields fs) = map_of (rev fs)"
proof (induction fs rule: last_fields.induct)
  case (2 k v fs)
  have "k \<in> fst ` set fs \<longleftrightarrow> map_of (rev fs) k \<noteq> None" by (simp add: map_of_eq_None_iff)
  then show ?case using 2 by (auto simp: map_add_def fun_eq_iff split: option.splits)
qed simp

lemma last_fields_distinct: "distinct (map fst fs) \<Longrightarrow> last_fields fs = fs"
  by (induction fs rule: last_fields.induct) auto

lemma three_way_by_key: "three_way (by_key :: string \<times> 'v \<Rightarrow> _)"
  unfolding by_key_def by (rule three_way_ord)

lemma map_of_sort_by_key: "distinct (map fst fs) \<Longrightarrow> map_of (sort_cmp by_key fs) = map_of fs"
  by (rule map_of_inject_set [THEN iffD2]) simp_all

lemma sorted_fields_eq:
  assumes "distinct (map fst fs)" "distinct (map fst gs)"
  shows "sort_cmp by_key fs = sort_cmp by_key gs \<longleftrightarrow> map_of fs = map_of gs"
proof
  assume "sort_cmp by_key fs = sort_cmp by_key gs"
  then show "map_of fs = map_of gs" using map_of_sort_by_key assms by metis
next
  assume "map_of fs = map_of gs"
  then have "set fs = set gs" using map_of_inject_set assms by blast
  then have "mset fs = mset gs" using assms by (metis distinct_map set_eq_iff_mset_eq_distinct)
  then show "sort_cmp by_key fs = sort_cmp by_key gs"
    using assms(1) by (intro three_way.sort_permuted [OF three_way_by_key]) (auto simp: by_key_def dest: eq_key_imp_eq_value)
qed

lemma map_of_canonical: "map_of (rev (map (\<lambda>(k, v). (k, canonical v)) fs)) k = map_option canonical (map_of (rev fs) k)"
  by (simp add: rev_map map_of_map)

lemma canonical_obj_eq:
  "canonical (JObj fs) = canonical (JObj gs) \<longleftrightarrow>
     (\<forall>k. map_option canonical (map_of (rev fs) k) = map_option canonical (map_of (rev gs) k))"
  by (simp add: sorted_fields_eq distinct_last_fields map_of_last_fields fun_eq_iff map_of_canonical)

lemma canonical_same: "canonical v = canonical w \<longleftrightarrow> same_json v w"
proof (induction v arbitrary: w)
  case (JArr xs)
  have "map canonical xs = map canonical ys \<longleftrightarrow> list_all2 same_json xs ys" for ys
    using JArr by (auto simp: list_all2_conv_all_nth list_eq_iff_nth_eq)
  then show ?case by (cases w) auto
next
  case (JObj fs)
  have "map_option canonical (map_of (rev fs) k) = map_option canonical x \<longleftrightarrow> rel_option same_json (map_of (rev fs) k) x" for k x
  proof (cases "map_of (rev fs) k")
    case (Some u)
    then have "(k, u) \<in> set fs" by (auto dest: map_of_SomeD)
    then show ?thesis using JObj Some by (cases x) (auto simp: map_option_case)
  qed (cases x; simp)
  then show ?case by (cases w) (simp_all add: canonical_obj_eq del: canonical.simps, simp_all)
qed (case_tac w; auto)+

lemma wf_canonical: "wf_json v \<Longrightarrow> wf_json (canonical v)"
proof (induction v rule: canonical.induct)
  case (1 fs)
  have "set (last_fields gs) \<subseteq> set gs" for gs :: "(string \<times> json) list"
    by (induction gs rule: last_fields.induct) auto
  then show ?case using 1 by (fastforce simp: list_all_iff)
qed (auto simp: list_all_iff)

lemma canonicalJSON_inj: "wf_json v \<Longrightarrow> wf_json w \<Longrightarrow> canonicalJSON v = canonicalJSON w \<longleftrightarrow> same_json v w"
  using json_encode_inj [of "canonical v" "canonical w" False] wf_canonical by (auto simp: canonicalJSON_def canonical_same [symmetric])

section \<open>Intents with the same canonical JSON\<close>

text \<open>Fields of a struct: of distinct keys, so that a field is found by its key.\<close>

definition same_fields :: "(string \<times> json) list \<Rightarrow> (string \<times> json) list \<Rightarrow> bool" where
  "same_fields fs gs \<longleftrightarrow> (\<forall>k. rel_option same_json (map_of fs k) (map_of gs k))"

lemma same_json_obj:
  assumes "distinct (map fst fs)" "distinct (map fst gs)"
  shows "same_json (JObj fs) (JObj gs) \<longleftrightarrow> same_fields fs gs"
proof -
  have "map_of (rev fs) = map_of fs" "map_of (rev gs) = map_of gs"
    using assms by (metis last_fields_distinct map_of_last_fields)+
  then show ?thesis by (auto simp: same_fields_def)
qed

text \<open>A field of each kind: one that is always there, one of an optional value, and those left out when empty.\<close>

lemma field_keys [simp]:
  "j \<in> fst ` set (opt_field k f v) \<longleftrightarrow> j = k \<and> v \<noteq> None" "j \<in> fst ` set (omit_if b k x) \<longleftrightarrow> j = k \<and> \<not> b"
  "j \<in> fst ` set (omit_string k s) \<longleftrightarrow> j = k \<and> s \<noteq> []" "j \<in> fst ` set (omit_list k g xs) \<longleftrightarrow> j = k \<and> xs \<noteq> []"
  "j \<in> fst ` set (omit_int32 k i) \<longleftrightarrow> j = k \<and> i \<noteq> 0"
  by (auto simp: opt_field_def omit_if_def omit_string_def omit_list_def omit_int32_def split: option.splits)

lemma field_distinct [simp]:
  "distinct (map fst (opt_field k f v))" "distinct (map fst (omit_if b k x))" "distinct (map fst (omit_string k s))"
  "distinct (map fst (omit_list k g xs))" "distinct (map fst (omit_int32 k i))"
  by (auto simp: opt_field_def omit_if_def omit_string_def omit_list_def omit_int32_def split: option.splits)

lemma same_fields_Nil [simp]: "same_fields [] []"
  by (simp add: same_fields_def)

lemma same_fields_Cons:
  assumes "k \<notin> fst ` set r" "k \<notin> fst ` set q"
  shows "same_fields ((k, x) # r) ((k, y) # q) \<longleftrightarrow> same_json x y \<and> same_fields r q"
proof -
  have "map_of r k = None" "map_of q k = None" using assms by (simp_all add: map_of_eq_None_iff)
  then have "rel_option same_json (map_of ((k, x) # r) j) (map_of ((k, y) # q) j) \<longleftrightarrow>
      (j = k \<longrightarrow> same_json x y) \<and> rel_option same_json (map_of r j) (map_of q j)" for j
    by (cases "j = k") simp_all
  then show ?thesis unfolding same_fields_def by blast
qed

lemma same_fields_one_sided:
  assumes "k \<notin> fst ` set r" "k \<notin> fst ` set q"
  shows "\<not> same_fields ((k, x) # r) q" "\<not> same_fields r ((k, y) # q)"
proof -
  have none: "map_of r k = None" "map_of q k = None" using assms by (simp_all add: map_of_eq_None_iff)
  have "\<not> rel_option same_json (map_of ((k, x) # r) k) (map_of q k)" "\<not> rel_option same_json (map_of r k) (map_of ((k, y) # q) k)"
    by (simp_all add: none)
  then show "\<not> same_fields ((k, x) # r) q" "\<not> same_fields r ((k, y) # q)" unfolding same_fields_def by blast+
qed

lemma same_fields_opt:
  assumes "k \<notin> fst ` set r" "k \<notin> fst ` set q"
  shows "same_fields (opt_field k f v @ r) (opt_field k f w @ q) \<longleftrightarrow> rel_option (\<lambda>x y. same_json (f x) (f y)) v w \<and> same_fields r q"
  using same_fields_one_sided [OF assms] assms
  by (cases v; cases w) (simp_all add: opt_field_def same_fields_Cons)

text \<open>The other kinds are optional fields.\<close>

lemma omit_as_opt:
  "omit_if b k x = opt_field k id (if b then None else Some x)"
  "omit_string k s = opt_field k JStr (if s = [] then None else Some s)"
  "omit_list k g xs = opt_field k (\<lambda>ys. JArr (map g ys)) (if xs = [] then None else Some xs)"
  "omit_int32 k i = opt_field k (\<lambda>j. json_int (sint j)) (if i = 0 then None else Some i)"
  by (simp_all add: opt_field_def omit_if_def omit_string_def omit_list_def omit_int32_def)

lemma same_fields_omit:
  assumes "k \<notin> fst ` set r" "k \<notin> fst ` set q"
  shows "same_fields (omit_if b k x @ r) (omit_if c k x @ q) \<longleftrightarrow> (b \<longleftrightarrow> c) \<and> (b \<or> same_json x x) \<and> same_fields r q"
    and "same_fields (omit_string k s @ r) (omit_string k t @ q) \<longleftrightarrow> s = t \<and> same_fields r q"
    and "same_fields (omit_list k g xs @ r) (omit_list k g ys @ q) \<longleftrightarrow> list_all2 (\<lambda>x y. same_json (g x) (g y)) xs ys \<and> same_fields r q"
    and "same_fields (omit_int32 k i @ r) (omit_int32 k j @ q) \<longleftrightarrow> i = j \<and> same_fields r q"
  unfolding omit_as_opt same_fields_opt [OF assms]
  by (auto simp: json_int_def list_all2_map1 list_all2_map2 sint_inject32)

lemma distinct_fields:
  "k \<notin> fst ` set r \<Longrightarrow> distinct (map fst (opt_field k f v @ r)) \<longleftrightarrow> distinct (map fst r)"
  "k \<notin> fst ` set r \<Longrightarrow> distinct (map fst (omit_if b k x @ r)) \<longleftrightarrow> distinct (map fst r)"
  "k \<notin> fst ` set r \<Longrightarrow> distinct (map fst (omit_string k s @ r)) \<longleftrightarrow> distinct (map fst r)"
  "k \<notin> fst ` set r \<Longrightarrow> distinct (map fst (omit_list k g xs @ r)) \<longleftrightarrow> distinct (map fst r)"
  "k \<notin> fst ` set r \<Longrightarrow> distinct (map fst (omit_int32 k i @ r)) \<longleftrightarrow> distinct (map fst r)"
  "distinct (map fst ((k, x) # r)) \<longleftrightarrow> k \<notin> fst ` set r \<and> distinct (map fst r)"
  by (auto simp: opt_field_def omit_if_def omit_string_def omit_list_def omit_int32_def split: option.splits)

lemmas struct_fields = same_fields_Cons same_fields_opt same_fields_omit
  same_fields_opt [of k "[]" "[]" for k, simplified] same_fields_omit [of k "[]" "[]" for k, simplified]

lemmas struct_simps = image_Un distinct_fields struct_fields

text \<open>The values of a chart mean the same, and patches set the same paths of the same targets; the rest is equal.\<close>

definition same_helm :: "HelmRender \<Rightarrow> HelmRender \<Rightarrow> bool" where
  "same_helm a b \<longleftrightarrow> HelmRender_ReleaseName a = HelmRender_ReleaseName b \<and> HelmRender_IncludeCRDs a = HelmRender_IncludeCRDs b
     \<and> rel_option same_json (HelmRender_Values a) (HelmRender_Values b)"

definition same_render :: "Render \<Rightarrow> Render \<Rightarrow> bool" where
  "same_render a b \<longleftrightarrow> rel_option same_helm (Render_Helm a) (Render_Helm b) \<and> Render_Manifest a = Render_Manifest b"

definition same_patch :: "Patch \<Rightarrow> Patch \<Rightarrow> bool" where
  "same_patch a b \<longleftrightarrow> Patch_Target a = Patch_Target b \<and> map_of (rev (Patch_Set a)) = map_of (rev (Patch_Set b))"

definition same_intent :: "Intent \<Rightarrow> Intent \<Rightarrow> bool" where
  "same_intent i j \<longleftrightarrow> Intent_Source i = Intent_Source j \<and> Intent_ProductRevision i = Intent_ProductRevision j
     \<and> Intent_Destination i = Intent_Destination j \<and> Intent_TargetNamespace i = Intent_TargetNamespace j
     \<and> rel_option same_render (Intent_Render i) (Intent_Render j)
     \<and> list_all2 same_patch (Intent_Patches i) (Intent_Patches j) \<and> list_all2 same_patch (Intent_Edits i) (Intent_Edits j)
     \<and> Intent_Images i = Intent_Images j \<and> Intent_Promotion i = Intent_Promotion j"

lemma rel_option_eq_iff: "rel_option (\<lambda>x y. x = y) a b \<longleftrightarrow> a = b"
  using option.rel_eq by metis

lemma list_all2_eq_iff: "list_all2 (\<lambda>x y. x = y) xs ys \<longleftrightarrow> xs = ys" "list_all2 (\<lambda>x y. y = x) xs ys \<longleftrightarrow> xs = ys"
  by (auto simp: list_all2_conv_all_nth list_eq_iff_nth_eq)

lemma same_json_strings: "list_all2 same_json (map JStr xs) (map JStr ys) \<longleftrightarrow> xs = ys"
  by (simp add: list_all2_map1 list_all2_map2 list_all2_eq_iff)

lemma same_json_int [simp]: "same_json (json_int i) (json_int j) \<longleftrightarrow> i = j"
  by (auto simp: json_int_def)

lemma layout_string_inject [simp]: "layout_string a = layout_string b \<longleftrightarrow> a = b"
  by (cases a; cases b) simp_all

lemma image_policy_string_inject [simp]: "image_policy_string a = image_policy_string b \<longleftrightarrow> a = b"
  by (cases a; cases b) simp_all

lemma severity_string_inject [simp]: "severity_string a = severity_string b \<longleftrightarrow> a = b"
  by (cases a; cases b) simp_all

lemma HelmRender_same: "same_json (HelmRender_json a) (HelmRender_json b) \<longleftrightarrow> same_helm a b"
  unfolding HelmRender_json_def by (subst same_json_obj) (auto simp: struct_simps same_helm_def simp del: map_append distinct_append)

lemma ManifestRender_same: "same_json (ManifestRender_json a) (ManifestRender_json b) \<longleftrightarrow> a = b"
  unfolding ManifestRender_json_def by (subst same_json_obj) (auto simp: struct_simps simp del: map_append distinct_append)

lemma Render_same: "same_json (Render_json a) (Render_json b) \<longleftrightarrow> same_render a b"
  unfolding Render_json_def
  by (subst same_json_obj) (auto simp: struct_simps same_render_def HelmRender_same ManifestRender_same rel_option_eq_iff simp del: map_append distinct_append)

lemma PatchTarget_same: "same_json (PatchTarget_json a) (PatchTarget_json b) \<longleftrightarrow> a = b"
  unfolding PatchTarget_json_def by (subst same_json_obj) (auto simp: struct_simps intro: PatchTarget.equality simp del: map_append distinct_append)

lemma Patch_same: "same_json (Patch_json a) (Patch_json b) \<longleftrightarrow> same_patch a b"
proof -
  have "rel_option same_json (map_option JStr x) (map_option JStr y) \<longleftrightarrow> x = y" for x y
    by (cases x; cases y) auto
  then have "same_json (JObj (map (apsnd JStr) s)) (JObj (map (apsnd JStr) t)) \<longleftrightarrow> map_of (rev s) = map_of (rev t)" for s t
    by (simp add: rev_map apsnd_def map_prod_def map_of_map fun_eq_iff)
  then show ?thesis unfolding Patch_json_def
    by (subst same_json_obj) (auto simp: struct_simps same_patch_def PatchTarget_same simp del: same_json_simps map_append distinct_append)
qed

lemma ImageFieldSpec_same: "same_json (ImageFieldSpec_json a) (ImageFieldSpec_json b) \<longleftrightarrow> a = b"
  unfolding ImageFieldSpec_json_def by (subst same_json_obj) (auto simp: struct_simps intro: ImageFieldSpec.equality simp del: map_append distinct_append)

lemma IntentImages_same: "same_json (IntentImages_json a) (IntentImages_json b) \<longleftrightarrow> a = b"
  unfolding IntentImages_json_def
  by (subst same_json_obj) (auto simp: struct_simps ImageFieldSpec_same list_all2_eq_iff intro: IntentImages.equality simp del: map_append distinct_append)

lemma ApprovalPolicy_same: "same_json (ApprovalPolicy_json a) (ApprovalPolicy_json b) \<longleftrightarrow> a = b"
  unfolding ApprovalPolicy_json_def
  by (subst same_json_obj) (auto simp: struct_simps same_json_strings sint_inject32 intro: ApprovalPolicy.equality simp del: map_append distinct_append)

lemma UpstreamStage_same: "same_json (UpstreamStage_json a) (UpstreamStage_json b) \<longleftrightarrow> a = b"
  unfolding UpstreamStage_json_def by (subst same_json_obj) (auto simp: struct_simps intro: UpstreamStage.equality simp del: map_append distinct_append)

lemma VulnerabilityCheck_same: "same_json (VulnerabilityCheck_json a) (VulnerabilityCheck_json b) \<longleftrightarrow> a = b"
  unfolding VulnerabilityCheck_json_def by (subst same_json_obj) (auto simp: struct_simps intro: VulnerabilityCheck.equality simp del: map_append distinct_append)

lemma PromotionChecks_same: "same_json (PromotionChecks_json a) (PromotionChecks_json b) \<longleftrightarrow> a = b"
  unfolding PromotionChecks_json_def
  by (subst same_json_obj) (auto simp: struct_simps VulnerabilityCheck_same rel_option_eq_iff intro: PromotionChecks.equality simp del: map_append distinct_append)

lemma PromotionGates_same: "same_json (PromotionGates_json a) (PromotionGates_json b) \<longleftrightarrow> a = b"
  unfolding PromotionGates_json_def
  by (subst same_json_obj) (auto simp: struct_simps ApprovalPolicy_same UpstreamStage_same PromotionChecks_same rel_option_eq_iff
      list_all2_eq_iff intro: PromotionGates.equality simp del: map_append distinct_append)

lemma IntentSource_same: "same_json (IntentSource_json a) (IntentSource_json b) \<longleftrightarrow> a = b"
  unfolding IntentSource_json_def by (subst same_json_obj) (auto simp: struct_simps intro: IntentSource.equality simp del: map_append distinct_append)

lemma Intent_same: "same_json (Intent_json i) (Intent_json j) \<longleftrightarrow> same_intent i j"
  unfolding Intent_json_def
  by (subst same_json_obj) (auto simp: struct_simps same_intent_def IntentSource_same Render_same Patch_same IntentImages_same
      PromotionGates_same rel_option_eq_iff simp del: map_append distinct_append)

section \<open>The encoding of an intent is well-formed\<close>

text \<open>The values of a chart are JSON: their numbers are number literals.\<close>

definition wf_intent :: "Intent \<Rightarrow> bool" where
  "wf_intent i \<longleftrightarrow> (\<forall>r h x. Intent_Render i = Some r \<longrightarrow> Render_Helm r = Some h \<longrightarrow> HelmRender_Values h = Some x \<longrightarrow> wf_json x)"

lemma wf_fields_append [simp]: "list_all (\<lambda>(k, v). wf_json v) (a @ b) \<longleftrightarrow> list_all (\<lambda>(k, v). wf_json v) a \<and> list_all (\<lambda>(k, v). wf_json v) b"
  by simp

lemma wf_field [simp]:
  "list_all (\<lambda>(k, v). wf_json v) (opt_field k f v) \<longleftrightarrow> (\<forall>x. v = Some x \<longrightarrow> wf_json (f x))"
  "list_all (\<lambda>(k, v). wf_json v) (omit_if b k x) \<longleftrightarrow> b \<or> wf_json x"
  "list_all (\<lambda>(k, v). wf_json v) (omit_string k s)"
  "list_all (\<lambda>(k, v). wf_json v) (omit_list k g xs) \<longleftrightarrow> (\<forall>x\<in>set xs. wf_json (g x))"
  "list_all (\<lambda>(k, v). wf_json v) (omit_int32 k i)"
  by (auto simp: opt_field_def omit_if_def omit_string_def omit_list_def omit_int32_def list_all_iff split: option.splits)

lemmas intent_jsons = HelmRender_json_def ManifestRender_json_def Render_json_def PatchTarget_json_def Patch_json_def ImageFieldSpec_json_def
  IntentImages_json_def ApprovalPolicy_json_def UpstreamStage_json_def VulnerabilityCheck_json_def PromotionChecks_json_def
  PromotionGates_json_def IntentSource_json_def Intent_json_def

lemma wf_Intent_json: "wf_intent i \<Longrightarrow> wf_json (Intent_json i)"
  by (auto simp: intent_jsons wf_intent_def list_all_iff [of _ "map _ _"])

text \<open>The canonical bytes of two intents are equal exactly when the intents mean the same.\<close>

lemma Intent_Canonical_same:
  "wf_intent i \<Longrightarrow> wf_intent j \<Longrightarrow> Intent_Canonical i = Intent_Canonical j \<longleftrightarrow> same_intent i j"
  by (simp add: Intent_Canonical_def canonicalJSON_inj wf_Intent_json Intent_same)

end
