(* ===== verification/Resources.thy ===== *)
theory Resources
  imports Resolve_Intent Argocd_Application
begin

text \<open>
  The objects the controllers create (\<open>internal/resources\<close>): the Preparation and the Serving of an Order, the
  default Kitchen, Registry, Cluster and Environment, and the Secrets of the Kitchen. The registry library
  parses references; what the source calls of it is a parameter.
\<close>

text \<open>Parsing a reference, the encoded part of its digest if it has a valid one, and writing it out.\<close>

record reference_library =
  rf_parse :: "string \<Rightarrow> string + oci_reference"
  rf_encoded :: "oci_reference \<Rightarrow> string option"
  rf_string :: "oci_reference \<Rightarrow> string"

definition ShortDigest :: "reference_library \<Rightarrow> oci_reference \<Rightarrow> string" where
  "ShortDigest lib r =
     (case rf_encoded lib r of None \<Rightarrow> [] | Some enc \<Rightarrow> if length enc < 12 then [] else take 12 enc)"

definition OCIString :: "reference_library \<Rightarrow> oci_reference \<Rightarrow> string" where
  "OCIString lib r = ''oci://'' @ rf_string lib r"

definition LabelVersion :: string where
  "LabelVersion = ''delivery.kokumi.dev/version''"

definition LabelInCluster :: string where
  "LabelInCluster = ''delivery.kokumi.dev/in-cluster''"

definition new_meta :: "string \<Rightarrow> string \<Rightarrow> (string \<times> string) list \<Rightarrow> object_meta" where
  "new_meta name namespace labels =
     \<lparr>om_Name = name, om_Namespace = namespace, om_UID = [], om_Generation = 0, om_CreationTimestamp = 0, om_DeletionTimestamp = None,
      om_Labels = labels, om_Annotations = [], om_Finalizers = [], om_OwnerReferences = [], om_ResourceVersion = []\<rparr>"

section \<open>The Preparation and the Serving of an Order\<close>

record Rendered =
  rn_Source :: oci_reference
  rn_Artifact :: oci_reference
  rn_RegistryName :: string
  rn_Git :: GitSource
  rn_Images :: "images_image list"
  rn_Renderer :: Renderer
  rn_ConfigHash :: string
  rn_ProductRevision :: string
  rn_TargetNamespace :: string
  rn_CommitMessage :: string
  rn_ParentDigest :: string

definition preparationImages :: "images_image list \<Rightarrow> PreparationImage list" where
  "preparationImages imgs =
     map (\<lambda>img. \<lparr>PreparationImage_Ref = im_Ref img, PreparationImage_Name = im_Name img, PreparationImage_Digest = im_Digest img,
       PreparationImage_MediaType = im_MediaType img, PreparationImage_Vendored = im_Vendored img\<rparr>) imgs"

definition empty_preparation_status :: PreparationStatus where
  "empty_preparation_status = \<lparr>PreparationStatus_ObservedGeneration = 0, PreparationStatus_Conditions = [],
     PreparationStatus_Attestations = [], PreparationStatus_Approval = None\<rparr>"

definition new_preparation :: "reference_library \<Rightarrow> Order \<Rightarrow> Rendered \<Rightarrow> Preparation" where
  "new_preparation lib order rendered =
     (let name = om_Name (Order_ObjectMeta order); artifact = rn_Artifact rendered; source = rn_Source rendered in
      \<lparr>Preparation_ObjectMeta = new_meta (name @ ''-'' @ ShortDigest lib artifact) (om_Namespace (Order_ObjectMeta order))
         [(LabelOrder, name), (LabelVersion, ref_Tag source)],
       Preparation_Spec =
         \<lparr>PreparationSpec_OrderName = name,
          PreparationSpec_Source = \<lparr>OrderSource_URL = OCIRepositoryReference source, OrderSource_BaseDigest = ref_Digest source\<rparr>,
          PreparationSpec_Renderer = rn_Renderer rendered,
          PreparationSpec_TargetNamespace = rn_TargetNamespace rendered,
          PreparationSpec_ConfigHash = rn_ConfigHash rendered,
          PreparationSpec_Artifact = \<lparr>Artifact_OCIRef = OCIString lib artifact, Artifact_Digest = ref_Digest artifact,
            Artifact_RegistryRef = (if rn_RegistryName rendered \<noteq> [] then Some (rn_RegistryName rendered) else None)\<rparr>,
          PreparationSpec_CommitMessage = rn_CommitMessage rendered,
          PreparationSpec_ParentDigest = rn_ParentDigest rendered,
          PreparationSpec_GitSource = rn_Git rendered,
          PreparationSpec_ProductRevision = rn_ProductRevision rendered,
          PreparationSpec_Promotion = Order_PromotionGates order,
          PreparationSpec_Images = preparationImages (rn_Images rendered)\<rparr>,
       Preparation_Status = empty_preparation_status\<rparr>)"

definition empty_serving_status :: ServingStatus where
  "empty_serving_status = \<lparr>ServingStatus_ObservedGeneration = 0, ServingStatus_TargetPreparationName = [], ServingStatus_History = [],
     ServingStatus_Clusters = None, ServingStatus_Targets = [], ServingStatus_DeployedVulnerabilities = None, ServingStatus_Conditions = []\<rparr>"

definition new_serving :: "Order \<Rightarrow> Serving" where
  "new_serving order =
     (let name = om_Name (Order_ObjectMeta order) in
      \<lparr>Serving_ObjectMeta = new_meta name (om_Namespace (Order_ObjectMeta order)) [(LabelOrder, name)],
       Serving_Spec = \<lparr>ServingSpec_OrderName = name, ServingSpec_PreparationName = []\<rparr>,
       Serving_Status = empty_serving_status\<rparr>)"

section \<open>The default objects\<close>

definition new_kitchen :: "string \<Rightarrow> Kitchen" where
  "new_kitchen namespace =
     \<lparr>Kitchen_ObjectMeta = new_meta DefaultKitchenName namespace [],
      Kitchen_Spec = \<lparr>KitchenSpec_ArgoCDURL = [], KitchenSpec_Auth = None, KitchenSpec_Signing = None, KitchenSpec_Images = None,
        KitchenSpec_Scanning = None\<rparr>,
      Kitchen_Status = \<lparr>KitchenStatus_ObservedGeneration = 0, KitchenStatus_Conditions = [], KitchenStatus_Signing = None\<rparr>\<rparr>"

definition BundledRegistry :: "string \<Rightarrow> string \<Rightarrow> Registry" where
  "BundledRegistry namespace host =
     \<lparr>Registry_ObjectMeta = new_meta DefaultRegistryName namespace [(''app.kubernetes.io/managed-by'', ''kokumi'')],
      Registry_Spec = \<lparr>RegistrySpec_URL = ''oci://'' @ host, RegistrySpec_SecretRef = None, RegistrySpec_CertSecretRef = None,
        RegistrySpec_Scheme = RegistrySchemeHTTP\<rparr>,
      Registry_Status = \<lparr>RegistryStatus_ObservedGeneration = 0, RegistryStatus_Conditions = []\<rparr>\<rparr>"

definition LocalEnvironmentName :: string where
  "LocalEnvironmentName = ''local''"

definition InClusterCluster :: "string \<Rightarrow> Cluster" where
  "InClusterCluster namespace =
     \<lparr>Cluster_ObjectMeta = new_meta InCluster namespace [(LabelInCluster, ''true'')],
      Cluster_Spec = \<lparr>ClusterSpec_Description = ''The cluster Kokumi runs in'', ClusterSpec_Connection = ClusterConnectionInCluster,
        ClusterSpec_Kubeconfig = None\<rparr>,
      Cluster_Status = \<lparr>ClusterStatus_ObservedGeneration = 0, ClusterStatus_Server = [], ClusterStatus_KubernetesVersion = [],
        ClusterStatus_Conditions = []\<rparr>\<rparr>"

definition LocalEnvironment :: "string \<Rightarrow> Environment" where
  "LocalEnvironment namespace =
     \<lparr>Environment_ObjectMeta = new_meta LocalEnvironmentName namespace [],
      Environment_Spec = \<lparr>EnvironmentSpec_Description = ''The cluster Kokumi runs in'',
        EnvironmentSpec_ClusterSelector = \<lparr>ls_MatchLabels = [(LabelInCluster, ''true'')], ls_MatchExpressions = []\<rparr>,
        EnvironmentSpec_Deployer = \<lparr>Deployer_Type = DeployerTypeArgoCD, Deployer_ArgoCD = Some \<lparr>ArgoCDDeployer_Project = DefaultProject\<rparr>\<rparr>,
        EnvironmentSpec_Promotion = None\<rparr>,
      Environment_Status = \<lparr>EnvironmentStatus_ObservedGeneration = 0, EnvironmentStatus_Clusters = None, EnvironmentStatus_Conditions = []\<rparr>\<rparr>"

section \<open>The Secrets of the Kitchen\<close>

record GeneratedKey =
  gk_PrivateKey :: string
  gk_Password :: string
  gk_PublicKey :: string

definition kitchenSecretLabels :: "string \<Rightarrow> (string \<rightharpoonup> string)" where
  "kitchenSecretLabels component =
     [''app.kubernetes.io/name'' \<mapsto> ''kokumi'', ''app.kubernetes.io/component'' \<mapsto> component, ''app.kubernetes.io/managed-by'' \<mapsto> ''kokumi'']"

definition new_secret :: "string \<Rightarrow> string \<Rightarrow> string \<Rightarrow> (string \<rightharpoonup> string) \<Rightarrow> secret" where
  "new_secret namespace name component data =
     \<lparr>sc_Name = name, sc_Namespace = namespace, sc_UID = [], sc_ResourceVersion = [], sc_Labels = kitchenSecretLabels component,
      sc_Type = [], sc_Data = data\<rparr>"

definition SigningKeySecret :: "string \<Rightarrow> GeneratedKey \<Rightarrow> secret" where
  "SigningKeySecret namespace key = new_secret namespace SigningKeySecretName ''controller''
     [''cosign.key'' \<mapsto> gk_PrivateKey key, ''cosign.password'' \<mapsto> gk_Password key, ''cosign.pub'' \<mapsto> gk_PublicKey key]"

definition TokenSigningKeySecret :: "string \<Rightarrow> string \<Rightarrow> string \<Rightarrow> secret" where
  "TokenSigningKeySecret namespace name key = new_secret namespace name ''server'' [''signing-key'' \<mapsto> key]"

text \<open>The ConfigMap of ended sessions, which is empty: its metadata are those of a Secret.\<close>

definition EndedSessionsConfigMap :: "string \<Rightarrow> secret" where
  "EndedSessionsConfigMap namespace = new_secret namespace ''kokumi-server-ended-sessions'' ''server'' Map.empty"

definition AdminSecret :: "string \<Rightarrow> string \<Rightarrow> string \<Rightarrow> secret" where
  "AdminSecret namespace name hash = new_secret namespace name ''server'' [''password-hash'' \<mapsto> hash]"

definition InitialAdminSecret :: "string \<Rightarrow> string \<Rightarrow> secret" where
  "InitialAdminSecret namespace password = new_secret namespace ''kokumi-initial-admin'' ''server'' [''password'' \<mapsto> password]"

end
