(* ===== verification/Reconcile.thy ===== *)
theory Reconcile
  imports Control
begin

text \<open>
  What the reconcilers of \<open>internal/controller\<close> share: the outcome of a reconcile, and how the status patch
  that ends it changes that outcome (their \<open>patchStatus\<close> methods).
\<close>

text \<open>A reconcile that fails is retried after a back-off, unless its error is terminal; one that does not may ask for another soon.\<close>

datatype reconcile_error = RetriedError string | TerminalError string

primrec reconcile_message :: "reconcile_error \<Rightarrow> string" where
  "reconcile_message (RetriedError m) = m"
| "reconcile_message (TerminalError m) = m"

type_synonym reconcile_result = "reconcile_error + duration"

text \<open>\<open>errors.Join\<close> of an error of the reconcile and another one: terminal if the first is.\<close>

definition join_reconcile :: "reconcile_result \<Rightarrow> string \<Rightarrow> reconcile_result" where
  "join_reconcile result m =
     (case result of
        Inl (TerminalError e) \<Rightarrow> Inl (TerminalError (e @ [CHR 0x0A] @ m))
      | Inl (RetriedError e) \<Rightarrow> Inl (RetriedError (e @ [CHR 0x0A] @ m))
      | Inr _ \<Rightarrow> Inl (RetriedError m))"

text \<open>
  The outcome after the status patch: as the reconcile decided when it was written or the object is gone,
  another reconcile soon when a reconcile without an error conflicts, an error otherwise.
\<close>

definition patch_outcome :: "string \<Rightarrow> reconcile_result \<Rightarrow> write_result \<Rightarrow> reconcile_result" where
  "patch_outcome kind result w =
     (let failed = (\<lambda>m. join_reconcile result (''failed to patch '' @ kind @ '' status: '' @ m)) in
      case w of
        Written \<Rightarrow> result
      | WriteNotFound _ \<Rightarrow> result
      | WriteConflict m \<Rightarrow> (case result of Inr _ \<Rightarrow> Inr second | Inl _ \<Rightarrow> failed m)
      | WriteFailed m \<Rightarrow> failed m)"

end
