(* ===== verification/Order_Controller.thy ===== *)
theory Order_Controller
  imports Resources Registry_Access Promotion_Pipeline Kube_Api Reconcile
begin

text \<open>
  The Order controller (\<open>internal/controller/order_controller.go\<close>): one reconcile of an Order, from its
  pipeline, its Product and its registries to the render of its intent, the Preparation that records it, and
  the Serving it owns. What the reconcile reads of the Kubernetes API and the artifact pipeline are
  arguments; what it changes is its state: the Order, the clients of its registries, the Orders,
  Preparations and Servings the API holds, what was rendered, and its Events.
\<close>

section \<open>What a reconcile calls\<close>

text \<open>Owner references, as the Kubernetes library keeps them: the controller of an object, and making one the controller.\<close>

record owner_library =
  controller_of :: "object_meta \<Rightarrow> owner_reference option"
  is_controlled_by :: "object_meta \<Rightarrow> object_meta \<Rightarrow> bool"
  set_controller :: "object_meta \<Rightarrow> object_meta \<Rightarrow> string + object_meta"

text \<open>
  The Orders of the API: a read from the cache and one from the server, a write of the object, a patch of its
  annotations and one of its status, each locked to the version it has.
\<close>

record 'os order_server =
  or_get :: "string \<Rightarrow> string \<Rightarrow> 'os \<Rightarrow> read_failure + Order"
  or_live :: "string \<Rightarrow> string \<Rightarrow> 'os \<Rightarrow> read_failure + Order"
  or_update :: "Order \<Rightarrow> 'os \<Rightarrow> (string + Order) \<times> 'os"
  or_patch_annotations :: "Order \<Rightarrow> Order \<Rightarrow> 'os \<Rightarrow> (string + Order) \<times> 'os"
  or_patch_status :: "Order \<Rightarrow> OrderStatus \<Rightarrow> 'os \<Rightarrow> write_result \<times> 'os"

record 'client RenderRequest =
  rq_Source :: artifact_source
  rq_Destination :: string
  rq_Product :: "'client Scope"
  rq_Order :: "'client Scope"
  rq_Render :: "RenderSpec option"
  rq_Patches :: "PatchSpec list"
  rq_Edits :: "PatchSpec list"
  rq_Images :: ImageOptions
  rq_Name :: string
  rq_Namespace :: string
  rq_Description :: string
  rq_ParentDigest :: string
  rq_ArtifactType :: string
  rq_Config :: artifact_config

record RenderResult =
  rz_SourceRef :: oci_reference
  rz_DestRef :: oci_reference
  rz_SCM :: GitSource
  rz_Images :: "images_image list"

text \<open>An error of rendering: the reason of a registry error, if it is one, and whether a patch did not apply.\<close>

record render_error =
  rr_Reason :: "string option"
  rr_Patch :: bool
  rr_Message :: string

record ('client, 'os, 'ps, 'ss, 'pipe) order_services =
  ow_conditions :: condition_library
  ow_owners :: owner_library
  ow_references :: reference_library
  ow_registry :: registry_library
  ow_clients :: "'client Clients"
  ow_reader :: registry_reader
  ow_resolves :: "'client \<Rightarrow> oci_reference \<Rightarrow> bool"
  ow_orders :: "'os order_server"
  ow_list_Orders :: "string \<Rightarrow> string + Order list"
  ow_get_Product :: "string \<Rightarrow> string \<Rightarrow> read_failure + Product"
  ow_get_Kitchen :: "string \<Rightarrow> string \<Rightarrow> read_failure + Kitchen"
  ow_preparations :: "(Preparation, 'ps) object_api"
  ow_live_Preparation :: "string \<Rightarrow> 'ps \<Rightarrow> api_failure + Preparation"
  ow_servings :: "(Serving, 'ss) object_api"
  ow_live_Serving :: "string \<Rightarrow> 'ss \<Rightarrow> api_failure + Serving"
  ow_retries :: nat
  ow_Render :: "'client RenderRequest \<Rightarrow> 'client kept \<Rightarrow> 'pipe \<Rightarrow> (render_error + RenderResult) \<times> 'client kept \<times> 'pipe"
  ow_InstallNamespace :: string
  ow_BuilderID :: string
  ow_build :: build_info

text \<open>The Event of images that could not be resolved: the Preparation it names and its note.\<close>

datatype order_event = ImagesNotResolved string string

record ('client, 'os, 'ps, 'ss, 'pipe) order_state =
  oc_order :: Order
  oc_kept :: "'client kept"
  oc_orders :: 'os
  oc_preparations :: 'ps
  oc_servings :: 'ss
  oc_pipe :: 'pipe
  oc_events :: "order_event list"

definition order_setter :: "Order setter" where
  "order_setter = \<lparr>GetGeneration = \<lambda>o1. om_Generation (Order_ObjectMeta o1), GetConditions = Order_GetConditions, SetConditions = Order_SetConditions\<rparr>"

definition on_order :: "(Order \<Rightarrow> Order) \<Rightarrow> ('client, 'os, 'ps, 'ss, 'pipe) order_state \<Rightarrow> ('client, 'os, 'ps, 'ss, 'pipe) order_state" where
  "on_order f st = st\<lparr>oc_order := f (oc_order st)\<rparr>"

definition on_order_status :: "(OrderStatus \<Rightarrow> OrderStatus) \<Rightarrow> Order \<Rightarrow> Order" where
  "on_order_status f o1 = o1\<lparr>Order_Status := f (Order_Status o1)\<rparr>"

abbreviation order_namespace :: "Order \<Rightarrow> string" where
  "order_namespace o1 \<equiv> om_Namespace (Order_ObjectMeta o1)"

abbreviation name_of_order :: "Order \<Rightarrow> string" where
  "name_of_order o1 \<equiv> om_Name (Order_ObjectMeta o1)"

definition not_ready :: "('client, 'os, 'ps, 'ss, 'pipe) order_services \<Rightarrow> string \<Rightarrow> string \<Rightarrow> Order \<Rightarrow> Order" where
  "not_ready v reason message o1 = MarkFalse (ow_conditions v) order_setter o1 ConditionTypeReady reason message"

section \<open>The pipeline and the Product of the Order\<close>

definition orderUpstreamNames :: "Order \<Rightarrow> string list" where
  "orderUpstreamNames o1 = map UpstreamStage_Order (Order_UpstreamStages o1)"

definition pipelineOrder :: "Order \<Rightarrow> pipeline_order" where
  "pipelineOrder o1 = \<lparr>p_Product = ProductRef_Name (OrderSpec_ProductRef (Order_Spec o1)), p_Upstreams = orderUpstreamNames o1\<rparr>"

definition pipelineProblem :: "('client, 'os, 'ps, 'ss, 'pipe) order_services \<Rightarrow> Order \<Rightarrow> string + string" where
  "pipelineProblem v order =
     (if Order_UpstreamStages order = [] then Inr []
      else case ow_list_Orders v (order_namespace order) of
        Inl err \<Rightarrow> Inl (''failed to list Orders: '' @ err)
      | Inr orders \<Rightarrow>
          let pipeline = foldl (\<lambda>p o1. AList.update (name_of_order o1) (pipelineOrder o1) p) [] orders in
          Inr (Problem (AList.update (name_of_order order) (pipelineOrder order) pipeline) (name_of_order order)))"

text \<open>The Product, or nothing while the Order waits for it; the Order as it is marked.\<close>

definition readyProduct :: "('client, 'os, 'ps, 'ss, 'pipe) order_services \<Rightarrow> Order \<Rightarrow> (string + Product option) \<times> Order" where
  "readyProduct v order =
     (let name = ProductRef_Name (OrderSpec_ProductRef (Order_Spec order)) in
      case ow_get_Product v (order_namespace order) name of
        Inl (GetFailed err) \<Rightarrow> (Inl (''failed to get Product '' @ go_quote name @ '': '' @ err), order)
      | Inl (NotFound _) \<Rightarrow> (Inr None, not_ready v ReasonProductNotFound (''Product '' @ go_quote name @ '' not found'') order)
      | Inr product \<Rightarrow>
          if om_DeletionTimestamp (Product_ObjectMeta product) \<noteq> None
          then (Inr None, not_ready v ReasonProductDeleting (''Product '' @ go_quote name @ '' is being deleted'') order)
          else if \<not> ProductReady (find_condition (ow_conditions v)) product
          then let msg = ''Product '' @ go_quote name @ '' is not ready'';
              msg = (case find_condition (ow_conditions v) (ProductStatus_Conditions (Product_Status product)) ConditionTypeReady of
                  Some ready \<Rightarrow> if c_Message ready \<noteq> [] then msg @ '': '' @ c_Message ready else msg
                | None \<Rightarrow> msg)
            in (Inr None, not_ready v ReasonProductNotReady msg order)
          else (Inr (Some product), order))"

section \<open>The registries of the Order\<close>

record 'client orderConnections =
  ox_product :: "'client Scope"
  ox_order :: "'client Scope"
  ox_source :: "'client Connection"
  ox_destination :: string
  ox_destConn :: "'client Connection"

definition DefaultRegistryHost :: string where
  "DefaultRegistryHost = ''kokumi-registry.kokumi.svc.cluster.local:5000''"

definition DefaultDestination :: "string \<Rightarrow> string \<Rightarrow> string" where
  "DefaultDestination namespace name = ''oci://'' @ DefaultRegistryHost @ ''/'' @ namespace @ ''/'' @ name"

definition DefaultVendorDestination :: "string \<Rightarrow> string \<Rightarrow> string" where
  "DefaultVendorDestination namespace product = ''oci://'' @ DefaultRegistryHost @ ''/'' @ namespace @ ''/vendor/'' @ product"

definition order_destination :: "Order \<Rightarrow> string" where
  "order_destination order =
     (let default = DefaultDestination (order_namespace order) (name_of_order order) in
      case OrderSpec_Destination (Order_Spec order) of
        Some d \<Rightarrow> if OCIDestination_URL d \<noteq> [] then OCIDestination_URL d else default
      | None \<Rightarrow> default)"

definition order_connect ::
    "('client, 'os, 'ps, 'ss, 'pipe) order_services \<Rightarrow> Order \<Rightarrow> EffectiveSpec \<Rightarrow> 'client kept \<Rightarrow>
     (registry_error + 'client orderConnections) \<times> 'client kept" where
  "order_connect v order effective kept =
     (let ns = order_namespace order; destination = order_destination order in
      case Resolver_Scope (ow_reader v) ns (EffectiveSpec_RegistryRefs effective) of
        Inl err \<Rightarrow> (Inl err, kept)
      | Inr productScope \<Rightarrow>
         (case Resolver_Scope (ow_reader v) ns (OrderSpec_RegistryRefs (Order_Spec order)) of
            Inl err \<Rightarrow> (Inl err, kept)
          | Inr orderScope \<Rightarrow>
             (case Scope_Connect (ow_registry v) (ow_clients v) productScope (OCISource_URL (EffectiveSpec_Source effective)) kept of
                (Inl err, kept) \<Rightarrow> (Inl err, kept)
              | (Inr source, kept) \<Rightarrow>
                 (case Scope_Connect (ow_registry v) (ow_clients v) orderScope destination kept of
                    (Inl err, kept) \<Rightarrow> (Inl err, kept)
                  | (Inr destConn, kept) \<Rightarrow>
                      (Inr \<lparr>ox_product = productScope, ox_order = orderScope, ox_source = source, ox_destination = destination,
                         ox_destConn = destConn\<rparr>, kept)))))"

definition registryFailed ::
    "('client, 'os, 'ps, 'ss, 'pipe) order_services \<Rightarrow> Order \<Rightarrow> registry_error \<Rightarrow> reconcile_result \<times> Order" where
  "registryFailed v order err =
     (let reason = registry_Reason err [] in
      if reason = [] then (Inl (RetriedError (''failed to connect to the Order's registries: '' @ re_Message err)), order)
      else (Inr 0, not_ready v reason (re_Message err) order))"

definition exposesPrivateSource ::
    "('client, 'os, 'ps, 'ss, 'pipe) order_services \<Rightarrow> EffectiveSpec \<Rightarrow> 'client orderConnections \<Rightarrow> 'client kept \<Rightarrow> (string + bool) \<times> 'client kept" where
  "exposesPrivateSource v effective conns kept =
     (if Authenticated (ox_destConn conns) then (Inr False, kept)
      else case rf_parse (ow_references v) (OCISource_URL (EffectiveSpec_Source effective) @ ''@'' @ EffectiveSpec_SourceDigest effective) of
        Inl err \<Rightarrow> (Inl (''failed to parse source reference: '' @ err), kept)
      | Inr pinned \<Rightarrow> apfst Inr (Private (ow_clients v) (ow_resolves v) (ox_product conns) (ox_source conns) pinned kept))"

section \<open>Reporting the outcome\<close>

definition maxRegistryAccess :: nat where
  "maxRegistryAccess = 32"

definition markUpToDate ::
    "('client, 'os, 'ps, 'ss, 'pipe) order_services \<Rightarrow> EffectiveSpec \<Rightarrow> 'client orderConnections \<Rightarrow> Preparation option \<Rightarrow> Order \<Rightarrow> Order" where
  "markUpToDate v effective conns latest order =
     (let access = OrderAccess \<lparr>ol_Product = ox_product conns, ol_Source = OCISource_URL (EffectiveSpec_Source effective),
            ol_SourceConn = ox_source conns, ol_Destination = ox_destination conns, ol_DestinationConn = ox_destConn conns,
            ol_ImagesVendorURL = EffectiveSpec_ImagesVendorURL effective,
            ol_Images = (case latest of Some p \<Rightarrow> PreparationSpec_Images (Preparation_Spec p) | None \<Rightarrow> [])\<rparr>;
          order = on_order_status (\<lambda>s. s\<lparr>OrderStatus_RegistryAccess := take maxRegistryAccess access\<rparr>) order
      in MarkTrue (ow_conditions v) order_setter order ConditionTypeReady ReasonReady
           (''Preparation '' @ OrderStatus_LatestPreparationName (Order_Status order) @ '' is up to date''))"

definition renderFailed :: "('client, 'os, 'ps, 'ss, 'pipe) order_services \<Rightarrow> Order \<Rightarrow> bool \<Rightarrow> string \<Rightarrow> reconcile_result \<times> Order" where
  "renderFailed v order patchError err =
     (if patchError then (Inl (TerminalError err), not_ready v ReasonPatchFailed err order)
      else (Inl (RetriedError err), not_ready v ReasonProcessingFailed err order))"

text \<open>The note of an Event lists the images that could not be resolved, cut to its longest.\<close>

definition maxEventNote :: nat where
  "maxEventNote = 1024"

definition UnresolvedNote :: "images_image list \<Rightarrow> nat \<Rightarrow> string" where
  "UnresolvedNote imgs maxBytes =
     (let unresolved = map (\<lambda>img. im_Ref img @ '': '' @ im_Error img) (filter (\<lambda>img. im_Error img \<noteq> []) imgs) in
      if unresolved = [] then []
      else Truncate (''Could not resolve '' @ nat_dec (length unresolved) @ '' of '' @ nat_dec (length imgs) @ '' images: ''
        @ str_join ''; '' unresolved) maxBytes)"

definition recordUnresolvedImages ::
    "Preparation \<Rightarrow> images_image list \<Rightarrow> ('client, 'os, 'ps, 'ss, 'pipe) order_state \<Rightarrow> ('client, 'os, 'ps, 'ss, 'pipe) order_state" where
  "recordUnresolvedImages preparation imgs st =
     (let note = UnresolvedNote imgs maxEventNote in
      if note = [] then st
      else st\<lparr>oc_events := oc_events st @ [ImagesNotResolved (om_Name (Preparation_ObjectMeta preparation)) note]\<rparr>)"

definition AnnotationCommitMessage :: string where
  "AnnotationCommitMessage = ''delivery.kokumi.dev/commit-message''"

definition order_annotations :: "Order \<Rightarrow> (string \<times> string) list" where
  "order_annotations o1 = om_Annotations (Order_ObjectMeta o1)"

text \<open>The Order keeps its status and takes the annotations and the version of the patched copy; a failure leaves it.\<close>

definition consumeCommitMessage ::
    "('client, 'os, 'ps, 'ss, 'pipe) order_services \<Rightarrow> ('client, 'os, 'ps, 'ss, 'pipe) order_state \<Rightarrow> ('client, 'os, 'ps, 'ss, 'pipe) order_state" where
  "consumeCommitMessage v st =
     (let order = oc_order st in
      if map_of (order_annotations order) AnnotationCommitMessage = None then st
      else let meta = Order_ObjectMeta order;
          consumed = order\<lparr>Order_ObjectMeta := meta\<lparr>om_Annotations := AList.delete AnnotationCommitMessage (om_Annotations meta)\<rparr>\<rparr> in
        case or_patch_annotations (ow_orders v) order consumed (oc_orders st) of
          (Inl _, os) \<Rightarrow> st\<lparr>oc_orders := os\<rparr>
        | (Inr patched, os) \<Rightarrow> st\<lparr>oc_orders := os, oc_order := order\<lparr>Order_ObjectMeta := meta
            \<lparr>om_Annotations := om_Annotations (Order_ObjectMeta patched), om_ResourceVersion := om_ResourceVersion (Order_ObjectMeta patched)\<rparr>\<rparr>\<rparr>)"

section \<open>Rendering\<close>

definition isLatest :: "('client, 'os, 'ps, 'ss, 'pipe) order_services \<Rightarrow> Order \<Rightarrow> 'os \<Rightarrow> string + bool" where
  "isLatest v order os =
     (case or_live (ow_orders v) (order_namespace order) (name_of_order order) os of
        Inl (NotFound _) \<Rightarrow> Inr False
      | Inl (GetFailed err) \<Rightarrow> Inl (''failed to get Order: '' @ err)
      | Inr live \<Rightarrow> Inr (om_ResourceVersion (Order_ObjectMeta live) = om_ResourceVersion (Order_ObjectMeta order)))"

definition imageOptions ::
    "('client, 'os, 'ps, 'ss, 'pipe) order_services \<Rightarrow> Order \<Rightarrow> EffectiveSpec \<Rightarrow> ImageOptions \<Rightarrow> 'ps \<Rightarrow> string + ImageOptions" where
  "imageOptions v order effective opts ps =
     (let opts = opts\<lparr>io_VendorURL := EffectiveSpec_ImagesVendorURL effective\<rparr>;
          latest = OrderStatus_LatestPreparationName (Order_Status order);
          locked = (\<lambda>opts. if ProductImages_EffectivePolicy (EffectiveSpec_Images effective) = ImagePolicyRecord \<or> latest = [] then Inr opts
            else case ow_live_Preparation v latest ps of
                Inr parent \<Rightarrow> Inr (opts\<lparr>io_Locked := LockedImages (Some parent)\<rparr>)
              | Inl (ApiNotFound _) \<Rightarrow> Inr opts
              | Inl err \<Rightarrow> Inl (''failed to get latest Preparation: '' @ api_message err))
      in case ow_get_Kitchen v (ow_InstallNamespace v) DefaultKitchenName of
           Inl (GetFailed err) \<Rightarrow> Inl (''failed to get Kitchen: '' @ err)
         | Inl (NotFound _) \<Rightarrow> locked (opts\<lparr>io_Mirrors := []\<rparr>)
         | Inr kitchen \<Rightarrow> locked (opts\<lparr>io_Mirrors := ImageMirrors (Some kitchen)\<rparr>))"

definition own :: "('client, 'os, 'ps, 'ss, 'pipe) order_services \<Rightarrow> Order \<Rightarrow> object_meta \<Rightarrow> string + object_meta" where
  "own v order meta =
     map_sum (\<lambda>err. ''failed to set owner reference: '' @ err) id (set_controller (ow_owners v) (Order_ObjectMeta order) meta)"

definition createPreparation ::
    "('client, 'os, 'ps, 'ss, 'pipe) order_services \<Rightarrow> Order \<Rightarrow> Rendered \<Rightarrow> 'ps \<Rightarrow> (string + Preparation) \<times> 'ps" where
  "createPreparation v order rendered ps =
     (let preparation = new_preparation (ow_references v) order rendered in
      case ob_get (ow_preparations v) (om_Name (Preparation_ObjectMeta preparation)) ps of
        Inr existing \<Rightarrow> (Inr existing, ps)
      | Inl (ApiNotFound _) \<Rightarrow>
         (case own v order (Preparation_ObjectMeta preparation) of
            Inl err \<Rightarrow> (Inl err, ps)
          | Inr meta \<Rightarrow>
             (case ob_create (ow_preparations v) (preparation\<lparr>Preparation_ObjectMeta := meta\<rparr>) ps of
                (Inl err, ps) \<Rightarrow> (Inl (''failed to create Preparation: '' @ api_message err), ps)
              | (Inr created, ps) \<Rightarrow> (Inr created, ps)))
      | Inl err \<Rightarrow> (Inl (''failed to check for existing revision: '' @ api_message err), ps))"

definition latestPreparation :: "('client, 'os, 'ps, 'ss, 'pipe) order_services \<Rightarrow> Order \<Rightarrow> 'ps \<Rightarrow> string + Preparation option" where
  "latestPreparation v order ps =
     (case ob_get (ow_preparations v) (OrderStatus_LatestPreparationName (Order_Status order)) ps of
        Inr latest \<Rightarrow> Inr (Some latest)
      | Inl (ApiNotFound _) \<Rightarrow> Inr None
      | Inl err \<Rightarrow> Inl (''failed to get latest Preparation: '' @ api_message err))"

definition reconcileUpToDate ::
    "('client, 'os, 'ps, 'ss, 'pipe) order_services \<Rightarrow> EffectiveSpec \<Rightarrow> 'client orderConnections \<Rightarrow>
     ('client, 'os, 'ps, 'ss, 'pipe) order_state \<Rightarrow> reconcile_result \<times> ('client, 'os, 'ps, 'ss, 'pipe) order_state" where
  "reconcileUpToDate v effective conns st =
     (let st = on_order (on_order_status (\<lambda>s. s\<lparr>OrderStatus_Render := None\<rparr>)) st in
      case latestPreparation v (oc_order st) (oc_preparations st) of
        Inl err \<Rightarrow> (Inl (RetriedError err), st)
      | Inr latest \<Rightarrow> (Inr 0, on_order (markUpToDate v effective conns latest) st))"

definition PreparationArtifactType :: string where
  "PreparationArtifactType = ''application/vnd.kokumi.preparation.v1''"

definition render_request ::
    "Order \<Rightarrow> EffectiveSpec \<Rightarrow> 'client orderConnections \<Rightarrow> string \<Rightarrow> string \<Rightarrow> ArtifactSpec \<Rightarrow> ImageOptions \<Rightarrow> string \<Rightarrow> Renderer \<Rightarrow>
     'client RenderRequest" where
  "render_request order effective conns intent specHash spec imageOpts commitMessage rendererID =
     \<lparr>rq_Source = \<lparr>as_OCI = OCISource_URL (EffectiveSpec_Source effective), as_Version = as_Version (sp_Source spec),
        as_Digest = as_Digest (sp_Source spec)\<rparr>,
      rq_Destination = ox_destination conns, rq_Product = ox_product conns, rq_Order = ox_order conns, rq_Render = sp_Render spec,
      rq_Patches = sp_Patches spec, rq_Edits = sp_Edits spec, rq_Images = imageOpts, rq_Name = name_of_order order,
      rq_Namespace = EffectiveSpec_TargetNamespace effective, rq_Description = commitMessage,
      rq_ParentDigest = OrderStatus_LatestArtifactDigest (Order_Status order), rq_ArtifactType = PreparationArtifactType,
      rq_Config = ArtifactConfig order effective intent specHash rendererID\<rparr>"

definition rendered_artifact ::
    "Order \<Rightarrow> EffectiveSpec \<Rightarrow> 'client orderConnections \<Rightarrow> string \<Rightarrow> string \<Rightarrow> Renderer \<Rightarrow> RenderResult \<Rightarrow> Rendered" where
  "rendered_artifact order effective conns specHash commitMessage rendererID result =
     \<lparr>rn_Source = rz_SourceRef result, rn_Artifact = rz_DestRef result, rn_RegistryName = RegistryName (ox_destConn conns),
      rn_Git = rz_SCM result, rn_Images = rz_Images result, rn_Renderer = rendererID, rn_ConfigHash = specHash,
      rn_ProductRevision = EffectiveSpec_ProductRevision effective, rn_TargetNamespace = EffectiveSpec_TargetNamespace effective,
      rn_CommitMessage = commitMessage, rn_ParentDigest = OrderStatus_LatestArtifactDigest (Order_Status order)\<rparr>"

text \<open>What follows a render: the Preparation that records it becomes the Order's latest.\<close>

definition record_render ::
    "('client, 'os, 'ps, 'ss, 'pipe) order_services \<Rightarrow> EffectiveSpec \<Rightarrow> 'client orderConnections \<Rightarrow> string \<Rightarrow> string \<Rightarrow> Renderer \<Rightarrow> RenderResult \<Rightarrow>
     ('client, 'os, 'ps, 'ss, 'pipe) order_state \<Rightarrow> reconcile_result \<times> ('client, 'os, 'ps, 'ss, 'pipe) order_state" where
  "record_render v effective conns specHash commitMessage rendererID result st =
     (case createPreparation v (oc_order st) (rendered_artifact (oc_order st) effective conns specHash commitMessage rendererID result)
         (oc_preparations st) of
        (Inl err, ps) \<Rightarrow>
         (case renderFailed v (oc_order st) False (''failed to create revision: '' @ err) of
            (outcome, order) \<Rightarrow> (outcome, st\<lparr>oc_preparations := ps, oc_order := order\<rparr>))
      | (Inr preparation, ps) \<Rightarrow>
          let st = recordUnresolvedImages preparation (rz_Images result) (st\<lparr>oc_preparations := ps\<rparr>);
              st = consumeCommitMessage v st;
              st = on_order (on_order_status (\<lambda>s. s\<lparr>OrderStatus_LatestConfigHash := specHash,
                OrderStatus_LatestPreparationName := om_Name (Preparation_ObjectMeta preparation),
                OrderStatus_LatestArtifactDigest := ref_Digest (rz_DestRef result), OrderStatus_Render := None\<rparr>)) st
          in (Inr 0, on_order (markUpToDate v effective conns (Some preparation)) st))"

definition render ::
    "('client, 'os, 'ps, 'ss, 'pipe) order_services \<Rightarrow> EffectiveSpec \<Rightarrow> 'client orderConnections \<Rightarrow> string \<Rightarrow> string \<Rightarrow>
     ('client, 'os, 'ps, 'ss, 'pipe) order_state \<Rightarrow> reconcile_result \<times> ('client, 'os, 'ps, 'ss, 'pipe) order_state" where
  "render v effective conns intent specHash st =
     (let order = oc_order st in
      case isLatest v order (oc_orders st) of
        Inl err \<Rightarrow> (Inl (RetriedError err), st)
      | Inr False \<Rightarrow> (Inr second, st)
      | Inr True \<Rightarrow>
         (case ToArtifactSpec effective of
            Inl err \<Rightarrow> (Inl (RetriedError (''failed to convert effective spec: '' @ err)), st)
          | Inr spec \<Rightarrow>
             (case imageOptions v order effective (sp_Images spec) (oc_preparations st) of
                Inl err \<Rightarrow> (case renderFailed v order False err of (outcome, order) \<Rightarrow> (outcome, st\<lparr>oc_order := order\<rparr>))
              | Inr imageOpts \<Rightarrow>
                  let commitMessage = CommitMessage (map_of (order_annotations order)) (OrderStatus_LatestArtifactDigest (Order_Status order) = []);
                      rendererID = Renderer_of (ow_build v) (EffectiveSpec_Render effective) (ow_BuilderID v)
                  in case ow_Render v (render_request order effective conns intent specHash spec imageOpts commitMessage rendererID)
                       (oc_kept st) (oc_pipe st) of
                    (Inl err, kept, pipe) \<Rightarrow>
                      let st = st\<lparr>oc_kept := kept, oc_pipe := pipe\<rparr>; reason = (case rr_Reason err of Some r \<Rightarrow> r | None \<Rightarrow> []) in
                      if reason \<noteq> [] then (Inr 0, on_order (not_ready v reason (rr_Message err)) st)
                      else (case renderFailed v order (rr_Patch err) (rr_Message err) of (outcome, order) \<Rightarrow> (outcome, st\<lparr>oc_order := order\<rparr>))
                  | (Inr result, kept, pipe) \<Rightarrow>
                      record_render v effective conns specHash commitMessage rendererID result (st\<lparr>oc_kept := kept, oc_pipe := pipe\<rparr>))))"

section \<open>The Serving of the Order\<close>

definition createServing ::
    "('client, 'os, 'ps, 'ss, 'pipe) order_services \<Rightarrow> Order \<Rightarrow> 'ss \<Rightarrow> string option \<times> 'ss" where
  "createServing v order ss =
     (let serving = new_serving order in
      case own v order (Serving_ObjectMeta serving) of
        Inl err \<Rightarrow> (Some err, ss)
      | Inr meta \<Rightarrow>
         (case ob_create (ow_servings v) (serving\<lparr>Serving_ObjectMeta := meta\<rparr>) ss of
            (Inl (ApiAlreadyExists _), ss) \<Rightarrow> (None, ss)
          | (Inl err, ss) \<Rightarrow> (Some (''failed to create Serving: '' @ api_message err), ss)
          | (Inr _, ss) \<Rightarrow> (None, ss)))"

text \<open>An outcome of adopting: done, a conflict, after which it is tried again, or another error.\<close>

datatype adoption = Adopted_or_left | AdoptConflict string | AdoptFailed string

definition adoptServing ::
    "('client, 'os, 'ps, 'ss, 'pipe) order_services \<Rightarrow> Order \<Rightarrow> Serving \<Rightarrow> 'ss \<Rightarrow> adoption \<times> 'ss" where
  "adoptServing v order serving ss =
     (if is_controlled_by (ow_owners v) (Serving_ObjectMeta serving) (Order_ObjectMeta order) then (Adopted_or_left, ss)
      else if ServingSpec_OrderName (Serving_Spec serving) \<noteq> name_of_order order then (Adopted_or_left, ss)
      else if controller_of (ow_owners v) (Serving_ObjectMeta serving) \<noteq> None then (Adopted_or_left, ss)
      else case own v order (Serving_ObjectMeta serving) of
        Inl err \<Rightarrow> (AdoptFailed err, ss)
      | Inr meta \<Rightarrow>
         (case ob_update (ow_servings v) (serving\<lparr>Serving_ObjectMeta := meta\<rparr>) ss of
            (Inr _, ss) \<Rightarrow> (Adopted_or_left, ss)
          | (Inl (ApiConflict m), ss) \<Rightarrow> (AdoptConflict (''failed to adopt Serving: '' @ m), ss)
          | (Inl err, ss) \<Rightarrow> (AdoptFailed (''failed to adopt Serving: '' @ api_message err), ss)))"

definition adopt_once :: "('client, 'os, 'ps, 'ss, 'pipe) order_services \<Rightarrow> Order \<Rightarrow> 'ss \<Rightarrow> adoption \<times> 'ss" where
  "adopt_once v order ss =
     (case ow_live_Serving v (name_of_order order) ss of
        Inr serving \<Rightarrow> adoptServing v order serving ss
      | Inl (ApiNotFound _) \<Rightarrow> (Adopted_or_left, ss)
      | Inl err \<Rightarrow> (AdoptFailed (''failed to get Serving: '' @ api_message err), ss))"

text \<open>\<open>retry.RetryOnConflict\<close> tries again after a conflict, a number of times the library sets.\<close>

fun retry_adopt :: "('client, 'os, 'ps, 'ss, 'pipe) order_services \<Rightarrow> Order \<Rightarrow> nat \<Rightarrow> 'ss \<Rightarrow> string option \<times> 'ss" where
  "retry_adopt v order n ss =
     (case adopt_once v order ss of
        (Adopted_or_left, ss) \<Rightarrow> (None, ss)
      | (AdoptFailed m, ss) \<Rightarrow> (Some m, ss)
      | (AdoptConflict m, ss) \<Rightarrow> (case n of 0 \<Rightarrow> (Some m, ss) | Suc k \<Rightarrow> retry_adopt v order k ss))"

declare retry_adopt.simps [simp del]

definition ensureServing ::
    "('client, 'os, 'ps, 'ss, 'pipe) order_services \<Rightarrow> Order \<Rightarrow> 'ss \<Rightarrow> string option \<times> 'ss" where
  "ensureServing v order ss =
     (case ob_get (ow_servings v) (name_of_order order) ss of
        Inl (ApiNotFound _) \<Rightarrow>
          if EffectivePromotionMode order \<noteq> PromotionModeAutomatic \<or> OrderStatus_LatestPreparationName (Order_Status order) = [] then (None, ss)
          else createServing v order ss
      | Inl err \<Rightarrow> (Some (''failed to get Serving: '' @ api_message err), ss)
      | Inr serving \<Rightarrow>
          if is_controlled_by (ow_owners v) (Serving_ObjectMeta serving) (Order_ObjectMeta order) then (None, ss)
          else retry_adopt v order (ow_retries v) ss)"

section \<open>The reconcile\<close>

text \<open>The Order without a render recorded for its intent records one, and the reconcile that follows renders.\<close>

definition start_render :: "('client, 'os, 'ps, 'ss, 'pipe) order_services \<Rightarrow> string \<Rightarrow> Order \<Rightarrow> Order" where
  "start_render v specHash order =
     MarkUnknown (ow_conditions v) order_setter
       (on_order_status (\<lambda>s. s\<lparr>OrderStatus_Render := Some \<lparr>OrderRender_ConfigHash = specHash\<rparr>\<rparr>) order)
       ConditionTypeReady ReasonProcessing ''Processing component configuration''"

definition credentials_required :: "string \<Rightarrow> string" where
  "credentials_required destination =
     ''The source is private, and pushing its render to '' @ destination
     @ '', which Kokumi writes without credentials, would make it public: list a Registry with credentials for ''
     @ destination @ '' in spec.registryRefs''"

text \<open>From the intent on: it is up to date, would expose its source, is not recorded as being rendered, or is rendered.\<close>

definition reconcile_intent ::
    "('client, 'os, 'ps, 'ss, 'pipe) order_services \<Rightarrow> EffectiveSpec \<Rightarrow> 'client orderConnections \<Rightarrow>
     ('client, 'os, 'ps, 'ss, 'pipe) order_state \<Rightarrow> reconcile_result \<times> ('client, 'os, 'ps, 'ss, 'pipe) order_state" where
  "reconcile_intent v effective conns st =
     (let order = oc_order st; intent = Intent_Canonical (NewIntent order effective (ox_destination conns));
          specHash = CalculateSpecHash intent in
      if OrderStatus_LatestConfigHash (Order_Status order) = specHash then reconcileUpToDate v effective conns st
      else case exposesPrivateSource v effective conns (oc_kept st) of
        (Inl err, kept) \<Rightarrow> (Inl (RetriedError err), st\<lparr>oc_kept := kept\<rparr>)
      | (Inr True, kept) \<Rightarrow>
          (Inr 0, on_order (not_ready v ReasonCredentialsRequired (credentials_required (ox_destination conns))) (st\<lparr>oc_kept := kept\<rparr>))
      | (Inr False, kept) \<Rightarrow>
          let st = st\<lparr>oc_kept := kept\<rparr> in
          if OrderStatus_Render (Order_Status order) \<noteq> Some \<lparr>OrderRender_ConfigHash = specHash\<rparr>
          then (Inr 0, on_order (start_render v specHash) st)
          else render v effective conns intent specHash st)"

definition reconcileOrder ::
    "('client, 'os, 'ps, 'ss, 'pipe) order_services \<Rightarrow> ('client, 'os, 'ps, 'ss, 'pipe) order_state \<Rightarrow>
     reconcile_result \<times> ('client, 'os, 'ps, 'ss, 'pipe) order_state" where
  "reconcileOrder v st =
     (let order = oc_order st in
      case pipelineProblem v order of
        Inl err \<Rightarrow> (Inl (RetriedError err), st)
      | Inr problem \<Rightarrow>
          if problem \<noteq> [] then (Inr 0, on_order (not_ready v ReasonInvalidPipeline problem) st)
          else case readyProduct v order of
            (Inl err, order) \<Rightarrow> (Inl (RetriedError err), st\<lparr>oc_order := order\<rparr>)
          | (Inr None, order) \<Rightarrow> (Inr 0, st\<lparr>oc_order := order\<rparr>)
          | (Inr (Some product), order) \<Rightarrow>
             (case ForProduct ProductRevision product order of
                Inl err \<Rightarrow> (Inl (TerminalError err), on_order (not_ready v ReasonProcessingFailed err) st)
              | Inr effective \<Rightarrow>
                 (case order_connect v order effective (oc_kept st) of
                    (Inl err, kept) \<Rightarrow>
                     (case registryFailed v order err of (outcome, order) \<Rightarrow> (outcome, st\<lparr>oc_kept := kept, oc_order := order\<rparr>))
                  | (Inr conns, kept) \<Rightarrow> reconcile_intent v effective conns (st\<lparr>oc_kept := kept\<rparr>))))"

definition order_finalizers :: "Order \<Rightarrow> string list" where
  "order_finalizers o1 = om_Finalizers (Order_ObjectMeta o1)"

definition set_order_finalizers :: "string list \<Rightarrow> Order \<Rightarrow> Order" where
  "set_order_finalizers fs o1 = o1\<lparr>Order_ObjectMeta := (Order_ObjectMeta o1)\<lparr>om_Finalizers := fs\<rparr>\<rparr>"

text \<open>Writing the Order: the object the server returns replaces it, an error leaves it as it was written.\<close>

definition update_order ::
    "('client, 'os, 'ps, 'ss, 'pipe) order_services \<Rightarrow> ('client, 'os, 'ps, 'ss, 'pipe) order_state \<Rightarrow> string option \<times> ('client, 'os, 'ps, 'ss, 'pipe) order_state" where
  "update_order v st =
     (case or_update (ow_orders v) (oc_order st) (oc_orders st) of
        (Inl err, os) \<Rightarrow> (Some err, st\<lparr>oc_orders := os\<rparr>)
      | (Inr order, os) \<Rightarrow> (None, st\<lparr>oc_orders := os, oc_order := order\<rparr>))"

definition order_reconcileDelete ::
    "('client, 'os, 'ps, 'ss, 'pipe) order_services \<Rightarrow> ('client, 'os, 'ps, 'ss, 'pipe) order_state \<Rightarrow>
     reconcile_result \<times> ('client, 'os, 'ps, 'ss, 'pipe) order_state" where
  "order_reconcileDelete v st =
     (if Finalizer \<notin> set (order_finalizers (oc_order st)) then (Inr 0, st)
      else let st = on_order (\<lambda>o1. set_order_finalizers (filter (\<lambda>f. f \<noteq> Finalizer) (order_finalizers o1)) o1) st in
        case update_order v st of (Some err, st) \<Rightarrow> (Inl (RetriedError err), st) | (None, st) \<Rightarrow> (Inr 0, st))"

text \<open>Reconciling the Order, and then its Serving whatever came of it.\<close>

definition reconcile_with_serving ::
    "('client, 'os, 'ps, 'ss, 'pipe) order_services \<Rightarrow> ('client, 'os, 'ps, 'ss, 'pipe) order_state \<Rightarrow>
     reconcile_result \<times> ('client, 'os, 'ps, 'ss, 'pipe) order_state" where
  "reconcile_with_serving v st =
     (case reconcileOrder v st of
        (result, st) \<Rightarrow>
         (case ensureServing v (oc_order st) (oc_servings st) of
            (None, ss) \<Rightarrow> (result, st\<lparr>oc_servings := ss\<rparr>)
          | (Some serr, ss) \<Rightarrow> (join_reconcile result serr, st\<lparr>oc_servings := ss\<rparr>)))"

definition order_reconcile_body ::
    "('client, 'os, 'ps, 'ss, 'pipe) order_services \<Rightarrow> ('client, 'os, 'ps, 'ss, 'pipe) order_state \<Rightarrow>
     reconcile_result \<times> ('client, 'os, 'ps, 'ss, 'pipe) order_state" where
  "order_reconcile_body v st =
     (if om_DeletionTimestamp (Order_ObjectMeta (oc_order st)) \<noteq> None then order_reconcileDelete v st
      else if Finalizer \<in> set (order_finalizers (oc_order st)) then reconcile_with_serving v st
      else let st = on_order (\<lambda>o1. set_order_finalizers (order_finalizers o1 @ [Finalizer]) o1) st in
        case update_order v st of
          (Some err, st) \<Rightarrow> (Inl (RetriedError err), st)
        | (None, st) \<Rightarrow> reconcile_with_serving v st)"

definition order_patchStatus ::
    "('client, 'os, 'ps, 'ss, 'pipe) order_services \<Rightarrow> OrderStatus \<Rightarrow> reconcile_result \<Rightarrow> ('client, 'os, 'ps, 'ss, 'pipe) order_state \<Rightarrow>
     reconcile_result \<times> ('client, 'os, 'ps, 'ss, 'pipe) order_state" where
  "order_patchStatus v before result st =
     (let st = on_order (\<lambda>o1. on_order_status (\<lambda>s. s\<lparr>OrderStatus_ObservedGeneration := om_Generation (Order_ObjectMeta o1)\<rparr>) o1) st in
      if Order_Status (oc_order st) = before then (result, st)
      else case or_patch_status (ow_orders v) (oc_order st) before (oc_orders st) of
        (w, os) \<Rightarrow> (patch_outcome ''Order'' result w, st\<lparr>oc_orders := os\<rparr>))"

definition order_Reconcile ::
    "('client, 'os, 'ps, 'ss, 'pipe) order_services \<Rightarrow> string \<Rightarrow> string \<Rightarrow> ('client, 'os, 'ps, 'ss, 'pipe) order_state \<Rightarrow>
     reconcile_result \<times> ('client, 'os, 'ps, 'ss, 'pipe) order_state" where
  "order_Reconcile v namespace name st =
     (case or_get (ow_orders v) namespace name (oc_orders st) of
        Inl (NotFound _) \<Rightarrow> (Inr 0, st)
      | Inl (GetFailed err) \<Rightarrow> (Inl (RetriedError (''failed to get Order: '' @ err)), st)
      | Inr order \<Rightarrow>
         (case order_reconcile_body v (st\<lparr>oc_order := order\<rparr>) of
            (result, st) \<Rightarrow> order_patchStatus v (Order_Status order) result st))"

end
