(* ===== verification/Order_Safety.thy ===== *)
theory Order_Safety
  imports Order_Controller Registry_Safety Resolve_Canonical
begin

text \<open>
  What one reconcile of an Order may do: when it renders, what it needs to have found before, what the Ready
  condition means, and whose Serving it touches.
\<close>

section \<open>What comes before a render\<close>

definition intent_hash :: "Order \<Rightarrow> EffectiveSpec \<Rightarrow> string" where
  "intent_hash order effective = CalculateSpecHash (Intent_Canonical (NewIntent order effective (order_destination order)))"

text \<open>The Order is a valid stage, its Product is ready, what it overrides is allowed, and its registries connect.\<close>

definition admitted ::
    "('client, 'os, 'ps, 'ss, 'pipe) order_services \<Rightarrow> Order \<Rightarrow> 'client kept \<Rightarrow> Product \<Rightarrow> EffectiveSpec \<Rightarrow> 'client orderConnections \<Rightarrow>
     'client kept \<Rightarrow> bool" where
  "admitted v order kept product effective conns kept' \<longleftrightarrow>
     pipelineProblem v order = Inr []
     \<and> ow_get_Product v (order_namespace order) (ProductRef_Name (OrderSpec_ProductRef (Order_Spec order))) = Inr product
     \<and> om_DeletionTimestamp (Product_ObjectMeta product) = None
     \<and> ProductReady (find_condition (ow_conditions v)) product
     \<and> ForProduct ProductRevision product order = Inr effective
     \<and> order_connect v order effective kept = (Inr conns, kept')"

lemma readyProduct_Some:
  assumes "readyProduct v order = (Inr (Some product), order')"
  shows "order' = order \<and> om_DeletionTimestamp (Product_ObjectMeta product) = None \<and> ProductReady (find_condition (ow_conditions v)) product
    \<and> ow_get_Product v (order_namespace order) (ProductRef_Name (OrderSpec_ProductRef (Order_Spec order))) = Inr product"
  using assms by (auto simp: readyProduct_def Let_def split: sum.splits read_failure.splits if_splits)

lemma order_connect_parts:
  assumes "order_connect v order effective kept = (Inr conns, kept')"
  shows "ox_destination conns = order_destination order
    \<and> Resolver_Scope (ow_reader v) (order_namespace order) (EffectiveSpec_RegistryRefs effective) = Inr (ox_product conns)
    \<and> Resolver_Scope (ow_reader v) (order_namespace order) (OrderSpec_RegistryRefs (Order_Spec order)) = Inr (ox_order conns)
    \<and> (\<exists>k. Scope_Connect (ow_registry v) (ow_clients v) (ox_product conns) (OCISource_URL (EffectiveSpec_Source effective)) kept = (Inr (ox_source conns), k)
        \<and> Scope_Connect (ow_registry v) (ow_clients v) (ox_order conns) (order_destination order) k = (Inr (ox_destConn conns), kept'))"
  using assms by (auto simp: order_connect_def Let_def split: sum.splits prod.splits)

lemma admitted_destination: "admitted v order kept product effective conns kept' \<Longrightarrow> ox_destination conns = order_destination order"
  using order_connect_parts [of v order effective kept conns kept'] by (auto simp: admitted_def)

section \<open>The Ready condition\<close>

definition order_ready :: "('client, 'os, 'ps, 'ss, 'pipe) order_services \<Rightarrow> Order \<Rightarrow> bool" where
  "order_ready v o1 \<longleftrightarrow> is_condition_true (ow_conditions v) (Order_GetConditions o1) ConditionTypeReady"

lemma order_conditions [simp]:
  "Order_GetConditions (Order_SetConditions cs o1) = cs"
  "Order_GetConditions (on_order_status (\<lambda>s. s\<lparr>OrderStatus_Render := x\<rparr>) o1) = Order_GetConditions o1"
  "Order_GetConditions (on_order_status (\<lambda>s. s\<lparr>OrderStatus_RegistryAccess := a\<rparr>) o1) = Order_GetConditions o1"
  by (simp_all add: Order_GetConditions_def Order_SetConditions_def on_order_status_def)

lemma order_setter_simps [simp]:
  "GetConditions order_setter = Order_GetConditions" "SetConditions order_setter = Order_SetConditions"
  by (simp_all add: order_setter_def)

lemma ready_after_set:
  assumes "condition_laws (ow_conditions v)"
  shows "order_ready v (Set_condition (ow_conditions v) order_setter o1 ConditionTypeReady status reason message) \<longleftrightarrow> status = ConditionTrue"
proof -
  obtain c where "find_condition (ow_conditions v) (set_condition (ow_conditions v) (Order_GetConditions o1)
      \<lparr>c_Type = ConditionTypeReady, c_Status = status, c_ObservedGeneration = GetGeneration order_setter o1, c_LastTransitionTime = 0,
       c_Reason = reason, c_Message = Truncate message maxMessageLength\<rparr>) ConditionTypeReady = Some c" "c_Status c = status"
    using assms unfolding condition_laws_def same_condition_def by (metis condition.select_convs(1,2))
  then show ?thesis using assms by (simp add: order_ready_def Set_condition_def condition_laws_def)
qed

lemma not_ready_ready [simp]: "condition_laws (ow_conditions v) \<Longrightarrow> \<not> order_ready v (not_ready v reason message o1)"
  by (simp add: not_ready_def MarkFalse_def ready_after_set)

lemma start_render_ready [simp]: "condition_laws (ow_conditions v) \<Longrightarrow> \<not> order_ready v (start_render v hash o1)"
  by (simp add: start_render_def MarkUnknown_def ready_after_set)

section \<open>What marking leaves\<close>

text \<open>The parts of an Order that conditions are not: its metadata, its spec, and the rest of its status.\<close>

definition same_order :: "Order \<Rightarrow> Order \<Rightarrow> bool" where
  "same_order a b \<longleftrightarrow> Order_ObjectMeta a = Order_ObjectMeta b \<and> Order_Spec a = Order_Spec b
     \<and> OrderStatus_LatestPreparationName (Order_Status a) = OrderStatus_LatestPreparationName (Order_Status b)
     \<and> OrderStatus_LatestArtifactDigest (Order_Status a) = OrderStatus_LatestArtifactDigest (Order_Status b)
     \<and> OrderStatus_LatestConfigHash (Order_Status a) = OrderStatus_LatestConfigHash (Order_Status b)"

lemma same_order_refl [simp]: "same_order a a"
  by (simp add: same_order_def)

lemma same_order_marks [simp]:
  "same_order (not_ready v reason message o1) o1" "same_order (start_render v hash o1) o1" "same_order (markUpToDate v e conns latest o1) o1"
  by (simp_all add: same_order_def not_ready_def start_render_def markUpToDate_def Let_def mark_defs Order_SetConditions_def on_order_status_def)

lemma order_with_spec:
  assumes "order_namespace a = order_namespace b" "name_of_order a = name_of_order b" "Order_Spec a = Order_Spec b"
  shows "order_destination a = order_destination b" "NewIntent a e d = NewIntent b e d" "intent_hash a e = intent_hash b e"
    "pipelineProblem v a = pipelineProblem v b" "ForProduct revise product a = ForProduct revise product b"
    "order_connect v a e kept = order_connect v b e kept"
proof -
  show dest: "order_destination a = order_destination b" by (simp add: order_destination_def assms)
  have gates: "Order_PromotionGates a = Order_PromotionGates b" "Order_UpstreamStages a = Order_UpstreamStages b"
    by (simp_all add: Order_PromotionGates_def Order_ApprovalPolicy_def Order_UpstreamStages_def Order_PromotionChecks_def assms)
  show intent: "NewIntent a e d = NewIntent b e d" for d by (simp add: NewIntent_def gates)
  show "intent_hash a e = intent_hash b e" by (simp add: intent_hash_def dest intent)
  have "pipelineOrder a = pipelineOrder b" by (simp add: pipelineOrder_def orderUpstreamNames_def gates assms)
  then show "pipelineProblem v a = pipelineProblem v b" by (simp add: pipelineProblem_def gates assms cong: sum.case_cong)
  show "ForProduct revise product a = ForProduct revise product b"
  proof -
    have "mergeRender product a = mergeRender product b" "mergePatches product a = mergePatches product b"
      "validateEdits product a = validateEdits product b" "TargetNamespace product a = TargetNamespace product b"
      by (simp_all add: mergeRender_def mergePatches_def validateEdits_def TargetNamespace_def assms)
    then show ?thesis by (simp add: ForProduct_def assms cong: option.case_cong sum.case_cong)
  qed
  show "order_connect v a e kept = order_connect v b e kept" by (simp add: order_connect_def dest assms cong: sum.case_cong prod.case_cong)
qed

section \<open>The ways a reconcile ends\<close>

text \<open>All that a reconcile changes but the Order and the clients of its registries is as before.\<close>

definition rest_same :: "('client, 'os, 'ps, 'ss, 'pipe) order_state \<Rightarrow> ('client, 'os, 'ps, 'ss, 'pipe) order_state \<Rightarrow> bool" where
  "rest_same a b \<longleftrightarrow> oc_orders a = oc_orders b \<and> oc_preparations a = oc_preparations b \<and> oc_servings a = oc_servings b
     \<and> oc_pipe a = oc_pipe b \<and> oc_events a = oc_events b"

text \<open>It stopped: the Order is the same, and a reconcile that does not fail leaves it not Ready.\<close>

definition stopped ::
    "('client, 'os, 'ps, 'ss, 'pipe) order_services \<Rightarrow> ('client, 'os, 'ps, 'ss, 'pipe) order_state \<Rightarrow> reconcile_result \<Rightarrow>
     ('client, 'os, 'ps, 'ss, 'pipe) order_state \<Rightarrow> bool" where
  "stopped v st res st' \<longleftrightarrow> rest_same st' st \<and> same_order (oc_order st') (oc_order st)
     \<and> (res = Inr 0 \<longrightarrow> \<not> order_ready v (oc_order st'))"

lemma reconcileOrder_cases:
  assumes "reconcileOrder v st = (res, st')" "condition_laws (ow_conditions v)"
  obtains (stopped) "stopped v st res st'"
    | (admitted) product effective conns kept where "admitted v (oc_order st) (oc_kept st) product effective conns kept"
        "reconcile_intent v effective conns (st\<lparr>oc_kept := kept\<rparr>) = (res, st')"
proof (cases "pipelineProblem v (oc_order st)")
  case (Inl err)
  then show thesis using assms by (intro stopped) (auto simp: reconcileOrder_def stopped_def rest_same_def)
next
  case pipeline: (Inr problem)
  show thesis
  proof (cases "problem = []")
    case False
    then show thesis using assms pipeline
      by (intro stopped) (auto simp: reconcileOrder_def stopped_def rest_same_def on_order_def Let_def)
  next
    case True
    obtain found order where product: "readyProduct v (oc_order st) = (found, order)" by fastforce
    show thesis
    proof (cases "\<exists>p. found = Inr (Some p)")
      case False
      then have "same_order order (oc_order st) \<and> (found = Inr None \<longrightarrow> \<not> order_ready v order)"
        using product assms(2) by (auto simp: readyProduct_def Let_def split: sum.splits read_failure.splits if_splits)
      then show thesis using assms pipeline product False \<open>problem = []\<close>
        by (intro stopped) (auto simp: reconcileOrder_def stopped_def rest_same_def Let_def split: sum.splits option.splits)
    next
      case True
      then obtain p where p: "found = Inr (Some p)" by auto
      have same: "order = oc_order st" using readyProduct_Some product p by blast
      show thesis
      proof (cases "ForProduct ProductRevision p (oc_order st)")
        case (Inl err)
        then show thesis using assms pipeline product p same \<open>problem = []\<close>
          by (intro stopped) (auto simp: reconcileOrder_def stopped_def rest_same_def on_order_def Let_def)
      next
        case effective: (Inr effective)
        obtain r kept where connect: "order_connect v (oc_order st) effective (oc_kept st) = (r, kept)" by fastforce
        show thesis
        proof (cases r)
          case (Inl err)
          obtain o1 outcome where failed: "registryFailed v (oc_order st) err = (outcome, o1)" by fastforce
          then have "same_order o1 (oc_order st) \<and> (outcome = Inr 0 \<longrightarrow> \<not> order_ready v o1)"
            using assms(2) by (auto simp: registryFailed_def Let_def split: if_splits)
          then show thesis using assms pipeline product p same effective connect Inl failed \<open>problem = []\<close>
            by (intro stopped) (auto simp: reconcileOrder_def stopped_def rest_same_def Let_def)
        next
          case (Inr conns)
          then show thesis using assms pipeline product p same effective connect \<open>problem = []\<close> readyProduct_Some [of v "oc_order st" p order]
            by (intro admitted [of p effective conns kept]) (auto simp: reconcileOrder_def admitted_def Let_def)
        qed
      qed
    qed
  qed
qed

definition up_to_date :: "Order \<Rightarrow> string \<Rightarrow> bool" where
  "up_to_date o1 hash \<longleftrightarrow> OrderStatus_LatestConfigHash (Order_Status o1) = hash"

text \<open>Its intent may be rendered: no Preparation renders it, it does not expose its source, and the Order says it is rendering it.\<close>

definition may_render ::
    "('client, 'os, 'ps, 'ss, 'pipe) order_services \<Rightarrow> Order \<Rightarrow> EffectiveSpec \<Rightarrow> 'client orderConnections \<Rightarrow> 'client kept \<Rightarrow> 'client kept \<Rightarrow> bool" where
  "may_render v order effective conns kept kept' \<longleftrightarrow>
     \<not> up_to_date order (intent_hash order effective)
     \<and> exposesPrivateSource v effective conns kept = (Inr False, kept')
     \<and> OrderStatus_Render (Order_Status order) = Some \<lparr>OrderRender_ConfigHash = intent_hash order effective\<rparr>"

lemma reconcile_intent_cases:
  assumes "reconcile_intent v effective conns st = (res, st')" "condition_laws (ow_conditions v)"
    and "ox_destination conns = order_destination (oc_order st)"
  obtains (stopped) "\<not> up_to_date (oc_order st) (intent_hash (oc_order st) effective)" "stopped v st res st'"
    | (up_to_date) "up_to_date (oc_order st) (intent_hash (oc_order st) effective)" "reconcileUpToDate v effective conns st = (res, st')"
    | (render) kept where "may_render v (oc_order st) effective conns (oc_kept st) kept"
        "render v effective conns (Intent_Canonical (NewIntent (oc_order st) effective (order_destination (oc_order st))))
           (intent_hash (oc_order st) effective) (st\<lparr>oc_kept := kept\<rparr>) = (res, st')"
proof -
  have hash: "CalculateSpecHash (Intent_Canonical (NewIntent (oc_order st) effective (ox_destination conns))) = intent_hash (oc_order st) effective"
    by (simp add: intent_hash_def assms(3))
  obtain r kept where exposes: "exposesPrivateSource v effective conns (oc_kept st) = (r, kept)" by fastforce
  show thesis
  proof (cases "up_to_date (oc_order st) (intent_hash (oc_order st) effective)")
    case True
    then show thesis using assms(1) hash by (intro up_to_date) (simp_all add: reconcile_intent_def up_to_date_def Let_def)
  next
    case False
    then have intent: "reconcile_intent v effective conns st =
        (case exposesPrivateSource v effective conns (oc_kept st) of
          (Inl err, kept) \<Rightarrow> (Inl (RetriedError err), st\<lparr>oc_kept := kept\<rparr>)
        | (Inr True, kept) \<Rightarrow>
            (Inr 0, on_order (not_ready v ReasonCredentialsRequired (credentials_required (ox_destination conns))) (st\<lparr>oc_kept := kept\<rparr>))
        | (Inr False, kept) \<Rightarrow>
            if OrderStatus_Render (Order_Status (oc_order st)) \<noteq> Some \<lparr>OrderRender_ConfigHash = intent_hash (oc_order st) effective\<rparr>
            then (Inr 0, on_order (start_render v (intent_hash (oc_order st) effective)) (st\<lparr>oc_kept := kept\<rparr>))
            else render v effective conns (Intent_Canonical (NewIntent (oc_order st) effective (ox_destination conns)))
              (intent_hash (oc_order st) effective) (st\<lparr>oc_kept := kept\<rparr>))"
      using hash by (simp add: reconcile_intent_def up_to_date_def Let_def cong: if_cong sum.case_cong prod.case_cong bool.case_cong)
    show thesis
    proof (cases "r = Inr False \<and> OrderStatus_Render (Order_Status (oc_order st)) = Some \<lparr>OrderRender_ConfigHash = intent_hash (oc_order st) effective\<rparr>")
      case True
      then show thesis using assms(1,3) intent exposes False by (intro render [of kept]) (auto simp: may_render_def)
    next
      case stop: False
      then show thesis using assms(1,2) intent exposes False
        by (intro stopped) (auto simp: stopped_def rest_same_def on_order_def split: sum.splits bool.splits if_splits)
    qed
  qed
qed

lemma markUpToDate_ready: "condition_laws (ow_conditions v) \<Longrightarrow> order_ready v (markUpToDate v effective conns latest o1)"
  by (simp add: markUpToDate_def MarkTrue_def Let_def ready_after_set)

lemma markUpToDate_render: "OrderStatus_Render (Order_Status (markUpToDate v effective conns latest o1)) = OrderStatus_Render (Order_Status o1)"
  by (simp add: markUpToDate_def Let_def mark_defs Order_SetConditions_def on_order_status_def)

lemma same_order_trans: "same_order a b \<Longrightarrow> same_order b c \<Longrightarrow> same_order a c"
  by (simp add: same_order_def)

lemma same_order_render [simp]: "same_order (on_order_status (\<lambda>s. s\<lparr>OrderStatus_Render := x\<rparr>) o1) o1"
  by (simp add: same_order_def on_order_status_def)

lemma reconcileUpToDate_steps:
  assumes "reconcileUpToDate v effective conns st = (res, st')" "condition_laws (ow_conditions v)"
  shows "rest_same st' st \<and> oc_kept st' = oc_kept st \<and> same_order (oc_order st') (oc_order st) \<and> OrderStatus_Render (Order_Status (oc_order st')) = None
    \<and> (res = Inr 0 \<longrightarrow> order_ready v (oc_order st'))"
proof -
  let ?o = "on_order_status (\<lambda>s. s\<lparr>OrderStatus_Render := None\<rparr>) (oc_order st)"
  have none: "OrderStatus_Render (Order_Status ?o) = None" by (simp add: on_order_status_def)
  have "same_order (markUpToDate v effective conns latest ?o) (oc_order st)" for latest
    by (rule same_order_trans [OF same_order_marks(3) same_order_render])
  then show ?thesis using assms none
    by (auto simp: reconcileUpToDate_def markUpToDate_ready markUpToDate_render Let_def rest_same_def on_order_def split: sum.splits)
qed

section \<open>Rendering\<close>

lemma createPreparation_name:
  assumes "createPreparation v order rendered ps = (Inr p, ps')"
  shows "ob_get (ow_preparations v) (om_Name (Preparation_ObjectMeta (new_preparation (ow_references v) order rendered))) ps = Inr p \<and> ps' = ps
    \<or> (\<exists>meta. own v order (Preparation_ObjectMeta (new_preparation (ow_references v) order rendered)) = Inr meta
        \<and> ob_create (ow_preparations v) (new_preparation (ow_references v) order rendered\<lparr>Preparation_ObjectMeta := meta\<rparr>) ps = (Inr p, ps'))"
  using assms by (auto simp: createPreparation_def Let_def split: sum.splits api_failure.splits prod.splits)

text \<open>What the Order records of a Preparation and of the artifact it was rendered to.\<close>

definition records :: "Order \<Rightarrow> string \<Rightarrow> string \<Rightarrow> string \<Rightarrow> bool" where
  "records o1 hash preparation digest \<longleftrightarrow> OrderStatus_LatestConfigHash (Order_Status o1) = hash
     \<and> OrderStatus_LatestPreparationName (Order_Status o1) = preparation
     \<and> OrderStatus_LatestArtifactDigest (Order_Status o1) = digest \<and> OrderStatus_Render (Order_Status o1) = None"

text \<open>The same but for its annotations and its version.\<close>

definition same_identity :: "Order \<Rightarrow> Order \<Rightarrow> bool" where
  "same_identity a b \<longleftrightarrow> Order_Spec a = Order_Spec b \<and> (\<exists>anns ver. Order_ObjectMeta a =
     (Order_ObjectMeta b)\<lparr>om_Annotations := anns, om_ResourceVersion := ver\<rparr>)"

lemma consumeCommitMessage_parts:
  "oc_preparations (consumeCommitMessage v st) = oc_preparations st \<and> oc_servings (consumeCommitMessage v st) = oc_servings st
   \<and> oc_pipe (consumeCommitMessage v st) = oc_pipe st \<and> oc_kept (consumeCommitMessage v st) = oc_kept st
   \<and> oc_events (consumeCommitMessage v st) = oc_events st
   \<and> Order_Status (oc_order (consumeCommitMessage v st)) = Order_Status (oc_order st)
   \<and> same_identity (oc_order (consumeCommitMessage v st)) (oc_order st)"
proof -
  have same: "Order_ObjectMeta o1 = (Order_ObjectMeta o1)\<lparr>om_Annotations := om_Annotations (Order_ObjectMeta o1),
      om_ResourceVersion := om_ResourceVersion (Order_ObjectMeta o1)\<rparr>" for o1 by simp
  show ?thesis
    by (auto simp: consumeCommitMessage_def same_identity_def Let_def split: prod.splits sum.splits intro: same)
qed

lemma recordUnresolvedImages_parts:
  "\<exists>es. recordUnresolvedImages p imgs st = st\<lparr>oc_events := oc_events st @ es\<rparr>"
  by (auto simp: recordUnresolvedImages_def Let_def intro: exI [of _ "[]"])

lemma markUpToDate_parts [simp]:
  "records (markUpToDate v effective conns latest o1) hash name digest \<longleftrightarrow> records o1 hash name digest"
  "same_identity (markUpToDate v effective conns latest o1) o2 \<longleftrightarrow> same_identity o1 o2"
  by (simp_all add: records_def same_identity_def markUpToDate_def Let_def mark_defs Order_SetConditions_def on_order_status_def)

lemma record_render_created:
  assumes "record_render v effective conns hash commit renderer result st = (res, st')" "condition_laws (ow_conditions v)"
    and "createPreparation v (oc_order st) (rendered_artifact (oc_order st) effective conns hash commit renderer result) (oc_preparations st) = (Inr p, ps)"
  shows "res = Inr 0 \<and> oc_preparations st' = ps \<and> oc_servings st' = oc_servings st \<and> oc_pipe st' = oc_pipe st \<and> oc_kept st' = oc_kept st
    \<and> order_ready v (oc_order st') \<and> same_identity (oc_order st') (oc_order st)
    \<and> records (oc_order st') hash (om_Name (Preparation_ObjectMeta p)) (ref_Digest (rz_DestRef result))"
proof -
  let ?st = "recordUnresolvedImages p (rz_Images result) (st\<lparr>oc_preparations := ps\<rparr>)"
  obtain es where es: "?st = (st\<lparr>oc_preparations := ps\<rparr>)\<lparr>oc_events := oc_events st @ es\<rparr>"
    using recordUnresolvedImages_parts [of p "rz_Images result" "st\<lparr>oc_preparations := ps\<rparr>"] by auto
  let ?c = "consumeCommitMessage v ?st"
  have c: "oc_preparations ?c = ps" "oc_servings ?c = oc_servings st" "oc_pipe ?c = oc_pipe st" "oc_kept ?c = oc_kept st"
      "same_identity (oc_order ?c) (oc_order st)"
    using consumeCommitMessage_parts [of v ?st] es by simp_all
  let ?o = "on_order_status (\<lambda>s. s\<lparr>OrderStatus_LatestConfigHash := hash, OrderStatus_LatestPreparationName := om_Name (Preparation_ObjectMeta p),
      OrderStatus_LatestArtifactDigest := ref_Digest (rz_DestRef result), OrderStatus_Render := None\<rparr>) (oc_order ?c)"
  have out: "res = Inr 0" "st' = ?c\<lparr>oc_order := markUpToDate v effective conns (Some p) ?o\<rparr>"
    using assms(1,3) by (simp_all add: record_render_def Let_def on_order_def)
  have "records ?o hash (om_Name (Preparation_ObjectMeta p)) (ref_Digest (rz_DestRef result))" "same_identity ?o (oc_order st)"
    using c(5) by (simp_all add: records_def same_identity_def on_order_status_def)
  then show ?thesis using out c markUpToDate_ready [OF assms(2)] by simp
qed

lemma record_render_failed:
  assumes "record_render v effective conns hash commit renderer result st = (res, st')"
    and "createPreparation v (oc_order st) (rendered_artifact (oc_order st) effective conns hash commit renderer result) (oc_preparations st) = (Inl err, ps)"
  shows "(\<exists>m. res = Inl m) \<and> oc_preparations st' = ps \<and> oc_servings st' = oc_servings st \<and> oc_pipe st' = oc_pipe st \<and> oc_kept st' = oc_kept st
    \<and> oc_orders st' = oc_orders st \<and> oc_events st' = oc_events st \<and> same_order (oc_order st') (oc_order st)"
  using assms by (auto simp: record_render_def renderFailed_def)

text \<open>The request of a render, with what the Order locks of its images.\<close>

definition request_of ::
    "('client, 'os, 'ps, 'ss, 'pipe) order_services \<Rightarrow> Order \<Rightarrow> EffectiveSpec \<Rightarrow> 'client orderConnections \<Rightarrow> 'ps \<Rightarrow>
     string + 'client RenderRequest" where
  "request_of v order effective conns ps =
     (case ToArtifactSpec effective of
        Inl err \<Rightarrow> Inl err
      | Inr spec \<Rightarrow>
         (case imageOptions v order effective (sp_Images spec) ps of
            Inl err \<Rightarrow> Inl err
          | Inr opts \<Rightarrow> Inr (render_request order effective conns (Intent_Canonical (NewIntent order effective (order_destination order)))
              (intent_hash order effective) spec opts
              (CommitMessage (map_of (order_annotations order)) (OrderStatus_LatestArtifactDigest (Order_Status order) = []))
              (Renderer_of (ow_build v) (EffectiveSpec_Render effective) (ow_BuilderID v)))))"

lemma render_cases:
  assumes "render v effective conns (Intent_Canonical (NewIntent (oc_order st) effective (order_destination (oc_order st))))
      (intent_hash (oc_order st) effective) st = (res, st')" "condition_laws (ow_conditions v)"
  obtains (failed) "oc_orders st' = oc_orders st" "oc_preparations st' = oc_preparations st" "oc_servings st' = oc_servings st"
        "oc_events st' = oc_events st" "same_order (oc_order st') (oc_order st)" "res = Inr 0 \<longrightarrow> \<not> order_ready v (oc_order st')"
        "oc_pipe st' \<noteq> oc_pipe st \<longrightarrow> isLatest v (oc_order st) (oc_orders st) = Inr True"
    | (rendered) request result kept pipe where "isLatest v (oc_order st) (oc_orders st) = Inr True"
        "request_of v (oc_order st) effective conns (oc_preparations st) = Inr request"
        "ow_Render v request (oc_kept st) (oc_pipe st) = (Inr result, kept, pipe)"
        "record_render v effective conns (intent_hash (oc_order st) effective)
           (CommitMessage (map_of (order_annotations (oc_order st))) (OrderStatus_LatestArtifactDigest (Order_Status (oc_order st)) = []))
           (Renderer_of (ow_build v) (EffectiveSpec_Render effective) (ow_BuilderID v)) result
           (st\<lparr>oc_kept := kept, oc_pipe := pipe\<rparr>) = (res, st')"
proof (cases "isLatest v (oc_order st) (oc_orders st) = Inr True")
  case False
  then show thesis using assms(1) by (cases "isLatest v (oc_order st) (oc_orders st)") (intro failed; auto simp: render_def Let_def split: bool.splits)+
next
  case latest: True
  show thesis
  proof (cases "ToArtifactSpec effective")
    case (Inl err)
    then show thesis using assms(1) latest by (intro failed) (auto simp: render_def Let_def)
  next
    case spec: (Inr spec)
    show thesis
    proof (cases "imageOptions v (oc_order st) effective (sp_Images spec) (oc_preparations st)")
      case (Inl err)
      then show thesis using assms(1) latest spec by (intro failed) (auto simp: render_def renderFailed_def Let_def)
    next
      case opts: (Inr opts)
      obtain request where request: "request_of v (oc_order st) effective conns (oc_preparations st) = Inr request"
        using spec opts by (simp add: request_of_def)
      obtain outcome kept pipe where out: "ow_Render v request (oc_kept st) (oc_pipe st) = (outcome, kept, pipe)" by (metis prod_cases3)
      show thesis
      proof (cases outcome)
        case (Inl err)
        then show thesis using assms latest spec opts request out
          by (intro failed) (auto simp: render_def request_of_def renderFailed_def on_order_def Let_def split: if_splits)
      next
        case (Inr result)
        then show thesis using assms latest spec opts request out
          by (intro rendered [of request result kept pipe]) (auto simp: render_def request_of_def Let_def)
      qed
    qed
  qed
qed

section \<open>What an Order renders\<close>

text \<open>The artifact of the intent was rendered or a Preparation created: everything that has to come before.\<close>

lemma reconcileOrder_renders:
  assumes "reconcileOrder v st = (res, st')" "condition_laws (ow_conditions v)"
    and "oc_pipe st' \<noteq> oc_pipe st \<or> oc_preparations st' \<noteq> oc_preparations st"
  shows "\<exists>product effective conns k kept. admitted v (oc_order st) (oc_kept st) product effective conns k
    \<and> may_render v (oc_order st) effective conns k kept \<and> isLatest v (oc_order st) (oc_orders st) = Inr True"
  using assms(1,2)
proof (cases rule: reconcileOrder_cases)
  case stopped
  then show ?thesis using assms(3) by (auto simp: stopped_def rest_same_def)
next
  case (admitted product effective conns k)
  have dest: "ox_destination conns = order_destination (oc_order (st\<lparr>oc_kept := k\<rparr>))"
    using admitted_destination [OF admitted(1)] by simp
  from admitted(2) assms(2) dest show ?thesis
  proof (cases rule: reconcile_intent_cases)
    case stopped
    then show ?thesis using assms(3) by (auto simp: stopped_def rest_same_def)
  next
    case up_to_date
    then show ?thesis using assms(3) reconcileUpToDate_steps [OF up_to_date(2) assms(2)] by (auto simp: rest_same_def)
  next
    case (render kept)
    have "isLatest v (oc_order st) (oc_orders st) = Inr True"
      by (rule render_cases [of v effective conns "(st\<lparr>oc_kept := k\<rparr>)\<lparr>oc_kept := kept\<rparr>" res st']) (use render(2) assms(2,3) in auto)
    moreover have "may_render v (oc_order st) effective conns k kept" using render(1) by simp
    ultimately show ?thesis using admitted(1) by blast
  qed
qed

text \<open>
  The Preparation that an Order names: the one it named when it recorded the hash of the intent before, and
  otherwise one that the server of Preparations answers with in this reconcile, read by the name of, or created as,
  the Preparation of that hash.
\<close>

definition names_prepared ::
    "('client, 'os, 'ps, 'ss, 'pipe) order_services \<Rightarrow> string \<Rightarrow> Order \<Rightarrow> 'ps \<Rightarrow> Order \<Rightarrow> 'ps \<Rightarrow> bool" where
  "names_prepared v hash order ps order' ps' \<longleftrightarrow>
     (if up_to_date order hash
      then OrderStatus_LatestPreparationName (Order_Status order') = OrderStatus_LatestPreparationName (Order_Status order)
      else \<exists>x p. PreparationSpec_ConfigHash (Preparation_Spec x) = hash
        \<and> OrderStatus_LatestPreparationName (Order_Status order') = om_Name (Preparation_ObjectMeta p)
        \<and> (ob_get (ow_preparations v) (om_Name (Preparation_ObjectMeta x)) ps = Inr p
           \<or> ob_create (ow_preparations v) x ps = (Inr p, ps')))"

lemma createPreparation_prepared:
  assumes "createPreparation v order rendered ps = (Inr p, ps')"
  shows "\<exists>x. PreparationSpec_ConfigHash (Preparation_Spec x) = rn_ConfigHash rendered
    \<and> (ob_get (ow_preparations v) (om_Name (Preparation_ObjectMeta x)) ps = Inr p \<or> ob_create (ow_preparations v) x ps = (Inr p, ps'))"
proof -
  let ?p = "new_preparation (ow_references v) order rendered"
  have "PreparationSpec_ConfigHash (Preparation_Spec ?p) = rn_ConfigHash rendered" by (simp add: new_preparation_def Let_def)
  moreover have "PreparationSpec_ConfigHash (Preparation_Spec (?p\<lparr>Preparation_ObjectMeta := meta\<rparr>)) = rn_ConfigHash rendered" for meta
    by (simp add: calculation)
  ultimately show ?thesis using createPreparation_name [OF assms] by blast
qed

text \<open>An Order that reports Ready records the intent it has now, with its Preparation.\<close>

lemma reconcileOrder_ready:
  assumes "reconcileOrder v st = (Inr 0, st')" "condition_laws (ow_conditions v)" "order_ready v (oc_order st')"
  shows "\<exists>product effective conns k. admitted v (oc_order st) (oc_kept st) product effective conns k
    \<and> up_to_date (oc_order st') (intent_hash (oc_order st) effective) \<and> OrderStatus_Render (Order_Status (oc_order st')) = None
    \<and> names_prepared v (intent_hash (oc_order st) effective) (oc_order st) (oc_preparations st) (oc_order st') (oc_preparations st')"
  using assms(1,2)
proof (cases rule: reconcileOrder_cases)
  case stopped
  then show ?thesis using assms(3) by (simp add: stopped_def)
next
  case (admitted product effective conns k)
  have dest: "ox_destination conns = order_destination (oc_order (st\<lparr>oc_kept := k\<rparr>))"
    using admitted_destination [OF admitted(1)] by simp
  let ?hash = "intent_hash (oc_order st) effective"
  have "up_to_date (oc_order st') ?hash \<and> OrderStatus_Render (Order_Status (oc_order st')) = None
      \<and> names_prepared v ?hash (oc_order st) (oc_preparations st) (oc_order st') (oc_preparations st')"
    using admitted(2) assms(2) dest
  proof (cases rule: reconcile_intent_cases)
    case stopped
    then show ?thesis using assms(3) by (simp add: stopped_def)
  next
    case up_to_date
    then show ?thesis using reconcileUpToDate_steps [OF up_to_date(2) assms(2)]
      by (simp add: up_to_date_def same_order_def names_prepared_def)
  next
    case (render kept)
    let ?st = "(st\<lparr>oc_kept := k\<rparr>)\<lparr>oc_kept := kept\<rparr>"
    have out: "render v effective conns (Intent_Canonical (NewIntent (oc_order ?st) effective (order_destination (oc_order ?st))))
        (intent_hash (oc_order ?st) effective) ?st = (Inr 0, st')" using render(2) by simp
    have fresh: "\<not> up_to_date (oc_order st) ?hash" using render(1) by (simp add: may_render_def)
    from out assms(2) show ?thesis
    proof (cases rule: render_cases)
      case failed
      then show ?thesis using assms(3) by simp
    next
      case (rendered request result kept' pipe)
      let ?rendered = "rendered_artifact (oc_order st) effective conns ?hash
          (CommitMessage (map_of (order_annotations (oc_order st))) (OrderStatus_LatestArtifactDigest (Order_Status (oc_order st)) = []))
          (Renderer_of (ow_build v) (EffectiveSpec_Render effective) (ow_BuilderID v)) result"
      obtain r ps where created: "createPreparation v (oc_order st) ?rendered (oc_preparations st) = (r, ps)" by fastforce
      show ?thesis
      proof (cases r)
        case (Inl err)
        then show ?thesis using record_render_failed [OF rendered(4), of err ps] created by simp
      next
        case (Inr p)
        then have recorded: "records (oc_order st') ?hash (om_Name (Preparation_ObjectMeta p)) (ref_Digest (rz_DestRef result))"
          "oc_preparations st' = ps"
          using record_render_created [OF rendered(4) assms(2), of p ps] created by simp_all
        have "\<exists>x. PreparationSpec_ConfigHash (Preparation_Spec x) = ?hash
            \<and> (ob_get (ow_preparations v) (om_Name (Preparation_ObjectMeta x)) (oc_preparations st) = Inr p
               \<or> ob_create (ow_preparations v) x (oc_preparations st) = (Inr p, ps))"
          using createPreparation_prepared created Inr by (fastforce simp: rendered_artifact_def)
        then show ?thesis using recorded fresh by (auto simp: records_def up_to_date_def names_prepared_def)
      qed
    qed
  qed
  then show ?thesis using admitted(1) by blast
qed

end
