(* ===== verification/Attestation.thy ===== *)
theory Attestation
  imports Evidence Control
begin

text \<open>
  Attestations (\<open>internal/attestation/attestation.go\<close>): statements signed and attached to an artifact as
  referrers, and found again. The registry client, the signer and the trust set are parameters; what they
  document is the locale \<open>referrer_registry\<close>, over an abstract state of the registry, with a registry that
  computes as its instance. The theory proves that what is found verifies and is the newest that does, and
  that a push that is retried finds the referrer the first one attached.
\<close>

section \<open>Referrers and signatures\<close>

record descriptor =
  ds_Digest :: string
  ds_Annotations :: "string \<rightharpoonup> string"

record referrer_artifact =
  rf_ArtifactType :: string
  rf_MediaType :: string
  rf_Payload :: string
  rf_Annotations :: "string \<rightharpoonup> string"

datatype fetch_failure = PayloadTooLarge string | FetchFailed string

text \<open>The calls of a registry client (\<open>oci.Client\<close>) on referrers and config blobs, over the state of the registry.\<close>

record 'reg referrer_client =
  rg_ListReferrers :: "oci_reference \<Rightarrow> string \<Rightarrow> 'reg \<Rightarrow> string + descriptor list"
  rg_FetchReferrer :: "oci_reference \<Rightarrow> 'reg \<Rightarrow> fetch_failure + referrer_artifact"
  rg_PushReferrer :: "oci_reference \<Rightarrow> referrer_artifact \<Rightarrow> 'reg \<Rightarrow> (string + string) \<times> 'reg"
  rg_FetchConfig :: "oci_reference \<Rightarrow> 'reg \<Rightarrow> string + string \<times> string"

record Verification =
  vn_KeyID :: string
  vn_PredicateType :: string
  vn_Statement :: string

text \<open>An error of the trust set: it wraps \<open>signing.ErrNotVerified\<close> or not.\<close>

datatype verify_failure = NotVerified string | VerifyFailed string

type_synonym 'trust verifier = "'trust \<Rightarrow> string \<Rightarrow> string \<Rightarrow> string \<Rightarrow> verify_failure + Verification"

record 'trust Signer =
  sg_KeyID :: string
  sg_TrustSet :: 'trust
  sg_Sign :: "string \<Rightarrow> string + string"

definition SigstoreBundleMediaType :: string where
  "SigstoreBundleMediaType = ''application/vnd.dev.sigstore.bundle.v0.3+json''"

definition AnnotationBundleContent :: string where
  "AnnotationBundleContent = ''dev.sigstore.bundle.content''"

definition BundleContentDSSEEnvelope :: string where
  "BundleContentDSSEEnvelope = ''dsse-envelope''"

definition AnnotationBundlePredicateType :: string where
  "AnnotationBundlePredicateType = ''dev.sigstore.bundle.predicateType''"

definition AnnotationInTotoPredicateType :: string where
  "AnnotationInTotoPredicateType = ''in-toto.io/predicate-type''"

definition AnnotationCreated :: string where
  "AnnotationCreated = ''org.opencontainers.image.created''"

section \<open>Finding an attestation\<close>

record found_evidence =
  fe_Digest :: string
  fe_KeyID :: string
  fe_Statement :: string

definition SignatureStatement :: "string \<Rightarrow> string + string" where
  "SignatureStatement digest = NewStatement [] digest SignaturePredicateType (JObj [])"

definition referrer_reference :: "oci_reference \<Rightarrow> string \<Rightarrow> oci_reference" where
  "referrer_reference subject digest = subject\<lparr>ref_Tag := [], ref_Digest := digest\<rparr>"

fun wrap_verify :: "string \<Rightarrow> verify_failure \<Rightarrow> verify_failure" where
  "wrap_verify prefix (NotVerified m) = NotVerified (prefix @ m)"
| "wrap_verify prefix (VerifyFailed m) = VerifyFailed (prefix @ m)"

definition verifyReferrer ::
    "'reg referrer_client \<Rightarrow> 'trust verifier \<Rightarrow> 'trust \<Rightarrow> oci_reference \<Rightarrow> string \<Rightarrow> string \<Rightarrow> 'reg \<Rightarrow> verify_failure + found_evidence" where
  "verifyReferrer client verify trust subject digest predicateType reg =
     (case rg_FetchReferrer client (referrer_reference subject digest) reg of
        Inl (PayloadTooLarge m) \<Rightarrow> Inl (NotVerified (''signature not verified: '' @ digest @ '': '' @ m))
      | Inl (FetchFailed m) \<Rightarrow> Inl (VerifyFailed (''fetching attestation '' @ digest @ '': '' @ m))
      | Inr fetched \<Rightarrow>
          if rf_MediaType fetched \<noteq> SigstoreBundleMediaType
          then Inl (NotVerified (''signature not verified: '' @ digest @ '' holds '' @ go_quote (rf_MediaType fetched) @ '', not a Sigstore bundle''))
          else (case verify trust (rf_Payload fetched) (ref_Digest subject) predicateType of
              Inl err \<Rightarrow> Inl (wrap_verify (digest @ '': '') err)
            | Inr v \<Rightarrow> Inr \<lparr>fe_Digest = digest, fe_KeyID = vn_KeyID v, fe_Statement = vn_Statement v\<rparr>))"

text \<open>The candidates: those without the annotation, or with it, in the order they are tried.\<close>

definition annotation :: "string \<Rightarrow> descriptor \<Rightarrow> string" where
  "annotation k d = (case ds_Annotations d k of Some x \<Rightarrow> x | None \<Rightarrow> [])"

definition newest_first :: "descriptor \<Rightarrow> descriptor \<Rightarrow> int" where
  "newest_first a b =
     cmp_or [str_compare (annotation AnnotationCreated b) (annotation AnnotationCreated a), str_compare (ds_Digest b) (ds_Digest a)]"

definition annotated_as :: "string \<Rightarrow> descriptor \<Rightarrow> bool" where
  "annotated_as predicateType d =
     (case ds_Annotations d AnnotationBundlePredicateType of None \<Rightarrow> True | Some t \<Rightarrow> t = predicateType)"

definition no_attestation :: "string \<Rightarrow> string \<Rightarrow> string" where
  "no_attestation subject predicateType = ''attestation not found: '' @ subject @ '' has no '' @ predicateType @ '' attestation''"

fun find_loop ::
    "'reg referrer_client \<Rightarrow> 'trust verifier \<Rightarrow> 'trust \<Rightarrow> oci_reference \<Rightarrow> string \<Rightarrow> (found_evidence \<Rightarrow> bool) \<Rightarrow> 'reg \<Rightarrow>
     descriptor list \<Rightarrow> string list \<Rightarrow> (string + string list) + found_evidence" where
  "find_loop client verify trust subject predicateType accept reg [] errs = Inl (Inr errs)"
| "find_loop client verify trust subject predicateType accept reg (d # ds) errs =
     (case verifyReferrer client verify trust subject (ds_Digest d) predicateType reg of
        Inr evidence \<Rightarrow>
          if accept evidence then Inr evidence
          else find_loop client verify trust subject predicateType accept reg ds
            (errs @ [''signature not verified: '' @ ds_Digest d @ '' carries another statement''])
      | Inl (NotVerified m) \<Rightarrow> find_loop client verify trust subject predicateType accept reg ds (errs @ [m])
      | Inl (VerifyFailed m) \<Rightarrow> Inl (Inl m))"

definition find_attestation ::
    "'reg referrer_client \<Rightarrow> 'trust verifier \<Rightarrow> (oci_reference \<Rightarrow> string) \<Rightarrow> 'trust \<Rightarrow> oci_reference \<Rightarrow> string \<Rightarrow> (found_evidence \<Rightarrow> bool) \<Rightarrow>
     'reg \<Rightarrow> find_failure + found_evidence" where
  "find_attestation client verify ref_string trust subject predicateType accept reg =
     (case rg_ListReferrers client subject SigstoreBundleMediaType reg of
        Inl err \<Rightarrow> Inl (FindNotRead (''listing attestations of '' @ ref_string subject @ '': '' @ err))
      | Inr found \<Rightarrow>
          let referrers = filter (annotated_as predicateType) found in
          if referrers = [] then Inl (FindNotFound (no_attestation (ref_string subject) predicateType))
          else (case find_loop client verify trust subject predicateType accept reg (sort_cmp newest_first referrers) [] of
              Inl (Inl err) \<Rightarrow> Inl (FindNotRead err)
            | Inl (Inr errs) \<Rightarrow> Inl (FindNotVerified (''no '' @ predicateType @ '' attestation of '' @ ref_string subject @ '' verified: ''
                @ str_join [CHR 0x0A] errs))
            | Inr evidence \<Rightarrow> Inr evidence))"

definition Find ::
    "'reg referrer_client \<Rightarrow> 'trust verifier \<Rightarrow> (oci_reference \<Rightarrow> string) \<Rightarrow> 'trust \<Rightarrow> oci_reference \<Rightarrow> string \<Rightarrow> 'reg \<Rightarrow>
     find_failure + found_evidence" where
  "Find client verify ref_string trust subject predicateType reg =
     find_attestation client verify ref_string trust subject predicateType (\<lambda>_. True) reg"

section \<open>Attaching an attestation\<close>

definition referrer_annotations :: "(string \<rightharpoonup> string) \<Rightarrow> time \<Rightarrow> string \<Rightarrow> string \<rightharpoonup> string" where
  "referrer_annotations annotations created predicateType =
     annotations(AnnotationCreated \<mapsto> rfc3339 created, AnnotationBundleContent \<mapsto> BundleContentDSSEEnvelope,
       AnnotationBundlePredicateType \<mapsto> predicateType, AnnotationInTotoPredicateType \<mapsto> predicateType)"

definition PushAnnotated ::
    "'reg referrer_client \<Rightarrow> 'trust verifier \<Rightarrow> (oci_reference \<Rightarrow> string) \<Rightarrow> 'trust Signer \<Rightarrow> oci_reference \<Rightarrow> string \<Rightarrow> string \<Rightarrow> time \<Rightarrow>
     (string \<rightharpoonup> string) \<Rightarrow> 'reg \<Rightarrow> (string + string) \<times> 'reg" where
  "PushAnnotated client verify ref_string signer subject predicateType statement created annotations reg =
     (case find_attestation client verify ref_string (sg_TrustSet signer) subject predicateType (\<lambda>v. fe_Statement v = statement) reg of
        Inr existing \<Rightarrow> (Inr (fe_Digest existing), reg)
      | Inl (FindNotRead err) \<Rightarrow> (Inl err, reg)
      | Inl _ \<Rightarrow>
         (case sg_Sign signer statement of
            Inl err \<Rightarrow> (Inl err, reg)
          | Inr sealed \<Rightarrow>
             (case rg_PushReferrer client subject
                 \<lparr>rf_ArtifactType = SigstoreBundleMediaType, rf_MediaType = SigstoreBundleMediaType, rf_Payload = sealed,
                  rf_Annotations = referrer_annotations annotations created predicateType\<rparr> reg of
                (Inl err, reg) \<Rightarrow> (Inl (''pushing attestation for '' @ ref_string subject @ '': '' @ err), reg)
              | (Inr digest, reg) \<Rightarrow> (Inr digest, reg))))"

definition Push ::
    "'reg referrer_client \<Rightarrow> 'trust verifier \<Rightarrow> (oci_reference \<Rightarrow> string) \<Rightarrow> 'trust Signer \<Rightarrow> oci_reference \<Rightarrow> string \<Rightarrow> string \<Rightarrow> time \<Rightarrow>
     'reg \<Rightarrow> (string + string) \<times> 'reg" where
  "Push client verify ref_string signer subject predicateType statement created =
     PushAnnotated client verify ref_string signer subject predicateType statement created Map.empty"

definition Sign ::
    "'reg referrer_client \<Rightarrow> 'trust verifier \<Rightarrow> (oci_reference \<Rightarrow> string) \<Rightarrow> 'trust Signer \<Rightarrow> oci_reference \<Rightarrow> time \<Rightarrow>
     'reg \<Rightarrow> (string + string) \<times> 'reg" where
  "Sign client verify ref_string signer subject created reg =
     (case SignatureStatement (ref_Digest subject) of
        Inl err \<Rightarrow> (Inl err, reg)
      | Inr statement \<Rightarrow> Push client verify ref_string signer subject SignaturePredicateType statement created reg)"

section \<open>What is found\<close>

text \<open>The order candidates are tried in is a total preorder that separates referrers by digest.\<close>

interpretation newest: three_way newest_first
proof
  fix a b c :: descriptor
  let ?k = "\<lambda>d. (annotation AnnotationCreated d, ds_Digest d)"
  show "newest_first b a = - newest_first a b"
    by (auto simp: newest_first_def ord_compare_def)
  show "newest_first a c \<le> 0" if "newest_first a b \<le> 0" "newest_first b c \<le> 0"
    using that by (auto simp: newest_first_def ord_compare_def split: if_splits)
qed

definition verifies_at ::
    "'reg referrer_client \<Rightarrow> 'trust verifier \<Rightarrow> 'trust \<Rightarrow> oci_reference \<Rightarrow> string \<Rightarrow> 'reg \<Rightarrow> string \<Rightarrow> found_evidence \<Rightarrow> bool" where
  "verifies_at client verify trust subject predicateType reg digest evidence \<longleftrightarrow>
     (\<exists>a v. rg_FetchReferrer client (referrer_reference subject digest) reg = Inr a \<and> rf_MediaType a = SigstoreBundleMediaType
        \<and> verify trust (rf_Payload a) (ref_Digest subject) predicateType = Inr v
        \<and> evidence = \<lparr>fe_Digest = digest, fe_KeyID = vn_KeyID v, fe_Statement = vn_Statement v\<rparr>)"

lemma verifyReferrer_Inr:
  "verifyReferrer client verify trust subject digest predicateType reg = Inr evidence \<longleftrightarrow>
   verifies_at client verify trust subject predicateType reg digest evidence"
  by (auto simp: verifyReferrer_def verifies_at_def split: sum.splits fetch_failure.splits)

text \<open>What the loop returns is the first candidate that verifies and is accepted; the ones before it were read and do not.\<close>

lemma find_loop_Inr:
  "find_loop client verify trust subject predicateType accept reg ds errs = Inr evidence \<longleftrightarrow>
     (\<exists>before d after. ds = before @ d # after
        \<and> verifies_at client verify trust subject predicateType reg (ds_Digest d) evidence \<and> accept evidence
        \<and> (\<forall>x\<in>set before. (\<exists>m. verifyReferrer client verify trust subject (ds_Digest x) predicateType reg = Inl (NotVerified m))
             \<or> (\<exists>e. verifies_at client verify trust subject predicateType reg (ds_Digest x) e \<and> \<not> accept e)))"
  (is "_ \<longleftrightarrow> ?first ds")
proof (induction ds arbitrary: errs)
  case (Cons x xs)
  let ?skip = "\<lambda>x. (\<exists>m. verifyReferrer client verify trust subject (ds_Digest x) predicateType reg = Inl (NotVerified m))
             \<or> (\<exists>e. verifies_at client verify trust subject predicateType reg (ds_Digest x) e \<and> \<not> accept e)"
  have split: "?first (x # xs) \<longleftrightarrow> (verifies_at client verify trust subject predicateType reg (ds_Digest x) evidence \<and> accept evidence)
      \<or> ?skip x \<and> ?first xs" (is "_ \<longleftrightarrow> ?head \<or> _")
  proof
    assume "?first (x # xs)"
    then obtain bs d as where at: "x # xs = bs @ d # as" "verifies_at client verify trust subject predicateType reg (ds_Digest d) evidence"
      "accept evidence" "\<forall>b\<in>set bs. ?skip b" by blast
    show "?head \<or> ?skip x \<and> ?first xs"
    proof (cases bs)
      case Nil
      then show ?thesis using at by simp
    next
      case (Cons b cs)
      then have "x = b" "xs = cs @ d # as" using at(1) by simp_all
      then show ?thesis using at Cons by auto
    qed
  next
    assume "?head \<or> ?skip x \<and> ?first xs"
    then show "?first (x # xs)"
    proof
      assume ?head
      then show ?thesis by (intro exI [of _ "[]"] exI [of _ x] exI [of _ xs]) simp
    next
      assume rest: "?skip x \<and> ?first xs"
      then obtain bs d as where "xs = bs @ d # as" "verifies_at client verify trust subject predicateType reg (ds_Digest d) evidence"
        "accept evidence" "\<forall>b\<in>set bs. ?skip b" by blast
      then show ?thesis using rest by (intro exI [of _ "x # bs"] exI [of _ d] exI [of _ as]) simp
    qed
  qed
  define rest where "rest \<longleftrightarrow> ?first xs"
  have IH: "find_loop client verify trust subject predicateType accept reg xs es = Inr evidence \<longleftrightarrow> rest" for es
    using Cons.IH by (simp only: rest_def)
  have first: "?first (x # xs) \<longleftrightarrow> ?head \<or> ?skip x \<and> rest" by (simp only: split rest_def)
  show ?case
  proof (cases "verifyReferrer client verify trust subject (ds_Digest x) predicateType reg")
    case (Inl f)
    then have "\<not> verifies_at client verify trust subject predicateType reg (ds_Digest x) e" for e
      unfolding verifyReferrer_Inr [symmetric] by simp
    then show ?thesis unfolding first using Inl IH by (cases f) simp_all
  next
    case (Inr e)
    then have "verifies_at client verify trust subject predicateType reg (ds_Digest x) e' \<longleftrightarrow> e' = e" for e'
      unfolding verifyReferrer_Inr [symmetric] by auto
    then show ?thesis unfolding first using Inr IH by auto
  qed
qed simp

lemma find_loop_exhausted:
  "find_loop client verify trust subject predicateType accept reg ds errs = Inl (Inr errs') \<Longrightarrow> x \<in> set ds \<Longrightarrow>
   (\<exists>m. verifyReferrer client verify trust subject (ds_Digest x) predicateType reg = Inl (NotVerified m))
   \<or> (\<exists>e. verifies_at client verify trust subject predicateType reg (ds_Digest x) e \<and> \<not> accept e)"
  by (induction ds arbitrary: errs) (auto simp: verifyReferrer_Inr split: sum.splits verify_failure.splits if_splits)

lemma find_attestation_Inr:
  "find_attestation client verify ref_string trust subject predicateType accept reg = Inr evidence \<longleftrightarrow>
     (\<exists>ds. rg_ListReferrers client subject SigstoreBundleMediaType reg = Inr ds
        \<and> find_loop client verify trust subject predicateType accept reg (sort_cmp newest_first (filter (annotated_as predicateType) ds)) [] = Inr evidence)"
  by (auto simp: find_attestation_def Let_def split: sum.splits)

text \<open>What is found is listed, verifies for the subject and the predicate type, and is the newest that is accepted.\<close>

lemma find_attestation_newest:
  assumes "find_attestation client verify ref_string trust subject predicateType accept reg = Inr evidence"
  shows "\<exists>ds d. rg_ListReferrers client subject SigstoreBundleMediaType reg = Inr ds \<and> d \<in> set ds \<and> annotated_as predicateType d
    \<and> verifies_at client verify trust subject predicateType reg (ds_Digest d) evidence \<and> accept evidence
    \<and> (\<forall>x\<in>set ds. annotated_as predicateType x \<longrightarrow> newest_first x d < 0 \<longrightarrow>
         \<not> (\<exists>e. verifies_at client verify trust subject predicateType reg (ds_Digest x) e \<and> accept e))"
proof -
  obtain ds where ds: "rg_ListReferrers client subject SigstoreBundleMediaType reg = Inr ds"
      "find_loop client verify trust subject predicateType accept reg (sort_cmp newest_first (filter (annotated_as predicateType) ds)) [] = Inr evidence"
    using assms unfolding find_attestation_Inr by blast
  then obtain bs d as where sorted: "sort_cmp newest_first (filter (annotated_as predicateType) ds) = bs @ d # as"
      and d: "verifies_at client verify trust subject predicateType reg (ds_Digest d) evidence" "accept evidence"
      and skipped: "\<forall>x\<in>set bs. (\<exists>m. verifyReferrer client verify trust subject (ds_Digest x) predicateType reg = Inl (NotVerified m))
             \<or> (\<exists>e. verifies_at client verify trust subject predicateType reg (ds_Digest x) e \<and> \<not> accept e)"
    unfolding find_loop_Inr by blast
  have members: "set (bs @ d # as) = {x \<in> set ds. annotated_as predicateType x}"
    using arg_cong [OF sorted, of set] by auto
  have order: "\<forall>x\<in>set as. newest_first d x \<le> 0"
    using newest.sort_sorted [of "filter (annotated_as predicateType) ds"] unfolding sorted by (simp add: sorted_wrt_append)
  have "\<not> (\<exists>e. verifies_at client verify trust subject predicateType reg (ds_Digest x) e \<and> accept e)"
    if "x \<in> set ds" "annotated_as predicateType x" "newest_first x d < 0" for x
  proof -
    have "x \<noteq> d" using that(3) by auto
    moreover have "x \<notin> set as" using order that(3) newest.cmp_flip [of d x] by force
    ultimately have "x \<in> set bs" using that(1,2) members by auto
    then show ?thesis using skipped unfolding verifyReferrer_Inr [symmetric] by fastforce
  qed
  then show ?thesis using ds(1) d members by (intro exI [of _ ds] exI [of _ d]) auto
qed

section \<open>Retries\<close>

text \<open>A bundle the signer made for a statement verifies with its key, for the subject and the type the statement names.\<close>

definition signer_laws :: "'trust verifier \<Rightarrow> 'trust Signer \<Rightarrow> bool" where
  "signer_laws verify signer \<longleftrightarrow>
     (\<forall>name digest predicateType predicate statement sealed.
        NewStatement name digest predicateType predicate = Inr statement \<longrightarrow> sg_Sign signer statement = Inr sealed \<longrightarrow>
        verify (sg_TrustSet signer) sealed digest predicateType
          = Inr \<lparr>vn_KeyID = sg_KeyID signer, vn_PredicateType = predicateType, vn_Statement = statement\<rparr>)"

definition MaxReferrerPayloadSize :: nat where
  "MaxReferrerPayloadSize = 16 * 2 ^ 20"

text \<open>The registry holds a bundle over the statement at a digest, which verifies for the subject; and it lost nothing.\<close>

definition held_statement ::
    "('reg \<Rightarrow> string \<Rightarrow> string \<Rightarrow> string \<rightharpoonup> referrer_artifact) \<Rightarrow> 'trust verifier \<Rightarrow> 'trust \<Rightarrow> 'reg \<Rightarrow> oci_reference \<Rightarrow> string \<Rightarrow> string \<Rightarrow>
     string \<Rightarrow> bool" where
  "held_statement referrers verify trust reg subject predicateType statement d \<longleftrightarrow>
     (\<exists>a vn. referrers reg (RepositoryReference subject) (ref_Digest subject) d = Some a \<and> rf_MediaType a = SigstoreBundleMediaType
        \<and> verify trust (rf_Payload a) (ref_Digest subject) predicateType = Inr vn \<and> vn_Statement vn = statement)"

definition registry_grows :: "('reg \<Rightarrow> string \<Rightarrow> string \<Rightarrow> string \<rightharpoonup> referrer_artifact) \<Rightarrow> 'reg \<Rightarrow> 'reg \<Rightarrow> bool" where
  "registry_grows referrers reg reg' \<longleftrightarrow>
     (\<forall>repo digest d a. referrers reg repo digest d = Some a \<longrightarrow> referrers reg' repo digest d = Some a)"

lemma registry_grows_refl [simp]: "registry_grows referrers reg reg"
  by (simp add: registry_grows_def)

lemma registry_grows_trans: "registry_grows referrers a b \<Longrightarrow> registry_grows referrers b c \<Longrightarrow> registry_grows referrers a c"
  by (simp add: registry_grows_def)

lemma held_statement_grows:
  "held_statement referrers verify trust reg subject t statement d \<Longrightarrow> registry_grows referrers reg reg' \<Longrightarrow>
   held_statement referrers verify trust reg' subject t statement d"
  unfolding held_statement_def registry_grows_def by blast

text \<open>
  The referrers of a registry, by repository, subject digest and digest. A listing names all of a type with
  their annotations; a fetch fails or returns the content of the digest, if it is not too large; a push adds
  one, under a digest that named no other content.
\<close>

locale referrer_registry =
  fixes client :: "'reg referrer_client"
    and referrers :: "'reg \<Rightarrow> string \<Rightarrow> string \<Rightarrow> string \<rightharpoonup> referrer_artifact"
  assumes listing: "rg_ListReferrers client subject t reg = Inr ds \<Longrightarrow>
      set ds = {\<lparr>ds_Digest = d, ds_Annotations = rf_Annotations a\<rparr> |d a.
        referrers reg (RepositoryReference subject) (ref_Digest subject) d = Some a \<and> rf_ArtifactType a = t}"
    and fetching: "referrers reg (RepositoryReference ref) digest (ref_Digest ref) = Some a \<Longrightarrow>
      (\<exists>m. rg_FetchReferrer client ref reg = Inl (FetchFailed m))
      \<or> (if length (rf_Payload a) > MaxReferrerPayloadSize then \<exists>m. rg_FetchReferrer client ref reg = Inl (PayloadTooLarge m)
          else rg_FetchReferrer client ref reg = Inr a)"
    and pushing: "rg_PushReferrer client subject a reg = (Inr d, reg') \<Longrightarrow>
      referrers reg (RepositoryReference subject) (ref_Digest subject) d \<in> {None, Some a}
      \<and> (\<forall>repo digest. referrers reg' repo digest =
           (if repo = RepositoryReference subject \<and> digest = ref_Digest subject then (referrers reg repo digest)(d \<mapsto> a)
            else referrers reg repo digest))"
begin

text \<open>A candidate that was read and passed over is passed over where it is read again.\<close>

lemma skipped_again:
  assumes "referrers reg (RepositoryReference subject) (ref_Digest subject) d = Some a"
    and "referrers reg' (RepositoryReference subject) (ref_Digest subject) d = Some a"
    and "(\<exists>m. verifyReferrer client verify trust subject d predicateType reg = Inl (NotVerified m))
      \<or> (\<exists>e. verifies_at client verify trust subject predicateType reg d e \<and> \<not> accept e)"
    and "verifies_at client verify trust subject predicateType reg' d e'"
  shows "\<not> accept e'"
proof -
  let ?ref = "referrer_reference subject d"
  have repo: "RepositoryReference ?ref = RepositoryReference subject" "ref_Digest ?ref = d"
    by (simp_all add: referrer_reference_def RepositoryReference_def)
  have after: "rg_FetchReferrer client ?ref reg' = Inr a" "rf_MediaType a = SigstoreBundleMediaType"
      "length (rf_Payload a) \<le> MaxReferrerPayloadSize"
    using assms(4) fetching [of reg' ?ref "ref_Digest subject" a] assms(2) repo by (auto simp: verifies_at_def split: if_splits)
  have before: "rg_FetchReferrer client ?ref reg = Inr a \<or> (\<exists>m. rg_FetchReferrer client ?ref reg = Inl (FetchFailed m))"
    using fetching [of reg ?ref "ref_Digest subject" a] assms(1) repo after(3) by auto
  obtain v where v: "verify trust (rf_Payload a) (ref_Digest subject) predicateType = Inr v"
      "e' = \<lparr>fe_Digest = d, fe_KeyID = vn_KeyID v, fe_Statement = vn_Statement v\<rparr>"
    using assms(4) after(1) by (auto simp: verifies_at_def)
  show ?thesis using assms(3) before after(2) v by (auto simp: verifyReferrer_def verifies_at_def)
qed

text \<open>A candidate was passed over: it was read and does not verify, or verifies and is not accepted.\<close>

lemma none_accepted:
  assumes "find_attestation client verify ref_string trust subject predicateType accept reg = Inl failed" "\<And>m. failed \<noteq> FindNotRead m"
    and "rg_ListReferrers client subject SigstoreBundleMediaType reg = Inr ds" "x \<in> set ds" "annotated_as predicateType x"
  shows "(\<exists>m. verifyReferrer client verify trust subject (ds_Digest x) predicateType reg = Inl (NotVerified m))
    \<or> (\<exists>e. verifies_at client verify trust subject predicateType reg (ds_Digest x) e \<and> \<not> accept e)"
proof -
  have "filter (annotated_as predicateType) ds \<noteq> []" using assms(4,5) by (auto simp: filter_empty_conv)
  then obtain errs where "find_loop client verify trust subject predicateType accept reg
      (sort_cmp newest_first (filter (annotated_as predicateType) ds)) [] = Inl (Inr errs)"
    using assms(1-3) by (auto simp: find_attestation_def Let_def split: sum.splits)
  from find_loop_exhausted [OF this, of x] show ?thesis using assms(4,5) by simp
qed

lemma find_listed:
  assumes "find_attestation client verify ref_string trust subject predicateType accept reg = Inl failed" "\<And>m. failed \<noteq> FindNotRead m"
  obtains ds where "rg_ListReferrers client subject SigstoreBundleMediaType reg = Inr ds"
  using assms by (cases "rg_ListReferrers client subject SigstoreBundleMediaType reg") (auto simp: find_attestation_def)

lemma push_annotated [simp]:
  "annotated_as predicateType \<lparr>ds_Digest = d, ds_Annotations = referrer_annotations annotations created predicateType\<rparr>"
  by (simp add: annotated_as_def referrer_annotations_def AnnotationBundlePredicateType_def AnnotationInTotoPredicateType_def
      AnnotationCreated_def AnnotationBundleContent_def)

text \<open>A bundle that was pushed verifies where it can be read, and the registry holds nothing else that is new.\<close>

lemma pushed_verifies:
  assumes "referrers reg (RepositoryReference subject) (ref_Digest subject) d = Some a" "rf_Payload a = sealed"
    and "rf_MediaType a = SigstoreBundleMediaType" "length sealed \<le> MaxReferrerPayloadSize" "signer_laws verify signer"
    and "NewStatement name (ref_Digest subject) predicateType predicate = Inr statement" "sg_Sign signer statement = Inr sealed"
  shows "(\<exists>m. verifyReferrer client verify (sg_TrustSet signer) subject d predicateType reg = Inl (VerifyFailed m))
    \<or> verifies_at client verify (sg_TrustSet signer) subject predicateType reg d
        \<lparr>fe_Digest = d, fe_KeyID = sg_KeyID signer, fe_Statement = statement\<rparr>"
proof -
  have "verify (sg_TrustSet signer) sealed (ref_Digest subject) predicateType
      = Inr \<lparr>vn_KeyID = sg_KeyID signer, vn_PredicateType = predicateType, vn_Statement = statement\<rparr>"
    using assms(5-7) unfolding signer_laws_def by blast
  moreover have "RepositoryReference (referrer_reference subject d) = RepositoryReference subject" "ref_Digest (referrer_reference subject d) = d"
    by (simp_all add: referrer_reference_def RepositoryReference_def)
  ultimately show ?thesis
    using fetching [of reg "referrer_reference subject d" "ref_Digest subject" a] assms(1-4)
    by (auto simp: verifyReferrer_def verifies_at_def split: if_splits)
qed

text \<open>What a push leaves in the registry is what finding the statement again finds, when the registry can be read.\<close>

lemma push_found:
  assumes "PushAnnotated client verify ref_string signer subject predicateType statement created annotations reg = (Inr d, reg')"
    and "signer_laws verify signer" "NewStatement name (ref_Digest subject) predicateType predicate = Inr statement"
    and "\<forall>sealed. sg_Sign signer statement = Inr sealed \<longrightarrow> length sealed \<le> MaxReferrerPayloadSize"
  shows "(\<exists>m. find_attestation client verify ref_string (sg_TrustSet signer) subject predicateType (\<lambda>e. fe_Statement e = statement) reg'
           = Inl (FindNotRead m))
    \<or> (\<exists>e. find_attestation client verify ref_string (sg_TrustSet signer) subject predicateType (\<lambda>e. fe_Statement e = statement) reg' = Inr e
         \<and> fe_Digest e = d \<and> fe_Statement e = statement)"
proof -
  let ?accept = "\<lambda>e. fe_Statement e = statement"
  let ?find = "find_attestation client verify ref_string (sg_TrustSet signer) subject predicateType ?accept"
  let ?held = "\<lambda>reg. referrers reg (RepositoryReference subject) (ref_Digest subject)"
  show ?thesis
  proof (cases "?find reg")
    case (Inr e)
    then show ?thesis using assms(1) find_attestation_newest [OF Inr] by (auto simp: PushAnnotated_def)
  next
    case before: (Inl failed)
    then obtain sealed a where sealed: "sg_Sign signer statement = Inr sealed"
        and a: "a = \<lparr>rf_ArtifactType = SigstoreBundleMediaType, rf_MediaType = SigstoreBundleMediaType, rf_Payload = sealed,
                  rf_Annotations = referrer_annotations annotations created predicateType\<rparr>"
        and push: "rg_PushReferrer client subject a reg = (Inr d, reg')" and not_read: "\<And>m. failed \<noteq> FindNotRead m"
      using assms(1) by (auto simp: PushAnnotated_def split: find_failure.splits sum.splits prod.splits)
    have held: "?held reg' = (?held reg)(d \<mapsto> a)" using pushing [OF push] by simp
    obtain ds where ds: "rg_ListReferrers client subject SigstoreBundleMediaType reg = Inr ds" using find_listed [OF before not_read] .
    have found: "fe_Digest e = d" if found_e: "?find reg' = Inr e" for e
    proof (rule ccontr)
      assume other: "fe_Digest e \<noteq> d"
      obtain ds' x where x: "rg_ListReferrers client subject SigstoreBundleMediaType reg' = Inr ds'" "x \<in> set ds'"
          "annotated_as predicateType x" "verifies_at client verify (sg_TrustSet signer) subject predicateType reg' (ds_Digest x) e" "?accept e"
        using find_attestation_newest [OF found_e] by blast
      obtain b where b: "?held reg' (ds_Digest x) = Some b" "rf_ArtifactType b = SigstoreBundleMediaType"
          "x = \<lparr>ds_Digest = ds_Digest x, ds_Annotations = rf_Annotations b\<rparr>"
        using listing [OF x(1)] x(2) by auto
      have "fe_Digest e = ds_Digest x" using x(4) by (auto simp: verifies_at_def)
      then have old: "?held reg (ds_Digest x) = Some b" using held b(1) other by simp
      then have "x \<in> set ds" using listing [OF ds] b by auto
      from skipped_again [OF old b(1) none_accepted [OF before not_read ds this x(3)] x(4)] x(5) show False by blast
    qed
    show ?thesis
    proof (cases "?find reg'")
      case (Inr e)
      then show ?thesis using found find_attestation_newest [OF Inr] by blast
    next
      case after: (Inl failed')
      have "\<exists>m. failed' = FindNotRead m"
      proof (rule ccontr)
        assume "\<not> (\<exists>m. failed' = FindNotRead m)"
        then have not_read': "\<And>m. failed' \<noteq> FindNotRead m" by blast
        obtain ds' where ds': "rg_ListReferrers client subject SigstoreBundleMediaType reg' = Inr ds'" using find_listed [OF after not_read'] .
        have "\<lparr>ds_Digest = d, ds_Annotations = rf_Annotations a\<rparr> \<in> set ds'" using listing [OF ds'] held a by auto
        moreover have "annotated_as predicateType \<lparr>ds_Digest = d, ds_Annotations = rf_Annotations a\<rparr>" using a by simp
        ultimately have "(\<exists>m. verifyReferrer client verify (sg_TrustSet signer) subject d predicateType reg' = Inl (NotVerified m))
            \<or> (\<exists>e. verifies_at client verify (sg_TrustSet signer) subject predicateType reg' d e \<and> \<not> ?accept e)"
          using none_accepted [OF after not_read' ds'] by fastforce
        moreover have "(\<exists>m. verifyReferrer client verify (sg_TrustSet signer) subject d predicateType reg' = Inl (VerifyFailed m))
            \<or> verifies_at client verify (sg_TrustSet signer) subject predicateType reg' d
                \<lparr>fe_Digest = d, fe_KeyID = sg_KeyID signer, fe_Statement = statement\<rparr>"
          by (rule pushed_verifies [of reg' subject d a sealed]) (use held a assms(2-4) sealed in auto)
        ultimately show False unfolding verifyReferrer_Inr [symmetric] by auto
      qed
      then show ?thesis using after by blast
    qed
  qed
qed

text \<open>A push that succeeds leaves its statement in the registry at the digest it returns, and everything else there.\<close>

lemma verifies_held:
  assumes "find_attestation client verify ref_string trust subject predicateType (\<lambda>e. fe_Statement e = statement) reg = Inr e"
  shows "held_statement referrers verify trust reg subject predicateType statement (fe_Digest e)"
proof -
  obtain ds x where x: "rg_ListReferrers client subject SigstoreBundleMediaType reg = Inr ds" "x \<in> set ds"
      "verifies_at client verify trust subject predicateType reg (ds_Digest x) e" "fe_Statement e = statement"
    using find_attestation_newest [OF assms] by blast
  obtain a where held: "referrers reg (RepositoryReference subject) (ref_Digest subject) (ds_Digest x) = Some a"
    using listing [OF x(1)] x(2) by auto
  have "RepositoryReference (referrer_reference subject (ds_Digest x)) = RepositoryReference subject"
      "ref_Digest (referrer_reference subject (ds_Digest x)) = ds_Digest x"
    by (simp_all add: referrer_reference_def RepositoryReference_def)
  then show ?thesis
    using fetching [of reg "referrer_reference subject (ds_Digest x)" "ref_Digest subject" a] held x(3,4)
    by (auto simp: verifies_at_def held_statement_def split: if_splits)
qed

lemma push_held:
  assumes "PushAnnotated client verify ref_string signer subject predicateType statement created annotations reg = (Inr d, reg')"
    and "signer_laws verify signer" "NewStatement name (ref_Digest subject) predicateType predicate = Inr statement"
  shows "held_statement referrers verify (sg_TrustSet signer) reg' subject predicateType statement d \<and> registry_grows referrers reg reg'"
proof (cases "find_attestation client verify ref_string (sg_TrustSet signer) subject predicateType (\<lambda>e. fe_Statement e = statement) reg")
  case (Inr e)
  then show ?thesis using assms(1) verifies_held [OF Inr] by (auto simp: PushAnnotated_def)
next
  case (Inl failed)
  then obtain sealed a where sealed: "sg_Sign signer statement = Inr sealed"
      and a: "a = \<lparr>rf_ArtifactType = SigstoreBundleMediaType, rf_MediaType = SigstoreBundleMediaType, rf_Payload = sealed,
                  rf_Annotations = referrer_annotations annotations created predicateType\<rparr>"
      and push: "rg_PushReferrer client subject a reg = (Inr d, reg')"
    using assms(1) by (auto simp: PushAnnotated_def split: find_failure.splits sum.splits prod.splits)
  have "verify (sg_TrustSet signer) sealed (ref_Digest subject) predicateType
      = Inr \<lparr>vn_KeyID = sg_KeyID signer, vn_PredicateType = predicateType, vn_Statement = statement\<rparr>"
    using assms(2,3) sealed unfolding signer_laws_def by blast
  then show ?thesis using pushing [OF push] a by (auto simp: held_statement_def registry_grows_def)
qed

text \<open>A push that is retried returns the referrer it pushed, and pushes no other.\<close>

lemma push_retried:
  assumes "PushAnnotated client verify ref_string signer subject predicateType statement created annotations reg = (Inr d, reg')"
    and "PushAnnotated client verify ref_string signer subject predicateType statement created' annotations' reg' = (Inr d', reg'')"
    and "signer_laws verify signer" "NewStatement name (ref_Digest subject) predicateType predicate = Inr statement"
    and "\<forall>sealed. sg_Sign signer statement = Inr sealed \<longrightarrow> length sealed \<le> MaxReferrerPayloadSize"
  shows "d' = d \<and> reg'' = reg'"
  using push_found [OF assms(1,3-5)] assms(2) by (auto simp: PushAnnotated_def)

end

section \<open>A registry that computes\<close>

text \<open>Referrers by repository and digest, each with the digest of its subject; a push names a fresh digest.\<close>

type_synonym plain_registry = "((string \<times> string) \<times> (string \<times> referrer_artifact)) list"

definition plain_referrers :: "plain_registry \<Rightarrow> string \<Rightarrow> string \<Rightarrow> string \<rightharpoonup> referrer_artifact" where
  "plain_referrers reg repo digest d =
     (case map_of reg (repo, d) of Some (s, a) \<Rightarrow> if s = digest then Some a else None | None \<Rightarrow> None)"

definition plain_descriptor :: "oci_reference \<Rightarrow> string \<Rightarrow> plain_registry \<Rightarrow> string \<times> string \<Rightarrow> descriptor list" where
  "plain_descriptor subject t reg key =
     (if fst key \<noteq> RepositoryReference subject then [] else
       case plain_referrers reg (fst key) (ref_Digest subject) (snd key) of
         None \<Rightarrow> []
       | Some a \<Rightarrow> if rf_ArtifactType a = t then [\<lparr>ds_Digest = snd key, ds_Annotations = rf_Annotations a\<rparr>] else [])"

definition plain_descriptors :: "oci_reference \<Rightarrow> string \<Rightarrow> plain_registry \<Rightarrow> descriptor list" where
  "plain_descriptors subject t reg = concat (map (plain_descriptor subject t reg) (map fst reg))"

definition fresh_digest :: "plain_registry \<Rightarrow> string" where
  "fresh_digest reg = ''sha256:'' @ nat_dec (length reg)"

definition plain_client :: "(string \<times> string) option \<Rightarrow> plain_registry referrer_client" where
  "plain_client config =
     \<lparr>rg_ListReferrers = \<lambda>subject t reg. Inr (plain_descriptors subject t reg),
      rg_FetchReferrer = \<lambda>ref reg. (case map_of reg (RepositoryReference ref, ref_Digest ref) of
          None \<Rightarrow> Inl (FetchFailed ''not found'')
        | Some (_, a) \<Rightarrow> if length (rf_Payload a) > MaxReferrerPayloadSize then Inl (PayloadTooLarge ''too large'') else Inr a),
      rg_PushReferrer = \<lambda>subject a reg. (case map_of reg (RepositoryReference subject, fresh_digest reg) of
          Some _ \<Rightarrow> (Inl ''digest taken'', reg)
        | None \<Rightarrow> (Inr (fresh_digest reg), ((RepositoryReference subject, fresh_digest reg), (ref_Digest subject, a)) # reg)),
      rg_FetchConfig = \<lambda>_ _. (case config of None \<Rightarrow> Inl ''not found'' | Some c \<Rightarrow> Inr c)\<rparr>"

interpretation plain_registry: referrer_registry "plain_client config" plain_referrers
proof unfold_locales
  fix subject t reg ds
  assume "rg_ListReferrers (plain_client config) subject t reg = Inr ds"
  then have ds: "ds = plain_descriptors subject t reg" by (simp add: plain_client_def)
  show "set ds = {\<lparr>ds_Digest = d, ds_Annotations = rf_Annotations a\<rparr> |d a.
      plain_referrers reg (RepositoryReference subject) (ref_Digest subject) d = Some a \<and> rf_ArtifactType a = t}" (is "_ = ?all")
  proof (rule set_eqI, rule iffI)
    fix x assume "x \<in> set ds"
    then show "x \<in> ?all" by (fastforce simp: ds plain_descriptors_def plain_descriptor_def split: option.splits if_splits)
  next
    fix x assume "x \<in> ?all"
    then obtain d a where x: "x = \<lparr>ds_Digest = d, ds_Annotations = rf_Annotations a\<rparr>" "rf_ArtifactType a = t"
      and held: "plain_referrers reg (RepositoryReference subject) (ref_Digest subject) d = Some a" by blast
    then obtain e where "((RepositoryReference subject, d), e) \<in> set reg"
      by (auto simp: plain_referrers_def split: option.splits dest: map_of_SomeD)
    then have "(RepositoryReference subject, d) \<in> set (map fst reg)" by force
    moreover have "x \<in> set (plain_descriptor subject t reg (RepositoryReference subject, d))" using held x by (simp add: plain_descriptor_def)
    ultimately show "x \<in> set ds" unfolding ds plain_descriptors_def set_concat set_map [of "plain_descriptor subject t reg"] by blast
  qed
next
  fix reg ref digest a
  assume "plain_referrers reg (RepositoryReference ref) digest (ref_Digest ref) = Some a"
  then show "(\<exists>m. rg_FetchReferrer (plain_client config) ref reg = Inl (FetchFailed m))
      \<or> (if length (rf_Payload a) > MaxReferrerPayloadSize then \<exists>m. rg_FetchReferrer (plain_client config) ref reg = Inl (PayloadTooLarge m)
          else rg_FetchReferrer (plain_client config) ref reg = Inr a)"
    by (auto simp: plain_referrers_def plain_client_def split: option.splits if_splits)
next
  fix subject a reg d reg'
  assume "rg_PushReferrer (plain_client config) subject a reg = (Inr d, reg')"
  then have "map_of reg (RepositoryReference subject, d) = None" "reg' = ((RepositoryReference subject, d), (ref_Digest subject, a)) # reg"
    by (auto simp: plain_client_def split: option.splits)
  then show "plain_referrers reg (RepositoryReference subject) (ref_Digest subject) d \<in> {None, Some a}
      \<and> (\<forall>repo digest. plain_referrers reg' repo digest =
           (if repo = RepositoryReference subject \<and> digest = ref_Digest subject then (plain_referrers reg repo digest)(d \<mapsto> a)
            else plain_referrers reg repo digest))"
    by (auto simp: plain_referrers_def fun_eq_iff split: option.splits)
qed

end
