(* ===== verification/Images_Reference.thy ===== *)
theory Images_Reference
  imports Resources
begin

text \<open>
  Image references (\<open>internal/images/reference.go\<close>): normalised, read at a mirror, and vendored. Parsing them is
  a call of the reference library, and a parameter.
\<close>

text \<open>A parsed reference has a name and maybe a tag and a digest; and what is wrong with a repository, if anything.\<close>

record image_library =
  il_parse :: "string \<Rightarrow> string + string \<times> string option \<times> string option"
  il_invalid :: "string \<Rightarrow> string option"

record imageRef =
  ir_name :: string
  ir_tag :: string
  ir_digest :: string

definition parseRef :: "image_library \<Rightarrow> string \<Rightarrow> string + imageRef" where
  "parseRef lib ref =
     (case il_parse lib ref of
        Inl err \<Rightarrow> Inl (''invalid image reference: '' @ err)
      | Inr (name, tag, digest) \<Rightarrow>
          let tag = (case tag of Some t \<Rightarrow> t | None \<Rightarrow> []); digest = (case digest of Some d \<Rightarrow> d | None \<Rightarrow> []) in
          Inr \<lparr>ir_name = name, ir_tag = (if tag = [] \<and> digest = [] then ''latest'' else tag), ir_digest = digest\<rparr>)"

text \<open>The mirror whose prefix is the longest prefix of the name at a path boundary, without its trailing slash.\<close>

definition mirror_turn :: "string \<Rightarrow> mirror option \<Rightarrow> mirror \<Rightarrow> mirror option" where
  "mirror_turn name best m =
     (let prefix = trim_suffix ''/'' (mi_Prefix m) in
      if name \<noteq> prefix \<and> \<not> has_prefix (prefix @ ''/'') name then best
      else if best = None \<or> length prefix > length (mi_Prefix (the best))
      then Some \<lparr>mi_Prefix = prefix, mi_Location = trim_suffix ''/'' (mi_Location m)\<rparr>
      else best)"

definition matchMirror :: "mirror list \<Rightarrow> string \<Rightarrow> mirror option" where
  "matchMirror mirrors name = foldl (mirror_turn name) None mirrors"

definition imageRef_source :: "reference_library \<Rightarrow> imageRef \<Rightarrow> mirror list \<Rightarrow> string + oci_reference" where
  "imageRef_source lib r mirrors =
     (let repository = (case matchMirror mirrors (ir_name r) of
            Some m \<Rightarrow> mi_Location m @ trim_prefix (mi_Prefix m) (ir_name r)
          | None \<Rightarrow> ir_name r)
      in case rf_parse lib repository of
        Inl err \<Rightarrow> Inl err
      | Inr ref \<Rightarrow> Inr (if ir_digest r \<noteq> [] then ref\<lparr>ref_Digest := ir_digest r\<rparr> else ref\<lparr>ref_Tag := ir_tag r\<rparr>))"

definition TaggedName :: "image_library \<Rightarrow> images_image \<Rightarrow> string" where
  "TaggedName lib i =
     (case parseRef lib (im_Ref i) of
        Inl _ \<Rightarrow> im_Name i
      | Inr parsed \<Rightarrow> if ir_tag parsed = [] then ir_name parsed else ir_name parsed @ '':'' @ ir_tag parsed)"

definition vendoredRepository :: "image_library \<Rightarrow> oci_reference \<Rightarrow> string \<Rightarrow> string + oci_reference" where
  "vendoredRepository lib root name =
     (let repository = ref_Repository root @ ''/images/'' @ to_lower (map (\<lambda>c. if c = CHR '':'' then CHR ''_'' else c) name);
          target = root\<lparr>ref_Tag := [], ref_Digest := [], ref_Repository := repository\<rparr>
      in case il_invalid lib (RepositoryReference target) of
           Some err \<Rightarrow> Inl (''cannot vendor '' @ name @ '' into '' @ RepositoryReference target @ '': '' @ err)
         | None \<Rightarrow> Inr target)"

section \<open>Mirrors\<close>

definition trimmed_mirror :: "mirror \<Rightarrow> mirror" where
  "trimmed_mirror m = \<lparr>mi_Prefix = trim_suffix ''/'' (mi_Prefix m), mi_Location = trim_suffix ''/'' (mi_Location m)\<rparr>"

definition mirrors_name :: "string \<Rightarrow> mirror \<Rightarrow> bool" where
  "mirrors_name name m \<longleftrightarrow> name = mi_Prefix (trimmed_mirror m) \<or> has_prefix (mi_Prefix (trimmed_mirror m) @ ''/'') name"

lemma mirror_turn_eq:
  "mirror_turn name best m =
     (if \<not> mirrors_name name m then best
      else if best = None \<or> length (mi_Prefix (trimmed_mirror m)) > length (mi_Prefix (the best)) then Some (trimmed_mirror m) else best)"
  by (simp add: mirror_turn_def mirrors_name_def trimmed_mirror_def Let_def)

definition longest_mirror :: "string \<Rightarrow> mirror list \<Rightarrow> mirror option \<Rightarrow> bool" where
  "longest_mirror name ms best =
     (case best of
        None \<Rightarrow> \<forall>m\<in>set ms. \<not> mirrors_name name m
      | Some b \<Rightarrow> (\<exists>m\<in>set ms. mirrors_name name m \<and> b = trimmed_mirror m)
          \<and> (\<forall>m\<in>set ms. mirrors_name name m \<longrightarrow> length (mi_Prefix (trimmed_mirror m)) \<le> length (mi_Prefix b)))"

lemma mirror_turn_longest: "longest_mirror name ms best \<Longrightarrow> longest_mirror name (ms @ [m]) (mirror_turn name best m)"
  by (cases best) (auto simp: longest_mirror_def mirror_turn_eq)

lemma mirror_turns_longest: "longest_mirror name seen best \<Longrightarrow> longest_mirror name (seen @ ms) (foldl (mirror_turn name) best ms)"
proof (induction ms arbitrary: seen best)
  case (Cons m ms)
  from Cons.IH [OF mirror_turn_longest [OF Cons.prems, of m]] show ?case by simp
qed simp

lemma matchMirror_longest: "longest_mirror name mirrors (matchMirror mirrors name)"
  using mirror_turns_longest [of name "[]" None mirrors] by (simp add: matchMirror_def longest_mirror_def)

end
