(* ===== verification/Provenance.thy ===== *)
theory Provenance
  imports Attestation Images_Reference
begin

text \<open>
  The provenance of rendered artifacts (\<open>internal/provenance/provenance.go\<close>) and the config blob it is built
  from (\<open>internal/artifact/config.go\<close>). Parsing JSON text and image references are library calls and
  parameters; decoding a parsed config is not.
\<close>

section \<open>Parsing a time\<close>

text \<open>
  \<open>time.Parse(time.RFC3339, s)\<close>: fields of two digits, but an hour may have one; a fraction of the second
  of any length, of which nine digits count, after a period or a comma; \<open>Z\<close> or an offset.
\<close>

definition two_digits :: "string \<Rightarrow> (int \<times> string) option" where
  "two_digits s = (case s of a # b # r \<Rightarrow> if is_digit a \<and> is_digit b then Some (dec_val [a, b], r) else None | _ \<Rightarrow> None)"

definition hour_digits :: "string \<Rightarrow> (int \<times> string) option" where
  "hour_digits s =
     (case s of [] \<Rightarrow> None
      | a # r \<Rightarrow> if \<not> is_digit a then None
          else (case r of b # r' \<Rightarrow> if is_digit b then Some (dec_val [a, b], r') else Some (dec_val [a], r) | [] \<Rightarrow> Some (dec_val [a], [])))"

definition four_digits :: "string \<Rightarrow> (int \<times> string) option" where
  "four_digits s = (if length s \<ge> 4 \<and> list_all is_digit (take 4 s) then Some (dec_val (take 4 s), drop 4 s) else None)"

definition expect :: "char \<Rightarrow> string \<Rightarrow> string option" where
  "expect c s = (case s of x # r \<Rightarrow> if x = c then Some r else None | [] \<Rightarrow> None)"

definition fraction :: "string \<Rightarrow> int \<times> string" where
  "fraction s =
     (case s of
        p # d # r \<Rightarrow>
          if (p = CHR ''.'' \<or> p = CHR '','') \<and> is_digit d
          then let ds = takeWhile is_digit (d # r) in (dec_val (take 9 (ds @ replicate 9 (CHR ''0''))), dropWhile is_digit (d # r))
          else (0, s)
      | _ \<Rightarrow> (0, s))"

definition zone_offset :: "string \<Rightarrow> (int \<times> string) option" where
  "zone_offset s =
     (case s of
        [] \<Rightarrow> None
      | c # r \<Rightarrow>
          if c = CHR ''Z'' then Some (0, r)
          else if c \<noteq> CHR ''+'' \<and> c \<noteq> CHR ''-'' then None
          else Option.bind (two_digits r) (\<lambda>(h, r). Option.bind (expect (CHR '':'') r) (\<lambda>r. Option.bind (two_digits r) (\<lambda>(m, r).
            if h > 24 \<or> m > 60 then None else Some ((if c = CHR ''+'' then 1 else -1) * (3600 * h + 60 * m), r)))))"

definition date_time :: "int \<Rightarrow> int \<Rightarrow> int \<Rightarrow> int \<Rightarrow> int \<Rightarrow> int \<Rightarrow> int \<Rightarrow> int \<Rightarrow> time option" where
  "date_time y mo d h mi s frac offset =
     (if mo < 1 \<or> mo > 12 \<or> h > 23 \<or> mi > 59 \<or> s > 59 then None
      else let lengths = month_lengths (leap_year y) in
        if d < 1 \<or> d > lengths ! nat (mo - 1) then None
        else Some (second * (86400 * (days_before y + sum_list (take (nat (mo - 1)) lengths) + d - 1) + 3600 * h + 60 * mi + s - offset) + frac))"

definition parse_rfc3339 :: "string \<Rightarrow> time option" where
  "parse_rfc3339 s =
     Option.bind (four_digits s) (\<lambda>(y, r). Option.bind (expect (CHR ''-'') r) (\<lambda>r.
     Option.bind (two_digits r) (\<lambda>(mo, r). Option.bind (expect (CHR ''-'') r) (\<lambda>r.
     Option.bind (two_digits r) (\<lambda>(d, r). Option.bind (expect (CHR ''T'') r) (\<lambda>r.
     Option.bind (hour_digits r) (\<lambda>(h, r). Option.bind (expect (CHR '':'') r) (\<lambda>r.
     Option.bind (two_digits r) (\<lambda>(mi, r). Option.bind (expect (CHR '':'') r) (\<lambda>r.
     Option.bind (two_digits r) (\<lambda>(sec, r).
       case fraction r of (frac, r) \<Rightarrow>
       Option.bind (zone_offset r) (\<lambda>(offset, r). if r \<noteq> [] then None else date_time y mo d h mi sec frac offset))))))))))))"

section \<open>The config of an artifact\<close>

record config_object =
  co_Namespace :: string
  co_Name :: string
  co_UID :: string

record config_source =
  cs_OCI :: string
  cs_Version :: string
  cs_Digest :: string
  cs_Verified :: "ConfigVerification option"

record config_product =
  cp_Namespace :: string
  cp_Name :: string
  cp_ConfigHash :: string

record config_renderer =
  cr_Type :: string
  cr_Version :: string
  cr_Builder :: string

text \<open>\<open>artifact.Config\<close>; the destination is its URL, the intent the JSON of its bytes.\<close>

record Config =
  cf_SchemaVersion :: int
  cf_Order :: "config_object option"
  cf_ConfigHash :: string
  cf_CommitMessage :: string
  cf_CreatedTime :: string
  cf_Parent :: string
  cf_Source :: config_source
  cf_Destination :: string
  cf_Product :: "config_product option"
  cf_Renderer :: config_renderer
  cf_Intent :: "json option"
  cf_Images :: "images_image list"

definition ConfigSchemaVersion :: int where
  "ConfigSchemaVersion = 1"

definition PreparationConfigMediaType :: string where
  "PreparationConfigMediaType = ''application/vnd.kokumi.preparation.config.v1+json''"

section \<open>Decoding a config\<close>

definition zero_object :: config_object where
  "zero_object = \<lparr>co_Namespace = [], co_Name = [], co_UID = []\<rparr>"

definition zero_verification :: ConfigVerification where
  "zero_verification = \<lparr>cv_Provider = [], cv_KeyID = [], cv_Issuer = [], cv_Subject = []\<rparr>"

definition zero_source :: config_source where
  "zero_source = \<lparr>cs_OCI = [], cs_Version = [], cs_Digest = [], cs_Verified = None\<rparr>"

definition zero_product :: config_product where
  "zero_product = \<lparr>cp_Namespace = [], cp_Name = [], cp_ConfigHash = []\<rparr>"

definition zero_image :: images_image where
  "zero_image = \<lparr>im_Ref = [], im_Name = [], im_Digest = [], im_MediaType = [], im_Vendored = [], im_Error = []\<rparr>"

definition zero_config :: Config where
  "zero_config = \<lparr>cf_SchemaVersion = 0, cf_Order = None, cf_ConfigHash = [], cf_CommitMessage = [], cf_CreatedTime = [], cf_Parent = [],
     cf_Source = zero_source, cf_Destination = [], cf_Product = None, cf_Renderer = \<lparr>cr_Type = [], cr_Version = [], cr_Builder = []\<rparr>,
     cf_Intent = None, cf_Images = []\<rparr>"

text \<open>A pointer: \<open>null\<close> clears it, another value decodes into what it points to, or into a new zero value.\<close>

definition decode_pointer :: "(json \<Rightarrow> 'a \<Rightarrow> 'a option) \<Rightarrow> 'a \<Rightarrow> json \<Rightarrow> 'a option \<Rightarrow> 'a option option" where
  "decode_pointer decode zero j x =
     (if j = JNull then Some None else map_option Some (decode j (case x of Some y \<Rightarrow> y | None \<Rightarrow> zero)))"

definition object_field :: "string \<Rightarrow> json \<Rightarrow> config_object \<Rightarrow> config_object option" where
  "object_field k v o1 =
     (if field_is ''namespace'' k then map_option (\<lambda>s. o1\<lparr>co_Namespace := s\<rparr>) (decode_string v (co_Namespace o1))
      else if field_is ''name'' k then map_option (\<lambda>s. o1\<lparr>co_Name := s\<rparr>) (decode_string v (co_Name o1))
      else if field_is ''uid'' k then map_option (\<lambda>s. o1\<lparr>co_UID := s\<rparr>) (decode_string v (co_UID o1))
      else Some o1)"

definition verification_field :: "string \<Rightarrow> json \<Rightarrow> ConfigVerification \<Rightarrow> ConfigVerification option" where
  "verification_field k v c =
     (if field_is ''provider'' k then map_option (\<lambda>s. c\<lparr>cv_Provider := s\<rparr>) (decode_string v (cv_Provider c))
      else if field_is ''keyID'' k then map_option (\<lambda>s. c\<lparr>cv_KeyID := s\<rparr>) (decode_string v (cv_KeyID c))
      else if field_is ''issuer'' k then map_option (\<lambda>s. c\<lparr>cv_Issuer := s\<rparr>) (decode_string v (cv_Issuer c))
      else if field_is ''subject'' k then map_option (\<lambda>s. c\<lparr>cv_Subject := s\<rparr>) (decode_string v (cv_Subject c))
      else Some c)"

definition source_field :: "string \<Rightarrow> json \<Rightarrow> config_source \<Rightarrow> config_source option" where
  "source_field k v s1 =
     (if field_is ''oci'' k then map_option (\<lambda>s. s1\<lparr>cs_OCI := s\<rparr>) (decode_string v (cs_OCI s1))
      else if field_is ''version'' k then map_option (\<lambda>s. s1\<lparr>cs_Version := s\<rparr>) (decode_string v (cs_Version s1))
      else if field_is ''digest'' k then map_option (\<lambda>s. s1\<lparr>cs_Digest := s\<rparr>) (decode_string v (cs_Digest s1))
      else if field_is ''verified'' k
      then map_option (\<lambda>x. s1\<lparr>cs_Verified := x\<rparr>) (decode_pointer (decode_struct verification_field) zero_verification v (cs_Verified s1))
      else Some s1)"

definition destination_field :: "string \<Rightarrow> json \<Rightarrow> string \<Rightarrow> string option" where
  "destination_field k v d = (if field_is ''oci'' k then decode_string v d else Some d)"

definition product_field :: "string \<Rightarrow> json \<Rightarrow> config_product \<Rightarrow> config_product option" where
  "product_field k v p =
     (if field_is ''namespace'' k then map_option (\<lambda>s. p\<lparr>cp_Namespace := s\<rparr>) (decode_string v (cp_Namespace p))
      else if field_is ''name'' k then map_option (\<lambda>s. p\<lparr>cp_Name := s\<rparr>) (decode_string v (cp_Name p))
      else if field_is ''configHash'' k then map_option (\<lambda>s. p\<lparr>cp_ConfigHash := s\<rparr>) (decode_string v (cp_ConfigHash p))
      else Some p)"

definition renderer_field :: "string \<Rightarrow> json \<Rightarrow> config_renderer \<Rightarrow> config_renderer option" where
  "renderer_field k v r =
     (if field_is ''type'' k then map_option (\<lambda>s. r\<lparr>cr_Type := s\<rparr>) (decode_string v (cr_Type r))
      else if field_is ''version'' k then map_option (\<lambda>s. r\<lparr>cr_Version := s\<rparr>) (decode_string v (cr_Version r))
      else if field_is ''builder'' k then map_option (\<lambda>s. r\<lparr>cr_Builder := s\<rparr>) (decode_string v (cr_Builder r))
      else Some r)"

definition image_field :: "string \<Rightarrow> json \<Rightarrow> images_image \<Rightarrow> images_image option" where
  "image_field k v i =
     (if field_is ''ref'' k then map_option (\<lambda>s. i\<lparr>im_Ref := s\<rparr>) (decode_string v (im_Ref i))
      else if field_is ''name'' k then map_option (\<lambda>s. i\<lparr>im_Name := s\<rparr>) (decode_string v (im_Name i))
      else if field_is ''digest'' k then map_option (\<lambda>s. i\<lparr>im_Digest := s\<rparr>) (decode_string v (im_Digest i))
      else if field_is ''mediaType'' k then map_option (\<lambda>s. i\<lparr>im_MediaType := s\<rparr>) (decode_string v (im_MediaType i))
      else if field_is ''vendored'' k then map_option (\<lambda>s. i\<lparr>im_Vendored := s\<rparr>) (decode_string v (im_Vendored i))
      else if field_is ''error'' k then map_option (\<lambda>s. i\<lparr>im_Error := s\<rparr>) (decode_string v (im_Error i))
      else Some i)"

text \<open>An \<open>int\<close> of 64 bits: an integer literal in its range.\<close>

fun decode_int64 :: "json \<Rightarrow> int \<Rightarrow> int option" where
  "decode_int64 (JNum s) m =
     (case parse_int s of Some i \<Rightarrow> if - (2 ^ 63) \<le> i \<and> i < 2 ^ 63 then Some i else None | None \<Rightarrow> None)"
| "decode_int64 JNull m = Some m"
| "decode_int64 _ m = None"

definition config_field :: "string \<Rightarrow> json \<Rightarrow> Config \<Rightarrow> Config option" where
  "config_field k v c =
     (if field_is ''schemaVersion'' k then map_option (\<lambda>i. c\<lparr>cf_SchemaVersion := i\<rparr>) (decode_int64 v (cf_SchemaVersion c))
      else if field_is ''order'' k
      then map_option (\<lambda>x. c\<lparr>cf_Order := x\<rparr>) (decode_pointer (decode_struct object_field) zero_object v (cf_Order c))
      else if field_is ''configHash'' k then map_option (\<lambda>s. c\<lparr>cf_ConfigHash := s\<rparr>) (decode_string v (cf_ConfigHash c))
      else if field_is ''commitMessage'' k then map_option (\<lambda>s. c\<lparr>cf_CommitMessage := s\<rparr>) (decode_string v (cf_CommitMessage c))
      else if field_is ''createdTime'' k then map_option (\<lambda>s. c\<lparr>cf_CreatedTime := s\<rparr>) (decode_string v (cf_CreatedTime c))
      else if field_is ''parent'' k then map_option (\<lambda>s. c\<lparr>cf_Parent := s\<rparr>) (decode_string v (cf_Parent c))
      else if field_is ''source'' k then map_option (\<lambda>x. c\<lparr>cf_Source := x\<rparr>) (decode_struct source_field v (cf_Source c))
      else if field_is ''destination'' k
      then map_option (\<lambda>x. c\<lparr>cf_Destination := x\<rparr>) (decode_struct destination_field v (cf_Destination c))
      else if field_is ''product'' k
      then map_option (\<lambda>x. c\<lparr>cf_Product := x\<rparr>) (decode_pointer (decode_struct product_field) zero_product v (cf_Product c))
      else if field_is ''renderer'' k then map_option (\<lambda>x. c\<lparr>cf_Renderer := x\<rparr>) (decode_struct renderer_field v (cf_Renderer c))
      else if field_is ''intent'' k then Some (c\<lparr>cf_Intent := Some v\<rparr>)
      else if field_is ''images'' k
      then map_option (\<lambda>xs. c\<lparr>cf_Images := xs\<rparr>) (decode_items (decode_struct image_field) zero_image v)
      else Some c)"

text \<open>Parsing the bytes of a JSON value, and the text of an error of decoding one, are arguments.\<close>

record json_library =
  js_parse :: "string \<Rightarrow> string + json"
  js_decode_error :: "json \<Rightarrow> string"
  js_time_error :: "string \<Rightarrow> string"

definition ParseConfig :: "json_library \<Rightarrow> string \<Rightarrow> string \<Rightarrow> string + Config" where
  "ParseConfig lib mediaType data =
     (if mediaType \<noteq> PreparationConfigMediaType
      then Inl (''unsupported config media type '' @ go_quote mediaType @ '', want '' @ go_quote PreparationConfigMediaType)
      else case js_parse lib data of
        Inl err \<Rightarrow> Inl (''failed to decode artifact config: '' @ err)
      | Inr j \<Rightarrow>
         (case decode_struct config_field j zero_config of
            None \<Rightarrow> Inl (''failed to decode artifact config: '' @ js_decode_error lib j)
          | Some cfg \<Rightarrow>
              if cf_SchemaVersion cfg \<noteq> ConfigSchemaVersion
              then Inl (''unsupported artifact config schema version '' @ int_dec (cf_SchemaVersion cfg))
              else Inr cfg))"

definition Config_Created :: "json_library \<Rightarrow> Config \<Rightarrow> string + time" where
  "Config_Created lib c =
     (case parse_rfc3339 (cf_CreatedTime c) of
        None \<Rightarrow> Inl (''invalid createdTime '' @ go_quote (cf_CreatedTime c) @ '' in artifact config: '' @ js_time_error lib (cf_CreatedTime c))
      | Some t \<Rightarrow> Inr t)"

section \<open>The provenance statement\<close>

definition BuildType :: string where
  "BuildType = ''https://kokumi.dev/buildtypes/render/v1''"

definition ProvenanceBuilderID :: string where
  "ProvenanceBuilderID = ''https://kokumi.dev/builders/controller/v1''"

definition AnnotationVerified :: string where
  "AnnotationVerified = ''kokumi.dev/verified''"

definition AnnotationVendored :: string where
  "AnnotationVendored = ''kokumi.dev/vendored''"

definition verification_json :: "ConfigVerification \<Rightarrow> json" where
  "verification_json v =
     JObj ((''provider'', JStr (cv_Provider v)) # omit_string ''keyID'' (cv_KeyID v) @ omit_string ''issuer'' (cv_Issuer v)
       @ omit_string ''subject'' (cv_Subject v))"

definition imageDependency :: "image_library \<Rightarrow> images_image \<Rightarrow> resource_descriptor list" where
  "imageDependency lib img =
     (case str_cut '':'' (im_Digest img) of
        None \<Rightarrow> []
      | Some (algorithm, encoded) \<Rightarrow>
          [\<lparr>rd_URI = ''oci://'' @ TaggedName lib img, rd_Digest = [(algorithm, encoded)], rd_MediaType = im_MediaType img,
            rd_Annotations = (if im_Vendored img \<noteq> [] then [(AnnotationVendored, JStr (im_Vendored img))] else [])\<rparr>])"

definition imageDependencies :: "image_library \<Rightarrow> images_image list \<Rightarrow> resource_descriptor list" where
  "imageDependencies lib imgs = concat (map (imageDependency lib) imgs)"

text \<open>A map is encoded by its keys in order; the version of the renderer is set after the one of Kokumi.\<close>

definition builder_versions :: "config_renderer \<Rightarrow> (string \<times> string) list" where
  "builder_versions r =
     sort_cmp (\<lambda>a b. str_compare (fst a) (fst b)) (AList.update (to_lower (cr_Type r)) (cr_Version r) [(''kokumi'', cr_Builder r)])"

definition provenance_of :: "image_library \<Rightarrow> Config \<Rightarrow> string \<Rightarrow> provenance_predicate" where
  "provenance_of lib cfg sourceHex =
     \<lparr>pv_BuildDefinition =
        \<lparr>bd_BuildType = BuildType,
         bd_ExternalParameters =
           \<lparr>xp_Order = (case cf_Order cfg of Some o1 \<Rightarrow> co_Namespace o1 @ ''/'' @ co_Name o1 | None \<Rightarrow> []),
            xp_Product = (case cf_Product cfg of Some p \<Rightarrow> cp_Namespace p @ ''/'' @ cp_Name p | None \<Rightarrow> []),
            xp_ConfigHash = cf_ConfigHash cfg\<rparr>,
         bd_ResolvedDependencies =
           \<lparr>rd_URI = cs_OCI (cf_Source cfg) @ '':'' @ cs_Version (cf_Source cfg), rd_Digest = [(''sha256'', sourceHex)], rd_MediaType = [],
            rd_Annotations = (case cs_Verified (cf_Source cfg) of Some v \<Rightarrow> [(AnnotationVerified, verification_json v)] | None \<Rightarrow> [])\<rparr>
           # imageDependencies lib (cf_Images cfg)\<rparr>,
      pv_RunDetails =
        \<lparr>run_Builder = \<lparr>pb_ID = ProvenanceBuilderID, pb_Version = builder_versions (cf_Renderer cfg)\<rparr>,
         run_Metadata = \<lparr>pm_StartedOn = cf_CreatedTime cfg, pm_FinishedOn = cf_CreatedTime cfg\<rparr>\<rparr>\<rparr>"

definition string_map_json :: "(string \<times> string) list \<Rightarrow> json" where
  "string_map_json m = JObj (map (apsnd JStr) m)"

definition resource_json :: "resource_descriptor \<Rightarrow> json" where
  "resource_json r =
     JObj ([(''uri'', JStr (rd_URI r)), (''digest'', string_map_json (rd_Digest r))] @ omit_string ''mediaType'' (rd_MediaType r)
       @ omit_if (rd_Annotations r = []) ''annotations'' (JObj (rd_Annotations r)))"

definition external_json :: "external_parameters \<Rightarrow> json" where
  "external_json p =
     JObj (omit_string ''order'' (xp_Order p) @ omit_string ''product'' (xp_Product p) @ omit_string ''configHash'' (xp_ConfigHash p))"

definition provenance_json :: "provenance_predicate \<Rightarrow> json" where
  "provenance_json p =
     JObj [(''buildDefinition'',
              JObj [(''buildType'', JStr (bd_BuildType (pv_BuildDefinition p))),
                (''externalParameters'', external_json (bd_ExternalParameters (pv_BuildDefinition p))),
                (''resolvedDependencies'', JArr (map resource_json (bd_ResolvedDependencies (pv_BuildDefinition p))))]),
           (''runDetails'',
              JObj [(''builder'', JObj [(''id'', JStr (pb_ID (run_Builder (pv_RunDetails p)))),
                       (''version'', string_map_json (pb_Version (run_Builder (pv_RunDetails p))))]),
                (''metadata'', JObj [(''startedOn'', JStr (pm_StartedOn (run_Metadata (pv_RunDetails p)))),
                       (''finishedOn'', JStr (pm_FinishedOn (run_Metadata (pv_RunDetails p))))])])]"

definition ProvenanceStatement :: "image_library \<Rightarrow> oci_reference \<Rightarrow> Config \<Rightarrow> string + string" where
  "ProvenanceStatement lib subject cfg =
     (let digest = cs_Digest (cf_Source cfg); sourceHex = trim_prefix ''sha256:'' digest in
      if \<not> has_prefix ''sha256:'' digest \<or> sourceHex = []
      then Inl (''unsupported source digest '' @ go_quote digest @ '' in artifact config'')
      else NewStatement (RepositoryReference subject) (ref_Digest subject) ProvenancePredicateType
        (provenance_json (provenance_of lib cfg sourceHex)))"

text \<open>An error of the config blob wraps \<open>ErrInvalidConfig\<close>, or the registry could not be read or written.\<close>

datatype provenance_failure = InvalidConfig string | ProvenanceFailed string

primrec provenance_message :: "provenance_failure \<Rightarrow> string" where
  "provenance_message (InvalidConfig m) = ''invalid artifact config: '' @ m"
| "provenance_message (ProvenanceFailed m) = m"

definition ReadConfig :: "json_library \<Rightarrow> 'reg referrer_client \<Rightarrow> oci_reference \<Rightarrow> 'reg \<Rightarrow> provenance_failure + Config" where
  "ReadConfig lib client subject reg =
     (case rg_FetchConfig client subject reg of
        Inl err \<Rightarrow> Inl (ProvenanceFailed (''reading artifact config: '' @ err))
      | Inr (mediaType, data) \<Rightarrow>
         (case ParseConfig lib mediaType data of
            Inl err \<Rightarrow> Inl (InvalidConfig err)
          | Inr cfg \<Rightarrow> (case Config_Created lib cfg of Inl err \<Rightarrow> Inl (InvalidConfig err) | Inr _ \<Rightarrow> Inr cfg)))"

definition Attach ::
    "json_library \<Rightarrow> image_library \<Rightarrow> 'reg referrer_client \<Rightarrow> 'trust verifier \<Rightarrow> (oci_reference \<Rightarrow> string) \<Rightarrow> 'trust Signer \<Rightarrow>
     oci_reference \<Rightarrow> Config \<Rightarrow> 'reg \<Rightarrow> (provenance_failure + string) \<times> 'reg" where
  "Attach json images client verify ref_string signer subject cfg reg =
     (case Config_Created json cfg of
        Inl err \<Rightarrow> (Inl (InvalidConfig err), reg)
      | Inr created \<Rightarrow>
         (case ProvenanceStatement images subject cfg of
            Inl err \<Rightarrow> (Inl (InvalidConfig err), reg)
          | Inr statement \<Rightarrow>
              apfst (map_sum ProvenanceFailed id) (Push client verify ref_string signer subject ProvenancePredicateType statement created reg)))"

section \<open>The statement decodes to what was rendered\<close>

lemma decode_string_map: "decode_entries decode_string [] (string_map_json m) = Some m"
  by (induction m) (auto simp: string_map_json_def apsnd_def map_prod_def)

lemma decode_any_map: "decode_entries (\<lambda>x _. Some x) JNull (JObj m) = Some m"
  by (induction m) auto

lemma decode_resource: "decode_struct resource_field (resource_json r) zero_resource = Some r"
  by (cases "rd_Annotations r = []"; cases "rd_MediaType r = []")
    (simp_all add: resource_json_def resource_field_def zero_resource_def omit_string_def omit_if_def field_is_def ascii_upper_def
      decode_string_map decode_any_map del: decode_entries.simps)

lemma decode_resources: "decode_items (decode_struct resource_field) zero_resource (JArr (map resource_json rs)) = Some rs"
  by (rule decode_items_map) (rule decode_resource)

lemma decode_external:
  "decode_struct external_field (external_json p) \<lparr>xp_Order = [], xp_Product = [], xp_ConfigHash = []\<rparr> = Some p"
  by (cases "xp_Order p = []"; cases "xp_Product p = []"; cases "xp_ConfigHash p = []")
    (simp_all add: external_json_def external_field_def omit_string_def omit_if_def field_is_def ascii_upper_def)

lemma decode_provenance_json: "decode_struct provenance_field (provenance_json p) zero_provenance = Some p"
  by (simp add: provenance_json_def provenance_field_def build_field_def run_field_def builder_field_def metadata_field_def
      zero_provenance_def field_is_def ascii_upper_def decode_resources decode_external decode_string_map
      del: decode_entries.simps decode_items.simps)

lemma decode_provenance_statement: "decode_provenance (statement_json n h t (provenance_json p)) = Some p"
  by (simp add: decode_provenance_def raw_predicate_statement decode_provenance_json)

end
