(* ===== verification/Preparation_Controller.thy ===== *)
theory Preparation_Controller
  imports Provenance Reconcile Registry_Clients Approval
begin

text \<open>
  The Preparation controller (\<open>internal/controller/preparation_controller.go\<close>) and the Approval controller
  (\<open>approval_controller.go\<close>): signing an artifact and attaching its provenance, which makes the Preparation
  ready, and aggregating its votes, sealing them once a Serving targets it, and archiving them. What a
  reconcile reads of the Kubernetes API is an argument; what it changes is its state: the Preparation, the
  clients of its registries, the registry, and what the API stores.
\<close>

definition signingKeyRetryInterval :: duration where
  "signingKeyRetryInterval = 10 * second"

record ('client, 'trust, 'reg, 'ps) preparation_services =
  pw_conditions :: condition_library
  pw_references :: reference_library
  pw_registry :: registry_library
  pw_clients :: "'client Clients"
  pw_reader :: registry_reader
  pw_client :: "'client \<Rightarrow> 'reg referrer_client"
  pw_verify :: "'trust verifier"
  pw_State :: "string + 'trust Signer"
  pw_json :: json_library
  pw_images :: image_library
  pw_get_Order :: "string \<Rightarrow> string \<Rightarrow> read_failure + Order"
  pw_get_Serving :: "string \<Rightarrow> string \<Rightarrow> read_failure + Serving"
  pw_list_Approvals :: "string \<Rightarrow> string \<Rightarrow> string + Approval list"
  pw_live_Approvals :: "string \<Rightarrow> string \<Rightarrow> string + Approval list"
  pw_now :: time
  pw_get :: "string \<Rightarrow> string \<Rightarrow> 'ps \<Rightarrow> read_failure + Preparation"
  pw_update :: "Preparation \<Rightarrow> 'ps \<Rightarrow> (string + Preparation) \<times> 'ps"
  pw_patch_status :: "Preparation \<Rightarrow> PreparationStatus \<Rightarrow> 'ps \<Rightarrow> write_result \<times> 'ps"

record ('client, 'reg, 'ps) preparation_state =
  pc_prep :: Preparation
  pc_kept :: "'client kept"
  pc_reg :: 'reg
  pc_api :: 'ps

definition preparation_setter :: "Preparation setter" where
  "preparation_setter = \<lparr>GetGeneration = \<lambda>p. om_Generation (Preparation_ObjectMeta p), GetConditions = Preparation_GetConditions,
     SetConditions = Preparation_SetConditions\<rparr>"

definition on_prep :: "(Preparation \<Rightarrow> Preparation) \<Rightarrow> ('client, 'reg, 'ps) preparation_state \<Rightarrow> ('client, 'reg, 'ps) preparation_state" where
  "on_prep f st = st\<lparr>pc_prep := f (pc_prep st)\<rparr>"

definition on_prep_status :: "(PreparationStatus \<Rightarrow> PreparationStatus) \<Rightarrow> Preparation \<Rightarrow> Preparation" where
  "on_prep_status f p = p\<lparr>Preparation_Status := f (Preparation_Status p)\<rparr>"

abbreviation prep_namespace :: "Preparation \<Rightarrow> string" where
  "prep_namespace p \<equiv> om_Namespace (Preparation_ObjectMeta p)"

abbreviation prep_name :: "Preparation \<Rightarrow> string" where
  "prep_name p \<equiv> om_Name (Preparation_ObjectMeta p)"

abbreviation prep_artifact :: "Preparation \<Rightarrow> Artifact" where
  "prep_artifact p \<equiv> PreparationSpec_Artifact (Preparation_Spec p)"

section \<open>The conditions of a Preparation\<close>

definition prep_condition_true :: "('client, 'trust, 'reg, 'ps) preparation_services \<Rightarrow> Preparation \<Rightarrow> string \<Rightarrow> bool" where
  "prep_condition_true v p t = is_condition_true (pw_conditions v) (PreparationStatus_Conditions (Preparation_Status p)) t"

definition evidenceAttached :: "('client, 'trust, 'reg, 'ps) preparation_services \<Rightarrow> Preparation \<Rightarrow> bool" where
  "evidenceAttached v p = (prep_condition_true v p ConditionTypeSigned \<and> prep_condition_true v p ConditionTypeProvenanceAttached)"

definition prep_true :: "('client, 'trust, 'reg, 'ps) preparation_services \<Rightarrow> string \<Rightarrow> string \<Rightarrow> string \<Rightarrow> Preparation \<Rightarrow> Preparation" where
  "prep_true v t reason message p = MarkTrue (pw_conditions v) preparation_setter p t reason message"

definition prep_false :: "('client, 'trust, 'reg, 'ps) preparation_services \<Rightarrow> string \<Rightarrow> string \<Rightarrow> string \<Rightarrow> Preparation \<Rightarrow> Preparation" where
  "prep_false v t reason message p = MarkFalse (pw_conditions v) preparation_setter p t reason message"

definition markEvidenceReady :: "('client, 'trust, 'reg, 'ps) preparation_services \<Rightarrow> Preparation \<Rightarrow> Preparation" where
  "markEvidenceReady v p =
     (if \<not> prep_condition_true v p ConditionTypeSigned
      then prep_false v ConditionTypeReady ReasonAwaitingSignature ''Waiting for the artifact to be signed'' p
      else if \<not> prep_condition_true v p ConditionTypeProvenanceAttached
      then prep_false v ConditionTypeReady ReasonAwaitingProvenance ''Waiting for the provenance attestation to be recorded'' p
      else prep_true v ConditionTypeReady ReasonReady ''Preparation is ready for serving'' p)"

text \<open>The entry of the type is replaced, or one is appended.\<close>

fun setAttestation :: "AttestationReference \<Rightarrow> AttestationReference list \<Rightarrow> AttestationReference list" where
  "setAttestation ref [] = [ref]"
| "setAttestation ref (a # as) =
     (if AttestationReference_Type a = AttestationReference_Type ref then ref # as else a # setAttestation ref as)"

definition attestationReference :: "AttestationType \<Rightarrow> oci_reference \<Rightarrow> string \<Rightarrow> AttestationReference" where
  "attestationReference t subject digest =
     \<lparr>AttestationReference_Type = t, AttestationReference_OCIRef = ''oci://'' @ RepositoryReference subject @ ''@'' @ digest,
      AttestationReference_Digest = digest\<rparr>"

definition markEvidenceAttached ::
    "('client, 'trust, 'reg, 'ps) preparation_services \<Rightarrow> AttestationReference \<Rightarrow> AttestationReference \<Rightarrow> Preparation \<Rightarrow> Preparation" where
  "markEvidenceAttached v signature provenanceRef p =
     (let p = on_prep_status (\<lambda>s. s\<lparr>PreparationStatus_Attestations :=
            setAttestation provenanceRef (setAttestation signature (PreparationStatus_Attestations s))\<rparr>) p;
          p = prep_true v ConditionTypeSigned ReasonSigned (''Signature recorded at '' @ AttestationReference_OCIRef signature) p;
          p = prep_true v ConditionTypeProvenanceAttached ReasonProvenanceAttached
            (''Provenance recorded at '' @ AttestationReference_OCIRef provenanceRef) p
      in markEvidenceReady v p)"

definition markSignFailed :: "('client, 'trust, 'reg, 'ps) preparation_services \<Rightarrow> string \<Rightarrow> string \<Rightarrow> Preparation \<Rightarrow> Preparation" where
  "markSignFailed v reason err p = markEvidenceReady v (prep_false v ConditionTypeSigned reason err p)"

definition markProvenanceFailed :: "('client, 'trust, 'reg, 'ps) preparation_services \<Rightarrow> string \<Rightarrow> Preparation \<Rightarrow> Preparation" where
  "markProvenanceFailed v err p =
     markEvidenceReady v (prep_false v ConditionTypeProvenanceAttached ReasonProvenanceAttachFailed err p)"

definition markApproval :: "('client, 'trust, 'reg, 'ps) preparation_services \<Rightarrow> approval_result \<Rightarrow> Preparation \<Rightarrow> Preparation" where
  "markApproval v res p =
     Set_condition (pw_conditions v) preparation_setter
       (on_prep_status (\<lambda>s. s\<lparr>PreparationStatus_Approval := (if ar_Required res then ar_Status res else None)\<rparr>) p)
       ConditionTypeApproved (if ar_Approved res then ConditionTrue else ConditionFalse) (ar_Reason res) (ar_Message res)"

section \<open>Attaching the evidence\<close>

text \<open>The registryRefs of the Order, none when it is gone.\<close>

definition order_registry_refs :: "('client, 'trust, 'reg, 'ps) preparation_services \<Rightarrow> Preparation \<Rightarrow> string + local_object_reference list" where
  "order_registry_refs v p =
     (let name = PreparationSpec_OrderName (Preparation_Spec p) in
      case pw_get_Order v (prep_namespace p) name of
        Inr order \<Rightarrow> Inr (OrderSpec_RegistryRefs (Order_Spec order))
      | Inl (NotFound _) \<Rightarrow> Inr []
      | Inl (GetFailed err) \<Rightarrow> Inl (''failed to get Order '' @ go_quote name @ '': '' @ err))"

text \<open>The client of the connection to the artifact. Registries that are read always connect with one.\<close>

definition artifactConnection ::
    "('client, 'trust, 'reg, 'ps) preparation_services \<Rightarrow> Preparation \<Rightarrow> 'client kept \<Rightarrow> (string + 'reg referrer_client) \<times> 'client kept" where
  "artifactConnection v p kept =
     (case ConnectRecorded (pw_registry v) (pw_clients v) (pw_reader v) (prep_namespace p) (Artifact_RegistryRef (prep_artifact p))
         (Artifact_OCIRef (prep_artifact p)) (order_registry_refs v p) kept of
        (Inl err, kept) \<Rightarrow>
          (Inl (''failed to connect to the destination of Preparation '' @ go_quote (prep_name p) @ '': '' @ re_Message err), kept)
      | (Inr conn, kept) \<Rightarrow>
          (case cn_Client conn of Some c \<Rightarrow> (Inr (pw_client v c), kept) | None \<Rightarrow> (Inl ''nil pointer dereference'', kept)))"

text \<open>With the connection: the config is read, the artifact signed and the provenance attached.\<close>

definition attach_provenance ::
    "('client, 'trust, 'reg, 'ps) preparation_services \<Rightarrow> 'reg referrer_client \<Rightarrow> 'trust Signer \<Rightarrow> oci_reference \<Rightarrow> Config \<Rightarrow> string \<Rightarrow>
     ('client, 'reg, 'ps) preparation_state \<Rightarrow> reconcile_result \<times> ('client, 'reg, 'ps) preparation_state" where
  "attach_provenance v client signer subject cfg signatureDigest st =
     (case Attach (pw_json v) (pw_images v) client (pw_verify v) (rf_string (pw_references v)) signer subject cfg (pc_reg st) of
        (Inl failed, reg) \<Rightarrow>
          let st = on_prep (markProvenanceFailed v (provenance_message failed)) (st\<lparr>pc_reg := reg\<rparr>) in
          (case failed of
             InvalidConfig _ \<Rightarrow> (Inl (TerminalError (''could not attach provenance: '' @ provenance_message failed)), st)
           | ProvenanceFailed _ \<Rightarrow> (Inl (RetriedError (''failed to attach provenance: '' @ provenance_message failed)), st))
      | (Inr provenanceDigest, reg) \<Rightarrow>
          (Inr 0, on_prep (markEvidenceAttached v (attestationReference AttestationTypeSignature subject signatureDigest)
             (attestationReference AttestationTypeProvenance subject provenanceDigest)) (st\<lparr>pc_reg := reg\<rparr>)))"

definition sign_artifact ::
    "('client, 'trust, 'reg, 'ps) preparation_services \<Rightarrow> 'reg referrer_client \<Rightarrow> 'trust Signer \<Rightarrow> oci_reference \<Rightarrow>
     ('client, 'reg, 'ps) preparation_state \<Rightarrow> reconcile_result \<times> ('client, 'reg, 'ps) preparation_state" where
  "sign_artifact v client signer subject st =
     (case ReadConfig (pw_json v) client subject (pc_reg st) of
        Inl failed \<Rightarrow>
          let st = on_prep (markSignFailed v ReasonSignFailed (provenance_message failed)) st in
          (case failed of
             InvalidConfig _ \<Rightarrow> (Inl (TerminalError (''could not sign artifact: '' @ provenance_message failed)), st)
           | ProvenanceFailed _ \<Rightarrow> (Inl (RetriedError (''failed to read artifact config: '' @ provenance_message failed)), st))
      | Inr cfg \<Rightarrow>
         (case Sign client (pw_verify v) (rf_string (pw_references v)) signer subject
             (case Config_Created (pw_json v) cfg of Inr created \<Rightarrow> created | Inl _ \<Rightarrow> 0) (pc_reg st) of
            (Inl err, reg) \<Rightarrow>
              (Inl (RetriedError (''failed to sign artifact: '' @ err)), on_prep (markSignFailed v ReasonSignFailed err) (st\<lparr>pc_reg := reg\<rparr>))
          | (Inr signatureDigest, reg) \<Rightarrow> attach_provenance v client signer subject cfg signatureDigest (st\<lparr>pc_reg := reg\<rparr>)))"

definition attachEvidence ::
    "('client, 'trust, 'reg, 'ps) preparation_services \<Rightarrow> ('client, 'reg, 'ps) preparation_state \<Rightarrow>
     reconcile_result \<times> ('client, 'reg, 'ps) preparation_state" where
  "attachEvidence v st =
     (case pw_State v of
        Inl err \<Rightarrow> (Inr signingKeyRetryInterval, on_prep (markSignFailed v ReasonSigningKeyNotReady err) st)
      | Inr signer \<Rightarrow>
         (case rf_parse (pw_references v) (Artifact_OCIRef (prep_artifact (pc_prep st))) of
            Inl err \<Rightarrow> (Inl (RetriedError (''parsing Preparation artifact reference: '' @ err)), st)
          | Inr subject \<Rightarrow>
             (case artifactConnection v (pc_prep st) (pc_kept st) of
                (Inl err, kept) \<Rightarrow> (Inl (RetriedError err), st\<lparr>pc_kept := kept\<rparr>)
              | (Inr client, kept) \<Rightarrow> sign_artifact v client signer subject (st\<lparr>pc_kept := kept\<rparr>))))"

section \<open>Sealing and archiving the votes\<close>

definition approvals_listed :: "string + Approval list \<Rightarrow> reconcile_error + Approval list" where
  "approvals_listed = map_sum (\<lambda>err. RetriedError (''failed to list Approvals: '' @ err)) id"

definition isPromotionTarget :: "('client, 'trust, 'reg, 'ps) preparation_services \<Rightarrow> Preparation \<Rightarrow> string + bool" where
  "isPromotionTarget v p =
     (case pw_get_Serving v (prep_namespace p) (PreparationSpec_OrderName (Preparation_Spec p)) of
        Inl (NotFound _) \<Rightarrow> Inr False
      | Inl (GetFailed err) \<Rightarrow> Inl err
      | Inr serving \<Rightarrow> Inr (ServingStatus_TargetPreparationName (Serving_Status serving) = prep_name p))"

definition seal_votes :: "('client, 'trust, 'reg, 'ps) preparation_services \<Rightarrow> Preparation \<Rightarrow> Preparation" where
  "seal_votes v p =
     prep_false v ConditionTypeApprovalsSealed ReasonArchiving ''Recording the sealed approvals in the OCI registry''
       (on_prep_status (\<lambda>s. s\<lparr>PreparationStatus_Approval := map_option (\<lambda>a. a\<lparr>PreparationApprovalStatus_SealedTime := Some (NewSealTime (pw_now v)),
          PreparationApprovalStatus_Attestation := None\<rparr>) (PreparationStatus_Approval s)\<rparr>) p)"

definition seal ::
    "('client, 'trust, 'reg, 'ps) preparation_services \<Rightarrow> ('client, 'reg, 'ps) preparation_state \<Rightarrow>
     reconcile_result \<times> ('client, 'reg, 'ps) preparation_state" where
  "seal v st =
     (case approvals_listed (pw_live_Approvals v (prep_namespace (pc_prep st)) (prep_name (pc_prep st))) of
        Inl err \<Rightarrow> (Inl err, st)
      | Inr approvals \<Rightarrow>
          let res = approval_Evaluate (pc_prep st) approvals; st = on_prep (markApproval v res) st in
          if \<not> ar_Approved res then (Inr 0, st) else (Inr 0, on_prep (seal_votes v) st))"

text \<open>The statement is attached with the time of the seal; the registry is as the attempt left it.\<close>

definition seal_time :: "Preparation \<Rightarrow> time" where
  "seal_time p =
     (case sealedStatus p of Some s \<Rightarrow> (case PreparationApprovalStatus_SealedTime s of Some t \<Rightarrow> t | None \<Rightarrow> 0) | None \<Rightarrow> 0)"

definition archive_writer ::
    "('client, 'trust, 'reg, 'ps) preparation_services \<Rightarrow> 'reg referrer_client \<Rightarrow> 'trust Signer \<Rightarrow> 'reg \<Rightarrow> record_writer" where
  "archive_writer v client signer reg =
     \<lparr>parse_ref = rf_parse (pw_references v),
      attest = \<lambda>subject t statement created. fst (Push client (pw_verify v) (rf_string (pw_references v)) signer subject t statement created reg)\<rparr>"

definition archived_registry ::
    "('client, 'trust, 'reg, 'ps) preparation_services \<Rightarrow> 'reg referrer_client \<Rightarrow> 'trust Signer \<Rightarrow> Preparation \<Rightarrow> Approval list \<Rightarrow> 'reg \<Rightarrow> 'reg" where
  "archived_registry v client signer p approvals reg =
     (case buildAttestation p approvals of
        Inl _ \<Rightarrow> reg
      | Inr statement \<Rightarrow>
         (case rf_parse (pw_references v) (Artifact_OCIRef (prep_artifact p)) of
            Inl _ \<Rightarrow> reg
          | Inr subject \<Rightarrow>
              snd (Push client (pw_verify v) (rf_string (pw_references v)) signer subject AttestationPredicateType statement (seal_time p) reg)))"

definition record_archive ::
    "('client, 'trust, 'reg, 'ps) preparation_services \<Rightarrow> ApprovalAttestation \<Rightarrow> Preparation \<Rightarrow> Preparation" where
  "record_archive v archived p =
     prep_true v ConditionTypeApprovalsSealed ReasonSealed (''Approvals sealed and recorded at '' @ ApprovalAttestation_OCIRef archived)
       (on_prep_status (\<lambda>s. s\<lparr>PreparationStatus_Approval := map_option (\<lambda>a. a\<lparr>PreparationApprovalStatus_Attestation := Some archived\<rparr>)
          (PreparationStatus_Approval s)\<rparr>) p)"

definition archive ::
    "('client, 'trust, 'reg, 'ps) preparation_services \<Rightarrow> ('client, 'reg, 'ps) preparation_state \<Rightarrow>
     reconcile_result \<times> ('client, 'reg, 'ps) preparation_state" where
  "archive v st =
     (case pw_State v of
        Inl err \<Rightarrow> (Inr signingKeyRetryInterval, on_prep (prep_false v ConditionTypeApprovalsSealed ReasonArchiveFailed err) st)
      | Inr signer \<Rightarrow>
         (case approvals_listed (pw_live_Approvals v (prep_namespace (pc_prep st)) (prep_name (pc_prep st))) of
            Inl err \<Rightarrow> (Inl err, st)
          | Inr approvals \<Rightarrow>
             (case artifactConnection v (pc_prep st) (pc_kept st) of
                (Inl err, kept) \<Rightarrow> (Inl (RetriedError err), st\<lparr>pc_kept := kept\<rparr>)
              | (Inr client, kept) \<Rightarrow>
                  let reg = pc_reg st; st = st\<lparr>pc_kept := kept, pc_reg := archived_registry v client signer (pc_prep st) approvals reg\<rparr> in
                  (case Archive (archive_writer v client signer reg) (pc_prep st) approvals of
                     Inl err \<Rightarrow>
                       (Inl (RetriedError (''failed to archive Approvals: '' @ err)),
                        on_prep (prep_false v ConditionTypeApprovalsSealed ReasonArchiveFailed err) st)
                   | Inr archived \<Rightarrow> (Inr 0, on_prep (record_archive v archived) st)))))"

section \<open>The reconcile\<close>

definition has_attestation :: "Preparation \<Rightarrow> bool" where
  "has_attestation p =
     (case PreparationStatus_Approval (Preparation_Status p) of
        None \<Rightarrow> False | Some a \<Rightarrow> PreparationApprovalStatus_Attestation a \<noteq> None)"

definition reconcilePreparation ::
    "('client, 'trust, 'reg, 'ps) preparation_services \<Rightarrow> ('client, 'reg, 'ps) preparation_state \<Rightarrow>
     reconcile_result \<times> ('client, 'reg, 'ps) preparation_state" where
  "reconcilePreparation v st =
     (if \<not> evidenceAttached v (pc_prep st) then attachEvidence v st
      else case approvals_listed (pw_list_Approvals v (prep_namespace (pc_prep st)) (prep_name (pc_prep st))) of
        Inl err \<Rightarrow> (Inl err, st)
      | Inr approvals \<Rightarrow>
          let res = approval_Evaluate (pc_prep st) approvals; st = on_prep (markApproval v res) st in
          if \<not> ar_Required res then (Inr 0, st)
          else if IsSealed (pc_prep st) \<and> \<not> has_attestation (pc_prep st) then archive v st
          else if IsSealed (pc_prep st) \<or> \<not> ar_Approved res then (Inr 0, st)
          else (case isPromotionTarget v (pc_prep st) of
              Inl err \<Rightarrow> (Inl (RetriedError err), st)
            | Inr targeted \<Rightarrow> if targeted then seal v st else (Inr 0, st)))"

definition prep_finalizers :: "Preparation \<Rightarrow> string list" where
  "prep_finalizers p = om_Finalizers (Preparation_ObjectMeta p)"

definition set_prep_finalizers :: "string list \<Rightarrow> Preparation \<Rightarrow> Preparation" where
  "set_prep_finalizers fs p = p\<lparr>Preparation_ObjectMeta := (Preparation_ObjectMeta p)\<lparr>om_Finalizers := fs\<rparr>\<rparr>"

definition update_preparation ::
    "('client, 'trust, 'reg, 'ps) preparation_services \<Rightarrow> ('client, 'reg, 'ps) preparation_state \<Rightarrow>
     string option \<times> ('client, 'reg, 'ps) preparation_state" where
  "update_preparation v st =
     (case pw_update v (pc_prep st) (pc_api st) of
        (Inl err, api) \<Rightarrow> (Some err, st\<lparr>pc_api := api\<rparr>)
      | (Inr p, api) \<Rightarrow> (None, st\<lparr>pc_api := api, pc_prep := p\<rparr>))"

definition preparation_reconcileDelete ::
    "('client, 'trust, 'reg, 'ps) preparation_services \<Rightarrow> ('client, 'reg, 'ps) preparation_state \<Rightarrow>
     reconcile_result \<times> ('client, 'reg, 'ps) preparation_state" where
  "preparation_reconcileDelete v st =
     (if Finalizer \<notin> set (prep_finalizers (pc_prep st)) then (Inr 0, st)
      else case update_preparation v (on_prep (\<lambda>p. set_prep_finalizers (filter (\<lambda>f. f \<noteq> Finalizer) (prep_finalizers p)) p) st) of
        (Some err, st) \<Rightarrow> (Inl (RetriedError err), st) | (None, st) \<Rightarrow> (Inr 0, st))"

definition preparation_reconcile_body ::
    "('client, 'trust, 'reg, 'ps) preparation_services \<Rightarrow> ('client, 'reg, 'ps) preparation_state \<Rightarrow>
     reconcile_result \<times> ('client, 'reg, 'ps) preparation_state" where
  "preparation_reconcile_body v st =
     (if om_DeletionTimestamp (Preparation_ObjectMeta (pc_prep st)) \<noteq> None then preparation_reconcileDelete v st
      else if Finalizer \<in> set (prep_finalizers (pc_prep st)) then reconcilePreparation v st
      else case update_preparation v (on_prep (\<lambda>p. set_prep_finalizers (prep_finalizers p @ [Finalizer]) p) st) of
        (Some err, st) \<Rightarrow> (Inl (RetriedError err), st)
      | (None, st) \<Rightarrow> reconcilePreparation v st)"

definition preparation_patchStatus ::
    "('client, 'trust, 'reg, 'ps) preparation_services \<Rightarrow> PreparationStatus \<Rightarrow> reconcile_result \<Rightarrow> ('client, 'reg, 'ps) preparation_state \<Rightarrow>
     reconcile_result \<times> ('client, 'reg, 'ps) preparation_state" where
  "preparation_patchStatus v previous result st =
     (let st = on_prep (\<lambda>p. on_prep_status (\<lambda>s. s\<lparr>PreparationStatus_ObservedGeneration := om_Generation (Preparation_ObjectMeta p)\<rparr>) p) st in
      if Preparation_Status (pc_prep st) = previous then (result, st)
      else case pw_patch_status v (pc_prep st) previous (pc_api st) of
        (w, api) \<Rightarrow> (patch_outcome ''Preparation'' result w, st\<lparr>pc_api := api\<rparr>))"

definition preparation_Reconcile ::
    "('client, 'trust, 'reg, 'ps) preparation_services \<Rightarrow> string \<Rightarrow> string \<Rightarrow> ('client, 'reg, 'ps) preparation_state \<Rightarrow>
     reconcile_result \<times> ('client, 'reg, 'ps) preparation_state" where
  "preparation_Reconcile v namespace name st =
     (case pw_get v namespace name (pc_api st) of
        Inl (NotFound _) \<Rightarrow> (Inr 0, st)
      | Inl (GetFailed err) \<Rightarrow> (Inl (RetriedError (''failed to get Preparation: '' @ err)), st)
      | Inr p \<Rightarrow>
         (case preparation_reconcile_body v (st\<lparr>pc_prep := p\<rparr>) of
            (result, st) \<Rightarrow> preparation_patchStatus v (Preparation_Status p) result st))"

section \<open>The watches of Preparations\<close>

type_synonym object_key = "string \<times> string"

definition preparationOrder :: "Preparation \<Rightarrow> string list" where
  "preparationOrder p = [PreparationSpec_OrderName (Preparation_Spec p)]"

definition enqueuePreparationForApproval :: "Approval \<Rightarrow> object_key list" where
  "enqueuePreparationForApproval a =
     [(om_Namespace (Approval_ObjectMeta a), ApprovalPreparationReference_Name (ApprovalSpec_PreparationRef (Approval_Spec a)))]"

definition enqueueTargetPreparation :: "Serving \<Rightarrow> object_key list" where
  "enqueueTargetPreparation serving =
     (let target = ServingStatus_TargetPreparationName (Serving_Status serving) in
      if target = [] then [] else [(om_Namespace (Serving_ObjectMeta serving), target)])"

definition servingTargetChanged :: "Serving \<Rightarrow> Serving \<Rightarrow> bool" where
  "servingTargetChanged old new =
     (ServingStatus_TargetPreparationName (Serving_Status old) \<noteq> ServingStatus_TargetPreparationName (Serving_Status new))"

section \<open>The Approval controller\<close>

record 'as approval_services =
  aw_conditions :: condition_library
  aw_get :: "string \<Rightarrow> string \<Rightarrow> 'as \<Rightarrow> read_failure + Approval"
  aw_get_Preparation :: "string \<Rightarrow> string \<Rightarrow> read_failure + Preparation"
  aw_list_Approvals :: "string \<Rightarrow> string \<Rightarrow> string + Approval list"
  aw_patch_status :: "Approval \<Rightarrow> ApprovalStatus \<Rightarrow> 'as \<Rightarrow> write_result \<times> 'as"

definition approval_setter :: "Approval setter" where
  "approval_setter = \<lparr>GetGeneration = \<lambda>a. om_Generation (Approval_ObjectMeta a), GetConditions = Approval_GetConditions,
     SetConditions = Approval_SetConditions\<rparr>"

definition markCounted :: "'as approval_services \<Rightarrow> approval_verdict \<Rightarrow> Approval \<Rightarrow> Approval" where
  "markCounted v verdict a =
     Set_condition (aw_conditions v) approval_setter a ConditionTypeCounted (if av_Counted verdict then ConditionTrue else ConditionFalse)
       (av_Reason verdict) (av_Message verdict)"

definition reconcileApproval :: "'as approval_services \<Rightarrow> Approval \<Rightarrow> reconcile_result \<times> Approval" where
  "reconcileApproval v a =
     (let name = ApprovalPreparationReference_Name (ApprovalSpec_PreparationRef (Approval_Spec a)) in
      case aw_get_Preparation v (om_Namespace (Approval_ObjectMeta a)) name of
        Inl (GetFailed err) \<Rightarrow> (Inl (RetriedError (''failed to get Preparation: '' @ err)), a)
      | Inl (NotFound _) \<Rightarrow> (Inr 0, markCounted v \<lparr>av_Counted = False, av_Reason = ReasonPreparationNotFound,
          av_Message = ''Preparation '' @ go_quote name @ '' does not exist''\<rparr> a)
      | Inr prep \<Rightarrow>
         (case approvals_listed (aw_list_Approvals v (prep_namespace prep) (prep_name prep)) of
            Inl err \<Rightarrow> (Inl err, a)
          | Inr approvals \<Rightarrow>
             (case ar_Verdicts (approval_Evaluate prep approvals) (approval_name a) of
                None \<Rightarrow> (Inr 0, a)
              | Some verdict \<Rightarrow> (Inr 0, markCounted v verdict a))))"

definition approval_patchStatus :: "'as approval_services \<Rightarrow> ApprovalStatus \<Rightarrow> reconcile_result \<Rightarrow> Approval \<Rightarrow> 'as \<Rightarrow> reconcile_result \<times> 'as" where
  "approval_patchStatus v previous result a as =
     (let a = a\<lparr>Approval_Status := (Approval_Status a)\<lparr>ApprovalStatus_ObservedGeneration := om_Generation (Approval_ObjectMeta a)\<rparr>\<rparr> in
      if Approval_Status a = previous then (result, as)
      else case aw_patch_status v a previous as of (w, as) \<Rightarrow> (patch_outcome ''Approval'' result w, as))"

definition approval_Reconcile :: "'as approval_services \<Rightarrow> string \<Rightarrow> string \<Rightarrow> 'as \<Rightarrow> reconcile_result \<times> 'as" where
  "approval_Reconcile v namespace name as =
     (case aw_get v namespace name as of
        Inl (NotFound _) \<Rightarrow> (Inr 0, as)
      | Inl (GetFailed err) \<Rightarrow> (Inl (RetriedError (''failed to get Approval: '' @ err)), as)
      | Inr a \<Rightarrow>
         (case (if om_DeletionTimestamp (Approval_ObjectMeta a) \<noteq> None then (Inr 0, a) else reconcileApproval v a) of
            (result, b) \<Rightarrow> approval_patchStatus v (Approval_Status a) result b as))"

definition approvalPreparation :: "Approval \<Rightarrow> string list" where
  "approvalPreparation a = [ApprovalPreparationReference_Name (ApprovalSpec_PreparationRef (Approval_Spec a))]"

definition enqueueApprovalsForPreparation :: "'as approval_services \<Rightarrow> Preparation \<Rightarrow> object_key list" where
  "enqueueApprovalsForPreparation v prep =
     (case approvals_listed (aw_list_Approvals v (prep_namespace prep) (prep_name prep)) of
        Inl _ \<Rightarrow> []
      | Inr approvals \<Rightarrow> map (\<lambda>a. (om_Namespace (Approval_ObjectMeta a), approval_name a)) approvals)"

definition approvalStateChanged :: "Preparation \<Rightarrow> Preparation \<Rightarrow> bool" where
  "approvalStateChanged old new = (PreparationStatus_Approval (Preparation_Status old) \<noteq> PreparationStatus_Approval (Preparation_Status new))"

end
