(* ===== verification/Order_Serving.thy ===== *)
theory Order_Serving
  imports Order_Safety
begin

text \<open>
  The Serving of an Order (\<open>ensureServing\<close>, \<open>adoptServing\<close> of \<open>order_controller.go\<close>): whose Serving the reconcile
  may write. What owner references promise is the locale \<open>owner_references\<close>; what the server does is
  \<open>object_server\<close>, with a read that bypasses the cache. Two instances compute both.
\<close>

section \<open>Owner references\<close>

text \<open>Setting the controller succeeds only without another one, and changes only the references.\<close>

locale owner_references =
  fixes lib :: owner_library
  assumes set_controls: "set_controller lib owner meta = Inr meta' \<Longrightarrow>
      is_controlled_by lib meta' owner \<and> (\<exists>refs. meta' = meta\<lparr>om_OwnerReferences := refs\<rparr>)"
    and controlled: "is_controlled_by lib meta owner \<Longrightarrow> controller_of lib meta \<noteq> None"
    and by_references: "om_OwnerReferences a = om_OwnerReferences b \<Longrightarrow> is_controlled_by lib a owner = is_controlled_by lib b owner"

text \<open>
  A computing library: the controller is the reference marked so, setting it fails when another object is,
  and an object is controlled by the owner whose UID the mark names.
\<close>

definition own_reference :: "object_meta \<Rightarrow> owner_reference" where
  "own_reference owner = \<lparr>ow_Kind = [], ow_Name = om_Name owner, ow_UID = om_UID owner, ow_Controller = True\<rparr>"

definition marked :: "object_meta \<Rightarrow> owner_reference option" where
  "marked meta = find ow_Controller (om_OwnerReferences meta)"

definition plain_owners :: owner_library where
  "plain_owners =
     \<lparr>controller_of = marked,
      is_controlled_by = \<lambda>meta owner. (case marked meta of Some r \<Rightarrow> ow_UID r = om_UID owner | None \<Rightarrow> False),
      set_controller = \<lambda>owner meta. (case marked meta of
          Some r \<Rightarrow> if ow_UID r = om_UID owner then Inr meta else Inl (''already owned by '' @ ow_Name r)
        | None \<Rightarrow> Inr (meta\<lparr>om_OwnerReferences := om_OwnerReferences meta @ [own_reference owner]\<rparr>))\<rparr>"

lemma find_snoc: "find P xs = None \<Longrightarrow> find P (xs @ [x]) = (if P x then Some x else None)"
  by (induction xs) (auto split: if_splits)

interpretation plain_owners: owner_references plain_owners
proof unfold_locales
  fix owner meta meta'
  assume set: "set_controller plain_owners owner meta = Inr meta'"
  show "is_controlled_by plain_owners meta' owner \<and> (\<exists>refs. meta' = meta\<lparr>om_OwnerReferences := refs\<rparr>)"
  proof (cases "marked meta")
    case None
    then have "marked (meta\<lparr>om_OwnerReferences := om_OwnerReferences meta @ [own_reference owner]\<rparr>) = Some (own_reference owner)"
      by (simp add: marked_def own_reference_def find_snoc)
    then show ?thesis using set None by (auto simp: plain_owners_def own_reference_def)
  next
    case (Some r)
    then show ?thesis using set by (auto simp: plain_owners_def split: if_splits intro: exI [of _ "om_OwnerReferences meta"])
  qed
qed (auto simp: plain_owners_def marked_def split: option.splits)

section \<open>The server of Servings\<close>

text \<open>What a write keeps of an object: all but its status and what the server sets.\<close>

definition serving_written :: "Serving \<Rightarrow> Serving \<Rightarrow> bool" where
  "serving_written x c \<longleftrightarrow> Serving_Spec c = Serving_Spec x
     \<and> (\<exists>uid gen created ver. Serving_ObjectMeta c = (Serving_ObjectMeta x)\<lparr>om_UID := uid, om_Generation := gen, om_CreationTimestamp := created,
          om_ResourceVersion := ver\<rparr>)"

definition name_of_serving :: "Serving \<Rightarrow> string" where
  "name_of_serving s = om_Name (Serving_ObjectMeta s)"

definition serving_version :: "Serving \<Rightarrow> string" where
  "serving_version s = om_ResourceVersion (Serving_ObjectMeta s)"

definition serving_labels :: "Serving \<Rightarrow> string \<rightharpoonup> string" where
  "serving_labels s = map_of (om_Labels (Serving_ObjectMeta s))"

locale servings_server =
  object_server "ow_servings v" name_of_serving serving_version serving_written serving_labels stored + owner_references "ow_owners v"
  for v :: "('client, 'os, 'ps, 'ss, 'pipe) order_services" and stored :: "'ss \<Rightarrow> string \<rightharpoonup> Serving" +
  assumes live_read: "ow_live_Serving v n s = Inr x \<Longrightarrow>
      name_of_serving x = n \<and> serving_version x \<noteq> [] \<and> (\<forall>c. stored s n = Some c \<longrightarrow> serving_version c = serving_version x \<longrightarrow> c = x)"

text \<open>
  Taking over: a Serving of the Order that had no controller is the Order's now, with the spec it had and
  nothing else of its own changed. Creating one: the Order controls it, and it follows the Order.
\<close>

definition reowned :: "object_meta \<Rightarrow> object_meta \<Rightarrow> bool" where
  "reowned a b \<longleftrightarrow> (\<exists>refs uid gen created ver. b = a\<lparr>om_OwnerReferences := refs, om_UID := uid, om_Generation := gen,
     om_CreationTimestamp := created, om_ResourceVersion := ver\<rparr>)"

definition taken_over :: "owner_library \<Rightarrow> Order \<Rightarrow> Serving \<Rightarrow> Serving \<Rightarrow> bool" where
  "taken_over lib order a b \<longleftrightarrow> controller_of lib (Serving_ObjectMeta a) = None \<and> ServingSpec_OrderName (Serving_Spec a) = name_of_order order
     \<and> is_controlled_by lib (Serving_ObjectMeta b) (Order_ObjectMeta order) \<and> Serving_Spec b = Serving_Spec a
     \<and> reowned (Serving_ObjectMeta a) (Serving_ObjectMeta b)"

definition created_for :: "owner_library \<Rightarrow> Order \<Rightarrow> Serving \<Rightarrow> bool" where
  "created_for lib order b \<longleftrightarrow> is_controlled_by lib (Serving_ObjectMeta b) (Order_ObjectMeta order)
     \<and> Serving_Spec b = \<lparr>ServingSpec_OrderName = name_of_order order, ServingSpec_PreparationName = []\<rparr>
     \<and> EffectivePromotionMode order = PromotionModeAutomatic \<and> OrderStatus_LatestPreparationName (Order_Status order) \<noteq> []"

text \<open>What became of the Servings: at most the one of the Order's name was taken over or created.\<close>

definition serving_change :: "owner_library \<Rightarrow> Order \<Rightarrow> (string \<rightharpoonup> Serving) \<Rightarrow> (string \<rightharpoonup> Serving) \<Rightarrow> bool" where
  "serving_change lib order before after \<longleftrightarrow> after = before
     \<or> (\<exists>a b. before (name_of_order order) = Some a \<and> taken_over lib order a b \<and> after = before(name_of_order order \<mapsto> b))
     \<or> (\<exists>b. before (name_of_order order) = None \<and> created_for lib order b \<and> after = before(name_of_order order \<mapsto> b))"

definition adoption_change :: "owner_library \<Rightarrow> Order \<Rightarrow> (string \<rightharpoonup> Serving) \<Rightarrow> (string \<rightharpoonup> Serving) \<Rightarrow> bool" where
  "adoption_change lib order before after \<longleftrightarrow> after = before
     \<or> (\<exists>a b. before (name_of_order order) = Some a \<and> taken_over lib order a b \<and> after = before(name_of_order order \<mapsto> b))"

context servings_server
begin

lemma written_controlled:
  assumes "set_controller (ow_owners v) (Order_ObjectMeta order) (Serving_ObjectMeta a) = Inr meta"
    and "serving_written (a\<lparr>Serving_ObjectMeta := meta\<rparr>) b"
  shows "is_controlled_by (ow_owners v) (Serving_ObjectMeta b) (Order_ObjectMeta order) \<and> Serving_Spec b = Serving_Spec a
    \<and> reowned (Serving_ObjectMeta a) (Serving_ObjectMeta b)"
proof -
  obtain refs where refs: "meta = (Serving_ObjectMeta a)\<lparr>om_OwnerReferences := refs\<rparr>"
    and controls: "is_controlled_by (ow_owners v) meta (Order_ObjectMeta order)"
    using set_controls [OF assms(1)] by auto
  obtain uid gen created ver where b: "Serving_ObjectMeta b = meta\<lparr>om_UID := uid, om_Generation := gen, om_CreationTimestamp := created,
      om_ResourceVersion := ver\<rparr>" and spec: "Serving_Spec b = Serving_Spec a"
    using assms(2) by (auto simp: serving_written_def)
  have "is_controlled_by (ow_owners v) (Serving_ObjectMeta b) (Order_ObjectMeta order)"
    using by_references [of "Serving_ObjectMeta b" meta] controls b by simp
  moreover have "reowned (Serving_ObjectMeta a) (Serving_ObjectMeta b)" unfolding reowned_def b refs by (intro exI) simp
  ultimately show ?thesis using spec by simp
qed

lemma adoptServing_change:
  assumes "adoptServing v order x s = (outcome, s')" "name_of_serving x = name_of_order order" "serving_version x \<noteq> []"
    and "\<And>c. stored s (name_of_order order) = Some c \<Longrightarrow> serving_version c = serving_version x \<Longrightarrow> c = x"
  shows "adoption_change (ow_owners v) order (stored s) (stored s')"
proof (cases "s' = s")
  case False
  then obtain meta r where free: "controller_of (ow_owners v) (Serving_ObjectMeta x) = None"
      "ServingSpec_OrderName (Serving_Spec x) = name_of_order order"
    and set: "set_controller (ow_owners v) (Order_ObjectMeta order) (Serving_ObjectMeta x) = Inr meta"
    and upd: "ob_update (ow_servings v) (x\<lparr>Serving_ObjectMeta := meta\<rparr>) s = (r, s')"
    using assms(1) by (auto simp: adoptServing_def own_def map_sum_def split: if_splits sum.splits prod.splits api_failure.splits)
  obtain refs where "meta = (Serving_ObjectMeta x)\<lparr>om_OwnerReferences := refs\<rparr>" using set_controls [OF set] by auto
  then have key: "name_of_serving (x\<lparr>Serving_ObjectMeta := meta\<rparr>) = name_of_order order"
      "serving_version (x\<lparr>Serving_ObjectMeta := meta\<rparr>) = serving_version x"
    using assms(2) by (simp_all add: name_of_serving_def serving_version_def)
  note became = written_controlled [OF set]
  from update [OF upd] key assms(3) consider "stored s' = stored s"
    | b c where "stored s (name_of_order order) = Some b" "serving_version b = serving_version x"
        "serving_written (x\<lparr>Serving_ObjectMeta := meta\<rparr>) c" "stored s' = (stored s)(name_of_order order \<mapsto> c)" by auto
  then show ?thesis
  proof cases
    case (2 b c)
    have "b = x" using assms(4) 2 by blast
    moreover have "taken_over (ow_owners v) order x c" using became [OF 2(3)] free by (simp add: taken_over_def)
    ultimately show ?thesis using 2 unfolding adoption_change_def by blast
  qed (simp add: adoption_change_def)
qed (simp add: adoption_change_def)

lemma adopt_once_change:
  "adopt_once v order s = (outcome, s') \<Longrightarrow> adoption_change (ow_owners v) order (stored s) (stored s')"
  using adoptServing_change live_read
  by (fastforce simp: adopt_once_def adoption_change_def split: sum.splits api_failure.splits)

lemma taken_over_once: "taken_over (ow_owners v) order a b \<Longrightarrow> \<not> taken_over (ow_owners v) order b c"
  using controlled by (auto simp: taken_over_def)

lemma adoption_change_trans:
  "adoption_change (ow_owners v) order f g \<Longrightarrow> adoption_change (ow_owners v) order g h \<Longrightarrow> adoption_change (ow_owners v) order f h"
  using taken_over_once by (auto simp: adoption_change_def)

lemma retry_adopt_change:
  "retry_adopt v order n s = (err, s') \<Longrightarrow> adoption_change (ow_owners v) order (stored s) (stored s')"
proof (induction n arbitrary: s)
  case 0
  then show ?case using adopt_once_change [of order s] by (auto simp: retry_adopt.simps [of v order 0] split: prod.splits adoption.splits)
next
  case (Suc n)
  obtain outcome t where once: "adopt_once v order s = (outcome, t)" by fastforce
  then show ?case
    using Suc adopt_once_change [OF once] adoption_change_trans
    by (auto simp: retry_adopt.simps [of v order "Suc n"] split: adoption.splits)
qed

lemma createServing_change:
  assumes "createServing v order s = (err, s')" "EffectivePromotionMode order = PromotionModeAutomatic"
    "OrderStatus_LatestPreparationName (Order_Status order) \<noteq> []"
  shows "serving_change (ow_owners v) order (stored s) (stored s')"
proof (cases "s' = s")
  case False
  then obtain meta r where set: "set_controller (ow_owners v) (Order_ObjectMeta order) (Serving_ObjectMeta (new_serving order)) = Inr meta"
    and made: "ob_create (ow_servings v) (new_serving order\<lparr>Serving_ObjectMeta := meta\<rparr>) s = (r, s')"
    using assms(1) by (auto simp: createServing_def own_def map_sum_def Let_def split: sum.splits prod.splits api_failure.splits)
  obtain refs where "meta = (Serving_ObjectMeta (new_serving order))\<lparr>om_OwnerReferences := refs\<rparr>" using set_controls [OF set] by auto
  then have key: "name_of_serving (new_serving order\<lparr>Serving_ObjectMeta := meta\<rparr>) = name_of_order order"
    by (simp add: name_of_serving_def new_serving_def new_meta_def Let_def)
  have spec: "Serving_Spec (new_serving order) = \<lparr>ServingSpec_OrderName = name_of_order order, ServingSpec_PreparationName = []\<rparr>"
    by (simp add: new_serving_def Let_def)
  note became = written_controlled [OF set]
  from create [OF made] key consider "stored s' = stored s"
    | c where "stored s (name_of_order order) = None" "serving_written (new_serving order\<lparr>Serving_ObjectMeta := meta\<rparr>) c"
        "stored s' = (stored s)(name_of_order order \<mapsto> c)" by auto
  then show ?thesis
  proof cases
    case (2 c)
    have "created_for (ow_owners v) order c" using became [OF 2(2)] spec assms(2,3) by (simp add: created_for_def)
    then show ?thesis using 2 unfolding serving_change_def by blast
  qed (simp add: serving_change_def)
qed (simp add: serving_change_def)

lemma adoption_changes: "adoption_change (ow_owners v) order f g \<Longrightarrow> serving_change (ow_owners v) order f g"
  by (auto simp: adoption_change_def serving_change_def)

lemma ensureServing_change:
  assumes "ensureServing v order s = (err, s')"
  shows "serving_change (ow_owners v) order (stored s) (stored s')"
proof -
  have same: "serving_change (ow_owners v) order f f" for f by (simp add: serving_change_def)
  show ?thesis
    using assms createServing_change [of order s err s'] adoption_changes [OF retry_adopt_change [of order "ow_retries v" s err s']] same
    by (auto simp: ensureServing_def split: sum.splits api_failure.splits if_splits)
qed

end

end
