(* ===== verification/Order_Watches.thy ===== *)
theory Order_Watches
  imports Order_Safety
begin

text \<open>
  The watches of Orders (\<open>order_controller.go\<close>): the field indexes, which Orders an event of another object
  enqueues, and the predicates that filter events. What the predicate on Products filters out is shown to
  change nothing for the Orders of the Product.
\<close>

section \<open>The indexes\<close>

definition orderProduct :: "Order \<Rightarrow> string list" where
  "orderProduct o1 = [ProductRef_Name (OrderSpec_ProductRef (Order_Spec o1))]"

definition orderEnvironment :: "Order \<Rightarrow> string list" where
  "orderEnvironment o1 = [EnvironmentRef_Name (OrderSpec_EnvironmentRef (Order_Spec o1))]"

definition orderRegistryNames :: "Order \<Rightarrow> string list" where
  "orderRegistryNames o1 = OrderSpec_RegistryRefs (Order_Spec o1)"

text \<open>A read by index: the Orders of the namespace whose field holds the value, or an error.\<close>

record order_index =
  ix_orders :: "string + Order list"
  ix_products :: "string + Product list"

definition ordersOf :: "order_index \<Rightarrow> string \<Rightarrow> (Order \<Rightarrow> string list) \<Rightarrow> string \<Rightarrow> string + Order list" where
  "ordersOf ix namespace field value =
     map_sum id (filter (\<lambda>o1. order_namespace o1 = namespace \<and> value \<in> set (field o1))) (ix_orders ix)"

definition order_key :: "Order \<Rightarrow> string \<times> string" where
  "order_key o1 = (order_namespace o1, name_of_order o1)"

section \<open>Which Orders an event enqueues\<close>

definition enqueueOrdersForProduct :: "order_index \<Rightarrow> string \<Rightarrow> string \<Rightarrow> (string \<times> string) list" where
  "enqueueOrdersForProduct ix namespace name =
     (case ordersOf ix namespace orderProduct name of Inl _ \<Rightarrow> [] | Inr orders \<Rightarrow> map order_key orders)"

definition productRegistryNames :: "Product \<Rightarrow> string list" where
  "productRegistryNames p = ProductSpec_RegistryRefs (Product_Spec p)"

fun orders_of_products :: "order_index \<Rightarrow> Product list \<Rightarrow> Order list \<Rightarrow> Order list option" where
  "orders_of_products ix [] orders = Some orders"
| "orders_of_products ix (p # ps) orders =
     (case ordersOf ix (om_Namespace (Product_ObjectMeta p)) orderProduct (om_Name (Product_ObjectMeta p)) of
        Inl _ \<Rightarrow> None | Inr ofProduct \<Rightarrow> orders_of_products ix ps (orders @ ofProduct))"

fun unseen_keys :: "Order list \<Rightarrow> (string \<times> string) list \<Rightarrow> (string \<times> string) list" where
  "unseen_keys [] seen = []"
| "unseen_keys (o1 # os) seen =
     (if order_key o1 \<in> set seen then unseen_keys os seen else order_key o1 # unseen_keys os (order_key o1 # seen))"

definition enqueueOrdersForRegistry :: "order_index \<Rightarrow> string \<Rightarrow> string \<Rightarrow> (string \<times> string) list" where
  "enqueueOrdersForRegistry ix namespace name =
     (case ordersOf ix namespace orderRegistryNames name of
        Inl _ \<Rightarrow> []
      | Inr orders \<Rightarrow>
         (case ix_products ix of
            Inl _ \<Rightarrow> []
          | Inr products \<Rightarrow>
             (case orders_of_products ix
                 (filter (\<lambda>p. om_Namespace (Product_ObjectMeta p) = namespace \<and> name \<in> set (productRegistryNames p)) products) orders of
                None \<Rightarrow> [] | Some orders \<Rightarrow> unseen_keys orders [])))"

definition enqueueDownstreamOrders :: "order_index \<Rightarrow> string \<Rightarrow> string \<Rightarrow> (string \<times> string) list" where
  "enqueueDownstreamOrders ix namespace name =
     (case ordersOf ix namespace orderUpstreamNames name of Inl _ \<Rightarrow> [] | Inr orders \<Rightarrow> map order_key orders)"

definition enqueueOrderOfServing :: "Serving \<Rightarrow> (string \<times> string) list" where
  "enqueueOrderOfServing s = [(om_Namespace (Serving_ObjectMeta s), om_Name (Serving_ObjectMeta s))]"

section \<open>Which updates pass\<close>

definition pipelineChanged :: "condition_library \<Rightarrow> Order \<Rightarrow> Order \<Rightarrow> bool" where
  "pipelineChanged lib old new \<longleftrightarrow>
     om_Generation (Order_ObjectMeta old) \<noteq> om_Generation (Order_ObjectMeta new)
     \<or> HasReason lib order_setter old ConditionTypeReady ReasonInvalidPipeline
         \<noteq> HasReason lib order_setter new ConditionTypeReady ReasonInvalidPipeline"

definition renderHash :: "Order \<Rightarrow> string" where
  "renderHash o1 = (case OrderStatus_Render (Order_Status o1) of Some r \<Rightarrow> OrderRender_ConfigHash r | None \<Rightarrow> [])"

definition renderStarted :: "Order \<Rightarrow> Order \<Rightarrow> bool" where
  "renderStarted old new \<longleftrightarrow> renderHash new \<noteq> [] \<and> renderHash new \<noteq> renderHash old"

text \<open>What an Order reads of the Ready condition of its Product; the zero value, without one, is none.\<close>

record productReadiness =
  pr_status :: condition_status
  pr_observedGeneration :: int64
  pr_reason :: string
  pr_message :: string

definition readinessOf :: "condition_library \<Rightarrow> Product \<Rightarrow> productReadiness option" where
  "readinessOf lib p =
     map_option (\<lambda>ready. \<lparr>pr_status = c_Status ready, pr_observedGeneration = c_ObservedGeneration ready, pr_reason = c_Reason ready,
       pr_message = c_Message ready\<rparr>) (find_condition lib (ProductStatus_Conditions (Product_Status p)) ConditionTypeReady)"

definition productChanged :: "condition_library \<Rightarrow> Product \<Rightarrow> Product \<Rightarrow> bool" where
  "productChanged lib old new \<longleftrightarrow>
     om_Generation (Product_ObjectMeta old) \<noteq> om_Generation (Product_ObjectMeta new)
     \<or> om_DeletionTimestamp (Product_ObjectMeta old) \<noteq> om_DeletionTimestamp (Product_ObjectMeta new)
     \<or> ProductStatus_ConfigHash (Product_Status old) \<noteq> ProductStatus_ConfigHash (Product_Status new)
     \<or> ProductStatus_Source (Product_Status old) \<noteq> ProductStatus_Source (Product_Status new)
     \<or> readinessOf lib old \<noteq> readinessOf lib new"

definition controllerUID :: "owner_library \<Rightarrow> object_meta \<Rightarrow> string" where
  "controllerUID lib meta = (case controller_of lib meta of Some owner \<Rightarrow> ow_UID owner | None \<Rightarrow> [])"

definition servingControllerChanged :: "owner_library \<Rightarrow> Serving \<Rightarrow> Serving \<Rightarrow> bool" where
  "servingControllerChanged lib old new \<longleftrightarrow>
     controllerUID lib (Serving_ObjectMeta old) \<noteq> controllerUID lib (Serving_ObjectMeta new)"

section \<open>What the predicate on Products filters out\<close>

text \<open>Two versions of an object: its generation tells apart its specs.\<close>

definition product_versions :: "Product \<Rightarrow> Product \<Rightarrow> bool" where
  "product_versions old new \<longleftrightarrow> om_Name (Product_ObjectMeta old) = om_Name (Product_ObjectMeta new)
     \<and> om_Namespace (Product_ObjectMeta old) = om_Namespace (Product_ObjectMeta new)
     \<and> (om_Generation (Product_ObjectMeta old) = om_Generation (Product_ObjectMeta new) \<longrightarrow> Product_Spec old = Product_Spec new)"

definition with_product ::
    "('client, 'os, 'ps, 'ss, 'pipe) order_services \<Rightarrow> Product \<Rightarrow> ('client, 'os, 'ps, 'ss, 'pipe) order_services" where
  "with_product v product = v\<lparr>ow_get_Product := \<lambda>_ _. Inr product\<rparr>"

lemma unchanged_effective:
  assumes "\<not> productChanged lib old new" "product_versions old new"
  shows "ForProduct ProductRevision old order = ForProduct ProductRevision new order"
proof -
  have same: "Product_Spec old = Product_Spec new" "ProductStatus_Source (Product_Status old) = ProductStatus_Source (Product_Status new)"
      "ProductStatus_ConfigHash (Product_Status old) = ProductStatus_ConfigHash (Product_Status new)"
      "om_Name (Product_ObjectMeta old) = om_Name (Product_ObjectMeta new)"
    using assms by (simp_all add: productChanged_def product_versions_def)
  have "mergeRender old order = mergeRender new order" unfolding mergeRender_def same ..
  moreover have "mergePatches old order = mergePatches new order" unfolding mergePatches_def same ..
  moreover have "validateEdits old order = validateEdits new order" unfolding validateEdits_def same ..
  moreover have "TargetNamespace old order = TargetNamespace new order" unfolding TargetNamespace_def same ..
  moreover have "ProductRevision old = ProductRevision new" unfolding ProductRevision_def productRevisionCanonical_def product_part_def same ..
  ultimately show ?thesis unfolding ForProduct_def same by (simp only:)
qed

lemma unchanged_ready:
  assumes "\<not> productChanged lib old new" "product_versions old new"
  shows "ProductReady (find_condition lib) old = ProductReady (find_condition lib) new"
  using assms by (auto simp: productChanged_def ProductReady_def readinessOf_def split: option.splits)

text \<open>Nothing but reading the Product depends on it.\<close>

lemma with_product_fields:
  "ow_conditions (with_product v p) = ow_conditions v"
  "ow_owners (with_product v p) = ow_owners v"
  "ow_references (with_product v p) = ow_references v"
  "ow_registry (with_product v p) = ow_registry v"
  "ow_clients (with_product v p) = ow_clients v"
  "ow_reader (with_product v p) = ow_reader v"
  "ow_resolves (with_product v p) = ow_resolves v"
  "ow_orders (with_product v p) = ow_orders v"
  "ow_list_Orders (with_product v p) = ow_list_Orders v"
  "ow_get_Kitchen (with_product v p) = ow_get_Kitchen v"
  "ow_preparations (with_product v p) = ow_preparations v"
  "ow_live_Preparation (with_product v p) = ow_live_Preparation v"
  "ow_retries (with_product v p) = ow_retries v"
  "ow_Render (with_product v p) = ow_Render v"
  "ow_InstallNamespace (with_product v p) = ow_InstallNamespace v"
  "ow_BuilderID (with_product v p) = ow_BuilderID v"
  "ow_build (with_product v p) = ow_build v"
  "ow_get_Product (with_product v p) = (\<lambda>_ _. Inr p)"
  by (simp_all add: with_product_def)

lemma with_product_marks:
  "not_ready (with_product v p) = not_ready v" "start_render (with_product v p) = start_render v"
  "markUpToDate (with_product v p) = markUpToDate v" "own (with_product v p) = own v"
  by - (unfold not_ready_def start_render_def markUpToDate_def own_def with_product_fields, (rule refl)+)

lemma with_product_failures:
  "registryFailed (with_product v p) = registryFailed v" "renderFailed (with_product v p) = renderFailed v"
  by - (unfold registryFailed_def renderFailed_def with_product_marks, (rule refl)+)

lemma with_product_reads:
  "pipelineProblem (with_product v p) = pipelineProblem v" "order_connect (with_product v p) = order_connect v"
  "exposesPrivateSource (with_product v p) = exposesPrivateSource v" "isLatest (with_product v p) = isLatest v"
  "imageOptions (with_product v p) = imageOptions v" "latestPreparation (with_product v p) = latestPreparation v"
  "consumeCommitMessage (with_product v p) = consumeCommitMessage v" "createPreparation (with_product v p) = createPreparation v"
  by - (unfold pipelineProblem_def order_connect_def exposesPrivateSource_def isLatest_def imageOptions_def latestPreparation_def
      consumeCommitMessage_def createPreparation_def with_product_marks with_product_fields, (rule refl)+)

lemmas with_product_steps = with_product_fields with_product_marks with_product_failures with_product_reads

lemma with_product_record: "record_render (with_product v p) = record_render v"
  by (intro ext) (unfold record_render_def with_product_steps, rule refl)

lemma with_product_render: "render (with_product v p) = render v"
  by (intro ext) (unfold render_def with_product_steps with_product_record, rule refl)

lemma with_product_up_to_date: "reconcileUpToDate (with_product v p) = reconcileUpToDate v"
  by (intro ext) (unfold reconcileUpToDate_def with_product_steps, rule refl)

lemma with_product_intent: "reconcile_intent (with_product v p) = reconcile_intent v"
  by (intro ext) (unfold reconcile_intent_def with_product_steps with_product_render with_product_up_to_date, rule refl)

text \<open>Why an Order waits, as it repeats it.\<close>

definition waiting_message :: "condition_library \<Rightarrow> Product \<Rightarrow> string \<Rightarrow> string" where
  "waiting_message lib p msg =
     (case find_condition lib (ProductStatus_Conditions (Product_Status p)) ConditionTypeReady of
        Some ready \<Rightarrow> if c_Message ready \<noteq> [] then msg @ '': '' @ c_Message ready else msg
      | None \<Rightarrow> msg)"

lemma readyProduct_waiting:
  "readyProduct (with_product v p) order =
     (let name = ProductRef_Name (OrderSpec_ProductRef (Order_Spec order)) in
      if om_DeletionTimestamp (Product_ObjectMeta p) \<noteq> None
      then (Inr None, not_ready v ReasonProductDeleting (''Product '' @ go_quote name @ '' is being deleted'') order)
      else if \<not> ProductReady (find_condition (ow_conditions v)) p
      then (Inr None, not_ready v ReasonProductNotReady (waiting_message (ow_conditions v) p (''Product '' @ go_quote name @ '' is not ready'')) order)
      else (Inr (Some p), order))"
  by (simp add: readyProduct_def with_product_steps waiting_message_def Let_def)

lemma waiting_readiness:
  "waiting_message lib p msg = (case readinessOf lib p of Some r \<Rightarrow> if pr_message r \<noteq> [] then msg @ '': '' @ pr_message r else msg | None \<Rightarrow> msg)"
  by (simp add: waiting_message_def readinessOf_def split: option.split)

text \<open>What the predicate on Products filters out changes nothing in the reconcile of an Order.\<close>

lemma reconcileOrder_unchanged:
  assumes "\<not> productChanged (ow_conditions v) old new" "product_versions old new"
  shows "reconcileOrder (with_product v old) st = reconcileOrder (with_product v new) st"
proof -
  have deleted: "om_DeletionTimestamp (Product_ObjectMeta old) = om_DeletionTimestamp (Product_ObjectMeta new)"
    and ready: "ProductReady (find_condition (ow_conditions v)) old = ProductReady (find_condition (ow_conditions v)) new"
    and same: "readinessOf (ow_conditions v) old = readinessOf (ow_conditions v) new"
    using assms unchanged_ready by (auto simp: productChanged_def)
  have msg: "waiting_message (ow_conditions v) old = waiting_message (ow_conditions v) new"
    by (simp add: fun_eq_iff waiting_readiness same)
  have effective: "ForProduct ProductRevision old = ForProduct ProductRevision new"
    using unchanged_effective [OF assms] by (simp add: fun_eq_iff)
  show ?thesis
  proof (cases "om_DeletionTimestamp (Product_ObjectMeta new) = None \<and> ProductReady (find_condition (ow_conditions v)) new")
    case True
    then have ok: "readyProduct (with_product v p) order = (Inr (Some p), order)" if "p \<in> {old, new}" for p order
      using that deleted ready by (auto simp: readyProduct_waiting Let_def)
    show ?thesis
      unfolding reconcileOrder_def with_product_steps with_product_intent ok [of old, simplified] ok [of new, simplified] Let_def prod.case sum.case
        option.case effective ..
  next
    case False
    then have "readyProduct (with_product v old) order = readyProduct (with_product v new) order" for order
      using deleted ready msg by (auto simp: readyProduct_waiting Let_def)
    moreover have "\<exists>o1. readyProduct (with_product v new) order = (Inr None, o1)" for order
      using False by (auto simp: readyProduct_waiting Let_def)
    ultimately show ?thesis
      unfolding reconcileOrder_def with_product_steps with_product_intent Let_def
      by (metis (no_types, lifting) effective)
  qed
qed

end
