(* ===== verification/Order_Request.thy ===== *)
theory Order_Request
  imports Order_Serving
begin

text \<open>
  What holds of a whole request of the Order controller: the Order it works on, whether as read or as written
  with the finalizer, what one reconcile of it changes, and the two reconciles that render an intent.
\<close>

section \<open>The Order a request works on\<close>

text \<open>The Order as the API returns it, or as it returned it from adding the finalizer; it is not being deleted.\<close>

definition picked_up ::
    "('client, 'os, 'ps, 'ss, 'pipe) order_services \<Rightarrow> string \<Rightarrow> string \<Rightarrow> 'os \<Rightarrow> Order \<Rightarrow> 'os \<Rightarrow> bool" where
  "picked_up v namespace name os order os' \<longleftrightarrow>
     (\<exists>o1. or_get (ow_orders v) namespace name os = Inr o1 \<and> om_DeletionTimestamp (Order_ObjectMeta o1) = None
        \<and> (if Finalizer \<in> set (order_finalizers o1) then order = o1 \<and> os' = os
           else or_update (ow_orders v) (set_order_finalizers (order_finalizers o1 @ [Finalizer]) o1) os = (Inr order, os')))"

text \<open>The Order of a request as its status is written: the generation it observed is all that differs.\<close>

definition observed :: "Order \<Rightarrow> Order" where
  "observed o1 = on_order_status (\<lambda>s. s\<lparr>OrderStatus_ObservedGeneration := om_Generation (Order_ObjectMeta o1)\<rparr>) o1"

lemma observed_simps [simp]:
  "Order_ObjectMeta (observed o1) = Order_ObjectMeta o1" "Order_Spec (observed o1) = Order_Spec o1"
  "Order_GetConditions (observed o1) = Order_GetConditions o1"
  "OrderStatus_LatestConfigHash (Order_Status (observed o1)) = OrderStatus_LatestConfigHash (Order_Status o1)"
  "OrderStatus_LatestPreparationName (Order_Status (observed o1)) = OrderStatus_LatestPreparationName (Order_Status o1)"
  "OrderStatus_Render (Order_Status (observed o1)) = OrderStatus_Render (Order_Status o1)"
  by (simp_all add: observed_def on_order_status_def Order_GetConditions_def)

lemma observed_ready [simp]: "order_ready v (observed o1) = order_ready v o1"
  by (simp add: order_ready_def)

lemma observed_records [simp]:
  "up_to_date (observed o1) hash = up_to_date o1 hash"
  "names_prepared v hash order ps (observed o1) ps' = names_prepared v hash order ps o1 ps'"
  by (simp_all add: up_to_date_def names_prepared_def)

lemma order_patchStatus_parts:
  assumes "order_patchStatus v before result st = (res, st')"
  shows "oc_order st' = observed (oc_order st) \<and> oc_preparations st' = oc_preparations st \<and> oc_servings st' = oc_servings st
    \<and> oc_pipe st' = oc_pipe st \<and> oc_kept st' = oc_kept st \<and> (res = Inr 0 \<longrightarrow> result = Inr 0)"
  using assms
  by (auto simp: order_patchStatus_def observed_def on_order_def patch_outcome_def join_reconcile_def Let_def
      split: if_splits prod.splits write_result.splits sum.splits reconcile_error.splits)

text \<open>
  A request ends before the reconcile, with the Preparations, the Servings and what was rendered as they were,
  or reconciles the Order it picked up and writes its status.
\<close>

lemma order_request_cases:
  assumes "order_Reconcile v namespace name st = (res, st')"
  obtains (early) "oc_preparations st' = oc_preparations st" "oc_servings st' = oc_servings st" "oc_pipe st' = oc_pipe st"
      "\<And>order os. picked_up v namespace name (oc_orders st) order os \<Longrightarrow> False"
    | (worked) order os result s where "picked_up v namespace name (oc_orders st) order os"
        "reconcile_with_serving v (st\<lparr>oc_orders := os, oc_order := order\<rparr>) = (result, s)"
        "oc_order st' = observed (oc_order s)" "oc_preparations st' = oc_preparations s" "oc_servings st' = oc_servings s"
        "oc_pipe st' = oc_pipe s" "oc_kept st' = oc_kept s" "res = Inr 0 \<longrightarrow> result = Inr 0"
proof (cases "or_get (ow_orders v) namespace name (oc_orders st)")
  case (Inl err)
  then show thesis using assms by (intro early) (auto simp: order_Reconcile_def picked_up_def split: read_failure.splits)
next
  case (Inr o1)
  obtain result s where body: "order_reconcile_body v (st\<lparr>oc_order := o1\<rparr>) = (result, s)" by fastforce
  then have patch: "order_patchStatus v (Order_Status o1) result s = (res, st')" using assms Inr by (simp add: order_Reconcile_def)
  note after = order_patchStatus_parts [OF patch]
  show thesis
  proof (cases "\<exists>order os. picked_up v namespace name (oc_orders st) order os")
    case True
    then obtain order os where picked: "picked_up v namespace name (oc_orders st) order os" by blast
    have "reconcile_with_serving v (st\<lparr>oc_orders := os, oc_order := order\<rparr>) = (result, s)"
    proof (cases "Finalizer \<in> set (order_finalizers o1)")
      case True
      then show ?thesis using body picked Inr by (auto simp: picked_up_def order_reconcile_body_def)
    next
      case False
      then show ?thesis using body picked Inr
        by (auto simp: picked_up_def order_reconcile_body_def update_order_def on_order_def Let_def)
    qed
    then show thesis using worked [OF picked] after by blast
  next
    case False
    then have "oc_preparations s = oc_preparations st \<and> oc_servings s = oc_servings st \<and> oc_pipe s = oc_pipe st"
      using body Inr
      by (auto simp: picked_up_def order_reconcile_body_def order_reconcileDelete_def update_order_def on_order_def Let_def
          split: if_splits option.splits prod.splits sum.splits)
    then show thesis using False after by (intro early) auto
  qed
qed

section \<open>What one reconcile changes\<close>

text \<open>A reconcile of the Order itself leaves the Servings, and the Order the metadata its controller and name are in.\<close>

definition same_owner :: "Order \<Rightarrow> Order \<Rightarrow> bool" where
  "same_owner a b \<longleftrightarrow> Order_Spec a = Order_Spec b \<and> (\<exists>anns ver. Order_ObjectMeta a =
     (Order_ObjectMeta b)\<lparr>om_Annotations := anns, om_ResourceVersion := ver\<rparr>)"

lemma same_owner_of:
  "same_identity a b \<Longrightarrow> same_owner a b" "same_order a b \<Longrightarrow> same_owner a b"
proof -
  show "same_identity a b \<Longrightarrow> same_owner a b" by (simp add: same_identity_def same_owner_def)
  assume "same_order a b"
  moreover have "Order_ObjectMeta b = (Order_ObjectMeta b)\<lparr>om_Annotations := om_Annotations (Order_ObjectMeta b),
      om_ResourceVersion := om_ResourceVersion (Order_ObjectMeta b)\<rparr>" by simp
  ultimately show "same_owner a b" unfolding same_owner_def same_order_def by metis
qed

lemma reconcileOrder_changes:
  assumes "reconcileOrder v st = (res, st')" "condition_laws (ow_conditions v)"
  shows "oc_servings st' = oc_servings st \<and> same_owner (oc_order st') (oc_order st)"
  using assms
proof (cases rule: reconcileOrder_cases)
  case stopped
  then show ?thesis by (simp add: stopped_def rest_same_def same_owner_of)
next
  case (admitted product effective conns k)
  have dest: "ox_destination conns = order_destination (oc_order (st\<lparr>oc_kept := k\<rparr>))"
    using admitted_destination [OF admitted(1)] by simp
  from admitted(2) assms(2) dest show ?thesis
  proof (cases rule: reconcile_intent_cases)
    case stopped
    then show ?thesis by (simp add: stopped_def rest_same_def same_owner_of)
  next
    case up_to_date
    then show ?thesis using reconcileUpToDate_steps [OF up_to_date(2) assms(2)] by (simp add: rest_same_def same_owner_of)
  next
    case (render kept)
    let ?st = "(st\<lparr>oc_kept := k\<rparr>)\<lparr>oc_kept := kept\<rparr>"
    have out: "Order_Controller.render v effective conns (Intent_Canonical (NewIntent (oc_order ?st) effective (order_destination (oc_order ?st))))
        (intent_hash (oc_order ?st) effective) ?st = (res, st')" using render(2) by simp
    from out assms(2) show ?thesis
    proof (cases rule: render_cases)
      case failed
      then show ?thesis by (simp add: same_owner_of)
    next
      case (rendered request result kept' pipe)
      obtain r ps where created: "createPreparation v (oc_order st) (rendered_artifact (oc_order st) effective conns (intent_hash (oc_order st) effective)
          (CommitMessage (map_of (order_annotations (oc_order st))) (OrderStatus_LatestArtifactDigest (Order_Status (oc_order st)) = []))
          (Renderer_of (ow_build v) (EffectiveSpec_Render effective) (ow_BuilderID v)) result) (oc_preparations st) = (r, ps)" by fastforce
      show ?thesis
      proof (cases r)
        case (Inl err)
        then show ?thesis using record_render_failed [OF rendered(4), of err ps] created by (simp add: same_owner_of)
      next
        case (Inr p)
        then show ?thesis using record_render_created [OF rendered(4) assms(2), of p ps] created by (simp add: same_owner_of)
      qed
    qed
  qed
qed

section \<open>Rendering in two reconciles\<close>

text \<open>
  Nothing stands in the way of an intent: the Order is a valid stage of its pipeline, its Product is ready, and
  its registries connect, whatever clients are kept, and would not expose a private source.
\<close>

definition unobstructed ::
    "('client, 'os, 'ps, 'ss, 'pipe) order_services \<Rightarrow> Order \<Rightarrow> EffectiveSpec \<Rightarrow> bool" where
  "unobstructed v order effective \<longleftrightarrow> pipelineProblem v order = Inr []
     \<and> (\<exists>product. readyProduct v order = (Inr (Some product), order) \<and> ForProduct ProductRevision product order = Inr effective)
     \<and> (\<forall>kept. \<exists>conns k k'. order_connect v order effective kept = (Inr conns, k)
          \<and> exposesPrivateSource v effective conns k = (Inr False, k'))"

text \<open>Rendering works: what the artifact pipeline and the server of Preparations are asked for succeeds.\<close>

definition rendering_works ::
    "('client, 'os, 'ps, 'ss, 'pipe) order_services \<Rightarrow> Order \<Rightarrow> EffectiveSpec \<Rightarrow> bool" where
  "rendering_works v order effective \<longleftrightarrow>
     (\<forall>conns ps. \<exists>request. request_of v order effective conns ps = Inr request)
     \<and> (\<forall>request kept pipe. \<exists>result k p. ow_Render v request kept pipe = (Inr result, k, p))
     \<and> (\<forall>rendered ps. \<exists>p ps'. createPreparation v order rendered ps = (Inr p, ps'))"

text \<open>The same intent, at whatever version of the object: the status says the same of what was rendered and is being.\<close>

definition same_intention :: "Order \<Rightarrow> Order \<Rightarrow> bool" where
  "same_intention a b \<longleftrightarrow> order_namespace a = order_namespace b \<and> name_of_order a = name_of_order b \<and> Order_Spec a = Order_Spec b
     \<and> OrderStatus_LatestConfigHash (Order_Status a) = OrderStatus_LatestConfigHash (Order_Status b)
     \<and> OrderStatus_Render (Order_Status a) = OrderStatus_Render (Order_Status b)"

lemma reconcileOrder_unobstructed:
  assumes "unobstructed v (oc_order st) effective"
  obtains conns k k' where "reconcileOrder v st = reconcile_intent v effective conns (st\<lparr>oc_kept := k\<rparr>)"
    "exposesPrivateSource v effective conns k = (Inr False, k')" "ox_destination conns = order_destination (oc_order st)"
proof -
  obtain product where product: "readyProduct v (oc_order st) = (Inr (Some product), oc_order st)"
      "ForProduct ProductRevision product (oc_order st) = Inr effective"
    using assms by (auto simp: unobstructed_def)
  obtain conns k k' where conns: "order_connect v (oc_order st) effective (oc_kept st) = (Inr conns, k)"
      "exposesPrivateSource v effective conns k = (Inr False, k')"
    using assms unfolding unobstructed_def by blast
  have "reconcileOrder v st = reconcile_intent v effective conns (st\<lparr>oc_kept := k\<rparr>)"
    using assms product conns by (simp add: reconcileOrder_def unobstructed_def Let_def)
  then show thesis using that conns(2) order_connect_parts [OF conns(1)] by simp
qed

lemma hash_nonempty [simp]: "intent_hash order effective \<noteq> []"
  by (simp add: intent_hash_def CalculateSpecHash_def)

lemma first_reconcile:
  assumes "unobstructed v (oc_order st) effective" "\<not> up_to_date (oc_order st) (intent_hash (oc_order st) effective)"
    and "OrderStatus_Render (Order_Status (oc_order st)) \<noteq> Some \<lparr>OrderRender_ConfigHash = intent_hash (oc_order st) effective\<rparr>"
  shows "\<exists>k. reconcileOrder v st = (Inr 0, st\<lparr>oc_kept := k, oc_order := start_render v (intent_hash (oc_order st) effective) (oc_order st)\<rparr>)"
proof -
  obtain conns k k' where step: "reconcileOrder v st = reconcile_intent v effective conns (st\<lparr>oc_kept := k\<rparr>)"
    "exposesPrivateSource v effective conns k = (Inr False, k')" "ox_destination conns = order_destination (oc_order st)"
    using reconcileOrder_unobstructed [OF assms(1)] by metis
  have hash: "CalculateSpecHash (Intent_Canonical (NewIntent (oc_order st) effective (ox_destination conns))) = intent_hash (oc_order st) effective"
    by (simp add: intent_hash_def step(3))
  show ?thesis using assms(2,3) step(2) hash unfolding step(1)
    by (auto simp: reconcile_intent_def up_to_date_def on_order_def Let_def)
qed

lemma second_reconcile:
  assumes "unobstructed v (oc_order st) effective" "\<not> up_to_date (oc_order st) (intent_hash (oc_order st) effective)"
    and "OrderStatus_Render (Order_Status (oc_order st)) = Some \<lparr>OrderRender_ConfigHash = intent_hash (oc_order st) effective\<rparr>"
    and "isLatest v (oc_order st) (oc_orders st) = Inr True" "rendering_works v (oc_order st) effective"
    and "condition_laws (ow_conditions v)" "reconcileOrder v st = (res, st')"
  shows "res = Inr 0 \<and> order_ready v (oc_order st') \<and> up_to_date (oc_order st') (intent_hash (oc_order st) effective)
    \<and> OrderStatus_Render (Order_Status (oc_order st')) = None
    \<and> (\<exists>request k result k'. ow_Render v request k (oc_pipe st) = (Inr result, k', oc_pipe st'))"
proof -
  obtain conns k k' where step: "reconcileOrder v st = reconcile_intent v effective conns (st\<lparr>oc_kept := k\<rparr>)"
    "exposesPrivateSource v effective conns k = (Inr False, k')" "ox_destination conns = order_destination (oc_order st)"
    using reconcileOrder_unobstructed [OF assms(1)] by metis
  let ?st = "st\<lparr>oc_kept := k'\<rparr>" and ?hash = "intent_hash (oc_order st) effective"
  let ?msg = "CommitMessage (map_of (order_annotations (oc_order st))) (OrderStatus_LatestArtifactDigest (Order_Status (oc_order st)) = [])"
  let ?id = "Renderer_of (ow_build v) (EffectiveSpec_Render effective) (ow_BuilderID v)"
  have hash: "CalculateSpecHash (Intent_Canonical (NewIntent (oc_order st) effective (ox_destination conns))) = ?hash"
    by (simp add: intent_hash_def step(3))
  have render: "Order_Controller.render v effective conns (Intent_Canonical (NewIntent (oc_order ?st) effective (order_destination (oc_order ?st))))
      (intent_hash (oc_order ?st) effective) ?st = (res, st')"
    using assms(2,3,7) step hash by (simp add: reconcile_intent_def up_to_date_def Let_def)
  obtain request where request: "request_of v (oc_order st) effective conns (oc_preparations st) = Inr request"
    using assms(5) unfolding rendering_works_def by blast
  obtain result kr pipe where result: "ow_Render v request k' (oc_pipe st) = (Inr result, kr, pipe)"
    using assms(5) unfolding rendering_works_def by blast
  obtain p ps where created: "createPreparation v (oc_order st) (rendered_artifact (oc_order st) effective conns ?hash ?msg ?id result) (oc_preparations st)
      = (Inr p, ps)"
    using assms(5) unfolding rendering_works_def by blast
  have "record_render v effective conns ?hash ?msg ?id result (?st\<lparr>oc_kept := kr, oc_pipe := pipe\<rparr>) = (res, st')"
    using render request result assms(4)
    by (auto simp: Order_Controller.render_def request_of_def Let_def split: sum.splits)
  from record_render_created [OF this assms(6), of p ps] show ?thesis using created result by (auto simp: records_def up_to_date_def)
qed

end
