(* ===== verification/Order_Properties.thy ===== *)
theory Order_Properties
  imports Order_Request Order_Watches Serving_Sample
begin

text \<open>
  The properties of the Order controller, with a world that computes to evaluate it in: one Order the server
  returns as it was last written, a Product that is ready, Preparations in a list, Servings in a store, and a
  pipeline that counts what it rendered.
\<close>

section \<open>A sample world\<close>

definition order_product :: Product where
  "order_product = (sample_product None OverridePolicyAll)\<lparr>Product_Status := (Product_Status (sample_product None OverridePolicyAll))
     \<lparr>ProductStatus_Source := Some \<lparr>ProductSourceStatus_URL = ''oci://r/src'', ProductSourceStatus_Version = ''1.0'',
        ProductSourceStatus_Digest = ''sha256:cd'', ProductSourceStatus_Verified = None, ProductSourceStatus_Signatures = [],
        ProductSourceStatus_SignaturesCheckedTime = None\<rparr>,
      ProductStatus_Conditions := [\<lparr>c_Type = ConditionTypeReady, c_Status = ConditionTrue, c_ObservedGeneration = 0, c_LastTransitionTime = 0,
        c_Reason = [], c_Message = []\<rparr>]\<rparr>\<rparr>"

definition kept_order :: "Order order_server" where
  "kept_order = \<lparr>or_get = \<lambda>ns n stored. Inr stored, or_live = \<lambda>ns n stored. Inr stored, or_update = \<lambda>o1 stored. (Inr o1, o1),
     or_patch_annotations = \<lambda>before after stored. (Inr after, after), or_patch_status = \<lambda>o1 before stored. (Written, o1)\<rparr>"

definition listed_preparations :: "(Preparation, Preparation list) object_api" where
  "listed_preparations =
     \<lparr>ob_get = \<lambda>n ps. (case find (\<lambda>p. om_Name (Preparation_ObjectMeta p) = n) ps of Some p \<Rightarrow> Inr p | None \<Rightarrow> Inl (ApiNotFound [])),
      ob_list = \<lambda>labels ps. Inr ps, ob_create = \<lambda>p ps. (Inr p, p # ps), ob_update = \<lambda>p ps. (Inr p, ps), ob_delete = \<lambda>p ps. (None, ps)\<rparr>"

definition set_serving_version :: "string \<Rightarrow> Serving \<Rightarrow> Serving" where
  "set_serving_version v s = s\<lparr>Serving_ObjectMeta := (Serving_ObjectMeta s)\<lparr>om_ResourceVersion := v\<rparr>\<rparr>"

lemma set_serving_version_written: "serving_written s (set_serving_version v s)"
proof -
  have "Serving_ObjectMeta (set_serving_version v s) = (Serving_ObjectMeta s)\<lparr>om_UID := om_UID (Serving_ObjectMeta s),
      om_Generation := om_Generation (Serving_ObjectMeta s), om_CreationTimestamp := om_CreationTimestamp (Serving_ObjectMeta s),
      om_ResourceVersion := v\<rparr>"
    by (simp add: set_serving_version_def)
  moreover have "Serving_Spec (set_serving_version v s) = Serving_Spec s" by (simp add: set_serving_version_def)
  ultimately show ?thesis unfolding serving_written_def by blast
qed

interpretation serving_store: versioned name_of_serving serving_version set_serving_version serving_written serving_labels
  by unfold_locales (simp_all add: name_of_serving_def serving_version_def set_serving_version_def set_serving_version_written [unfolded set_serving_version_def])

abbreviation "servings_api \<equiv> store_api name_of_serving serving_version set_serving_version serving_labels"

abbreviation "stored_servings \<equiv> store_get name_of_serving serving_version"

definition rendered_sample :: RenderResult where
  "rendered_sample = \<lparr>rz_SourceRef = \<lparr>ref_Registry = ''r'', ref_Repository = ''src'', ref_Tag = ''1.0'', ref_Digest = ''sha256:cd''\<rparr>,
     rz_DestRef = \<lparr>ref_Registry = ''r'', ref_Repository = ''p'', ref_Tag = [], ref_Digest = ''sha256:ab''\<rparr>,
     rz_SCM = \<lparr>GitSource_Repo = [], GitSource_Tag = [], GitSource_CommitHash = []\<rparr>, rz_Images = []\<rparr>"

definition sample_order_services :: "(unit, Order, Preparation list, Serving object_store, nat) order_services" where
  "sample_order_services =
     \<lparr>ow_conditions = list_library, ow_owners = plain_owners,
      ow_references = \<lparr>rf_parse = \<lambda>_. Inr (rz_DestRef rendered_sample), rf_encoded = \<lambda>_. Some ''abababababab'', rf_string = \<lambda>_. ''r/p@sha256:ab''\<rparr>,
      ow_registry = \<lparr>rl_docker_config = \<lambda>_. Inl [], rl_url = \<lambda>_. None, rl_pem = \<lambda>_. False, rl_key_pair = \<lambda>_ _. None\<rparr>,
      ow_clients = \<lparr>ct_bundledHost = [], ct_newClient = \<lambda>_. ()\<rparr>,
      ow_reader = \<lparr>rd_Registry = \<lambda>_ _. Inl (NotFound []), rd_Secret = \<lambda>_ _. Inl (NotFound [])\<rparr>,
      ow_resolves = \<lambda>_ _. True, ow_orders = kept_order, ow_list_Orders = \<lambda>_. Inr [], ow_get_Product = \<lambda>_ _. Inr order_product,
      ow_get_Kitchen = \<lambda>_ _. Inl (NotFound []), ow_preparations = listed_preparations, ow_live_Preparation = ob_get listed_preparations,
      ow_servings = servings_api, ow_live_Serving = ob_get servings_api, ow_retries = 5,
      ow_Render = \<lambda>request kept pipe. (Inr rendered_sample, kept, Suc pipe), ow_InstallNamespace = ''kokumi'', ow_BuilderID = [],
      ow_build = \<lparr>bi_Version = ''1'', bi_HelmVersion = ''v4''\<rparr>\<rparr>"

interpretation sample_servings: servings_server sample_order_services stored_servings
proof -
  have apis: "ow_servings sample_order_services = servings_api" "ow_owners sample_order_services = plain_owners"
    "ow_live_Serving sample_order_services = ob_get servings_api"
    by (simp_all add: sample_order_services_def)
  show "servings_server sample_order_services stored_servings"
    unfolding servings_server_def servings_server_axioms_def apis
    using serving_store.store.object_server_axioms plain_owners.owner_references_axioms serving_store.store.get_read by blast
qed

definition sample_order_state :: "(unit, Order, Preparation list, Serving object_store, nat) order_state" where
  "sample_order_state = \<lparr>oc_order = sample_stage_order ''o'' ''prod'', oc_kept = Map.empty, oc_orders = sample_stage_order ''o'' ''prod'',
     oc_preparations = [], oc_servings = \<lparr>os_objects = [(''o'', set_serving_version ''v0'' (serving_with ''o'' []))], os_version = 1\<rparr>,
     oc_pipe = 0, oc_events = []\<rparr>"

definition sample_effective :: EffectiveSpec where
  "sample_effective = (case ForProduct ProductRevision order_product (sample_stage_order ''o'' ''prod'') of Inr e \<Rightarrow> e)"

lemma sample_order_services [simp]:
  "ow_conditions sample_order_services = list_library" "ow_owners sample_order_services = plain_owners"
  "ow_preparations sample_order_services = listed_preparations" "ow_servings sample_order_services = servings_api"
  "ow_orders sample_order_services = kept_order"
  by (simp_all add: sample_order_services_def)

lemma sample_effective:
  "ForProduct ProductRevision order_product (sample_stage_order ''o'' ''prod'') = Inr sample_effective"
  "EffectiveSpec_RegistryRefs sample_effective = []" "OCISource_URL (EffectiveSpec_Source sample_effective) = ''oci://r/src''"
  "EffectiveSpec_Render sample_effective = ProductSpec_Render (Product_Spec (sample_product None OverridePolicyAll))"
proof -
  have "validateEdits order_product (sample_stage_order ''o'' ''prod'') = None"
    by (simp add: validateEdits_def sample_stage_order_def order_product_def sample_product_def validatePatches_def)
  then show "ForProduct ProductRevision order_product (sample_stage_order ''o'' ''prod'') = Inr sample_effective"
    "EffectiveSpec_RegistryRefs sample_effective = []" "OCISource_URL (EffectiveSpec_Source sample_effective) = ''oci://r/src''"
    "EffectiveSpec_Render sample_effective = ProductSpec_Render (Product_Spec (sample_product None OverridePolicyAll))"
    by (simp_all add: sample_effective_def ForProduct_def order_product_def mergeRender_def mergePatches_def sample_stage_order_def
        ProductRevision_def sample_product_def Let_def)
qed

lemma sample_product_ready: "readyProduct sample_order_services (sample_stage_order ''o'' ''prod'') = (Inr (Some order_product), sample_stage_order ''o'' ''prod'')"
  by (simp add: readyProduct_def sample_order_services_def order_product_def sample_product_def ProductReady_def list_library_def find_first_def Let_def)

lemma sample_destinations:
  "order_destination (sample_stage_order ''o'' ''prod'') = ''oci://kokumi-registry.kokumi.svc.cluster.local:5000/ns/o''"
  "\<exists>l. ParseLocation ''oci://r/src'' = Inr l" "\<exists>l. ParseLocation ''oci://kokumi-registry.kokumi.svc.cluster.local:5000/ns/o'' = Inr l"
proof -
  show "order_destination (sample_stage_order ''o'' ''prod'') = ''oci://kokumi-registry.kokumi.svc.cluster.local:5000/ns/o''"
    by (simp add: order_destination_def sample_stage_order_def sample_meta_def DefaultDestination_def DefaultRegistryHost_def)
  have "(case ParseLocation ''oci://r/src'' of Inr l \<Rightarrow> True | Inl _ \<Rightarrow> False)" by code_simp
  then show "\<exists>l. ParseLocation ''oci://r/src'' = Inr l" by (auto split: sum.splits)
  have "(case ParseLocation ''oci://kokumi-registry.kokumi.svc.cluster.local:5000/ns/o'' of Inr l \<Rightarrow> True | Inl _ \<Rightarrow> False)" by code_simp
  then show "\<exists>l. ParseLocation ''oci://kokumi-registry.kokumi.svc.cluster.local:5000/ns/o'' = Inr l" by (auto split: sum.splits)
qed

lemma anonymous_connect:
  assumes "ParseLocation url = Inr l"
  obtains conn k where "Scope_Connect lib c (ClientScope []) url kept = (Inr conn, k)" "cn_Registry conn = None" "\<not> Authenticated conn"
  using assms that
  by (cases "anonymous c l kept")
    (auto simp: Scope_Connect.simps Match_def anonymous_def Authenticated_def empty_connection_def Let_def split: prod.splits)

lemma sample_unobstructed: "unobstructed sample_order_services (sample_stage_order ''o'' ''prod'') sample_effective"
proof -
  let ?v = sample_order_services and ?o = "sample_stage_order ''o'' ''prod''"
  have pipeline: "pipelineProblem ?v ?o = Inr []"
    by (simp add: pipelineProblem_def Order_UpstreamStages_def sample_stage_order_def)
  have "\<exists>conns k k'. order_connect ?v ?o sample_effective kept = (Inr conns, k) \<and> exposesPrivateSource ?v sample_effective conns k = (Inr False, k')"
    for kept
  proof -
    have scopes: "Resolver_Scope (ow_reader ?v) (order_namespace ?o) (EffectiveSpec_RegistryRefs sample_effective) = (Inr (ClientScope []) :: _ + unit Scope)"
      "Resolver_Scope (ow_reader ?v) (order_namespace ?o) (OrderSpec_RegistryRefs (Order_Spec ?o)) = (Inr (ClientScope []) :: _ + unit Scope)"
      by (simp_all add: Resolver_Scope_def sample_effective(2) sample_stage_order_def)
    obtain source k where source: "Scope_Connect (ow_registry ?v) (ow_clients ?v) (ClientScope []) ''oci://r/src'' kept = (Inr source, k)"
      "cn_Registry source = None"
      using anonymous_connect sample_destinations(2) by metis
    obtain dest k' where dest: "Scope_Connect (ow_registry ?v) (ow_clients ?v) (ClientScope []) (order_destination ?o) k = (Inr dest, k')"
      "\<not> Authenticated dest"
      using anonymous_connect sample_destinations(1,3) by metis
    have "order_connect ?v ?o sample_effective kept = (Inr \<lparr>ox_product = ClientScope [], ox_order = ClientScope [], ox_source = source,
        ox_destination = order_destination ?o, ox_destConn = dest\<rparr>, k')"
      using scopes source(1) dest(1) by (simp add: order_connect_def sample_effective(3) Let_def)
    then show ?thesis using source(2) dest(2)
      by (auto simp: exposesPrivateSource_def sample_order_services_def Private_def)
  qed
  then show ?thesis using pipeline sample_product_ready sample_effective(1) unfolding unobstructed_def by blast
qed

lemma sample_rendering_works:
  assumes "OrderStatus_LatestPreparationName (Order_Status o1) = []"
  shows "rendering_works sample_order_services o1 sample_effective"
proof -
  have "\<exists>request. request_of sample_order_services o1 sample_effective conns ps = Inr request" for conns ps
    by (simp add: request_of_def ToArtifactSpec_def toRenderSpec_def sample_effective(4) sample_product_def jsonToMap_def imageOptions_def
        sample_order_services_def assms Let_def)
  moreover have "\<exists>p ps'. createPreparation sample_order_services o1 rendered ps = (Inr p, ps')" for rendered ps
    by (auto simp: createPreparation_def listed_preparations_def own_def plain_owners_def marked_def new_preparation_def new_meta_def Let_def
        split: option.splits)
  ultimately show ?thesis by (simp add: rendering_works_def sample_order_services_def)
qed

text \<open>The Order while it renders, and a request for it.\<close>

definition sample_hash :: string where
  "sample_hash = intent_hash (sample_stage_order ''o'' ''prod'') sample_effective"

definition sample_rendering :: Order where
  "sample_rendering = start_render sample_order_services sample_hash (sample_stage_order ''o'' ''prod'')"

definition sample_started :: "(unit, Order, Preparation list, Serving object_store, nat) order_state" where
  "sample_started = sample_order_state\<lparr>oc_orders := sample_rendering, oc_order := sample_rendering\<rparr>"

lemma sample_rendering:
  "Order_ObjectMeta sample_rendering = Order_ObjectMeta (sample_stage_order ''o'' ''prod'')"
  "Order_Spec sample_rendering = Order_Spec (sample_stage_order ''o'' ''prod'')"
  "OrderStatus_LatestConfigHash (Order_Status sample_rendering) = []"
  "OrderStatus_LatestPreparationName (Order_Status sample_rendering) = []"
  "OrderStatus_Render (Order_Status sample_rendering) = Some \<lparr>OrderRender_ConfigHash = sample_hash\<rparr>"
  by (simp_all add: sample_rendering_def start_render_def mark_defs Order_SetConditions_def on_order_status_def sample_stage_order_def)

lemma sample_same_hash: "intent_hash sample_rendering sample_effective = sample_hash"
  unfolding sample_hash_def using order_with_spec(3) sample_rendering(1,2) by metis

lemma unobstructed_same:
  assumes "unobstructed v a effective" "order_namespace a = order_namespace b" "name_of_order a = name_of_order b" "Order_Spec a = Order_Spec b"
  shows "unobstructed v b effective"
proof -
  note same = order_with_spec [OF assms(2-4)]
  obtain product where product: "readyProduct v a = (Inr (Some product), a)" "ForProduct ProductRevision product a = Inr effective"
    using assms(1) by (auto simp: unobstructed_def)
  have "readyProduct v b = (Inr (Some product), b)"
    using product(1) assms(2,4) by (auto simp: readyProduct_def Let_def split: sum.splits read_failure.splits if_splits)
  moreover have "ForProduct ProductRevision product b = Inr effective" using product(2) same(5) by metis
  moreover have "pipelineProblem v b = Inr []" using assms(1) same(4) [of v] by (simp add: unobstructed_def)
  moreover have "order_connect v b effective = order_connect v a effective" by (rule ext) (rule same(6) [of v, symmetric])
  ultimately show ?thesis using assms(1) unfolding unobstructed_def by metis
qed

lemma sample_rendering_unobstructed: "unobstructed sample_order_services sample_rendering sample_effective"
  using unobstructed_same [OF sample_unobstructed] sample_rendering(1,2) by simp

lemma sample_not_up_to_date:
  "\<not> up_to_date sample_rendering sample_hash" "\<not> up_to_date (sample_stage_order ''o'' ''prod'') sample_hash"
  unfolding up_to_date_def sample_rendering sample_hash_def by (simp_all add: sample_stage_order_def eq_commute [of "[]"])

lemma sample_latest: "isLatest sample_order_services o1 o1 = Inr True"
  by (simp add: isLatest_def kept_order_def)

lemma sample_reconciled:
  assumes "reconcileOrder sample_order_services sample_started = (res, st')"
  shows "res = Inr 0 \<and> order_ready sample_order_services (oc_order st') \<and> oc_pipe st' = 1 \<and> up_to_date (oc_order st') sample_hash
    \<and> OrderStatus_Render (Order_Status (oc_order st')) = None"
proof -
  have parts: "oc_order sample_started = sample_rendering" "oc_orders sample_started = sample_rendering" "oc_pipe sample_started = 0"
    by (simp_all add: sample_started_def sample_order_state_def)
  have "condition_laws (ow_conditions sample_order_services)" by (simp add: condition_laws_list_library)
  from second_reconcile [of sample_order_services sample_started sample_effective res st', unfolded parts sample_same_hash,
      OF sample_rendering_unobstructed sample_not_up_to_date(1) sample_rendering(5) sample_latest sample_rendering_works [OF sample_rendering(4)] this assms]
  show ?thesis by (auto simp: sample_order_services_def)
qed

lemma sample_adopts:
  assumes "same_owner o1 sample_rendering"
  shows "\<exists>ss. ensureServing sample_order_services o1 (oc_servings sample_order_state) = (None, ss)"
proof -
  have name: "name_of_order o1 = ''o''" using assms by (auto simp: same_owner_def sample_rendering(1) sample_stage_order_def sample_meta_def)
  let ?s = "set_serving_version ''v0'' (serving_with ''o'' [])"
  have serving: "name_of_serving ?s = ''o''" "serving_version ?s = ''v0''" "om_OwnerReferences (Serving_ObjectMeta ?s) = []"
    "ServingSpec_OrderName (Serving_Spec ?s) = ''o''"
    by (simp_all add: name_of_serving_def serving_version_def set_serving_version_def serving_with_def setHistory_def on_status_def sample_meta_def)
  have stored: "stored_servings (oc_servings sample_order_state) ''o'' = Some ?s"
    using serving by (simp add: store_get_def sample_order_state_def)
  have free: "marked (Serving_ObjectMeta ?s) = None" by (simp add: marked_def serving(3))
  have "ob_get servings_api ''o'' (oc_servings sample_order_state) = Inr ?s" using stored by (simp add: store_api_def)
  moreover obtain ss x where "ob_update servings_api (?s\<lparr>Serving_ObjectMeta := (Serving_ObjectMeta ?s)\<lparr>om_OwnerReferences :=
      om_OwnerReferences (Serving_ObjectMeta ?s) @ [own_reference (Order_ObjectMeta o1)]\<rparr>\<rparr>) (oc_servings sample_order_state) = (Inr x, ss)"
    using stored serving by (simp add: store_api_def name_of_serving_def serving_version_def)
  moreover have "ow_live_Serving sample_order_services = ob_get servings_api" by (simp add: sample_order_services_def)
  ultimately show ?thesis using free serving(4)
    by (simp add: ensureServing_def name retry_adopt.simps adopt_once_def adoptServing_def own_def plain_owners_def)
qed

lemma sample_request:
  obtains st' where "order_Reconcile sample_order_services ''ns'' ''o'' sample_started = (Inr 0, st')"
    "order_ready sample_order_services (oc_order st')" "oc_pipe st' = 1"
proof -
  obtain r t where step: "reconcileOrder sample_order_services sample_started = (r, t)" by fastforce
  note finished = sample_reconciled [OF step]
  have laws: "condition_laws (ow_conditions sample_order_services)" by (simp add: condition_laws_list_library)
  have parts: "oc_order sample_started = sample_rendering" "oc_servings sample_started = oc_servings sample_order_state"
    "sample_started\<lparr>oc_order := sample_rendering\<rparr> = sample_started" "oc_orders sample_started = sample_rendering"
    by (simp_all add: sample_started_def)
  obtain ss where ss: "ensureServing sample_order_services (oc_order t) (oc_servings t) = (None, ss)"
    using reconcileOrder_changes [OF step laws] sample_adopts parts(1,2) by metis
  have meta: "om_DeletionTimestamp (Order_ObjectMeta sample_rendering) = None" "Finalizer \<in> set (order_finalizers sample_rendering)"
    by (simp_all add: sample_rendering(1) order_finalizers_def sample_stage_order_def sample_meta_def)
  have body: "order_reconcile_body sample_order_services sample_started = (Inr 0, t\<lparr>oc_servings := ss\<rparr>)"
    using step finished ss meta by (simp add: order_reconcile_body_def reconcile_with_serving_def parts)
  obtain outcome st' where out: "order_patchStatus sample_order_services (Order_Status sample_rendering) (Inr 0) (t\<lparr>oc_servings := ss\<rparr>) = (outcome, st')"
    by fastforce
  moreover have "outcome = Inr 0" using out by (auto simp: order_patchStatus_def patch_outcome_def kept_order_def Let_def split: if_splits)
  ultimately have patched: "order_patchStatus sample_order_services (Order_Status sample_rendering) (Inr 0) (t\<lparr>oc_servings := ss\<rparr>) = (Inr 0, st')"
    by simp
  have "order_Reconcile sample_order_services ''ns'' ''o'' sample_started = (Inr 0, st')"
    using body patched by (simp add: order_Reconcile_def kept_order_def parts)
  then show thesis using that order_patchStatus_parts [OF patched] finished by simp
qed

lemma sample_picked_up: "picked_up sample_order_services ''ns'' ''o'' (oc_orders sample_started) sample_rendering sample_rendering"
  by (simp add: picked_up_def kept_order_def sample_started_def sample_rendering(1) order_finalizers_def sample_stage_order_def sample_meta_def)

section \<open>Properties\<close>

text \<open>C8: Whatever a request of the Order controller renders or creates, it does for an Order that is a valid stage of its
  pipeline, not being deleted and at its latest version, whose Product is ready and not being deleted, whose overrides the
  Product allows, whose registries connect, which said before that it renders this intent, has no Preparation of it, and
  would not make a private source public.\<close>

theorem order_renders_only_admitted:
  assumes "order_Reconcile v namespace name st = (res, st')" "condition_laws (ow_conditions v)"
    and "oc_pipe st' \<noteq> oc_pipe st \<or> oc_preparations st' \<noteq> oc_preparations st"
  shows "\<exists>order os product effective conns k kept. picked_up v namespace name (oc_orders st) order os
    \<and> admitted v order (oc_kept st) product effective conns k \<and> may_render v order effective conns k kept \<and> isLatest v order os = Inr True"
  using assms(1)
proof (cases rule: order_request_cases)
  case early
  then show ?thesis using assms(3) by simp
next
  case (worked order os result s)
  obtain r t where step: "reconcileOrder v (st\<lparr>oc_orders := os, oc_order := order\<rparr>) = (r, t)" by fastforce
  have "oc_pipe s = oc_pipe t \<and> oc_preparations s = oc_preparations t"
    using worked(2) step by (auto simp: reconcile_with_serving_def split: prod.splits option.splits)
  then have "oc_pipe t \<noteq> oc_pipe (st\<lparr>oc_orders := os, oc_order := order\<rparr>) \<or> oc_preparations t \<noteq> oc_preparations (st\<lparr>oc_orders := os, oc_order := order\<rparr>)"
    using assms(3) worked by simp
  from reconcileOrder_renders [OF step assms(2) this] worked(1) show ?thesis by simp blast
qed

theorem order_renders_only_admitted_witness:
  "\<exists>order os product effective conns k kept. picked_up sample_order_services ''ns'' ''o'' (oc_orders sample_started) order os
    \<and> admitted sample_order_services order (oc_kept sample_started) product effective conns k
    \<and> may_render sample_order_services order effective conns k kept \<and> isLatest sample_order_services order os = Inr True"
proof -
  obtain st' where run: "order_Reconcile sample_order_services ''ns'' ''o'' sample_started = (Inr 0, st')" "oc_pipe st' = 1"
    using sample_request by metis
  moreover have "oc_pipe sample_started = 0" by (simp add: sample_started_def sample_order_state_def)
  ultimately show ?thesis using order_renders_only_admitted [OF run(1)] by (simp add: condition_laws_list_library)
qed

text \<open>C9: An Order whose request ends without an error and reports Ready records the intent it and its Product have now: the
  hash in its status is that of the intent, and no render is under way. The Preparation it names with it is, unless the
  Order recorded that hash before this request, one that the API server answered this request with, on reading or
  creating the Preparation of that hash; an Order that recorded the hash before keeps the name it recorded, and nothing
  is said of whether that Preparation still exists.\<close>

theorem order_ready_current:
  assumes "order_Reconcile v namespace name st = (Inr 0, st')" "condition_laws (ow_conditions v)" "order_ready v (oc_order st')"
    and "picked_up v namespace name (oc_orders st) order os"
  shows "\<exists>product effective conns k. admitted v order (oc_kept st) product effective conns k
    \<and> up_to_date (oc_order st') (intent_hash order effective) \<and> OrderStatus_Render (Order_Status (oc_order st')) = None
    \<and> names_prepared v (intent_hash order effective) order (oc_preparations st) (oc_order st') (oc_preparations st')"
  using assms(1)
proof (cases rule: order_request_cases)
  case early
  then show ?thesis using assms(4) by blast
next
  case (worked order' os' result s)
  have same: "order' = order" "os' = os" using worked(1) assms(4) by (auto simp: picked_up_def split: if_splits)
  obtain r t where step: "reconcileOrder v (st\<lparr>oc_orders := os, oc_order := order\<rparr>) = (r, t)" by fastforce
  have "r = Inr 0 \<and> oc_order s = oc_order t \<and> oc_preparations s = oc_preparations t"
    using worked(2,8) step same by (auto simp: reconcile_with_serving_def join_reconcile_def split: prod.splits option.splits sum.splits reconcile_error.splits)
  then show ?thesis
    using reconcileOrder_ready [of v "st\<lparr>oc_orders := os, oc_order := order\<rparr>" t] step assms(2,3) worked(3,4)
    by simp
qed

theorem order_ready_current_witness:
  "\<exists>st' x p. order_Reconcile sample_order_services ''ns'' ''o'' sample_started = (Inr 0, st') \<and> up_to_date (oc_order st') sample_hash
    \<and> PreparationSpec_ConfigHash (Preparation_Spec x) = sample_hash
    \<and> ob_create (ow_preparations sample_order_services) x [] = (Inr p, oc_preparations st')
    \<and> OrderStatus_LatestPreparationName (Order_Status (oc_order st')) = om_Name (Preparation_ObjectMeta p)"
proof -
  obtain st' where run: "order_Reconcile sample_order_services ''ns'' ''o'' sample_started = (Inr 0, st')"
      "order_ready sample_order_services (oc_order st')"
    using sample_request by metis
  have none: "oc_preparations sample_started = []" by (simp add: sample_started_def sample_order_state_def)
  obtain product effective conns k where current: "admitted sample_order_services sample_rendering (oc_kept sample_started) product effective conns k"
      "up_to_date (oc_order st') (intent_hash sample_rendering effective)"
      "names_prepared sample_order_services (intent_hash sample_rendering effective) sample_rendering [] (oc_order st') (oc_preparations st')"
    using order_ready_current [OF run(1) _ run(2) sample_picked_up] condition_laws_list_library none by auto
  have "effective = sample_effective"
  proof -
    have "ow_get_Product sample_order_services = (\<lambda>_ _. Inr order_product)" by (simp add: sample_order_services_def)
    then have "ForProduct ProductRevision order_product sample_rendering = Inr effective" using current(1) by (auto simp: admitted_def)
    moreover have "ForProduct ProductRevision order_product sample_rendering = Inr sample_effective"
      using sample_effective(1) order_with_spec(5) sample_rendering(1,2) by metis
    ultimately show ?thesis by simp
  qed
  then have "names_prepared sample_order_services sample_hash sample_rendering [] (oc_order st') (oc_preparations st')"
    "up_to_date (oc_order st') sample_hash"
    using current(2,3) sample_same_hash by auto
  then show ?thesis using run(1) sample_not_up_to_date(1) by (auto simp: names_prepared_def listed_preparations_def)
qed

text \<open>C10: Rendering an intent ends after two reconciles, when nothing stands in its way: the first says so in the status, which
  is a change that the controller watches for, and the second, at any later version of the Order with that status, leaves it
  Ready with the Preparation of the intent.\<close>

theorem order_rendered_in_two_passes:
  assumes "unobstructed v (oc_order st) effective" "\<not> up_to_date (oc_order st) (intent_hash (oc_order st) effective)"
    and "OrderStatus_Render (Order_Status (oc_order st)) \<noteq> Some \<lparr>OrderRender_ConfigHash = intent_hash (oc_order st) effective\<rparr>"
    and "reconcileOrder v st = (res1, st1)" "same_intention (oc_order st2) (oc_order st1)" "unobstructed v (oc_order st2) effective"
    and "isLatest v (oc_order st2) (oc_orders st2) = Inr True" "rendering_works v (oc_order st2) effective"
    and "reconcileOrder v st2 = (res2, st3)" "condition_laws (ow_conditions v)"
  shows "res1 = Inr 0 \<and> renderStarted (oc_order st) (oc_order st1)
    \<and> res2 = Inr 0 \<and> order_ready v (oc_order st3) \<and> up_to_date (oc_order st3) (intent_hash (oc_order st) effective)
    \<and> OrderStatus_Render (Order_Status (oc_order st3)) = None"
proof -
  let ?hash = "intent_hash (oc_order st) effective"
  have first: "res1 = Inr 0" "oc_order st1 = start_render v ?hash (oc_order st)"
    using first_reconcile [OF assms(1-3)] assms(4) by auto
  have recorded: "OrderStatus_Render (Order_Status (oc_order st1)) = Some \<lparr>OrderRender_ConfigHash = ?hash\<rparr>" "same_order (oc_order st1) (oc_order st)"
    by (simp_all add: first(2) start_render_def mark_defs Order_SetConditions_def on_order_status_def same_order_def)
  have hash: "intent_hash (oc_order st2) effective = ?hash" using order_with_spec(3) assms(5) recorded(2) by (metis same_intention_def same_order_def)
  have "renderStarted (oc_order st) (oc_order st1)" using recorded assms(3) by (auto simp: renderStarted_def renderHash_def split: option.splits)
  moreover have "\<not> up_to_date (oc_order st2) (intent_hash (oc_order st2) effective)"
    using assms(2,5) recorded(2) hash by (simp add: up_to_date_def same_intention_def same_order_def)
  moreover have "OrderStatus_Render (Order_Status (oc_order st2)) = Some \<lparr>OrderRender_ConfigHash = intent_hash (oc_order st2) effective\<rparr>"
    using assms(5) recorded(1) hash by (simp add: same_intention_def)
  ultimately show ?thesis using second_reconcile [OF assms(6) _ _ assms(7,8,10,9)] first(1) hash by simp
qed

theorem order_rendered_in_two_passes_witness:
  "\<exists>st1 st3. reconcileOrder sample_order_services sample_order_state = (Inr 0, st1)
    \<and> renderStarted (oc_order sample_order_state) (oc_order st1)
    \<and> reconcileOrder sample_order_services sample_started = (Inr 0, st3) \<and> order_ready sample_order_services (oc_order st3)"
proof -
  let ?v = sample_order_services
  have order: "oc_order sample_order_state = sample_stage_order ''o'' ''prod''" by (simp add: sample_order_state_def)
  have started: "oc_order sample_started = sample_rendering" "oc_orders sample_started = sample_rendering" by (simp_all add: sample_started_def)
  have fresh: "OrderStatus_Render (Order_Status (sample_stage_order ''o'' ''prod'')) \<noteq> Some \<lparr>OrderRender_ConfigHash = sample_hash\<rparr>"
    by (simp add: sample_stage_order_def)
  obtain st1 where first: "reconcileOrder ?v sample_order_state = (Inr 0, st1)" "oc_order st1 = sample_rendering"
    using first_reconcile [of ?v sample_order_state sample_effective, unfolded order sample_hash_def [symmetric],
        OF sample_unobstructed sample_not_up_to_date(2) fresh] by (auto simp: sample_rendering_def)
  obtain res st3 where second: "reconcileOrder ?v sample_started = (res, st3)" by fastforce
  have "same_intention sample_rendering sample_rendering" by (simp add: same_intention_def)
  then show ?thesis
    using order_rendered_in_two_passes [of ?v sample_order_state sample_effective _ st1 sample_started res st3,
        unfolded order started first(2) sample_hash_def [symmetric],
        OF sample_unobstructed sample_not_up_to_date(2) fresh first(1) _ sample_rendering_unobstructed sample_latest
          sample_rendering_works [OF sample_rendering(4)] second]
      first second condition_laws_list_library by (auto simp: order)
qed

text \<open>C11: A request of the Order controller changes at most the Serving of the Order's name: it takes over one that named the
  Order and had no controller, keeping its spec, or creates one, for an Order that promotes automatically and has a
  Preparation. A Serving of another controller, or that changed since it was read, is left.\<close>

theorem serving_owned:
  assumes "servings_server v stored" "order_Reconcile v namespace name st = (res, st')" "condition_laws (ow_conditions v)"
  shows "serving_change (ow_owners v) (oc_order st') (stored (oc_servings st)) (stored (oc_servings st'))"
  using assms(2)
proof (cases rule: order_request_cases)
  case early
  then show ?thesis by (simp add: serving_change_def)
next
  case (worked order os result s)
  obtain r t where step: "reconcileOrder v (st\<lparr>oc_orders := os, oc_order := order\<rparr>) = (r, t)" by fastforce
  obtain err ss where ensured: "ensureServing v (oc_order t) (oc_servings t) = (err, ss)" by fastforce
  have "oc_servings s = ss \<and> oc_order s = oc_order t"
    using worked(2) step ensured by (auto simp: reconcile_with_serving_def split: prod.splits option.splits)
  moreover have "oc_servings t = oc_servings st" using reconcileOrder_changes [OF step assms(3)] by simp
  moreover have "serving_change lib (observed o1) f g = serving_change lib o1 f g" for lib o1 f g
    by (simp add: serving_change_def taken_over_def created_for_def EffectivePromotionMode_def)
  ultimately show ?thesis using servings_server.ensureServing_change [OF assms(1) ensured] worked(3,5) by simp
qed

theorem serving_owned_witness:
  "\<exists>st'. order_Reconcile sample_order_services ''ns'' ''o'' sample_started = (Inr 0, st')
    \<and> serving_change plain_owners (oc_order st') (stored_servings (oc_servings sample_started)) (stored_servings (oc_servings st'))"
proof -
  obtain st' where run: "order_Reconcile sample_order_services ''ns'' ''o'' sample_started = (Inr 0, st')"
    using sample_request by metis
  then show ?thesis using serving_owned [OF sample_servings.servings_server_axioms run] by (simp add: condition_laws_list_library)
qed

text \<open>C12: Updates of a Product that its watch filters out change nothing in what the reconcile of an Order does: every change
  the reconcile would see passes the filter.\<close>

theorem product_watch_complete:
  assumes "\<not> productChanged (ow_conditions v) old new" "product_versions old new"
  shows "reconcileOrder (with_product v old) st = reconcileOrder (with_product v new) st"
  by (rule reconcileOrder_unchanged [OF assms])

theorem product_watch_complete_witness:
  "reconcileOrder (with_product sample_order_services order_product) sample_order_state
   = reconcileOrder (with_product sample_order_services (order_product\<lparr>Product_Status := (Product_Status order_product)
       \<lparr>ProductStatus_ObservedGeneration := 7\<rparr>\<rparr>)) sample_order_state"
  by (rule product_watch_complete) (simp_all add: productChanged_def product_versions_def readinessOf_def)

end
