(* ===== verification/Registry_Properties.thy ===== *)
theory Registry_Properties
  imports Registry_Safety Resolve_Canonical Conditions
begin

text \<open>
  The properties of registry connections and of what an Order's intent is identified by, with a resolver that
  computes: one Registry, whose Secret holds a credential for its host.
\<close>

section \<open>From the resolver to the entries\<close>

lemma Resolver_Scope_entries:
  assumes "Resolver_Scope r ns refs = Inr scope" "reads_by_name r"
  obtains entries where "scope = ClientScope entries" "names_identify entries" "scope_entries r ns refs = Inr entries"
  using assms scope_entries_identify by (auto simp: Resolver_Scope_def map_sum_def split: sum.splits)

lemma entries_versioned:
  assumes "scope_entries r ns refs = Inr entries" "\<And>ref reg. ref \<in> set refs \<Longrightarrow> rd_Registry r ns ref = Inr reg \<Longrightarrow> P (entry_of r reg)"
  shows "\<forall>e\<in>set entries. P e"
proof
  fix e assume "e \<in> set entries"
  then have "Inr e \<in> set (map (\<lambda>ref. map_sum id (entry_of r) (rd_Registry r ns ref)) refs)"
    using scope_entries_read [OF assms(1)] by (metis imageI list.set_map)
  then obtain ref where ref: "ref \<in> set refs" "map_sum id (entry_of r) (rd_Registry r ns ref) = Inr e" by auto
  then show "P e" using assms(2) [OF ref(1)] by (cases "rd_Registry r ns ref") auto
qed

section \<open>A sample resolver\<close>

definition sample_registry :: Registry where
  "sample_registry = \<lparr>Registry_ObjectMeta = \<lparr>om_Name = ''reg'', om_Namespace = ''ns'', om_UID = ''u'', om_Generation = 1, om_CreationTimestamp = 0,
       om_DeletionTimestamp = None, om_Labels = [], om_Annotations = [], om_Finalizers = [], om_OwnerReferences = [], om_ResourceVersion = ''7''\<rparr>,
     Registry_Spec = \<lparr>RegistrySpec_URL = ''oci://R/team'', RegistrySpec_SecretRef = Some ''s'', RegistrySpec_CertSecretRef = None,
       RegistrySpec_Scheme = RegistrySchemeHTTPS\<rparr>,
     Registry_Status = \<lparr>RegistryStatus_ObservedGeneration = 1, RegistryStatus_Conditions = []\<rparr>\<rparr>"

definition sample_secret :: secret where
  "sample_secret = \<lparr>sc_Name = ''s'', sc_Namespace = ''ns'', sc_UID = [], sc_ResourceVersion = ''9'', sc_Labels = Map.empty, sc_Type = ''kubernetes.io/dockerconfigjson'',
     sc_Data = Map.empty\<rparr>"

definition sample_library :: registry_library where
  "sample_library = \<lparr>rl_docker_config = \<lambda>_. Inr [(''https://r'', \<lparr>dc_Username = ''user'', dc_Password = ''pass'', dc_Auth = [], dc_IdentityToken = [],
       dc_RegistryToken = []\<rparr>)],
     rl_url = \<lambda>_. Some (''r'', []), rl_pem = \<lambda>_. False, rl_key_pair = \<lambda>_ _. None\<rparr>"

definition sample_reader :: registry_reader where
  "sample_reader = \<lparr>rd_Registry = \<lambda>ns n. (if n = ''reg'' then Inr sample_registry else Inl (NotFound [])), rd_Secret = \<lambda>ns n. Inr sample_secret\<rparr>"

definition sample_clients :: "oci_options Clients" where
  "sample_clients = \<lparr>ct_bundledHost = ''b'', ct_newClient = \<lambda>opts. opts\<rparr>"

definition sample_entry :: Entry where
  "sample_entry = \<lparr>ey_Registry = sample_registry, ey_Secret = Some sample_secret, ey_CertSecret = None, ey_Err = None\<rparr>"

definition sample_credential :: credential where
  "sample_credential = \<lparr>cd_Username = ''user'', cd_Password = ''pass'', cd_RefreshToken = [], cd_AccessToken = []\<rparr>"

lemma sample_by_name: "reads_by_name sample_reader"
  by (simp add: reads_by_name_def sample_reader_def sample_registry_def)

lemma sample_scope: "Resolver_Scope sample_reader ''ns'' [''reg''] = Inr (ClientScope [sample_entry])"
  by (simp add: Resolver_Scope_def sample_reader_def entry_of_def sample_entry_def read_secret_def sample_registry_def)

lemma sample_locations:
  "ParseLocation ''oci://R/team'' = Inr \<lparr>lo_Host = ''r'', lo_Path = ''team''\<rparr>"
  "ParseLocation ''oci://r/team/app:1.0'' = Inr \<lparr>lo_Host = ''r'', lo_Path = ''team/app''\<rparr>"
  by code_simp+

lemma sample_credential: "entry_credential sample_library sample_entry \<lparr>lo_Host = ''r'', lo_Path = ''team''\<rparr> = Inr (sample_credential, ''/9'')"
proof -
  have "keyMatch sample_library ''https://r'' \<lparr>lo_Host = ''r'', lo_Path = ''team''\<rparr> = Some 1" by code_simp
  then show ?thesis
    by (simp add: entry_credential_def sample_entry_def sample_registry_def sample_secret_def credentialFor_def sample_library_def key_turn_def
        entryCredential_def sample_credential_def EmptyCredential_def Let_def)
qed

definition sample_connection :: "oci_options Connection" where
  "sample_connection = empty_connection\<lparr>cn_Registry := Some sample_registry, cn_Host := ''r'', cn_Credential := sample_credential,
     cn_PlainHTTP := False, cn_version := ''7/9''\<rparr>"

lemma sample_entry_connection: "entry_connection sample_library sample_entry = Inr sample_connection"
proof -
  have parts: "ey_Registry sample_entry = sample_registry" "ey_Err sample_entry = None" "RegistrySpec_URL (Registry_Spec sample_registry) = ''oci://R/team''"
    "om_ResourceVersion (Registry_ObjectMeta sample_registry) = ''7''" "RegistrySpec_EffectiveScheme (Registry_Spec sample_registry) = RegistrySchemeHTTPS"
    "entry_tls sample_library sample_entry = Inr None"
    by (simp_all add: sample_entry_def sample_registry_def RegistrySpec_EffectiveScheme_def entry_tls_def)
  show ?thesis by (simp add: entry_connection_def parts sample_locations sample_credential sample_connection_def Let_def)
qed

definition sample_client :: oci_options where
  "sample_client = connection_options sample_connection"

lemma sample_connect:
  "Scope_Connect sample_library sample_clients (ClientScope [sample_entry]) ''oci://r/team/app:1.0'' Map.empty
   = (Inr (sample_connection\<lparr>cn_Client := Some sample_client\<rparr>), [''u'' \<mapsto> (''7/9'', sample_client)])"
proof -
  have registry: "ey_Registry sample_entry = sample_registry" "RegistrySpec_URL (Registry_Spec sample_registry) = ''oci://R/team''"
    "om_UID (Registry_ObjectMeta sample_registry) = ''u''"
    by (simp_all add: sample_entry_def sample_registry_def)
  have "Covers \<lparr>lo_Host = ''r'', lo_Path = ''team''\<rparr> \<lparr>lo_Host = ''r'', lo_Path = ''team/app''\<rparr>" by code_simp
  then have "Match [sample_registry] ''oci://r/team/app:1.0'' = Inr (Some sample_registry)"
    by (simp add: Match_def match_turn_def sample_locations registry)
  moreover have "Clients_Connect sample_library sample_clients sample_entry Map.empty
      = (Inr (sample_connection\<lparr>cn_Client := Some sample_client\<rparr>), [''u'' \<mapsto> (''7/9'', sample_client)])"
    by (simp add: Clients_Connect_def sample_entry_connection client_for_def registry sample_clients_def sample_client_def)
      (simp add: sample_connection_def)
  ultimately show ?thesis by (simp add: Scope_Connect.simps sample_locations registry Let_def)
qed

section \<open>Properties\<close>

text \<open>C31: A location that parses is well-formed: its host is canonical, not empty and without a slash, and its path neither
  starts nor ends with one.\<close>

theorem location_wf:
  assumes "ParseLocation s = Inr l"
  shows "wf_location l"
  by (rule ParseLocation_wf [OF assms])

theorem location_wf_witness: "wf_location \<lparr>lo_Host = ''r'', lo_Path = ''team/app''\<rparr>"
  using location_wf [OF sample_locations(2)] .

text \<open>C28: A connection to a location through the Registries an object lists uses the one that covers the location with the
  longest path, with the credential its Secret holds for it and its host, or no credential at all when none of them
  covers it: a credential is never used for a location its Registry does not cover.\<close>

theorem connect_through:
  assumes "Resolver_Scope r ns refs = Inr scope" "Scope_Connect lib c scope url kept = (Inr conn, kept')" "reads_by_name r"
  shows "\<exists>entries target. scope = ClientScope entries \<and> ParseLocation url = Inr target
    \<and> (through_entry lib entries target conn \<or> not_through_any entries target conn)"
proof -
  obtain entries where entries: "scope = ClientScope entries" "names_identify entries"
    using Resolver_Scope_entries [OF assms(1,3)] by metis
  obtain target where target: "ParseLocation url = Inr target" using assms(2) by (auto simp: Scope_Connect.simps split: sum.splits)
  have "Scope_Connect lib c (ClientScope entries) url kept = (Inr conn, kept')" using assms(2) entries(1) by simp
  from Scope_Connect_through [OF this target entries(2)] show ?thesis using entries(1) target by blast
qed

theorem connect_through_witness:
  "\<exists>target. ParseLocation ''oci://r/team/app:1.0'' = Inr target
    \<and> through_entry sample_library [sample_entry] target (sample_connection\<lparr>cn_Client := Some sample_client\<rparr>)"
proof -
  have "\<not> not_through_any es t (sample_connection\<lparr>cn_Client := Some sample_client\<rparr>)" for es t
    by (simp add: not_through_any_def sample_connection_def)
  then show ?thesis using connect_through [OF sample_scope sample_connect sample_by_name] by auto
qed

text \<open>C29: Clients that are kept stay those of the Registries and Secrets as they are: connecting keeps every kept client built
  from the options its version stands for, and the client of the connection is built from the connection's own options,
  when versions tell apart what connections are built from.\<close>

theorem clients_kept:
  assumes "Resolver_Scope r ns refs = Inr scope" "Scope_Connect lib c scope url kept = (Inr conn, kept')" "reads_by_name r"
    and "kept_for w c kept" "anonymous_versions w"
    and "\<And>ref reg. ref \<in> set refs \<Longrightarrow> rd_Registry r ns ref = Inr reg \<Longrightarrow> versioned_entry lib w c (entry_of r reg)"
  shows "kept_for w c kept' \<and> (cn_Registry conn \<noteq> None \<longrightarrow> cn_Client conn = Some (ct_newClient c (connection_options conn)))
    \<and> (cn_Registry conn = None \<longrightarrow> cn_Client conn = Some (ct_newClient c (anonymous_options (cn_PlainHTTP conn))))"
proof -
  obtain entries where entries: "scope = ClientScope entries" "names_identify entries" "scope_entries r ns refs = Inr entries"
    using Resolver_Scope_entries [OF assms(1,3)] by metis
  obtain target where target: "ParseLocation url = Inr target" using assms(2) by (auto simp: Scope_Connect.simps split: sum.splits)
  have "Scope_Connect lib c (ClientScope entries) url kept = (Inr conn, kept')" using assms(2) entries(1) by simp
  from Scope_Connect_kept [OF this target entries(2) assms(4,5)] entries_versioned [OF entries(3), of "versioned_entry lib w c"] assms(6)
  show ?thesis by blast
qed

theorem clients_kept_witness:
  "kept_for (\<lambda>uid v. if uid = ''u'' then sample_client else anonymous_options (uid = anonymous_key True)) sample_clients [''u'' \<mapsto> (''7/9'', sample_client)]"
proof -
  let ?w = "\<lambda>uid v. if uid = ''u'' then sample_client else anonymous_options (uid = anonymous_key True)"
  have anon: "anonymous_versions ?w" by (auto simp: anonymous_versions_def anonymous_key_def)
  have versions: "versioned_entry sample_library ?w sample_clients (entry_of sample_reader reg)"
    if "ref \<in> set [''reg'']" "rd_Registry sample_reader ''ns'' ref = Inr reg" for ref reg
  proof -
    have "entry_of sample_reader reg = sample_entry"
      using that by (auto simp: sample_reader_def entry_of_def sample_entry_def read_secret_def sample_registry_def)
    then show ?thesis using sample_entry_connection
      by (simp add: versioned_entry_def sample_client_def) (simp add: sample_entry_def sample_registry_def)
  qed
  show ?thesis by (rule conjunct1 [OF clients_kept [OF sample_scope sample_connect sample_by_name kept_for_empty anon versions]])
qed

text \<open>The credential of a docker config is that of its best key, which has the highest score and is the least of those, whatever
  order the library lists the keys in.\<close>

theorem docker_config_order:
  assumes "rl_docker_config lib data = Inr auths" "rl_docker_config lib other = Inr auths'" "mset auths = mset auths'" "distinct (map fst auths)"
  shows "credentialFor lib data loc = credentialFor lib other loc
    \<and> (\<forall>k e s. best_key (candidates lib loc auths) (Some (k, e, s)) \<longrightarrow> credentialFor lib data loc = entryCredential e)"
proof -
  have "credentialFor lib data loc = credentialFor lib other loc"
    using assms(1,2) key_fold_permuted [OF assms(4,3), of lib loc] by (simp add: credentialFor_def)
  then show ?thesis using assms(1) key_fold_exact [OF assms(4), of lib loc] by (auto simp: credentialFor_def)
qed

definition two_keys :: "(string \<times> dockerConfigEntry) list" where
  "two_keys = [(''r'', \<lparr>dc_Username = ''a'', dc_Password = ''p'', dc_Auth = [], dc_IdentityToken = [], dc_RegistryToken = []\<rparr>),
     (''https://r'', \<lparr>dc_Username = ''b'', dc_Password = ''p'', dc_Auth = [], dc_IdentityToken = [], dc_RegistryToken = []\<rparr>)]"

theorem docker_config_order_witness:
  "credentialFor (sample_library\<lparr>rl_docker_config := \<lambda>data. Inr (if data = [] then two_keys else rev two_keys)\<rparr>) [] l
   = credentialFor (sample_library\<lparr>rl_docker_config := \<lambda>data. Inr (if data = [] then two_keys else rev two_keys)\<rparr>) ''x'' l"
proof -
  have "distinct (map fst two_keys)" by (simp add: two_keys_def)
  then show ?thesis
    using docker_config_order [of "sample_library\<lparr>rl_docker_config := \<lambda>data. Inr (if data = [] then two_keys else rev two_keys)\<rparr>"
        "[]" two_keys "''x''" "rev two_keys" l] by simp
qed

text \<open>C30: The canonical bytes of two intents, which their hashes are of, are equal exactly when the intents mean the same: chart values
  as JSON values, patches as the paths they set, and all else equal.\<close>

theorem intent_bytes_same:
  assumes "wf_intent i" "wf_intent j"
  shows "Intent_Canonical i = Intent_Canonical j \<longleftrightarrow> same_intent i j"
  by (rule Intent_Canonical_same [OF assms])

definition sample_intent :: "json \<Rightarrow> Intent" where
  "sample_intent helm_vals = \<lparr>Intent_Source = \<lparr>IntentSource_OCI = ''oci://r/s'', IntentSource_Version = ''1'', IntentSource_Digest = ''sha256:cd''\<rparr>,
     Intent_ProductRevision = [], Intent_Destination = [], Intent_TargetNamespace = [],
     Intent_Render = Some \<lparr>Render_Helm = Some \<lparr>HelmRender_ReleaseName = [], HelmRender_IncludeCRDs = False, HelmRender_Values = Some helm_vals\<rparr>,
       Render_Manifest = None\<rparr>,
     Intent_Patches = [], Intent_Edits = [], Intent_Images = None, Intent_Promotion = None\<rparr>"

theorem intent_bytes_same_witness:
  "Intent_Canonical (sample_intent (JObj [(''a'', JBool True), (''b'', JNull)])) = Intent_Canonical (sample_intent (JObj [(''b'', JNull), (''a'', JBool True)]))"
proof -
  have "same_json (JObj [(''a'', JBool True), (''b'', JNull)]) (JObj [(''b'', JNull), (''a'', JBool True)])"
    unfolding canonical_same [symmetric] by code_simp
  then have "same_intent (sample_intent (JObj [(''a'', JBool True), (''b'', JNull)])) (sample_intent (JObj [(''b'', JNull), (''a'', JBool True)]))"
    by (simp add: same_intent_def sample_intent_def same_render_def same_helm_def)
  then show ?thesis
    using intent_bytes_same [of "sample_intent (JObj [(''a'', JBool True), (''b'', JNull)])" "sample_intent (JObj [(''b'', JNull), (''a'', JBool True)])"]
    by (simp add: wf_intent_def sample_intent_def)
qed

end
