(* ===== verification/Preparation_Safety.thy ===== *)
theory Preparation_Safety
  imports Preparation_Controller
begin

text \<open>
  What one reconcile of a Preparation may do. The votes of a Preparation are an abstract machine of three
  states, which the reconcile refines: open, sealed, archived. The Ready condition is shown to mean that the
  evidence is attached, and what was attached is in the registry.
\<close>

section \<open>Conditions\<close>

lemma condition_true_set:
  assumes "condition_laws lib"
  shows "is_condition_true lib (set_condition lib cs c) t \<longleftrightarrow> (if t = c_Type c then c_Status c = ConditionTrue else is_condition_true lib cs t)"
proof (cases "t = c_Type c")
  case True
  obtain c' where "find_condition lib (set_condition lib cs c) (c_Type c) = Some c'" "c_Status c' = c_Status c"
    using assms unfolding condition_laws_def same_condition_def by metis
  then show ?thesis using assms True by (simp add: condition_laws_def)
qed (use assms in \<open>simp add: condition_laws_def\<close>)

lemma prep_condition_mark:
  assumes "condition_laws (pw_conditions v)"
  shows "prep_condition_true v (prep_true v t reason message p) u \<longleftrightarrow> u = t \<or> prep_condition_true v p u"
    and "prep_condition_true v (prep_false v t reason message p) u \<longleftrightarrow> u \<noteq> t \<and> prep_condition_true v p u"
  using condition_true_set [OF assms]
  by (auto simp: prep_condition_true_def prep_true_def prep_false_def mark_defs preparation_setter_def Preparation_GetConditions_def Preparation_SetConditions_def)

lemma prep_mark_parts [simp]:
  "Preparation_Spec (prep_true v t reason message p) = Preparation_Spec p" "Preparation_Spec (prep_false v t reason message p) = Preparation_Spec p"
  "Preparation_ObjectMeta (prep_true v t reason message p) = Preparation_ObjectMeta p"
  "Preparation_ObjectMeta (prep_false v t reason message p) = Preparation_ObjectMeta p"
  "PreparationStatus_Approval (Preparation_Status (prep_true v t reason message p)) = PreparationStatus_Approval (Preparation_Status p)"
  "PreparationStatus_Approval (Preparation_Status (prep_false v t reason message p)) = PreparationStatus_Approval (Preparation_Status p)"
  "PreparationStatus_Attestations (Preparation_Status (prep_true v t reason message p)) = PreparationStatus_Attestations (Preparation_Status p)"
  "PreparationStatus_Attestations (Preparation_Status (prep_false v t reason message p)) = PreparationStatus_Attestations (Preparation_Status p)"
  by (simp_all add: prep_true_def prep_false_def mark_defs preparation_setter_def Preparation_SetConditions_def)

lemma condition_types_distinct [simp]:
  "ConditionTypeReady \<noteq> ConditionTypeSigned" "ConditionTypeReady \<noteq> ConditionTypeProvenanceAttached" "ConditionTypeReady \<noteq> ConditionTypeApproved"
  "ConditionTypeReady \<noteq> ConditionTypeApprovalsSealed" "ConditionTypeSigned \<noteq> ConditionTypeReady" "ConditionTypeSigned \<noteq> ConditionTypeProvenanceAttached"
  "ConditionTypeSigned \<noteq> ConditionTypeApproved" "ConditionTypeSigned \<noteq> ConditionTypeApprovalsSealed"
  "ConditionTypeProvenanceAttached \<noteq> ConditionTypeReady" "ConditionTypeProvenanceAttached \<noteq> ConditionTypeSigned"
  "ConditionTypeProvenanceAttached \<noteq> ConditionTypeApproved" "ConditionTypeProvenanceAttached \<noteq> ConditionTypeApprovalsSealed"
  by (simp_all add: ConditionTypeReady_def ConditionTypeSigned_def ConditionTypeProvenanceAttached_def ConditionTypeApproved_def
      ConditionTypeApprovalsSealed_def)

section \<open>Ready means that the evidence is attached\<close>

definition prep_ready :: "('client, 'trust, 'reg, 'ps) preparation_services \<Rightarrow> Preparation \<Rightarrow> bool" where
  "prep_ready v p = prep_condition_true v p ConditionTypeReady"

definition ready_evident :: "('client, 'trust, 'reg, 'ps) preparation_services \<Rightarrow> Preparation \<Rightarrow> bool" where
  "ready_evident v p \<longleftrightarrow> (prep_ready v p \<longrightarrow> evidenceAttached v p)"

lemma markEvidenceReady_ready:
  assumes "condition_laws (pw_conditions v)"
  shows "prep_ready v (markEvidenceReady v p) \<longleftrightarrow> evidenceAttached v p" "evidenceAttached v (markEvidenceReady v p) \<longleftrightarrow> evidenceAttached v p"
  by (auto simp: markEvidenceReady_def prep_ready_def evidenceAttached_def prep_condition_mark [OF assms])

lemma markEvidenceReady_parts [simp]:
  "Preparation_Spec (markEvidenceReady v p) = Preparation_Spec p" "Preparation_ObjectMeta (markEvidenceReady v p) = Preparation_ObjectMeta p"
  "PreparationStatus_Approval (Preparation_Status (markEvidenceReady v p)) = PreparationStatus_Approval (Preparation_Status p)"
  "PreparationStatus_Attestations (Preparation_Status (markEvidenceReady v p)) = PreparationStatus_Attestations (Preparation_Status p)"
  by (simp_all add: markEvidenceReady_def)

lemma on_prep_status_condition [simp]:
  "prep_condition_true v (on_prep_status (\<lambda>s. s\<lparr>PreparationStatus_Approval := f s\<rparr>) p) t = prep_condition_true v p t"
  "prep_condition_true v (on_prep_status (\<lambda>s. s\<lparr>PreparationStatus_Attestations := g s\<rparr>) p) t = prep_condition_true v p t"
  by (simp_all add: prep_condition_true_def on_prep_status_def)

lemma ready_evident_marks:
  assumes "condition_laws (pw_conditions v)"
  shows "ready_evident v (markEvidenceReady v p)" "ready_evident v (markSignFailed v reason err p)" "ready_evident v (markProvenanceFailed v err p)"
    "ready_evident v (markEvidenceAttached v signature provenance p)"
  by (simp_all add: ready_evident_def markSignFailed_def markProvenanceFailed_def markEvidenceAttached_def Let_def markEvidenceReady_ready [OF assms])

lemma ready_evident_approval:
  assumes "condition_laws (pw_conditions v)"
  shows "ready_evident v (markApproval v res p) \<longleftrightarrow> ready_evident v p" "ready_evident v (seal_votes v p) \<longleftrightarrow> ready_evident v p"
    "ready_evident v (record_archive v archived p) \<longleftrightarrow> ready_evident v p"
    "ready_evident v (prep_false v ConditionTypeApprovalsSealed reason message p) \<longleftrightarrow> ready_evident v p"
proof -
  have "prep_condition_true v (markApproval v res p) t = prep_condition_true v p t" if "t \<noteq> ConditionTypeApproved" for t
    using that condition_true_set [OF assms]
    by (simp add: markApproval_def prep_condition_true_def Set_condition_def preparation_setter_def Preparation_GetConditions_def
        Preparation_SetConditions_def on_prep_status_def)
  then show "ready_evident v (markApproval v res p) \<longleftrightarrow> ready_evident v p" by (simp add: ready_evident_def prep_ready_def evidenceAttached_def)
qed (simp_all add: ready_evident_def prep_ready_def evidenceAttached_def seal_votes_def record_archive_def prep_condition_mark [OF assms])

lemma evidenceAttached_markApproval [simp]:
  "condition_laws (pw_conditions v) \<Longrightarrow> evidenceAttached v (markApproval v res p) = evidenceAttached v p"
  by (simp add: evidenceAttached_def markApproval_def prep_condition_true_def Set_condition_def preparation_setter_def Preparation_GetConditions_def
      Preparation_SetConditions_def on_prep_status_def condition_true_set)

section \<open>The machine of the votes\<close>

datatype seal_state = VotesOpen | VotesSealed "ApprovalVote list" time | VotesArchived "ApprovalVote list" time ApprovalAttestation

definition seal_state_of :: "Preparation \<Rightarrow> seal_state" where
  "seal_state_of p =
     (case PreparationStatus_Approval (Preparation_Status p) of
        None \<Rightarrow> VotesOpen
      | Some s \<Rightarrow>
         (case PreparationApprovalStatus_SealedTime s of
            None \<Rightarrow> VotesOpen
          | Some t \<Rightarrow>
             (case PreparationApprovalStatus_Attestation s of
                None \<Rightarrow> VotesSealed (PreparationApprovalStatus_Votes s) t
              | Some a \<Rightarrow> VotesArchived (PreparationApprovalStatus_Votes s) t a)))"

text \<open>Votes are sealed once, when they are conclusive, and archived once, as they were sealed.\<close>

inductive seal_step :: "(ApprovalVote list \<Rightarrow> bool) \<Rightarrow> seal_state \<Rightarrow> seal_state \<Rightarrow> bool" for conclusive where
  stay: "seal_step conclusive s s"
| close: "conclusive votes \<Longrightarrow> seal_step conclusive VotesOpen (VotesSealed votes t)"
| store: "seal_step conclusive (VotesSealed votes t) (VotesArchived votes t a)"

declare stay [simp]

inductive_simps seal_step_archived: "seal_step conclusive (VotesArchived votes t a) s"
inductive_simps seal_step_sealed: "seal_step conclusive (VotesSealed votes t) s"
inductive_cases seal_step_open: "seal_step conclusive VotesOpen s"

text \<open>The votes the API server holds approve the Preparation, which its Serving converges to.\<close>

definition conclusive_votes :: "('client, 'trust, 'reg, 'ps) preparation_services \<Rightarrow> Preparation \<Rightarrow> ApprovalVote list \<Rightarrow> bool" where
  "conclusive_votes v p votes \<longleftrightarrow>
     evidenceAttached v p \<and> isPromotionTarget v p = Inr True
     \<and> (\<exists>policy approvals. Preparation_ApprovalPolicy p = Some policy
          \<and> pw_live_Approvals v (prep_namespace p) (prep_name p) = Inr approvals
          \<and> fst (approval_votes p policy approvals) = votes \<and> fst (decide policy (tally_votes votes)))"

lemma seal_state_marks [simp]:
  "seal_state_of (prep_true v t reason message p) = seal_state_of p" "seal_state_of (prep_false v t reason message p) = seal_state_of p"
  "seal_state_of (markEvidenceReady v p) = seal_state_of p" "seal_state_of (markSignFailed v reason err p) = seal_state_of p"
  "seal_state_of (markProvenanceFailed v err p) = seal_state_of p" "seal_state_of (markEvidenceAttached v signature provenance p) = seal_state_of p"
  by (simp_all add: seal_state_of_def markSignFailed_def markProvenanceFailed_def markEvidenceAttached_def Let_def on_prep_status_def)

lemma sealed_state: "sealedStatus p = None \<longleftrightarrow> seal_state_of p = VotesOpen"
  by (auto simp: sealedStatus_def seal_state_of_def split: option.splits)

lemma Evaluate_required:
  "Preparation_ApprovalPolicy p = Some policy \<Longrightarrow>
   ar_Required (approval_Evaluate p approvals) \<and> ar_Approved (approval_Evaluate p approvals) = fst (decide policy (tally_votes (fst (approval_votes p policy approvals))))
   \<and> (\<exists>s. ar_Status (approval_Evaluate p approvals) = Some s \<and> PreparationApprovalStatus_Votes s = fst (approval_votes p policy approvals)
        \<and> PreparationApprovalStatus_SealedTime s = Option.bind (sealedStatus p) PreparationApprovalStatus_SealedTime
        \<and> PreparationApprovalStatus_Attestation s = Option.bind (sealedStatus p) PreparationApprovalStatus_Attestation)"
  by (auto simp: approval_Evaluate_def Let_def split: prod.splits option.splits)

lemma Evaluate_not_required: "Preparation_ApprovalPolicy p = None \<Longrightarrow> \<not> ar_Required (approval_Evaluate p approvals)"
  by (simp add: approval_Evaluate_def not_required_def)

lemma markApproval_parts [simp]:
  "Preparation_Spec (markApproval v res p) = Preparation_Spec p" "Preparation_ObjectMeta (markApproval v res p) = Preparation_ObjectMeta p"
  "PreparationStatus_Approval (Preparation_Status (markApproval v res p)) = (if ar_Required res then ar_Status res else None)"
  by (simp_all add: markApproval_def Set_condition_def preparation_setter_def Preparation_SetConditions_def on_prep_status_def)

text \<open>Counting the votes again leaves the machine where it is.\<close>

lemma counted_again:
  assumes "Preparation_ApprovalPolicy p = Some policy"
  shows "seal_state_of (markApproval v (approval_Evaluate p approvals) p) = seal_state_of p"
proof (cases "sealedStatus p")
  case None
  then have "seal_state_of p = VotesOpen" using sealed_state by simp
  then show ?thesis using Evaluate_required [OF assms, of approvals] None by (auto simp: seal_state_of_def)
next
  case (Some s)
  then have s: "PreparationStatus_Approval (Preparation_Status p) = Some s" "PreparationApprovalStatus_SealedTime s \<noteq> None"
    by (auto simp: sealedStatus_def split: option.splits if_splits)
  have "fst (approval_votes p policy approvals) = PreparationApprovalStatus_Votes s" using Some by (simp add: approval_votes_def Let_def)
  then show ?thesis using Evaluate_required [OF assms, of approvals] Some s by (auto simp: seal_state_of_def split: option.splits)
qed

lemma same_votes:
  assumes "Preparation_Spec q = Preparation_Spec p" "Preparation_ObjectMeta q = Preparation_ObjectMeta p" "sealedStatus q = sealedStatus p"
  shows "Preparation_ApprovalPolicy q = Preparation_ApprovalPolicy p" "approval_votes q policy approvals = approval_votes p policy approvals"
proof -
  show "Preparation_ApprovalPolicy q = Preparation_ApprovalPolicy p" by (simp add: Preparation_ApprovalPolicy_def assms)
  have "matches q = matches p" by (simp add: matches_def fun_eq_iff assms)
  then show "approval_votes q policy approvals = approval_votes p policy approvals" by (simp add: approval_votes_def assms(3))
qed

text \<open>The votes that are sealed were read from the API server, and approve the Preparation.\<close>

lemma seal_step_seal:
  assumes "seal v st = (res, st')" "Preparation_ApprovalPolicy (pc_prep st) = Some policy" "seal_state_of (pc_prep st) = VotesOpen"
    and "evidenceAttached v (pc_prep st)" "isPromotionTarget v (pc_prep st) = Inr True"
  shows "seal_step (conclusive_votes v (pc_prep st)) (seal_state_of (pc_prep st)) (seal_state_of (pc_prep st'))"
proof -
  let ?p = "pc_prep st"
  show ?thesis
  proof (cases "pw_live_Approvals v (prep_namespace ?p) (prep_name ?p)")
    case (Inl err)
    then show ?thesis using assms(1) by (auto simp: seal_def approvals_listed_def intro: stay)
  next
    case (Inr approvals)
    let ?res = "approval_Evaluate ?p approvals" and ?votes = "fst (approval_votes ?p policy approvals)"
    let ?q = "markApproval v ?res ?p"
    have st': "st' = (if ar_Approved ?res then st\<lparr>pc_prep := seal_votes v ?q\<rparr> else st\<lparr>pc_prep := ?q\<rparr>)"
      using assms(1) Inr by (auto simp: seal_def approvals_listed_def on_prep_def Let_def split: if_splits)
    show ?thesis
    proof (cases "ar_Approved ?res")
      case False
      then show ?thesis using st' counted_again [OF assms(2), of v approvals] by simp
    next
      case True
      then have "conclusive_votes v ?p ?votes"
        using Evaluate_required [OF assms(2), of approvals] assms(2,4,5) Inr by (auto simp: conclusive_votes_def)
      moreover have "seal_state_of (seal_votes v ?q) = VotesSealed ?votes (NewSealTime (pw_now v))"
        using Evaluate_required [OF assms(2), of approvals] by (auto simp: seal_votes_def seal_state_of_def on_prep_status_def)
      ultimately show ?thesis using st' True assms(3) by (auto intro: close)
    qed
  qed
qed

lemma archive_state:
  assumes "archive v st = (res, st')" "seal_state_of (pc_prep st) = VotesSealed votes t"
  shows "seal_step conclusive (seal_state_of (pc_prep st)) (seal_state_of (pc_prep st'))"
proof -
  have recorded: "seal_state_of (record_archive v a (pc_prep st)) = VotesArchived votes t a" for a
    using assms(2) by (auto simp: record_archive_def seal_state_of_def on_prep_status_def split: option.splits)
  show ?thesis
    using assms(1) by (auto simp: archive_def on_prep_def Let_def recorded assms(2) split: sum.splits prod.splits intro: store)
    (metis stay assms(2))+
qed

lemma attachEvidence_state:
  assumes "attachEvidence v st = (res, st')"
  shows "seal_state_of (pc_prep st') = seal_state_of (pc_prep st)"
proof -
  have provenance: "seal_state_of (pc_prep (snd (attach_provenance v client signer subject cfg d s))) = seal_state_of (pc_prep s)" for client signer subject cfg d s
    by (auto simp: attach_provenance_def on_prep_def Let_def split: sum.splits prod.splits provenance_failure.splits)
  have "seal_state_of (pc_prep (snd (sign_artifact v client signer subject s))) = seal_state_of (pc_prep s)" for client signer subject s
    by (auto simp: sign_artifact_def on_prep_def Let_def provenance split: sum.splits prod.splits provenance_failure.splits)
  then have "seal_state_of (pc_prep (snd (attachEvidence v st))) = seal_state_of (pc_prep st)"
    by (auto simp: attachEvidence_def on_prep_def split: sum.splits prod.splits)
  then show ?thesis using assms by simp
qed

text \<open>A Preparation that needs approvals goes through the states of its votes in order.\<close>

lemma reconcilePreparation_step:
  assumes "reconcilePreparation v st = (res, st')" "Preparation_ApprovalPolicy (pc_prep st) = Some policy" "condition_laws (pw_conditions v)"
  shows "seal_step (conclusive_votes v (pc_prep st)) (seal_state_of (pc_prep st)) (seal_state_of (pc_prep st'))"
proof (cases "evidenceAttached v (pc_prep st)")
  case False
  then show ?thesis using assms(1) attachEvidence_state [of v st res st'] by (simp add: reconcilePreparation_def stay)
next
  case evident: True
  let ?p = "pc_prep st"
  show ?thesis
  proof (cases "pw_list_Approvals v (prep_namespace ?p) (prep_name ?p)")
    case (Inl err)
    then show ?thesis using assms(1) evident by (auto simp: reconcilePreparation_def approvals_listed_def intro: stay)
  next
    case (Inr approvals)
    let ?res = "approval_Evaluate ?p approvals"
    let ?q = "markApproval v ?res ?p" and ?st = "st\<lparr>pc_prep := markApproval v (approval_Evaluate ?p approvals) ?p\<rparr>"
    have required: "ar_Required ?res" using Evaluate_required [OF assms(2)] by simp
    have same: "seal_state_of ?q = seal_state_of ?p" by (rule counted_again [OF assms(2)])
    note out = assms(1) [unfolded reconcilePreparation_def Let_def] and simps = evident Inr required approvals_listed_def on_prep_def
    consider (archive) "archive v ?st = (res, st')" "IsSealed ?q" "\<not> has_attestation ?q" | (kept) "seal_state_of (pc_prep st') = seal_state_of ?p"
      | (seal) "seal v ?st = (res, st')" "\<not> IsSealed ?q" "isPromotionTarget v ?q = Inr True"
      using out same by (auto simp: simps split: if_splits sum.splits bool.splits)
    then show ?thesis
    proof cases
      case archive
      then obtain votes t where "seal_state_of ?q = VotesSealed votes t"
        by (auto simp: IsSealed_def sealedStatus_def has_attestation_def seal_state_of_def split: option.splits if_splits)
      then show ?thesis using archive_state [OF archive(1), of votes t] same by simp
    next
      case kept
      then show ?thesis by (simp add: stay)
    next
      case seal
      have open_votes: "seal_state_of ?q = VotesOpen" using seal(2) sealed_state by (auto simp: IsSealed_def)
      then have "sealedStatus ?q = sealedStatus ?p" using same sealed_state by metis
      then have votes: "Preparation_ApprovalPolicy ?q = Some policy" "\<And>policy approvals. approval_votes ?q policy approvals = approval_votes ?p policy approvals"
        using same_votes [of ?q ?p] assms(2) by simp_all
      have "evidenceAttached v ?q" using evident assms(3) by simp
      moreover have "isPromotionTarget v ?q = isPromotionTarget v ?p" unfolding isPromotionTarget_def markApproval_parts ..
      then have "conclusive_votes v ?q = conclusive_votes v ?p"
        using votes(2) evident assms(2) votes(1)
        by (simp add: conclusive_votes_def fun_eq_iff assms(3))
      ultimately show ?thesis using seal_step_seal [of v ?st res st' policy] seal votes(1) open_votes same by simp
    qed
  qed
qed

section \<open>The Ready condition is kept true\<close>

lemma ready_evident_attach:
  assumes "condition_laws (pw_conditions v)" "ready_evident v (pc_prep st)"
  shows "ready_evident v (pc_prep (snd (attachEvidence v st)))"
proof -
  have provenance: "ready_evident v (pc_prep s) \<Longrightarrow> ready_evident v (pc_prep (snd (attach_provenance v client signer subject cfg d s)))" for client signer subject cfg d s
    by (auto simp: attach_provenance_def on_prep_def Let_def ready_evident_marks [OF assms(1)] split: sum.splits prod.splits provenance_failure.splits)
  have "ready_evident v (pc_prep s) \<Longrightarrow> ready_evident v (pc_prep (snd (sign_artifact v client signer subject s)))" for client signer subject s
    by (auto simp: sign_artifact_def on_prep_def Let_def ready_evident_marks [OF assms(1)] provenance
        split: sum.splits prod.splits provenance_failure.splits)
  then show ?thesis using assms(2)
    by (auto simp: attachEvidence_def on_prep_def ready_evident_marks [OF assms(1)] split: sum.splits prod.splits)
qed

lemma ready_evident_reconcile:
  assumes "condition_laws (pw_conditions v)" "ready_evident v (pc_prep st)" "reconcilePreparation v st = (res, st')"
  shows "ready_evident v (pc_prep st')"
proof -
  note kept = ready_evident_approval [OF assms(1)]
  have "ready_evident v (pc_prep s) \<Longrightarrow> ready_evident v (pc_prep (snd (archive v s)))" for s
    by (auto simp: archive_def on_prep_def Let_def kept split: sum.splits prod.splits)
  moreover have "ready_evident v (pc_prep s) \<Longrightarrow> ready_evident v (pc_prep (snd (seal v s)))" for s
    by (auto simp: seal_def on_prep_def Let_def kept split: sum.splits)
  ultimately have "ready_evident v (pc_prep (snd (reconcilePreparation v st)))"
    using assms(2) ready_evident_attach [OF assms(1,2)]
    by (auto simp: reconcilePreparation_def on_prep_def Let_def kept split: sum.splits)
  then show ?thesis using assms(3) by simp
qed

section \<open>The evidence is in the registry\<close>

lemma setAttestation_set:
  "ref \<in> set (setAttestation ref as)" "a \<in> set as \<Longrightarrow> AttestationReference_Type a \<noteq> AttestationReference_Type ref \<Longrightarrow> a \<in> set (setAttestation ref as)"
  by (induction as) auto

lemma markEvidenceAttached_ready:
  assumes "condition_laws (pw_conditions v)"
  shows "prep_ready v (markEvidenceAttached v signature provenance p) \<and> evidenceAttached v (markEvidenceAttached v signature provenance p)"
  by (simp add: markEvidenceAttached_def Let_def markEvidenceReady_ready [OF assms]) (simp add: evidenceAttached_def prep_condition_mark [OF assms])

lemma markEvidenceAttached_listed:
  assumes "AttestationReference_Type signature \<noteq> AttestationReference_Type provenance"
  shows "{signature, provenance} \<subseteq> set (PreparationStatus_Attestations (Preparation_Status (markEvidenceAttached v signature provenance p)))"
  using assms setAttestation_set by (auto simp: markEvidenceAttached_def Let_def on_prep_status_def)

text \<open>What is attached: the signature of the digest, and the provenance of the config the artifact has.\<close>

definition evidence_recorded ::
    "('client, 'trust, 'reg, 'ps) preparation_services \<Rightarrow> ('reg \<Rightarrow> string \<Rightarrow> string \<Rightarrow> string \<rightharpoonup> referrer_artifact) \<Rightarrow> 'trust Signer \<Rightarrow> 'reg \<Rightarrow>
     Preparation \<Rightarrow> 'reg \<Rightarrow> bool" where
  "evidence_recorded v referrers signer reg p reg' \<longleftrightarrow>
     (\<exists>client subject cfg signature provenance s t. rf_parse (pw_references v) (Artifact_OCIRef (prep_artifact p)) = Inr subject
        \<and> ReadConfig (pw_json v) (pw_client v client) subject reg = Inr cfg
        \<and> SignatureStatement (ref_Digest subject) = Inr signature \<and> ProvenanceStatement (pw_images v) subject cfg = Inr provenance
        \<and> held_statement referrers (pw_verify v) (sg_TrustSet signer) reg' subject SignaturePredicateType signature s
        \<and> held_statement referrers (pw_verify v) (sg_TrustSet signer) reg' subject ProvenancePredicateType provenance t
        \<and> {attestationReference AttestationTypeSignature subject s, attestationReference AttestationTypeProvenance subject t}
            \<subseteq> set (PreparationStatus_Attestations (Preparation_Status p)))"

lemma attachEvidence_Inr:
  assumes "attachEvidence v st = (Inr 0, st')" "pw_State v = Inr signer"
  obtains client subject cfg s t reg where
    "rf_parse (pw_references v) (Artifact_OCIRef (prep_artifact (pc_prep st))) = Inr subject"
    "ReadConfig (pw_json v) (pw_client v client) subject (pc_reg st) = Inr cfg"
    "Sign (pw_client v client) (pw_verify v) (rf_string (pw_references v)) signer subject
       (case Config_Created (pw_json v) cfg of Inr created \<Rightarrow> created | Inl _ \<Rightarrow> 0) (pc_reg st) = (Inr s, reg)"
    "Attach (pw_json v) (pw_images v) (pw_client v client) (pw_verify v) (rf_string (pw_references v)) signer subject cfg reg = (Inr t, pc_reg st')"
    "pc_prep st' = markEvidenceAttached v (attestationReference AttestationTypeSignature subject s)
       (attestationReference AttestationTypeProvenance subject t) (pc_prep st)"
proof -
  have retry: "signingKeyRetryInterval \<noteq> 0" by (simp add: signingKeyRetryInterval_def)
  from assms retry show thesis
    by (auto simp: attachEvidence_def artifactConnection_def sign_artifact_def attach_provenance_def on_prep_def Let_def
        split: sum.splits prod.splits provenance_failure.splits option.splits intro: that)
qed

lemma attachEvidence_recorded:
  assumes "attachEvidence v st = (Inr 0, st')" "pw_State v = Inr signer" "signer_laws (pw_verify v) signer" "condition_laws (pw_conditions v)"
    and "\<And>client. referrer_registry (pw_client v client) referrers"
  shows "evidence_recorded v referrers signer (pc_reg st) (pc_prep st') (pc_reg st') \<and> registry_grows referrers (pc_reg st) (pc_reg st')
    \<and> prep_ready v (pc_prep st') \<and> evidenceAttached v (pc_prep st')"
proof -
  obtain client subject cfg s t reg where subject: "rf_parse (pw_references v) (Artifact_OCIRef (prep_artifact (pc_prep st))) = Inr subject"
    and cfg: "ReadConfig (pw_json v) (pw_client v client) subject (pc_reg st) = Inr cfg"
    and sign: "Sign (pw_client v client) (pw_verify v) (rf_string (pw_references v)) signer subject
       (case Config_Created (pw_json v) cfg of Inr created \<Rightarrow> created | Inl _ \<Rightarrow> 0) (pc_reg st) = (Inr s, reg)"
    and attach: "Attach (pw_json v) (pw_images v) (pw_client v client) (pw_verify v) (rf_string (pw_references v)) signer subject cfg reg = (Inr t, pc_reg st')"
    and marked: "pc_prep st' = markEvidenceAttached v (attestationReference AttestationTypeSignature subject s)
       (attestationReference AttestationTypeProvenance subject t) (pc_prep st)"
    by (rule attachEvidence_Inr [OF assms(1,2)])
  note held = referrer_registry.push_held [OF assms(5), OF _ assms(3)]
  obtain signature where signature: "SignatureStatement (ref_Digest subject) = Inr signature"
      "held_statement referrers (pw_verify v) (sg_TrustSet signer) reg subject SignaturePredicateType signature s"
      "registry_grows referrers (pc_reg st) reg"
    using sign held by (fastforce simp: Sign_def SignatureStatement_def Push_def split: sum.splits)
  obtain provenance where provenance: "ProvenanceStatement (pw_images v) subject cfg = Inr provenance"
      "held_statement referrers (pw_verify v) (sg_TrustSet signer) (pc_reg st') subject ProvenancePredicateType provenance t"
      "registry_grows referrers reg (pc_reg st')"
    using attach held
    by (fastforce simp: Attach_def ProvenanceStatement_def Push_def Let_def map_sum_def apfst_def map_prod_def split: sum.splits prod.splits if_splits)
  have spec: "Preparation_Spec (pc_prep st') = Preparation_Spec (pc_prep st)" using marked by (simp add: markEvidenceAttached_def Let_def on_prep_status_def)
  have listed: "{attestationReference AttestationTypeSignature subject s, attestationReference AttestationTypeProvenance subject t}
      \<subseteq> set (PreparationStatus_Attestations (Preparation_Status (pc_prep st')))"
    unfolding marked by (rule markEvidenceAttached_listed) (simp add: attestationReference_def)
  have recorded: "evidence_recorded v referrers signer (pc_reg st) (pc_prep st') (pc_reg st')"
    unfolding evidence_recorded_def spec
    using subject cfg signature(1) provenance(1,2) held_statement_grows [OF signature(2) provenance(3)] listed by blast
  show ?thesis
    using recorded registry_grows_trans [OF signature(3) provenance(3)] markEvidenceAttached_ready [OF assms(4)] marked by simp
qed

end
