(* ===== verification/Preparation_Properties.thy ===== *)
theory Preparation_Properties
  imports Preparation_Safety Serving_Sample
begin

text \<open>
  The properties of Preparations, each for one request, with a world that computes: a registry of referrers, a
  signer, and an API that keeps what is written.
\<close>

section \<open>One request\<close>

text \<open>What an update of the finalizers keeps.\<close>

definition update_keeps :: "('client, 'trust, 'reg, 'ps) preparation_services \<Rightarrow> bool" where
  "update_keeps v \<longleftrightarrow>
     (\<forall>p api q api'. pw_update v p api = (Inr q, api') \<longrightarrow> Preparation_Spec q = Preparation_Spec p \<and> Preparation_Status q = Preparation_Status p
        \<and> (\<exists>version. Preparation_ObjectMeta q = (Preparation_ObjectMeta p)\<lparr>om_ResourceVersion := version\<rparr>))"

definition same_preparation :: "Preparation \<Rightarrow> Preparation \<Rightarrow> bool" where
  "same_preparation q p \<longleftrightarrow> Preparation_Spec q = Preparation_Spec p \<and> Preparation_Status q = Preparation_Status p
     \<and> (\<exists>version fs. Preparation_ObjectMeta q = (Preparation_ObjectMeta p)\<lparr>om_ResourceVersion := version, om_Finalizers := fs\<rparr>)"

lemma same_preparation_refl: "same_preparation p p"
proof -
  have "Preparation_ObjectMeta p = (Preparation_ObjectMeta p)\<lparr>om_ResourceVersion := om_ResourceVersion (Preparation_ObjectMeta p),
      om_Finalizers := om_Finalizers (Preparation_ObjectMeta p)\<rparr>" by simp
  then show ?thesis unfolding same_preparation_def by blast
qed

lemma same_preparation_facts:
  assumes "same_preparation q p"
  shows "seal_state_of q = seal_state_of p" "Preparation_ApprovalPolicy q = Preparation_ApprovalPolicy p" "ready_evident v q = ready_evident v p"
    "conclusive_votes v q = conclusive_votes v p"
proof -
  have spec: "Preparation_Spec q = Preparation_Spec p" and status: "Preparation_Status q = Preparation_Status p"
    and meta: "om_Namespace (Preparation_ObjectMeta q) = om_Namespace (Preparation_ObjectMeta p)" "om_Name (Preparation_ObjectMeta q) = om_Name (Preparation_ObjectMeta p)"
      "om_UID (Preparation_ObjectMeta q) = om_UID (Preparation_ObjectMeta p)"
    using assms by (auto simp: same_preparation_def)
  show "seal_state_of q = seal_state_of p" by (simp add: seal_state_of_def status)
  show policy: "Preparation_ApprovalPolicy q = Preparation_ApprovalPolicy p" by (simp add: Preparation_ApprovalPolicy_def spec)
  have condition: "prep_condition_true v q = prep_condition_true v p" by (simp add: prep_condition_true_def fun_eq_iff status)
  then show "ready_evident v q = ready_evident v p" by (simp add: ready_evident_def prep_ready_def evidenceAttached_def)
  have matching: "matches q = matches p" by (simp add: matches_def fun_eq_iff spec meta)
  have votes_sealed: "sealedStatus q = sealedStatus p" by (simp add: sealedStatus_def status)
  have votes: "approval_votes q = approval_votes p" by (intro ext) (simp only: approval_votes_def matching votes_sealed)
  have target: "isPromotionTarget v q = isPromotionTarget v p" unfolding isPromotionTarget_def spec meta ..
  show "conclusive_votes v q = conclusive_votes v p"
    by (simp add: conclusive_votes_def fun_eq_iff policy votes target meta evidenceAttached_def condition)
qed

lemma finalizers_updated:
  assumes "update_preparation v (on_prep (\<lambda>p. set_prep_finalizers (f p) p) s) = (err, s')" "update_keeps v"
  shows "same_preparation (pc_prep s') (pc_prep s)"
proof -
  let ?p = "set_prep_finalizers (f (pc_prep s)) (pc_prep s)"
  have same: "same_preparation ?p (pc_prep s)" "Preparation_Spec q = Preparation_Spec ?p \<Longrightarrow> Preparation_Status q = Preparation_Status ?p \<Longrightarrow>
      Preparation_ObjectMeta q = (Preparation_ObjectMeta ?p)\<lparr>om_ResourceVersion := version\<rparr> \<Longrightarrow> same_preparation q (pc_prep s)" for q version
  proof -
    have "Preparation_ObjectMeta ?p = (Preparation_ObjectMeta (pc_prep s))\<lparr>om_ResourceVersion := om_ResourceVersion (Preparation_ObjectMeta (pc_prep s)),
        om_Finalizers := f (pc_prep s)\<rparr>" by (simp add: set_prep_finalizers_def)
    then show "same_preparation ?p (pc_prep s)" unfolding same_preparation_def
      by (intro conjI exI [of _ "om_ResourceVersion (Preparation_ObjectMeta (pc_prep s))"] exI [of _ "f (pc_prep s)"]) (simp_all add: set_prep_finalizers_def)
  next
    assume "Preparation_Spec q = Preparation_Spec ?p" "Preparation_Status q = Preparation_Status ?p"
      "Preparation_ObjectMeta q = (Preparation_ObjectMeta ?p)\<lparr>om_ResourceVersion := version\<rparr>"
    then show "same_preparation q (pc_prep s)"
      unfolding same_preparation_def by (auto simp: set_prep_finalizers_def intro!: exI [of _ version] exI [of _ "f (pc_prep s)"])
  qed
  obtain r api where out: "pw_update v ?p (pc_api s) = (r, api)" by fastforce
  show ?thesis
  proof (cases r)
    case (Inl m)
    then show ?thesis using assms(1) out same(1) by (auto simp: update_preparation_def on_prep_def)
  next
    case (Inr q)
    then have "pc_prep s' = q" using assms(1) out by (auto simp: update_preparation_def on_prep_def)
    then show ?thesis using assms(2) out Inr same(2) unfolding update_keeps_def by blast
  qed
qed

text \<open>A request ends where a delete or the reconcile of the same Preparation does, but for the observed generation.\<close>

lemma body_cases:
  assumes "preparation_reconcile_body v st = (res, st')" "update_keeps v"
  obtains (unchanged) "same_preparation (pc_prep st') (pc_prep st)"
    | (reconciled) s where "same_preparation (pc_prep s) (pc_prep st)" "reconcilePreparation v s = (res, st')"
proof -
  obtain e1 s1 where removed: "update_preparation v (on_prep (\<lambda>p. set_prep_finalizers (filter (\<lambda>f. f \<noteq> Finalizer) (prep_finalizers p)) p) st) = (e1, s1)"
    by fastforce
  obtain e2 s2 where added: "update_preparation v (on_prep (\<lambda>p. set_prep_finalizers (prep_finalizers p @ [Finalizer]) p) st) = (e2, s2)" by fastforce
  note same = finalizers_updated [OF removed assms(2)] finalizers_updated [OF added assms(2)] same_preparation_refl [of "pc_prep st"]
  from assms(1) removed added consider "st' = st" | "st' = s1" | "st' = s2" | "reconcilePreparation v st = (res, st')" | "reconcilePreparation v s2 = (res, st')"
    by (auto simp: preparation_reconcile_body_def preparation_reconcileDelete_def split: if_splits option.splits)
  then show thesis using same unchanged reconciled by cases auto
qed

lemma request_cases:
  assumes "preparation_Reconcile v namespace name st = (res, st')" "pw_get v namespace name (pc_api st) = Inr p" "update_keeps v"
  obtains (unchanged) q g where "same_preparation q p" "pc_prep st' = on_prep_status (\<lambda>s. s\<lparr>PreparationStatus_ObservedGeneration := g\<rparr>) q"
    | (reconciled) s r s' g where "same_preparation (pc_prep s) p" "reconcilePreparation v s = (r, s')"
        "pc_prep st' = on_prep_status (\<lambda>s. s\<lparr>PreparationStatus_ObservedGeneration := g\<rparr>) (pc_prep s')"
proof -
  obtain r s' where body: "preparation_reconcile_body v (st\<lparr>pc_prep := p\<rparr>) = (r, s')" by fastforce
  have end_state: "pc_prep st' = on_prep_status (\<lambda>s. s\<lparr>PreparationStatus_ObservedGeneration := om_Generation (Preparation_ObjectMeta (pc_prep s'))\<rparr>) (pc_prep s')"
    using assms(1,2) body by (auto simp: preparation_Reconcile_def preparation_patchStatus_def on_prep_def Let_def split: if_splits prod.splits)
  show thesis
    by (rule body_cases [OF body assms(3)]) (use unchanged reconciled end_state in auto)
qed

lemma observed_generation [simp]:
  "seal_state_of (on_prep_status (\<lambda>s. s\<lparr>PreparationStatus_ObservedGeneration := g\<rparr>) p) = seal_state_of p"
  "ready_evident v (on_prep_status (\<lambda>s. s\<lparr>PreparationStatus_ObservedGeneration := g\<rparr>) p) = ready_evident v p"
  by (simp_all add: seal_state_of_def ready_evident_def prep_ready_def evidenceAttached_def prep_condition_true_def on_prep_status_def)

section \<open>A world that computes\<close>

definition sample_subject :: oci_reference where
  "sample_subject = \<lparr>ref_Registry = ''r'', ref_Repository = ''p'', ref_Tag = [], ref_Digest = ''sha256:ab''\<rparr>"

definition sample_references :: reference_library where
  "sample_references = \<lparr>rf_parse = \<lambda>_. Inr sample_subject, rf_encoded = \<lambda>_. Some ''abababababab'', rf_string = \<lambda>_. ''r/p@sha256:ab''\<rparr>"

text \<open>A signer whose bundle of a statement is the statement, and a key that verifies every bundle for what it is asked.\<close>

definition sample_signer :: "unit Signer" where
  "sample_signer = \<lparr>sg_KeyID = ''k'', sg_TrustSet = (), sg_Sign = Inr\<rparr>"

definition sample_verifier :: "unit verifier" where
  "sample_verifier _ payload _ predicateType = Inr \<lparr>vn_KeyID = ''k'', vn_PredicateType = predicateType, vn_Statement = payload\<rparr>"

lemma sample_signer_laws: "signer_laws sample_verifier sample_signer"
  by (simp add: signer_laws_def sample_verifier_def sample_signer_def)

definition sample_config_json :: json where
  "sample_config_json = JObj [(''schemaVersion'', JNum ''1''), (''createdTime'', JStr ''2026-01-02T03:04:05Z''),
     (''source'', JObj [(''oci'', JStr ''oci://r/src''), (''version'', JStr ''1.0''), (''digest'', JStr ''sha256:cd'')])]"

definition sample_preparation_services :: "(unit, unit, plain_registry, unit) preparation_services" where
  "sample_preparation_services =
     \<lparr>pw_conditions = list_library, pw_references = sample_references,
      pw_registry = \<lparr>rl_docker_config = \<lambda>_. Inr [], rl_url = \<lambda>_. None, rl_pem = \<lambda>_. True, rl_key_pair = \<lambda>_ _. None\<rparr>,
      pw_clients = \<lparr>ct_bundledHost = ''r'', ct_newClient = \<lambda>_. ()\<rparr>,
      pw_reader = \<lparr>rd_Registry = \<lambda>_ _. Inl (NotFound []), rd_Secret = \<lambda>_ _. Inl (NotFound [])\<rparr>,
      pw_client = \<lambda>_. plain_client (Some (PreparationConfigMediaType, ''config'')), pw_verify = sample_verifier, pw_State = Inr sample_signer,
      pw_json = \<lparr>js_parse = \<lambda>_. Inr sample_config_json, js_decode_error = \<lambda>_. [], js_time_error = \<lambda>_. []\<rparr>,
      pw_images = \<lparr>il_parse = \<lambda>s. Inr (s, None, None), il_invalid = \<lambda>_. None\<rparr>,
      pw_get_Order = \<lambda>_ _. Inl (NotFound []),
      pw_get_Serving = \<lambda>_ _. Inl (NotFound []), pw_list_Approvals = \<lambda>_ _. Inr [], pw_live_Approvals = \<lambda>_ _. Inr [], pw_now = 0,
      pw_get = \<lambda>_ _ _. Inr sample_candidate_prep, pw_update = \<lambda>p api. (Inr p, api), pw_patch_status = \<lambda>_ _ api. (Written, api)\<rparr>"

definition sample_preparation_state :: "(unit, plain_registry, unit) preparation_state" where
  "sample_preparation_state = \<lparr>pc_prep = sample_candidate_prep, pc_kept = Map.empty, pc_reg = [], pc_api = ()\<rparr>"

lemma sample_update_keeps: "update_keeps sample_preparation_services"
proof -
  have "\<exists>version. Preparation_ObjectMeta p = (Preparation_ObjectMeta p)\<lparr>om_ResourceVersion := version\<rparr>" for p
    by (intro exI [of _ "om_ResourceVersion (Preparation_ObjectMeta p)"]) simp
  then show ?thesis by (auto simp: update_keeps_def sample_preparation_services_def)
qed


lemma sample_location: "ParseLocation ''oci://r/p@sha256:ab'' = Inr \<lparr>lo_Host = ''r'', lo_Path = ''p''\<rparr>" by code_simp

definition sample_config :: Config where
  "sample_config = zero_config\<lparr>cf_SchemaVersion := 1, cf_CreatedTime := ''2026-01-02T03:04:05Z'',
     cf_Source := \<lparr>cs_OCI = ''oci://r/src'', cs_Version = ''1.0'', cs_Digest = ''sha256:cd'', cs_Verified = None\<rparr>\<rparr>"

lemma sample_decoded: "decode_struct config_field sample_config_json zero_config = Some sample_config"
proof -
  have one: "parse_int ''1'' = Some 1" by code_simp
  show ?thesis
    by (simp add: sample_config_json_def config_field_def source_field_def zero_config_def zero_source_def field_is_def ascii_upper_def sample_config_def one)
qed

lemma sample_config_fields: "cf_SchemaVersion sample_config = 1" "cf_CreatedTime sample_config = ''2026-01-02T03:04:05Z''"
  "cs_Digest (cf_Source sample_config) = ''sha256:cd''"
  by (simp_all add: sample_config_def)

lemma sample_parsed: "ParseConfig (pw_json sample_preparation_services) PreparationConfigMediaType ''config'' = Inr sample_config"
  by (simp add: ParseConfig_def sample_preparation_services_def sample_decoded sample_config_fields ConfigSchemaVersion_def)

lemma sample_created: "Config_Created (pw_json sample_preparation_services) sample_config = Inr 63902919845000000000"
proof -
  have "parse_rfc3339 ''2026-01-02T03:04:05Z'' = Some 63902919845000000000" by code_simp
  then show ?thesis by (simp add: Config_Created_def sample_config_fields)
qed

lemma sample_config_read: "ReadConfig (pw_json sample_preparation_services) (pw_client sample_preparation_services ()) sample_subject reg = Inr sample_config"
proof -
  have "rg_FetchConfig (pw_client sample_preparation_services ()) sample_subject reg = Inr (PreparationConfigMediaType, ''config'')"
    by (simp add: sample_preparation_services_def plain_client_def)
  then show ?thesis by (simp add: ReadConfig_def sample_parsed sample_created)
qed

lemma sample_connection:
  "\<exists>kept'. artifactConnection sample_preparation_services sample_candidate_prep kept = (Inr (pw_client sample_preparation_services ()), kept')"
proof -
  have url: "Artifact_OCIRef (prep_artifact sample_candidate_prep) = ''oci://r/p@sha256:ab''" "Artifact_RegistryRef (prep_artifact sample_candidate_prep) = None"
    by (simp_all add: sample_candidate_prep_def)
  have "Match [] ''oci://r/p@sha256:ab'' = Inr None" by (simp add: Match_def sample_location)
  then show ?thesis
    by (simp add: artifactConnection_def ConnectRecorded_def connect_fallback_def url Resolver_Scope_def order_registry_refs_def
        Scope_Connect.simps sample_location anonymous_def Let_def sample_preparation_services_def split: prod.splits)
qed

lemma sample_statements:
  obtains signature provenance where "SignatureStatement ''sha256:ab'' = Inr signature" "ProvenanceStatement lib sample_subject sample_config = Inr provenance"
proof -
  have digests: "trim_prefix ''sha256:'' ''sha256:ab'' = ''ab''" "has_prefix ''sha256:'' ''sha256:ab''" "trim_prefix ''sha256:'' ''sha256:cd'' = ''cd''"
    "has_prefix ''sha256:'' ''sha256:cd''" by code_simp+
  then have "\<exists>s. NewStatement name ''sha256:ab'' t x = Inr s" for name t x by (simp add: NewStatement_def Let_def)
  then show thesis using that digests by (force simp: SignatureStatement_def ProvenanceStatement_def sample_config_fields sample_subject_def Let_def)
qed

definition sample_referrer :: "string \<Rightarrow> time \<Rightarrow> string \<Rightarrow> referrer_artifact" where
  "sample_referrer t created statement = \<lparr>rf_ArtifactType = SigstoreBundleMediaType, rf_MediaType = SigstoreBundleMediaType, rf_Payload = statement,
     rf_Annotations = referrer_annotations Map.empty created t\<rparr>"

lemma sample_first_push:
  "PushAnnotated (plain_client config) sample_verifier str sample_signer sample_subject t statement created Map.empty []
    = (Inr (fresh_digest []), [((RepositoryReference sample_subject, fresh_digest []), (ref_Digest sample_subject, sample_referrer t created statement))])"
  by (simp add: PushAnnotated_def find_attestation_def plain_client_def plain_descriptors_def sample_signer_def sample_referrer_def)

lemma sample_found:
  assumes "length statement \<le> MaxReferrerPayloadSize"
  shows "find_attestation (plain_client config) sample_verifier str () sample_subject t (\<lambda>e. fe_Statement e = statement)
      [((RepositoryReference sample_subject, fresh_digest []), (ref_Digest sample_subject, sample_referrer t created statement))]
    = Inr \<lparr>fe_Digest = fresh_digest [], fe_KeyID = ''k'', fe_Statement = statement\<rparr>"
proof -
  let ?reg = "[((RepositoryReference sample_subject, fresh_digest []), (ref_Digest sample_subject, sample_referrer t created statement))]"
  let ?d = "\<lparr>ds_Digest = fresh_digest [], ds_Annotations = rf_Annotations (sample_referrer t created statement)\<rparr>"
  have "annotated_as t ?d" by (simp add: sample_referrer_def)
  moreover have "plain_descriptors sample_subject SigstoreBundleMediaType ?reg = [?d]"
    by (simp add: plain_descriptors_def plain_descriptor_def plain_referrers_def sample_referrer_def)
  moreover have "verifyReferrer (plain_client config) sample_verifier () sample_subject (fresh_digest []) t ?reg
      = Inr \<lparr>fe_Digest = fresh_digest [], fe_KeyID = ''k'', fe_Statement = statement\<rparr>"
    using assms by (simp add: verifyReferrer_def plain_client_def referrer_reference_def RepositoryReference_def sample_referrer_def sample_verifier_def)
  ultimately show ?thesis by (simp add: find_attestation_def plain_client_def)
qed

lemma fresh_digests: "fresh_digest [x] \<noteq> fresh_digest []"
proof -
  have "nat_dec 1 \<noteq> nat_dec 0" by code_simp
  then show ?thesis by (simp add: fresh_digest_def)
qed

lemma sample_second_push:
  assumes "t \<noteq> u" "reg = [((RepositoryReference sample_subject, fresh_digest []), (ref_Digest sample_subject, sample_referrer u created statement))]"
  shows "\<exists>a. PushAnnotated (plain_client config) sample_verifier str sample_signer sample_subject t statement' created' Map.empty reg
    = (Inr (fresh_digest reg), ((RepositoryReference sample_subject, fresh_digest reg), (ref_Digest sample_subject, a)) # reg)"
proof -
  have annotated: "annotated_as t \<lparr>ds_Digest = d, ds_Annotations = rf_Annotations (sample_referrer u c x)\<rparr> \<longleftrightarrow> u = t" for d c x
    by (simp add: sample_referrer_def annotated_as_def referrer_annotations_def AnnotationBundlePredicateType_def AnnotationInTotoPredicateType_def
        AnnotationCreated_def AnnotationBundleContent_def)
  have "filter (annotated_as t) (plain_descriptors sample_subject SigstoreBundleMediaType reg) = []"
    using assms(1) unfolding assms(2) by (simp add: plain_descriptors_def plain_descriptor_def plain_referrers_def annotated)
  moreover have "map_of reg (RepositoryReference sample_subject, fresh_digest reg) = None" using fresh_digests by (simp add: assms(2))
  ultimately show ?thesis by (simp add: PushAnnotated_def find_attestation_def plain_client_def sample_signer_def)
qed

lemma sample_attached:
  obtains st' where "reconcilePreparation sample_preparation_services sample_preparation_state = (Inr 0, st')"
proof -
  let ?v = sample_preparation_services
  have evidence: "\<not> evidenceAttached ?v sample_candidate_prep"
    by (simp add: evidenceAttached_def prep_condition_true_def sample_preparation_services_def sample_candidate_prep_def list_library_def find_first_def)
  obtain kept where connection: "artifactConnection ?v sample_candidate_prep Map.empty = (Inr (pw_client ?v ()), kept)"
    using sample_connection by blast
  obtain signature provenance where statements: "SignatureStatement ''sha256:ab'' = Inr signature"
      "ProvenanceStatement (pw_images ?v) sample_subject sample_config = Inr provenance" using sample_statements by metis
  have types: "ProvenancePredicateType \<noteq> SignaturePredicateType" by (simp add: ProvenancePredicateType_def SignaturePredicateType_def)
  let ?reg = "[((RepositoryReference sample_subject, fresh_digest []), (ref_Digest sample_subject,
    sample_referrer SignaturePredicateType 63902919845000000000 signature))]"
  obtain a where second: "PushAnnotated (plain_client (Some (PreparationConfigMediaType, ''config''))) sample_verifier (rf_string sample_references) sample_signer
      sample_subject ProvenancePredicateType provenance 63902919845000000000 Map.empty ?reg
      = (Inr (fresh_digest ?reg), ((RepositoryReference sample_subject, fresh_digest ?reg), (ref_Digest sample_subject, a)) # ?reg)"
    using sample_second_push [OF types refl] by blast
  have digest: "ref_Digest sample_subject = ''sha256:ab''" by (simp add: sample_subject_def)
  have services: "pw_State ?v = Inr sample_signer" "rf_parse (pw_references ?v) url = Inr sample_subject" "pw_verify ?v = sample_verifier"
    "rf_string (pw_references ?v) = rf_string sample_references" "pw_client ?v () = plain_client (Some (PreparationConfigMediaType, ''config''))" for url
    by (simp_all add: sample_preparation_services_def sample_references_def)
  have "fst (reconcilePreparation ?v sample_preparation_state) = Inr 0"
    using evidence connection statements second sample_config_read [of "[]"] digest
    by (simp add: reconcilePreparation_def sample_preparation_state_def attachEvidence_def services sign_artifact_def sample_created Sign_def Push_def
        sample_first_push attach_provenance_def Attach_def Let_def)
  then show thesis using that by (metis prod.collapse)
qed

section \<open>Properties\<close>

text \<open>C13: The votes of a Preparation that needs approvals are an abstract machine, which every request refines: it leaves
  them as they are, or seals open votes that the API server holds, that approve, while the evidence is attached
  and the Serving converges to the Preparation, or archives sealed votes as they are. Nothing reopens, changes
  or drops sealed votes, whatever Approvals are cast, removed or listed late, and whatever fails.\<close>

theorem preparation_votes_refine:
  assumes "preparation_Reconcile v namespace name st = (res, st')" "pw_get v namespace name (pc_api st) = Inr p" "update_keeps v"
    and "condition_laws (pw_conditions v)" "Preparation_ApprovalPolicy p = Some policy"
  shows "seal_step (conclusive_votes v p) (seal_state_of p) (seal_state_of (pc_prep st'))"
  using assms(1-3)
proof (cases rule: request_cases)
  case (unchanged q g)
  then show ?thesis by (simp add: same_preparation_facts)
next
  case (reconciled s r s' g)
  then show ?thesis
    using reconcilePreparation_step [OF reconciled(2) _ assms(4), of policy] same_preparation_facts(1,2) [OF reconciled(1)] same_preparation_facts(3,4) [OF reconciled(1), of v] assms(5) by simp
qed

definition sample_voted :: "(unit, unit, plain_registry, unit) preparation_services" where
  "sample_voted = sample_preparation_services\<lparr>pw_get := \<lambda>_ _ _. Inr crowd_preparation\<rparr>"

theorem preparation_votes_refine_witness:
  "seal_step (conclusive_votes sample_voted crowd_preparation) VotesOpen
     (seal_state_of (pc_prep (snd (preparation_Reconcile sample_voted ''ns'' ''p'' sample_preparation_state))))"
proof -
  have "seal_state_of crowd_preparation = VotesOpen" using sealed_state crowd_policy_of(2) by (simp add: IsSealed_def)
  moreover have "update_keeps sample_voted" using sample_update_keeps by (simp add: update_keeps_def sample_voted_def)
  moreover have "condition_laws (pw_conditions sample_voted)"
    by (simp add: sample_voted_def sample_preparation_services_def condition_laws_list_library)
  moreover have "pw_get sample_voted ''ns'' ''p'' (pc_api sample_preparation_state) = Inr crowd_preparation" by (simp add: sample_voted_def)
  ultimately show ?thesis
    using preparation_votes_refine [OF prod.collapse [symmetric], of sample_voted "''ns''" "''p''" sample_preparation_state crowd_preparation]
      crowd_policy_of(1) by simp
qed

text \<open>C14: A Preparation is Ready only when it is signed and its provenance is attached: every request keeps it so,
  whatever of it fails.\<close>

theorem preparation_ready_evident:
  assumes "preparation_Reconcile v namespace name st = (res, st')" "pw_get v namespace name (pc_api st) = Inr p" "update_keeps v"
    and "condition_laws (pw_conditions v)" "ready_evident v p"
  shows "ready_evident v (pc_prep st')"
  using assms(1-3)
proof (cases rule: request_cases)
  case (unchanged q g)
  then show ?thesis using assms(5) by (simp add: same_preparation_facts)
next
  case (reconciled s r s' g)
  then show ?thesis
    using ready_evident_reconcile [OF assms(4) _ reconciled(2)] same_preparation_facts(1,2) [OF reconciled(1)] same_preparation_facts(3,4) [OF reconciled(1), of v] assms(5) by simp
qed

theorem preparation_ready_evident_witness:
  "ready_evident sample_voted (pc_prep (snd (preparation_Reconcile sample_voted ''ns'' ''p'' sample_preparation_state)))"
proof -
  have conditions: "pw_conditions sample_voted = list_library" by (simp add: sample_voted_def sample_preparation_services_def)
  have "update_keeps sample_voted" using sample_update_keeps by (simp add: update_keeps_def sample_voted_def)
  moreover have "pw_get sample_voted ''ns'' ''p'' (pc_api sample_preparation_state) = Inr crowd_preparation" by (simp add: sample_voted_def)
  moreover have "ready_evident sample_voted crowd_preparation"
    by (simp add: ready_evident_def prep_ready_def prep_condition_true_def conditions crowd_preparation_def list_library_def find_first_def)
  ultimately show ?thesis
    using preparation_ready_evident [OF prod.collapse [symmetric], of sample_voted "''ns''" "''p''" sample_preparation_state crowd_preparation]
      conditions condition_laws_list_library by simp
qed

text \<open>C15: When a reconcile attaches the evidence of a Preparation, the registry holds two bundles that verify with the
  key: one over the signature statement of the artifact's digest and one over the provenance that is built from
  the config the artifact has; the status lists both at their digests, the Preparation is Ready, and nothing the
  registry held is lost.\<close>

theorem preparation_evidence_recorded:
  assumes "reconcilePreparation v st = (Inr 0, st')" "\<not> evidenceAttached v (pc_prep st)" "pw_State v = Inr signer"
    and "signer_laws (pw_verify v) signer" "condition_laws (pw_conditions v)" "\<And>client. referrer_registry (pw_client v client) referrers"
  shows "evidence_recorded v referrers signer (pc_reg st) (pc_prep st') (pc_reg st') \<and> registry_grows referrers (pc_reg st) (pc_reg st')
    \<and> prep_ready v (pc_prep st') \<and> evidenceAttached v (pc_prep st')"
proof -
  have "attachEvidence v st = (Inr 0, st')" using assms(1,2) by (simp add: reconcilePreparation_def)
  then show ?thesis by (rule attachEvidence_recorded [OF _ assms(3-6)])
qed

theorem preparation_evidence_recorded_witness:
  "\<exists>st'. reconcilePreparation sample_preparation_services sample_preparation_state = (Inr 0, st')
    \<and> prep_ready sample_preparation_services (pc_prep st')
    \<and> evidence_recorded sample_preparation_services plain_referrers sample_signer [] (pc_prep st') (pc_reg st')"
proof -
  obtain st' where st': "reconcilePreparation sample_preparation_services sample_preparation_state = (Inr 0, st')" by (rule sample_attached)
  have "\<not> evidenceAttached sample_preparation_services (pc_prep sample_preparation_state)"
    by (simp add: evidenceAttached_def prep_condition_true_def sample_preparation_services_def sample_preparation_state_def sample_candidate_prep_def
        list_library_def find_first_def)
  moreover have "referrer_registry (pw_client sample_preparation_services client) plain_referrers" for client
    by (simp add: sample_preparation_services_def plain_registry.referrer_registry_axioms)
  moreover have "pw_State sample_preparation_services = Inr sample_signer" "signer_laws (pw_verify sample_preparation_services) sample_signer"
    "condition_laws (pw_conditions sample_preparation_services)" "pc_reg sample_preparation_state = []"
    using sample_signer_laws by (simp_all add: sample_preparation_services_def condition_laws_list_library sample_preparation_state_def)
  ultimately show ?thesis using preparation_evidence_recorded [OF st', of sample_signer plain_referrers] st' by auto
qed

text \<open>C16: A push that is retried returns the referrer the first one left and pushes no other, even with another time and
  other annotations, when the registry can be read: so a crash after a push loses nothing and leaves no duplicates.\<close>

theorem push_found_again:
  assumes "referrer_registry client referrers"
    and "PushAnnotated client verifier ref_string signer subject predicateType statement created annotations reg = (Inr d, reg')"
    and "PushAnnotated client verifier ref_string signer subject predicateType statement created' annotations' reg' = (Inr d', reg'')"
    and "signer_laws verifier signer" "NewStatement name (ref_Digest subject) predicateType predicate = Inr statement"
    and "\<forall>sealed. sg_Sign signer statement = Inr sealed \<longrightarrow> length sealed \<le> MaxReferrerPayloadSize"
  shows "d' = d \<and> reg'' = reg'"
  using referrer_registry.push_retried [OF assms] .

theorem push_found_again_witness:
  "\<exists>signature d reg'. SignatureStatement ''sha256:ab'' = Inr signature
    \<and> PushAnnotated (plain_client None) sample_verifier (\<lambda>_. []) sample_signer sample_subject SignaturePredicateType signature 0 Map.empty [] = (Inr d, reg')
    \<and> PushAnnotated (plain_client None) sample_verifier (\<lambda>_. []) sample_signer sample_subject SignaturePredicateType signature 1 Map.empty reg' = (Inr d, reg')"
proof -
  obtain signature where signature: "SignatureStatement ''sha256:ab'' = Inr signature" by (rule sample_statements)
  have "length (case SignatureStatement ''sha256:ab'' of Inr s \<Rightarrow> s | Inl _ \<Rightarrow> []) \<le> 1000" by code_simp
  then have small: "length signature \<le> MaxReferrerPayloadSize" using signature by (simp add: MaxReferrerPayloadSize_def)
  have statement: "NewStatement [] (ref_Digest sample_subject) SignaturePredicateType (JObj []) = Inr signature"
    using signature by (simp add: SignatureStatement_def sample_subject_def)
  note first = sample_first_push [of None "\<lambda>_. []" SignaturePredicateType signature 0]
  let ?reg = "[((RepositoryReference sample_subject, fresh_digest []), (ref_Digest sample_subject, sample_referrer SignaturePredicateType 0 signature))]"
  have second: "PushAnnotated (plain_client None) sample_verifier (\<lambda>_. []) sample_signer sample_subject SignaturePredicateType signature 1 Map.empty ?reg
      = (Inr (fresh_digest []), ?reg)"
    using sample_found [OF small, of None "\<lambda>_. []" SignaturePredicateType 0] by (simp add: PushAnnotated_def sample_signer_def)
  show ?thesis
    using push_found_again [OF plain_registry.referrer_registry_axioms first second sample_signer_laws statement] small first second signature
    by (auto simp: sample_signer_def)
qed

end
