(* ===== verification/Oci_Graph.thy ===== *)
theory Oci_Graph
  imports Attestation
begin

text \<open>
  The graph of an OCI artifact (\<open>internal/oci/graph.go\<close>): the children of an index, the referrers and cosign's
  tags of every manifest, walked breadth first within limits. The nodes are kept in the order they are found,
  as a heap: what a node points to are positions in it. Reading the registry is an argument. The walk ends,
  keeps its limits, and attaches every node but the root exactly once.
\<close>

section \<open>Manifests and nodes\<close>

record oci_descriptor =
  od_MediaType :: string
  od_ArtifactType :: string
  od_Digest :: string
  od_Size :: int64
  od_Annotations :: "string \<rightharpoonup> string"
  od_Platform :: string

record manifest =
  mf_Descriptor :: oci_descriptor
  mf_Config :: "oci_descriptor option"
  mf_Layers :: "oci_descriptor list"
  mf_Manifests :: "oci_descriptor list"
  mf_Subject :: "oci_descriptor option"

definition maxGraphDepth :: nat where
  "maxGraphDepth = 4"

definition maxGraphNodes :: nat where
  "maxGraphNodes = 64"

datatype graph_link = LinkRoot | LinkSubject | LinkTag | LinkIndex

definition legacyTagSuffixes :: "string list" where
  "legacyTagSuffixes = [''.sig'', ''.att'', ''.sbom'']"

record walk_node =
  wn_Manifest :: manifest
  wn_Link :: graph_link
  wn_Tag :: string
  wn_Children :: "nat list"
  wn_Referrers :: "nat list"
  wn_Truncated :: bool
  wn_Err :: "string option"

abbreviation node_digest :: "walk_node \<Rightarrow> string" where
  "node_digest n \<equiv> od_Digest (mf_Descriptor (wn_Manifest n))"

record oci_graph =
  gr_Repository :: string
  gr_Tag :: string
  gr_TagDigest :: string
  gr_Nodes :: "walk_node list"

text \<open>What the walk reads: a list may come with an error.\<close>

record graph_client =
  gc_FetchManifest :: "oci_reference \<Rightarrow> string + manifest"
  gc_Resolve :: "oci_reference \<Rightarrow> string + oci_descriptor"
  gc_ListTags :: "oci_reference \<Rightarrow> string list \<times> string option"
  gc_ListReferrers :: "oci_reference \<Rightarrow> oci_descriptor list \<times> string option"

section \<open>The walk\<close>

definition join_error :: "string option \<Rightarrow> string option \<Rightarrow> string option" where
  "join_error a b =
     (case b of None \<Rightarrow> a | Some m \<Rightarrow> (case a of None \<Rightarrow> Some m | Some e \<Rightarrow> Some (e @ [CHR 0x0A] @ m)))"

definition compareCreated :: "oci_descriptor \<Rightarrow> oci_descriptor \<Rightarrow> int" where
  "compareCreated a b =
     cmp_or [str_compare (string_at (od_Annotations a) AnnotationCreated) (string_at (od_Annotations b) AnnotationCreated),
       str_compare (od_Digest a) (od_Digest b)]"

record candidate =
  ca_ref :: oci_reference
  ca_link :: graph_link
  ca_tag :: string

text \<open>The nodes found, in order, and the digests seen.\<close>

record walker =
  wk_nodes :: "walk_node list"
  wk_seen :: "string set"

definition on_node :: "nat \<Rightarrow> (walk_node \<Rightarrow> walk_node) \<Rightarrow> walker \<Rightarrow> walker" where
  "on_node i f w = w\<lparr>wk_nodes := (wk_nodes w)[i := f (wk_nodes w ! i)]\<rparr>"

definition byDigest :: "oci_reference \<Rightarrow> string \<Rightarrow> oci_reference" where
  "byDigest repo digest = repo\<lparr>ref_Digest := digest\<rparr>"

definition attached :: "graph_client \<Rightarrow> oci_reference \<Rightarrow> string list \<Rightarrow> walk_node \<Rightarrow> candidate list \<times> walk_node" where
  "attached client repo tags node =
     (let children = map (\<lambda>d. \<lparr>ca_ref = byDigest repo (od_Digest d), ca_link = LinkIndex, ca_tag = []\<rparr>) (mf_Manifests (wn_Manifest node));
          (referrers, err) = gc_ListReferrers client (byDigest repo (node_digest node));
          subjects = map (\<lambda>d. \<lparr>ca_ref = byDigest repo (od_Digest d), ca_link = LinkSubject, ca_tag = []\<rparr>) (sort_cmp compareCreated referrers);
          tagged = (if has_prefix ''sha256:'' (node_digest node)
            then map (\<lambda>tag. \<lparr>ca_ref = repo\<lparr>ref_Tag := tag\<rparr>, ca_link = LinkTag, ca_tag = tag\<rparr>)
              (filter (\<lambda>tag. tag \<in> set tags) (map (\<lambda>suffix. ''sha256-'' @ trim_prefix ''sha256:'' (node_digest node) @ suffix) legacyTagSuffixes))
            else [])
      in (children @ subjects @ tagged, node\<lparr>wn_Err := join_error (wn_Err node) err\<rparr>))"

text \<open>Adding a candidate below its parent: the position of the new node, or nothing when it was seen or could not be fetched.\<close>

definition add_candidate :: "graph_client \<Rightarrow> nat \<Rightarrow> candidate \<Rightarrow> walker \<Rightarrow> nat option \<times> walker" where
  "add_candidate client parent c w =
     (if ref_Digest (ca_ref c) \<noteq> [] \<and> ref_Digest (ca_ref c) \<in> wk_seen w then (None, w)
      else case gc_FetchManifest client (ca_ref c) of
        Inl err \<Rightarrow> (None, on_node parent (\<lambda>n. n\<lparr>wn_Err := join_error (wn_Err n) (Some err)\<rparr>) w)
      | Inr m \<Rightarrow>
          if od_Digest (mf_Descriptor m) \<in> wk_seen w then (None, w)
          else let j = length (wk_nodes w);
              w = on_node parent (\<lambda>n. if ca_link c = LinkIndex then n\<lparr>wn_Children := wn_Children n @ [j]\<rparr>
                else n\<lparr>wn_Referrers := wn_Referrers n @ [j]\<rparr>) w;
              node = \<lparr>wn_Manifest = m, wn_Link = ca_link c, wn_Tag = ca_tag c, wn_Children = [], wn_Referrers = [], wn_Truncated = False, wn_Err = None\<rparr>
            in (Some j, \<lparr>wk_nodes = wk_nodes w @ [node], wk_seen = insert (od_Digest (mf_Descriptor m)) (wk_seen w)\<rparr>))"

fun add_all :: "graph_client \<Rightarrow> nat \<Rightarrow> nat \<Rightarrow> candidate list \<Rightarrow> walker \<Rightarrow> nat list \<times> walker" where
  "add_all client depth parent [] w = ([], w)"
| "add_all client depth parent (c # cs) w =
     (if depth \<ge> maxGraphDepth \<or> length (wk_nodes w) \<ge> maxGraphNodes then ([], on_node parent (\<lambda>n. n\<lparr>wn_Truncated := True\<rparr>) w)
      else case add_candidate client parent c w of
        (None, w) \<Rightarrow> add_all client depth parent cs w
      | (Some j, w) \<Rightarrow> (case add_all client depth parent cs w of (js, w) \<Rightarrow> (j # js, w)))"

definition sort_referrers :: "nat \<Rightarrow> walker \<Rightarrow> walker" where
  "sort_referrers i w =
     on_node i (\<lambda>n. n\<lparr>wn_Referrers := sort_cmp (\<lambda>a b. compareCreated (mf_Descriptor (wn_Manifest (wk_nodes w ! a)))
       (mf_Descriptor (wn_Manifest (wk_nodes w ! b)))) (wn_Referrers n)\<rparr>) w"

lemma length_on_node [simp]: "length (wk_nodes (on_node i f w)) = length (wk_nodes w)"
  by (simp add: on_node_def)

lemma length_sort_referrers [simp]: "length (wk_nodes (sort_referrers i w)) = length (wk_nodes w)"
  by (simp add: sort_referrers_def)

lemma add_candidate_length:
  "add_candidate client parent c w = (r, w') \<Longrightarrow>
     length (wk_nodes w') = length (wk_nodes w) + (case r of None \<Rightarrow> 0 | Some _ \<Rightarrow> 1)"
  by (auto simp: add_candidate_def Let_def split: if_splits sum.splits)

lemma add_all_length:
  "add_all client depth parent cs w = (js, w') \<Longrightarrow>
     length (wk_nodes w') = length (wk_nodes w) + length js \<and> (js \<noteq> [] \<longrightarrow> length (wk_nodes w') \<le> maxGraphNodes)"
proof (induction cs arbitrary: w js)
  case (Cons c cs)
  obtain r w1 where add: "add_candidate client parent c w = (r, w1)" by fastforce
  show ?case using Cons.prems Cons.IH [of w1] add add_candidate_length [OF add]
    by (auto split: if_splits option.splits prod.splits)
qed simp

text \<open>One turn of the loop: the positions of what was attached to the node, at the next depth.\<close>

definition walk_turn :: "graph_client \<Rightarrow> oci_reference \<Rightarrow> string list \<Rightarrow> nat \<Rightarrow> nat \<Rightarrow> walker \<Rightarrow> nat list \<times> walker" where
  "walk_turn client repo tags i depth w =
     (case attached client repo tags (wk_nodes w ! i) of
        (candidates, node) \<Rightarrow>
         (case add_all client depth i candidates (on_node i (\<lambda>_. node) w) of (js, w) \<Rightarrow> (js, sort_referrers i w)))"

lemma walk_turn_length:
  "walk_turn client repo tags i depth w = (js, w') \<Longrightarrow>
     length (wk_nodes w') = length (wk_nodes w) + length js \<and> (js \<noteq> [] \<longrightarrow> length (wk_nodes w') \<le> maxGraphNodes)"
  using add_all_length by (fastforce simp: walk_turn_def split: prod.splits)

function walk_queue :: "graph_client \<Rightarrow> oci_reference \<Rightarrow> string list \<Rightarrow> (nat \<times> nat) list \<Rightarrow> walker \<Rightarrow> walker" where
  "walk_queue client repo tags [] w = w"
| "walk_queue client repo tags ((i, depth) # queue) w =
     (case walk_turn client repo tags i depth w of
        (js, w) \<Rightarrow> walk_queue client repo tags (queue @ map (\<lambda>j. (j, depth + 1)) js) w)"
  by pat_completeness auto

text \<open>Every turn takes a node off the queue, and a node that comes on it is one of the nodes there may still be.\<close>

termination
proof (relation "measure (\<lambda>(client, repo, tags, queue, w). length queue + (maxGraphNodes - length (wk_nodes w)))", goal_cases)
  case (2 client repo tags i depth queue w js w')
  then have "walk_turn client repo tags i depth w = (js, w')" by simp
  from walk_turn_length [OF this] show ?case by (cases "js = []") auto
qed simp

declare walk_queue.simps [simp del]

definition Walk :: "graph_client \<Rightarrow> oci_reference \<Rightarrow> string + oci_graph" where
  "Walk client ref =
     (case gc_FetchManifest client ref of
        Inl err \<Rightarrow> Inl err
      | Inr m \<Rightarrow>
          let repo = ref\<lparr>ref_Tag := [], ref_Digest := []\<rparr>;
              tag_digest = (if ref_Tag ref \<noteq> [] \<and> ref_Digest ref = [] then od_Digest (mf_Descriptor m)
                else if ref_Tag ref \<noteq> [] then (case gc_Resolve client (repo\<lparr>ref_Tag := ref_Tag ref\<rparr>) of Inr d \<Rightarrow> od_Digest d | Inl _ \<Rightarrow> [])
                else []);
              (tags, err) = gc_ListTags client repo;
              root = \<lparr>wn_Manifest = m, wn_Link = LinkRoot, wn_Tag = [], wn_Children = [], wn_Referrers = [], wn_Truncated = False,
                wn_Err = map_option ((@) ''listing tags for cosign signatures: '') err\<rparr>;
              w = walk_queue client repo tags [(0, 0)] \<lparr>wk_nodes = [root], wk_seen = {od_Digest (mf_Descriptor m)}\<rparr>
          in Inr \<lparr>gr_Repository = OCIRepositoryReference repo, gr_Tag = ref_Tag ref, gr_TagDigest = tag_digest, gr_Nodes = wk_nodes w\<rparr>)"

section \<open>What the walk keeps\<close>

definition attached_to :: "walk_node \<Rightarrow> nat list" where
  "attached_to n = wn_Children n @ wn_Referrers n"

text \<open>
  A well-formed graph: no manifest twice, and a tree over the nodes, which every node but the root is
  attached in once, by a node found before it and one level up, no deeper than the limit.
\<close>

definition below :: "(nat \<Rightarrow> nat) \<Rightarrow> nat \<Rightarrow> nat \<Rightarrow> nat \<Rightarrow> bool" where
  "below level m i j \<longleftrightarrow> i < j \<and> j < m \<and> level j = level i + 1 \<and> level j \<le> maxGraphDepth"

definition graph_wf :: "walk_node list \<Rightarrow> (nat \<Rightarrow> nat) \<Rightarrow> bool" where
  "graph_wf ns level \<longleftrightarrow> ns \<noteq> [] \<and> distinct (map node_digest ns) \<and> level 0 = 0
     \<and> (\<forall>i<length ns. \<forall>j\<in>set (attached_to (ns ! i)). below level (length ns) i j)
     \<and> mset (concat (map attached_to ns)) = mset [1..<length ns]"

lemma mset_concat_update:
  assumes "i < length ns"
  shows "mset (concat (map f (ns[i := n]))) + mset (f (ns ! i)) = mset (concat (map f ns)) + mset (f n)"
proof -
  have "mset (concat (map f ns)) = mset (concat (map f (take i ns @ ns ! i # drop (Suc i) ns)))"
    using id_take_nth_drop [OF assms] by simp
  then show ?thesis by (simp add: upd_conv_take_nth_drop [OF assms])
qed

lemma map_digest_update: "i < length ns \<Longrightarrow> node_digest n = node_digest (ns ! i) \<Longrightarrow> map node_digest (ns[i := n]) = map node_digest ns"
  by (simp add: map_update list_update_same_conv)

lemma graph_wf_update:
  assumes "graph_wf ns level" "i < length ns" "node_digest n = node_digest (ns ! i)" "mset (attached_to n) = mset (attached_to (ns ! i))"
  shows "graph_wf (ns[i := n]) level"
proof -
  have "set (attached_to n) = set (attached_to (ns ! i))" using assms(4) by (rule mset_eq_setD)
  then have "set (attached_to (ns[i := n] ! k)) = set (attached_to (ns ! k))" if "k < length ns" for k
    using that assms(2) by (simp add: nth_list_update)
  then have "\<forall>k<length (ns[i := n]). \<forall>j\<in>set (attached_to (ns[i := n] ! k)). below level (length (ns[i := n])) k j"
    using assms(1) by (simp add: graph_wf_def)
  moreover have "mset (concat (map attached_to (ns[i := n]))) = mset (concat (map attached_to ns))"
    using mset_concat_update [OF assms(2), of attached_to n] assms(4) by simp
  ultimately show ?thesis using assms(1) map_digest_update [of i ns n, OF assms(2,3)] unfolding graph_wf_def by simp
qed

lemma graph_wf_add:
  assumes "graph_wf ns level" "i < length ns" "level i < maxGraphDepth" "node_digest n = node_digest (ns ! i)"
    and "mset (attached_to n) = add_mset (length ns) (mset (attached_to (ns ! i)))"
    and "attached_to new = []" "node_digest new \<notin> node_digest ` set ns"
  shows "graph_wf (ns[i := n] @ [new]) (level(length ns := level i + 1))"
proof -
  let ?ns = "ns[i := n] @ [new]" and ?level = "level(length ns := level i + 1)"
  have attached: "set (attached_to n) = insert (length ns) (set (attached_to (ns ! i)))"
    using arg_cong [OF assms(5), of set_mset] by simp
  have nonempty: "0 < length ns" using assms(1) by (simp add: graph_wf_def)
  have "\<forall>k<length ?ns. \<forall>j\<in>set (attached_to (?ns ! k)). below ?level (length ?ns) k j"
  proof (intro allI impI ballI)
    fix k j assume k: "k < length ?ns" and j: "j \<in> set (attached_to (?ns ! k))"
    show "below ?level (length ?ns) k j"
    proof (cases "k = length ns")
      case True
      then show ?thesis using j assms(6) by (simp add: nth_append)
    next
      case False
      then have "k < length ns" using k by simp
      then have "j \<in> set (attached_to (ns ! k)) \<or> j = length ns \<and> k = i"
        using j attached assms(2) by (cases "k = i") (auto simp: nth_append)
      then show ?thesis
      proof
        assume "j \<in> set (attached_to (ns ! k))"
        then have "below level (length ns) k j" using assms(1) \<open>k < length ns\<close> by (simp add: graph_wf_def)
        then show ?thesis using \<open>k < length ns\<close> by (simp add: below_def)
      next
        assume "j = length ns \<and> k = i"
        then show ?thesis using assms(2,3) by (simp add: below_def)
      qed
    qed
  qed
  moreover have "mset (concat (map attached_to ?ns)) = mset [1..<length ?ns]"
    using assms(1,5,6) mset_concat_update [OF assms(2), of attached_to n] nonempty by (simp add: graph_wf_def Suc_le_eq)
  moreover have "distinct (map node_digest ?ns)"
  proof -
    have "map node_digest ?ns = map node_digest ns @ [node_digest new]" using map_digest_update [OF assms(2,4)] by simp
    then show ?thesis using assms(1,7) by (simp add: graph_wf_def)
  qed
  moreover have "?ns \<noteq> []" "?level 0 = 0" using assms(1) nonempty by (simp_all add: graph_wf_def)
  ultimately show ?thesis unfolding graph_wf_def by blast
qed

text \<open>The walker keeps its nodes well-formed and remembers the digests of exactly these; the queue holds nodes with their level.\<close>

definition walker_wf :: "walker \<Rightarrow> (nat \<Rightarrow> nat) \<Rightarrow> bool" where
  "walker_wf w level \<longleftrightarrow> graph_wf (wk_nodes w) level \<and> wk_seen w = node_digest ` set (wk_nodes w)"

definition queue_wf :: "walker \<Rightarrow> (nat \<Rightarrow> nat) \<Rightarrow> (nat \<times> nat) list \<Rightarrow> bool" where
  "queue_wf w level queue \<longleftrightarrow> (\<forall>(i, depth)\<in>set queue. i < length (wk_nodes w) \<and> level i = depth)"

text \<open>Nodes that were there keep their level.\<close>

definition keeps_levels :: "walker \<Rightarrow> (nat \<Rightarrow> nat) \<Rightarrow> walker \<Rightarrow> (nat \<Rightarrow> nat) \<Rightarrow> bool" where
  "keeps_levels w level w' level' \<longleftrightarrow> length (wk_nodes w) \<le> length (wk_nodes w') \<and> (\<forall>i<length (wk_nodes w). level' i = level i)"

lemma keeps_levels_refl [simp]: "keeps_levels w level w level"
  by (simp add: keeps_levels_def)

lemma keeps_levels_trans: "keeps_levels a l b m \<Longrightarrow> keeps_levels b m c n \<Longrightarrow> keeps_levels a l c n"
  by (simp add: keeps_levels_def)

lemma queue_wf_append [simp]: "queue_wf w level (a @ b) \<longleftrightarrow> queue_wf w level a \<and> queue_wf w level b"
  by (simp add: queue_wf_def ball_Un)

lemma queue_wf_keeps: "queue_wf w level queue \<Longrightarrow> keeps_levels w level w' level' \<Longrightarrow> queue_wf w' level' queue"
  by (fastforce simp: queue_wf_def keeps_levels_def)

lemma walker_wf_on_node:
  assumes "walker_wf w level" "i < length (wk_nodes w)" "node_digest (f (wk_nodes w ! i)) = node_digest (wk_nodes w ! i)"
    and "mset (attached_to (f (wk_nodes w ! i))) = mset (attached_to (wk_nodes w ! i))"
  shows "walker_wf (on_node i f w) level \<and> keeps_levels w level (on_node i f w) level"
proof -
  have "node_digest ` set ((wk_nodes w)[i := f (wk_nodes w ! i)]) = node_digest ` set (wk_nodes w)"
    using map_digest_update [OF assms(2), of "f (wk_nodes w ! i)"] assms(3) by (metis list.set_map)
  then show ?thesis
    using assms graph_wf_update [of "wk_nodes w" level i "f (wk_nodes w ! i)"] by (simp add: walker_wf_def on_node_def keeps_levels_def)
qed

lemma attached_node:
  "attached client repo tags n = (cs, n') \<Longrightarrow> node_digest n' = node_digest n \<and> attached_to n' = attached_to n"
  by (auto simp: attached_def attached_to_def Let_def split: prod.splits)

lemma sort_referrers_wf:
  assumes "walker_wf w level" "i < length (wk_nodes w)"
  shows "walker_wf (sort_referrers i w) level \<and> keeps_levels w level (sort_referrers i w) level"
  unfolding sort_referrers_def by (rule walker_wf_on_node [OF assms]) (simp_all add: attached_to_def)

lemma add_candidate_wf:
  assumes "add_candidate client i c w = (r, w')" "walker_wf w level" "i < length (wk_nodes w)" "level i < maxGraphDepth"
  shows "\<exists>level'. walker_wf w' level' \<and> keeps_levels w level w' level' \<and> queue_wf w' level' (map (\<lambda>j. (j, level i + 1)) (case r of None \<Rightarrow> [] | Some j \<Rightarrow> [j]))"
proof (cases "r = None")
  case True
  have "walker_wf w' level \<and> keeps_levels w level w' level"
  proof (cases "w' = w")
    case False
    then obtain err where w': "w' = on_node i (\<lambda>n. n\<lparr>wn_Err := join_error (wn_Err n) (Some err)\<rparr>) w"
      using assms(1) True by (auto simp: add_candidate_def Let_def split: if_splits sum.splits)
    show ?thesis unfolding w' by (rule walker_wf_on_node [OF assms(2,3)]) (simp_all add: attached_to_def)
  qed (simp add: assms(2))
  then show ?thesis using True by (auto simp: queue_wf_def)
next
  case False
  let ?j = "length (wk_nodes w)"
  let ?n = "if ca_link c = LinkIndex then (wk_nodes w ! i)\<lparr>wn_Children := wn_Children (wk_nodes w ! i) @ [?j]\<rparr>
    else (wk_nodes w ! i)\<lparr>wn_Referrers := wn_Referrers (wk_nodes w ! i) @ [?j]\<rparr>"
  obtain m where m: "od_Digest (mf_Descriptor m) \<notin> wk_seen w" and r: "r = Some ?j"
    and w': "w' = \<lparr>wk_nodes = (wk_nodes w)[i := ?n] @ [\<lparr>wn_Manifest = m, wn_Link = ca_link c, wn_Tag = ca_tag c, wn_Children = [],
        wn_Referrers = [], wn_Truncated = False, wn_Err = None\<rparr>], wk_seen = insert (od_Digest (mf_Descriptor m)) (wk_seen w)\<rparr>"
    using assms(1) False by (auto simp: add_candidate_def on_node_def Let_def split: if_splits sum.splits)
  have n: "node_digest ?n = node_digest (wk_nodes w ! i)" "mset (attached_to ?n) = add_mset ?j (mset (attached_to (wk_nodes w ! i)))"
    by (simp_all add: attached_to_def)
  have wf: "graph_wf (wk_nodes w) level" and seen: "wk_seen w = node_digest ` set (wk_nodes w)" using assms(2) by (simp_all add: walker_wf_def)
  let ?new = "\<lparr>wn_Manifest = m, wn_Link = ca_link c, wn_Tag = ca_tag c, wn_Children = [], wn_Referrers = [], wn_Truncated = False, wn_Err = None\<rparr>"
  have "attached_to ?new = []" "node_digest ?new \<notin> node_digest ` set (wk_nodes w)" using m seen by (simp_all add: attached_to_def)
  then have "graph_wf (wk_nodes w') (level(?j := level i + 1))" unfolding w' using graph_wf_add [OF wf assms(3,4) n] by simp
  moreover have "wk_seen w' = node_digest ` set (wk_nodes w')"
  proof -
    have "node_digest ` set ((wk_nodes w)[i := ?n]) = node_digest ` set (wk_nodes w)"
      using map_digest_update [OF assms(3) n(1)] by (metis list.set_map)
    then show ?thesis unfolding w' seen by simp
  qed
  moreover have "keeps_levels w level w' (level(?j := level i + 1))" by (simp add: keeps_levels_def w')
  moreover have "queue_wf w' (level(?j := level i + 1)) [(?j, level i + 1)]" by (simp add: queue_wf_def w')
  ultimately have "walker_wf w' (level(?j := level i + 1)) \<and> keeps_levels w level w' (level(?j := level i + 1))
      \<and> queue_wf w' (level(?j := level i + 1)) (map (\<lambda>j. (j, level i + 1)) (case r of None \<Rightarrow> [] | Some j \<Rightarrow> [j]))"
    by (simp add: walker_wf_def r)
  then show ?thesis by blast
qed

lemma add_all_wf:
  assumes "add_all client (level i) i cs w = (js, w')" "walker_wf w level" "i < length (wk_nodes w)" 
  shows "\<exists>level'. walker_wf w' level' \<and> keeps_levels w level w' level' \<and> queue_wf w' level' (map (\<lambda>j. (j, level i + 1)) js)"
  using assms
proof (induction cs arbitrary: w js level)
  case Nil
  then show ?case by (auto simp: queue_wf_def)
next
  case (Cons c cs)
  show ?case
  proof (cases "level i \<ge> maxGraphDepth \<or> length (wk_nodes w) \<ge> maxGraphNodes")
    case True
    then have "w' = on_node i (\<lambda>n. n\<lparr>wn_Truncated := True\<rparr>) w" "js = []" using Cons.prems(1) by auto
    then show ?thesis
      using walker_wf_on_node [OF Cons.prems(2,3), of "\<lambda>n. n\<lparr>wn_Truncated := True\<rparr>"] by (auto simp: attached_to_def queue_wf_def)
  next
    case False
    obtain r w1 where add: "add_candidate client i c w = (r, w1)" by fastforce
    obtain level1 where l1: "walker_wf w1 level1" "keeps_levels w level w1 level1"
        "queue_wf w1 level1 (map (\<lambda>j. (j, level i + 1)) (case r of None \<Rightarrow> [] | Some j \<Rightarrow> [j]))"
      using add_candidate_wf [OF add Cons.prems(2,3)] False by auto
    have same: "level1 i = level i" "i < length (wk_nodes w1)" using l1(2) Cons.prems(3) by (auto simp: keeps_levels_def)
    obtain ks where rest: "add_all client (level1 i) i cs w1 = (ks, w')" and js: "js = (case r of None \<Rightarrow> [] | Some j \<Rightarrow> [j]) @ ks"
      using Cons.prems(1) False add same by (auto split: option.splits prod.splits)
    obtain level2 where l2: "walker_wf w' level2" "keeps_levels w1 level1 w' level2" "queue_wf w' level2 (map (\<lambda>j. (j, level1 i + 1)) ks)"
      using Cons.IH [OF rest l1(1) same(2)] by blast
    have "queue_wf w' level2 (map (\<lambda>j. (j, level i + 1)) js)"
      using queue_wf_keeps [OF l1(3) l2(2)] l2(3) same(1) js by simp
    then show ?thesis using l2(1) keeps_levels_trans [OF l1(2) l2(2)] by blast
  qed
qed

lemma walk_turn_wf:
  assumes "walk_turn client repo tags i depth w = (js, w')" "walker_wf w level" "i < length (wk_nodes w)" "level i = depth"
  shows "\<exists>level'. walker_wf w' level' \<and> keeps_levels w level w' level' \<and> queue_wf w' level' (map (\<lambda>j. (j, depth + 1)) js)"
proof -
  obtain cs n where found: "attached client repo tags (wk_nodes w ! i) = (cs, n)" by fastforce
  let ?w = "on_node i (\<lambda>_. n) w"
  have w: "walker_wf ?w level" "keeps_levels w level ?w level"
    using walker_wf_on_node [OF assms(2,3), of "\<lambda>_. n"] attached_node [OF found] by auto
  obtain w1 where added: "add_all client depth i cs ?w = (js, w1)" and w': "w' = sort_referrers i w1"
    using assms(1) found by (auto simp: walk_turn_def split: prod.splits)
  obtain level' where l: "walker_wf w1 level'" "keeps_levels ?w level w1 level'" "queue_wf w1 level' (map (\<lambda>j. (j, depth + 1)) js)"
    using add_all_wf [of client level i cs ?w js w1] added w(1) assms(3,4) by auto
  have "i < length (wk_nodes w1)" using l(2) assms(3) by (simp add: keeps_levels_def)
  from sort_referrers_wf [OF l(1) this] show ?thesis
    using l(3) keeps_levels_trans [OF w(2) l(2)] keeps_levels_trans queue_wf_keeps unfolding w' by blast
qed

lemma walk_queue_wf:
  "walker_wf w level \<Longrightarrow> queue_wf w level queue \<Longrightarrow> length (wk_nodes w) \<le> maxGraphNodes \<Longrightarrow>
     \<exists>level'. walker_wf (walk_queue client repo tags queue w) level' \<and> length (wk_nodes (walk_queue client repo tags queue w)) \<le> maxGraphNodes"
proof (induction client repo tags queue w arbitrary: level rule: walk_queue.induct)
  case (2 client repo tags i depth queue w)
  obtain js w1 where turn: "walk_turn client repo tags i depth w = (js, w1)" by fastforce
  have i: "i < length (wk_nodes w)" "level i = depth" using "2.prems"(2) by (auto simp: queue_wf_def)
  obtain level1 where l: "walker_wf w1 level1" "keeps_levels w level w1 level1" "queue_wf w1 level1 (map (\<lambda>j. (j, depth + 1)) js)"
    using walk_turn_wf [OF turn "2.prems"(1) i] by blast
  have "queue_wf w level queue" using "2.prems"(2) by (simp add: queue_wf_def)
  then have "queue_wf w1 level1 (queue @ map (\<lambda>j. (j, depth + 1)) js)" using queue_wf_keeps [OF _ l(2)] l(3) by simp
  moreover have "length (wk_nodes w1) \<le> maxGraphNodes" using walk_turn_length [OF turn] "2.prems"(3) by (cases "js = []") auto
  ultimately show ?case using "2.IH" [OF turn [symmetric] l(1)] turn by (simp add: walk_queue.simps)
qed (auto simp: walk_queue.simps)

section \<open>What the walk leaves out\<close>

text \<open>Nodes only gain: what they are of stays, and a mark once set is kept.\<close>

definition node_kept :: "walk_node \<Rightarrow> walk_node \<Rightarrow> bool" where
  "node_kept n n' \<longleftrightarrow> wn_Manifest n' = wn_Manifest n \<and> (wn_Truncated n \<longrightarrow> wn_Truncated n') \<and> (wn_Err n \<noteq> None \<longrightarrow> wn_Err n' \<noteq> None)"

definition grows :: "walker \<Rightarrow> walker \<Rightarrow> bool" where
  "grows w w' \<longleftrightarrow> length (wk_nodes w) \<le> length (wk_nodes w') \<and> wk_seen w \<subseteq> wk_seen w'
     \<and> (\<forall>i<length (wk_nodes w). node_kept (wk_nodes w ! i) (wk_nodes w' ! i))"

lemma grows_refl [simp]: "grows w w"
  by (simp add: grows_def node_kept_def)

lemma grows_trans: "grows a b \<Longrightarrow> grows b c \<Longrightarrow> grows a c"
  by (fastforce simp: grows_def node_kept_def)

lemma grows_on_node: "node_kept (wk_nodes w ! i) (f (wk_nodes w ! i)) \<Longrightarrow> grows w (on_node i f w)"
proof -
  assume kept: "node_kept (wk_nodes w ! i) (f (wk_nodes w ! i))"
  have "node_kept (wk_nodes w ! k) ((wk_nodes w)[i := f (wk_nodes w ! i)] ! k)" if "k < length (wk_nodes w)" for k
    using kept that by (cases "k = i") (simp_all add: node_kept_def)
  then show ?thesis by (simp add: grows_def on_node_def)
qed

lemma join_error_set [simp]: "(\<exists>m. join_error a b = Some m) \<longleftrightarrow> a \<noteq> None \<or> b \<noteq> None"
  by (simp add: join_error_def split: option.split)

lemma grows_append: "grows w w' \<Longrightarrow> wk_seen w' \<subseteq> seen \<Longrightarrow> grows w \<lparr>wk_nodes = wk_nodes w' @ ns, wk_seen = seen\<rparr>"
  by (auto simp: grows_def nth_append)

lemma add_candidate_grows:
  assumes "add_candidate client i c w = (r, w')"
  shows "grows w w'"
proof -
  have "grows w (on_node i (\<lambda>n. n\<lparr>wn_Err := join_error (wn_Err n) (Some err)\<rparr>) w)" for err
    by (rule grows_on_node) (simp add: node_kept_def)
  moreover have "grows w (on_node i (\<lambda>n. if link = LinkIndex then n\<lparr>wn_Children := wn_Children n @ [j]\<rparr>
      else n\<lparr>wn_Referrers := wn_Referrers n @ [j]\<rparr>) w)" for link j
    by (rule grows_on_node) (simp add: node_kept_def)
  moreover have "wk_seen (on_node i f w) = wk_seen w" for f by (simp add: on_node_def)
  ultimately show ?thesis using assms
    by (auto simp: add_candidate_def Let_def split: if_splits sum.splits intro!: grows_append)
qed

lemma add_all_grows: "add_all client depth i cs w = (js, w') \<Longrightarrow> grows w w'"
proof (induction cs arbitrary: w js)
  case (Cons c cs)
  have "grows w (on_node i (\<lambda>n. n\<lparr>wn_Truncated := True\<rparr>) w)" by (rule grows_on_node) (simp add: node_kept_def)
  then show ?case using Cons grows_trans [OF add_candidate_grows]
    by (fastforce split: if_splits prod.splits option.splits)
qed simp

text \<open>
  A candidate of a node is accounted for: its digest, or that of the manifest it stands for, has been seen; or
  the node says that it is cut or that something of it could not be read.
\<close>

definition accounted :: "graph_client \<Rightarrow> string set \<Rightarrow> walk_node \<Rightarrow> candidate \<Rightarrow> bool" where
  "accounted client seen n c \<longleftrightarrow> wn_Truncated n \<or> wn_Err n \<noteq> None
     \<or> ref_Digest (ca_ref c) \<noteq> [] \<and> ref_Digest (ca_ref c) \<in> seen
     \<or> (\<exists>m. gc_FetchManifest client (ca_ref c) = Inr m \<and> od_Digest (mf_Descriptor m) \<in> seen)"

lemma accounted_kept: "accounted client seen n c \<Longrightarrow> node_kept n n' \<Longrightarrow> seen \<subseteq> seen' \<Longrightarrow> accounted client seen' n' c"
  by (auto simp: accounted_def node_kept_def)

lemma accounted_grows:
  assumes "accounted client (wk_seen w) (wk_nodes w ! i) c" "grows w w'" "i < length (wk_nodes w)"
  shows "accounted client (wk_seen w') (wk_nodes w' ! i) c"
  using accounted_kept [OF assms(1)] assms(2,3) by (simp add: grows_def)

lemma add_candidate_accounted:
  assumes "add_candidate client i c w = (r, w')" "i < length (wk_nodes w)"
  shows "accounted client (wk_seen w') (wk_nodes w' ! i) c"
  using assms by (auto simp: add_candidate_def accounted_def on_node_def Let_def split: if_splits sum.splits)

lemma add_all_accounted:
  "add_all client depth i cs w = (js, w') \<Longrightarrow> i < length (wk_nodes w) \<Longrightarrow> c \<in> set cs \<Longrightarrow> accounted client (wk_seen w') (wk_nodes w' ! i) c"
proof (induction cs arbitrary: w js)
  case (Cons d cs)
  show ?case
  proof (cases "depth \<ge> maxGraphDepth \<or> length (wk_nodes w) \<ge> maxGraphNodes")
    case True
    then have "w' = on_node i (\<lambda>n. n\<lparr>wn_Truncated := True\<rparr>) w" using Cons.prems(1) by auto
    then show ?thesis using Cons.prems(2) by (simp add: accounted_def on_node_def)
  next
    case False
    obtain r w1 where add: "add_candidate client i d w = (r, w1)" by fastforce
    obtain ks where rest: "add_all client depth i cs w1 = (ks, w')"
      using Cons.prems(1) False add by (auto split: option.splits prod.splits)
    have i: "i < length (wk_nodes w1)" using add_candidate_grows [OF add] Cons.prems(2) by (simp add: grows_def)
    show ?thesis
    proof (cases "c = d")
      case True
      then show ?thesis using accounted_grows [OF add_candidate_accounted [OF add Cons.prems(2)] add_all_grows [OF rest] i] by simp
    next
      case False
      then show ?thesis using Cons.IH [OF rest i] Cons.prems(3) by simp
    qed
  qed
qed simp

text \<open>The nodes that one turn adds are the ones it puts on the queue.\<close>

lemma add_all_positions: "add_all client depth i cs w = (js, w') \<Longrightarrow> js = [length (wk_nodes w)..<length (wk_nodes w')]"
proof (induction cs arbitrary: w js)
  case (Cons c cs)
  show ?case
  proof (cases "depth \<ge> maxGraphDepth \<or> length (wk_nodes w) \<ge> maxGraphNodes")
    case True
    then show ?thesis using Cons.prems by auto
  next
    case False
    obtain r w1 where add: "add_candidate client i c w = (r, w1)" by fastforce
    obtain ks where rest: "add_all client depth i cs w1 = (ks, w')" and js: "js = (case r of None \<Rightarrow> [] | Some j \<Rightarrow> [j]) @ ks"
      using Cons.prems False add by (auto split: option.splits prod.splits)
    have "r = None \<and> length (wk_nodes w1) = length (wk_nodes w)
        \<or> r = Some (length (wk_nodes w)) \<and> length (wk_nodes w1) = Suc (length (wk_nodes w))"
      using add add_candidate_length [OF add] by (auto simp: add_candidate_def Let_def split: if_splits sum.splits)
    moreover have "length (wk_nodes w1) \<le> length (wk_nodes w')" using add_all_grows [OF rest] by (simp add: grows_def)
    ultimately show ?thesis using Cons.IH [OF rest] js upt_rec [of "length (wk_nodes w)" "length (wk_nodes w')"] by auto
  qed
qed simp

definition candidates_of :: "graph_client \<Rightarrow> oci_reference \<Rightarrow> string list \<Rightarrow> walk_node \<Rightarrow> candidate list" where
  "candidates_of client repo tags n = fst (attached client repo tags n)"

definition complete_at :: "graph_client \<Rightarrow> oci_reference \<Rightarrow> string list \<Rightarrow> walker \<Rightarrow> nat \<Rightarrow> bool" where
  "complete_at client repo tags w i \<longleftrightarrow>
     (\<forall>c\<in>set (candidates_of client repo tags (wk_nodes w ! i)). accounted client (wk_seen w) (wk_nodes w ! i) c)"

lemma candidates_of_same: "wn_Manifest a = wn_Manifest b \<Longrightarrow> candidates_of client repo tags a = candidates_of client repo tags b"
  by (simp add: candidates_of_def attached_def Let_def split: prod.split)

lemma complete_at_grows:
  assumes "complete_at client repo tags w i" "grows w w'" "i < length (wk_nodes w)"
  shows "complete_at client repo tags w' i"
proof -
  have "wn_Manifest (wk_nodes w' ! i) = wn_Manifest (wk_nodes w ! i)" using assms(2,3) by (simp add: grows_def node_kept_def)
  from candidates_of_same [OF this] show ?thesis
    using assms(1) accounted_grows [OF _ assms(2,3)] by (simp add: complete_at_def)
qed

lemma walk_turn_complete:
  assumes "walk_turn client repo tags i depth w = (js, w')" "i < length (wk_nodes w)"
  shows "grows w w' \<and> complete_at client repo tags w' i \<and> js = [length (wk_nodes w)..<length (wk_nodes w')]"
proof -
  obtain cs n where found: "attached client repo tags (wk_nodes w ! i) = (cs, n)" by fastforce
  let ?w = "on_node i (\<lambda>_. n) w"
  obtain w1 where added: "add_all client depth i cs ?w = (js, w1)" and w': "w' = sort_referrers i w1"
    using assms(1) found by (auto simp: walk_turn_def split: prod.splits)
  have "node_kept (wk_nodes w ! i) n" using found by (auto simp: attached_def node_kept_def Let_def split: prod.splits)
  then have "grows w ?w" by (rule grows_on_node)
  moreover have sorted: "grows w1 w'" unfolding w' sort_referrers_def by (rule grows_on_node) (simp add: node_kept_def)
  ultimately have grows: "grows w w'" using grows_trans add_all_grows [OF added] by blast
  have i: "i < length (wk_nodes ?w)" "i < length (wk_nodes w1)" using assms(2) add_all_grows [OF added] by (auto simp: grows_def)
  have "candidates_of client repo tags (wk_nodes w' ! i) = cs"
    using grows assms(2) candidates_of_same [of "wk_nodes w' ! i" "wk_nodes w ! i" client repo tags] found
    by (simp add: grows_def node_kept_def candidates_of_def)
  then have "complete_at client repo tags w' i"
    using accounted_grows [OF add_all_accounted [OF added i(1)] sorted i(2)] by (simp add: complete_at_def)
  then show ?thesis using grows add_all_positions [OF added] w' by simp
qed

lemma walk_queue_complete:
  "(\<forall>i<length (wk_nodes w). i \<in> fst ` set queue \<or> complete_at client repo tags w i) \<Longrightarrow> (\<forall>i\<in>fst ` set queue. i < length (wk_nodes w)) \<Longrightarrow>
     \<forall>i<length (wk_nodes (walk_queue client repo tags queue w)). complete_at client repo tags (walk_queue client repo tags queue w) i"
proof (induction client repo tags queue w rule: walk_queue.induct)
  case (2 client repo tags i depth queue w)
  obtain js w1 where turn: "walk_turn client repo tags i depth w = (js, w1)" by fastforce
  have "i < length (wk_nodes w)" using "2.prems"(2) by simp
  note step = walk_turn_complete [OF turn this]
  let ?queue = "queue @ map (\<lambda>j. (j, depth + 1)) js"
  have on: "fst ` set ?queue = fst ` set queue \<union> {length (wk_nodes w)..<length (wk_nodes w1)}" using step by (simp add: image_Un image_image)
  have longer: "length (wk_nodes w) \<le> length (wk_nodes w1)" using step by (simp add: grows_def)
  have "\<forall>k<length (wk_nodes w1). k \<in> fst ` set ?queue \<or> complete_at client repo tags w1 k"
  proof (intro allI impI)
    fix k assume "k < length (wk_nodes w1)"
    then consider "length (wk_nodes w) \<le> k" "k < length (wk_nodes w1)" | "k = i" | "k < length (wk_nodes w)" "k \<noteq> i" by linarith
    then show "k \<in> fst ` set ?queue \<or> complete_at client repo tags w1 k"
    proof cases
      case 3
      then show ?thesis using "2.prems"(1) on complete_at_grows [of client repo tags w k w1] step by auto
    qed (use step on in simp_all)
  qed
  moreover have "\<forall>k\<in>fst ` set ?queue. k < length (wk_nodes w1)" using "2.prems"(2) longer unfolding on by auto
  ultimately show ?case using "2.IH" [OF turn [symmetric]] turn by (simp add: walk_queue.simps)
qed (simp add: walk_queue.simps)

text \<open>What a graph says of the artifacts attached to its nodes.\<close>

definition graph_complete :: "graph_client \<Rightarrow> oci_reference \<Rightarrow> walk_node list \<Rightarrow> bool" where
  "graph_complete client repo ns \<longleftrightarrow>
     (\<forall>n\<in>set ns. \<forall>c\<in>set (candidates_of client repo (fst (gc_ListTags client repo)) n). accounted client (node_digest ` set ns) n c)"

text \<open>C39: The graph of an artifact is bounded, a tree, and honest about what it leaves out: it has at most 64 manifests,
  none twice, no deeper than four levels below the root, each but the root attached exactly once, by a manifest found before it and one
  level up; and whatever is attached to a manifest of it, as a child of an index, a referrer or a tag of cosign's, is a manifest of the graph,
  or the one it is attached to is marked as cut or carries an error.\<close>

theorem walk_within_limits:
  assumes "Walk client ref = Inr graph"
  shows "(\<exists>level. graph_wf (gr_Nodes graph) level) \<and> length (gr_Nodes graph) \<le> maxGraphNodes
    \<and> graph_complete client (ref\<lparr>ref_Tag := [], ref_Digest := []\<rparr>) (gr_Nodes graph)"
proof -
  let ?repo = "ref\<lparr>ref_Tag := [], ref_Digest := []\<rparr>"
  obtain m where m: "gc_FetchManifest client ref = Inr m" using assms by (auto simp: Walk_def split: sum.splits)
  obtain tags err where tags: "gc_ListTags client ?repo = (tags, err)" by fastforce
  define root where "root = \<lparr>wn_Manifest = m, wn_Link = LinkRoot, wn_Tag = [], wn_Children = [], wn_Referrers = [], wn_Truncated = False,
    wn_Err = map_option ((@) ''listing tags for cosign signatures: '') err\<rparr>"
  define w where "w = \<lparr>wk_nodes = [root], wk_seen = {node_digest root}\<rparr>"
  let ?w = "walk_queue client ?repo tags [(0, 0)] w"
  have nodes: "gr_Nodes graph = wk_nodes ?w" using assms by (auto simp: Walk_def Let_def m tags root_def w_def)
  have "walker_wf w (\<lambda>_. 0)" by (simp add: walker_wf_def graph_wf_def w_def root_def attached_to_def)
  moreover have "queue_wf w (\<lambda>_. 0) [(0, 0)]" "length (wk_nodes w) \<le> maxGraphNodes"
    by (simp_all add: queue_wf_def w_def maxGraphNodes_def)
  ultimately obtain level where wf: "walker_wf ?w level" "length (wk_nodes ?w) \<le> maxGraphNodes" using walk_queue_wf by blast
  have "\<forall>i<length (wk_nodes ?w). complete_at client ?repo tags ?w i" by (rule walk_queue_complete) (simp_all add: w_def)
  moreover have "wk_seen ?w = node_digest ` set (wk_nodes ?w)" using wf(1) by (simp add: walker_wf_def)
  ultimately have "graph_complete client ?repo (wk_nodes ?w)"
    unfolding graph_complete_def complete_at_def tags fst_conv all_set_conv_all_nth by simp
  then show ?thesis using wf nodes by (auto simp: walker_wf_def)
qed

text \<open>An index with a child that cannot be read, a referrer that the index is a referrer of, and a signature under its tag.\<close>

definition sample_manifest :: "string \<Rightarrow> string list \<Rightarrow> manifest" where
  "sample_manifest digest children = (let d = (\<lambda>x. \<lparr>od_MediaType = [], od_ArtifactType = [], od_Digest = x, od_Size = 0, od_Annotations = Map.empty, od_Platform = []\<rparr>) in
     \<lparr>mf_Descriptor = d digest, mf_Config = None, mf_Layers = [], mf_Manifests = map d children, mf_Subject = None\<rparr>)"

definition sample_graph_client :: graph_client where
  "sample_graph_client =
     \<lparr>gc_FetchManifest = \<lambda>ref. if ref_Tag ref = ''1'' \<or> ref_Digest ref = ''sha256:a'' then Inr (sample_manifest ''sha256:a'' [''sha256:b''])
        else if ref_Digest ref = ''sha256:c'' then Inr (sample_manifest ''sha256:c'' [])
        else if ref_Tag ref = ''sha256-a.sig'' then Inr (sample_manifest ''sha256:d'' [])
        else Inl ''not found'',
      gc_Resolve = \<lambda>ref. Inl ''not found'', gc_ListTags = \<lambda>repo. ([''1'', ''sha256-a.sig''], None),
      gc_ListReferrers = \<lambda>ref. (map mf_Descriptor (if ref_Digest ref = ''sha256:a'' then [sample_manifest ''sha256:c'' []]
        else if ref_Digest ref = ''sha256:c'' then [sample_manifest ''sha256:a'' []] else []), None)\<rparr>"

definition sample_artifact :: oci_reference where
  "sample_artifact = \<lparr>ref_Registry = ''r'', ref_Repository = ''p'', ref_Tag = ''1'', ref_Digest = []\<rparr>"

lemma sample_walk:
  "map_sum id (\<lambda>g. map (\<lambda>n. (node_digest n, wn_Children n, wn_Referrers n, wn_Err n)) (gr_Nodes g)) (Walk sample_graph_client sample_artifact)
   = Inr [(''sha256:a'', [], [1, 2], Some ''not found''), (''sha256:c'', [], [], None), (''sha256:d'', [], [], None)]"
  by code_simp

theorem walk_within_limits_witness:
  "\<exists>graph. Walk sample_graph_client sample_artifact = Inr graph \<and> length (gr_Nodes graph) = 3 \<and> distinct (map node_digest (gr_Nodes graph))
    \<and> graph_complete sample_graph_client (sample_artifact\<lparr>ref_Tag := [], ref_Digest := []\<rparr>) (gr_Nodes graph)"
proof -
  obtain graph where graph: "Walk sample_graph_client sample_artifact = Inr graph"
    "map (\<lambda>n. (node_digest n, wn_Children n, wn_Referrers n, wn_Err n)) (gr_Nodes graph)
       = [(''sha256:a'', [], [1, 2], Some ''not found''), (''sha256:c'', [], [], None), (''sha256:d'', [], [], None)]"
    using sample_walk by (cases "Walk sample_graph_client sample_artifact") auto
  have "length (gr_Nodes graph) = 3" using arg_cong [OF graph(2), of length] by simp
  then show ?thesis using walk_within_limits [OF graph(1)] graph(1) by (auto simp: graph_wf_def)
qed

end
