(* ===== verification/Spec2Isabelle.thy ===== *)
theory Spec2Isabelle
  imports Promotion_Pipeline Scan_Schedule Approval Resolve_Merge Conditions Promotion_Record Api_Serving Api_Kitchen Evidence Serving_Properties Argocd_Properties
    Registry_Safety Registry_Access Resolve_Canonical Order_Safety Attestation Images_Reference Provenance Preparation_Controller
    Order_Serving Order_Watches Order_Request Order_Properties Registry_Properties Preparation_Properties Oci_Graph
begin

text \<open>
  Kokumi (\<open>github.com/kokumi-dev/kokumi\<close>) delivers software to Kubernetes clusters. A Product names an OCI
  artifact; an Order is a variant of it for an Environment; a render of an Order's intent is recorded as a
  Preparation, with a signature and provenance in the registry; the Serving of the Order deploys one
  Preparation to the Clusters of the Environment, after its gates: approvals, upstream stages, vulnerability
  checks. Controllers reconcile these objects. This development models the controllers of Orders,
  Preparations, Approvals and Servings and everything they decide with, in Go's own terms, and proves what
  they promise. Paths below are under \<open>src/\<close>.

  How the program is translated. A struct is a record with the fields in the source's order, an enumeration
  or a closed set of errors a datatype, a function a definition of the same name, with a suffix or prefix where two packages
  share a name or HOL has it; the pieces of long functions and the bodies of loops are definitions of their own. Errors
  are values of a sum, with the text the source formats; wrapped errors keep what \<open>errors.Is\<close> and \<open>errors.As\<close>
  later inspect. 32-bit and 64-bit integers are words where they can overflow, times are nanoseconds since the
  zero time, strings are byte lists. A reconcile is a function of the services it calls and of a state: the
  object, what the API server, the registry, the engine and the caches hold, and the Events so far. The services are
  records of functions: the Kubernetes API, the registry client, cryptography, YAML and JSON
  parsing, the clock. What the code relies on of them is stated as locales or named
  hypotheses, each with an instance that computes.

  Theories, from the library up.

  \<^item> \<open>Go_Prelude\<close>, \<open>Go_Strings\<close>, \<open>Go_Time\<close>, \<open>Go_Hash\<close>, \<open>Go_Json\<close>, \<open>Go_Glob\<close>: what the source uses of Go's
    standard library. The locale \<open>three_way\<close> gives the sorting lemmas to every comparison function. SHA-256 and the
    JSON encoding compute; the encoding is proved injective.
  \<^item> \<open>Kube_Api\<close>, \<open>Control\<close>, \<open>Reconcile\<close>, \<open>Lru_Cache\<close>, \<open>Conditions\<close>: objects on a server with optimistic locking
    (locale \<open>object_server\<close>, with a store that computes), outcomes of reads, writes and reconciles,
    caches of what verified, and status conditions (\<open>internal/conditions\<close>).
  \<^item> \<open>Api_Meta\<close>, \<open>Api_Order\<close>, \<open>Api_Product\<close>, \<open>Api_Preparation\<close>, \<open>Api_Serving\<close>, \<open>Api_Cluster\<close>, \<open>Api_Kitchen\<close>: the types of
    \<open>api/v1alpha1\<close> and their methods. \<open>Resources\<close>: the objects the controllers create.
  \<^item> \<open>Promotion_History\<close>, \<open>Promotion_Gate\<close>, \<open>Promotion_Pipeline\<close>, \<open>Promotion_Record\<close> (\<open>internal/promotion\<close>): the deployments of
    a stage, bounded and append-only; which upstream deployments let a revision through; the search for
    a cycle of stages, terminating by the number of Orders not yet visited; signed records.
  \<^item> \<open>Approval\<close>, \<open>Evidence\<close>, \<open>Attestation\<close>, \<open>Provenance\<close>, \<open>Vulnerability\<close>, \<open>Scan_Schedule\<close> (the packages of these names):
    votes open and sealed; evidence verified and cached; statements pushed once and found again; the
    provenance of a render; findings against a threshold; when images are scanned.
  \<^item> \<open>Registry_Location\<close>, \<open>Registry_Clients\<close>, \<open>Registry_Access\<close>, \<open>Registry_Safety\<close>, \<open>Registry_Properties\<close>
    (\<open>internal/registry\<close>) and \<open>Images_Reference\<close> (\<open>internal/images/reference.go\<close>): which Registry
    a location is reached through, with which credential and client. \<open>Oci_Graph\<close> (\<open>internal/oci/graph.go\<close>): the walk
    over what is attached to an artifact, which ends within its limits and marks what it leaves out.
  \<^item> \<open>Resolve_Merge\<close>, \<open>Resolve_Intent\<close>, \<open>Resolve_Canonical\<close> (\<open>internal/resolve\<close>): the Order merged over its Product, the intent, and
    its canonical bytes, which the hash of an intent is of.
  \<^item> \<open>Order_Controller\<close>, \<open>Order_Safety\<close>, \<open>Order_Serving\<close>, \<open>Order_Watches\<close>, \<open>Order_Request\<close>, \<open>Order_Properties\<close>
    (\<open>internal/controller/order_controller.go\<close>): the ways a reconcile ends as case rules, ownership of the
    Serving in the locale \<open>servings_server\<close>, the watches, whole requests, and rendering in two reconciles.
  \<^item> \<open>Preparation_Controller\<close>, \<open>Preparation_Safety\<close>, \<open>Preparation_Properties\<close> (\<open>preparation_controller.go\<close>,
    \<open>approval_controller.go\<close>): evidence attached, votes sealed and archived; the abstract machine of votes is the
    inductive relation \<open>seal_step\<close>, which requests refine.
  \<^item> \<open>Serving_State\<close>, \<open>Serving_Controller\<close>, \<open>Serving_Refinement\<close>, \<open>Serving_Safety\<close>, \<open>Serving_Sample\<close>, \<open>Serving_Properties\<close>
    (\<open>serving_controller.go\<close>): targets and status, the whole reconcile, its refinement of the abstract
    history of promotions, what a promotion requires and that it completes.
  \<^item> \<open>Argocd_Application\<close>, \<open>Argocd_Engine\<close>, \<open>Argocd_Deploy\<close>, \<open>Argocd_Safety\<close>, \<open>Argocd_Properties\<close> (\<open>internal/argocd\<close>,
    \<open>controller/argocd.go\<close>): the engine that points Applications at what is deployed. The Serving
    controller rests on the locale \<open>deployment_engines\<close>, which the engine's model satisfies.

  How the components interact. The Order controller records an intent in the Order's status, renders it in
  the reconcile that this status change triggers, and creates the Preparation and, for automatic promotion,
  the Serving. The Preparation controller signs the artifact and attaches provenance, which makes it Ready,
  and seals its votes while the Serving converges to it. The Serving controller evaluates the candidate's gates, opens a
  promotion in the history, records it in the registry, deploys through the engine, and records the
  deployment; a downstream stage reads that history and verifies that record.

  Bounds and fuel. Functions are total by structural recursion or by a measure; nothing runs on
  fuel but \<open>retry_adopt\<close>, whose number of tries is a parameter, as in \<open>retry.RetryOnConflict\<close>: it is
  arbitrary in every theorem. Histories, condition messages, event notes, reported accesses and listed
  failures are cut to the source's constants.

  What is not modelled, and why. The artifact pipeline, Helm, YAML, kustomize patches, image discovery and
  copying run on file systems and registries through libraries: \<open>ow_Render\<close> stands for them, and nothing is
  assumed of it. Key generation, Sigstore bundles and TLS are cryptography: verification is an argument with
  the laws of \<open>signer_laws\<close>. Reading Trivy reports and running the scanner are a process and its
  JSON. The controllers of Products, Recipes, Repositories, Registries, Clusters, Kitchens and scans mostly call these
  libraries. The HTTP server is handlers over the same API objects with sessions, OIDC and DTO
  conversions. Generated deep copies are left out, as HOL values are not aliased. Concurrency is
  modelled where the controllers meet it: caches may be stale, and writes conflict.

  Idealisations. What is proved of what Argo CD deploys and removes assumes reads that are not stale
  (\<open>applications_current\<close>); the manager reads through a cache whose objects \<open>TrimStatus\<close> trimmed, which
  \<open>trimming_keeps_state\<close> shows to be harmless. The guards of the engine hold on stale reads too. JSON strings
  are encoded byte by byte, as Go does for valid UTF-8 without U+2028 and U+2029; an empty list of
  groups is encoded as such, where Go writes null for a nil slice, which the API refuses. What Go sorts unstably by a
  comparison is sorted stably.
\<close>

end
